(* ===== verification/FP_Prelude.thy ===== *)
theory FP_Prelude
  imports Main "HOL-Library.Word"
begin

text \<open>
  Prelude of the FastPort verification library: the names of the machine types
  the sources use, raw memory as lists of bytes with the two-part copies of a
  ring buffer, and the generic lemmas on lists, rings and words that the
  component theories share.

  Sizes (\<open>size_t\<close>) are natural numbers: every size the buffers compute is bounded
  by a capacity that was allocated, so that no sum of two of them reaches
  \<open>2^64\<close>; where the sources use a 16, 32 or 64 bit counter whose width matters the
  model uses words.
\<close>

type_synonym byte = "8 word"
type_synonym u16 = "16 word"
type_synonym u32 = "32 word"
type_synonym u64 = "64 word"
type_synonym span = "nat \<times> nat"

named_theorems ring_simps \<open>positions and copies in a ring\<close>
named_theorems bytes_simps \<open>words to bytes and back\<close>

section \<open>Raw memory\<close>

text \<open>\<open>std::memcpy(dst + i, src, src.size())\<close> on a memory block.\<close>

definition memcpy_at :: "nat \<Rightarrow> 'a list \<Rightarrow> 'a list \<Rightarrow> 'a list" where
  "memcpy_at i src dst = take i dst @ src @ drop (i + length src) dst"

text \<open>The bytes a span of a memory block shows, and those of a vector of spans.\<close>

definition span_read :: "'a list \<Rightarrow> span \<Rightarrow> 'a list" where
  "span_read mem s = take (snd s) (drop (fst s) mem)"

definition gather :: "'a list \<Rightarrow> span list \<Rightarrow> 'a list" where
  "gather mem ss = concat (map (span_read mem) ss)"

definition spans_size :: "span list \<Rightarrow> nat" where
  "spans_size ss = sum_list (map snd ss)"

text \<open>Filling a vector of spans from its start, as a scatter write does; it stops
  when the data or the spans run out.\<close>

fun scatter :: "span list \<Rightarrow> 'a list \<Rightarrow> 'a list \<Rightarrow> 'a list" where
  "scatter [] data mem = mem"
| "scatter (s # ss) data mem =
     scatter ss (drop (snd s) data) (memcpy_at (fst s) (take (snd s) data) mem)"

lemma length_memcpy_at [simp]:
  "i + length src \<le> length dst \<Longrightarrow> length (memcpy_at i src dst) = length dst"
  by (simp add: memcpy_at_def)

lemma nth_memcpy_at:
  assumes "i + length src \<le> length dst" "j < length dst"
  shows "memcpy_at i src dst ! j =
    (if i \<le> j \<and> j < i + length src then src ! (j - i) else dst ! j)"
  using assms by (auto simp: memcpy_at_def nth_append min_def)

lemma memcpy_at_Nil [simp]: "i \<le> length dst \<Longrightarrow> memcpy_at i [] dst = dst"
  by (simp add: memcpy_at_def)

lemma gather_Nil [simp]: "gather mem [] = []"
  by (simp add: gather_def)

lemma gather_Cons [simp]: "gather mem (s # ss) = span_read mem s @ gather mem ss"
  by (simp add: gather_def)

lemma spans_size_Nil [simp]: "spans_size [] = 0"
  by (simp add: spans_size_def)

lemma spans_size_Cons [simp]: "spans_size (s # ss) = snd s + spans_size ss"
  by (simp add: spans_size_def)

text \<open>A copy into a block, seen through a window of it: inside the window it is a copy
  at the shifted position, outside it is invisible.\<close>

lemma length_span_read: "fst s + snd s \<le> length mem \<Longrightarrow> length (span_read mem s) = snd s"
  by (simp add: span_read_def)

lemma span_read_memcpy_in:
  assumes "b + n \<le> length mem" "i + length src \<le> n"
  shows "span_read (memcpy_at (b + i) src mem) (b, n) = memcpy_at i src (span_read mem (b, n))"
  using assms
  by (intro nth_equalityI) (auto simp: span_read_def nth_memcpy_at)

lemma span_read_memcpy_out:
  assumes "i + length src \<le> length mem" "b + n \<le> length mem"
    and "i + length src \<le> b \<or> b + n \<le> i"
  shows "span_read (memcpy_at i src mem) (b, n) = span_read mem (b, n)"
  using assms
  by (intro nth_equalityI) (auto simp: span_read_def nth_memcpy_at)

definition shift_spans :: "nat \<Rightarrow> span list \<Rightarrow> span list" where
  "shift_spans b ss = map (\<lambda>s. (b + fst s, snd s)) ss"

lemma shift_spans_simps [simp]:
  "shift_spans b [] = []"
  "shift_spans b (s # ss) = (b + fst s, snd s) # shift_spans b ss"
  by (simp_all add: shift_spans_def)

lemma spans_size_shift [simp]: "spans_size (shift_spans b ss) = spans_size ss"
  by (induction ss) auto

definition spans_within :: "nat \<Rightarrow> span list \<Rightarrow> bool" where
  "spans_within n ss \<longleftrightarrow> list_all (\<lambda>s. fst s + snd s \<le> n) ss"

lemma spans_within_simps [simp]:
  "spans_within n []"
  "spans_within n (s # ss) \<longleftrightarrow> fst s + snd s \<le> n \<and> spans_within n ss"
  by (simp_all add: spans_within_def)

lemma spans_within_shift:
  "b + n \<le> m \<Longrightarrow> spans_within n ss \<Longrightarrow> spans_within m (shift_spans b ss)"
  by (induction ss) auto

lemma gather_shift:
  assumes "b + n \<le> length mem" "spans_within n ss"
  shows "gather mem (shift_spans b ss) = gather (span_read mem (b, n)) ss"
  using assms(2)
proof (induction ss)
  case (Cons s ss)
  then have "span_read mem (b + fst s, snd s) = span_read (span_read mem (b, n)) s"
    by (auto simp: span_read_def drop_take min_def ac_simps)
  with Cons show ?case by simp
qed simp

lemma scatter_shift:
  assumes "b + n \<le> length mem" "spans_within n ss"
  shows "length (scatter (shift_spans b ss) d mem) = length mem"
    and "span_read (scatter (shift_spans b ss) d mem) (b, n) = scatter ss d (span_read mem (b, n))"
  using assms
proof (induction ss arbitrary: d mem)
  case (Cons s ss)
  case 1
  then show ?case using Cons.IH(1) by auto
next
  case (Cons s ss)
  case 2
  then show ?case using Cons.IH(2) by (auto simp: span_read_memcpy_in)
qed simp_all

lemma scatter_frame:
  assumes "b + n \<le> length mem" "spans_within n ss"
    and "b' + n' \<le> length mem" "b + n \<le> b' \<or> b' + n' \<le> b"
  shows "span_read (scatter (shift_spans b ss) d mem) (b', n') = span_read mem (b', n')"
  using assms
proof (induction ss arbitrary: d mem)
  case (Cons s ss)
  then have "span_read (memcpy_at (b + fst s) (take (snd s) d) mem) (b', n') = span_read mem (b', n')"
    by (intro span_read_memcpy_out) auto
  with Cons show ?case by auto
qed simp

section \<open>Rings\<close>

text \<open>\<open>ring_read mem p n\<close> are the \<open>n\<close> elements from position \<open>p\<close> on, wrapping at the end of
  the block; \<open>ring_spans\<close> are the one or two contiguous regions they occupy, and
  \<open>ring_write\<close> is the two-part copy that fills them.\<close>

definition ring_read :: "'a list \<Rightarrow> nat \<Rightarrow> nat \<Rightarrow> 'a list" where
  "ring_read mem p n = map (\<lambda>i. mem ! ((p + i) mod length mem)) [0..<n]"

definition ring_spans :: "nat \<Rightarrow> nat \<Rightarrow> nat \<Rightarrow> span list" where
  "ring_spans c p n =
     (p, min n (c - p)) # (if n > min n (c - p) then [(0, n - min n (c - p))] else [])"

definition ring_write :: "'a list \<Rightarrow> nat \<Rightarrow> 'a list \<Rightarrow> 'a list" where
  "ring_write mem p data =
     (let k = min (length data) (length mem - p);
          m1 = memcpy_at p (take k data) mem
      in if length data > k then memcpy_at 0 (drop k data) m1 else m1)"

lemma length_ring_read [simp]: "length (ring_read mem p n) = n"
  by (simp add: ring_read_def)

lemma nth_ring_read [simp]:
  "i < n \<Longrightarrow> ring_read mem p n ! i = mem ! ((p + i) mod length mem)"
  by (simp add: ring_read_def)

lemma ring_read_0 [simp]: "ring_read mem p 0 = []"
  by (simp add: ring_read_def)

lemma mod_once: "a < c \<Longrightarrow> b \<le> c \<Longrightarrow> (a + b) mod c = (if a + b < c then a + b else a + b - c)"
  for a b c :: nat
  by (simp add: mod_if)

lemma length_ring_write [simp]:
  assumes "p < length mem" "length data \<le> length mem"
  shows "length (ring_write mem p data) = length mem"
  using assms by (auto simp: ring_write_def Let_def min_def)

lemma nth_ring_write:
  assumes "p < length mem" "length data \<le> length mem" "j < length mem"
  shows "ring_write mem p data ! j =
    (let d = (if p \<le> j then j - p else j + length mem - p)
     in if d < length data then data ! d else mem ! j)"
proof (cases "length data \<le> length mem - p")
  case True
  with assms show ?thesis
    by (auto simp: ring_write_def Let_def min_def nth_memcpy_at)
next
  case False
  with assms show ?thesis
    by (auto simp: ring_write_def Let_def min_def nth_memcpy_at intro!: arg_cong[where f = "(!) data"])
qed

text \<open>The position \<open>i\<close> steps after the tail, after data was written behind the first
  \<open>s\<close> elements: the fundamental law of the ring.\<close>

lemma ring_distance:
  fixes t s i c :: nat
  assumes "t < c" "s < c" "i < c"
  defines "p \<equiv> (t + s) mod c" and "j \<equiv> (t + i) mod c"
  shows "(if p \<le> j then j - p else j + c - p) = (if s \<le> i then i - s else i + c - s)"
proof -
  have p: "p = (if t + s < c then t + s else t + s - c)" and j: "j = (if t + i < c then t + i else t + i - c)"
    using assms by (simp_all add: mod_once)
  show ?thesis
    using assms(1-3) unfolding p j
    by (cases "t + s < c"; cases "t + i < c"; cases "s \<le> i"; simp)
qed

lemma ring_write_after:
  assumes "t < length mem" "s + length data \<le> length mem" "i < length mem"
  shows "ring_write mem ((t + s) mod length mem) data ! ((t + i) mod length mem) =
    (if s \<le> i \<and> i < s + length data then data ! (i - s) else mem ! ((t + i) mod length mem))"
proof -
  have "0 < length mem" using assms(1) by linarith
  then have "ring_write mem ((t + s) mod length mem) data ! ((t + i) mod length mem) =
      (let d = (if (t + s) mod length mem \<le> (t + i) mod length mem
                then (t + i) mod length mem - (t + s) mod length mem
                else (t + i) mod length mem + length mem - (t + s) mod length mem)
       in if d < length data then data ! d else mem ! ((t + i) mod length mem))"
    using assms(2) by (intro nth_ring_write) auto
  also have "\<dots> = (if s \<le> i \<and> i < s + length data then data ! (i - s) else mem ! ((t + i) mod length mem))"
  proof (cases "s = length mem")
    case True
    then show ?thesis using assms by simp
  next
    case False
    then have "s < length mem" using assms(2) by simp
    then show ?thesis
      unfolding ring_distance[OF assms(1) \<open>s < length mem\<close> assms(3)]
      using assms by (auto simp: Let_def)
  qed
  finally show ?thesis .
qed

lemma ring_read_append:
  assumes "t < length mem" "s + length data \<le> length mem"
  shows "ring_read (ring_write mem ((t + s) mod length mem) data) t (s + length data) =
    ring_read mem t s @ data"
proof (rule nth_equalityI)
  have [simp]: "length (ring_write mem ((t + s) mod length mem) data) = length mem"
    using assms by (intro length_ring_write) (auto intro: mod_less_divisor)
  fix i assume "i < length (ring_read (ring_write mem ((t + s) mod length mem) data) t (s + length data))"
  then have i: "i < s + length data" by simp
  with assms show "ring_read (ring_write mem ((t + s) mod length mem) data) t (s + length data) ! i =
      (ring_read mem t s @ data) ! i"
    by (simp add: nth_append ring_write_after)
qed simp

lemma ring_read_keep:
  assumes "t < length mem" "s + length data \<le> length mem"
  shows "ring_read (ring_write mem ((t + s) mod length mem) data) t s = ring_read mem t s"
proof -
  have "take s (ring_read (ring_write mem ((t + s) mod length mem) data) t (s + length data)) =
    ring_read mem t s"
    by (simp add: ring_read_append[OF assms])
  then show ?thesis
    by (simp add: ring_read_def take_map)
qed

lemma take_ring_read: "n \<le> s \<Longrightarrow> take n (ring_read mem t s) = ring_read mem t n"
  by (simp add: ring_read_def take_map)

lemma drop_ring_read:
  assumes "n \<le> s"
  shows "drop n (ring_read mem t s) = ring_read mem ((t + n) mod length mem) (s - n)"
  using assms by (intro nth_equalityI) (auto simp: mod_simps ac_simps)

lemma gather_ring_spans:
  assumes "t < length mem" "n \<le> length mem"
  shows "gather mem (ring_spans (length mem) t n) = ring_read mem t n"
proof (rule nth_equalityI)
  show "length (gather mem (ring_spans (length mem) t n)) = length (ring_read mem t n)"
    using assms by (auto simp: ring_spans_def span_read_def)
  fix i assume "i < length (gather mem (ring_spans (length mem) t n))"
  with assms show "gather mem (ring_spans (length mem) t n) ! i = ring_read mem t n ! i"
    by (auto simp: ring_spans_def span_read_def nth_append mod_once min_def add.commute
        split: if_splits)
qed

lemma spans_size_ring_spans [simp]: "spans_size (ring_spans c p n) = n"
  by (simp add: ring_spans_def)

lemma scatter_ring_spans:
  assumes "p < length mem" "length data \<le> n" "n \<le> length mem"
  shows "scatter (ring_spans (length mem) p n) data mem = ring_write mem p data"
  using assms by (auto simp: ring_spans_def ring_write_def Let_def min_def)

lemma spans_within_ring [simp]: "p < c \<Longrightarrow> n \<le> c \<Longrightarrow> spans_within c (ring_spans c p n)"
  by (auto simp: ring_spans_def)

lemma ring_read_move:
  "ring_read mem ((t + n) mod length mem) k = ring_read mem (t + n) k"
  by (simp add: ring_read_def mod_simps)

lemma ring_read_split:
  "ring_read mem t (s + k) = ring_read mem t s @ ring_read mem ((t + s) mod length mem) k"
  unfolding ring_read_move by (intro nth_equalityI) (auto simp: nth_append)

lemmas [ring_simps] = take_ring_read drop_ring_read gather_ring_spans scatter_ring_spans
  ring_read_append ring_read_keep

end
