(* ===== verification/Timer_Queue.thy ===== *)
theory Timer_Queue
  imports FP_Prelude
begin

text \<open>
  \<open>TimerQueue\<close> (\<open>LibCommons/TimerQueue.ixx\<close>, \<open>TimerQueue.cpp\<close>): timers on the Windows thread
  pool. An \<open>Entry\<close> lives on a heap of entries (\<open>tq_Heap\<close>, addressed by its position) because a
  running callback keeps it alive after \<open>Cancel\<close> took it out of the map \<open>tq_Entries\<close>; the map
  keeps the order of insertion, which stands for the unspecified order of the code's hash
  map. The thread pool answers whether \<open>CreateThreadpoolTimer\<close> succeeds and hands out the
  address of the entry as a fresh handle; all calls to it are recorded in \<open>tq_Trace\<close>, and so are
  the call of a job and its return (\<open>TpInvoke\<close>, \<open>TpReturn\<close>).

  One call runs to its end before the next; \<open>tq_Current\<close> is the thread-local
  \<open>g_pCurrentCallbackEntry\<close> of the running thread. Entries of one queue only: \<open>owner\<close> is always
  this queue. A callback is a function on the queue, since it may schedule and cancel;
  an exception it throws is swallowed by \<open>RunEntry\<close>.
\<close>

unbundle bit_operations_syntax

type_synonym TimerId = u64

abbreviation kInvalidTimerId :: TimerId where
  "kInvalidTimerId \<equiv> 0"

datatype EntryState = Scheduled | ERunning | Completed | Cancelled

datatype QueueState = QRunning | QShuttingDown | QDead

record TimerJob =
  job_invoke :: nat
  job_name :: string

record Entry =
  e_id :: TimerId
  e_handle :: "nat option"
  e_job :: TimerJob
  e_state :: EntryState
  e_isPeriodic :: bool
  e_interval :: int
  e_closeAfterCallback :: bool

datatype tp_event =
    TpCreate nat
  | TpSet nat "u32 \<times> u32" u32
  | TpDisarm nat
  | TpWait nat bool
  | TpClose nat
  | TpInvoke nat
  | TpReturn nat

record TimerQueue =
  tq_Heap :: "Entry list"
  tq_Entries :: "(TimerId \<times> nat) list"
  tq_NextId :: TimerId
  tq_QueueState :: QueueState
  tq_Current :: "nat option"
  tq_Trace :: "tp_event list"

definition TimerQueue_ctor :: TimerQueue where
  "TimerQueue_ctor =
     \<lparr>tq_Heap = [], tq_Entries = [], tq_NextId = 1, tq_QueueState = QRunning,
      tq_Current = None, tq_Trace = []\<rparr>"

text \<open>A relative due time in units of 100 ns, negative, split in two halves.\<close>

definition MakeRelativeDueTime :: "int \<Rightarrow> u32 \<times> u32" where
  "MakeRelativeDueTime delayMs =
     (let hundredNs = - ((delayMs * 1000000) div 100);
          q = word_of_int hundredNs :: u64
      in (ucast q, ucast (drop_bit 32 q)))"

definition AllocateId :: "TimerQueue \<Rightarrow> TimerId \<times> TimerQueue" where
  "AllocateId q =
     (let id1 = tq_NextId q; q1 = q\<lparr>tq_NextId := tq_NextId q + 1\<rparr> in
      if id1 = kInvalidTimerId
      then (tq_NextId q1, q1\<lparr>tq_NextId := tq_NextId q1 + 1\<rparr>)
      else (id1, q1))"

definition tp_log :: "tp_event \<Rightarrow> TimerQueue \<Rightarrow> TimerQueue" where
  "tp_log e q = q\<lparr>tq_Trace := tq_Trace q @ [e]\<rparr>"

definition set_entry :: "nat \<Rightarrow> Entry \<Rightarrow> TimerQueue \<Rightarrow> TimerQueue" where
  "set_entry p e q = q\<lparr>tq_Heap := (tq_Heap q)[p := e]\<rparr>"

text \<open>\<open>tpOk\<close> is the answer of \<open>CreateThreadpoolTimer\<close>, from the history.\<close>

definition ScheduleImpl ::
  "(tp_event list \<Rightarrow> bool) \<Rightarrow> int \<Rightarrow> TimerJob \<Rightarrow> bool \<Rightarrow> int \<Rightarrow> TimerQueue \<Rightarrow> TimerId \<times> TimerQueue" where
  "ScheduleImpl tpOk delay job isPeriodic interval q =
     (if tq_QueueState q \<noteq> QRunning then (kInvalidTimerId, q)
      else
        let (id1, q1) = AllocateId q;
            p = length (tq_Heap q1);
            ent = \<lparr>e_id = id1, e_handle = None, e_job = job, e_state = Scheduled,
                   e_isPeriodic = isPeriodic, e_interval = interval, e_closeAfterCallback = False\<rparr>;
            ok = tpOk (tq_Trace q1);
            q2 = tp_log (TpCreate p) (q1\<lparr>tq_Heap := tq_Heap q1 @ [ent]\<rparr>)
        in if \<not> ok then (kInvalidTimerId, q2)
           else
             let q3 = set_entry p (ent\<lparr>e_handle := Some p\<rparr>) q2;
                 q4 = (if map_of (tq_Entries q3) id1 = None
                       then q3\<lparr>tq_Entries := tq_Entries q3 @ [(id1, p)]\<rparr> else q3);
                 due = MakeRelativeDueTime delay;
                 period = (if isPeriodic then word_of_int (max 0 interval) else 0 :: u32)
             in (id1, tp_log (TpSet p due period) q4))"

text \<open>\<open>TpTimerCallback\<close> and \<open>RunEntry\<close>: \<open>invoke p\<close> is the effect of the job of entry \<open>p\<close>.\<close>

definition RunEntry :: "(nat \<Rightarrow> TimerQueue \<Rightarrow> TimerQueue) \<Rightarrow> nat \<Rightarrow> TimerQueue \<Rightarrow> TimerQueue" where
  "RunEntry invoke p q =
     (let previous = tq_Current q;
          q1 = q\<lparr>tq_Current := Some p\<rparr>;
          expected = e_state (tq_Heap q1 ! p);
          q2 = (if expected = Scheduled
                then set_entry p ((tq_Heap q1 ! p)\<lparr>e_state := ERunning\<rparr>) q1 else q1)
      in if expected = Cancelled then q2\<lparr>tq_Current := previous\<rparr>
         else
           let q3 = tp_log (TpReturn p) (invoke p (tp_log (TpInvoke p) q2));
               e3 = tq_Heap q3 ! p;
               e4 = (if \<not> e_isPeriodic e3 then e3\<lparr>e_state := Completed\<rparr>
                     else if e_state e3 = ERunning then e3\<lparr>e_state := Scheduled\<rparr> else e3);
               q4 = set_entry p e4 q3;
               q5 = (if e_closeAfterCallback e4
                     then
                       let qa = set_entry p (e4\<lparr>e_closeAfterCallback := False, e_handle := None\<rparr>) q4
                       in (case e_handle e4 of None \<Rightarrow> qa | Some h \<Rightarrow> tp_log (TpClose h) qa)
                     else q4)
           in q5\<lparr>tq_Current := previous\<rparr>)"

definition TpTimerCallback :: "(nat \<Rightarrow> TimerQueue \<Rightarrow> TimerQueue) \<Rightarrow> nat option \<Rightarrow> TimerQueue \<Rightarrow> TimerQueue" where
  "TpTimerCallback invoke pEntry q =
     (case pEntry of None \<Rightarrow> q | Some p \<Rightarrow> RunEntry invoke p q)"

definition CancelImpl :: "TimerId \<Rightarrow> bool \<Rightarrow> bool \<Rightarrow> TimerQueue \<Rightarrow> bool \<times> TimerQueue" where
  "CancelImpl tid waitForCallbacks currentCallbackEntry q =
     (if tid = kInvalidTimerId then (False, q)
      else
        case map_of (tq_Entries q) tid of
          None \<Rightarrow> (False, q)
        | Some p \<Rightarrow>
            let q1 = q\<lparr>tq_Entries := filter (\<lambda>kv. fst kv \<noteq> tid) (tq_Entries q)\<rparr>;
                e1 = (tq_Heap q1 ! p)\<lparr>e_state := Cancelled\<rparr>;
                q2 = set_entry p e1 q1
            in (case e_handle e1 of
                  None \<Rightarrow> (True, q2)
                | Some h \<Rightarrow>
                    let q3 = tp_log (TpDisarm h) q2 in
                    if currentCallbackEntry
                    then (True, set_entry p (e1\<lparr>e_closeAfterCallback := True\<rparr>) q3)
                    else (True, set_entry p (e1\<lparr>e_handle := None\<rparr>)
                                  (tp_log (TpClose h) (tp_log (TpWait h waitForCallbacks) q3)))))"

definition IsCurrentCallbackEntry :: "TimerId \<Rightarrow> TimerQueue \<Rightarrow> bool" where
  "IsCurrentCallbackEntry tid q \<longleftrightarrow>
     (case tq_Current q of None \<Rightarrow> False | Some p \<Rightarrow> e_id (tq_Heap q ! p) = tid)"

fun cancel_each :: "bool \<Rightarrow> TimerId list \<Rightarrow> TimerQueue \<Rightarrow> TimerQueue" where
  "cancel_each wait [] q = q"
| "cancel_each wait (tid # ids) q =
     cancel_each wait ids (snd (CancelImpl tid wait (IsCurrentCallbackEntry tid q) q))"

definition ShutdownImpl :: "bool \<Rightarrow> TimerQueue \<Rightarrow> TimerQueue" where
  "ShutdownImpl waitForCallbacks q =
     (if tq_QueueState q \<noteq> QRunning then q
      else
        let q1 = q\<lparr>tq_QueueState := QShuttingDown\<rparr>;
            ids = map fst (tq_Entries q1)
        in (cancel_each waitForCallbacks ids q1)\<lparr>tq_QueueState := QDead\<rparr>)"

definition TimerQueue_dtor :: "TimerQueue \<Rightarrow> TimerQueue" where
  "TimerQueue_dtor q = ShutdownImpl True q"

definition ScheduleOnce ::
  "(tp_event list \<Rightarrow> bool) \<Rightarrow> int \<Rightarrow> nat \<Rightarrow> string \<Rightarrow> TimerQueue \<Rightarrow> TimerId \<times> TimerQueue" where
  "ScheduleOnce tpOk delay task name q =
     ScheduleImpl tpOk delay \<lparr>job_invoke = task, job_name = name\<rparr> False 0 q"

definition SchedulePeriodic ::
  "(tp_event list \<Rightarrow> bool) \<Rightarrow> int \<Rightarrow> nat \<Rightarrow> string \<Rightarrow> TimerQueue \<Rightarrow> TimerId \<times> TimerQueue" where
  "SchedulePeriodic tpOk interval task name q =
     ScheduleImpl tpOk interval \<lparr>job_invoke = task, job_name = name\<rparr> True interval q"

text \<open>The overloads for an \<open>ITimerCommand\<close> (its task and name), which may be null.\<close>

definition ScheduleOnce_cmd ::
  "(tp_event list \<Rightarrow> bool) \<Rightarrow> int \<Rightarrow> (nat \<times> string) option \<Rightarrow> TimerQueue \<Rightarrow> TimerId \<times> TimerQueue" where
  "ScheduleOnce_cmd tpOk delay cmd q =
     (case cmd of None \<Rightarrow> (kInvalidTimerId, q)
      | Some c \<Rightarrow> ScheduleOnce tpOk delay (fst c) (snd c) q)"

definition SchedulePeriodic_cmd ::
  "(tp_event list \<Rightarrow> bool) \<Rightarrow> int \<Rightarrow> (nat \<times> string) option \<Rightarrow> TimerQueue \<Rightarrow> TimerId \<times> TimerQueue" where
  "SchedulePeriodic_cmd tpOk interval cmd q =
     (case cmd of None \<Rightarrow> (kInvalidTimerId, q)
      | Some c \<Rightarrow> SchedulePeriodic tpOk interval (fst c) (snd c) q)"

definition TimerQueue_Cancel :: "TimerId \<Rightarrow> TimerQueue \<Rightarrow> bool \<times> TimerQueue" where
  "TimerQueue_Cancel tid q = CancelImpl tid True (IsCurrentCallbackEntry tid q) q"

definition TimerQueue_Shutdown :: "bool \<Rightarrow> TimerQueue \<Rightarrow> TimerQueue" where
  "TimerQueue_Shutdown waitForCallbacks q = ShutdownImpl waitForCallbacks q"

section \<open>ScopedTimer\<close>

text \<open>The RAII handle: whether it owns (the queue pointer) and the id.\<close>

record ScopedTimer =
  st_hasQueue :: bool
  st_Id :: TimerId

definition ScopedTimer_ctor :: "TimerId \<Rightarrow> ScopedTimer" where
  "ScopedTimer_ctor tid = \<lparr>st_hasQueue = True, st_Id = tid\<rparr>"

definition ScopedTimer_dtor :: "ScopedTimer \<Rightarrow> TimerQueue \<Rightarrow> TimerQueue" where
  "ScopedTimer_dtor t q =
     (if st_hasQueue t \<and> st_Id t \<noteq> kInvalidTimerId then snd (TimerQueue_Cancel (st_Id t) q) else q)"

definition ScopedTimer_move :: "ScopedTimer \<Rightarrow> ScopedTimer \<times> ScopedTimer" where
  "ScopedTimer_move other = (other, \<lparr>st_hasQueue = False, st_Id = kInvalidTimerId\<rparr>)"

text \<open>Move assignment between two distinct objects: new target, new source.\<close>

definition ScopedTimer_assign ::
  "ScopedTimer \<Rightarrow> ScopedTimer \<Rightarrow> TimerQueue \<Rightarrow> ScopedTimer \<times> ScopedTimer \<times> TimerQueue" where
  "ScopedTimer_assign this other q =
     (let q1 = ScopedTimer_dtor this q
      in (other, \<lparr>st_hasQueue = False, st_Id = kInvalidTimerId\<rparr>, q1))"

definition ScopedTimer_Release :: "ScopedTimer \<Rightarrow> TimerId \<times> ScopedTimer" where
  "ScopedTimer_Release t = (st_Id t, \<lparr>st_hasQueue = False, st_Id = kInvalidTimerId\<rparr>)"

definition ScopedTimer_IsValid :: "ScopedTimer \<Rightarrow> bool" where
  "ScopedTimer_IsValid t \<longleftrightarrow> st_Id t \<noteq> kInvalidTimerId"

definition ScopedTimer_Get :: "ScopedTimer \<Rightarrow> TimerId" where
  "ScopedTimer_Get t = st_Id t"

section \<open>Invariant\<close>

definition tp_closes :: "nat \<Rightarrow> tp_event list \<Rightarrow> nat" where
  "tp_closes h tr = length (filter ((=) (TpClose h)) tr)"

lemma tp_closes_simps [simp]:
  "tp_closes h [] = 0"
  "tp_closes h (a @ b) = tp_closes h a + tp_closes h b"
  "tp_closes h (e # tr) = (if e = TpClose h then 1 else 0) + tp_closes h tr"
  by (auto simp: tp_closes_def)

text \<open>Handles: an entry has its own address as handle or none; a handle still held is not
  closed, and no handle is closed twice. Map: keys are distinct and not the invalid id, and
  each points to an entry with that id which still holds its handle and is not cancelled.\<close>

definition handle_ok :: "tp_event list \<Rightarrow> nat \<Rightarrow> Entry \<Rightarrow> bool" where
  "handle_ok tr p e \<longleftrightarrow> (case e_handle e of None \<Rightarrow> True | Some h \<Rightarrow> h = p \<and> tp_closes p tr = 0)"

definition close_ok :: "nat \<Rightarrow> tp_event list \<Rightarrow> nat \<Rightarrow> bool" where
  "close_ok n tr h \<longleftrightarrow> tp_closes h tr \<le> (if h < n then 1 else 0)"

definition heap_ok :: "TimerQueue \<Rightarrow> bool" where
  "heap_ok q \<longleftrightarrow> (\<forall>p < length (tq_Heap q). handle_ok (tq_Trace q) p (tq_Heap q ! p)) \<and>
     (\<forall>h. close_ok (length (tq_Heap q)) (tq_Trace q) h)"

definition listed_ok :: "Entry list \<Rightarrow> TimerId \<times> nat \<Rightarrow> bool" where
  "listed_ok heap kv \<longleftrightarrow> (case kv of (tid, p) \<Rightarrow> tid \<noteq> kInvalidTimerId \<and> p < length heap \<and>
     e_id (heap ! p) = tid \<and> e_handle (heap ! p) = Some p \<and> e_state (heap ! p) \<noteq> Cancelled \<and>
     \<not> e_closeAfterCallback (heap ! p))"

definition map_ok :: "TimerQueue \<Rightarrow> bool" where
  "map_ok q \<longleftrightarrow> distinct (map fst (tq_Entries q)) \<and> list_all (listed_ok (tq_Heap q)) (tq_Entries q)"

definition tq_inv :: "TimerQueue \<Rightarrow> bool" where
  "tq_inv q \<longleftrightarrow> heap_ok q \<and> map_ok q"

lemma tq_inv_ctor: "tq_inv TimerQueue_ctor"
  by (simp add: tq_inv_def heap_ok_def map_ok_def TimerQueue_ctor_def close_ok_def)

lemma AllocateId_fields:
  assumes "AllocateId q = (i, q')"
  shows "i \<noteq> kInvalidTimerId" "tq_Heap q' = tq_Heap q" "tq_Entries q' = tq_Entries q"
    "tq_QueueState q' = tq_QueueState q" "tq_Current q' = tq_Current q" "tq_Trace q' = tq_Trace q"
  using assms by (auto simp: AllocateId_def Let_def split: if_splits)

lemma tp_log_fields [simp]:
  "tq_Heap (tp_log e q) = tq_Heap q" "tq_Entries (tp_log e q) = tq_Entries q"
  "tq_NextId (tp_log e q) = tq_NextId q" "tq_QueueState (tp_log e q) = tq_QueueState q"
  "tq_Current (tp_log e q) = tq_Current q" "tq_Trace (tp_log e q) = tq_Trace q @ [e]"
  by (simp_all add: tp_log_def)

lemma set_entry_fields [simp]:
  "tq_Heap (set_entry p e q) = (tq_Heap q)[p := e]" "tq_Entries (set_entry p e q) = tq_Entries q"
  "tq_NextId (set_entry p e q) = tq_NextId q" "tq_QueueState (set_entry p e q) = tq_QueueState q"
  "tq_Current (set_entry p e q) = tq_Current q" "tq_Trace (set_entry p e q) = tq_Trace q"
  by (simp_all add: set_entry_def)

fun is_close :: "tp_event \<Rightarrow> bool" where
  "is_close (TpClose h) = True"
| "is_close _ = False"

lemma heap_ok_log [simp]:
  assumes "\<not> is_close e"
  shows "heap_ok (tp_log e q) = heap_ok q"
proof -
  have c: "tp_closes h (tq_Trace q @ [e]) = tp_closes h (tq_Trace q)" for h
    using assms by (cases e) auto
  have "handle_ok (tq_Trace q @ [e]) p x = handle_ok (tq_Trace q) p x" for p x
    by (simp only: handle_ok_def c)
  moreover have "close_ok n (tq_Trace q @ [e]) h = close_ok n (tq_Trace q) h" for n h
    by (simp only: close_ok_def c)
  ultimately show ?thesis by (simp add: heap_ok_def)
qed

lemma map_ok_log [simp]: "map_ok (tp_log e q) = map_ok q"
  by (simp add: map_ok_def)

lemma tq_inv_current [simp]: "tq_inv (q\<lparr>tq_Current := c\<rparr>) = tq_inv q"
  by (simp add: tq_inv_def heap_ok_def map_ok_def)

lemma tq_inv_state [simp]: "tq_inv (q\<lparr>tq_QueueState := c\<rparr>) = tq_inv q"
  by (simp add: tq_inv_def heap_ok_def map_ok_def)

section \<open>The operations keep the invariant\<close>

lemma handle_ok_same: "e_handle e = e_handle e' \<Longrightarrow> handle_ok tr p e = handle_ok tr p e'"
  by (simp add: handle_ok_def)

lemma handle_ok_None: "e_handle e = None \<Longrightarrow> handle_ok tr p e"
  by (simp add: handle_ok_def)

lemma heap_ok_set:
  assumes "heap_ok q" "p < length (tq_Heap q)"
    "e_handle e = e_handle (tq_Heap q ! p) \<or> e_handle e = None"
  shows "heap_ok (set_entry p e q)"
proof -
  have "handle_ok (tq_Trace q) p e"
    using assms handle_ok_same[of e "tq_Heap q ! p"] handle_ok_None[of e] by (auto simp: heap_ok_def)
  then show ?thesis
    using assms(1,2) by (auto simp: heap_ok_def nth_list_update)
qed

lemma heap_ok_close:
  assumes "heap_ok q" "p < length (tq_Heap q)" "e_handle (tq_Heap q ! p) = Some h" "e_handle e = None"
  shows "heap_ok (set_entry p e (tp_log (TpClose h) q))"
    and "heap_ok (tp_log (TpClose h) (set_entry p e q))"
proof -
  have hp: "handle_ok (tq_Trace q) p (tq_Heap q ! p)" using assms by (simp add: heap_ok_def)
  then have h: "h = p" "tp_closes p (tq_Trace q) = 0" using assms(3) by (auto simp: handle_ok_def)
  have other: "handle_ok (tq_Trace q @ [TpClose p]) p' x" if "handle_ok (tq_Trace q) p' x" "p' \<noteq> p" for p' x
    using that by (auto simp: handle_ok_def split: option.splits)
  have closes: "close_ok n (tq_Trace q @ [TpClose p]) k" if "close_ok n (tq_Trace q) k" "p < n" for n k
    using that h(2) by (auto simp: close_ok_def)
  show "heap_ok (set_entry p e (tp_log (TpClose h) q))" "heap_ok (tp_log (TpClose h) (set_entry p e q))"
    using assms other closes handle_ok_None[OF assms(4)]
    by (simp_all add: heap_ok_def h(1) nth_list_update)
qed

lemma map_ok_drop:
  assumes "map_ok q"
  shows "map_ok (q\<lparr>tq_Entries := filter P (tq_Entries q)\<rparr>)"
  using assms by (simp add: map_ok_def distinct_map_filter list_all_iff)

lemma map_ok_set_unlisted:
  assumes "map_ok q" "p \<notin> snd ` set (tq_Entries q)"
  shows "map_ok (set_entry p e q)"
proof -
  have "listed_ok ((tq_Heap q)[p := e]) kv" if "kv \<in> set (tq_Entries q)" "listed_ok (tq_Heap q) kv" for kv
    using that assms(2) by (cases kv) (auto simp: listed_ok_def image_iff)
  then show ?thesis using assms(1) by (simp add: map_ok_def list_all_iff)
qed

lemma map_ok_set_listed:
  assumes "map_ok q" "p < length (tq_Heap q)" "e_id e = e_id (tq_Heap q ! p)"
    "e_handle e = e_handle (tq_Heap q ! p)" "e_state e \<noteq> Cancelled \<or> e_state e = e_state (tq_Heap q ! p)"
    "e_closeAfterCallback e = e_closeAfterCallback (tq_Heap q ! p)"
  shows "map_ok (set_entry p e q)"
proof -
  have "listed_ok ((tq_Heap q)[p := e]) kv" if "listed_ok (tq_Heap q) kv" for kv
    using that assms by (cases kv; cases "snd kv = p") (auto simp: listed_ok_def)
  then show ?thesis using assms(1) by (simp add: map_ok_def list_all_iff)
qed

lemma listed_entry:
  assumes "map_ok q" "map_of (tq_Entries q) tid = Some p"
  shows "tid \<noteq> kInvalidTimerId" "p < length (tq_Heap q)" "e_id (tq_Heap q ! p) = tid"
    "e_handle (tq_Heap q ! p) = Some p" "e_state (tq_Heap q ! p) \<noteq> Cancelled"
    "\<not> e_closeAfterCallback (tq_Heap q ! p)"
proof -
  have "listed_ok (tq_Heap q) (tid, p)"
    using assms map_of_SomeD[OF assms(2)] by (auto simp: map_ok_def list_all_iff)
  then show "tid \<noteq> kInvalidTimerId" "p < length (tq_Heap q)" "e_id (tq_Heap q ! p) = tid"
    "e_handle (tq_Heap q ! p) = Some p" "e_state (tq_Heap q ! p) \<noteq> Cancelled"
    "\<not> e_closeAfterCallback (tq_Heap q ! p)"
    by (auto simp: listed_ok_def)
qed

text \<open>Ids determine entries, so cancelling one id unlists one address.\<close>

lemma unlisted_after_cancel:
  assumes "map_ok q" "map_of (tq_Entries q) tid = Some p"
  shows "p \<notin> snd ` set (filter (\<lambda>kv. fst kv \<noteq> tid) (tq_Entries q))"
proof
  assume "p \<in> snd ` set (filter (\<lambda>kv. fst kv \<noteq> tid) (tq_Entries q))"
  then obtain k where "(k, p) \<in> set (tq_Entries q)" "k \<noteq> tid" by auto
  then have "listed_ok (tq_Heap q) (k, p)" using assms(1) by (auto simp: map_ok_def list_all_iff)
  then show False using listed_entry(3)[OF assms] \<open>k \<noteq> tid\<close> by (simp add: listed_ok_def)
qed

lemma not_closed_yet:
  assumes "heap_ok q"
  shows "tp_closes (length (tq_Heap q)) (tq_Trace q) = 0"
proof -
  have "close_ok (length (tq_Heap q)) (tq_Trace q) (length (tq_Heap q))"
    using assms by (simp add: heap_ok_def)
  then show ?thesis by (simp add: close_ok_def)
qed

lemma heap_ok_push:
  assumes "heap_ok q" "e_handle e = None \<or> e_handle e = Some (length (tq_Heap q))"
  shows "heap_ok (q\<lparr>tq_Heap := tq_Heap q @ [e]\<rparr>)"
proof -
  have "handle_ok (tq_Trace q) (length (tq_Heap q)) e"
    using assms(2) not_closed_yet[OF assms(1)] by (auto simp: handle_ok_def)
  moreover have "close_ok (Suc n) tr h" if "close_ok n tr h" for n tr h
    using that by (auto simp: close_ok_def split: if_splits)
  ultimately show ?thesis
    using assms(1) by (auto simp: heap_ok_def nth_append less_Suc_eq)
qed

lemma map_ok_push:
  assumes "map_ok q"
  shows "map_ok (q\<lparr>tq_Heap := tq_Heap q @ [e]\<rparr>)"
proof -
  have "listed_ok (tq_Heap q @ [e]) kv" if "listed_ok (tq_Heap q) kv" for kv
    using that by (cases kv) (auto simp: listed_ok_def nth_append)
  then show ?thesis using assms by (simp add: map_ok_def list_all_iff)
qed

lemma Schedule_inv:
  assumes "tq_inv q"
  shows "tq_inv (snd (ScheduleImpl tpOk delay job per iv q))"
    and "length (tq_Heap q) \<le> length (tq_Heap (snd (ScheduleImpl tpOk delay job per iv q)))"
proof -
  obtain i q1 where a: "AllocateId q = (i, q1)" by (cases "AllocateId q")
  note f = AllocateId_fields[OF a]
  have h: "heap_ok q1" "map_ok q1" using assms f by (auto simp: tq_inv_def heap_ok_def map_ok_def)
  let ?p = "length (tq_Heap q1)"
  let ?e = "\<lparr>e_id = i, e_handle = None, e_job = job, e_state = Scheduled,
     e_isPeriodic = per, e_interval = iv, e_closeAfterCallback = False\<rparr>"
  let ?push = "\<lambda>e. q1\<lparr>tq_Heap := tq_Heap q1 @ [e]\<rparr>"
  have two: "tq_inv (tp_log (TpCreate ?p) (?push ?e))"
    using heap_ok_push[OF h(1), of ?e] map_ok_push[OF h(2), of ?e] by (simp add: tq_inv_def)
  let ?q3 = "set_entry ?p (?e\<lparr>e_handle := Some ?p\<rparr>) (tp_log (TpCreate ?p) (?push ?e))"
  have q3: "?q3 = tp_log (TpCreate ?p) (?push (?e\<lparr>e_handle := Some ?p\<rparr>))"
    by (simp add: set_entry_def tp_log_def)
  have three: "heap_ok ?q3" "map_ok ?q3"
    unfolding q3
    using heap_ok_push[OF h(1), of "?e\<lparr>e_handle := Some ?p\<rparr>"] map_ok_push[OF h(2), of "?e\<lparr>e_handle := Some ?p\<rparr>"]
    by simp_all
  have "listed_ok (tq_Heap ?q3) (i, ?p)"
    using f(1) by (simp add: listed_ok_def)
  then have four: "map_ok (?q3\<lparr>tq_Entries := tq_Entries ?q3 @ [(i, ?p)]\<rparr>)"
    if "map_of (tq_Entries ?q3) i = None"
    using three(2) that by (auto simp: map_ok_def map_of_eq_None_iff image_iff)
  have five: "heap_ok (?q3\<lparr>tq_Entries := es\<rparr>)" for es
    using three(1) by (simp add: heap_ok_def)
  show "tq_inv (snd (ScheduleImpl tpOk delay job per iv q))"
    using assms two three four five
    by (simp add: ScheduleImpl_def a Let_def tq_inv_def del: set_entry_fields)
  show "length (tq_Heap q) \<le> length (tq_Heap (snd (ScheduleImpl tpOk delay job per iv q)))"
    using f(2) by (simp add: ScheduleImpl_def a Let_def)
qed

lemma Cancel_inv:
  assumes "tq_inv q"
  shows "tq_inv (snd (CancelImpl tid wait cur q))"
    and "length (tq_Heap (snd (CancelImpl tid wait cur q))) = length (tq_Heap q)"
    and "tq_Current (snd (CancelImpl tid wait cur q)) = tq_Current q"
proof -
  have h: "heap_ok q" "map_ok q" using assms by (auto simp: tq_inv_def)
  have "tq_inv (snd (CancelImpl tid wait cur q)) \<and>
    length (tq_Heap (snd (CancelImpl tid wait cur q))) = length (tq_Heap q) \<and>
    tq_Current (snd (CancelImpl tid wait cur q)) = tq_Current q"
  proof (cases "tid = kInvalidTimerId \<or> map_of (tq_Entries q) tid = None")
    case True
    then show ?thesis using assms by (auto simp: CancelImpl_def)
  next
    case False
    then obtain p where p: "map_of (tq_Entries q) tid = Some p" by auto
    let ?q1 = "q\<lparr>tq_Entries := filter (\<lambda>kv. fst kv \<noteq> tid) (tq_Entries q)\<rparr>"
    let ?e = "(tq_Heap q ! p)\<lparr>e_state := Cancelled\<rparr>"
    note l = listed_entry[OF h(2) p]
    have q1: "heap_ok ?q1" "map_ok ?q1" "p \<notin> snd ` set (tq_Entries ?q1)"
      using h(1) map_ok_drop[OF h(2)] unlisted_after_cancel[OF h(2) p] by (auto simp: heap_ok_def)
    let ?q3 = "tp_log (TpDisarm p) (set_entry p ?e ?q1)"
    have q3: "heap_ok ?q3" "map_ok ?q3" "p \<notin> snd ` set (tq_Entries ?q3)"
      using q1 l by (auto intro!: heap_ok_set map_ok_set_unlisted)
    have "tq_inv (set_entry p (?e\<lparr>e_closeAfterCallback := True\<rparr>) ?q3)"
      using q3 l unfolding tq_inv_def by (intro conjI heap_ok_set map_ok_set_unlisted) auto
    moreover have "tq_inv (set_entry p (?e\<lparr>e_handle := None\<rparr>)
        (tp_log (TpClose p) (tp_log (TpWait p wait) ?q3)))"
      using q3 l unfolding tq_inv_def
      by (intro conjI heap_ok_close map_ok_set_unlisted) auto
    ultimately show ?thesis
      using p l by (auto simp: CancelImpl_def Let_def)
  qed
  then show "tq_inv (snd (CancelImpl tid wait cur q))"
    "length (tq_Heap (snd (CancelImpl tid wait cur q))) = length (tq_Heap q)"
    "tq_Current (snd (CancelImpl tid wait cur q)) = tq_Current q" by auto
qed

lemma cancel_each_inv:
  assumes "tq_inv q"
  shows "tq_inv (cancel_each wait ids q)"
  using assms by (induction ids arbitrary: q) (auto intro: Cancel_inv)

lemma Shutdown_inv: "tq_inv q \<Longrightarrow> tq_inv (ShutdownImpl wait q)"
  using cancel_each_inv[of "q\<lparr>tq_QueueState := QShuttingDown\<rparr>"]
  by (auto simp: ShutdownImpl_def Let_def)

text \<open>What a job may do to the queue it runs on.\<close>

locale timer_jobs =
  fixes invoke :: "nat \<Rightarrow> TimerQueue \<Rightarrow> TimerQueue"
  assumes invoke_inv: "tq_inv q \<Longrightarrow> tq_inv (invoke p q)"
    and invoke_heap: "tq_inv q \<Longrightarrow> length (tq_Heap q) \<le> length (tq_Heap (invoke p q))"
begin

lemma RunEntry_inv:
  assumes "tq_inv q" "p < length (tq_Heap q)"
  shows "tq_inv (RunEntry invoke p q)"
proof (cases "e_state (tq_Heap q ! p) = Cancelled")
  case True
  then show ?thesis using assms by (simp add: RunEntry_def Let_def)
next
  case False
  define q1 where "q1 = q\<lparr>tq_Current := Some p\<rparr>"
  define q2 where "q2 = (if e_state (tq_Heap q1 ! p) = Scheduled
    then set_entry p ((tq_Heap q1 ! p)\<lparr>e_state := ERunning\<rparr>) q1 else q1)"
  define q3 where "q3 = tp_log (TpReturn p) (invoke p (tp_log (TpInvoke p) q2))"
  define e3 where "e3 = tq_Heap q3 ! p"
  define e4 where "e4 = (if \<not> e_isPeriodic e3 then e3\<lparr>e_state := Completed\<rparr>
     else if e_state e3 = ERunning then e3\<lparr>e_state := Scheduled\<rparr> else e3)"
  define q4 where "q4 = set_entry p e4 q3"
  define qa where "qa = set_entry p (e4\<lparr>e_closeAfterCallback := False, e_handle := None\<rparr>) q4"
  have run: "RunEntry invoke p q =
    (if e_closeAfterCallback e4
     then (case e_handle e4 of None \<Rightarrow> qa | Some h \<Rightarrow> tp_log (TpClose h) qa)
     else q4)\<lparr>tq_Current := tq_Current q\<rparr>"
    using False unfolding q1_def q2_def q3_def e3_def e4_def q4_def qa_def RunEntry_def Let_def by simp
  have i1: "tq_inv q1" "p < length (tq_Heap q1)" using assms by (simp_all add: q1_def)
  then have i2: "tq_inv (tp_log (TpInvoke p) q2)" "length (tq_Heap q2) = length (tq_Heap q1)"
    by (auto simp: q2_def tq_inv_def intro!: heap_ok_set map_ok_set_listed)
  have i3: "tq_inv q3" "p < length (tq_Heap q3)"
    using invoke_inv[OF i2(1)] invoke_heap[OF i2(1), of p] i1(2) i2(2) by (simp_all add: q3_def tq_inv_def)
  have e4: "e_handle e4 = e_handle e3" "e_id e4 = e_id e3"
    "e_closeAfterCallback e4 = e_closeAfterCallback e3" "e_state e4 \<noteq> Cancelled \<or> e_state e4 = e_state e3"
    by (simp_all add: e4_def)
  have i4: "heap_ok q4" "map_ok q4" "p < length (tq_Heap q4)" "tq_Heap q4 ! p = e4"
    using i3 e4 unfolding q4_def tq_inv_def
    by (auto intro!: heap_ok_set map_ok_set_listed simp: e3_def)
  have unlisted: "p \<notin> snd ` set (tq_Entries q4)" if "e_closeAfterCallback e4"
  proof
    assume "p \<in> snd ` set (tq_Entries q4)"
    then obtain k where "listed_ok (tq_Heap q4) (k, p)"
      using i4(2) by (auto simp: map_ok_def list_all_iff)
    then show False using that i4(4) by (auto simp: listed_ok_def)
  qed
  have "tq_inv (case e_handle e4 of None \<Rightarrow> qa | Some h \<Rightarrow> tp_log (TpClose h) qa)"
    if "e_closeAfterCallback e4"
    using i4 map_ok_set_unlisted[OF i4(2) unlisted[OF that]] unfolding tq_inv_def qa_def
    by (auto split: option.split intro!: heap_ok_set heap_ok_close(2))
  moreover have "tq_inv q4" using i4 by (simp add: tq_inv_def)
  ultimately show ?thesis unfolding run by simp
qed

end

section \<open>Cancelling\<close>

text \<open>The effect of cancelling a listed timer.\<close>

lemma Cancel_listed:
  fixes wait cur :: bool
  assumes "tq_inv q" "map_of (tq_Entries q) tid = Some p"
  defines "q' \<equiv> snd (CancelImpl tid wait cur q)"
  shows "fst (CancelImpl tid wait cur q)"
    and "tq_Entries q' = filter (\<lambda>kv. fst kv \<noteq> tid) (tq_Entries q)"
    and "e_state (tq_Heap q' ! p) = Cancelled"
    and "cur \<Longrightarrow> e_closeAfterCallback (tq_Heap q' ! p) \<and> e_handle (tq_Heap q' ! p) = Some p"
    and "\<not> cur \<Longrightarrow> e_handle (tq_Heap q' ! p) = None \<and> tp_closes p (tq_Trace q') = 1"
    and "k \<noteq> p \<Longrightarrow> tq_Heap q' ! k = tq_Heap q ! k \<and> tp_closes k (tq_Trace q') = tp_closes k (tq_Trace q)"
    and "e_id (tq_Heap q' ! k) = e_id (tq_Heap q ! k)"
    and "tq_QueueState q' = tq_QueueState q"
proof -
  have m: "map_ok q" and h: "heap_ok q" using assms(1) by (auto simp: tq_inv_def)
  note l = listed_entry[OF m assms(2)]
  have "handle_ok (tq_Trace q) p (tq_Heap q ! p)" using h l(2) by (simp add: heap_ok_def)
  then have z: "tp_closes p (tq_Trace q) = 0" using l(4) by (simp add: handle_ok_def)
  let ?e1 = "(tq_Heap q ! p)\<lparr>e_state := Cancelled\<rparr>"
  have c: "CancelImpl tid wait cur q = (True,
    if cur then set_entry p (?e1\<lparr>e_closeAfterCallback := True\<rparr>)
      (tp_log (TpDisarm p) (set_entry p ?e1 (q\<lparr>tq_Entries := filter (\<lambda>kv. fst kv \<noteq> tid) (tq_Entries q)\<rparr>)))
    else set_entry p (?e1\<lparr>e_handle := None\<rparr>) (tp_log (TpClose p) (tp_log (TpWait p wait)
      (tp_log (TpDisarm p) (set_entry p ?e1 (q\<lparr>tq_Entries := filter (\<lambda>kv. fst kv \<noteq> tid) (tq_Entries q)\<rparr>))))))"
    using l(1,4) assms(2) by (simp add: CancelImpl_def Let_def)
  show "fst (CancelImpl tid wait cur q)"
    "tq_Entries q' = filter (\<lambda>kv. fst kv \<noteq> tid) (tq_Entries q)"
    "e_state (tq_Heap q' ! p) = Cancelled"
    "cur \<Longrightarrow> e_closeAfterCallback (tq_Heap q' ! p) \<and> e_handle (tq_Heap q' ! p) = Some p"
    "\<not> cur \<Longrightarrow> e_handle (tq_Heap q' ! p) = None \<and> tp_closes p (tq_Trace q') = 1"
    "k \<noteq> p \<Longrightarrow> tq_Heap q' ! k = tq_Heap q ! k \<and> tp_closes k (tq_Trace q') = tp_closes k (tq_Trace q)"
    "tq_QueueState q' = tq_QueueState q"
    unfolding q'_def c using l(2,4) z by simp_all
  show "e_id (tq_Heap q' ! k) = e_id (tq_Heap q ! k)"
    using l(2) by (cases "k = p") (simp_all add: q'_def c)
qed

text \<open>What shutting down leaves of a timer that was listed.\<close>

definition retired :: "bool \<Rightarrow> nat \<Rightarrow> TimerQueue \<Rightarrow> bool" where
  "retired cur p q \<longleftrightarrow> e_state (tq_Heap q ! p) = Cancelled \<and>
     (if cur then e_closeAfterCallback (tq_Heap q ! p) \<and> e_handle (tq_Heap q ! p) = Some p
      else e_handle (tq_Heap q ! p) = None \<and> tp_closes p (tq_Trace q) = 1)"

lemma map_of_filter_key:
  "map_of (filter (\<lambda>kv. fst kv \<noteq> a) xs) k = (if k = a then None else map_of xs k)"
  by (induction xs) auto

lemma cancel_each_keep:
  assumes "tq_inv q" "p \<notin> snd ` set (tq_Entries q)" "retired cur p q"
  shows "retired cur p (cancel_each wait ids q)"
  using assms
proof (induction ids arbitrary: q)
  case (Cons a ids)
  let ?q = "snd (CancelImpl a wait (IsCurrentCallbackEntry a q) q)"
  show ?case
  proof (cases "a = kInvalidTimerId \<or> map_of (tq_Entries q) a = None")
    case True
    then have "?q = q" by (auto simp: CancelImpl_def)
    then show ?thesis using Cons by simp
  next
    case False
    then obtain k where k: "map_of (tq_Entries q) a = Some k" by auto
    then have "k \<noteq> p" using Cons.prems(2) by (force dest: map_of_SomeD)
    then have "retired cur p ?q" "p \<notin> snd ` set (tq_Entries ?q)"
      using Cancel_listed[OF Cons.prems(1) k] Cons.prems(2,3) by (auto simp: retired_def)
    then show ?thesis using Cons.IH Cancel_inv(1)[OF Cons.prems(1)] by simp
  qed
qed simp

lemma cancel_each_all:
  assumes "tq_inv q" "map fst (tq_Entries q) = ids"
  shows "tq_Entries (cancel_each wait ids q) = [] \<and>
    (\<forall>tid p. map_of (tq_Entries q) tid = Some p \<longrightarrow>
       retired (IsCurrentCallbackEntry tid q) p (cancel_each wait ids q))"
  using assms
proof (induction ids arbitrary: q)
  case (Cons a ids)
  then obtain k rest where es: "tq_Entries q = (a, k) # rest" "map fst rest = ids" by auto
  let ?q = "snd (CancelImpl a wait (IsCurrentCallbackEntry a q) q)"
  have k: "map_of (tq_Entries q) a = Some k" by (simp add: es)
  note c = Cancel_listed[OF Cons.prems(1) k, where wait = wait and cur = "IsCurrentCallbackEntry a q"]
  have dist: "a \<notin> fst ` set rest"
    using Cons.prems(1) unfolding tq_inv_def map_ok_def es(1) set_map[symmetric] by simp
  have rest: "tq_Entries ?q = rest"
    using c(2) es dist by (force intro!: filter_True)
  have inv: "tq_inv ?q" by (rule Cancel_inv(1)[OF Cons.prems(1)])
  have cur: "IsCurrentCallbackEntry t ?q = IsCurrentCallbackEntry t q" for t
    using Cancel_inv(3)[OF Cons.prems(1)] c(7)
    by (auto simp: IsCurrentCallbackEntry_def split: option.splits)
  have k_gone: "k \<notin> snd ` set (tq_Entries ?q)"
    using unlisted_after_cancel[OF _ k] Cons.prems(1) c(2) by (simp add: tq_inv_def)
  have "retired (IsCurrentCallbackEntry a q) k ?q"
    using c(3-5) by (auto simp: retired_def)
  then have "retired (IsCurrentCallbackEntry a q) k (cancel_each wait ids ?q)"
    by (rule cancel_each_keep[OF inv k_gone])
  moreover note Cons.IH[OF inv, unfolded rest, OF es(2)]
  ultimately show ?case using es(1) by (auto simp: cur)
qed (auto)

lemma Cancel_unlisted:
  "map_of (tq_Entries q) tid = None \<Longrightarrow> CancelImpl tid wait cur q = (False, q)"
  by (simp add: CancelImpl_def)

section \<open>Whole runs\<close>

text \<open>The calls a client, or a job that runs on the queue, can make.\<close>

datatype tq_call = CallOnce int nat string | CallPeriodic int nat string
  | CallCancel TimerId | CallShutdown bool

fun tq_do :: "(tp_event list \<Rightarrow> bool) \<Rightarrow> tq_call \<Rightarrow> TimerQueue \<Rightarrow> TimerQueue" where
  "tq_do tpOk (CallOnce d t n) q = snd (ScheduleOnce tpOk d t n q)"
| "tq_do tpOk (CallPeriodic d t n) q = snd (SchedulePeriodic tpOk d t n q)"
| "tq_do tpOk (CallCancel tid) q = snd (TimerQueue_Cancel tid q)"
| "tq_do tpOk (CallShutdown w) q = TimerQueue_Shutdown w q"

text \<open>A job is known by its task number; its script is the calls it makes.\<close>

definition run_job ::
  "(tp_event list \<Rightarrow> bool) \<Rightarrow> (nat \<Rightarrow> tq_call list) \<Rightarrow> nat \<Rightarrow> TimerQueue \<Rightarrow> TimerQueue" where
  "run_job tpOk script p q = fold (tq_do tpOk) (script (job_invoke (e_job (tq_Heap q ! p)))) q"

lemma cancel_each_heap:
  "tq_inv q \<Longrightarrow> length (tq_Heap (cancel_each wait ids q)) = length (tq_Heap q)"
  by (induction ids arbitrary: q) (auto simp: Cancel_inv)

lemma tq_do_inv:
  assumes "tq_inv q"
  shows "tq_inv (tq_do tpOk c q)" "length (tq_Heap q) \<le> length (tq_Heap (tq_do tpOk c q))"
proof -
  have "tq_inv (tq_do tpOk c q) \<and> length (tq_Heap q) \<le> length (tq_Heap (tq_do tpOk c q))"
  proof (cases c)
    case (CallOnce d t n)
    then show ?thesis using Schedule_inv[OF assms] by (simp add: ScheduleOnce_def)
  next
    case (CallPeriodic d t n)
    then show ?thesis using Schedule_inv[OF assms] by (simp add: SchedulePeriodic_def)
  next
    case (CallCancel tid)
    then show ?thesis using Cancel_inv(1,2)[OF assms] by (simp add: TimerQueue_Cancel_def)
  next
    case (CallShutdown w)
    then show ?thesis
      using Shutdown_inv[OF assms] assms cancel_each_heap[of "q\<lparr>tq_QueueState := QShuttingDown\<rparr>" w]
      by (simp add: TimerQueue_Shutdown_def ShutdownImpl_def Let_def)
  qed
  then show "tq_inv (tq_do tpOk c q)" "length (tq_Heap q) \<le> length (tq_Heap (tq_do tpOk c q))" by auto
qed

lemma tq_fold_inv:
  assumes "tq_inv q"
  shows "tq_inv (fold (tq_do tpOk) cs q)" "length (tq_Heap q) \<le> length (tq_Heap (fold (tq_do tpOk) cs q))"
proof -
  have "tq_inv (fold (tq_do tpOk) cs q) \<and> length (tq_Heap q) \<le> length (tq_Heap (fold (tq_do tpOk) cs q))"
    using assms
  proof (induction cs arbitrary: q)
    case (Cons c cs)
    then show ?case
      using Cons.IH[OF tq_do_inv(1)[OF Cons.prems, of tpOk c]] tq_do_inv(2)[OF Cons.prems, of tpOk c] by simp
  qed simp
  then show "tq_inv (fold (tq_do tpOk) cs q)"
    "length (tq_Heap q) \<le> length (tq_Heap (fold (tq_do tpOk) cs q))" by auto
qed

text \<open>Jobs that schedule, cancel (themselves too) and shut down keep the contract.\<close>

interpretation scripted: timer_jobs "run_job tpOk script" for tpOk script
  by unfold_locales (simp_all add: run_job_def tq_fold_inv)

inductive tq_reach :: "(tp_event list \<Rightarrow> bool) \<Rightarrow> (nat \<Rightarrow> tq_call list) \<Rightarrow> TimerQueue \<Rightarrow> bool"
  for tpOk script where
  tq_init: "tq_reach tpOk script TimerQueue_ctor"
| tq_call: "tq_reach tpOk script q \<Longrightarrow> tq_reach tpOk script (tq_do tpOk c q)"
| tq_fire: "tq_reach tpOk script q \<Longrightarrow> p < length (tq_Heap q) \<Longrightarrow>
    tq_reach tpOk script (TpTimerCallback (run_job tpOk script) (Some p) q)"

lemma tq_reach_inv: "tq_reach tpOk script q \<Longrightarrow> tq_inv q"
  by (induction rule: tq_reach.induct)
    (auto simp: tq_inv_ctor tq_do_inv TpTimerCallback_def scripted.RunEntry_inv)

section \<open>No handle is closed under its callback\<close>

text \<open>Whether the job of the timer with handle \<open>h\<close> is running, as the calls so far tell it.\<close>

definition in_callback :: "nat \<Rightarrow> tp_event list \<Rightarrow> bool" where
  "in_callback h tr = (case filter (\<lambda>e. e = TpInvoke h \<or> e = TpReturn h) (rev tr) of
     [] \<Rightarrow> False | e # _ \<Rightarrow> e = TpInvoke h)"

lemma in_callback_simps [simp]:
  "\<not> in_callback h []"
  "in_callback h (tr @ [e]) = (if e = TpInvoke h then True else if e = TpReturn h then False else in_callback h tr)"
  by (simp_all add: in_callback_def)

text \<open>What the calls before a wait and a close have to be: neither happens inside the timer's own
  job, and a close comes directly after the wait for the timer's callbacks or after the return of
  its own job.\<close>

fun event_ok :: "tp_event list \<Rightarrow> tp_event \<Rightarrow> bool" where
  "event_ok past (TpWait h w) = (\<not> in_callback h past)"
| "event_ok past (TpClose h) = (\<not> in_callback h past \<and> past \<noteq> [] \<and>
     (last past = TpReturn h \<or> last past = TpWait h True \<or> last past = TpWait h False))"
| "event_ok past _ = True"

definition trace_ok :: "tp_event list \<Rightarrow> bool" where
  "trace_ok tr \<longleftrightarrow> (\<forall>past e later. tr = past @ e # later \<longrightarrow> event_ok past e)"

lemma trace_ok_simps [simp]: "trace_ok []" "trace_ok (tr @ [e]) = (trace_ok tr \<and> event_ok tr e)"
proof -
  show "trace_ok (tr @ [e]) = (trace_ok tr \<and> event_ok tr e)"
  proof
    assume ok: "trace_ok (tr @ [e])"
    have "event_ok past x" if "tr = past @ x # later" for past x later
    proof -
      have "tr @ [e] = past @ x # (later @ [e])" by (simp add: that)
      then show ?thesis using ok unfolding trace_ok_def by blast
    qed
    moreover have "event_ok tr e" using ok unfolding trace_ok_def by blast
    ultimately show "trace_ok tr \<and> event_ok tr e" unfolding trace_ok_def by blast
  next
    assume ok: "trace_ok tr \<and> event_ok tr e"
    have "event_ok past x" if "tr @ [e] = past @ x # later" for past x later
      using that ok by (cases later rule: rev_cases) (auto simp: trace_ok_def)
    then show "trace_ok (tr @ [e])" unfolding trace_ok_def by blast
  qed
qed (simp add: trace_ok_def)

text \<open>The running callback is the one \<open>g_pCurrentCallbackEntry\<close> points to.\<close>

definition tq_calm :: "TimerQueue \<Rightarrow> bool" where
  "tq_calm q \<longleftrightarrow> trace_ok (tq_Trace q) \<and> (\<forall>h. in_callback h (tq_Trace q) \<longleftrightarrow> tq_Current q = Some h)"

lemma tq_calm_simps [simp]:
  "tq_calm (set_entry p e q) = tq_calm q" "tq_calm (q\<lparr>tq_Entries := es\<rparr>) = tq_calm q"
  by (simp_all add: tq_calm_def)

lemma tq_calm_log:
  assumes "tq_calm q" "event_ok (tq_Trace q) e" "\<And>h. e \<noteq> TpInvoke h" "\<And>h. e \<noteq> TpReturn h"
  shows "tq_calm (tp_log e q)"
  using assms by (simp add: tq_calm_def)

lemma Schedule_calm:
  assumes "tq_calm q"
  shows "tq_calm (snd (ScheduleImpl tpOk delay job per iv q)) \<and>
    tq_Current (snd (ScheduleImpl tpOk delay job per iv q)) = tq_Current q"
proof -
  obtain i q1 where a: "AllocateId q = (i, q1)" by (cases "AllocateId q")
  show ?thesis
    using assms AllocateId_fields(5,6)[OF a] by (auto simp: ScheduleImpl_def a Let_def tq_calm_def)
qed

lemma Cancel_calm:
  assumes "tq_inv q" "tq_calm q"
  shows "tq_calm (snd (CancelImpl tid wait (IsCurrentCallbackEntry tid q) q))"
proof (cases "tid = kInvalidTimerId \<or> map_of (tq_Entries q) tid = None")
  case True
  then show ?thesis using assms by (auto simp: CancelImpl_def)
next
  case False
  then obtain p where p: "map_of (tq_Entries q) tid = Some p" by auto
  note l = listed_entry[OF assms(1)[unfolded tq_inv_def, THEN conjunct2] p]
  let ?e1 = "(tq_Heap q ! p)\<lparr>e_state := Cancelled\<rparr>"
  define q2 where "q2 = set_entry p ?e1 (q\<lparr>tq_Entries := filter (\<lambda>kv. fst kv \<noteq> tid) (tq_Entries q)\<rparr>)"
  have c: "snd (CancelImpl tid wait cur q) =
    (if cur then set_entry p (?e1\<lparr>e_closeAfterCallback := True\<rparr>) (tp_log (TpDisarm p) q2)
     else set_entry p (?e1\<lparr>e_handle := None\<rparr>) (tp_log (TpClose p) (tp_log (TpWait p wait) (tp_log (TpDisarm p) q2))))" for cur
    using l(1,4) p by (simp add: CancelImpl_def Let_def q2_def)
  have d: "tq_calm (tp_log (TpDisarm p) q2)" using assms(2) by (intro tq_calm_log) (simp_all add: q2_def)
  have "tq_calm (tp_log (TpClose p) (tp_log (TpWait p wait) (tp_log (TpDisarm p) q2)))" if "\<not> IsCurrentCallbackEntry tid q"
  proof -
    have "tq_Current q \<noteq> Some p" using that l(3) by (auto simp: IsCurrentCallbackEntry_def)
    then have "\<not> in_callback p (tq_Trace q)" using assms(2) by (simp add: tq_calm_def)
    then have "\<not> in_callback p (tq_Trace (tp_log (TpDisarm p) q2))" by (simp add: q2_def)
    then show ?thesis using d by - (rule tq_calm_log, rule tq_calm_log; cases wait; simp del: append_assoc)
  qed
  then show ?thesis using d by (simp add: c)
qed

lemma cancel_each_calm:
  assumes "tq_inv q" "tq_calm q"
  shows "tq_calm (cancel_each wait ids q) \<and> tq_Current (cancel_each wait ids q) = tq_Current q"
  using assms
proof (induction ids arbitrary: q)
  case (Cons tid ids)
  let ?q = "snd (CancelImpl tid wait (IsCurrentCallbackEntry tid q) q)"
  show ?case
    using Cons.IH[of ?q] Cancel_inv(1,3)[OF Cons.prems(1)] Cancel_calm[OF Cons.prems] by simp
qed simp

lemma tq_do_calm:
  assumes "tq_inv q" "tq_calm q"
  shows "tq_calm (tq_do tpOk c q) \<and> tq_Current (tq_do tpOk c q) = tq_Current q"
proof (cases c)
  case (CallCancel tid)
  then show ?thesis using Cancel_calm[OF assms] Cancel_inv(3)[OF assms(1)] by (simp add: TimerQueue_Cancel_def)
next
  case (CallShutdown w)
  let ?q1 = "q\<lparr>tq_QueueState := QShuttingDown\<rparr>"
  have "tq_calm ?q1" using assms(2) by (simp add: tq_calm_def)
  then have "tq_calm (cancel_each w (map fst (tq_Entries q)) ?q1) \<and>
    tq_Current (cancel_each w (map fst (tq_Entries q)) ?q1) = tq_Current q"
    using cancel_each_calm[of ?q1 w "map fst (tq_Entries q)"] assms(1) by simp
  then show ?thesis
    using assms(2) CallShutdown by (simp add: TimerQueue_Shutdown_def ShutdownImpl_def Let_def tq_calm_def)
qed (simp_all add: ScheduleOnce_def SchedulePeriodic_def Schedule_calm[OF assms(2)])

lemma run_job_calm:
  assumes "tq_inv q" "tq_calm q"
  shows "tq_calm (run_job tpOk script p q) \<and> tq_Current (run_job tpOk script p q) = tq_Current q"
proof -
  have "tq_calm (fold (tq_do tpOk) cs q) \<and> tq_Current (fold (tq_do tpOk) cs q) = tq_Current q" for cs
    using assms
  proof (induction cs arbitrary: q)
    case (Cons c cs)
    then show ?case using tq_do_inv(1)[OF Cons.prems(1), of tpOk c] tq_do_calm[OF Cons.prems, of tpOk c] by simp
  qed simp
  then show ?thesis by (simp add: run_job_def)
qed

lemma RunEntry_calm:
  assumes "tq_inv q" "tq_calm q" "tq_Current q = None" "p < length (tq_Heap q)"
  shows "tq_calm (RunEntry (run_job tpOk script) p q) \<and> tq_Current (RunEntry (run_job tpOk script) p q) = None"
proof (cases "e_state (tq_Heap q ! p) = Cancelled")
  case True
  then show ?thesis using assms by (simp add: RunEntry_def Let_def tq_calm_def)
next
  case False
  define q1 where "q1 = q\<lparr>tq_Current := Some p\<rparr>"
  define q2 where "q2 = (if e_state (tq_Heap q1 ! p) = Scheduled
    then set_entry p ((tq_Heap q1 ! p)\<lparr>e_state := ERunning\<rparr>) q1 else q1)"
  define qj where "qj = run_job tpOk script p (tp_log (TpInvoke p) q2)"
  have "tq_inv q1" "p < length (tq_Heap q1)" using assms by (simp_all add: q1_def)
  then have i2: "tq_inv (tp_log (TpInvoke p) q2)" "length (tq_Heap q2) = length (tq_Heap q1)"
    by (auto simp: q2_def tq_inv_def intro!: heap_ok_set map_ok_set_listed)
  have "tq_calm (tp_log (TpInvoke p) q2)" "tq_Current q2 = Some p"
    using assms(2,3) by (auto simp: tq_calm_def q2_def q1_def)
  then have j: "tq_calm qj" "tq_Current qj = Some p"
    using run_job_calm[OF i2(1)] by (simp_all add: qj_def)
  have "heap_ok qj" "p < length (tq_Heap qj)"
    using scripted.invoke_inv[OF i2(1)] scripted.invoke_heap[OF i2(1), of tpOk script p] i2(2) assms(4)
    by (simp_all add: qj_def tq_inv_def q1_def)
  then have handle: "e_handle (tq_Heap qj ! p) = Some h \<Longrightarrow> h = p" for h
    by (auto simp: heap_ok_def handle_ok_def split: option.splits)
  define e3 where "e3 = tq_Heap qj ! p"
  define e4 where "e4 = (if \<not> e_isPeriodic e3 then e3\<lparr>e_state := Completed\<rparr>
     else if e_state e3 = ERunning then e3\<lparr>e_state := Scheduled\<rparr> else e3)"
  have run: "tq_Trace (RunEntry (run_job tpOk script) p q) = tq_Trace qj @ [TpReturn p] @
      (if e_closeAfterCallback e4 then (case e_handle e4 of None \<Rightarrow> [] | Some h \<Rightarrow> [TpClose h]) else [])"
    "tq_Current (RunEntry (run_job tpOk script) p q) = None"
    using False assms(3) unfolding q1_def q2_def qj_def e3_def e4_def RunEntry_def Let_def
    by (simp_all split: option.splits)
  have ret: "trace_ok (tq_Trace qj @ [TpReturn p]) \<and> (\<forall>h. \<not> in_callback h (tq_Trace qj @ [TpReturn p]))"
    using j by (simp add: tq_calm_def)
  have "e_handle e4 = e_handle e3" by (simp add: e4_def)
  then have "trace_ok (tq_Trace (RunEntry (run_job tpOk script) p q)) \<and>
      (\<forall>h. \<not> in_callback h (tq_Trace (RunEntry (run_job tpOk script) p q)))"
    using ret handle unfolding run(1) e3_def
    by (auto split: option.splits simp: trace_ok_simps(2)[of "tq_Trace qj @ [TpReturn p]", simplified]
        in_callback_simps(2)[of _ "tq_Trace qj @ [TpReturn p]", simplified])
  then show ?thesis using run(2) by (simp add: tq_calm_def)
qed

lemma tq_reach_calm: "tq_reach tpOk script q \<Longrightarrow> tq_calm q \<and> tq_Current q = None"
proof (induction rule: tq_reach.induct)
  case (tq_call q c)
  then show ?case using tq_do_calm[OF tq_reach_inv[OF tq_call.hyps], of tpOk c] by simp
next
  case (tq_fire q p)
  then show ?case using RunEntry_calm[OF tq_reach_inv[OF tq_fire.hyps(1)]] by (simp add: TpTimerCallback_def)
qed (simp add: tq_calm_def TimerQueue_ctor_def)

section \<open>Properties\<close>

text \<open>C17: in every run of the timer queue (clients and callbacks scheduling, cancelling and
  shutting down, callbacks firing at any time and cancelling themselves; a call or a callback with
  all its job does ends before the next begins) no thread-pool timer
  is ever closed twice; while the job of a timer runs, its handle is neither waited for (the
  callback would wait for itself) nor closed; a handle is only closed directly after the pool was
  made to wait for the timer's callbacks or directly after its own job has returned; and every
  timer that is still registered holds its own open handle, is not cancelled and is found under
  a valid id.\<close>

theorem timer_handles_closed_once:
  assumes "tq_reach tpOk script q"
  shows "tp_closes h (tq_Trace q) \<le> 1 \<and>
    (tq_Trace q = past @ TpWait h wait # later \<longrightarrow> \<not> in_callback h past) \<and>
    (tq_Trace q = past @ TpClose h # later \<longrightarrow> \<not> in_callback h past \<and> past \<noteq> [] \<and>
       (last past = TpReturn h \<or> last past = TpWait h True \<or> last past = TpWait h False)) \<and>
    (map_of (tq_Entries q) tid = Some p \<longrightarrow> tid \<noteq> kInvalidTimerId \<and> e_id (tq_Heap q ! p) = tid \<and>
       e_handle (tq_Heap q ! p) = Some p \<and> tp_closes p (tq_Trace q) = 0 \<and>
       e_state (tq_Heap q ! p) \<noteq> Cancelled)"
proof -
  have i: "heap_ok q" "map_ok q" using tq_reach_inv[OF assms] by (auto simp: tq_inv_def)
  have "close_ok (length (tq_Heap q)) (tq_Trace q) h" using i(1) by (simp add: heap_ok_def)
  then have "tp_closes h (tq_Trace q) \<le> 1" by (auto simp: close_ok_def split: if_splits)
  moreover have ok: "event_ok past e" if "tq_Trace q = past @ e # later" for e
    using tq_reach_calm[OF assms] that unfolding tq_calm_def trace_ok_def by blast
  moreover have "tp_closes p (tq_Trace q) = 0" if "map_of (tq_Entries q) tid = Some p"
    using i(1) listed_entry(2,4)[OF i(2) that] by (auto simp: heap_ok_def handle_ok_def)
  ultimately show ?thesis
    using listed_entry[OF i(2), of tid p] ok[of "TpWait h wait"] ok[of "TpClose h"] by simp
qed

text \<open>A timer that cancels itself from its job: the close comes after the return.\<close>

theorem timer_handles_closed_once_witness:
  "\<not> in_callback 0 [TpCreate 0, TpSet 0 (MakeRelativeDueTime 100) 100, TpInvoke 0, TpDisarm 0, TpReturn 0] \<and>
   tp_closes 0 (tq_Trace (TpTimerCallback (run_job (\<lambda>_. True) (\<lambda>_. [CallCancel 1])) (Some 0)
     (tq_do (\<lambda>_. True) (CallPeriodic 100 7 ''idle'') TimerQueue_ctor))) \<le> 1"
proof -
  let ?q1 = "tq_do (\<lambda>_. True) (CallPeriodic 100 7 ''idle'') TimerQueue_ctor"
  let ?q = "TpTimerCallback (run_job (\<lambda>_. True) (\<lambda>_. [CallCancel 1])) (Some 0) ?q1"
  have reach: "tq_reach (\<lambda>_. True) (\<lambda>_. [CallCancel 1]) ?q"
    by (intro tq_fire tq_call tq_init)
      (simp add: SchedulePeriodic_def ScheduleImpl_def AllocateId_def TimerQueue_ctor_def Let_def)
  have "tq_Trace ?q = [TpCreate 0, TpSet 0 (MakeRelativeDueTime 100) 100, TpInvoke 0, TpDisarm 0, TpReturn 0] @ TpClose 0 # []"
    by (simp add: SchedulePeriodic_def ScheduleImpl_def AllocateId_def TimerQueue_ctor_def Let_def TpTimerCallback_def
        RunEntry_def run_job_def TimerQueue_Cancel_def CancelImpl_def IsCurrentCallbackEntry_def set_entry_def tp_log_def)
  from timer_handles_closed_once[OF reach, of 0] this show ?thesis by blast
qed

text \<open>Cancelling a registered timer succeeds once: it leaves the map, a second \<open>Cancel\<close>
  of the id returns false and changes nothing, and a callback of the timer that the pool
  still delivers afterwards does not run its job.\<close>

theorem timer_cancel_once:
  assumes "tq_inv q" "map_of (tq_Entries q) tid = Some p"
  shows "fst (TimerQueue_Cancel tid q) \<and>
    TimerQueue_Cancel tid (snd (TimerQueue_Cancel tid q)) = (False, snd (TimerQueue_Cancel tid q)) \<and>
    RunEntry invoke p (snd (TimerQueue_Cancel tid q)) = snd (TimerQueue_Cancel tid q)"
proof -
  note c = Cancel_listed[OF assms, where wait = True and cur = "IsCurrentCallbackEntry tid q",
      folded TimerQueue_Cancel_def]
  have "RunEntry invoke p (snd (TimerQueue_Cancel tid q)) = snd (TimerQueue_Cancel tid q)"
    using c(3) by (simp add: RunEntry_def Let_def)
  moreover have "map_of (tq_Entries (snd (TimerQueue_Cancel tid q))) tid = None"
    using c(2) by (simp add: map_of_filter_key)
  then have "TimerQueue_Cancel tid (snd (TimerQueue_Cancel tid q)) = (False, snd (TimerQueue_Cancel tid q))"
    using Cancel_unlisted by (simp only: TimerQueue_Cancel_def[of tid "snd (TimerQueue_Cancel tid q)"])
  ultimately show ?thesis using c(1) by blast
qed

theorem timer_cancel_once_witness:
  "fst (TimerQueue_Cancel 1 (snd (SchedulePeriodic (\<lambda>_. True) 100 7 ''idle'' TimerQueue_ctor)))"
proof -
  have "tq_inv (snd (SchedulePeriodic (\<lambda>_. True) 100 7 ''idle'' TimerQueue_ctor))"
    unfolding SchedulePeriodic_def by (rule Schedule_inv(1)[OF tq_inv_ctor])
  moreover have "map_of (tq_Entries (snd (SchedulePeriodic (\<lambda>_. True) 100 7 ''idle'' TimerQueue_ctor))) 1 = Some 0"
    by (simp add: SchedulePeriodic_def ScheduleImpl_def AllocateId_def TimerQueue_ctor_def Let_def)
  ultimately show ?thesis using timer_cancel_once by blast
qed

text \<open>C38: shutting down a running queue retires every registered timer: the map is empty, each
  timer is cancelled and its handle is closed exactly once, or, for the timer whose callback
  is calling, left to be closed when that callback returns; the queue is dead and refuses
  every later schedule without touching the thread pool.\<close>

theorem timer_shutdown_retires_all:
  assumes "tq_inv q" "tq_QueueState q = QRunning"
  shows "tq_Entries (TimerQueue_Shutdown w q) = [] \<and>
    (\<forall>tid p. map_of (tq_Entries q) tid = Some p \<longrightarrow>
       retired (IsCurrentCallbackEntry tid q) p (TimerQueue_Shutdown w q)) \<and>
    ScheduleImpl tpOk delay job per iv (TimerQueue_Shutdown w q) =
      (kInvalidTimerId, TimerQueue_Shutdown w q)"
proof -
  let ?q1 = "q\<lparr>tq_QueueState := QShuttingDown\<rparr>"
  have "IsCurrentCallbackEntry tid ?q1 = IsCurrentCallbackEntry tid q" for tid
    by (simp add: IsCurrentCallbackEntry_def split: option.split)
  then show ?thesis
    using cancel_each_all[of ?q1 "map fst (tq_Entries q)" w] assms
    by (auto simp: TimerQueue_Shutdown_def ShutdownImpl_def Let_def ScheduleImpl_def retired_def)
qed

theorem timer_shutdown_retires_all_witness:
  "let q = snd (SchedulePeriodic (\<lambda>_. True) 100 7 ''idle'' TimerQueue_ctor)
   in tq_Entries q = [(1, 0)] \<and> tq_Entries (TimerQueue_Shutdown True q) = [] \<and> retired False 0 (TimerQueue_Shutdown True q)"
proof -
  let ?q = "snd (SchedulePeriodic (\<lambda>_. True) 100 7 ''idle'' TimerQueue_ctor)"
  have "tq_inv ?q"
    unfolding SchedulePeriodic_def by (rule Schedule_inv(1)[OF tq_inv_ctor])
  moreover have "tq_Entries ?q = [(1, 0)] \<and> tq_QueueState ?q = QRunning \<and> tq_Current ?q = None"
    by (simp add: SchedulePeriodic_def ScheduleImpl_def AllocateId_def TimerQueue_ctor_def Let_def)
  ultimately show ?thesis
    using timer_shutdown_retires_all[of ?q True] by (simp add: Let_def IsCurrentCallbackEntry_def)
qed

end
