(* ===== verification/Server_Stats.thy ===== *)
theory Server_Stats
  imports Complex_Main Timer_Queue
begin

text \<open>
  \<open>StatsSampler\<close> (\<open>LibNetworks/StatsSampler.ixx\<close>, \<open>.cpp\<close>) and \<open>ServerStatsCollector\<close>
  (\<open>LibNetworks/ServerStatsCollector.ixx\<close>, \<open>.cpp\<close>). What the operating system reports (process
  times, wall clock, working set) and what the session provider returns are arguments. The
  CPU percentage is a real number; the code's \<open>double\<close> rounds it.
\<close>

unbundle bit_operations_syntax

section \<open>StatsSampler\<close>

record SamplerConfig =
  sc_tickIntervalMs :: int
  sc_enabled :: bool

record StatsSampler =
  sp_Config :: SamplerConfig
  sp_TimerId :: TimerId
  sp_Running :: bool
  sp_PrevProcKernelTicks :: u64
  sp_PrevProcUserTicks :: u64
  sp_PrevWallTicks :: u64
  sp_HasPrevSample :: bool
  sp_CpuPercentCache :: real
  sp_MemoryBytesCache :: u64

definition FileTimeToU64 :: "u32 \<times> u32 \<Rightarrow> u64" where
  "FileTimeToU64 ft = push_bit 32 (ucast (snd ft)) OR ucast (fst ft)"

definition StatsSampler_ctor :: "SamplerConfig \<Rightarrow> StatsSampler" where
  "StatsSampler_ctor cfg =
     \<lparr>sp_Config = cfg, sp_TimerId = 0, sp_Running = False, sp_PrevProcKernelTicks = 0,
      sp_PrevProcUserTicks = 0, sp_PrevWallTicks = 0, sp_HasPrevSample = False,
      sp_CpuPercentCache = 0, sp_MemoryBytesCache = 0\<rparr>"

text \<open>One sample: kernel and user time (or failure), wall clock, working set (or failure).\<close>

definition DoSample ::
  "((u32 \<times> u32) \<times> (u32 \<times> u32)) option \<Rightarrow> u32 \<times> u32 \<Rightarrow> u64 option \<Rightarrow> StatsSampler \<Rightarrow> StatsSampler" where
  "DoSample procTimes sysNow workingSet s =
     (case procTimes of
        None \<Rightarrow> s
      | Some (kernelTime, userTime) \<Rightarrow>
          let currProcKernel = FileTimeToU64 kernelTime;
              currProcUser = FileTimeToU64 userTime;
              currWall = FileTimeToU64 sysNow;
              cpuPct =
                (if sp_HasPrevSample s then
                   let procDelta = (currProcKernel + currProcUser)
                                     - (sp_PrevProcKernelTicks s + sp_PrevProcUserTicks s);
                       wallDelta = currWall - sp_PrevWallTicks s
                   in if unat wallDelta > 0 then
                        let pct = real (unat procDelta) / real (unat wallDelta) * 100
                        in if pct < 0 then 0 else pct
                      else 0
                 else 0);
              s1 = s\<lparr>sp_PrevProcKernelTicks := currProcKernel, sp_PrevProcUserTicks := currProcUser,
                     sp_PrevWallTicks := currWall, sp_HasPrevSample := True,
                     sp_CpuPercentCache := cpuPct\<rparr>
          in (case workingSet of None \<Rightarrow> s1 | Some ws \<Rightarrow> s1\<lparr>sp_MemoryBytesCache := ws\<rparr>))"

definition StatsSampler_Start ::
  "(tp_event list \<Rightarrow> bool) \<Rightarrow> nat \<Rightarrow> (StatsSampler \<Rightarrow> StatsSampler) \<Rightarrow> StatsSampler \<Rightarrow> TimerQueue \<Rightarrow>
   StatsSampler \<times> TimerQueue" where
  "StatsSampler_Start tpOk task sample s tq =
     (if \<not> sc_enabled (sp_Config s) then (s, tq)
      else if sp_Running s then (s, tq)
      else
        let s1 = sample (s\<lparr>sp_Running := True\<rparr>);
            (tid, tq1) = SchedulePeriodic tpOk (sc_tickIntervalMs (sp_Config s1)) task ''StatsSampler'' tq
        in (s1\<lparr>sp_TimerId := tid\<rparr>, tq1))"

definition StatsSampler_Stop :: "StatsSampler \<Rightarrow> TimerQueue \<Rightarrow> StatsSampler \<times> TimerQueue" where
  "StatsSampler_Stop s tq =
     (let wasRunning = sp_Running s; s1 = s\<lparr>sp_Running := False\<rparr> in
      if \<not> wasRunning then (s1, tq)
      else
        let tid = sp_TimerId s1; s2 = s1\<lparr>sp_TimerId := 0\<rparr> in
        if tid \<noteq> kInvalidTimerId then (s2, snd (TimerQueue_Cancel tid tq)) else (s2, tq))"

definition StatsSampler_dtor :: "StatsSampler \<Rightarrow> TimerQueue \<Rightarrow> StatsSampler \<times> TimerQueue" where
  "StatsSampler_dtor s tq = StatsSampler_Stop s tq"

definition SnapshotCpuPercent :: "StatsSampler \<Rightarrow> real" where
  "SnapshotCpuPercent s = sp_CpuPercentCache s"

definition SnapshotMemoryBytes :: "StatsSampler \<Rightarrow> u64" where
  "SnapshotMemoryBytes s = sp_MemoryBytesCache s"

definition ForceSampleNow :: "(StatsSampler \<Rightarrow> StatsSampler) \<Rightarrow> StatsSampler \<Rightarrow> StatsSampler" where
  "ForceSampleNow sample s = sample s"

definition StatsSampler_OnTick :: "(StatsSampler \<Rightarrow> StatsSampler) \<Rightarrow> StatsSampler \<Rightarrow> StatsSampler" where
  "StatsSampler_OnTick sample s = (if \<not> sp_Running s then s else sample s)"

section \<open>ServerStatsCollector\<close>

datatype ServerMode = SM_Unknown | SM_IOCP | SM_RIO

record SummaryData =
  sd_uptimeMs :: int
  sd_activeSessionCount :: u32
  sd_totalRxBytes :: u64
  sd_totalTxBytes :: u64
  sd_idleDisconnectCount :: u64
  sd_serverMode :: ServerMode
  sd_processMemoryBytes :: u64
  sd_processCpuPercent :: real
  sd_serverTimestampMs :: int

record SessionInfoData =
  si_sessionId :: u64
  si_lastRecvMs :: int
  si_rxBytes :: u64
  si_txBytes :: u64

record SessionListData =
  sl_total :: u32
  sl_offset :: u32
  sl_sessions :: "SessionInfoData list"

text \<open>A session as the collector sees it: \<open>ISessionStats\<close>, and the two interfaces it asks for by
  \<open>dynamic_cast\<close>.\<close>

record session_view =
  sv_rx :: u64
  sv_tx :: u64
  sv_idle :: "int option"
  sv_net :: "u64 option"

datatype provider = NoProvider | ProviderThrows | Provides "session_view option list"

record ServerStatsCollector =
  cl_ServerMode :: ServerMode
  cl_StartSteadyMs :: int

definition kMaxLimit :: u32 where "kMaxLimit = 1000"

definition ServerStatsCollector_ctor :: "ServerMode \<Rightarrow> int \<Rightarrow> ServerStatsCollector" where
  "ServerStatsCollector_ctor mode nowSteady = \<lparr>cl_ServerMode = mode, cl_StartSteadyMs = nowSteady\<rparr>"

fun sum_sessions :: "session_view option list \<Rightarrow> u64 \<times> u64 \<Rightarrow> u64 \<times> u64" where
  "sum_sessions [] acc = acc"
| "sum_sessions (None # ss) acc = sum_sessions ss acc"
| "sum_sessions (Some v # ss) acc = sum_sessions ss (fst acc + sv_rx v, snd acc + sv_tx v)"

definition SnapshotSummary ::
  "int \<Rightarrow> int \<Rightarrow> provider \<Rightarrow> u64 option \<Rightarrow> StatsSampler option \<Rightarrow> ServerStatsCollector \<Rightarrow> SummaryData" where
  "SnapshotSummary nowSteady nowWall provider0 idleCount sampler c =
     (let snapshot = (case provider0 of Provides vs \<Rightarrow> vs | _ \<Rightarrow> []);
          totals = sum_sessions snapshot (0, 0)
      in \<lparr>sd_uptimeMs = nowSteady - cl_StartSteadyMs c,
          sd_activeSessionCount = of_nat (length snapshot),
          sd_totalRxBytes = fst totals,
          sd_totalTxBytes = snd totals,
          sd_idleDisconnectCount = (case idleCount of None \<Rightarrow> 0 | Some n \<Rightarrow> n),
          sd_serverMode = cl_ServerMode c,
          sd_processMemoryBytes = (case sampler of None \<Rightarrow> 0 | Some s \<Rightarrow> SnapshotMemoryBytes s),
          sd_processCpuPercent = (case sampler of None \<Rightarrow> 0 | Some s \<Rightarrow> SnapshotCpuPercent s),
          sd_serverTimestampMs = nowWall\<rparr>)"

definition session_info :: "session_view \<Rightarrow> SessionInfoData" where
  "session_info v =
     \<lparr>si_sessionId = (case sv_net v of None \<Rightarrow> 0 | Some i \<Rightarrow> i),
      si_lastRecvMs = (case sv_idle v of None \<Rightarrow> 0 | Some t \<Rightarrow> t),
      si_rxBytes = sv_rx v, si_txBytes = sv_tx v\<rparr>"

text \<open>The loop \<open>for (i = offset; i < endIdx; ++i)\<close>, by the number of iterations left.\<close>

fun list_page :: "session_view option list \<Rightarrow> nat \<Rightarrow> nat \<Rightarrow> SessionInfoData list" where
  "list_page snapshot i 0 = []"
| "list_page snapshot i (Suc n) =
     (case snapshot ! i of
        None \<Rightarrow> list_page snapshot (i + 1) n
      | Some v \<Rightarrow> session_info v # list_page snapshot (i + 1) n)"

definition SnapshotSessions :: "provider \<Rightarrow> u32 \<Rightarrow> u32 \<Rightarrow> SessionListData" where
  "SnapshotSessions provider0 offset limit =
     (let limit1 = (if limit = 0 \<or> limit > kMaxLimit then kMaxLimit else limit) in
      case provider0 of
        ProviderThrows \<Rightarrow> \<lparr>sl_total = 0, sl_offset = offset, sl_sessions = []\<rparr>
      | _ \<Rightarrow>
          let snapshot = (case provider0 of Provides vs \<Rightarrow> vs | _ \<Rightarrow> []);
              total = of_nat (length snapshot) :: u32
          in if offset \<ge> total then \<lparr>sl_total = total, sl_offset = offset, sl_sessions = []\<rparr>
             else
               let endIdx = min (offset + limit1) total
               in \<lparr>sl_total = total, sl_offset = offset,
                   sl_sessions = list_page snapshot (unat offset) (unat endIdx - unat offset)\<rparr>)"

section \<open>Lemmas\<close>

lemma list_page_spec:
  "i + n \<le> length snapshot \<Longrightarrow>
    list_page snapshot i n = map session_info (List.map_filter (\<lambda>x. x) (take n (drop i snapshot)))"
proof (induction n arbitrary: i)
  case (Suc n)
  then have "take (Suc n) (drop i snapshot) = snapshot ! i # take n (drop (Suc i) snapshot)"
    by (simp add: Cons_nth_drop_Suc[symmetric])
  then show ?case
    using Suc by (auto simp: List.map_filter_def split: option.splits)
qed (simp add: List.map_filter_def)

lemma unat_word_of_nat_u32: "n < 2 ^ 32 \<Longrightarrow> unat (of_nat n :: u32) = n"
  by (simp add: unsigned_of_nat take_bit_nat_eq_self)

text \<open>One page, when neither the session count nor \<open>offset + limit\<close> leaves 32 bits.\<close>

lemma page_spec:
  assumes "length vs + 1000 < 2 ^ 32" "0 < limit" "limit \<le> 1000"
  shows "sl_sessions (SnapshotSessions (Provides vs) offset limit) =
    map session_info (List.map_filter (\<lambda>x. x) (take (unat limit) (drop (unat offset) vs)))"
proof -
  have tot: "unat (of_nat (length vs) :: u32) = length vs"
    using assms(1) by (intro unat_word_of_nat_u32) simp
  have lim: "(if limit = 0 \<or> limit > kMaxLimit then kMaxLimit else limit) = limit" "unat limit \<le> 1000"
    using assms(2,3) by (simp_all add: kMaxLimit_def not_less[symmetric]) (simp add: word_le_nat_alt not_less)
  show ?thesis
  proof (cases "of_nat (length vs) \<le> offset")
    case True
    then have "length vs \<le> unat offset" using tot by (simp add: word_le_nat_alt)
    then show ?thesis
      using True by (simp add: SnapshotSessions_def Let_def List.map_filter_def)
  next
    case False
    then have lt: "unat offset < length vs" using tot by (simp add: word_le_nat_alt)
    have sum: "unat (offset + limit) = unat offset + unat limit"
      using lt assms(1) lim(2) by (intro unat_add_lem[THEN iffD1]) simp
    have e: "unat (min (offset + limit) (of_nat (length vs))) = min (unat offset + unat limit) (length vs)"
      using sum tot by (simp add: min_def word_le_nat_alt)
    have "list_page vs (unat offset) (min (unat offset + unat limit) (length vs) - unat offset) =
      map session_info (List.map_filter (\<lambda>x. x)
        (take (min (unat offset + unat limit) (length vs) - unat offset) (drop (unat offset) vs)))"
      using lt by (intro list_page_spec) simp
    moreover have "take (min (unat offset + unat limit) (length vs) - unat offset) (drop (unat offset) vs) =
      take (unat limit) (drop (unat offset) vs)"
      using lt by (auto simp: min_def)
    ultimately show ?thesis
      using False e lim(1) by (simp add: SnapshotSessions_def Let_def)
  qed
qed

lemma sum_sessions_spec:
  "sum_sessions vs acc =
    (fst acc + sum_list (map sv_rx (List.map_filter (\<lambda>x. x) vs)),
     snd acc + sum_list (map sv_tx (List.map_filter (\<lambda>x. x) vs)))"
  by (induction vs acc rule: sum_sessions.induct) (auto simp: List.map_filter_def)

lemma filetime_roundtrip: "FileTimeToU64 (ucast q, ucast (drop_bit 32 q)) = q" for q :: u64
  by (rule bit_word_eqI)
    (auto simp: FileTimeToU64_def bit_simps dest: bit_imp_le_length)

lemma page_clamp:
  "limit = 0 \<or> limit > kMaxLimit \<Longrightarrow> SnapshotSessions p offset limit = SnapshotSessions p offset 1000"
  by (auto simp: SnapshotSessions_def kMaxLimit_def Let_def)

lemma pages_cover:
  assumes "length vs \<le> n * L"
  shows "concat (map (\<lambda>k. take L (drop (k * L) vs)) [0..<n]) = vs"
  using assms
proof (induction n arbitrary: vs)
  case (Suc n)
  have "concat (map (\<lambda>k. take L (drop (k * L) vs)) [0..<Suc n]) =
    take L vs @ concat (map (\<lambda>k. take L (drop (k * L) (drop L vs))) [0..<n])"
    by (simp add: upt_conv_Cons map_Suc_upt[symmetric] o_def del: upt_Suc)
      (simp add: add.commute map_Suc_upt[symmetric] o_def del: upt_Suc map_Suc_upt)
  then show ?case using Suc.IH[of "drop L vs"] Suc.prems by simp
qed simp

lemma ratio_nonneg: "\<not> real a / real b * 100 < 0"
  by (simp add: not_less)

section \<open>Properties\<close>

text \<open>C39: pagination loses and repeats nothing: for a page size \<open>limit\<close> between 1 and 1000, the
  pages at offsets 0, limit, 2*limit, ... concatenate to the statistics of exactly the
  non-null sessions of the snapshot, in order; a limit of 0 or above 1000 gives the page of
  limit 1000.\<close>

theorem session_pages_complete:
  assumes "length vs + 1000 < 2 ^ 32" "0 < limit" "limit \<le> 1000"
    "length vs \<le> n * unat limit" "\<forall>k < n. k * unat limit < 2 ^ 32"
  shows "concat (map (\<lambda>k. sl_sessions (SnapshotSessions (Provides vs) (of_nat (k * unat limit)) limit)) [0..<n]) =
    map session_info (List.map_filter (\<lambda>x. x) vs)"
proof -
  have page: "sl_sessions (SnapshotSessions (Provides vs) (of_nat (k * unat limit)) limit) =
    map session_info (List.map_filter (\<lambda>x. x) (take (unat limit) (drop (k * unat limit) vs)))" if "k < n" for k
    using page_spec[OF assms(1-3), of "of_nat (k * unat limit)"] assms(5) that
    by (simp only: unat_word_of_nat_u32)
  have "concat (map (\<lambda>k. map session_info (List.map_filter (\<lambda>x. x) (take (unat limit) (drop (k * unat limit) vs)))) [0..<n]) =
    map session_info (List.map_filter (\<lambda>x. x) (concat (map (\<lambda>k. take (unat limit) (drop (k * unat limit) vs)) [0..<n])))"
    by (induction n) (simp_all add: List.map_filter_def)
  moreover have "map (\<lambda>k. sl_sessions (SnapshotSessions (Provides vs) (of_nat (k * unat limit)) limit)) [0..<n] =
    map (\<lambda>k. map session_info (List.map_filter (\<lambda>x. x) (take (unat limit) (drop (k * unat limit) vs)))) [0..<n]"
    using page by (intro map_cong) auto
  ultimately show ?thesis
    using pages_cover[OF assms(4)] by (simp only:)
qed

theorem session_pages_complete_witness:
  "concat (map (\<lambda>k. sl_sessions (SnapshotSessions (Provides
      [Some \<lparr>sv_rx = 1, sv_tx = 2, sv_idle = None, sv_net = Some 7\<rparr>, None,
       Some \<lparr>sv_rx = 3, sv_tx = 4, sv_idle = Some 9, sv_net = Some 8\<rparr>]) (of_nat (k * unat (2 :: u32))) 2)) [0..<2]) =
    [\<lparr>si_sessionId = 7, si_lastRecvMs = 0, si_rxBytes = 1, si_txBytes = 2\<rparr>,
     \<lparr>si_sessionId = 8, si_lastRecvMs = 9, si_rxBytes = 3, si_txBytes = 4\<rparr>]"
proof -
  let ?vs = "[Some \<lparr>sv_rx = 1, sv_tx = 2, sv_idle = None, sv_net = Some 7\<rparr>, None,
       Some \<lparr>sv_rx = 3, sv_tx = 4, sv_idle = Some 9, sv_net = Some 8\<rparr>]"
  have "concat (map (\<lambda>k. sl_sessions (SnapshotSessions (Provides ?vs) (of_nat (k * unat (2 :: u32))) 2)) [0..<2]) =
    map session_info (List.map_filter (\<lambda>x. x) ?vs)"
    by (rule session_pages_complete) auto
  then show ?thesis by (simp add: List.map_filter_def session_info_def)
qed

text \<open>The CPU figure: a sample after a first one, with process and wall clocks that did not
  run backwards and do not overflow, reports the growth of kernel plus user time relative to
  the growth of the wall clock, times 100, of one core: it exceeds 100 as soon as the process
  keeps more than one core busy. A failed query leaves the sampler unchanged.\<close>

theorem cpu_sample_is_ratio:
  assumes "sp_HasPrevSample s"
    "sp_PrevProcKernelTicks s + sp_PrevProcUserTicks s = p0" "FileTimeToU64 k + FileTimeToU64 u = p1"
    "p0 \<le> p1" "sp_PrevWallTicks s < FileTimeToU64 w"
  shows "SnapshotCpuPercent (DoSample (Some (k, u)) w ws s) =
      (real (unat p1) - real (unat p0)) / (real (unat (FileTimeToU64 w)) - real (unat (sp_PrevWallTicks s))) * 100 \<and>
    DoSample None w ws s = s"
proof -
  have d: "real (unat (p1 - p0)) = real (unat p1) - real (unat p0)"
    using assms(4) by (simp add: unat_sub word_le_nat_alt of_nat_diff)
  have wd: "real (unat (FileTimeToU64 w - sp_PrevWallTicks s)) =
      real (unat (FileTimeToU64 w)) - real (unat (sp_PrevWallTicks s))"
    using assms(5) by (simp add: unat_sub word_less_nat_alt less_imp_le of_nat_diff)
  have pos: "0 < unat (FileTimeToU64 w - sp_PrevWallTicks s)"
    using assms(5) by (simp add: unat_sub word_less_nat_alt less_imp_le)
  then have "SnapshotCpuPercent (DoSample (Some (k, u)) w ws s) =
      real (unat (p1 - p0)) / real (unat (FileTimeToU64 w - sp_PrevWallTicks s)) * 100"
    using assms(1-3) ratio_nonneg
    by (simp add: SnapshotCpuPercent_def DoSample_def Let_def not_less[symmetric] split: option.split del: of_nat_unat)
  then show ?thesis using d wd by (simp add: DoSample_def)
qed

theorem cpu_sample_is_ratio_witness:
  "SnapshotCpuPercent (DoSample (Some ((300, 0), (100, 0))) (200, 0) None
     (DoSample (Some ((0, 0), (0, 0))) (0, 0) None
       (StatsSampler_ctor \<lparr>sc_tickIntervalMs = 1000, sc_enabled = True\<rparr>))) = 200"
proof -
  let ?s = "DoSample (Some ((0, 0), (0, 0))) (0, 0) None
       (StatsSampler_ctor \<lparr>sc_tickIntervalMs = 1000, sc_enabled = True\<rparr>)"
  have s: "sp_HasPrevSample ?s" "sp_PrevProcKernelTicks ?s + sp_PrevProcUserTicks ?s = 0" "sp_PrevWallTicks ?s = 0"
    by (simp_all add: DoSample_def FileTimeToU64_def StatsSampler_ctor_def Let_def)
  have t: "FileTimeToU64 (300, 0) + FileTimeToU64 (100, 0) = 400" "FileTimeToU64 (200, 0) = 200"
    by (simp_all add: FileTimeToU64_def)
  show ?thesis
    using cpu_sample_is_ratio[OF s(1,2) t(1), of "(200, 0)" None] s(3) t(2) by simp
qed

end
