(* ===== verification/Packet_Model.thy ===== *)
theory Packet_Model
  imports FP_Prelude
begin

text \<open>
  \<open>Packet\<close> (\<open>LibNetworks/Packet.ixx\<close>): a length-prefixed frame. Two bytes of size (header
  and id included) and two bytes of packet id, both in network byte order, then the
  payload. The protobuf payload is its serialised bytes.

  \<open>htons\<close>/\<open>ntohs\<close> followed by a \<open>memcpy\<close> on the little-endian hosts of the program is the
  big-endian encoding \<open>u16_be\<close>. \<open>m_PacketId\<close> is declared \<open>int16_t\<close> and only ever read
  through a cast back to \<open>uint16_t\<close>; the model keeps its sixteen bits.
\<close>

unbundle bit_operations_syntax

definition u16_be :: "u16 \<Rightarrow> byte list" where
  "u16_be w = [ucast (drop_bit 8 w), ucast w]"

definition be_u16 :: "byte \<Rightarrow> byte \<Rightarrow> u16" where
  "be_u16 hi lo = push_bit 8 (ucast hi) OR ucast lo"

lemma unat_u16_less: "unat (w :: u16) < 65536"
  using unsigned_less[of w, where ?'a = nat] by simp

lemma length_u16_be [simp]: "length (u16_be w) = 2"
  by (simp add: u16_be_def)

lemma be_u16_of_bytes [bytes_simps]: "be_u16 (ucast (drop_bit 8 w)) (ucast w) = w"
  by (rule bit_word_eqI)
    (auto simp: be_u16_def bit_simps dest: bit_imp_le_length)

lemma u16_be_of_word [bytes_simps]: "u16_be (be_u16 hi lo) = [hi, lo]"
proof -
  have "ucast (drop_bit 8 (be_u16 hi lo)) = hi"
    by (rule bit_word_eqI) (auto simp: be_u16_def bit_simps dest: bit_imp_le_length)
  moreover have "ucast (be_u16 hi lo) = lo"
    by (rule bit_word_eqI) (auto simp: be_u16_def bit_simps)
  ultimately show ?thesis by (simp add: u16_be_def)
qed

record Packet =
  m_PacketId :: u16
  m_Payload :: "byte list"
  m_RawBinaries :: "byte list"

definition GetHeaderSize :: nat where "GetHeaderSize = 2"

definition GetPacketIdSize :: nat where "GetPacketIdSize = 2"

definition GetHeaderFromBuffer :: "byte list \<Rightarrow> u16" where
  "GetHeaderFromBuffer data = (if length data < 2 then 0 else be_u16 (data ! 0) (data ! 1))"

definition GetPacketIdFromBuffer :: "byte list \<Rightarrow> u16" where
  "GetPacketIdFromBuffer data =
     (if length data < GetHeaderSize + 2 then 0
      else be_u16 (data ! GetHeaderSize) (data ! (GetHeaderSize + 1)))"

text \<open>The constructor that takes over a raw buffer. The framer only calls it on buffers
  of at least four bytes; below that the size of the payload would wrap in the code.\<close>

definition Packet_of_buffers :: "byte list \<Rightarrow> Packet" where
  "Packet_of_buffers buffers =
     \<lparr>m_PacketId = GetPacketIdFromBuffer buffers,
      m_Payload = drop (GetHeaderSize + GetPacketIdSize) buffers,
      m_RawBinaries = buffers\<rparr>"

definition GetPacketSize :: "Packet \<Rightarrow> nat" where
  "GetPacketSize p = length (m_Payload p) + GetHeaderSize + GetPacketIdSize"

definition GetPacketId :: "Packet \<Rightarrow> u16" where
  "GetPacketId p = m_PacketId p"

definition GetPayloadSize :: "Packet \<Rightarrow> u16" where
  "GetPayloadSize p = of_nat (length (m_Payload p))"

definition GetRawSpan :: "Packet \<Rightarrow> byte list" where
  "GetRawSpan p = m_RawBinaries p"

definition GetPacketIdFromRawBinaries :: "Packet \<Rightarrow> u16" where
  "GetPacketIdFromRawBinaries p =
     (if length (m_RawBinaries p) < GetHeaderSize + GetPacketIdSize then 0
      else GetPacketIdFromBuffer (GetRawSpan p))"

definition MakeRawBinaries :: "Packet \<Rightarrow> Packet" where
  "MakeRawBinaries p =
     (let sz = of_nat (GetPacketSize p) :: u16;
          packetId = GetPacketId p
      in p\<lparr>m_RawBinaries := u16_be sz @ u16_be packetId @ m_Payload p\<rparr>)"

text \<open>The two constructors that build a packet for sending (from a string and from a span).\<close>

definition Packet_of_content :: "u16 \<Rightarrow> byte list \<Rightarrow> Packet" where
  "Packet_of_content packetId content =
     MakeRawBinaries \<lparr>m_PacketId = packetId, m_Payload = content, m_RawBinaries = []\<rparr>"

section \<open>The wire format\<close>

lemmas packet_sizes [simp] = GetHeaderSize_def GetPacketIdSize_def

abbreviation encode :: "u16 \<Rightarrow> byte list \<Rightarrow> byte list" where
  "encode packetId payload \<equiv> GetRawSpan (Packet_of_content packetId payload)"

text \<open>A payload that the two-byte size field can describe.\<close>

definition fits_frame :: "byte list \<Rightarrow> bool" where
  "fits_frame payload \<longleftrightarrow> length payload + 4 < 65536"

lemma encode_eq:
  "encode i p = u16_be (of_nat (length p + 4)) @ u16_be i @ p"
  by (simp add: GetRawSpan_def Packet_of_content_def MakeRawBinaries_def GetPacketSize_def
      GetPacketId_def Let_def add.commute)

lemma length_encode [simp]: "length (encode i p) = length p + 4"
  by (simp add: encode_eq)

lemma header_encode_append: "GetHeaderFromBuffer (encode i p @ xs) = of_nat (length p + 4)"
  by (simp add: encode_eq GetHeaderFromBuffer_def u16_be_def bytes_simps)

lemma header_encode: "GetHeaderFromBuffer (encode i p) = of_nat (length p + 4)"
  using header_encode_append[of i p "[]"] by simp

lemma header_take2: "2 \<le> length xs \<Longrightarrow> GetHeaderFromBuffer (take 2 xs) = GetHeaderFromBuffer xs"
  by (simp add: GetHeaderFromBuffer_def)

lemma packetId_encode: "GetPacketIdFromBuffer (encode i p) = i"
  by (simp add: encode_eq GetPacketIdFromBuffer_def u16_be_def bytes_simps)

lemma unat_header_encode: "fits_frame p \<Longrightarrow> unat (GetHeaderFromBuffer (encode i p @ xs)) = length p + 4"
  by (simp add: header_encode_append fits_frame_def unsigned_of_nat take_bit_nat_eq_self del: of_nat_add)

lemma decode_encode: "Packet_of_buffers (encode i p) = Packet_of_content i p"
proof -
  have "drop 4 (encode i p) = p" by (simp add: encode_eq u16_be_def)
  then show ?thesis
    by (simp add: Packet_of_buffers_def packetId_encode)
      (simp add: GetRawSpan_def Packet_of_content_def MakeRawBinaries_def Let_def)
qed

section \<open>Properties\<close>

text \<open>C35: the wire format round-trips: the raw bytes of a packet built for sending decode,
  through the constructor the framer uses, to the same packet, with the same id, and the
  size field read back is the number of bytes on the wire when that number fits sixteen
  bits.\<close>

theorem packet_roundtrip:
  assumes "fits_frame payload"
  shows "Packet_of_buffers (GetRawSpan (Packet_of_content packetId payload)) =
      Packet_of_content packetId payload \<and>
    GetPacketIdFromBuffer (GetRawSpan (Packet_of_content packetId payload)) = packetId \<and>
    unat (GetHeaderFromBuffer (GetRawSpan (Packet_of_content packetId payload))) =
      length (GetRawSpan (Packet_of_content packetId payload))"
  using decode_encode packetId_encode unat_header_encode[OF assms, of packetId "[]"] by simp

theorem packet_roundtrip_witness:
  "unat (GetHeaderFromBuffer (GetRawSpan (Packet_of_content 7 [1, 2, 3]))) =
    length (GetRawSpan (Packet_of_content 7 [1, 2, 3]))"
  using packet_roundtrip[of "[1, 2, 3]" 7] by (simp add: fits_frame_def)

text \<open>The size field wraps: for any payload the header that goes on the wire is the
  packet's size modulo 65536, so that a payload of 65532 bytes or more announces a frame
  that is shorter than the bytes that follow.\<close>

theorem packet_size_field_wraps:
  "unat (GetHeaderFromBuffer (GetRawSpan (Packet_of_content packetId payload))) =
    GetPacketSize (Packet_of_content packetId payload) mod 65536"
proof -
  have "GetPacketSize (Packet_of_content packetId payload) = length payload + 4"
    by (simp add: GetPacketSize_def Packet_of_content_def MakeRawBinaries_def Let_def)
  then show ?thesis
    by (simp add: header_encode unsigned_of_nat take_bit_eq_mod del: of_nat_add)
qed

end
