(* ===== verification/Admin_Handler.thy ===== *)
theory Admin_Handler
  imports Server_Stats Packet_Model
begin

text \<open>
  \<open>AdminPacketHandler\<close> (\<open>LibNetworks/AdminPacketHandler.ixx\<close>, \<open>.cpp\<close>) and the messages of the
  protocols the servers speak. Protobuf is a library: a \<open>codec\<close> parses and serialises the
  messages. The handler reaches its sender only through \<open>SendMessage\<close>, an argument here, and
  the collector through its two snapshot functions.

  The handler's \<open>catch\<close> clause returns true like every other path of the admin band; in the
  model nothing throws.
\<close>

record Header =
  hd_request_id :: u64
  hd_timestamp_ms :: u64

datatype ResultCode = RESULT_CODE_UNSPECIFIED | RESULT_CODE_OK | RESULT_CODE_ERROR

datatype ProtoServerMode = SERVER_MODE_UNKNOWN | SERVER_MODE_IOCP | SERVER_MODE_RIO

record SummaryResponse =
  sr_header :: Header
  sr_result :: ResultCode
  sr_uptime_ms :: u64
  sr_active_session_count :: u32
  sr_total_rx_bytes :: u64
  sr_total_tx_bytes :: u64
  sr_idle_disconnect_count :: u64
  sr_server_mode :: ProtoServerMode
  sr_process_memory_bytes :: u64
  sr_process_cpu_percent :: real
  sr_server_timestamp_ms :: u64

record SessionListRequest =
  lr_header :: Header
  lr_offset :: u32
  lr_limit :: u32

record SessionListResponse =
  ls_header :: Header
  ls_result :: ResultCode
  ls_total :: u32
  ls_offset :: u32
  ls_sessions :: "SessionInfoData list"

record EchoRequest =
  eq_header :: Header
  eq_data :: "byte list"
  eq_data_str :: "byte list"

record EchoResponse =
  es_header :: Header
  es_result :: ResultCode
  es_data :: "byte list"
  es_data_str :: "byte list"

record BenchmarkRequest =
  bq_header :: Header
  bq_client_timestamp_ns :: u64
  bq_sequence :: u32
  bq_payload :: "byte list"

record BenchmarkResponse =
  bs_header :: Header
  bs_result :: ResultCode
  bs_client_timestamp_ns :: u64
  bs_server_recv_timestamp_ns :: u64
  bs_server_send_timestamp_ns :: u64
  bs_sequence :: u32
  bs_payload :: "byte list"

record codec =
  parse_summary :: "byte list \<Rightarrow> Header option"
  ser_summary :: "SummaryResponse \<Rightarrow> byte list"
  parse_list :: "byte list \<Rightarrow> SessionListRequest option"
  ser_list :: "SessionListResponse \<Rightarrow> byte list"
  parse_echo :: "byte list \<Rightarrow> EchoRequest option"
  ser_echo :: "EchoResponse \<Rightarrow> byte list"
  parse_bench :: "byte list \<Rightarrow> BenchmarkRequest option"
  ser_bench :: "BenchmarkResponse \<Rightarrow> byte list"

definition kPacketId_SummaryRequest :: u16 where "kPacketId_SummaryRequest = 0x8001"

definition kPacketId_SummaryResponse :: u16 where "kPacketId_SummaryResponse = 0x8002"

definition kPacketId_SessionListReq :: u16 where "kPacketId_SessionListReq = 0x8003"

definition kPacketId_SessionListRes :: u16 where "kPacketId_SessionListRes = 0x8004"

definition IsAdminPacketId :: "u16 \<Rightarrow> bool" where
  "IsAdminPacketId i \<longleftrightarrow> i AND 0xF000 = 0x8000"

fun ToProtoServerMode :: "ServerMode \<Rightarrow> ProtoServerMode" where
  "ToProtoServerMode SM_IOCP = SERVER_MODE_IOCP"
| "ToProtoServerMode SM_RIO = SERVER_MODE_RIO"
| "ToProtoServerMode SM_Unknown = SERVER_MODE_UNKNOWN"

definition HandleSummaryRequest ::
  "codec \<Rightarrow> (u16 \<Rightarrow> byte list \<Rightarrow> 's \<Rightarrow> 's) \<Rightarrow> ('s \<Rightarrow> SummaryData) \<Rightarrow> Packet \<Rightarrow> 's \<Rightarrow> 's" where
  "HandleSummaryRequest cd send summaryOf packet s =
     (case parse_summary cd (m_Payload packet) of
        None \<Rightarrow> s
      | Some request \<Rightarrow>
          let summary = summaryOf s;
              response = \<lparr>sr_header = \<lparr>hd_request_id = hd_request_id request,
                                       hd_timestamp_ms = hd_timestamp_ms request\<rparr>,
                          sr_result = RESULT_CODE_OK,
                          sr_uptime_ms = word_of_int (sd_uptimeMs summary),
                          sr_active_session_count = sd_activeSessionCount summary,
                          sr_total_rx_bytes = sd_totalRxBytes summary,
                          sr_total_tx_bytes = sd_totalTxBytes summary,
                          sr_idle_disconnect_count = sd_idleDisconnectCount summary,
                          sr_server_mode = ToProtoServerMode (sd_serverMode summary),
                          sr_process_memory_bytes = sd_processMemoryBytes summary,
                          sr_process_cpu_percent = sd_processCpuPercent summary,
                          sr_server_timestamp_ms = word_of_int (sd_serverTimestampMs summary)\<rparr>
          in send kPacketId_SummaryResponse (ser_summary cd response) s)"

definition HandleSessionListRequest ::
  "codec \<Rightarrow> (u16 \<Rightarrow> byte list \<Rightarrow> 's \<Rightarrow> 's) \<Rightarrow> ('s \<Rightarrow> u32 \<Rightarrow> u32 \<Rightarrow> SessionListData) \<Rightarrow> Packet \<Rightarrow> 's \<Rightarrow> 's" where
  "HandleSessionListRequest cd send sessionsOf packet s =
     (case parse_list cd (m_Payload packet) of
        None \<Rightarrow> s
      | Some request \<Rightarrow>
          let listData = sessionsOf s (lr_offset request) (lr_limit request);
              response = \<lparr>ls_header = \<lparr>hd_request_id = hd_request_id (lr_header request),
                                       hd_timestamp_ms = hd_timestamp_ms (lr_header request)\<rparr>,
                          ls_result = RESULT_CODE_OK,
                          ls_total = sl_total listData,
                          ls_offset = sl_offset listData,
                          ls_sessions = sl_sessions listData\<rparr>
          in send kPacketId_SessionListRes (ser_list cd response) s)"

definition AdminPacketHandler_HandlePacket ::
  "codec \<Rightarrow> (u16 \<Rightarrow> byte list \<Rightarrow> 's \<Rightarrow> 's) \<Rightarrow> ('s \<Rightarrow> SummaryData) \<Rightarrow>
   ('s \<Rightarrow> u32 \<Rightarrow> u32 \<Rightarrow> SessionListData) \<Rightarrow> Packet \<Rightarrow> 's \<Rightarrow> bool \<times> 's" where
  "AdminPacketHandler_HandlePacket cd send summaryOf sessionsOf packet s =
     (let packetId = GetPacketId packet in
      if \<not> IsAdminPacketId packetId then (False, s)
      else if packetId = kPacketId_SummaryRequest
      then (True, HandleSummaryRequest cd send summaryOf packet s)
      else if packetId = kPacketId_SessionListReq
      then (True, HandleSessionListRequest cd send sessionsOf packet s)
      else (True, s))"

section \<open>Lemmas\<close>

text \<open>Whatever a send keeps, the handler keeps.\<close>

lemma HandlePacket_keeps:
  assumes "P s s" "\<And>i b. P s (send i b s)"
  shows "P s (snd (AdminPacketHandler_HandlePacket cd send summaryOf sessionsOf packet s))"
  using assms
  by (auto simp: AdminPacketHandler_HandlePacket_def HandleSummaryRequest_def
      HandleSessionListRequest_def Let_def split: option.splits)

lemma admin_ids:
  "IsAdminPacketId kPacketId_SummaryRequest" "IsAdminPacketId kPacketId_SessionListReq"
  by (simp_all add: IsAdminPacketId_def kPacketId_SummaryRequest_def kPacketId_SessionListReq_def)

lemma admin_band: "IsAdminPacketId i \<longleftrightarrow> 0x8000 \<le> unat i \<and> unat i < 0x9000"
proof -
  have m: "(0xF000 :: u16) = push_bit 12 (mask 4)"
    by (simp add: mask_eq_exp_minus_1)
  have "i AND 0xF000 = push_bit 12 (drop_bit 12 i)"
    unfolding m by (rule bit_word_eqI) (auto simp: bit_simps)
  moreover have "unat (push_bit 12 (drop_bit 12 i)) = unat i div 4096 * 4096"
  proof -
    have "unat i div 4096 * 4096 \<le> unat i" by simp
    then have "unat i div 4096 * 4096 < 65536" using unat_u16_less[of i] by linarith
    then show ?thesis
      unfolding unsigned_push_bit_eq unsigned_drop_bit_eq
      by (simp add: drop_bit_eq_div push_bit_eq_mult take_bit_eq_mod)
  qed
  ultimately have "IsAdminPacketId i \<longleftrightarrow> unat i div 4096 * 4096 = 0x8000"
    by (simp add: IsAdminPacketId_def word_unat_eq_iff)
  then show ?thesis by auto
qed

end
