(* ===== verification/Session_Container.thy ===== *)
theory Session_Container
  imports FP_Prelude
begin

text \<open>
  \<open>Container\<close> (\<open>LibCommons/Container.ixx\<close>): a hash map under a reader/writer lock; each method
  is one step. The list of pairs is the map in the order in which the code would iterate
  over it; the hash order is unspecified, so the model appends and no theorem uses the
  position. \<open>container_map\<close> states the interface its clients use.
\<close>

type_synonym ('k, 'v) Container = "('k \<times> 'v) list"

definition Container_ctor :: "('k, 'v) Container" where
  "Container_ctor = []"

text \<open>\<open>emplace\<close> does not overwrite.\<close>

definition Container_Add :: "'k \<Rightarrow> 'v \<Rightarrow> ('k, 'v) Container \<Rightarrow> bool \<times> ('k, 'v) Container" where
  "Container_Add key value0 m =
     (if map_of m key = None then (True, m @ [(key, value0)]) else (False, m))"

definition Container_Emplace ::
  "('a \<Rightarrow> 'v) \<Rightarrow> 'k \<Rightarrow> 'a \<Rightarrow> ('k, 'v) Container \<Rightarrow> bool \<times> ('k, 'v) Container" where
  "Container_Emplace mk key args m = Container_Add key (mk args) m"

fun Container_FindIf :: "('k \<Rightarrow> 'v \<Rightarrow> bool) \<Rightarrow> ('k, 'v) Container \<Rightarrow> 'v option" where
  "Container_FindIf P [] = None"
| "Container_FindIf P (kv # m) =
     (if P (fst kv) (snd kv) then Some (snd kv) else Container_FindIf P m)"

definition Container_Remove :: "'k \<Rightarrow> ('k, 'v) Container \<Rightarrow> bool \<times> ('k, 'v) Container" where
  "Container_Remove key m =
     (map_of m key \<noteq> None, filter (\<lambda>kv. fst kv \<noteq> key) m)"

fun Container_ForEach :: "('k \<Rightarrow> 'v \<Rightarrow> 's \<Rightarrow> 's) \<Rightarrow> ('k, 'v) Container \<Rightarrow> 's \<Rightarrow> 's" where
  "Container_ForEach fn [] s = s"
| "Container_ForEach fn (kv # m) s = Container_ForEach fn m (fn (fst kv) (snd kv) s)"

definition Container_Snapshot :: "('k, 'v) Container \<Rightarrow> ('k \<times> 'v) list" where
  "Container_Snapshot m = map (\<lambda>kv. (fst kv, snd kv)) m"

text \<open>The loop with an erasing iterator: number of erased entries and the rest.\<close>

fun Container_RemoveIf :: "('k \<Rightarrow> 'v \<Rightarrow> bool) \<Rightarrow> ('k, 'v) Container \<Rightarrow> nat \<times> ('k, 'v) Container" where
  "Container_RemoveIf P [] = (0, [])"
| "Container_RemoveIf P (kv # m) =
     (let (removed, rest) = Container_RemoveIf P m
      in if P (fst kv) (snd kv) then (removed + 1, rest) else (removed, kv # rest))"

definition Container_Size :: "('k, 'v) Container \<Rightarrow> nat" where
  "Container_Size m = length m"

definition Container_Clear :: "('k, 'v) Container \<Rightarrow> ('k, 'v) Container" where
  "Container_Clear m = []"

section \<open>The interface\<close>

definition container_ok :: "('k, 'v) Container \<Rightarrow> bool" where
  "container_ok m \<longleftrightarrow> distinct (map fst m)"

locale container_map =
  fixes ok :: "'c \<Rightarrow> bool"
    and look :: "'c \<Rightarrow> 'k \<Rightarrow> 'v option"
    and add :: "'k \<Rightarrow> 'v \<Rightarrow> 'c \<Rightarrow> bool \<times> 'c"
    and del :: "'k \<Rightarrow> 'c \<Rightarrow> bool \<times> 'c"
    and sz :: "'c \<Rightarrow> nat"
  assumes add_ok: "ok c \<Longrightarrow> ok (snd (add k v c))"
    and add_look: "ok c \<Longrightarrow> look (snd (add k v c)) =
      (if look c k = None then (look c)(k \<mapsto> v) else look c)"
    and add_result: "ok c \<Longrightarrow> fst (add k v c) \<longleftrightarrow> look c k = None"
    and del_ok: "ok c \<Longrightarrow> ok (snd (del k c))"
    and del_look: "ok c \<Longrightarrow> look (snd (del k c)) = (look c)(k := None)"
    and del_result: "ok c \<Longrightarrow> fst (del k c) \<longleftrightarrow> look c k \<noteq> None"
    and size_card: "ok c \<Longrightarrow> sz c = card (dom (look c)) \<and> finite (dom (look c))"
begin

lemma add_size:
  assumes "ok c"
  shows "sz (snd (add k v c)) = (if fst (add k v c) then sz c + 1 else sz c)"
  using size_card[OF assms] size_card[OF add_ok[OF assms]] add_look[OF assms] add_result[OF assms]
  by (auto simp: domIff)

lemma del_size:
  assumes "ok c"
  shows "sz (snd (del k c)) = (if fst (del k c) then sz c - 1 else sz c)"
  using size_card[OF assms] size_card[OF del_ok[OF assms]] del_look[OF assms] del_result[OF assms]
  by (auto simp: card_Diff_singleton domIff)

lemma add_then_del:
  assumes "ok c" "look c k = None"
  shows "look (snd (del k (snd (add k v c)))) = look c"
  using assms add_look[OF assms(1)] del_look[OF add_ok[OF assms(1)]] by (auto simp: fun_eq_iff)

end

lemma map_of_remove: "map_of (filter (\<lambda>kv. fst kv \<noteq> a) xs) = (map_of xs)(a := None)"
  by (induction xs) (auto simp: fun_eq_iff)

interpretation sessions: container_map container_ok map_of Container_Add Container_Remove Container_Size
proof (unfold_locales, goal_cases)
  case (1 c k v) then show ?case
    by (auto simp: container_ok_def Container_Add_def map_of_eq_None_iff)
next
  case (2 c k v) then show ?case
    by (auto simp: Container_Add_def map_add_def fun_eq_iff split: option.splits)
next
  case (3 c k v) then show ?case by (simp add: Container_Add_def)
next
  case (4 c k) then show ?case
    by (simp add: container_ok_def Container_Remove_def distinct_map_filter)
next
  case (5 c k) then show ?case by (simp add: Container_Remove_def map_of_remove)
next
  case (6 c k) then show ?case by (simp add: Container_Remove_def)
next
  case (7 c) then show ?case
    by (simp add: Container_Size_def container_ok_def dom_map_of_conv_image_fst distinct_card
        flip: set_map)
qed

lemma RemoveIf_spec:
  "Container_RemoveIf P m = (length (filter (\<lambda>kv. P (fst kv) (snd kv)) m),
     filter (\<lambda>kv. \<not> P (fst kv) (snd kv)) m)"
  by (induction m) auto

lemma ForEach_fold: "Container_ForEach fn m s = fold (\<lambda>kv. fn (fst kv) (snd kv)) m s"
  by (induction m arbitrary: s) auto

lemma FindIf_Some:
  "Container_FindIf P m = Some v \<Longrightarrow> \<exists>k. (k, v) \<in> set m \<and> P k v"
  by (induction m) (auto split: if_splits)

lemma FindIf_None: "Container_FindIf P m = None \<longleftrightarrow> (\<forall>(k, v) \<in> set m. \<not> P k v)"
  by (induction m) auto

end
