(* ===== verification/Buffer_Interface.thy ===== *)
theory Buffer_Interface
  imports FP_Prelude
begin

text \<open>
  The abstract class \<open>IBuffer\<close> (\<open>LibCommons/IBuffer.ixx\<close>) as a table of its virtual
  functions, and the contract its clients (the packet framer and the sessions)
  rely on: a bounded FIFO queue of bytes. A returned \<open>std::span\<close> is a position and
  a length in the memory block behind the buffer; \<open>vMem\<close> and \<open>vSetMem\<close> expose that block
  for the plain memory reads and writes (\<open>buf_load\<close>, \<open>buf_store\<close>) that a client or the kernel
  makes through such spans.

  \<open>Pop\<close> and \<open>Peek\<close> fill an out-span of the requested size: \<open>None\<close> is the return value
  \<open>false\<close>, \<open>Some\<close> the bytes written to the out-span.
\<close>

record 'b IBuffer =
  vWrite :: "byte list \<Rightarrow> 'b \<Rightarrow> bool \<times> 'b"
  vPop :: "nat \<Rightarrow> 'b \<Rightarrow> byte list option \<times> 'b"
  vPeek :: "nat \<Rightarrow> 'b \<Rightarrow> byte list option"
  vGetReadBuffers :: "'b \<Rightarrow> nat \<times> span list"
  vAllocateWrite :: "nat \<Rightarrow> 'b \<Rightarrow> span list option \<times> 'b"
  vGetWriteableBuffers :: "'b \<Rightarrow> nat \<times> span list"
  vCommitWrite :: "nat \<Rightarrow> 'b \<Rightarrow> bool \<times> 'b"
  vConsume :: "nat \<Rightarrow> 'b \<Rightarrow> bool \<times> 'b"
  vCanReadSize :: "'b \<Rightarrow> nat"
  vCanWriteSize :: "'b \<Rightarrow> nat"
  vClear :: "'b \<Rightarrow> 'b"
  vMem :: "'b \<Rightarrow> byte list"
  vSetMem :: "byte list \<Rightarrow> 'b \<Rightarrow> 'b"

definition buf_store :: "'b IBuffer \<Rightarrow> span list \<Rightarrow> byte list \<Rightarrow> 'b \<Rightarrow> 'b" where
  "buf_store ops ss d b = vSetMem ops (scatter ss d (vMem ops b)) b"

definition buf_load :: "'b IBuffer \<Rightarrow> span list \<Rightarrow> 'b \<Rightarrow> byte list" where
  "buf_load ops ss b = gather (vMem ops b) ss"

section \<open>Sequences of calls\<close>

text \<open>One call of a client on a buffer and what the client sees of it. \<open>QAllocFill\<close> is the
  zero-copy write of a message, \<open>QRecv\<close> the receive path: the kernel fills the writeable
  spans with as many bytes as they take and the session commits that many.\<close>

datatype qop = QWrite "byte list" | QPop nat | QPeek nat | QConsume nat | QClear
  | QAllocFill "byte list" | QRecv "byte list" | QReadAll | QSizes

datatype qout = OBool bool | OBytes "byte list option" | OSizes nat nat | ODone

fun q_step :: "'b IBuffer \<Rightarrow> qop \<Rightarrow> 'b \<Rightarrow> qout \<times> 'b" where
  "q_step ops (QWrite d) b = apfst OBool (vWrite ops d b)"
| "q_step ops (QPop n) b = apfst OBytes (vPop ops n b)"
| "q_step ops (QPeek n) b = (OBytes (vPeek ops n b), b)"
| "q_step ops (QConsume n) b = apfst OBool (vConsume ops n b)"
| "q_step ops QClear b = (ODone, vClear ops b)"
| "q_step ops (QAllocFill d) b =
     (case vAllocateWrite ops (length d) b of
        (None, b') \<Rightarrow> (OBool False, b')
      | (Some ss, b') \<Rightarrow> (OBool True, buf_store ops ss d b'))"
| "q_step ops (QRecv d) b =
     (let (free, ss) = vGetWriteableBuffers ops b; got = take free d
      in apfst OBool (vCommitWrite ops (length got) (buf_store ops ss got b)))"
| "q_step ops QReadAll b = (OBytes (Some (buf_load ops (snd (vGetReadBuffers ops b)) b)), b)"
| "q_step ops QSizes b = (OSizes (vCanReadSize ops b) (vCanWriteSize ops b), b)"

fun q_run :: "'b IBuffer \<Rightarrow> qop list \<Rightarrow> 'b \<Rightarrow> qout list \<times> 'b" where
  "q_run ops [] b = ([], b)"
| "q_run ops (c # cs) b =
     (let (out, b') = q_step ops c b; (outs, b'') = q_run ops cs b' in (out # outs, b''))"

text \<open>The same calls on the specification: a list of at most \<open>c\<close> bytes.\<close>

fun spec_step :: "nat \<Rightarrow> qop \<Rightarrow> byte list \<Rightarrow> qout \<times> byte list" where
  "spec_step c (QWrite d) xs =
     (if length xs + length d \<le> c then (OBool True, xs @ d) else (OBool False, xs))"
| "spec_step c (QPop n) xs =
     (if n \<le> length xs then (OBytes (Some (take n xs)), drop n xs) else (OBytes None, xs))"
| "spec_step c (QPeek n) xs = (OBytes (if n \<le> length xs then Some (take n xs) else None), xs)"
| "spec_step c (QConsume n) xs =
     (if n \<le> length xs then (OBool True, drop n xs) else (OBool False, xs))"
| "spec_step c QClear xs = (ODone, [])"
| "spec_step c (QAllocFill d) xs =
     (if length xs + length d \<le> c then (OBool True, xs @ d) else (OBool False, xs))"
| "spec_step c (QRecv d) xs = (OBool True, xs @ take (c - length xs) d)"
| "spec_step c QReadAll xs = (OBytes (Some xs), xs)"
| "spec_step c QSizes xs = (OSizes (length xs) (c - length xs), xs)"

fun spec_run :: "nat \<Rightarrow> qop list \<Rightarrow> byte list \<Rightarrow> qout list \<times> byte list" where
  "spec_run c [] xs = ([], xs)"
| "spec_run c (o1 # os) xs =
     (let (out, xs') = spec_step c o1 xs; (outs, xs'') = spec_run c os xs' in (out # outs, xs''))"

section \<open>The contract\<close>

text \<open>The bounded byte queue: the abstraction \<open>contents\<close>, the fixed \<open>cap\<close> and the
  representation invariant \<open>inv\<close>.\<close>

locale byte_queue =
  fixes ops :: "'b IBuffer"
    and contents :: "'b \<Rightarrow> byte list"
    and cap :: "'b \<Rightarrow> nat"
    and inv :: "'b \<Rightarrow> bool"
  assumes bounded: "inv b \<Longrightarrow> length (contents b) \<le> cap b"
    and write_ok: "inv b \<Longrightarrow> length (contents b) + length d \<le> cap b \<Longrightarrow>
      \<exists>b'. vWrite ops d b = (True, b') \<and> inv b' \<and> contents b' = contents b @ d \<and> cap b' = cap b"
    and write_full: "inv b \<Longrightarrow> cap b < length (contents b) + length d \<Longrightarrow>
      vWrite ops d b = (False, b)"
    and pop_ok: "inv b \<Longrightarrow> n \<le> length (contents b) \<Longrightarrow>
      \<exists>b'. vPop ops n b = (Some (take n (contents b)), b') \<and> inv b' \<and>
        contents b' = drop n (contents b) \<and> cap b' = cap b"
    and pop_short: "inv b \<Longrightarrow> length (contents b) < n \<Longrightarrow> vPop ops n b = (None, b)"
    and peek: "inv b \<Longrightarrow> vPeek ops n b =
      (if n \<le> length (contents b) then Some (take n (contents b)) else None)"
    and consume_ok: "inv b \<Longrightarrow> n \<le> length (contents b) \<Longrightarrow>
      \<exists>b'. vConsume ops n b = (True, b') \<and> inv b' \<and>
        contents b' = drop n (contents b) \<and> cap b' = cap b"
    and consume_short: "inv b \<Longrightarrow> length (contents b) < n \<Longrightarrow> vConsume ops n b = (False, b)"
    and can_read: "inv b \<Longrightarrow> vCanReadSize ops b = length (contents b)"
    and can_write: "inv b \<Longrightarrow> vCanWriteSize ops b = cap b - length (contents b)"
    and clear: "inv b \<Longrightarrow>
      inv (vClear ops b) \<and> contents (vClear ops b) = [] \<and> cap (vClear ops b) = cap b"
    and read_spans: "inv b \<Longrightarrow> \<exists>ss. vGetReadBuffers ops b = (length (contents b), ss) \<and>
        spans_size ss = length (contents b) \<and> buf_load ops ss b = contents b"
    and alloc_ok: "inv b \<Longrightarrow> length (contents b) + n \<le> cap b \<Longrightarrow>
      \<exists>ss b'. vAllocateWrite ops n b = (Some ss, b') \<and> inv b' \<and> cap b' = cap b \<and>
        spans_size ss = n \<and> spans_within (length (vMem ops b')) ss \<and>
        length (contents b') = length (contents b) + n \<and>
        (\<forall>d. length d = n \<longrightarrow> inv (buf_store ops ss d b') \<and> cap (buf_store ops ss d b') = cap b \<and>
            contents (buf_store ops ss d b') = contents b @ d)"
    and alloc_full: "inv b \<Longrightarrow> cap b < length (contents b) + n \<Longrightarrow>
      vAllocateWrite ops n b = (None, b)"
    and write_spans: "inv b \<Longrightarrow> \<exists>ss. vGetWriteableBuffers ops b = (cap b - length (contents b), ss) \<and>
        spans_size ss = cap b - length (contents b)"
    and commit_ok: "inv b \<Longrightarrow> vGetWriteableBuffers ops b = (free, ss) \<Longrightarrow> length d \<le> free \<Longrightarrow>
      inv (buf_store ops ss d b) \<and> contents (buf_store ops ss d b) = contents b \<and>
      cap (buf_store ops ss d b) = cap b \<and>
      (\<exists>b'. vCommitWrite ops (length d) (buf_store ops ss d b) = (True, b') \<and> inv b' \<and>
        contents b' = contents b @ d \<and> cap b' = cap b)"
    and commit_inv: "inv b \<Longrightarrow>
      inv (snd (vCommitWrite ops n b)) \<and> cap (snd (vCommitWrite ops n b)) = cap b"
    and commit_full: "inv b \<Longrightarrow> cap b < length (contents b) + n \<Longrightarrow>
      vCommitWrite ops n b = (False, b)"
begin

text \<open>A whole write or nothing: the queue after a \<open>Write\<close>, on both branches.\<close>

lemma write_contents:
  assumes "inv b"
  shows "contents (snd (vWrite ops d b)) =
    (if fst (vWrite ops d b) then contents b @ d else contents b)"
    and "inv (snd (vWrite ops d b))"
    and "cap (snd (vWrite ops d b)) = cap b"
    and "fst (vWrite ops d b) \<longleftrightarrow> length (contents b) + length d \<le> cap b"
  using write_ok[OF assms, of d] write_full[OF assms, of d] assms
  by (cases "length (contents b) + length d \<le> cap b"; fastforce)+

lemma consume_contents:
  assumes "inv b"
  shows "contents (snd (vConsume ops n b)) =
    (if n \<le> length (contents b) then drop n (contents b) else contents b)"
    and "inv (snd (vConsume ops n b))"
    and "cap (snd (vConsume ops n b)) = cap b"
    and "fst (vConsume ops n b) \<longleftrightarrow> n \<le> length (contents b)"
  using consume_ok[OF assms, of n] consume_short[OF assms, of n] assms
  by (cases "n \<le> length (contents b)"; fastforce)+

text \<open>The zero-copy path (\<open>AllocateWrite\<close>, then filling the spans) and the direct
  receive path (\<open>GetWriteableBuffers\<close>, then \<open>CommitWrite\<close>) have the effect of \<open>Write\<close>.\<close>

lemma alloc_store_is_write:
  assumes "inv b" "vAllocateWrite ops (length d) b = (Some ss, b')"
  shows "fst (vWrite ops d b)"
    and "contents (buf_store ops ss d b') = contents (snd (vWrite ops d b))"
    and "inv (buf_store ops ss d b')"
    and "cap (buf_store ops ss d b') = cap b"
proof -
  have fits: "length (contents b) + length d \<le> cap b"
    using alloc_full[OF assms(1), of "length d"] assms(2) by fastforce
  then show w: "fst (vWrite ops d b)"
    using write_contents(4)[OF assms(1)] by simp
  show "contents (buf_store ops ss d b') = contents (snd (vWrite ops d b))"
    using alloc_ok[OF assms(1) fits] assms(2) w write_contents(1)[OF assms(1), of d] by auto
  show "inv (buf_store ops ss d b')" "cap (buf_store ops ss d b') = cap b"
    using alloc_ok[OF assms(1) fits] assms(2) by auto
qed

lemma commit_is_write:
  assumes "inv b" "vGetWriteableBuffers ops b = (free, ss)" "length d \<le> free"
  shows "contents (snd (vCommitWrite ops (length d) (buf_store ops ss d b))) =
    contents (snd (vWrite ops d b))"
    and "fst (vCommitWrite ops (length d) (buf_store ops ss d b))"
    and "inv (snd (vCommitWrite ops (length d) (buf_store ops ss d b)))"
    and "cap (snd (vCommitWrite ops (length d) (buf_store ops ss d b))) = cap b"
proof -
  have "free = cap b - length (contents b)"
    using write_spans[OF assms(1)] assms(2) by auto
  then have "fst (vWrite ops d b)"
    using assms(3) bounded[OF assms(1)] write_contents(4)[OF assms(1)] by simp
  then show "contents (snd (vCommitWrite ops (length d) (buf_store ops ss d b))) =
      contents (snd (vWrite ops d b))"
    using commit_ok[OF assms] write_contents(1)[OF assms(1), of d] by auto
  show "fst (vCommitWrite ops (length d) (buf_store ops ss d b))"
    "inv (snd (vCommitWrite ops (length d) (buf_store ops ss d b)))"
    "cap (snd (vCommitWrite ops (length d) (buf_store ops ss d b))) = cap b"
    using commit_ok[OF assms] by auto
qed

text \<open>FIFO: what was written is what is popped, in pieces of any size.\<close>

lemma write_then_pop:
  assumes "inv b" "contents b = []" "length d \<le> cap b"
  shows "fst (vPop ops (length d) (snd (vWrite ops d b))) = Some d"
    and "contents (snd (vPop ops (length d) (snd (vWrite ops d b)))) = []"
proof -
  let ?b = "snd (vWrite ops d b)"
  have "contents ?b = d" "inv ?b"
    using write_contents[OF assms(1), of d] assms by auto
  then show "fst (vPop ops (length d) ?b) = Some d"
    "contents (snd (vPop ops (length d) ?b)) = []"
    using pop_ok[of ?b "length d"] by auto
qed

text \<open>Every sequence of calls shows the client what the specification shows.\<close>

lemma step_refines:
  assumes "inv b"
  shows "fst (q_step ops c b) = fst (spec_step (cap b) c (contents b))"
    and "contents (snd (q_step ops c b)) = snd (spec_step (cap b) c (contents b))"
    and "inv (snd (q_step ops c b))"
    and "cap (snd (q_step ops c b)) = cap b"
proof -
  have "fst (q_step ops c b) = fst (spec_step (cap b) c (contents b)) \<and>
    contents (snd (q_step ops c b)) = snd (spec_step (cap b) c (contents b)) \<and>
    inv (snd (q_step ops c b)) \<and> cap (snd (q_step ops c b)) = cap b"
  proof (cases c)
    case (QWrite d)
    then show ?thesis using write_contents[OF assms, of d] by auto
  next
    case (QPop n)
    then show ?thesis
      using pop_ok[OF assms, of n] pop_short[OF assms, of n] assms
      by (cases "n \<le> length (contents b)") auto
  next
    case (QConsume n)
    then show ?thesis using consume_contents[OF assms, of n] by auto
  next
    case (QAllocFill d)
    then show ?thesis
      using alloc_ok[OF assms, of "length d"] alloc_full[OF assms, of "length d"] assms
      by (cases "length (contents b) + length d \<le> cap b") auto
  next
    case (QRecv d)
    obtain ss where ss: "vGetWriteableBuffers ops b = (cap b - length (contents b), ss)"
      using write_spans[OF assms] by auto
    then show ?thesis
      using QRecv commit_ok[OF assms ss, of "take (cap b - length (contents b)) d"] by auto
  next
    case QReadAll
    then show ?thesis using read_spans[OF assms] assms by auto
  qed (use assms in \<open>auto simp: peek clear can_read can_write\<close>)
  then show "fst (q_step ops c b) = fst (spec_step (cap b) c (contents b))"
    "contents (snd (q_step ops c b)) = snd (spec_step (cap b) c (contents b))"
    "inv (snd (q_step ops c b))" "cap (snd (q_step ops c b)) = cap b" by auto
qed

lemma run_refines:
  assumes "inv b"
  shows "fst (q_run ops cs b) = fst (spec_run (cap b) cs (contents b))"
    and "contents (snd (q_run ops cs b)) = snd (spec_run (cap b) cs (contents b))"
    and "inv (snd (q_run ops cs b))"
  using assms
proof (induction cs arbitrary: b)
  case (Cons c cs)
  {
    case 1
    then show ?case
      using Cons.IH(1)[of "snd (q_step ops c b)"] step_refines[OF 1, of c]
      by (simp add: split_beta)
  next
    case 2
    then show ?case
      using Cons.IH(2)[of "snd (q_step ops c b)"] step_refines[OF 2, of c]
      by (simp add: split_beta)
  next
    case 3
    then show ?case
      using Cons.IH(3)[of "snd (q_step ops c b)"] step_refines[OF 3, of c]
      by (simp add: split_beta)
  }
qed simp_all

lemma run_cap:
  assumes "inv b"
  shows "cap (snd (q_run ops cs b)) = cap b"
  using assms
proof (induction cs arbitrary: b)
  case (Cons c cs)
  then show ?case
    using step_refines(3,4)[OF Cons.prems, of c] by (simp add: split_beta)
qed simp

end

end
