(* ===== verification/Circle_Buffer.thy ===== *)
theory Circle_Buffer
  imports Buffer_Interface
begin

text \<open>
  \<open>CircleBufferQueue\<close> (\<open>LibCommons/CircleBufferQueue.ixx\<close>): the ring buffer behind every
  IOCP session. Every operation runs under the object's reader/writer lock, so one
  operation is one step on the record of the members. The queue computes
  \<open>% m_Capacity\<close> without a guard: a capacity of zero is undefined behaviour in the
  code and excluded by the invariant.
\<close>

record CircleBufferQueue =
  m_Buffer :: "byte list"
  m_Head :: nat
  m_Tail :: nat
  m_Size :: nat
  m_Capacity :: nat

definition CircleBufferQueue_ctor :: "nat \<Rightarrow> CircleBufferQueue" where
  "CircleBufferQueue_ctor capacity =
     \<lparr>m_Buffer = (if capacity > 0 then replicate capacity 0 else []),
      m_Head = 0, m_Tail = 0, m_Size = 0, m_Capacity = capacity\<rparr>"

definition CircleBufferQueue_Write ::
  "byte list \<Rightarrow> CircleBufferQueue \<Rightarrow> bool \<times> CircleBufferQueue" where
  "CircleBufferQueue_Write data q =
     (let size = length data in
      if m_Capacity q - m_Size q < size then (False, q)
      else
        let writeIndex = m_Head q;
            firstPart = min size (m_Capacity q - writeIndex);
            buf1 = memcpy_at writeIndex (take firstPart data) (m_Buffer q);
            buf2 = (if size > firstPart then memcpy_at 0 (drop firstPart data) buf1 else buf1)
        in (True, q\<lparr>m_Buffer := buf2,
                     m_Head := (m_Head q + size) mod m_Capacity q,
                     m_Size := m_Size q + size\<rparr>))"

text \<open>The copy out of the ring that \<open>Pop\<close> and \<open>Peek\<close> make, in two parts.\<close>

definition CircleBufferQueue_copy_out :: "nat \<Rightarrow> CircleBufferQueue \<Rightarrow> byte list" where
  "CircleBufferQueue_copy_out sz q =
     (let readIndex = m_Tail q;
          firstPart = min sz (m_Capacity q - readIndex);
          part1 = span_read (m_Buffer q) (readIndex, firstPart)
      in if sz > firstPart then part1 @ span_read (m_Buffer q) (0, sz - firstPart) else part1)"

definition CircleBufferQueue_Pop ::
  "nat \<Rightarrow> CircleBufferQueue \<Rightarrow> byte list option \<times> CircleBufferQueue" where
  "CircleBufferQueue_Pop sz q =
     (if m_Size q < sz then (None, q)
      else (Some (CircleBufferQueue_copy_out sz q),
            q\<lparr>m_Tail := (m_Tail q + sz) mod m_Capacity q, m_Size := m_Size q - sz\<rparr>))"

definition CircleBufferQueue_Peek :: "nat \<Rightarrow> CircleBufferQueue \<Rightarrow> byte list option" where
  "CircleBufferQueue_Peek sz q =
     (if m_Size q < sz then None else Some (CircleBufferQueue_copy_out sz q))"

definition CircleBufferQueue_GetReadBuffers :: "CircleBufferQueue \<Rightarrow> nat \<times> span list" where
  "CircleBufferQueue_GetReadBuffers q =
     (if m_Size q = 0 then (0, [])
      else
        let firstPart = min (m_Size q) (m_Capacity q - m_Tail q) in
        (m_Size q,
         (m_Tail q, firstPart) #
           (if m_Size q > firstPart then [(0, m_Size q - firstPart)] else [])))"

definition CircleBufferQueue_AllocateWrite ::
  "nat \<Rightarrow> CircleBufferQueue \<Rightarrow> span list option \<times> CircleBufferQueue" where
  "CircleBufferQueue_AllocateWrite sz q =
     (if m_Capacity q - m_Size q < sz then (None, q)
      else
        let writeIndex = m_Head q;
            firstPart = min sz (m_Capacity q - writeIndex)
        in (Some ((writeIndex, firstPart) #
                    (if sz > firstPart then [(0, sz - firstPart)] else [])),
            q\<lparr>m_Head := (m_Head q + sz) mod m_Capacity q, m_Size := m_Size q + sz\<rparr>))"

definition CircleBufferQueue_Consume ::
  "nat \<Rightarrow> CircleBufferQueue \<Rightarrow> bool \<times> CircleBufferQueue" where
  "CircleBufferQueue_Consume sz q =
     (if m_Size q < sz then (False, q)
      else (True, q\<lparr>m_Tail := (m_Tail q + sz) mod m_Capacity q, m_Size := m_Size q - sz\<rparr>))"

definition CircleBufferQueue_CanReadSize :: "CircleBufferQueue \<Rightarrow> nat" where
  "CircleBufferQueue_CanReadSize q = m_Size q"

definition CircleBufferQueue_CanWriteSize :: "CircleBufferQueue \<Rightarrow> nat" where
  "CircleBufferQueue_CanWriteSize q = m_Capacity q - m_Size q"

definition CircleBufferQueue_Clear :: "CircleBufferQueue \<Rightarrow> CircleBufferQueue" where
  "CircleBufferQueue_Clear q = q\<lparr>m_Head := 0, m_Tail := 0, m_Size := 0\<rparr>"

definition CircleBufferQueue_GetWriteableBuffers :: "CircleBufferQueue \<Rightarrow> nat \<times> span list" where
  "CircleBufferQueue_GetWriteableBuffers q =
     (let freeSpace = m_Capacity q - m_Size q in
      if freeSpace = 0 then (0, [])
      else
        let writeIndex = m_Head q;
            firstPart = min freeSpace (m_Capacity q - writeIndex)
        in (freeSpace,
            (writeIndex, firstPart) #
              (if freeSpace > firstPart then [(0, freeSpace - firstPart)] else [])))"

definition CircleBufferQueue_CommitWrite ::
  "nat \<Rightarrow> CircleBufferQueue \<Rightarrow> bool \<times> CircleBufferQueue" where
  "CircleBufferQueue_CommitWrite sz q =
     (if m_Capacity q - m_Size q < sz then (False, q)
      else (True, q\<lparr>m_Head := (m_Head q + sz) mod m_Capacity q, m_Size := m_Size q + sz\<rparr>))"

text \<open>The virtual function table of the class; the memory behind its spans is
  \<open>m_Buffer\<close>.\<close>

definition CircleBufferQueue_vtable :: "CircleBufferQueue IBuffer" where
  "CircleBufferQueue_vtable =
     \<lparr>vWrite = CircleBufferQueue_Write,
      vPop = CircleBufferQueue_Pop,
      vPeek = CircleBufferQueue_Peek,
      vGetReadBuffers = CircleBufferQueue_GetReadBuffers,
      vAllocateWrite = CircleBufferQueue_AllocateWrite,
      vGetWriteableBuffers = CircleBufferQueue_GetWriteableBuffers,
      vCommitWrite = CircleBufferQueue_CommitWrite,
      vConsume = CircleBufferQueue_Consume,
      vCanReadSize = CircleBufferQueue_CanReadSize,
      vCanWriteSize = CircleBufferQueue_CanWriteSize,
      vClear = CircleBufferQueue_Clear,
      vMem = m_Buffer,
      vSetMem = (\<lambda>mem q. q\<lparr>m_Buffer := mem\<rparr>)\<rparr>"

section \<open>Invariant and abstraction\<close>

definition cbq_inv :: "CircleBufferQueue \<Rightarrow> bool" where
  "cbq_inv q \<longleftrightarrow> 0 < m_Capacity q \<and> length (m_Buffer q) = m_Capacity q \<and>
     m_Tail q < m_Capacity q \<and> m_Size q \<le> m_Capacity q \<and>
     m_Head q = (m_Tail q + m_Size q) mod m_Capacity q"

definition cbq_contents :: "CircleBufferQueue \<Rightarrow> byte list" where
  "cbq_contents q = ring_read (m_Buffer q) (m_Tail q) (m_Size q)"

lemma length_cbq_contents [simp]: "length (cbq_contents q) = m_Size q"
  by (simp add: cbq_contents_def)

lemma cbq_inv_ctor: "0 < c \<Longrightarrow> cbq_inv (CircleBufferQueue_ctor c)"
  by (simp add: cbq_inv_def CircleBufferQueue_ctor_def)

lemma cbq_contents_ctor [simp]: "cbq_contents (CircleBufferQueue_ctor c) = []"
  by (simp add: cbq_contents_def CircleBufferQueue_ctor_def)

text \<open>Each operation in terms of the ring operations of the prelude.\<close>

lemma cbq_head_less: "cbq_inv q \<Longrightarrow> m_Head q < m_Capacity q"
  by (simp add: cbq_inv_def)

lemma cbq_Write_ring:
  assumes "cbq_inv q" "m_Size q + length d \<le> m_Capacity q"
  shows "CircleBufferQueue_Write d q =
    (True, q\<lparr>m_Buffer := ring_write (m_Buffer q) (m_Head q) d,
             m_Head := (m_Head q + length d) mod m_Capacity q,
             m_Size := m_Size q + length d\<rparr>)"
proof -
  have "\<not> m_Capacity q - m_Size q < length d" "length (m_Buffer q) = m_Capacity q"
    using assms by (auto simp: cbq_inv_def)
  then show ?thesis
    by (simp add: CircleBufferQueue_Write_def ring_write_def Let_def)
qed

lemma cbq_copy_out_ring:
  assumes "cbq_inv q" "n \<le> m_Size q"
  shows "CircleBufferQueue_copy_out n q = take n (cbq_contents q)"
proof -
  have "gather (m_Buffer q) (ring_spans (length (m_Buffer q)) (m_Tail q) n) =
    ring_read (m_Buffer q) (m_Tail q) n"
    using assms by (intro gather_ring_spans) (auto simp: cbq_inv_def)
  moreover have "CircleBufferQueue_copy_out n q =
    gather (m_Buffer q) (ring_spans (length (m_Buffer q)) (m_Tail q) n)"
    using assms(1)
    by (simp add: CircleBufferQueue_copy_out_def ring_spans_def Let_def cbq_inv_def)
  ultimately show ?thesis
    using assms by (simp add: cbq_contents_def take_ring_read)
qed

text \<open>Advancing the head by \<open>n\<close> after the free region was filled appends; advancing the
  tail drops. These two facts carry every operation.\<close>

lemma cbq_push:
  assumes "cbq_inv q" "m_Size q + length d \<le> m_Capacity q"
  defines "q' \<equiv> q\<lparr>m_Buffer := ring_write (m_Buffer q) (m_Head q) d,
             m_Head := (m_Head q + length d) mod m_Capacity q,
             m_Size := m_Size q + length d\<rparr>"
  shows "cbq_inv q'" "cbq_contents q' = cbq_contents q @ d"
  using assms ring_read_append[of "m_Tail q" "m_Buffer q" "m_Size q" d]
  by (auto simp: cbq_inv_def cbq_contents_def mod_simps ac_simps)

lemma cbq_drop:
  assumes "cbq_inv q" "n \<le> m_Size q"
  defines "q' \<equiv> q\<lparr>m_Tail := (m_Tail q + n) mod m_Capacity q, m_Size := m_Size q - n\<rparr>"
  shows "cbq_inv q'" "cbq_contents q' = drop n (cbq_contents q)"
proof -
  have "((m_Tail q + n) mod m_Capacity q + (m_Size q - n)) mod m_Capacity q =
    (m_Tail q + m_Size q) mod m_Capacity q"
    using assms(2) mod_add_left_eq[of "m_Tail q + n" "m_Capacity q" "m_Size q - n"] by simp
  then show "cbq_inv q'"
    using assms by (auto simp: cbq_inv_def)
  show "cbq_contents q' = drop n (cbq_contents q)"
    using assms by (simp add: cbq_contents_def cbq_inv_def drop_ring_read)
qed

lemma cbq_reserve:
  assumes "cbq_inv q" "m_Size q + n \<le> m_Capacity q"
  shows "cbq_inv (q\<lparr>m_Head := (m_Head q + n) mod m_Capacity q, m_Size := m_Size q + n\<rparr>)"
  using assms by (auto simp: cbq_inv_def mod_simps ac_simps)

lemma cbq_store_free:
  assumes "cbq_inv q" "m_Size q + length d \<le> m_Capacity q"
  shows "cbq_inv (q\<lparr>m_Buffer := ring_write (m_Buffer q) (m_Head q) d\<rparr>)"
    and "cbq_contents (q\<lparr>m_Buffer := ring_write (m_Buffer q) (m_Head q) d\<rparr>) = cbq_contents q"
  using assms ring_read_keep[of "m_Tail q" "m_Buffer q" "m_Size q" d]
  by (auto simp: cbq_inv_def cbq_contents_def)

lemma cbq_scatter:
  assumes "cbq_inv q" "length d \<le> n" "n \<le> m_Capacity q"
  shows "scatter (ring_spans (m_Capacity q) (m_Head q) n) d (m_Buffer q) =
    ring_write (m_Buffer q) (m_Head q) d"
  using assms scatter_ring_spans[of "m_Head q" "m_Buffer q" d n] cbq_head_less[OF assms(1)]
  by (simp add: cbq_inv_def)

lemma cbq_Alloc_ring:
  "CircleBufferQueue_AllocateWrite n q =
    (if m_Capacity q - m_Size q < n then (None, q)
     else (Some (ring_spans (m_Capacity q) (m_Head q) n),
           q\<lparr>m_Head := (m_Head q + n) mod m_Capacity q, m_Size := m_Size q + n\<rparr>))"
  by (simp add: CircleBufferQueue_AllocateWrite_def ring_spans_def Let_def)

lemma cbq_GetRead_ring:
  "CircleBufferQueue_GetReadBuffers q =
    (if m_Size q = 0 then (0, []) else (m_Size q, ring_spans (m_Capacity q) (m_Tail q) (m_Size q)))"
  by (simp add: CircleBufferQueue_GetReadBuffers_def ring_spans_def Let_def)

lemma cbq_GetWriteable_ring:
  "CircleBufferQueue_GetWriteableBuffers q =
    (if m_Capacity q - m_Size q = 0 then (0, [])
     else (m_Capacity q - m_Size q,
           ring_spans (m_Capacity q) (m_Head q) (m_Capacity q - m_Size q)))"
  by (simp add: CircleBufferQueue_GetWriteableBuffers_def ring_spans_def Let_def)

lemma cbq_load_contents:
  assumes "cbq_inv q"
  shows "gather (m_Buffer q) (ring_spans (m_Capacity q) (m_Tail q) (m_Size q)) = cbq_contents q"
  using assms gather_ring_spans[of "m_Tail q" "m_Buffer q" "m_Size q"]
  by (simp add: cbq_contents_def cbq_inv_def)

lemma cbq_alloc_store:
  assumes "cbq_inv q" "m_Size q + length d \<le> m_Capacity q"
  defines "q' \<equiv> q\<lparr>m_Head := (m_Head q + length d) mod m_Capacity q,
                   m_Size := m_Size q + length d\<rparr>"
  shows "cbq_inv (q'\<lparr>m_Buffer := scatter (ring_spans (m_Capacity q) (m_Head q) (length d)) d (m_Buffer q')\<rparr>)"
    and "cbq_contents (q'\<lparr>m_Buffer := scatter (ring_spans (m_Capacity q) (m_Head q) (length d)) d (m_Buffer q')\<rparr>) =
      cbq_contents q @ d"
proof -
  have "q'\<lparr>m_Buffer := scatter (ring_spans (m_Capacity q) (m_Head q) (length d)) d (m_Buffer q')\<rparr> =
    q\<lparr>m_Buffer := ring_write (m_Buffer q) (m_Head q) d,
      m_Head := (m_Head q + length d) mod m_Capacity q, m_Size := m_Size q + length d\<rparr>"
    using assms cbq_scatter[OF assms(1), of d "length d"] by simp
  then show "cbq_inv (q'\<lparr>m_Buffer := scatter (ring_spans (m_Capacity q) (m_Head q) (length d)) d (m_Buffer q')\<rparr>)"
    "cbq_contents (q'\<lparr>m_Buffer := scatter (ring_spans (m_Capacity q) (m_Head q) (length d)) d (m_Buffer q')\<rparr>) =
      cbq_contents q @ d"
    using cbq_push[OF assms(1,2)] by simp_all
qed

lemma cbq_alloc_within:
  assumes "cbq_inv q" "m_Size q + n \<le> m_Capacity q"
  shows "spans_within (length (m_Buffer q)) (ring_spans (m_Capacity q) (m_Head q) n)"
  using assms cbq_head_less[OF assms(1)] by (simp add: cbq_inv_def)

lemma cbq_store_commit:
  assumes "cbq_inv q" "CircleBufferQueue_GetWriteableBuffers q = (free, ss)" "length d \<le> free"
  defines "q1 \<equiv> q\<lparr>m_Buffer := scatter ss d (m_Buffer q)\<rparr>"
  shows "cbq_inv q1" "cbq_contents q1 = cbq_contents q" "m_Capacity q1 = m_Capacity q"
    and "\<exists>q2. CircleBufferQueue_CommitWrite (length d) q1 = (True, q2) \<and> cbq_inv q2 \<and>
      cbq_contents q2 = cbq_contents q @ d \<and> m_Capacity q2 = m_Capacity q"
proof -
  have size: "m_Size q + length d \<le> m_Capacity q"
    using assms(1-3) by (auto simp: cbq_GetWriteable_ring cbq_inv_def split: if_splits)
  have "scatter ss d (m_Buffer q) = ring_write (m_Buffer q) (m_Head q) d"
  proof (cases "m_Capacity q - m_Size q = 0")
    case True
    then have "ss = []" "d = []"
      using assms(2,3) by (auto simp: cbq_GetWriteable_ring)
    moreover have "m_Head q \<le> length (m_Buffer q)"
      using cbq_head_less[OF assms(1)] assms(1) by (simp add: cbq_inv_def)
    ultimately show ?thesis by (simp add: ring_write_def)
  next
    case False
    then show ?thesis
      using assms(1-3) cbq_scatter[OF assms(1), of d free]
      by (auto simp: cbq_GetWriteable_ring)
  qed
  then have q1: "q1 = q\<lparr>m_Buffer := ring_write (m_Buffer q) (m_Head q) d\<rparr>"
    by (simp add: q1_def)
  show "cbq_inv q1" "cbq_contents q1 = cbq_contents q" "m_Capacity q1 = m_Capacity q"
    using cbq_store_free[OF assms(1) size] by (simp_all add: q1)
  show "\<exists>q2. CircleBufferQueue_CommitWrite (length d) q1 = (True, q2) \<and> cbq_inv q2 \<and>
      cbq_contents q2 = cbq_contents q @ d \<and> m_Capacity q2 = m_Capacity q"
    using cbq_push[OF assms(1) size] size by (auto simp: q1 CircleBufferQueue_CommitWrite_def)
qed

text \<open>The ring buffer keeps the contract of \<open>IBuffer\<close>.\<close>

interpretation cbq: byte_queue CircleBufferQueue_vtable cbq_contents m_Capacity cbq_inv
proof (unfold_locales, goal_cases)
  case (1 b) then show ?case by (simp add: cbq_inv_def)
next
  case (2 b d) then show ?case
    using cbq_push[of b d] by (simp add: CircleBufferQueue_vtable_def cbq_Write_ring)
next
  case (3 b d) then show ?case
    by (auto simp: CircleBufferQueue_vtable_def CircleBufferQueue_Write_def Let_def cbq_inv_def)
next
  case (4 b n) then show ?case
    using cbq_drop[of b n]
    by (simp add: CircleBufferQueue_vtable_def CircleBufferQueue_Pop_def cbq_copy_out_ring)
next
  case (5 b n) then show ?case
    by (simp add: CircleBufferQueue_vtable_def CircleBufferQueue_Pop_def)
next
  case (6 b n) then show ?case
    by (simp add: CircleBufferQueue_vtable_def CircleBufferQueue_Peek_def cbq_copy_out_ring)
next
  case (7 b n) then show ?case
    using cbq_drop[of b n]
    by (simp add: CircleBufferQueue_vtable_def CircleBufferQueue_Consume_def)
next
  case (8 b n) then show ?case
    by (simp add: CircleBufferQueue_vtable_def CircleBufferQueue_Consume_def)
next
  case (9 b) then show ?case
    by (simp add: CircleBufferQueue_vtable_def CircleBufferQueue_CanReadSize_def)
next
  case (10 b) then show ?case
    by (simp add: CircleBufferQueue_vtable_def CircleBufferQueue_CanWriteSize_def)
next
  case (11 b) then show ?case
    by (simp add: CircleBufferQueue_vtable_def CircleBufferQueue_Clear_def cbq_inv_def
        cbq_contents_def)
next
  case (12 b) then show ?case
    using cbq_load_contents[of b]
    by (auto simp: buf_store_def buf_load_def CircleBufferQueue_vtable_def cbq_GetRead_ring cbq_contents_def)
next
  case (13 b n) then show ?case
    using cbq_reserve[of b n] cbq_alloc_store[of b] cbq_alloc_within[of b n]
    by (auto simp: buf_store_def buf_load_def CircleBufferQueue_vtable_def cbq_Alloc_ring)
next
  case (14 b n) then show ?case
    by (auto simp: CircleBufferQueue_vtable_def cbq_Alloc_ring cbq_inv_def)
next
  case (15 b) then show ?case
    by (simp add: CircleBufferQueue_vtable_def cbq_GetWriteable_ring)
next
  case (16 b free ss d) then show ?case
    using cbq_store_commit[of b free ss d]
    by (simp add: buf_store_def CircleBufferQueue_vtable_def)
next
  case (17 b n) then show ?case
    using cbq_reserve[of b n]
    by (auto simp: CircleBufferQueue_vtable_def CircleBufferQueue_CommitWrite_def cbq_inv_def)
next
  case (18 b n) then show ?case
    by (auto simp: CircleBufferQueue_vtable_def CircleBufferQueue_CommitWrite_def cbq_inv_def)
qed

section \<open>Properties\<close>

text \<open>C1: on a ring buffer built with a positive capacity, every sequence of calls (plain
  and zero-copy writes, kernel receives with a commit, pops, peeks, consumes, clears, size
  queries) returns exactly what a bounded FIFO list of bytes returns, however often the
  positions wrap, and leaves the bytes that list holds.\<close>

theorem circle_buffer_refines_queue:
  assumes "0 < c"
  shows "fst (q_run CircleBufferQueue_vtable cs (CircleBufferQueue_ctor c)) = fst (spec_run c cs []) \<and>
    cbq_contents (snd (q_run CircleBufferQueue_vtable cs (CircleBufferQueue_ctor c))) =
      snd (spec_run c cs [])"
  using cbq.run_refines(1,2)[OF cbq_inv_ctor[OF assms], of cs]
  by (simp add: CircleBufferQueue_ctor_def cbq_contents_def)

theorem circle_buffer_refines_queue_witness:
  "fst (q_run CircleBufferQueue_vtable
      [QWrite [1, 2, 3], QPop 2, QAllocFill [4, 5, 6], QRecv [7], QReadAll, QWrite [8]]
      (CircleBufferQueue_ctor 4)) =
    [OBool True, OBytes (Some [1, 2]), OBool True, OBool True, OBytes (Some [3, 4, 5, 6]), OBool False]"
  using circle_buffer_refines_queue[of 4
      "[QWrite [1, 2, 3], QPop 2, QAllocFill [4, 5, 6], QRecv [7], QReadAll, QWrite [8]]"]
  by simp

text \<open>C40: the members stay consistent in every reachable state of the ring buffer:
  the size never exceeds the capacity, head and tail stay inside the block and the head is
  the tail advanced by the size, and no call changes the length of the block.\<close>

theorem circle_buffer_invariant:
  fixes cs :: "qop list"
  assumes "0 < c"
  defines "q \<equiv> snd (q_run CircleBufferQueue_vtable cs (CircleBufferQueue_ctor c))"
  shows "m_Capacity q = c \<and> length (m_Buffer q) = c \<and> m_Size q \<le> c \<and> m_Tail q < c \<and> m_Head q < c \<and>
    m_Head q = (m_Tail q + m_Size q) mod c"
proof -
  have "cbq_inv q \<and> m_Capacity q = m_Capacity (CircleBufferQueue_ctor c)"
    unfolding q_def using cbq_inv_ctor[OF assms(1)]
    by (intro conjI cbq.run_refines(3) cbq.run_cap)
  then show ?thesis
    using cbq_head_less[of q] by (auto simp: cbq_inv_def CircleBufferQueue_ctor_def)
qed

theorem circle_buffer_invariant_witness:
  "m_Size (snd (q_run CircleBufferQueue_vtable [QWrite [1, 2, 3], QPop 2, QWrite [4, 5, 6]]
     (CircleBufferQueue_ctor 4))) \<le> 4"
  using circle_buffer_invariant[of 4 "[QWrite [1, 2, 3], QPop 2, QWrite [4, 5, 6]]"] by simp

end
