(* ===== verification/External_Buffer.thy ===== *)
theory External_Buffer
  imports Circle_Buffer
begin

text \<open>
  \<open>ExternalCircleBufferQueue\<close> (\<open>LibCommons/ExternalCircleBufferQueue.ixx\<close>): the ring buffer
  of the RIO sessions. It does not own its bytes: \<open>x_Buffer\<close> is a span of a memory block
  shared with other buffers (the pool that \<open>RioBufferManager\<close> registers), so its
  operations take that block and the ones that copy into it return it changed.

  \<open>as_cbq\<close> reads the members and the window of the block as a \<open>CircleBufferQueue\<close>; every
  operation commutes with it, which gives the contract of \<open>IBuffer\<close> from that of
  the owning ring buffer, and \<open>x_frame\<close> is the law the owning buffer does not need:
  bytes outside the window never change.
\<close>

record ExternalCircleBufferQueue =
  x_Buffer :: span
  x_Head :: nat
  x_Tail :: nat
  x_Size :: nat
  x_Capacity :: nat

type_synonym xstate = "byte list \<times> ExternalCircleBufferQueue"

definition ExternalCircleBufferQueue_ctor :: "span \<Rightarrow> ExternalCircleBufferQueue" where
  "ExternalCircleBufferQueue_ctor externalBuffer =
     \<lparr>x_Buffer = externalBuffer, x_Head = 0, x_Tail = 0, x_Size = 0,
      x_Capacity = snd externalBuffer\<rparr>"

text \<open>\<open>std::span::subspan\<close>.\<close>

definition subspan :: "span \<Rightarrow> nat \<Rightarrow> nat \<Rightarrow> span" where
  "subspan s off n = (fst s + off, n)"

definition ExternalCircleBufferQueue_Write :: "byte list \<Rightarrow> xstate \<Rightarrow> bool \<times> xstate" where
  "ExternalCircleBufferQueue_Write data st =
     (let mem = fst st; q = snd st; size = length data in
      if x_Capacity q - x_Size q < size then (False, st)
      else
        let writeIndex = x_Head q;
            firstPart = min size (x_Capacity q - writeIndex);
            mem1 = memcpy_at (fst (x_Buffer q) + writeIndex) (take firstPart data) mem;
            mem2 = (if size > firstPart
                    then memcpy_at (fst (x_Buffer q)) (drop firstPart data) mem1 else mem1)
        in (True, (mem2, q\<lparr>x_Head := (x_Head q + size) mod x_Capacity q,
                           x_Size := x_Size q + size\<rparr>)))"

definition ExternalCircleBufferQueue_Peek :: "nat \<Rightarrow> xstate \<Rightarrow> byte list option" where
  "ExternalCircleBufferQueue_Peek sz st =
     (let mem = fst st; q = snd st in
      if x_Size q < sz then None
      else
        let readIndex = x_Tail q;
            firstPart = min sz (x_Capacity q - readIndex);
            part1 = span_read mem (fst (x_Buffer q) + readIndex, firstPart)
        in Some (if sz > firstPart
                 then part1 @ span_read mem (fst (x_Buffer q), sz - firstPart) else part1))"

definition ExternalCircleBufferQueue_Pop :: "nat \<Rightarrow> xstate \<Rightarrow> byte list option \<times> xstate" where
  "ExternalCircleBufferQueue_Pop sz st =
     (let mem = fst st; q = snd st in
      if x_Size q < sz then (None, st)
      else
        let readIndex = x_Tail q;
            firstPart = min sz (x_Capacity q - readIndex);
            part1 = span_read mem (fst (x_Buffer q) + readIndex, firstPart)
        in (Some (if sz > firstPart
                  then part1 @ span_read mem (fst (x_Buffer q), sz - firstPart) else part1),
            (mem, q\<lparr>x_Tail := (x_Tail q + sz) mod x_Capacity q, x_Size := x_Size q - sz\<rparr>)))"

definition ExternalCircleBufferQueue_GetReadBuffers ::
  "ExternalCircleBufferQueue \<Rightarrow> nat \<times> span list" where
  "ExternalCircleBufferQueue_GetReadBuffers q =
     (if x_Size q = 0 then (0, [])
      else
        let firstPart = min (x_Size q) (x_Capacity q - x_Tail q) in
        (x_Size q,
         subspan (x_Buffer q) (x_Tail q) firstPart #
           (if x_Size q > firstPart then [subspan (x_Buffer q) 0 (x_Size q - firstPart)] else [])))"

definition ExternalCircleBufferQueue_AllocateWrite ::
  "nat \<Rightarrow> ExternalCircleBufferQueue \<Rightarrow> span list option \<times> ExternalCircleBufferQueue" where
  "ExternalCircleBufferQueue_AllocateWrite sz q =
     (if x_Capacity q - x_Size q < sz then (None, q)
      else
        let writeIndex = x_Head q;
            firstPart = min sz (x_Capacity q - writeIndex)
        in (Some (subspan (x_Buffer q) writeIndex firstPart #
                    (if sz > firstPart then [subspan (x_Buffer q) 0 (sz - firstPart)] else [])),
            q\<lparr>x_Head := (x_Head q + sz) mod x_Capacity q, x_Size := x_Size q + sz\<rparr>))"

definition ExternalCircleBufferQueue_Consume ::
  "nat \<Rightarrow> ExternalCircleBufferQueue \<Rightarrow> bool \<times> ExternalCircleBufferQueue" where
  "ExternalCircleBufferQueue_Consume sz q =
     (if x_Size q < sz then (False, q)
      else (True, q\<lparr>x_Tail := (x_Tail q + sz) mod x_Capacity q, x_Size := x_Size q - sz\<rparr>))"

definition ExternalCircleBufferQueue_CanReadSize :: "ExternalCircleBufferQueue \<Rightarrow> nat" where
  "ExternalCircleBufferQueue_CanReadSize q = x_Size q"

definition ExternalCircleBufferQueue_CanWriteSize :: "ExternalCircleBufferQueue \<Rightarrow> nat" where
  "ExternalCircleBufferQueue_CanWriteSize q = x_Capacity q - x_Size q"

definition ExternalCircleBufferQueue_Clear ::
  "ExternalCircleBufferQueue \<Rightarrow> ExternalCircleBufferQueue" where
  "ExternalCircleBufferQueue_Clear q = q\<lparr>x_Head := 0, x_Tail := 0, x_Size := 0\<rparr>"

definition ExternalCircleBufferQueue_GetWriteableBuffers ::
  "ExternalCircleBufferQueue \<Rightarrow> nat \<times> span list" where
  "ExternalCircleBufferQueue_GetWriteableBuffers q =
     (let freeSpace = x_Capacity q - x_Size q in
      if freeSpace = 0 then (0, [])
      else
        let writeIndex = x_Head q;
            firstPart = min freeSpace (x_Capacity q - writeIndex)
        in (freeSpace,
            subspan (x_Buffer q) writeIndex firstPart #
              (if freeSpace > firstPart
               then [subspan (x_Buffer q) 0 (freeSpace - firstPart)] else [])))"

definition ExternalCircleBufferQueue_CommitWrite ::
  "nat \<Rightarrow> ExternalCircleBufferQueue \<Rightarrow> bool \<times> ExternalCircleBufferQueue" where
  "ExternalCircleBufferQueue_CommitWrite sz q =
     (if x_Capacity q - x_Size q < sz then (False, q)
      else (True, q\<lparr>x_Head := (x_Head q + sz) mod x_Capacity q, x_Size := x_Size q + sz\<rparr>))"

definition ExternalCircleBufferQueue_vtable :: "xstate IBuffer" where
  "ExternalCircleBufferQueue_vtable =
     \<lparr>vWrite = ExternalCircleBufferQueue_Write,
      vPop = ExternalCircleBufferQueue_Pop,
      vPeek = ExternalCircleBufferQueue_Peek,
      vGetReadBuffers = ExternalCircleBufferQueue_GetReadBuffers \<circ> snd,
      vAllocateWrite = (\<lambda>n st. apsnd (Pair (fst st)) (ExternalCircleBufferQueue_AllocateWrite n (snd st))),
      vGetWriteableBuffers = ExternalCircleBufferQueue_GetWriteableBuffers \<circ> snd,
      vCommitWrite = (\<lambda>n st. apsnd (Pair (fst st)) (ExternalCircleBufferQueue_CommitWrite n (snd st))),
      vConsume = (\<lambda>n st. apsnd (Pair (fst st)) (ExternalCircleBufferQueue_Consume n (snd st))),
      vCanReadSize = ExternalCircleBufferQueue_CanReadSize \<circ> snd,
      vCanWriteSize = ExternalCircleBufferQueue_CanWriteSize \<circ> snd,
      vClear = apsnd ExternalCircleBufferQueue_Clear,
      vMem = fst,
      vSetMem = (\<lambda>mem st. (mem, snd st))\<rparr>"

section \<open>Refinement to the owning ring buffer\<close>

definition as_cbq :: "xstate \<Rightarrow> CircleBufferQueue" where
  "as_cbq st =
     \<lparr>m_Buffer = span_read (fst st) (x_Buffer (snd st)), m_Head = x_Head (snd st),
      m_Tail = x_Tail (snd st), m_Size = x_Size (snd st), m_Capacity = x_Capacity (snd st)\<rparr>"

text \<open>The window lies in the block and the ring inside it is well formed.\<close>

definition x_inv :: "xstate \<Rightarrow> bool" where
  "x_inv st \<longleftrightarrow> fst (x_Buffer (snd st)) + snd (x_Buffer (snd st)) \<le> length (fst st) \<and>
     snd (x_Buffer (snd st)) = x_Capacity (snd st) \<and> cbq_inv (as_cbq st)"

abbreviation x_contents :: "xstate \<Rightarrow> byte list" where
  "x_contents st \<equiv> cbq_contents (as_cbq st)"

abbreviation x_base :: "xstate \<Rightarrow> nat" where
  "x_base st \<equiv> fst (x_Buffer (snd st))"

abbreviation x_cap :: "xstate \<Rightarrow> nat" where
  "x_cap st \<equiv> x_Capacity (snd st)"

text \<open>Two states that differ only by a step inside the window of \<open>st\<close>.\<close>

definition x_frame :: "xstate \<Rightarrow> xstate \<Rightarrow> bool" where
  "x_frame st st' \<longleftrightarrow> x_Buffer (snd st') = x_Buffer (snd st) \<and> length (fst st') = length (fst st) \<and>
     (\<forall>b n. b + n \<le> length (fst st) \<longrightarrow> b + n \<le> x_base st \<or> x_base st + x_cap st \<le> b \<longrightarrow>
        span_read (fst st') (b, n) = span_read (fst st) (b, n))"

lemma x_inv_ctor:
  "0 < snd s \<Longrightarrow> fst s + snd s \<le> length mem \<Longrightarrow> x_inv (mem, ExternalCircleBufferQueue_ctor s)"
  by (simp add: x_inv_def as_cbq_def cbq_inv_def ExternalCircleBufferQueue_ctor_def length_span_read)

lemma as_cbq_Consume:
  "CircleBufferQueue_Consume n (as_cbq (mem, q)) =
    apsnd (\<lambda>q'. as_cbq (mem, q')) (ExternalCircleBufferQueue_Consume n q)"
  by (simp add: as_cbq_def CircleBufferQueue_Consume_def ExternalCircleBufferQueue_Consume_def)

lemma as_cbq_CommitWrite:
  "CircleBufferQueue_CommitWrite n (as_cbq (mem, q)) =
    apsnd (\<lambda>q'. as_cbq (mem, q')) (ExternalCircleBufferQueue_CommitWrite n q)"
  by (simp add: as_cbq_def CircleBufferQueue_CommitWrite_def ExternalCircleBufferQueue_CommitWrite_def)

lemma as_cbq_Clear:
  "CircleBufferQueue_Clear (as_cbq (mem, q)) = as_cbq (mem, ExternalCircleBufferQueue_Clear q)"
  by (simp add: as_cbq_def CircleBufferQueue_Clear_def ExternalCircleBufferQueue_Clear_def)

lemma as_cbq_AllocateWrite:
  "ExternalCircleBufferQueue_AllocateWrite n q =
    (if x_Capacity q - x_Size q < n then (None, q)
     else (Some (shift_spans (fst (x_Buffer q)) (ring_spans (x_Capacity q) (x_Head q) n)),
           q\<lparr>x_Head := (x_Head q + n) mod x_Capacity q, x_Size := x_Size q + n\<rparr>))"
  by (simp add: ExternalCircleBufferQueue_AllocateWrite_def ring_spans_def Let_def subspan_def)

lemma as_cbq_GetReadBuffers:
  "ExternalCircleBufferQueue_GetReadBuffers q =
    apsnd (shift_spans (fst (x_Buffer q))) (CircleBufferQueue_GetReadBuffers (as_cbq (mem, q)))"
  by (simp add: ExternalCircleBufferQueue_GetReadBuffers_def CircleBufferQueue_GetReadBuffers_def
      Let_def subspan_def as_cbq_def)

lemma as_cbq_GetWriteableBuffers:
  "ExternalCircleBufferQueue_GetWriteableBuffers q =
    apsnd (shift_spans (fst (x_Buffer q))) (CircleBufferQueue_GetWriteableBuffers (as_cbq (mem, q)))"
  by (simp add: ExternalCircleBufferQueue_GetWriteableBuffers_def
      CircleBufferQueue_GetWriteableBuffers_def Let_def subspan_def as_cbq_def)

text \<open>A scatter through spans of the window is a scatter in the ring.\<close>

lemma as_cbq_store:
  assumes "x_inv st" "spans_within (x_cap st) ss"
  shows "as_cbq (scatter (shift_spans (x_base st) ss) d (fst st), snd st) =
      (as_cbq st)\<lparr>m_Buffer := scatter ss d (m_Buffer (as_cbq st))\<rparr>"
    and "x_frame st (scatter (shift_spans (x_base st) ss) d (fst st), snd st)"
proof -
  obtain b n where bn: "x_Buffer (snd st) = (b, n)" by (cases "x_Buffer (snd st)")
  have len: "b + n \<le> length (fst st)" and n: "spans_within n ss" "x_cap st = n"
    using assms bn by (auto simp: x_inv_def)
  show "as_cbq (scatter (shift_spans (x_base st) ss) d (fst st), snd st) =
      (as_cbq st)\<lparr>m_Buffer := scatter ss d (m_Buffer (as_cbq st))\<rparr>"
    using scatter_shift(2)[OF len n(1), of d] by (simp add: as_cbq_def bn)
  show "x_frame st (scatter (shift_spans (x_base st) ss) d (fst st), snd st)"
    using scatter_shift(1)[OF len n(1)] scatter_frame[OF len n(1)] n(2)
    by (auto simp: x_frame_def bn)
qed

lemma x_Write_scatter:
  assumes "x_inv st" "x_Size (snd st) + length d \<le> x_cap st"
  shows "ExternalCircleBufferQueue_Write d st =
    (True, (scatter (shift_spans (x_base st) (ring_spans (x_cap st) (x_Head (snd st)) (length d))) d (fst st),
       (snd st)\<lparr>x_Head := (x_Head (snd st) + length d) mod x_cap st,
                x_Size := x_Size (snd st) + length d\<rparr>))"
proof -
  have "\<not> x_cap st - x_Size (snd st) < length d"
    using assms(2) by simp
  then show ?thesis
    by (auto simp: ExternalCircleBufferQueue_Write_def Let_def ring_spans_def min_def)
qed

lemma as_cbq_Write:
  assumes "x_inv st"
  shows "CircleBufferQueue_Write d (as_cbq st) = apsnd as_cbq (ExternalCircleBufferQueue_Write d st)"
    and "x_frame st (snd (ExternalCircleBufferQueue_Write d st))"
proof -
  have inv: "cbq_inv (as_cbq st)" and cap: "m_Capacity (as_cbq st) = x_cap st"
    "m_Size (as_cbq st) = x_Size (snd st)" "m_Head (as_cbq st) = x_Head (snd st)"
    using assms by (auto simp: x_inv_def as_cbq_def)
  have "x_Size (snd st) \<le> x_cap st"
    using inv by (simp add: cbq_inv_def as_cbq_def)
  then consider (fits) "x_Size (snd st) + length d \<le> x_cap st"
    | (full) "x_cap st - x_Size (snd st) < length d"
    by linarith
  then have "CircleBufferQueue_Write d (as_cbq st) = apsnd as_cbq (ExternalCircleBufferQueue_Write d st) \<and>
    x_frame st (snd (ExternalCircleBufferQueue_Write d st))"
  proof cases
    case fits
    let ?ss = "ring_spans (x_cap st) (x_Head (snd st)) (length d)"
    have w: "spans_within (x_cap st) ?ss"
      using cbq_head_less[OF inv] fits cap by simp
    have "scatter ?ss d (m_Buffer (as_cbq st)) =
      ring_write (m_Buffer (as_cbq st)) (x_Head (snd st)) d"
      using cbq_scatter[OF inv, of d "length d"] fits cap by simp
    then have "as_cbq (scatter (shift_spans (x_base st) ?ss) d (fst st), snd st) =
        (as_cbq st)\<lparr>m_Buffer := ring_write (m_Buffer (as_cbq st)) (x_Head (snd st)) d\<rparr>"
      using as_cbq_store(1)[OF assms w, of d] by simp
    then show ?thesis
      using cbq_Write_ring[OF inv] x_Write_scatter[OF assms fits] fits cap
        as_cbq_store(2)[OF assms w, of d]
      by (simp add: as_cbq_def x_frame_def)
  next
    case full
    then show ?thesis
      by (simp add: ExternalCircleBufferQueue_Write_def CircleBufferQueue_Write_def as_cbq_def
          x_frame_def Let_def)
  qed
  then show "CircleBufferQueue_Write d (as_cbq st) = apsnd as_cbq (ExternalCircleBufferQueue_Write d st)"
    "x_frame st (snd (ExternalCircleBufferQueue_Write d st))" by auto
qed

lemma x_copy_out:
  assumes "x_inv st" "n \<le> x_cap st"
  shows "CircleBufferQueue_copy_out n (as_cbq st) =
    gather (fst st) (shift_spans (x_base st) (ring_spans (x_cap st) (x_Tail (snd st)) n))"
proof -
  have "gather (fst st) (shift_spans (x_base st) (ring_spans (x_cap st) (x_Tail (snd st)) n)) =
    gather (span_read (fst st) (x_base st, x_cap st)) (ring_spans (x_cap st) (x_Tail (snd st)) n)"
    using assms by (intro gather_shift) (auto simp: x_inv_def cbq_inv_def as_cbq_def)
  moreover have "x_Buffer (snd st) = (x_base st, x_cap st)"
    using assms(1) by (auto simp: x_inv_def prod_eq_iff)
  ultimately show ?thesis
    by (simp add: CircleBufferQueue_copy_out_def as_cbq_def Let_def ring_spans_def)
qed

lemma as_cbq_Peek:
  assumes "x_inv st"
  shows "ExternalCircleBufferQueue_Peek n st = CircleBufferQueue_Peek n (as_cbq st)"
proof -
  have "x_Size (snd st) \<le> x_cap st"
    using assms by (auto simp: x_inv_def cbq_inv_def as_cbq_def)
  then show ?thesis
    using x_copy_out[OF assms, of n]
    by (auto simp: ExternalCircleBufferQueue_Peek_def CircleBufferQueue_Peek_def Let_def
        ring_spans_def as_cbq_def)
qed

lemma as_cbq_Pop:
  assumes "x_inv st"
  shows "CircleBufferQueue_Pop n (as_cbq st) = apsnd as_cbq (ExternalCircleBufferQueue_Pop n st)"
    and "fst (snd (ExternalCircleBufferQueue_Pop n st)) = fst st"
  using as_cbq_Peek[OF assms, of n]
  by (auto simp: ExternalCircleBufferQueue_Peek_def CircleBufferQueue_Peek_def
      ExternalCircleBufferQueue_Pop_def CircleBufferQueue_Pop_def as_cbq_def Let_def
      split: if_splits)

lemma x_inv_step:
  assumes "x_inv st" "cbq_inv (as_cbq st')" "m_Capacity (as_cbq st') = m_Capacity (as_cbq st)"
    "x_Buffer (snd st') = x_Buffer (snd st)" "length (fst st') = length (fst st)"
  shows "x_inv st'" "x_cap st' = x_cap st"
  using assms by (auto simp: x_inv_def as_cbq_def)

lemma x_frame_same_mem [simp]:
  "x_Buffer q' = x_Buffer (snd st) \<Longrightarrow> x_frame st (fst st, q')"
  by (simp add: x_frame_def)

lemma x_frameD:
  assumes "x_frame st st'"
  shows "x_Buffer (snd st') = x_Buffer (snd st)" "length (fst st') = length (fst st)"
  using assms by (auto simp: x_frame_def)

lemma m_Capacity_as_cbq [simp]: "m_Capacity (as_cbq st) = x_cap st"
  by (simp add: as_cbq_def)

lemma m_Size_as_cbq [simp]: "m_Size (as_cbq st) = x_Size (snd st)"
  by (simp add: as_cbq_def)

lemma m_Tail_as_cbq [simp]: "m_Tail (as_cbq st) = x_Tail (snd st)"
  by (simp add: as_cbq_def)

lemma as_cbq_update [simp]:
  "as_cbq (mem, q\<lparr>x_Tail := t, x_Size := s\<rparr>) = (as_cbq (mem, q))\<lparr>m_Tail := t, m_Size := s\<rparr>"
  "as_cbq (mem, q\<lparr>x_Head := h, x_Size := s\<rparr>) = (as_cbq (mem, q))\<lparr>m_Head := h, m_Size := s\<rparr>"
  by (simp_all add: as_cbq_def)

lemma x_step:
  assumes "x_inv st" "cbq_inv (as_cbq st')" "x_cap st' = x_cap st" "x_frame st st'"
  shows "x_inv st'"
  using assms by (auto simp: x_inv_def x_frame_def)

lemma x_inv_cbq: "x_inv st \<Longrightarrow> cbq_inv (as_cbq st)"
  by (simp add: x_inv_def)

lemma x_Write_step:
  assumes "x_inv st" "length (x_contents st) + length d \<le> x_cap st"
  shows "\<exists>st'. ExternalCircleBufferQueue_Write d st = (True, st') \<and> x_inv st' \<and>
    x_contents st' = x_contents st @ d \<and> x_cap st' = x_cap st"
proof -
  obtain c where c: "CircleBufferQueue_Write d (as_cbq st) = (True, c)" "cbq_inv c"
    "cbq_contents c = x_contents st @ d" "m_Capacity c = x_cap st"
    using cbq.write_ok[OF x_inv_cbq[OF assms(1)], of d] assms(2)
    by (auto simp: CircleBufferQueue_vtable_def)
  then obtain st' where "ExternalCircleBufferQueue_Write d st = (True, st')" "as_cbq st' = c"
    using as_cbq_Write(1)[OF assms(1), of d]
    by (cases "ExternalCircleBufferQueue_Write d st") auto
  moreover from this have "x_inv st'"
    using c as_cbq_Write(2)[OF assms(1), of d] m_Capacity_as_cbq[of st']
    by (intro x_step[OF assms(1)]) auto
  ultimately show ?thesis
    using c m_Capacity_as_cbq[of st'] by auto
qed

lemma x_Pop_step:
  assumes "x_inv st" "n \<le> length (x_contents st)"
  shows "\<exists>st'. ExternalCircleBufferQueue_Pop n st = (Some (take n (x_contents st)), st') \<and>
    x_inv st' \<and> x_contents st' = drop n (x_contents st) \<and> x_cap st' = x_cap st"
proof -
  obtain c where c: "CircleBufferQueue_Pop n (as_cbq st) = (Some (take n (x_contents st)), c)"
    "cbq_inv c" "cbq_contents c = drop n (x_contents st)" "m_Capacity c = x_cap st"
    using cbq.pop_ok[OF x_inv_cbq[OF assms(1)], of n] assms(2)
    by (auto simp: CircleBufferQueue_vtable_def)
  then obtain st' where
    st': "ExternalCircleBufferQueue_Pop n st = (Some (take n (x_contents st)), st')" "as_cbq st' = c"
    using as_cbq_Pop(1)[OF assms(1), of n]
    by (cases "ExternalCircleBufferQueue_Pop n st") auto
  then have "x_frame st st'"
    by (auto simp: ExternalCircleBufferQueue_Pop_def x_frame_def Let_def split: if_splits)
  then have "x_inv st'"
    using c st' m_Capacity_as_cbq[of st'] by (intro x_step[OF assms(1)]) auto
  then show ?thesis
    using c st' m_Capacity_as_cbq[of st'] by auto
qed

lemma x_Consume_step:
  assumes "x_inv st" "n \<le> length (x_contents st)"
  shows "\<exists>q'. ExternalCircleBufferQueue_Consume n (snd st) = (True, q') \<and> x_inv (fst st, q') \<and>
    x_contents (fst st, q') = drop n (x_contents st) \<and> x_Capacity q' = x_cap st"
  using cbq_drop[OF x_inv_cbq[OF assms(1)], of n] assms
  by (cases st) (auto simp: ExternalCircleBufferQueue_Consume_def x_frame_def intro!: x_step[OF assms(1)])

lemma x_Alloc_step:
  assumes "x_inv st" "length (x_contents st) + n \<le> x_cap st"
  shows "\<exists>ss q'. ExternalCircleBufferQueue_AllocateWrite n (snd st) = (Some ss, q') \<and>
    x_inv (fst st, q') \<and> x_Capacity q' = x_cap st \<and> spans_size ss = n \<and>
    spans_within (length (fst st)) ss \<and>
    length (x_contents (fst st, q')) = length (x_contents st) + n \<and>
    (\<forall>d. length d = n \<longrightarrow> x_inv (scatter ss d (fst st), q') \<and>
      x_contents (scatter ss d (fst st), q') = x_contents st @ d)"
proof -
  obtain mem q where st: "st = (mem, q)" by (cases st)
  let ?q = "q\<lparr>x_Head := (x_Head q + n) mod x_Capacity q, x_Size := x_Size q + n\<rparr>"
  let ?ss = "ring_spans (x_Capacity q) (x_Head q) n"
  have inv: "cbq_inv (as_cbq (mem, q))" using assms(1) by (simp add: st x_inv_def)
  have inv': "x_inv (mem, ?q)"
    using cbq_reserve[OF inv, of n] assms
    by (intro x_step[OF assms(1)]) (auto simp: st x_frame_def as_cbq_def)
  have "spans_within (x_Capacity q) ?ss"
    using cbq_head_less[OF inv] assms(2) by (simp add: st as_cbq_def)
  note within = this
  from within have store: "as_cbq (scatter (shift_spans (fst (x_Buffer q)) ?ss) d mem, ?q) =
      (as_cbq (mem, ?q))\<lparr>m_Buffer := scatter ?ss d (m_Buffer (as_cbq (mem, ?q)))\<rparr>"
    "x_frame (mem, ?q) (scatter (shift_spans (fst (x_Buffer q)) ?ss) d mem, ?q)" for d
    using as_cbq_store[OF inv', of ?ss d] by simp_all
  have "x_inv (scatter (shift_spans (fst (x_Buffer q)) ?ss) d mem, ?q) \<and>
      x_contents (scatter (shift_spans (fst (x_Buffer q)) ?ss) d mem, ?q) = x_contents st @ d"
    if "length d = n" for d
    using cbq_alloc_store[OF inv, of d] assms(2) that store[of d]
    by (intro conjI x_step[OF inv']) (auto simp: st as_cbq_def)
  moreover have "spans_within (length mem) (shift_spans (fst (x_Buffer q)) ?ss)"
    using within assms(1) by (intro spans_within_shift) (auto simp: st x_inv_def)
  ultimately show ?thesis
    using assms(2) inv' by (simp add: st as_cbq_AllocateWrite not_less as_cbq_def)
qed

lemma x_Commit_step:
  assumes "x_inv st" "ExternalCircleBufferQueue_GetWriteableBuffers (snd st) = (free, ss)"
    "length d \<le> free"
  shows "x_inv (scatter ss d (fst st), snd st)"
    "x_contents (scatter ss d (fst st), snd st) = x_contents st"
    "\<exists>q'. ExternalCircleBufferQueue_CommitWrite (length d) (snd st) = (True, q') \<and>
      x_inv (scatter ss d (fst st), q') \<and> x_Capacity q' = x_cap st \<and>
      x_contents (scatter ss d (fst st), q') = x_contents st @ d"
proof -
  obtain mem q where st: "st = (mem, q)" by (cases st)
  have inv: "cbq_inv (as_cbq st)" by (rule x_inv_cbq[OF assms(1)])
  obtain ss0 where ss0: "CircleBufferQueue_GetWriteableBuffers (as_cbq st) = (free, ss0)"
    "ss = shift_spans (x_base st) ss0"
    using assms(2) as_cbq_GetWriteableBuffers[of q mem]
    by (cases "CircleBufferQueue_GetWriteableBuffers (as_cbq st)") (auto simp: st)
  have "spans_within (x_cap st) ss0"
    using ss0(1) cbq_head_less[OF inv] by (auto simp: cbq_GetWriteable_ring split: if_splits)
  note store = as_cbq_store[OF assms(1) this, of d, folded ss0(2)]
  note commit = cbq_store_commit[OF inv ss0(1) assms(3)]
  show i: "x_inv (scatter ss d (fst st), snd st)"
    using commit(1) store by (intro x_step[OF assms(1)]) auto
  show "x_contents (scatter ss d (fst st), snd st) = x_contents st"
    using commit(2) store by simp
  obtain q2 where q2: "CircleBufferQueue_CommitWrite (length d) (as_cbq (scatter ss d mem, q)) = (True, q2)"
    "cbq_inv q2" "cbq_contents q2 = x_contents st @ d" "m_Capacity q2 = x_cap st"
    using commit(4) store by (auto simp: st)
  then obtain q' where q': "ExternalCircleBufferQueue_CommitWrite (length d) q = (True, q')"
    "as_cbq (scatter ss d mem, q') = q2"
    using as_cbq_CommitWrite[of "length d" "scatter ss d mem" q]
    by (cases "ExternalCircleBufferQueue_CommitWrite (length d) q") auto
  have "x_Buffer q' = x_Buffer q"
    using q'(1) by (auto simp: ExternalCircleBufferQueue_CommitWrite_def split: if_splits)
  then have "x_inv (scatter ss d mem, q')"
    using q2 q' m_Capacity_as_cbq[of "(scatter ss d mem, q')"] i
    by (intro x_step[OF i]) (auto simp: st x_frame_def)
  then show "\<exists>q'. ExternalCircleBufferQueue_CommitWrite (length d) (snd st) = (True, q') \<and>
      x_inv (scatter ss d (fst st), q') \<and> x_Capacity q' = x_cap st \<and>
      x_contents (scatter ss d (fst st), q') = x_contents st @ d"
    using q2 q' m_Capacity_as_cbq[of "(scatter ss d mem, q')"] by (auto simp: st)
qed

lemma x_Commit_inv:
  assumes "x_inv st"
  shows "x_inv (fst st, snd (ExternalCircleBufferQueue_CommitWrite n (snd st))) \<and>
    x_Capacity (snd (ExternalCircleBufferQueue_CommitWrite n (snd st))) = x_cap st"
proof (cases "x_Size (snd st) + n \<le> x_cap st")
  case True
  have "m_Head (as_cbq st) = x_Head (snd st)" by (simp add: as_cbq_def)
  then show ?thesis
    using True assms cbq_reserve[OF x_inv_cbq[OF assms], of n]
    by (cases st) (auto simp: ExternalCircleBufferQueue_CommitWrite_def x_frame_def
        intro!: x_step[OF assms])
next
  case False
  then show ?thesis
    using assms by (auto simp: ExternalCircleBufferQueue_CommitWrite_def x_inv_def cbq_inv_def)
qed

lemma x_Load:
  assumes "x_inv st"
  shows "\<exists>ss. ExternalCircleBufferQueue_GetReadBuffers (snd st) = (length (x_contents st), ss) \<and>
    spans_size ss = length (x_contents st) \<and> gather (fst st) ss = x_contents st"
proof (cases "x_Size (snd st) = 0")
  case True
  then show ?thesis
    by (simp add: ExternalCircleBufferQueue_GetReadBuffers_def cbq_contents_def)
next
  case False
  have "x_Size (snd st) \<le> x_cap st"
    using x_inv_cbq[OF assms] by (simp add: cbq_inv_def)
  then have "gather (fst st) (shift_spans (x_base st) (ring_spans (x_cap st) (x_Tail (snd st)) (x_Size (snd st))))
    = x_contents st"
    using x_copy_out[OF assms, of "x_Size (snd st)"] cbq_copy_out_ring[OF x_inv_cbq[OF assms], of "x_Size (snd st)"]
    by simp
  then show ?thesis
    using False as_cbq_GetReadBuffers[of "snd st" "fst st"]
    by (simp add: cbq_GetRead_ring)
qed

text \<open>The buffer over registered memory keeps the same contract.\<close>

interpretation xbq: byte_queue ExternalCircleBufferQueue_vtable x_contents x_cap x_inv
proof (unfold_locales, goal_cases)
  case (1 b) then show ?case using cbq.bounded[OF x_inv_cbq, of b] by simp
next
  case (2 b d) then show ?case
    using x_Write_step[of b d] by (simp add: ExternalCircleBufferQueue_vtable_def)
next
  case (3 b d) then show ?case
    using cbq.bounded[OF x_inv_cbq, of b]
    by (auto simp: ExternalCircleBufferQueue_vtable_def ExternalCircleBufferQueue_Write_def Let_def)
next
  case (4 b n) then show ?case
    using x_Pop_step[of b n] by (simp add: ExternalCircleBufferQueue_vtable_def)
next
  case (5 b n) then show ?case
    by (simp add: ExternalCircleBufferQueue_vtable_def ExternalCircleBufferQueue_Pop_def Let_def)
next
  case (6 b n) then show ?case
    using cbq.peek[OF x_inv_cbq, of b n]
    by (simp add: ExternalCircleBufferQueue_vtable_def as_cbq_Peek CircleBufferQueue_vtable_def)
next
  case (7 b n) then show ?case
    using x_Consume_step[of b n]
    by (auto simp: ExternalCircleBufferQueue_vtable_def)
next
  case (8 b n) then show ?case
    by (simp add: ExternalCircleBufferQueue_vtable_def ExternalCircleBufferQueue_Consume_def)
next
  case (9 b) then show ?case
    by (simp add: ExternalCircleBufferQueue_vtable_def ExternalCircleBufferQueue_CanReadSize_def)
next
  case (10 b) then show ?case
    by (simp add: ExternalCircleBufferQueue_vtable_def ExternalCircleBufferQueue_CanWriteSize_def)
next
  case (11 b) then show ?case
    by (cases b) (auto simp: ExternalCircleBufferQueue_vtable_def ExternalCircleBufferQueue_Clear_def
        x_inv_def cbq_inv_def as_cbq_def cbq_contents_def)
next
  case (12 b) then show ?case
    using x_Load[of b] by (auto simp: buf_store_def buf_load_def ExternalCircleBufferQueue_vtable_def)
next
  case (13 b n) then show ?case
    using x_Alloc_step[of b n] by (fastforce simp: buf_store_def buf_load_def ExternalCircleBufferQueue_vtable_def)
next
  case (14 b n) then show ?case
    using cbq.bounded[OF x_inv_cbq, of b]
    by (auto simp: ExternalCircleBufferQueue_vtable_def as_cbq_AllocateWrite)
next
  case (15 b) then show ?case
    by (simp add: ExternalCircleBufferQueue_vtable_def as_cbq_GetWriteableBuffers[of "snd b" "fst b"]
        cbq_GetWriteable_ring)
next
  case (16 b free ss d) then show ?case
    using x_Commit_step[of b free ss d]
    by (fastforce simp: buf_store_def buf_load_def ExternalCircleBufferQueue_vtable_def)
next
  case (17 b n) then show ?case
    using x_Commit_inv[of b n]
    by (simp add: ExternalCircleBufferQueue_vtable_def)
next
  case (18 b n) then show ?case
    using cbq.bounded[OF x_inv_cbq, of b]
    by (auto simp: ExternalCircleBufferQueue_vtable_def ExternalCircleBufferQueue_CommitWrite_def)
qed

section \<open>Isolation of buffers that share a block\<close>

lemma x_frame_refl [simp]: "x_frame st st"
  by (simp add: x_frame_def)

lemma x_frame_trans:
  "x_frame s1 s2 \<Longrightarrow> x_cap s2 = x_cap s1 \<Longrightarrow> x_frame s2 s3 \<Longrightarrow> x_frame s1 s3"
  by (auto simp: x_frame_def)

lemma x_frame_alloc_fill:
  assumes "x_inv st"
  shows "x_frame st (snd (q_step ExternalCircleBufferQueue_vtable (QAllocFill d) st))"
proof (cases "length (x_contents st) + length d \<le> x_cap st")
  case True
  have "spans_within (x_cap st) (ring_spans (x_cap st) (x_Head (snd st)) (length d))"
    using cbq_head_less[OF x_inv_cbq[OF assms]] True by (simp add: as_cbq_def)
  then show ?thesis
    using True as_cbq_store(2)[OF assms, of _ d]
    by (auto simp: buf_store_def ExternalCircleBufferQueue_vtable_def as_cbq_AllocateWrite x_frame_def
        split: option.splits)
next
  case False
  then show ?thesis
    using xbq.alloc_full[OF assms, of "length d"] by simp
qed

lemma x_frame_recv:
  assumes "x_inv st"
  shows "x_frame st (snd (q_step ExternalCircleBufferQueue_vtable (QRecv d) st))"
proof -
  obtain free ss0 where ss0: "CircleBufferQueue_GetWriteableBuffers (as_cbq st) = (free, ss0)"
    by (cases "CircleBufferQueue_GetWriteableBuffers (as_cbq st)")
  have "spans_within (x_cap st) ss0"
    using ss0 cbq_head_less[OF x_inv_cbq[OF assms]]
    by (auto simp: cbq_GetWriteable_ring split: if_splits)
  from as_cbq_store(2)[OF assms this, of "take free d"]
  show ?thesis
    using as_cbq_GetWriteableBuffers[of "snd st" "fst st"] ss0
    by (auto simp: buf_store_def ExternalCircleBufferQueue_vtable_def x_frame_def
        ExternalCircleBufferQueue_CommitWrite_def Let_def)
qed

lemma x_frame_step:
  assumes "x_inv st"
  shows "x_frame st (snd (q_step ExternalCircleBufferQueue_vtable c st))"
proof (cases c)
  case (QWrite d)
  then show ?thesis
    using as_cbq_Write(2)[OF assms] by (simp add: ExternalCircleBufferQueue_vtable_def)
next
  case (QAllocFill d)
  then show ?thesis using x_frame_alloc_fill[OF assms] by simp
next
  case (QRecv d)
  then show ?thesis using x_frame_recv[OF assms] by simp
qed (auto simp: ExternalCircleBufferQueue_vtable_def ExternalCircleBufferQueue_Pop_def
    ExternalCircleBufferQueue_Consume_def ExternalCircleBufferQueue_Clear_def x_frame_def Let_def)

lemma x_frame_run:
  assumes "x_inv st"
  shows "x_frame st (snd (q_run ExternalCircleBufferQueue_vtable cs st))"
  using assms
proof (induction cs arbitrary: st)
  case (Cons c cs)
  let ?s = "snd (q_step ExternalCircleBufferQueue_vtable c st)"
  have "x_inv ?s" "x_cap ?s = x_cap st"
    using xbq.step_refines(3,4)[OF Cons.prems, of c] by simp_all
  then show ?case
    using Cons.IH[of ?s] x_frame_step[OF Cons.prems, of c]
    by (auto simp: split_beta intro: x_frame_trans)
qed simp

section \<open>Properties\<close>

text \<open>C30: a buffer over a window of a shared memory block behaves as the bounded FIFO list
  for every sequence of calls, and no call changes a byte outside its window: buffers of
  other sessions in the same registered pool are unaffected.\<close>

theorem external_buffer_isolated_queue:
  assumes "0 < n" "b + n \<le> length mem"
  defines "st \<equiv> (mem, ExternalCircleBufferQueue_ctor (b, n))"
  shows "fst (q_run ExternalCircleBufferQueue_vtable cs st) = fst (spec_run n cs []) \<and>
    (\<forall>b' n'. b' + n' \<le> length mem \<and> (b' + n' \<le> b \<or> b + n \<le> b') \<longrightarrow>
       span_read (fst (snd (q_run ExternalCircleBufferQueue_vtable cs st))) (b', n') =
       span_read mem (b', n'))"
proof -
  have inv: "x_inv st"
    using x_inv_ctor[of "(b, n)" mem] assms by simp
  have init: "x_cap st = n" "x_contents st = []" "x_base st = b" "fst st = mem"
    by (simp_all add: st_def ExternalCircleBufferQueue_ctor_def as_cbq_def cbq_contents_def)
  show ?thesis
    using xbq.run_refines(1)[OF inv, of cs] x_frame_run[OF inv, of cs]
    by (auto simp: init x_frame_def)
qed

theorem external_buffer_isolated_queue_witness:
  "span_read (fst (snd (q_run ExternalCircleBufferQueue_vtable [QWrite [1, 2], QPop 1, QWrite [3]]
     ([9, 0, 0, 8], ExternalCircleBufferQueue_ctor (1, 2))))) (3, 1) = [8]"
  using external_buffer_isolated_queue[of 2 1 "[9, 0, 0, 8]" "[QWrite [1, 2], QPop 1, QWrite [3]]"]
  by (simp add: span_read_def)

end
