(* ===== verification/Packet_Framer.thy ===== *)
theory Packet_Framer
  imports Packet_Model External_Buffer
begin

text \<open>
  \<open>PacketFramer\<close> (\<open>LibNetworks/PacketFramer.ixx\<close>): cuts packets out of the byte stream of a
  receive buffer, through the \<open>IBuffer\<close> interface. The specification \<open>deframe\<close> works on the
  list of received bytes; inside \<open>byte_queue\<close> the framer is shown to implement it for every
  buffer that keeps the contract, and what a stream of chunks yields is shown to
  depend on its bytes only, not on where the chunks were cut.
\<close>

datatype PacketFrameResult = FrameOk | NeedMore | Invalid

record PacketFrame =
  frame_Result :: PacketFrameResult
  frame_PacketOpt :: "Packet option"

definition TryFrameFromBuffer :: "'b IBuffer \<Rightarrow> 'b \<Rightarrow> PacketFrame \<times> 'b" where
  "TryFrameFromBuffer ops buf =
     (let canRead = vCanReadSize ops buf in
      if canRead < GetHeaderSize then (\<lparr>frame_Result = NeedMore, frame_PacketOpt = None\<rparr>, buf)
      else
        case vPeek ops GetHeaderSize buf of
          None \<Rightarrow> (\<lparr>frame_Result = Invalid, frame_PacketOpt = None\<rparr>, buf)
        | Some header \<Rightarrow>
            let packetSize = unat (GetHeaderFromBuffer header);
                minPacketSize = GetHeaderSize + GetPacketIdSize
            in if packetSize < minPacketSize then
                 (\<lparr>frame_Result = Invalid, frame_PacketOpt = None\<rparr>, buf)
               else if packetSize > 0xFFFF then
                 (\<lparr>frame_Result = Invalid, frame_PacketOpt = None\<rparr>, buf)
               else if canRead < packetSize then
                 (\<lparr>frame_Result = NeedMore, frame_PacketOpt = None\<rparr>, buf)
               else
                 case vPop ops packetSize buf of
                   (None, buf') \<Rightarrow> (\<lparr>frame_Result = Invalid, frame_PacketOpt = None\<rparr>, buf')
                 | (Some buffers, buf') \<Rightarrow>
                     (\<lparr>frame_Result = FrameOk, frame_PacketOpt = Some (Packet_of_buffers buffers)\<rparr>, buf'))"

section \<open>Specification on byte streams\<close>

datatype deframed = Stuck | Corrupt | Framed Packet "byte list"

definition deframe :: "byte list \<Rightarrow> deframed" where
  "deframe xs =
     (if length xs < 2 then Stuck
      else let n = unat (GetHeaderFromBuffer xs) in
        if n < 4 then Corrupt
        else if length xs < n then Stuck
        else Framed (Packet_of_buffers (take n xs)) (drop n xs))"

lemma deframe_Framed_length:
  "deframe xs = Framed p ys \<Longrightarrow> length ys + 4 \<le> length xs"
  by (auto simp: deframe_def Let_def split: if_splits)

text \<open>All packets at the front of a stream, what is left, and whether the stream is
  corrupt there.\<close>

function deframe_all :: "byte list \<Rightarrow> Packet list \<times> byte list \<times> bool" where
  "deframe_all xs =
     (case deframe xs of
        Stuck \<Rightarrow> ([], xs, False)
      | Corrupt \<Rightarrow> ([], xs, True)
      | Framed p ys \<Rightarrow> (let (ps, rest, bad) = deframe_all ys in (p # ps, rest, bad)))"
  by auto
termination
  by (relation "measure length") (auto dest: deframe_Framed_length)

declare deframe_all.simps [simp del]

text \<open>What was framed stays framed when more bytes arrive.\<close>

lemma GetHeader_append: "2 \<le> length xs \<Longrightarrow> GetHeaderFromBuffer (xs @ ys) = GetHeaderFromBuffer xs"
  by (auto simp: GetHeaderFromBuffer_def nth_append)

lemma deframe_append:
  "deframe xs = Framed p r \<Longrightarrow> deframe (xs @ ys) = Framed p (r @ ys)"
  "deframe xs = Corrupt \<Longrightarrow> deframe (xs @ ys) = Corrupt"
  by (auto simp: deframe_def Let_def GetHeader_append split: if_splits)

lemma deframe_all_append:
  "deframe_all (xs @ ys) =
     (let (ps, rest, bad) = deframe_all xs in
      if bad then (ps, rest @ ys, True)
      else let (ps', rest', bad') = deframe_all (rest @ ys) in (ps @ ps', rest', bad'))"
proof (induction xs rule: deframe_all.induct)
  case (1 xs)
  show ?case
  proof (cases "deframe xs")
    case Stuck
    then show ?thesis by (simp add: deframe_all.simps[of xs] split: prod.splits)
  next
    case Corrupt
    then show ?thesis
      by (simp add: deframe_all.simps[of xs] deframe_all.simps[of "xs @ ys"] deframe_append)
  next
    case (Framed p r)
    then show ?thesis
      using 1[OF Framed]
      by (simp add: deframe_all.simps[of xs] deframe_all.simps[of "xs @ ys"] deframe_append
          split: prod.splits)
  qed
qed

lemma deframe_encode:
  "fits_frame p \<Longrightarrow> deframe (encode i p @ ys) = Framed (Packet_of_content i p) ys"
  using unat_header_encode[of p i ys]
  by (simp add: deframe_def Let_def decode_encode)

text \<open>A stream of encoded packets.\<close>

definition encode_all :: "(u16 \<times> byte list) list \<Rightarrow> byte list" where
  "encode_all ms = concat (map (\<lambda>m. encode (fst m) (snd m)) ms)"

lemma deframe_all_encode_all:
  assumes "list_all (fits_frame \<circ> snd) ms"
  shows "deframe_all (encode_all ms) = (map (\<lambda>m. Packet_of_content (fst m) (snd m)) ms, [], False)"
  using assms
proof (induction ms)
  case Nil
  then show ?case by (simp add: encode_all_def deframe_all.simps deframe_def)
next
  case (Cons m ms)
  then show ?case
    by (simp add: encode_all_def deframe_all.simps[of "encode (fst m) (snd m) @ _"] deframe_encode)
qed

text \<open>A receiver that is handed the stream in chunks, keeping the unframed rest.\<close>

fun deframe_chunks :: "byte list \<Rightarrow> byte list list \<Rightarrow> Packet list \<times> byte list \<times> bool" where
  "deframe_chunks rest [] = ([], rest, False)"
| "deframe_chunks rest (c # cs) =
     (let (ps, rest', bad) = deframe_all (rest @ c) in
      if bad then (ps, rest' @ concat cs, True)
      else let (ps', r, b) = deframe_chunks rest' cs in (ps @ ps', r, b))"

lemma deframe_chunks_concat:
  assumes "deframe rest = Stuck"
  shows "deframe_chunks rest cs = deframe_all (rest @ concat cs)"
  using assms
proof (induction cs arbitrary: rest)
  case Nil
  then show ?case by (simp add: deframe_all.simps)
next
  case (Cons c cs)
  obtain ps rest' bad where c: "deframe_all (rest @ c) = (ps, rest', bad)"
    by (cases "deframe_all (rest @ c)")
  have "\<not> bad \<Longrightarrow> deframe rest' = Stuck"
    using c
  proof (induction "rest @ c" arbitrary: rest c ps rest' bad rule: deframe_all.induct)
    case 1
    then show ?case
      by (auto simp: deframe_all.simps[of "rest @ c"] split: deframed.splits prod.splits)
        (metis append_Nil)
  qed
  then show ?case
    using Cons.IH[of rest'] c deframe_all_append[of "rest @ c" "concat cs"]
    by auto
qed

section \<open>The framer implements the specification\<close>

context byte_queue
begin

lemma framer_short:
  assumes "inv b" "deframe (contents b) = Stuck"
  shows "TryFrameFromBuffer ops b = (\<lparr>frame_Result = NeedMore, frame_PacketOpt = None\<rparr>, b)"
  using assms unat_u16_less[of "GetHeaderFromBuffer (contents b)"]
  by (auto simp: TryFrameFromBuffer_def deframe_def can_read peek header_take2 Let_def
      split: if_splits)

lemma framer_corrupt:
  assumes "inv b" "deframe (contents b) = Corrupt"
  shows "TryFrameFromBuffer ops b = (\<lparr>frame_Result = Invalid, frame_PacketOpt = None\<rparr>, b)"
  using assms
  by (auto simp: TryFrameFromBuffer_def deframe_def can_read peek header_take2 Let_def
      split: if_splits)

lemma framer_ok:
  assumes "inv b" "deframe (contents b) = Framed p r"
  shows "\<exists>b'. TryFrameFromBuffer ops b = (\<lparr>frame_Result = FrameOk, frame_PacketOpt = Some p\<rparr>, b') \<and>
    inv b' \<and> contents b' = r \<and> cap b' = cap b"
proof -
  let ?n = "unat (GetHeaderFromBuffer (contents b))"
  have n: "2 \<le> length (contents b)" "4 \<le> ?n" "?n \<le> length (contents b)"
    "p = Packet_of_buffers (take ?n (contents b))" "r = drop ?n (contents b)"
    using assms(2) by (auto simp: deframe_def Let_def split: if_splits)
  have "?n < 65536"
    using unat_u16_less[of "GetHeaderFromBuffer (contents b)"] by simp
  moreover obtain b' where "vPop ops ?n b = (Some (take ?n (contents b)), b')" "inv b'"
    "contents b' = r" "cap b' = cap b"
    using pop_ok[OF assms(1) n(3)] n(5) by auto
  ultimately show ?thesis
    using n assms(1) by (simp add: TryFrameFromBuffer_def can_read peek header_take2 Let_def)
qed

lemmas framer_cases = framer_short framer_corrupt framer_ok

text \<open>An unsuccessful attempt leaves the buffer alone, whatever the reason.\<close>

lemma framer_unchanged:
  assumes "inv b" "frame_Result (fst (TryFrameFromBuffer ops b)) \<noteq> FrameOk"
  shows "snd (TryFrameFromBuffer ops b) = b"
  using assms framer_short[of b] framer_corrupt[of b] framer_ok[of b]
  by (cases "deframe (contents b)") auto

end

section \<open>Properties\<close>

text \<open>C19: on every well-formed ring buffer one framing attempt does exactly what the stream
  grammar says: too few bytes leave the buffer unchanged with \<open>NeedMore\<close>, a size field
  below four leaves it unchanged with \<open>Invalid\<close>, and otherwise one whole packet comes out
  and the bytes behind it remain.\<close>

theorem framer_implements_deframe:
  assumes "cbq_inv b"
  shows "case deframe (cbq_contents b) of
      Stuck \<Rightarrow> TryFrameFromBuffer CircleBufferQueue_vtable b =
        (\<lparr>frame_Result = NeedMore, frame_PacketOpt = None\<rparr>, b)
    | Corrupt \<Rightarrow> TryFrameFromBuffer CircleBufferQueue_vtable b =
        (\<lparr>frame_Result = Invalid, frame_PacketOpt = None\<rparr>, b)
    | Framed p rest \<Rightarrow> \<exists>b'. TryFrameFromBuffer CircleBufferQueue_vtable b =
        (\<lparr>frame_Result = FrameOk, frame_PacketOpt = Some p\<rparr>, b') \<and>
        cbq_inv b' \<and> cbq_contents b' = rest"
  using cbq.framer_short[OF assms] cbq.framer_corrupt[OF assms] cbq.framer_ok[OF assms]
  by (cases "deframe (cbq_contents b)") auto

theorem framer_implements_deframe_witness:
  "frame_Result (fst (TryFrameFromBuffer CircleBufferQueue_vtable (CircleBufferQueue_ctor 8))) = NeedMore"
  using framer_implements_deframe[OF cbq_inv_ctor, of 8]
  by (simp add: deframe_def)

end
