(* ===== verification/Span_Writer.thy ===== *)
theory Span_Writer
  imports FP_Prelude
begin

text \<open>
  \<open>WriteToBuffers\<close> (a static helper of \<open>IOSession.cpp\<close>, repeated in \<open>RIOSession.cpp\<close>): copies a
  block of bytes into a vector of spans, from a position given by the index of a span and
  an offset in it, which it advances. Consecutive calls fill the spans like one scatter of
  the concatenated data.

  The loop tests \<open>offsetInSpan == span.size()\<close>; the model tests \<open>\<ge>\<close>, which is the same for the
  positions that occur (the offset never passes the end of its span) and makes the function
  total.
\<close>

function WriteToBuffers ::
  "span list \<Rightarrow> nat \<Rightarrow> nat \<Rightarrow> byte list \<Rightarrow> byte list \<Rightarrow> nat \<times> nat \<times> byte list" where
  "WriteToBuffers buffers bufferIdx offsetInSpan src mem =
     (if length src > 0 \<and> bufferIdx < length buffers then
        let span = buffers ! bufferIdx;
            spaceInSpan = snd span - offsetInSpan;
            toCopy = (if length src < spaceInSpan then length src else spaceInSpan);
            mem' = memcpy_at (fst span + offsetInSpan) (take toCopy src) mem;
            src' = drop toCopy src;
            offset' = offsetInSpan + toCopy
        in if offset' \<ge> snd span then WriteToBuffers buffers (bufferIdx + 1) 0 src' mem'
           else WriteToBuffers buffers bufferIdx offset' src' mem'
      else (bufferIdx, offsetInSpan, mem))"
  by auto
termination
  by (relation "measures [\<lambda>(bs, i, off, src, mem). length bs - i, \<lambda>(bs, i, off, src, mem). length src]")
    (auto simp: Let_def split: if_splits)

declare WriteToBuffers.simps [simp del]

section \<open>Equivalence with a scatter\<close>

text \<open>The spans that are left at a position, and the spans left after \<open>n\<close> more bytes.\<close>

definition spans_from :: "span list \<Rightarrow> nat \<Rightarrow> nat \<Rightarrow> span list" where
  "spans_from ss i off =
     (case drop i ss of [] \<Rightarrow> [] | s # rest \<Rightarrow> (fst s + off, snd s - off) # rest)"

fun advance :: "span list \<Rightarrow> nat \<Rightarrow> span list" where
  "advance [] n = []"
| "advance (s # ss) n =
     (if n < snd s then (fst s + n, snd s - n) # ss else advance ss (n - snd s))"

lemma memcpy_at_append:
  assumes "p + length a + length b \<le> length mem"
  shows "memcpy_at (p + length a) b (memcpy_at p a mem) = memcpy_at p (a @ b) mem"
  using assms by (simp add: memcpy_at_def ac_simps)

lemma scatter_Nil_data [simp]: "spans_within (length mem) ss \<Longrightarrow> scatter ss [] mem = mem"
  by (induction ss arbitrary: mem) auto

lemma length_scatter [simp]:
  "spans_within (length mem) ss \<Longrightarrow> length (scatter ss d mem) = length mem"
proof (induction ss arbitrary: d mem)
  case (Cons s ss)
  then have "length (memcpy_at (fst s) (take (snd s) d) mem) = length mem"
    by (auto intro!: length_memcpy_at)
  with Cons show ?case by auto
qed simp

text \<open>Splitting a scatter after its first bytes.\<close>

lemma scatter_append:
  assumes "spans_within (length mem) ss" "length a \<le> spans_size ss"
  shows "scatter ss (a @ b) mem = scatter (advance ss (length a)) b (scatter ss a mem)"
  using assms
proof (induction ss arbitrary: a mem)
  case (Cons s ss)
  show ?case
  proof (cases "length a < snd s")
    case True
    have "memcpy_at (fst s + length a) (take (snd s - length a) b) (memcpy_at (fst s) a mem) =
        memcpy_at (fst s) (a @ take (snd s - length a) b) mem"
      using Cons.prems(1) True by (intro memcpy_at_append) auto
    moreover have "length (memcpy_at (fst s) a mem) = length mem"
      using Cons.prems(1) True by (intro length_memcpy_at) auto
    ultimately show ?thesis
      using Cons.prems True by simp
  next
    case False
    have "length (memcpy_at (fst s) (take (snd s) a) mem) = length mem"
      using Cons.prems(1) by (intro length_memcpy_at) auto
    then show ?thesis
      using Cons False by auto
  qed
qed simp

lemma spans_within_advance:
  "spans_within m ss \<Longrightarrow> spans_within m (advance ss n)"
  by (induction ss arbitrary: n) auto

lemma spans_size_advance: "spans_size (advance ss n) = spans_size ss - n"
  by (induction ss arbitrary: n) auto

lemma advance_advance: "advance (advance ss m) n = advance ss (m + n)"
  by (induction ss arbitrary: m n) (auto simp: ac_simps)

lemma spans_from_Cons:
  "i < length ss \<Longrightarrow>
    spans_from ss i off = (fst (ss ! i) + off, snd (ss ! i) - off) # spans_from ss (Suc i) 0"
  by (cases "drop (Suc i) ss") (auto simp: spans_from_def Cons_nth_drop_Suc[symmetric])

lemma spans_from_Nil: "length ss \<le> i \<Longrightarrow> spans_from ss i off = []"
  by (simp add: spans_from_def)

lemma spans_from_0 [simp]: "spans_from ss 0 0 = ss"
  by (cases ss) (auto simp: spans_from_def)

text \<open>The spans the writer leaves behind are the spans advanced, up to empty ones at the
  front, which \<open>advance _ 0\<close> drops.\<close>

lemma WriteToBuffers_scatter:
  assumes "spans_within (length mem) (spans_from ss i off)"
    and "length src \<le> spans_size (spans_from ss i off)"
    and "i < length ss \<Longrightarrow> off \<le> snd (ss ! i)"
  shows "case WriteToBuffers ss i off src mem of (i', off', mem') \<Rightarrow>
    mem' = scatter (spans_from ss i off) src mem \<and>
    advance (spans_from ss i' off') 0 = advance (spans_from ss i off) (length src) \<and>
    (i' < length ss \<longrightarrow> off' \<le> snd (ss ! i')) \<and>
    spans_within (length mem) (spans_from ss i' off') \<and>
    spans_size (spans_from ss i' off') = spans_size (spans_from ss i off) - length src"
  using assms
proof (induction ss i off src mem rule: WriteToBuffers.induct)
  case (1 ss i off src mem)
  show ?case
  proof (cases "length src > 0 \<and> i < length ss")
    case False
    then have "src = []"
      using "1.prems"(2) by (auto simp: spans_from_Nil)
    then show ?thesis
      using "1.prems" by (simp add: WriteToBuffers.simps)
  next
    case True
    let ?s = "ss ! i" and ?rest = "spans_from ss (Suc i) 0"
    let ?space = "snd ?s - off"
    note from_i = spans_from_Cons[of i ss off]
    show ?thesis
    proof (cases "length src < ?space")
      case short: True
      then have "WriteToBuffers ss i off src mem = (i, off + length src, memcpy_at (fst ?s + off) src mem)"
        using True by (auto simp: WriteToBuffers.simps[of ss i off] WriteToBuffers.simps[of ss i _ "[]"] Let_def)
      moreover have "length (memcpy_at (fst ?s + off) src mem) = length mem"
        using "1.prems"(1) short True by (intro length_memcpy_at) (auto simp: from_i)
      ultimately show ?thesis
        using "1.prems"(1) short True by (auto simp: from_i spans_from_Cons[of i ss])
    next
      case full: False
      let ?mem = "memcpy_at (fst ?s + off) (take ?space src) mem"
      have rec: "WriteToBuffers ss i off src mem = WriteToBuffers ss (i + 1) 0 (drop ?space src) ?mem"
        using True full "1.prems"(3) by (simp add: WriteToBuffers.simps[of ss i off] Let_def)
      have len: "length ?mem = length mem"
        using "1.prems"(1) full True by (intro length_memcpy_at) (auto simp: from_i)
      have "case WriteToBuffers ss (i + 1) 0 (drop ?space src) ?mem of (i', off', mem') \<Rightarrow>
        mem' = scatter (spans_from ss (i + 1) 0) (drop ?space src) ?mem \<and>
        advance (spans_from ss i' off') 0 = advance (spans_from ss (i + 1) 0) (length (drop ?space src)) \<and>
        (i' < length ss \<longrightarrow> off' \<le> snd (ss ! i')) \<and>
        spans_within (length ?mem) (spans_from ss i' off') \<and>
        spans_size (spans_from ss i' off') = spans_size (spans_from ss (i + 1) 0) - length (drop ?space src)"
        using "1.prems" True full len
        by (intro "1.IH"(1)[OF True refl refl refl refl refl refl, unfolded if_not_P[OF full]])
          (auto simp: from_i)
      then show ?thesis
        using rec len True full by (auto simp: from_i split: prod.splits)
    qed
  qed
qed

text \<open>Consecutive writes: a scatter of the concatenation.\<close>

lemma scatter_advance_0:
  "spans_within (length mem) ss \<Longrightarrow> scatter (advance ss 0) d mem = scatter ss d mem"
  using scatter_append[of mem ss "[]" d] by simp

lemma WriteToBuffers_step:
  assumes "spans_within (length mem) (spans_from ss i off)"
    and "length src \<le> spans_size (spans_from ss i off)"
    and "i < length ss \<Longrightarrow> off \<le> snd (ss ! i)"
    and "WriteToBuffers ss i off src mem = (i', off', mem')"
  shows "scatter (spans_from ss i off) (src @ d) mem = scatter (spans_from ss i' off') d mem'"
    and "spans_within (length mem') (spans_from ss i' off')"
    and "spans_size (spans_from ss i' off') = spans_size (spans_from ss i off) - length src"
    and "i' < length ss \<Longrightarrow> off' \<le> snd (ss ! i')"
    and "length mem' = length mem"
proof -
  note w = WriteToBuffers_scatter[OF assms(1-3), unfolded assms(4), simplified]
  then show len: "length mem' = length mem"
    using assms(1) by simp
  show "spans_within (length mem') (spans_from ss i' off')" using w len by simp
  then show "scatter (spans_from ss i off) (src @ d) mem = scatter (spans_from ss i' off') d mem'"
    using w scatter_append[OF assms(1,2), of d] scatter_advance_0[of mem' "spans_from ss i' off'" d]
    by simp
  show "spans_size (spans_from ss i' off') = spans_size (spans_from ss i off) - length src"
    "i' < length ss \<Longrightarrow> off' \<le> snd (ss ! i')" using w by auto
qed

end
