(* ===== verification/OS_Trace.thy ===== *)
theory OS_Trace
  imports Packet_Model
begin

text \<open>
  The boundary of the program: the calls it makes into Winsock and into the callbacks of
  its subclasses, as events of a trace. A component that calls the operating system takes
  an environment, which answers a call from the history of all calls before it; no
  assumption is made about the answers, so that every theorem holds for every behaviour of
  the system. A negative answer is \<open>SOCKET_ERROR\<close> with an error other than
  \<open>WSA_IO_PENDING\<close>; an answer that creates a socket is its handle.
\<close>

type_synonym SOCKET = "nat option"

abbreviation INVALID_SOCKET :: SOCKET where
  "INVALID_SOCKET \<equiv> None"

datatype ENetworkMode = IOCP | RIO

datatype sockopt =
    SO_UPDATE_CONNECT_CONTEXT
  | SO_UPDATE_ACCEPT_CONTEXT SOCKET
  | TCP_NODELAY bool
  | SO_RCVBUF nat
  | SO_SNDBUF nat
  | SO_KEEPALIVE bool
  | SO_LINGER bool u16
  | SO_REUSEADDR bool

datatype ioctl =
    SIO_KEEPALIVE_VALS u32 u32
  | GET_DISCONNECTEX
  | GET_ACCEPTEX
  | GET_ACCEPTEXSOCKADDRS
  | GET_CONNECTEX

record sockaddr_in =
  sin_family :: nat
  sin_port :: u16
  sin_addr :: u32

datatype event =
    Sys_WSASocket ENetworkMode
  | Sys_shutdown nat nat
  | Sys_closesocket nat
  | Sys_bind SOCKET sockaddr_in
  | Sys_listen SOCKET nat
  | Sys_setsockopt SOCKET sockopt
  | Sys_WSAIoctl SOCKET ioctl
  | Sys_DisconnectEx SOCKET u32
  | Sys_AcceptEx SOCKET SOCKET
  | Sys_ConnectEx SOCKET sockaddr_in
  | Sys_CreateIoCompletionPort
  | Sys_CloseHandle nat
  | Sys_Associate SOCKET nat
  | Sys_PostQueuedCompletionStatus nat
  | Gh_SpawnWorker
  | Gh_JoinWorker
  | Sys_WSARecv SOCKET "span list"
  | Sys_WSASend SOCKET "span list" "byte list"
  | Cb_OnPacketReceived Packet
  | Cb_OnSent nat
  | Cb_OnDisconnected
  | Cb_OnAccepted
  | Cb_OnConnected
  | Gh_IoDone

type_synonym trace = "event list"
type_synonym env = "trace \<Rightarrow> event \<Rightarrow> int"

text \<open>Making a call: the answer, and the trace with the call at its end.\<close>

definition syscall :: "env \<Rightarrow> event \<Rightarrow> trace \<Rightarrow> int \<times> trace" where
  "syscall env e tr = (env tr e, tr @ [e])"

lemma snd_syscall [simp]: "snd (syscall env e tr) = tr @ [e]"
  by (simp add: syscall_def)

lemma fst_syscall [simp]: "fst (syscall env e tr) = env tr e"
  by (simp add: syscall_def)

text \<open>\<open>htons\<close> on a little-endian host.\<close>

definition htons :: "u16 \<Rightarrow> u16" where
  "htons w = be_u16 (ucast w) (ucast (drop_bit 8 w))"

end
