(* ===== verification/Socket_Model.thy ===== *)
theory Socket_Model
  imports OS_Trace
begin

text \<open>
  \<open>Socket\<close> (\<open>LibNetworks/Socket.ixx\<close>, \<open>Socket.cpp\<close>): a handle and an address. Each method is a
  function on the object and the trace of system calls; \<open>inet_pton\<close> is a parameter.
\<close>

record Socket =
  m_Socket :: SOCKET
  m_SockAddr :: sockaddr_in

definition AF_INET :: nat where "AF_INET = 2"

definition SD_BOTH :: nat where "SD_BOTH = 2"

definition zero_sockaddr :: sockaddr_in where
  "zero_sockaddr = \<lparr>sin_family = 0, sin_port = 0, sin_addr = 0\<rparr>"

definition Socket_of_handle :: "SOCKET \<Rightarrow> Socket" where
  "Socket_of_handle h = \<lparr>m_Socket = h, m_SockAddr = zero_sockaddr\<rparr>"

definition CreateSocketAddress ::
  "(string \<Rightarrow> u32 option) \<Rightarrow> string \<Rightarrow> u16 \<Rightarrow> bool \<times> sockaddr_in" where
  "CreateSocketAddress inet_pton ip port =
     (let a = zero_sockaddr\<lparr>sin_family := AF_INET, sin_port := (if port = 0 then 0 else htons port)\<rparr>
      in case inet_pton ip of
           None \<Rightarrow> (False, a)
         | Some addr \<Rightarrow> (True, a\<lparr>sin_addr := addr\<rparr>))"

definition Socket_bool :: "Socket \<Rightarrow> bool" where
  "Socket_bool s \<longleftrightarrow> m_Socket s \<noteq> INVALID_SOCKET"

text \<open>The move assignment returns \<open>*this\<close> and moves nothing.\<close>

definition Socket_move_assign :: "Socket \<Rightarrow> Socket \<Rightarrow> Socket \<times> Socket" where
  "Socket_move_assign this rhs = (this, rhs)"

definition Socket_Shutdown :: "nat \<Rightarrow> Socket \<times> trace \<Rightarrow> Socket \<times> trace" where
  "Socket_Shutdown how st =
     (case m_Socket (fst st) of
        None \<Rightarrow> st
      | Some h \<Rightarrow> (fst st, snd st @ [Sys_shutdown h how]))"

definition Socket_Close :: "Socket \<times> trace \<Rightarrow> Socket \<times> trace" where
  "Socket_Close st =
     (case m_Socket (fst st) of
        None \<Rightarrow> st
      | Some h \<Rightarrow> ((fst st)\<lparr>m_Socket := INVALID_SOCKET\<rparr>, snd st @ [Sys_closesocket h]))"

definition Socket_CreateSocket ::
  "env \<Rightarrow> ENetworkMode \<Rightarrow> Socket \<times> trace \<Rightarrow> bool \<times> Socket \<times> trace" where
  "Socket_CreateSocket env networkMode st =
     (let (r, tr) = syscall env (Sys_WSASocket networkMode) (snd st);
          s = (fst st)\<lparr>m_Socket := (if r < 0 then INVALID_SOCKET else Some (nat r))\<rparr>
      in if m_Socket s = INVALID_SOCKET then (False, Socket_Close (s, tr))
         else (True, (s, tr)))"

definition Socket_SetLocalAddress :: "u16 \<Rightarrow> Socket \<Rightarrow> Socket" where
  "Socket_SetLocalAddress port s =
     s\<lparr>m_SockAddr := (m_SockAddr s)\<lparr>sin_family := AF_INET,
         sin_port := (if port = 0 then 0 else htons port), sin_addr := 0\<rparr>\<rparr>"

definition Socket_SetRemoteAddress ::
  "(string \<Rightarrow> u32 option) \<Rightarrow> string \<Rightarrow> u16 \<Rightarrow> Socket \<Rightarrow> Socket" where
  "Socket_SetRemoteAddress inet_pton ip port s =
     s\<lparr>m_SockAddr := snd (CreateSocketAddress inet_pton ip port)\<rparr>"

definition Socket_Bind :: "env \<Rightarrow> Socket \<times> trace \<Rightarrow> bool \<times> Socket \<times> trace" where
  "Socket_Bind env st =
     (let (r, tr) = syscall env (Sys_bind (m_Socket (fst st)) (m_SockAddr (fst st))) (snd st)
      in if r < 0 then (False, Socket_Close (fst st, tr)) else (True, (fst st, tr)))"

definition Socket_Listen :: "env \<Rightarrow> nat \<Rightarrow> Socket \<times> trace \<Rightarrow> bool \<times> Socket \<times> trace" where
  "Socket_Listen env maxConnectionCount st =
     (let (r, tr) = syscall env (Sys_listen (m_Socket (fst st)) maxConnectionCount) (snd st)
      in if r < 0 then (False, Socket_Close (fst st, tr)) else (True, (fst st, tr)))"

definition Socket_UpdateConnectContext :: "env \<Rightarrow> Socket \<Rightarrow> trace \<Rightarrow> bool \<times> trace" where
  "Socket_UpdateConnectContext env s tr =
     (let (r, tr1) = syscall env (Sys_setsockopt (m_Socket s) SO_UPDATE_CONNECT_CONTEXT) tr
      in (\<not> r < 0, tr1))"

definition Socket_UpdateContextDisableNagleAlgorithm ::
  "env \<Rightarrow> Socket \<Rightarrow> trace \<Rightarrow> bool \<times> trace" where
  "Socket_UpdateContextDisableNagleAlgorithm env s tr =
     (let (nRet, tr1) = syscall env (Sys_setsockopt (m_Socket s) (TCP_NODELAY True)) tr
      in (\<not> nRet < 0, tr1))"

definition Socket_UpdateContextZeroCopy :: "env \<Rightarrow> Socket \<Rightarrow> trace \<Rightarrow> bool \<times> trace" where
  "Socket_UpdateContextZeroCopy env s tr =
     (let (r, tr1) = syscall env (Sys_setsockopt (m_Socket s) (SO_RCVBUF 0)) tr
      in if r < 0 then (False, tr1)
         else let (r2, tr2) = syscall env (Sys_setsockopt (m_Socket s) (SO_SNDBUF 0)) tr1
              in (\<not> r2 < 0, tr2))"

definition Socket_UpdateContextKeepAlive ::
  "env \<Rightarrow> u32 \<Rightarrow> u32 \<Rightarrow> Socket \<Rightarrow> trace \<Rightarrow> bool \<times> trace" where
  "Socket_UpdateContextKeepAlive env idleMs intervalMs s tr =
     (let (r, tr1) = syscall env (Sys_setsockopt (m_Socket s) (SO_KEEPALIVE True)) tr
      in if r < 0 then (False, tr1)
         else let (r2, tr2) =
                syscall env (Sys_WSAIoctl (m_Socket s) (SIO_KEEPALIVE_VALS idleMs intervalMs)) tr1
              in (\<not> r2 < 0, tr2))"

definition Socket_UpdateContextLingerConfig ::
  "env \<Rightarrow> bool \<Rightarrow> u16 \<Rightarrow> Socket \<Rightarrow> trace \<Rightarrow> bool \<times> trace" where
  "Socket_UpdateContextLingerConfig env onOff lingerTime s tr =
     (let (r, tr1) = syscall env (Sys_setsockopt (m_Socket s) (SO_LINGER onOff lingerTime)) tr
      in (\<not> r < 0, tr1))"

definition Socket_UpdateContextReuseAddr :: "env \<Rightarrow> bool \<Rightarrow> Socket \<Rightarrow> trace \<Rightarrow> bool \<times> trace" where
  "Socket_UpdateContextReuseAddr env bReuse s tr =
     (let (r, tr1) = syscall env (Sys_setsockopt (m_Socket s) (SO_REUSEADDR bReuse)) tr
      in (\<not> r < 0, tr1))"

definition Socket_UpdateAcceptContext :: "env \<Rightarrow> SOCKET \<Rightarrow> Socket \<Rightarrow> trace \<Rightarrow> bool \<times> trace" where
  "Socket_UpdateAcceptContext env listenSocket s tr =
     (let (r, tr1) = syscall env
            (Sys_setsockopt (m_Socket s) (SO_UPDATE_ACCEPT_CONTEXT listenSocket)) tr
      in (\<not> r < 0, tr1))"

text \<open>\<open>Disconnect\<close> resolves \<open>DisconnectEx\<close> once per process: \<open>loaded\<close> is the static function
  pointer.\<close>

definition Socket_Disconnect ::
  "env \<Rightarrow> u32 \<Rightarrow> bool \<Rightarrow> Socket \<Rightarrow> trace \<Rightarrow> bool \<times> bool \<times> trace" where
  "Socket_Disconnect env dwFlags loaded s tr =
     (let (r, loaded', tr1) =
            (if \<not> loaded
             then let (r, t) = syscall env (Sys_WSAIoctl (m_Socket s) GET_DISCONNECTEX) tr
                  in (r, \<not> r < 0, t)
             else (0, True, tr))
      in if r < 0 then (False, loaded', tr1)
         else let (r2, tr2) = syscall env (Sys_DisconnectEx (m_Socket s) dwFlags) tr1
              in (\<not> r2 < 0, loaded', tr2))"

section \<open>Closing\<close>

definition closes :: "nat \<Rightarrow> trace \<Rightarrow> nat" where
  "closes h tr = length (filter ((=) (Sys_closesocket h)) tr)"

lemma closes_append [simp]: "closes h (a @ b) = closes h a + closes h b"
  by (simp add: closes_def)

lemma closes_single [simp]:
  "closes h [e] = (if e = Sys_closesocket h then 1 else 0)"
  by (auto simp: closes_def)

lemma closes_Nil [simp]: "closes h [] = 0"
  by (simp add: closes_def)

lemma Socket_Close_invalid [simp]: "m_Socket (fst (Socket_Close st)) = INVALID_SOCKET"
  by (simp add: Socket_Close_def split: option.splits)

lemma Socket_Close_again [simp]: "Socket_Close (Socket_Close st) = Socket_Close st"
  by (simp add: Socket_Close_def split: option.splits)

lemma Socket_Shutdown_socket [simp]: "fst (Socket_Shutdown how st) = fst st"
  by (simp add: Socket_Shutdown_def split: option.splits)

text \<open>The calls a session makes on its socket when it disconnects.\<close>

lemma Shutdown_Close_trace:
  "snd (Socket_Close (Socket_Shutdown how (s, tr))) = tr @
     (case m_Socket s of None \<Rightarrow> [] | Some h \<Rightarrow> [Sys_shutdown h how, Sys_closesocket h])"
  by (simp add: Socket_Close_def Socket_Shutdown_def split: option.splits)

end
