(* ===== verification/IO_Session.thy ===== *)
theory IO_Session
  imports Packet_Framer Span_Writer Socket_Model
begin

text \<open>
  \<open>IOSession\<close> (\<open>LibNetworks/IOSession.ixx\<close>, \<open>IOSession.cpp\<close>): one IOCP connection. The record
  holds the atomics, the buffers (\<open>m_pReceiveBuffer\<close>/\<open>m_pSendBuffer\<close> of \<open>INetworkSession\<close>) and the two
  \<open>OVERLAPPED\<close> contexts; \<open>s_Trace\<close> is the history of system calls and of calls of the virtual
  hooks. A method is a function of the session; here one method call runs to its end before
  the next begins.

  Parameters: \<open>ops\<close> the virtual functions of the buffers, \<open>env\<close> the answers of Winsock, \<open>clock\<close>
  the steady clock (as a function of the history) and the hooks \<open>OnPacketReceived\<close>, \<open>OnSent\<close> and
  \<open>OnDisconnected\<close> of the subclass, which may call back into the session. A protobuf message
  is the bytes it serialises to: \<open>ByteSizeLong\<close> is their number. Log output is left out.

  The code dereferences \<open>m_pSendBuffer\<close> in \<open>SendMessage\<close> and \<open>m_pReceiveBuffer\<close> in
  \<open>HandleRealRecvCompletion\<close> without a check; every construction site passes both buffers. In
  the model these two places leave a session without the buffer unchanged, and the theorems
  assume the buffers.
\<close>

datatype DisconnectReason = Normal | IdleTimeout | Backpressure | Protocol | Server

record OverlappedEx =
  o_Buffers_size :: nat
  o_WSABufs :: "span list"
  o_RequestedBytes :: nat
  o_IsZeroByte :: bool

record 'b IOSession =
  s_ReceiveLoopStarted :: bool
  s_RecvInProgress :: bool
  s_SendInProgress :: bool
  s_DisconnectRequested :: bool
  s_OutstandingIoCount :: int
  s_OnDisconnectedFired :: bool
  s_LastRecvTimeMs :: int
  s_TotalRxBytes :: u64
  s_TotalTxBytes :: u64
  s_pSocket :: "Socket option"
  s_SessionId :: u64
  s_pReceiveBuffer :: "'b option"
  s_pSendBuffer :: "'b option"
  s_RecvOverlapped :: OverlappedEx
  s_SendOverlapped :: OverlappedEx
  s_Trace :: trace

record 's session_callbacks =
  cb_OnPacketReceived :: "Packet \<Rightarrow> 's \<Rightarrow> 's"
  cb_OnSent :: "nat \<Rightarrow> 's \<Rightarrow> 's"
  cb_OnDisconnected :: "'s \<Rightarrow> 's"

text \<open>The constructor; the session id is drawn from the static counter \<open>m_NextSessionId\<close>,
  which is returned advanced.\<close>

definition IOSession_ctor ::
  "u64 \<Rightarrow> Socket option \<Rightarrow> 'b option \<Rightarrow> 'b option \<Rightarrow> 'b IOSession \<times> u64" where
  "IOSession_ctor nextId pSocket pReceiveBuffer pSendBuffer =
     (\<lparr>s_ReceiveLoopStarted = False, s_RecvInProgress = False, s_SendInProgress = False,
       s_DisconnectRequested = False, s_OutstandingIoCount = 0, s_OnDisconnectedFired = False,
       s_LastRecvTimeMs = 0, s_TotalRxBytes = 0, s_TotalTxBytes = 0, s_pSocket = pSocket,
       s_SessionId = nextId, s_pReceiveBuffer = pReceiveBuffer, s_pSendBuffer = pSendBuffer,
       s_RecvOverlapped = \<lparr>o_Buffers_size = 16 * 1024, o_WSABufs = [], o_RequestedBytes = 0,
                           o_IsZeroByte = False\<rparr>,
       s_SendOverlapped = \<lparr>o_Buffers_size = 0, o_WSABufs = [], o_RequestedBytes = 0,
                           o_IsZeroByte = False\<rparr>,
       s_Trace = []\<rparr>, nextId + 1)"

text \<open>The destructor only reports: whether the outstanding count was zero.\<close>

definition IOSession_dtor_ok :: "('b, 'z) IOSession_scheme \<Rightarrow> bool" where
  "IOSession_dtor_ok s \<longleftrightarrow> s_OutstandingIoCount s = 0"

definition AddOutstandingIo :: "('b, 'z) IOSession_scheme \<Rightarrow> ('b, 'z) IOSession_scheme" where
  "AddOutstandingIo s = s\<lparr>s_OutstandingIoCount := s_OutstandingIoCount s + 1\<rparr>"

definition UndoOutstandingOnFailure ::
  "('b, 'z) IOSession_scheme \<Rightarrow> ('b, 'z) IOSession_scheme" where
  "UndoOutstandingOnFailure s = s\<lparr>s_OutstandingIoCount := s_OutstandingIoCount s - 1\<rparr>"

definition TryFireOnDisconnected ::
  "'b IBuffer \<Rightarrow> (('b, 'z) IOSession_scheme \<Rightarrow> ('b, 'z) IOSession_scheme) \<Rightarrow>
   ('b, 'z) IOSession_scheme \<Rightarrow> ('b, 'z) IOSession_scheme" where
  "TryFireOnDisconnected ops onDisc s =
     (if s_OnDisconnectedFired s then s
      else
        let s1 = s\<lparr>s_OnDisconnectedFired := True\<rparr>;
            s2 = s1\<lparr>s_pReceiveBuffer := map_option (vClear ops) (s_pReceiveBuffer s1)\<rparr>;
            s3 = s2\<lparr>s_pSendBuffer := map_option (vClear ops) (s_pSendBuffer s2)\<rparr>
        in onDisc (s3\<lparr>s_Trace := s_Trace s3 @ [Cb_OnDisconnected]\<rparr>))"

text \<open>\<open>m_pSocket->Shutdown(SD_BOTH); m_pSocket->Close();\<close>\<close>

definition close_socket :: "('b, 'z) IOSession_scheme \<Rightarrow> ('b, 'z) IOSession_scheme" where
  "close_socket s =
     (case s_pSocket s of
        None \<Rightarrow> s
      | Some sk \<Rightarrow>
          let (sk', tr') = Socket_Close (Socket_Shutdown SD_BOTH (sk, s_Trace s))
          in s\<lparr>s_pSocket := Some sk', s_Trace := tr'\<rparr>)"

definition RequestDisconnect ::
  "'b IBuffer \<Rightarrow> (('b, 'z) IOSession_scheme \<Rightarrow> ('b, 'z) IOSession_scheme) \<Rightarrow>
   DisconnectReason \<Rightarrow> ('b, 'z) IOSession_scheme \<Rightarrow> ('b, 'z) IOSession_scheme" where
  "RequestDisconnect ops onDisc reason s =
     (let firstPass = \<not> s_DisconnectRequested s;
          s1 = (if firstPass
                then (close_socket (s\<lparr>s_DisconnectRequested := True\<rparr>))
                       \<lparr>s_RecvInProgress := False, s_SendInProgress := False\<rparr>
                else s)
      in if s_OutstandingIoCount s1 = 0 then TryFireOnDisconnected ops onDisc s1 else s1)"

definition RequestDisconnect0 ::
  "'b IBuffer \<Rightarrow> (('b, 'z) IOSession_scheme \<Rightarrow> ('b, 'z) IOSession_scheme) \<Rightarrow>
   ('b, 'z) IOSession_scheme \<Rightarrow> ('b, 'z) IOSession_scheme" where
  "RequestDisconnect0 ops onDisc s = RequestDisconnect ops onDisc Normal s"

text \<open>The destructor of the completion guard.\<close>

definition IoCompletionGuard_dtor ::
  "'b IBuffer \<Rightarrow> (('b, 'z) IOSession_scheme \<Rightarrow> ('b, 'z) IOSession_scheme) \<Rightarrow>
   ('b, 'z) IOSession_scheme \<Rightarrow> ('b, 'z) IOSession_scheme" where
  "IoCompletionGuard_dtor ops onDisc s =
     (let previousCount = s_OutstandingIoCount s;
          s1 = s\<lparr>s_OutstandingIoCount := previousCount - 1, s_Trace := s_Trace s @ [Gh_IoDone]\<rparr>
      in if previousCount = 1 \<and> s_DisconnectRequested s1
         then TryFireOnDisconnected ops onDisc s1 else s1)"

section \<open>Sending\<close>

definition PrepareSendBuffers ::
  "span list \<Rightarrow> nat \<Rightarrow> ('b, 'z) IOSession_scheme \<Rightarrow> ('b, 'z) IOSession_scheme" where
  "PrepareSendBuffers buffers bytesToSend s =
     s\<lparr>s_SendOverlapped := (s_SendOverlapped s)\<lparr>o_RequestedBytes := bytesToSend,
                                                o_WSABufs := buffers\<rparr>\<rparr>"

definition TryPostSendFromQueue ::
  "env \<Rightarrow> 'b IBuffer \<Rightarrow> ('b, 'z) IOSession_scheme \<Rightarrow> bool \<times> ('b, 'z) IOSession_scheme" where
  "TryPostSendFromQueue env ops s =
     (if s_DisconnectRequested s then (False, s)
      else if s_SendInProgress s then (True, s)
      else
        let s1 = s\<lparr>s_SendInProgress := True\<rparr> in
        case s_pSendBuffer s1 of
          None \<Rightarrow> (True, s1\<lparr>s_SendInProgress := False\<rparr>)
        | Some sb \<Rightarrow>
            let (bytesToSend, buffers) = vGetReadBuffers ops sb in
            if bytesToSend = 0 then (True, s1\<lparr>s_SendInProgress := False\<rparr>)
            else
              let s2 = PrepareSendBuffers buffers bytesToSend s1 in
              case s_pSocket s2 of
                None \<Rightarrow> (False, s2\<lparr>s_SendInProgress := False\<rparr>)
              | Some sk \<Rightarrow>
                  let s3 = AddOutstandingIo s2;
                      (result, tr) = syscall env
                        (Sys_WSASend (m_Socket sk) buffers (buf_load ops buffers sb)) (s_Trace s3);
                      s4 = s3\<lparr>s_Trace := tr\<rparr>
                  in if result < 0
                     then (False, (UndoOutstandingOnFailure s4)\<lparr>s_SendInProgress := False\<rparr>)
                     else (True, s4))"

definition SendBuffer ::
  "env \<Rightarrow> 'b IBuffer \<Rightarrow> byte list \<Rightarrow> ('b, 'z) IOSession_scheme \<Rightarrow> ('b, 'z) IOSession_scheme" where
  "SendBuffer env ops data s =
     (case s_pSendBuffer s of
        None \<Rightarrow> s
      | Some sb \<Rightarrow>
          if data = [] then s
          else if s_DisconnectRequested s then s
          else
            let (ok, sb') = vWrite ops data sb in
            if \<not> ok then s\<lparr>s_pSendBuffer := Some sb'\<rparr>
            else snd (TryPostSendFromQueue env ops (s\<lparr>s_pSendBuffer := Some sb'\<rparr>)))"

text \<open>Header, id and body written into the reserved spans. The body goes to the current
  span directly (\<open>SerializeToArray\<close>) when it fits there, and through a temporary string
  otherwise.\<close>

definition write_message :: "span list \<Rightarrow> u16 \<Rightarrow> byte list \<Rightarrow> byte list \<Rightarrow> byte list" where
  "write_message buffers packetId body mem =
     (let totalSize = GetHeaderSize + GetPacketIdSize + length body;
          (i1, o1, mem1) = WriteToBuffers buffers 0 0 (u16_be (of_nat totalSize)) mem;
          (i2, o2, mem2) = WriteToBuffers buffers i1 o1 (u16_be packetId) mem1
      in if length body > 0 then
           if i2 < length buffers \<and> snd (buffers ! i2) - o2 \<ge> length body
           then memcpy_at (fst (buffers ! i2) + o2) body mem2
           else (let (i3, o3, mem3) = WriteToBuffers buffers i2 o2 body mem2 in mem3)
         else mem2)"

definition SendMessage ::
  "env \<Rightarrow> 'b IBuffer \<Rightarrow> (('b, 'z) IOSession_scheme \<Rightarrow> ('b, 'z) IOSession_scheme) \<Rightarrow>
   u16 \<Rightarrow> byte list \<Rightarrow> ('b, 'z) IOSession_scheme \<Rightarrow> ('b, 'z) IOSession_scheme" where
  "SendMessage env ops onDisc packetId body s =
     (let totalSize = GetHeaderSize + GetPacketIdSize + length body in
      if s_DisconnectRequested s then s
      else
        case s_pSendBuffer s of
          None \<Rightarrow> s
        | Some sb \<Rightarrow>
            (case vAllocateWrite ops totalSize sb of
               (None, sb') \<Rightarrow> RequestDisconnect0 ops onDisc (s\<lparr>s_pSendBuffer := Some sb'\<rparr>)
             | (Some buffers, sb') \<Rightarrow>
                 let sb'' = vSetMem ops (write_message buffers packetId body (vMem ops sb')) sb'
                 in snd (TryPostSendFromQueue env ops (s\<lparr>s_pSendBuffer := Some sb''\<rparr>))))"

section \<open>Receiving\<close>

definition PrepareRecvBuffers ::
  "'b IBuffer \<Rightarrow> (('b, 'z) IOSession_scheme \<Rightarrow> ('b, 'z) IOSession_scheme) \<Rightarrow>
   bool \<Rightarrow> ('b, 'z) IOSession_scheme \<Rightarrow> bool \<times> ('b, 'z) IOSession_scheme" where
  "PrepareRecvBuffers ops onDisc bZeroByte s =
     (let s1 = s\<lparr>s_RecvOverlapped := (s_RecvOverlapped s)\<lparr>o_IsZeroByte := bZeroByte, o_WSABufs := []\<rparr>\<rparr>
      in if bZeroByte
         then (True, s1\<lparr>s_RecvOverlapped := (s_RecvOverlapped s1)\<lparr>o_WSABufs := [(0, 0)]\<rparr>\<rparr>)
         else
           let (writableSize, buffers) =
                 (case s_pReceiveBuffer s1 of
                    None \<Rightarrow> (0, [])
                  | Some rb \<Rightarrow> vGetWriteableBuffers ops rb)
           in if writableSize = 0 then (False, RequestDisconnect0 ops onDisc s1)
              else (True, s1\<lparr>s_RecvOverlapped := (s_RecvOverlapped s1)\<lparr>o_WSABufs := buffers\<rparr>\<rparr>))"

definition RequestRecv ::
  "env \<Rightarrow> 'b IBuffer \<Rightarrow> (('b, 'z) IOSession_scheme \<Rightarrow> ('b, 'z) IOSession_scheme) \<Rightarrow>
   bool \<Rightarrow> ('b, 'z) IOSession_scheme \<Rightarrow> bool \<times> ('b, 'z) IOSession_scheme" where
  "RequestRecv env ops onDisc bZeroByte s =
     (case PrepareRecvBuffers ops onDisc bZeroByte s of
        (False, s1) \<Rightarrow> (False, s1)
      | (True, s1) \<Rightarrow>
          (case s_pSocket s1 of
             None \<Rightarrow> (False, s1)
           | Some sk \<Rightarrow>
               let s2 = AddOutstandingIo s1;
                   (result, tr) = syscall env
                     (Sys_WSARecv (m_Socket sk) (o_WSABufs (s_RecvOverlapped s2))) (s_Trace s2);
                   s3 = s2\<lparr>s_Trace := tr\<rparr>
               in if result < 0 then (False, UndoOutstandingOnFailure s3) else (True, s3)))"

definition RequestReceived ::
  "env \<Rightarrow> 'b IBuffer \<Rightarrow> (('b, 'z) IOSession_scheme \<Rightarrow> ('b, 'z) IOSession_scheme) \<Rightarrow>
   ('b, 'z) IOSession_scheme \<Rightarrow> ('b, 'z) IOSession_scheme" where
  "RequestReceived env ops onDisc s =
     (if s_DisconnectRequested s then s
      else if s_RecvInProgress s then s
      else
        let (ok, s1) = RequestRecv env ops onDisc True (s\<lparr>s_RecvInProgress := True\<rparr>) in
        if \<not> ok then RequestDisconnect0 ops onDisc (s1\<lparr>s_RecvInProgress := False\<rparr>) else s1)"

definition StartReceiveLoop ::
  "env \<Rightarrow> 'b IBuffer \<Rightarrow> (('b, 'z) IOSession_scheme \<Rightarrow> ('b, 'z) IOSession_scheme) \<Rightarrow>
   ('b, 'z) IOSession_scheme \<Rightarrow> ('b, 'z) IOSession_scheme" where
  "StartReceiveLoop env ops onDisc s =
     (if s_DisconnectRequested s then s
      else if s_ReceiveLoopStarted s then s
      else RequestReceived env ops onDisc (s\<lparr>s_ReceiveLoopStarted := True\<rparr>))"

text \<open>The framing loop. A hook could in principle refill the buffer for ever, so the loop has
  fuel and \<open>None\<close> means that it ran out; \<open>CanReadSize + 1\<close> iterations are enough for every
  hook that leaves the receive buffer alone (\<open>read_fuel_enough\<close>).\<close>

fun ReadReceivedBuffers ::
  "nat \<Rightarrow> 'b IBuffer \<Rightarrow> ('b, 'z) IOSession_scheme session_callbacks \<Rightarrow>
   ('b, 'z) IOSession_scheme \<Rightarrow> ('b, 'z) IOSession_scheme option" where
  "ReadReceivedBuffers 0 ops cb s = None"
| "ReadReceivedBuffers (Suc fuel) ops cb s =
     (case s_pReceiveBuffer s of
        None \<Rightarrow> Some s
      | Some rb \<Rightarrow>
          if s_DisconnectRequested s then Some s
          else
            let (frame, rb') = TryFrameFromBuffer ops rb;
                s1 = s\<lparr>s_pReceiveBuffer := Some rb'\<rparr>
            in if frame_Result frame = NeedMore then Some s1
               else if frame_Result frame = Invalid
               then Some (RequestDisconnect0 ops (cb_OnDisconnected cb) s1)
               else
                 case frame_PacketOpt frame of
                   None \<Rightarrow> Some (RequestDisconnect0 ops (cb_OnDisconnected cb) s1)
                 | Some packet \<Rightarrow>
                     if s_DisconnectRequested s1 then Some s1
                     else ReadReceivedBuffers fuel ops cb
                            (cb_OnPacketReceived cb packet
                               (s1\<lparr>s_Trace := s_Trace s1 @ [Cb_OnPacketReceived packet]\<rparr>)))"

definition read_fuel :: "'b IBuffer \<Rightarrow> ('b, 'z) IOSession_scheme \<Rightarrow> nat" where
  "read_fuel ops s =
     (case s_pReceiveBuffer s of None \<Rightarrow> 1 | Some rb \<Rightarrow> vCanReadSize ops rb + 1)"

section \<open>Completions\<close>

definition HandleZeroByteRecvCompletion ::
  "env \<Rightarrow> 'b IBuffer \<Rightarrow> (('b, 'z) IOSession_scheme \<Rightarrow> ('b, 'z) IOSession_scheme) \<Rightarrow>
   nat \<Rightarrow> ('b, 'z) IOSession_scheme \<Rightarrow> ('b, 'z) IOSession_scheme" where
  "HandleZeroByteRecvCompletion env ops onDisc bytesTransferred s =
     (if bytesTransferred = 0 then
        let (ok, s1) = RequestRecv env ops onDisc False s in
        if \<not> ok then RequestDisconnect0 ops onDisc (s1\<lparr>s_RecvInProgress := False\<rparr>) else s1
      else s\<lparr>s_RecvInProgress := False\<rparr>)"

definition HandleRealRecvCompletion ::
  "env \<Rightarrow> (trace \<Rightarrow> int) \<Rightarrow> 'b IBuffer \<Rightarrow> ('b, 'z) IOSession_scheme session_callbacks \<Rightarrow>
   nat \<Rightarrow> ('b, 'z) IOSession_scheme \<Rightarrow> ('b, 'z) IOSession_scheme option" where
  "HandleRealRecvCompletion env clock ops cb bytesTransferred s =
     (if bytesTransferred = 0 then
        Some (RequestDisconnect0 ops (cb_OnDisconnected cb) (s\<lparr>s_RecvInProgress := False\<rparr>))
      else
        case s_pReceiveBuffer s of
          None \<Rightarrow> Some s
        | Some rb \<Rightarrow>
            let (ok, rb') = vCommitWrite ops bytesTransferred rb;
                s1 = s\<lparr>s_pReceiveBuffer := Some rb'\<rparr>
            in if \<not> ok then
                 Some (RequestDisconnect0 ops (cb_OnDisconnected cb) (s1\<lparr>s_RecvInProgress := False\<rparr>))
               else
                 let s2 = s1\<lparr>s_LastRecvTimeMs := clock (s_Trace s1),
                             s_TotalRxBytes := s_TotalRxBytes s1 + of_nat bytesTransferred\<rparr>
                 in if s_DisconnectRequested s2 then Some (s2\<lparr>s_RecvInProgress := False\<rparr>)
                    else
                      case ReadReceivedBuffers (read_fuel ops s2) ops cb s2 of
                        None \<Rightarrow> None
                      | Some s3 \<Rightarrow>
                          Some (RequestReceived env ops (cb_OnDisconnected cb)
                                  (s3\<lparr>s_RecvInProgress := False\<rparr>)))"

definition HandleRecvCompletion ::
  "env \<Rightarrow> (trace \<Rightarrow> int) \<Rightarrow> 'b IBuffer \<Rightarrow> ('b, 'z) IOSession_scheme session_callbacks \<Rightarrow>
   bool \<Rightarrow> nat \<Rightarrow> ('b, 'z) IOSession_scheme \<Rightarrow> ('b, 'z) IOSession_scheme option" where
  "HandleRecvCompletion env clock ops cb bSuccess bytesTransferred s =
     (if \<not> bSuccess then
        Some (RequestDisconnect0 ops (cb_OnDisconnected cb) (s\<lparr>s_RecvInProgress := False\<rparr>))
      else if o_IsZeroByte (s_RecvOverlapped s) then
        Some (HandleZeroByteRecvCompletion env ops (cb_OnDisconnected cb) bytesTransferred s)
      else HandleRealRecvCompletion env clock ops cb bytesTransferred s)"

definition HandleSendCompletion ::
  "env \<Rightarrow> 'b IBuffer \<Rightarrow> ('b, 'z) IOSession_scheme session_callbacks \<Rightarrow>
   bool \<Rightarrow> nat \<Rightarrow> ('b, 'z) IOSession_scheme \<Rightarrow> ('b, 'z) IOSession_scheme" where
  "HandleSendCompletion env ops cb bSuccess bytesTransferred s =
     (let s1 = s\<lparr>s_SendInProgress := False\<rparr> in
      if \<not> bSuccess then RequestDisconnect0 ops (cb_OnDisconnected cb) s1
      else
        let s2 = s1\<lparr>s_pSendBuffer := map_option (snd \<circ> vConsume ops bytesTransferred) (s_pSendBuffer s1)\<rparr>;
            s3 = s2\<lparr>s_TotalTxBytes := s_TotalTxBytes s2 + of_nat bytesTransferred\<rparr>
        in if s_DisconnectRequested s3 then s3
           else
             let s4 = cb_OnSent cb bytesTransferred
                        (s3\<lparr>s_Trace := s_Trace s3 @ [Cb_OnSent bytesTransferred]\<rparr>);
                 hasPending = (case s_pSendBuffer s4 of None \<Rightarrow> False | Some sb \<Rightarrow> vCanReadSize ops sb > 0)
             in if hasPending \<and> \<not> s_DisconnectRequested s4
                then snd (TryPostSendFromQueue env ops s4) else s4)"

text \<open>Which \<open>OVERLAPPED\<close> a completion packet carries.\<close>

datatype overlapped_ptr = OvNull | OvRecv | OvSend | OvOther

definition OnIOCompleted ::
  "env \<Rightarrow> (trace \<Rightarrow> int) \<Rightarrow> 'b IBuffer \<Rightarrow> ('b, 'z) IOSession_scheme session_callbacks \<Rightarrow>
   bool \<Rightarrow> nat \<Rightarrow> overlapped_ptr \<Rightarrow> ('b, 'z) IOSession_scheme \<Rightarrow>
   ('b, 'z) IOSession_scheme option" where
  "OnIOCompleted env clock ops cb bSuccess bytesTransferred pOverlapped s =
     (if pOverlapped = OvNull then Some s
      else
        map_option (IoCompletionGuard_dtor ops (cb_OnDisconnected cb))
          (if pOverlapped = OvRecv then
             HandleRecvCompletion env clock ops cb bSuccess bytesTransferred s
           else if pOverlapped = OvSend then
             Some (HandleSendCompletion env ops cb bSuccess bytesTransferred s)
           else Some s))"

text \<open>What the kernel did before it queued a receive completion: it filled the spans of the
  posted \<open>WSABUF\<close>s with the bytes that arrived.\<close>

definition kernel_recv ::
  "'b IBuffer \<Rightarrow> byte list \<Rightarrow> ('b, 'z) IOSession_scheme \<Rightarrow> ('b, 'z) IOSession_scheme" where
  "kernel_recv ops data s =
     s\<lparr>s_pReceiveBuffer :=
        map_option (buf_store ops (o_WSABufs (s_RecvOverlapped s)) data) (s_pReceiveBuffer s)\<rparr>"

end
