(* ===== verification/IO_Session_Laws.thy ===== *)
theory IO_Session_Laws
  imports IO_Session
begin

text \<open>
  How an \<open>IOSession\<close> may evolve: the relation \<open>evolves\<close> that every method of the session
  satisfies and the stronger \<open>calm\<close> that the sending and disconnecting methods satisfy, and
  which the locales ask of the hooks of a subclass: \<open>session_core\<close> of \<open>OnDisconnected\<close> (enough for
  the methods a hook may call), \<open>session_client\<close> of all three. Their lemmas show the relation
  for each method, and with it that the notification of a disconnect
  comes exactly once, that nothing is dispatched or posted after it was requested, and that
  the outstanding count is the number of accepted posts that have not completed.
\<close>

section \<open>The relation\<close>

text \<open>Events that must not happen once a disconnect was requested: dispatching to a hook and
  posting I/O on a live handle.\<close>

fun is_active :: "event \<Rightarrow> bool" where
  "is_active (Sys_WSARecv h _) = (h \<noteq> INVALID_SOCKET)"
| "is_active (Sys_WSASend _ _ _) = True"
| "is_active (Cb_OnPacketReceived _) = True"
| "is_active (Cb_OnSent _) = True"
| "is_active _ = False"

text \<open>The change of the number of I/Os in flight, from the answers of the system.\<close>

fun io_delta :: "env \<Rightarrow> trace \<Rightarrow> event \<Rightarrow> int" where
  "io_delta env tr (Sys_WSARecv h ss) = (if env tr (Sys_WSARecv h ss) < 0 then 0 else 1)"
| "io_delta env tr (Sys_WSASend h ss d) = (if env tr (Sys_WSASend h ss d) < 0 then 0 else 1)"
| "io_delta env tr (Sys_ConnectEx h a) = (if env tr (Sys_ConnectEx h a) < 0 then 0 else 1)"
| "io_delta env tr Gh_IoDone = - 1"
| "io_delta env tr _ = 0"

fun in_flight :: "env \<Rightarrow> trace \<Rightarrow> trace \<Rightarrow> int" where
  "in_flight env tr [] = 0"
| "in_flight env tr (e # es) = io_delta env tr e + in_flight env (tr @ [e]) es"

lemma in_flight_append: "in_flight env tr (a @ b) = in_flight env tr a + in_flight env (tr @ a) b"
  by (induction a arbitrary: tr) auto

definition fire_count :: "trace \<Rightarrow> nat" where
  "fire_count tr = length (filter ((=) Cb_OnDisconnected) tr)"

lemma fire_count_simps [simp]:
  "fire_count [] = 0"
  "fire_count (e # tr) = (if e = Cb_OnDisconnected then 1 else 0) + fire_count tr"
  "fire_count (a @ b) = fire_count a + fire_count b"
  by (auto simp: fire_count_def)

definition packets_of :: "trace \<Rightarrow> Packet list" where
  "packets_of tr = List.map_filter (\<lambda>e. case e of Cb_OnPacketReceived p \<Rightarrow> Some p | _ \<Rightarrow> None) tr"

lemma packets_of_Nil [simp]: "packets_of [] = []"
  by (simp add: packets_of_def List.map_filter_def)

lemma packets_of_append [simp]: "packets_of (a @ b) = packets_of a @ packets_of b"
  by (simp add: packets_of_def List.map_filter_def)

lemma packets_of_Cons [simp]:
  "packets_of (e # tr) = (case e of Cb_OnPacketReceived p \<Rightarrow> [p] | _ \<Rightarrow> []) @ packets_of tr"
  by (simp add: packets_of_def List.map_filter_def split: event.splits)

definition sess_ok :: "('b \<Rightarrow> bool) \<Rightarrow> ('b, 'z) IOSession_scheme \<Rightarrow> bool" where
  "sess_ok I s \<longleftrightarrow> pred_option I (s_pReceiveBuffer s) \<and> pred_option I (s_pSendBuffer s) \<and>
     (s_DisconnectRequested s \<longrightarrow> pred_option (\<lambda>sk. m_Socket sk = INVALID_SOCKET) (s_pSocket s))"

text \<open>Once the disconnect is requested and no I/O is in flight, the hook has been called.\<close>

definition notified :: "('b, 'z) IOSession_scheme \<Rightarrow> bool" where
  "notified s \<longleftrightarrow> 0 \<le> s_OutstandingIoCount s \<and>
     (s_DisconnectRequested s \<and> s_OutstandingIoCount s = 0 \<longrightarrow> s_OnDisconnectedFired s)"

definition fire_flag :: "('b, 'z) IOSession_scheme \<Rightarrow> nat" where
  "fire_flag s = (if s_OnDisconnectedFired s then 1 else 0)"

text \<open>\<open>grows R\<close>: the trace is extended by events that satisfy the accounting and \<open>R\<close>.\<close>

definition grows ::
  "env \<Rightarrow> (trace \<Rightarrow> bool) \<Rightarrow> ('b, 'z) IOSession_scheme \<Rightarrow> ('b, 'z) IOSession_scheme \<Rightarrow> bool" where
  "grows env R s s' \<longleftrightarrow> (\<exists>new. s_Trace s' = s_Trace s @ new \<and> R new \<and>
     fire_count new + fire_flag s = fire_flag s' \<and>
     s_OutstandingIoCount s' = s_OutstandingIoCount s + in_flight env (s_Trace s) new)"

definition evolves ::
  "env \<Rightarrow> ('b \<Rightarrow> bool) \<Rightarrow> ('b, 'z) IOSession_scheme \<Rightarrow> ('b, 'z) IOSession_scheme \<Rightarrow> bool" where
  "evolves env I s s' \<longleftrightarrow>
     grows env (\<lambda>new. s_DisconnectRequested s \<and> sess_ok I s \<longrightarrow> \<not> list_ex is_active new) s s' \<and>
     (s_DisconnectRequested s \<longrightarrow> s_DisconnectRequested s') \<and>
     (s_OnDisconnectedFired s' \<longrightarrow> s_OnDisconnectedFired s \<or> s_DisconnectRequested s') \<and>
     s_OutstandingIoCount s \<le> s_OutstandingIoCount s' \<and>
     (sess_ok I s \<longrightarrow> sess_ok I s') \<and> (notified s \<longrightarrow> notified s')"

text \<open>The statistics of a session and its id.\<close>

definition counters :: "('b, 'z) IOSession_scheme \<Rightarrow> u64 \<times> u64 \<times> int \<times> u64" where
  "counters s = (s_TotalRxBytes s, s_TotalTxBytes s, s_LastRecvTimeMs s, s_SessionId s)"

text \<open>A calm step also leaves the receive buffer alone while the session is alive, does not
  touch the statistics and dispatches no packet.\<close>

definition calm ::
  "env \<Rightarrow> ('b \<Rightarrow> bool) \<Rightarrow> ('b, 'z) IOSession_scheme \<Rightarrow> ('b, 'z) IOSession_scheme \<Rightarrow> bool" where
  "calm env I s s' \<longleftrightarrow> evolves env I s s' \<and>
     (\<not> s_DisconnectRequested s' \<longrightarrow> s_pReceiveBuffer s' = s_pReceiveBuffer s) \<and>
     counters s' = counters s \<and>
     (\<exists>new. s_Trace s' = s_Trace s @ new \<and> packets_of new = [])"

lemma evolves_refl [simp]: "evolves env I s s"
  by (auto simp: evolves_def grows_def intro: exI[of _ "[]"])

lemma calm_refl [simp]: "calm env I s s"
  by (auto simp: calm_def intro: exI[of _ "[]"])

lemma calm_evolves: "calm env I s s' \<Longrightarrow> evolves env I s s'"
  by (simp add: calm_def)

lemma grows_trans:
  assumes "grows env R1 s s'" "grows env R2 s' s''" "\<And>a b. R1 a \<Longrightarrow> R2 b \<Longrightarrow> R3 (a @ b)"
  shows "grows env R3 s s''"
proof -
  obtain a where a: "s_Trace s' = s_Trace s @ a" "R1 a" "fire_count a + fire_flag s = fire_flag s'"
    "s_OutstandingIoCount s' = s_OutstandingIoCount s + in_flight env (s_Trace s) a"
    using assms(1) by (auto simp: grows_def)
  obtain b where b: "s_Trace s'' = s_Trace s' @ b" "R2 b" "fire_count b + fire_flag s' = fire_flag s''"
    "s_OutstandingIoCount s'' = s_OutstandingIoCount s' + in_flight env (s_Trace s') b"
    using assms(2) by (auto simp: grows_def)
  show ?thesis
    unfolding grows_def
    using a b assms(3) by (intro exI[of _ "a @ b"]) (auto simp: in_flight_append)
qed

lemma evolves_disc: "evolves env I s s' \<Longrightarrow> s_DisconnectRequested s \<Longrightarrow> s_DisconnectRequested s'"
  by (simp add: evolves_def)

lemma calm_disc: "calm env I s s' \<Longrightarrow> s_DisconnectRequested s \<Longrightarrow> s_DisconnectRequested s'"
  by (simp add: calm_def evolves_def)

lemma evolves_trans [trans]:
  assumes "evolves env I s s'" "evolves env I s' s''"
  shows "evolves env I s s''"
proof -
  have mono: "s_DisconnectRequested s \<Longrightarrow> s_DisconnectRequested s'" "sess_ok I s \<Longrightarrow> sess_ok I s'"
    "s_DisconnectRequested s' \<Longrightarrow> s_DisconnectRequested s''" "sess_ok I s' \<Longrightarrow> sess_ok I s''"
    using assms by (simp_all add: evolves_def)
  have "grows env (\<lambda>new. s_DisconnectRequested s \<and> sess_ok I s \<longrightarrow> \<not> list_ex is_active new) s s''"
  proof (rule grows_trans)
    show "grows env (\<lambda>new. s_DisconnectRequested s \<and> sess_ok I s \<longrightarrow> \<not> list_ex is_active new) s s'"
      using assms(1) by (simp add: evolves_def)
    show "grows env (\<lambda>new. s_DisconnectRequested s' \<and> sess_ok I s' \<longrightarrow> \<not> list_ex is_active new) s' s''"
      using assms(2) by (simp add: evolves_def)
  qed (use mono in simp)
  moreover have "s_OutstandingIoCount s \<le> s_OutstandingIoCount s''" "notified s \<Longrightarrow> notified s''"
    "s_OnDisconnectedFired s'' \<Longrightarrow> s_OnDisconnectedFired s \<or> s_DisconnectRequested s''"
    using assms mono(3) by (auto simp: evolves_def)
  ultimately show ?thesis
    unfolding evolves_def using mono by blast
qed

lemma calm_trans [trans]:
  assumes "calm env I s s'" "calm env I s' s''"
  shows "calm env I s s''"
proof -
  have "evolves env I s s''"
    by (rule evolves_trans[of env I s s']) (use assms in \<open>simp_all add: calm_def\<close>)
  then show ?thesis
    using assms calm_disc[OF assms(2)] unfolding calm_def by force
qed

lemma calm_evolves_trans [trans]:
  "calm env I s s' \<Longrightarrow> evolves env I s' s'' \<Longrightarrow> evolves env I s s''"
  "evolves env I s s' \<Longrightarrow> calm env I s' s'' \<Longrightarrow> evolves env I s s''"
  by (auto dest: calm_evolves intro: evolves_trans)

text \<open>A step that touches none of the members the relation is about.\<close>

lemma calm_same:
  assumes "s_Trace s' = s_Trace s" "s_DisconnectRequested s' = s_DisconnectRequested s"
    "s_OnDisconnectedFired s' = s_OnDisconnectedFired s"
    "s_OutstandingIoCount s' = s_OutstandingIoCount s"
    "s_pReceiveBuffer s' = s_pReceiveBuffer s" "counters s' = counters s"
    "s_pSocket s' = s_pSocket s"
    "pred_option I (s_pSendBuffer s) \<Longrightarrow> pred_option I (s_pSendBuffer s')"
  shows "calm env I s s'"
  using assms
  by (auto simp: calm_def evolves_def grows_def sess_ok_def notified_def fire_flag_def)

lemma evolves_same:
  assumes "s_Trace s' = s_Trace s" "s_DisconnectRequested s' = s_DisconnectRequested s"
    "s_OnDisconnectedFired s' = s_OnDisconnectedFired s"
    "s_OutstandingIoCount s' = s_OutstandingIoCount s"
    "s_pSocket s' = s_pSocket s"
    "pred_option I (s_pReceiveBuffer s) \<Longrightarrow> pred_option I (s_pReceiveBuffer s')"
    "pred_option I (s_pSendBuffer s) \<Longrightarrow> pred_option I (s_pSendBuffer s')"
  shows "evolves env I s s'"
  using assms
  by (auto simp: evolves_def grows_def sess_ok_def notified_def fire_flag_def)

section \<open>The methods\<close>

locale session_core = byte_queue ops contents cap inv
  for ops :: "'b IBuffer" and contents and cap and inv +
  fixes env :: env
    and onDisc :: "('b, 'z) IOSession_scheme \<Rightarrow> ('b, 'z) IOSession_scheme"
  assumes disc_calm: "sess_ok inv s \<Longrightarrow> calm env inv s (onDisc s)"
begin

lemma pred_option_clear: "pred_option inv b \<Longrightarrow> pred_option inv (map_option (vClear ops) b)"
  using clear by (cases b) auto

lemma TryFire_calm:
  assumes "s_DisconnectRequested s" "sess_ok inv s"
  shows "calm env inv s (TryFireOnDisconnected ops onDisc s)"
    and "s_OnDisconnectedFired (TryFireOnDisconnected ops onDisc s)"
proof -
  let ?s = "s\<lparr>s_OnDisconnectedFired := True,
      s_pReceiveBuffer := map_option (vClear ops) (s_pReceiveBuffer s),
      s_pSendBuffer := map_option (vClear ops) (s_pSendBuffer s),
      s_Trace := s_Trace s @ [Cb_OnDisconnected]\<rparr>"
  have eq: "TryFireOnDisconnected ops onDisc s = (if s_OnDisconnectedFired s then s else onDisc ?s)"
    by (simp add: TryFireOnDisconnected_def Let_def)
  have "calm env inv s ?s" if "\<not> s_OnDisconnectedFired s"
    using assms that pred_option_clear
    by (auto simp: counters_def calm_def evolves_def grows_def sess_ok_def notified_def fire_flag_def)
  moreover have ok: "sess_ok inv ?s"
    using assms pred_option_clear by (auto simp: sess_ok_def)
  ultimately show "calm env inv s (TryFireOnDisconnected ops onDisc s)"
    using disc_calm[of ?s] by (auto simp: eq intro: calm_trans)
  have "s_OnDisconnectedFired (onDisc ?s)"
    using disc_calm[OF ok] by (auto simp: calm_def evolves_def grows_def fire_flag_def split: if_splits)
  then show "s_OnDisconnectedFired (TryFireOnDisconnected ops onDisc s)"
    by (simp add: eq)
qed

lemma close_socket_fields [simp]:
  "s_DisconnectRequested (close_socket s) = s_DisconnectRequested s"
  "s_OnDisconnectedFired (close_socket s) = s_OnDisconnectedFired s"
  "s_OutstandingIoCount (close_socket s) = s_OutstandingIoCount s"
  "s_pReceiveBuffer (close_socket s) = s_pReceiveBuffer s"
  "s_pSendBuffer (close_socket s) = s_pSendBuffer s"
  "s_TotalRxBytes (close_socket s) = s_TotalRxBytes s"
  "s_TotalTxBytes (close_socket s) = s_TotalTxBytes s"
  "s_LastRecvTimeMs (close_socket s) = s_LastRecvTimeMs s"
  "s_SessionId (close_socket s) = s_SessionId s"
  by (auto simp: close_socket_def split: option.splits prod.splits)

lemma close_socket_closed:
  "pred_option (\<lambda>sk. m_Socket sk = INVALID_SOCKET) (s_pSocket (close_socket s))"
  by (auto simp: close_socket_def split: option.splits prod.splits) (metis Socket_Close_invalid fst_conv)

lemma close_socket_trace:
  "\<exists>new. s_Trace (close_socket s) = s_Trace s @ new \<and> list_all (\<lambda>e. \<not> is_active e) new \<and>
     fire_count new = 0 \<and> packets_of new = [] \<and> in_flight env tr new = 0"
proof (cases "s_pSocket s")
  case (Some sk)
  then show ?thesis
    using Shutdown_Close_trace[of SD_BOTH sk "s_Trace s"]
    by (auto simp: close_socket_def split: option.splits prod.splits)
qed (simp add: close_socket_def)

text \<open>The first pass of \<open>RequestDisconnect\<close> up to the test of the outstanding count.\<close>

lemma first_pass:
  assumes "\<not> s_DisconnectRequested s" "sess_ok inv s"
  defines "s1 \<equiv> (close_socket (s\<lparr>s_DisconnectRequested := True\<rparr>))
                  \<lparr>s_RecvInProgress := False, s_SendInProgress := False\<rparr>"
  shows "s_DisconnectRequested s1" "s_OutstandingIoCount s1 = s_OutstandingIoCount s" "sess_ok inv s1"
    and "s_OutstandingIoCount s \<noteq> 0 \<Longrightarrow> calm env inv s s1"
    and "calm env inv s1 t \<Longrightarrow> s_OnDisconnectedFired t \<Longrightarrow> calm env inv s t"
proof -
  let ?d = "s\<lparr>s_DisconnectRequested := True\<rparr>"
  obtain new where new: "s_Trace (close_socket ?d) = s_Trace s @ new" "list_all (\<lambda>e. \<not> is_active e) new"
    "fire_count new = 0" "packets_of new = []" "in_flight env (s_Trace s) new = 0"
    using close_socket_trace[of ?d "s_Trace s"] by auto
  show d: "s_DisconnectRequested s1" "s_OutstandingIoCount s1 = s_OutstandingIoCount s"
    by (auto simp: s1_def)
  show ok: "sess_ok inv s1"
    using close_socket_closed[of ?d] assms(2) by (auto simp: sess_ok_def s1_def)
  have ct: "counters s1 = counters s"
    by (simp add: counters_def s1_def)
  have g: "grows env (\<lambda>new. packets_of new = []) s s1"
    using new by (auto simp: grows_def s1_def fire_flag_def)
  show "s_OutstandingIoCount s \<noteq> 0 \<Longrightarrow> calm env inv s s1"
    using g ok assms(1) new ct
    by (auto simp: calm_def evolves_def grows_def notified_def) (auto simp: s1_def fire_flag_def)
  assume t: "calm env inv s1 t" "s_OnDisconnectedFired t"
  then have mono: "s_DisconnectRequested t" "s_OutstandingIoCount s \<le> s_OutstandingIoCount t"
    using d by (auto simp: calm_def evolves_def)
  obtain a where a: "s_Trace t = s_Trace s1 @ a" "packets_of a = []"
    using t by (auto simp: calm_def)
  have "grows env (\<lambda>_. True) s1 t"
    using t by (auto simp: calm_def evolves_def grows_def)
  then have "grows env (\<lambda>_. True) s t"
    by (rule grows_trans[OF g]) simp
  moreover have "\<exists>new. s_Trace t = s_Trace s @ new \<and> packets_of new = []"
    using a new by (auto simp: s1_def)
  ultimately show "calm env inv s t"
    using t mono ok assms(1) ct
    by (auto simp: calm_def evolves_def notified_def grows_def)
qed

lemma RequestDisconnect_calm:
  assumes "sess_ok inv s"
  shows "calm env inv s (RequestDisconnect ops onDisc reason s)"
    and "s_DisconnectRequested (RequestDisconnect ops onDisc reason s)"
proof -
  let ?s1 = "(close_socket (s\<lparr>s_DisconnectRequested := True\<rparr>))
                  \<lparr>s_RecvInProgress := False, s_SendInProgress := False\<rparr>"
  have *: "calm env inv s (RequestDisconnect ops onDisc reason s) \<and>
    s_DisconnectRequested (RequestDisconnect ops onDisc reason s)"
  proof (cases "s_DisconnectRequested s")
    case True
    then show ?thesis
      using TryFire_calm[OF True assms] calm_disc by (auto simp: RequestDisconnect_def Let_def)
  next
    case False
    note fp = first_pass[OF False assms]
    show ?thesis
    proof (cases "s_OutstandingIoCount s = 0")
      case True
      let ?t = "TryFireOnDisconnected ops onDisc ?s1"
      have t: "calm env inv ?s1 ?t" "s_OnDisconnectedFired ?t"
        using TryFire_calm[OF fp(1,3)] by auto
      then have "s_DisconnectRequested ?t"
        using fp(1) by (auto simp: calm_def evolves_def)
      then show ?thesis
        using False True fp(5)[OF t] by (simp add: RequestDisconnect_def Let_def)
    next
      case nz: False
      then show ?thesis
        using False fp(1,2,4) by (simp add: RequestDisconnect_def Let_def)
    qed
  qed
  show "calm env inv s (RequestDisconnect ops onDisc reason s)"
    "s_DisconnectRequested (RequestDisconnect ops onDisc reason s)" using * by auto
qed

lemma RequestDisconnect0_calm:
  assumes "sess_ok inv s"
  shows "calm env inv s (RequestDisconnect0 ops onDisc s)"
    and "s_DisconnectRequested (RequestDisconnect0 ops onDisc s)"
  using RequestDisconnect_calm[OF assms] by (auto simp: RequestDisconnect0_def)

lemma calm_ok: "calm env inv s s' \<Longrightarrow> sess_ok inv s \<Longrightarrow> sess_ok inv s'"
  by (simp add: calm_def evolves_def)

lemma evolves_ok: "evolves env inv s s' \<Longrightarrow> sess_ok inv s \<Longrightarrow> sess_ok inv s'"
  by (simp add: evolves_def)

lemma calm_then_disconnect:
  assumes "calm env inv s s'" "sess_ok inv s"
  shows "calm env inv s (RequestDisconnect0 ops onDisc s')"
  using calm_trans[OF assms(1) RequestDisconnect0_calm(1)[OF calm_ok[OF assms]]] .

lemma evolves_then_disconnect:
  assumes "evolves env inv s s'" "sess_ok inv s"
  shows "evolves env inv s (RequestDisconnect0 ops onDisc s')"
  using calm_evolves_trans(2)[OF assms(1) RequestDisconnect0_calm(1)[OF evolves_ok[OF assms]]] .

end

text \<open>All hooks of a subclass.\<close>

locale session_client = session_core ops contents cap inv env "cb_OnDisconnected cb"
  for ops :: "'b IBuffer" and contents and cap and inv and env
    and cb :: "('b, 'z) IOSession_scheme session_callbacks" +
  assumes packet_calm: "sess_ok inv s \<Longrightarrow> calm env inv s (cb_OnPacketReceived cb p s)"
    and sent_calm: "sess_ok inv s \<Longrightarrow> calm env inv s (cb_OnSent cb n s)"
begin

abbreviation onDisc where "onDisc \<equiv> cb_OnDisconnected cb"

end

end
