(* ===== verification/IO_Session_Methods.thy ===== *)
theory IO_Session_Methods
  imports IO_Session_Laws
begin

text \<open>
  The methods of \<open>IOSession\<close> one by one: each keeps \<open>evolves\<close> (the ones a hook may call keep
  \<open>calm\<close>), \<open>SendMessage\<close> appends exactly one encoded packet to the send queue, and the framing
  loop returns and dispatches what the byte stream holds.
\<close>

text \<open>A step that records one event.\<close>

lemma evolves_event:
  assumes "s_Trace s' = s_Trace s @ [e]" "s_DisconnectRequested s' = s_DisconnectRequested s"
    "s_OnDisconnectedFired s' = s_OnDisconnectedFired s" "s_pSocket s' = s_pSocket s"
    "s_OutstandingIoCount s' = s_OutstandingIoCount s + io_delta env (s_Trace s) e"
    "e \<noteq> Gh_IoDone" "e \<noteq> Cb_OnDisconnected"
    "is_active e \<Longrightarrow> sess_ok I s \<Longrightarrow> \<not> s_DisconnectRequested s"
    "pred_option I (s_pReceiveBuffer s) \<Longrightarrow> pred_option I (s_pReceiveBuffer s')"
    "pred_option I (s_pSendBuffer s) \<Longrightarrow> pred_option I (s_pSendBuffer s')"
  shows "evolves env I s s'"
proof -
  have "0 \<le> io_delta env (s_Trace s) e"
    using assms(6) by (cases e) auto
  then show ?thesis
    using assms
    by (auto simp: evolves_def grows_def sess_ok_def notified_def fire_flag_def)
qed

lemma calm_event:
  assumes "s_Trace s' = s_Trace s @ [e]" "s_DisconnectRequested s' = s_DisconnectRequested s"
    "s_OnDisconnectedFired s' = s_OnDisconnectedFired s" "s_pSocket s' = s_pSocket s"
    "s_OutstandingIoCount s' = s_OutstandingIoCount s + io_delta env (s_Trace s) e"
    "e \<noteq> Gh_IoDone" "e \<noteq> Cb_OnDisconnected" "packets_of [e] = []"
    "is_active e \<Longrightarrow> sess_ok I s \<Longrightarrow> \<not> s_DisconnectRequested s"
    "s_pReceiveBuffer s' = s_pReceiveBuffer s" "counters s' = counters s"
    "pred_option I (s_pSendBuffer s) \<Longrightarrow> pred_option I (s_pSendBuffer s')"
  shows "calm env I s s'"
  using evolves_event[OF assms(1-7)] assms by (simp add: calm_def)

context session_core
begin

section \<open>Sending\<close>

lemma TryPost_calm: "calm env inv s (snd (TryPostSendFromQueue env ops s))"
proof (cases "s_DisconnectRequested s \<or> s_SendInProgress s")
  case True
  then show ?thesis by (auto simp: TryPostSendFromQueue_def)
next
  case False
  show ?thesis
  proof (cases "s_pSendBuffer s")
    case None
    then show ?thesis
      using False by (auto simp: TryPostSendFromQueue_def Let_def simp: counters_def intro!: calm_same)
  next
    case (Some sb)
    obtain n ss where rb: "vGetReadBuffers ops sb = (n, ss)"
      by (cases "vGetReadBuffers ops sb")
    show ?thesis
    proof (cases "n = 0 \<or> s_pSocket s = None")
      case True
      then show ?thesis
        using False Some rb
        by (auto simp: TryPostSendFromQueue_def Let_def PrepareSendBuffers_def simp: counters_def intro!: calm_same)
    next
      case post: False
      then obtain sk where "s_pSocket s = Some sk" by auto
      then show ?thesis
        using False Some rb post
        by (auto simp: TryPostSendFromQueue_def Let_def PrepareSendBuffers_def syscall_def
            AddOutstandingIo_def UndoOutstandingOnFailure_def counters_def
            intro!: calm_event[where e = "Sys_WSASend (m_Socket sk) ss (buf_load ops ss sb)"])
    qed
  qed
qed

lemma SendBuffer_calm:
  assumes "sess_ok inv s"
  shows "calm env inv s (SendBuffer env ops data s)"
proof (cases "s_pSendBuffer s")
  case (Some sb)
  have "calm env inv s (s\<lparr>s_pSendBuffer := Some (snd (vWrite ops data sb))\<rparr>)"
    using Some write_contents(2) by (auto simp: counters_def intro!: calm_same)
  then show ?thesis
    using Some calm_trans[OF _ TryPost_calm]
    by (auto simp: SendBuffer_def split_beta Let_def)
qed (simp add: SendBuffer_def)

text \<open>The spans are filled with the encoded packet.\<close>

lemma write_message_scatter:
  assumes "spans_within (length mem) ss" "spans_size ss = length body + 4"
  shows "write_message ss packetId body mem = scatter ss (encode packetId body) mem"
proof -
  let ?hd = "u16_be (of_nat (length body + 4))" and ?id = "u16_be packetId"
  obtain i1 o1 m1 where w1: "WriteToBuffers ss 0 0 ?hd mem = (i1, o1, m1)"
    by (metis prod_cases3)
  note r1 = WriteToBuffers_step[of mem ss 0 0 ?hd, OF _ _ _ w1, simplified]
  obtain i2 o2 m2 where w2: "WriteToBuffers ss i1 o1 ?id m1 = (i2, o2, m2)"
    by (metis prod_cases3)
  have p1: "spans_within (length m1) (spans_from ss i1 o1)"
    "spans_size (spans_from ss i1 o1) = length body + 2" "i1 < length ss \<Longrightarrow> o1 \<le> snd (ss ! i1)"
    using r1(2-4) assms by auto
  note r2 = WriteToBuffers_step[OF p1(1) _ p1(3) w2, simplified]
  have p2: "spans_within (length m2) (spans_from ss i2 o2)"
    "spans_size (spans_from ss i2 o2) = length body" "i2 < length ss \<Longrightarrow> o2 \<le> snd (ss ! i2)"
    using r2(2-4) p1(2) by auto
  have all: "scatter ss (encode packetId body) mem = scatter (spans_from ss i2 o2) body m2"
    using r1(1)[of "?id @ body"] r2(1)[of body] assms p1(2) by (simp add: encode_eq)
  have body: "(if length body > 0 then
           if i2 < length ss \<and> snd (ss ! i2) - o2 \<ge> length body
           then memcpy_at (fst (ss ! i2) + o2) body m2
           else (let (i3, o3, m3) = WriteToBuffers ss i2 o2 body m2 in m3)
         else m2) = scatter (spans_from ss i2 o2) body m2"
  proof (cases "length body > 0 \<and> i2 < length ss \<and> snd (ss ! i2) - o2 \<ge> length body")
    case True
    have "length (memcpy_at (fst (ss ! i2) + o2) body m2) = length m2"
      using True p2(1) by (intro length_memcpy_at) (auto simp: spans_from_Cons)
    then show ?thesis
      using True p2(1) by (auto simp: spans_from_Cons)
  next
    case False
    then show ?thesis
      using p2 WriteToBuffers_scatter[OF p2(1) _ p2(3), of body]
      by (auto simp: Let_def split: prod.splits)
  qed
  show ?thesis
    unfolding write_message_def using w1 w2 body all by (simp add: add.commute)
qed

lemma alloc_message:
  fixes packetId :: u16
  assumes "inv sb" "vAllocateWrite ops (length body + 4) sb = (Some ss, sb')"
  defines "sb'' \<equiv> vSetMem ops (write_message ss packetId body (vMem ops sb')) sb'"
  shows "inv sb''" "contents sb'' = contents sb @ encode packetId body" "cap sb'' = cap sb"
proof -
  have fits: "length (contents sb) + (length body + 4) \<le> cap sb"
    using alloc_full[OF assms(1), of "length body + 4"] assms(2) by fastforce
  have ss: "spans_size ss = length body + 4" "spans_within (length (vMem ops sb')) ss"
    "\<And>d. length d = length body + 4 \<Longrightarrow> inv (buf_store ops ss d sb') \<and>
       cap (buf_store ops ss d sb') = cap sb \<and> contents (buf_store ops ss d sb') = contents sb @ d"
    using alloc_ok[OF assms(1) fits] assms(2) by auto
  have "sb'' = buf_store ops ss (encode packetId body) sb'"
    by (simp add: sb''_def buf_store_def write_message_scatter[OF ss(2,1)])
  then show "inv sb''" "contents sb'' = contents sb @ encode packetId body" "cap sb'' = cap sb"
    using ss(3)[of "encode packetId body"] by auto
qed

lemma SendMessage_calm:
  assumes "sess_ok inv s"
  shows "calm env inv s (SendMessage env ops onDisc packetId body s)"
proof (cases "s_DisconnectRequested s \<or> s_pSendBuffer s = None")
  case True
  then show ?thesis by (auto simp: SendMessage_def Let_def)
next
  case False
  then obtain sb where sb: "s_pSendBuffer s = Some sb" "inv sb"
    using assms by (auto simp: sess_ok_def)
  obtain r sb' where a: "vAllocateWrite ops (length body + 4) sb = (r, sb')"
    by (cases "vAllocateWrite ops (length body + 4) sb")
  show ?thesis
  proof (cases r)
    case None
    have "sb' = sb"
      using a None alloc_ok[OF sb(2), of "length body + 4"] alloc_full[OF sb(2), of "length body + 4"]
      by (cases "length (contents sb) + (length body + 4) \<le> cap sb") auto
    then have "SendMessage env ops onDisc packetId body s = RequestDisconnect0 ops onDisc s"
      using False sb a None by (cases s) (auto simp: SendMessage_def Let_def add.commute)
    then show ?thesis using RequestDisconnect0_calm(1)[OF assms] by simp
  next
    case (Some ss)
    let ?sb = "vSetMem ops (write_message ss packetId body (vMem ops sb')) sb'"
    have "inv ?sb"
      using alloc_message(1)[OF sb(2) a[unfolded Some]] .
    then have "calm env inv s (s\<lparr>s_pSendBuffer := Some ?sb\<rparr>)"
      by (auto simp: counters_def intro!: calm_same)
    then show ?thesis
      using False sb a Some calm_trans[OF _ TryPost_calm]
      by (auto simp: SendMessage_def Let_def add.commute)
  qed
qed

section \<open>Receiving\<close>

lemma Prepare_calm:
  assumes "sess_ok inv s"
  shows "calm env inv s (snd (PrepareRecvBuffers ops onDisc zero s))"
proof -
  have "calm env inv s (s\<lparr>s_RecvOverlapped := ov\<rparr>)" for ov
    by (rule calm_same) (auto simp: counters_def)
  then show ?thesis
    using calm_then_disconnect[OF _ assms]
    by (auto simp: PrepareRecvBuffers_def Let_def split: option.splits prod.splits)
qed

lemma RequestRecv_calm:
  assumes "sess_ok inv s"
  shows "calm env inv s (snd (RequestRecv env ops onDisc zero s))"
proof -
  obtain ok s1 where p: "PrepareRecvBuffers ops onDisc zero s = (ok, s1)"
    by (cases "PrepareRecvBuffers ops onDisc zero s")
  have c: "calm env inv s s1" "sess_ok inv s1"
    using Prepare_calm[OF assms, of zero] p calm_ok[OF _ assms] by auto
  show ?thesis
  proof (cases "ok \<and> s_pSocket s1 \<noteq> None")
    case True
    then obtain sk where sk: "s_pSocket s1 = Some sk" by auto
    have "calm env inv s1 (snd (RequestRecv env ops onDisc zero s))"
      using p True sk c(2)
      by (auto simp: RequestRecv_def syscall_def AddOutstandingIo_def UndoOutstandingOnFailure_def
          Let_def sess_ok_def counters_def
          intro!: calm_event[where e = "Sys_WSARecv (m_Socket sk) (o_WSABufs (s_RecvOverlapped s1))"])
    then show ?thesis using c(1) calm_trans by blast
  next
    case False
    then show ?thesis using p c by (auto simp: RequestRecv_def split: bool.splits option.splits)
  qed
qed

lemma calm_flags:
  "calm env inv s (s\<lparr>s_RecvInProgress := a\<rparr>)"
  "calm env inv s (s\<lparr>s_SendInProgress := a\<rparr>)"
  "calm env inv s (s\<lparr>s_ReceiveLoopStarted := a\<rparr>)"
  by (rule calm_same; simp add: counters_def)+

lemma recv_or_disconnect_calm:
  assumes "sess_ok inv s"
  shows "calm env inv s
    (let (ok, s1) = RequestRecv env ops onDisc zero s in
     if \<not> ok then RequestDisconnect0 ops onDisc (s1\<lparr>s_RecvInProgress := False\<rparr>) else s1)"
proof -
  have c: "calm env inv s (snd (RequestRecv env ops onDisc zero s))"
    by (rule RequestRecv_calm[OF assms])
  from calm_trans[OF c calm_flags(1)[of _ False]] show ?thesis
    using c calm_then_disconnect[OF _ assms] by (auto simp: split_beta Let_def)
qed

lemma RequestReceived_calm:
  assumes "sess_ok inv s"
  shows "calm env inv s (RequestReceived env ops onDisc s)"
proof -
  have "calm env inv s (s\<lparr>s_RecvInProgress := True\<rparr>)" by (rule calm_flags)
  from calm_trans[OF this recv_or_disconnect_calm[OF calm_ok[OF this assms]]]
  show ?thesis by (simp add: RequestReceived_def)
qed

lemma StartReceiveLoop_calm:
  assumes "sess_ok inv s"
  shows "calm env inv s (StartReceiveLoop env ops onDisc s)"
proof -
  have "calm env inv s (s\<lparr>s_ReceiveLoopStarted := True\<rparr>)" by (rule calm_flags)
  from calm_trans[OF this RequestReceived_calm[OF calm_ok[OF this assms]]]
  show ?thesis by (simp add: StartReceiveLoop_def)
qed

end

section \<open>The framing loop\<close>

context session_client
begin

text \<open>What one run of the loop guarantees on a receive buffer that holds \<open>xs\<close>: the packets
  dispatched are a prefix of the packets of the stream, all of them unless a disconnect was
  requested on the way, and a corrupt stream is always answered by a disconnect.\<close>

definition drained where
  "drained xs s s' \<longleftrightarrow> evolves env inv s s' \<and> counters s' = counters s \<and>
     (\<exists>new. s_Trace s' = s_Trace s @ new \<and>
        (\<exists>more. fst (deframe_all xs) = packets_of new @ more) \<and>
        (\<not> s_DisconnectRequested s' \<longrightarrow> packets_of new = fst (deframe_all xs) \<and>
           \<not> snd (snd (deframe_all xs)) \<and>
           (\<exists>rb. s_pReceiveBuffer s' = Some rb \<and> contents rb = fst (snd (deframe_all xs)))))"

lemma drained_stop:
  assumes "calm env inv s s'" "s_DisconnectRequested s'"
  shows "drained xs s s'"
  using assms by (auto simp: drained_def calm_def)

lemma recv_update_evolves:
  "inv rb \<Longrightarrow> evolves env inv s (s\<lparr>s_pReceiveBuffer := Some rb\<rparr>)"
  by (rule evolves_same) auto

lemma drained_step:
  assumes "evolves env inv s s2" "counters s2 = counters s"
    and "s_Trace s2 = s_Trace s @ Cb_OnPacketReceived p # new" "packets_of new = []"
    and "deframe_all xs = (p # fst (deframe_all r), snd (deframe_all r))"
    and "drained r s2 s'"
  shows "drained xs s s'"
proof -
  obtain new' more where n: "s_Trace s' = s_Trace s2 @ new'" "fst (deframe_all r) = packets_of new' @ more"
    "\<not> s_DisconnectRequested s' \<Longrightarrow> packets_of new' = fst (deframe_all r) \<and> \<not> snd (snd (deframe_all r)) \<and>
      (\<exists>rb. s_pReceiveBuffer s' = Some rb \<and> contents rb = fst (snd (deframe_all r)))"
    "evolves env inv s2 s'" "counters s' = counters s2"
    using assms(6) unfolding drained_def by blast
  have "evolves env inv s s'" by (rule evolves_trans[OF assms(1) n(4)])
  then show ?thesis
    unfolding drained_def using n assms(2-5)
    by (intro conjI exI[of _ "Cb_OnPacketReceived p # new @ new'"]) auto
qed

lemma ReadReceivedBuffers_drains:
  assumes "sess_ok inv s" "s_pReceiveBuffer s = Some rb" "length (contents rb) < fuel"
  shows "\<exists>s'. ReadReceivedBuffers fuel ops cb s = Some s' \<and> drained (contents rb) s s'"
  using assms
proof (induction fuel arbitrary: s rb)
  case (Suc fuel)
  have inv: "inv rb" using Suc.prems by (auto simp: sess_ok_def)
  show ?case
  proof (cases "s_DisconnectRequested s")
    case True
    then show ?thesis using Suc.prems by (auto intro!: drained_stop)
  next
    case alive: False
    have same: "s\<lparr>s_pReceiveBuffer := Some rb\<rparr> = s" using Suc.prems(2) by (cases s) auto
    show ?thesis
    proof (cases "deframe (contents rb)")
      case Stuck
      then have "ReadReceivedBuffers (Suc fuel) ops cb s = Some s"
        using alive Suc.prems(2) framer_short[OF inv] by (simp add: Let_def)
      then show ?thesis
        using Stuck Suc.prems(2) by (auto simp: drained_def deframe_all.simps[of "contents rb"])
    next
      case Corrupt
      then have "ReadReceivedBuffers (Suc fuel) ops cb s = Some (RequestDisconnect0 ops onDisc s)"
        using alive Suc.prems(2) framer_corrupt[OF inv] by (simp add: Let_def) (simp only: same)
      then show ?thesis
        using RequestDisconnect0_calm[OF Suc.prems(1)] by (auto intro: drained_stop)
    next
      case (Framed p r)
      obtain rb' where rb': "TryFrameFromBuffer ops rb = (\<lparr>frame_Result = FrameOk, frame_PacketOpt = Some p\<rparr>, rb')"
        "inv rb'" "contents rb' = r"
        using framer_ok[OF inv Framed] by auto
      let ?s1 = "s\<lparr>s_pReceiveBuffer := Some rb', s_Trace := s_Trace s @ [Cb_OnPacketReceived p]\<rparr>"
      let ?s2 = "cb_OnPacketReceived cb p ?s1"
      have step: "ReadReceivedBuffers (Suc fuel) ops cb s = ReadReceivedBuffers fuel ops cb ?s2"
        using alive Suc.prems(2) rb' by (simp add: Let_def)
      have e1: "evolves env inv s ?s1"
        using alive rb'(2) by (auto intro!: evolves_event[where e = "Cb_OnPacketReceived p"])
      have ok1: "sess_ok inv ?s1" using evolves_ok[OF e1 Suc.prems(1)] .
      have c2: "calm env inv ?s1 ?s2" by (rule packet_calm[OF ok1])
      have e2: "evolves env inv s ?s2" using e1 calm_evolves[OF c2] by (rule evolves_trans)
      have ok2: "sess_ok inv ?s2" using calm_ok[OF c2 ok1] .
      have ct: "counters ?s2 = counters s"
        using c2 by (simp add: calm_def counters_def)
      obtain new where new: "s_Trace ?s2 = s_Trace s @ Cb_OnPacketReceived p # new" "packets_of new = []"
        using c2 by (auto simp: calm_def)
      have all: "deframe_all (contents rb) = (p # fst (deframe_all r), snd (deframe_all r))"
        by (simp add: deframe_all.simps[of "contents rb"] Framed split_beta)
      have fuel: "length r < fuel" using deframe_Framed_length[OF Framed] Suc.prems(3) by simp
      show ?thesis
      proof (cases "s_DisconnectRequested ?s2")
        case True
        have "ReadReceivedBuffers fuel ops cb ?s2 = Some ?s2"
          using True fuel by (cases fuel) (auto split: option.splits)
        then show ?thesis
          using step e2 ct new True all by (auto simp: drained_def)
      next
        case False
        then have "s_pReceiveBuffer ?s2 = Some rb'"
          using c2 by (auto simp: calm_def)
        from Suc.IH[OF ok2 this] fuel rb'(3) obtain s' where
          s': "ReadReceivedBuffers fuel ops cb ?s2 = Some s'" "drained r ?s2 s'" by auto
        have "drained (contents rb) s s'"
          using drained_step[OF e2 ct new all s'(2)] .
        then show ?thesis using step s'(1) by auto
      qed
    qed
  qed
qed simp

lemma read_fuel_enough:
  assumes "sess_ok inv s" "s_pReceiveBuffer s = Some rb"
  shows "\<exists>s'. ReadReceivedBuffers (read_fuel ops s) ops cb s = Some s' \<and> drained (contents rb) s s'"
  using assms ReadReceivedBuffers_drains[OF assms, of "read_fuel ops s"]
  by (auto simp: read_fuel_def can_read sess_ok_def)

end

end
