(* ===== verification/IO_Session_Runs.thy ===== *)
theory IO_Session_Runs
  imports IO_Session_Methods
begin

text \<open>
  Completion handling of \<open>IOSession\<close> and whole runs of a session: any sequence of calls of
  its methods and of I/O completions, each completion for an I/O that is in flight. The
  invariant of the runs gives the life-cycle properties of the session.
\<close>

text \<open>The invariant of a session between two calls.\<close>

definition session_inv :: "env \<Rightarrow> ('b \<Rightarrow> bool) \<Rightarrow> ('b, 'z) IOSession_scheme \<Rightarrow> bool" where
  "session_inv env I s \<longleftrightarrow> sess_ok I s \<and> notified s \<and>
     fire_count (s_Trace s) = fire_flag s \<and>
     (s_OnDisconnectedFired s \<longrightarrow> s_DisconnectRequested s) \<and>
     s_OutstandingIoCount s = in_flight env [] (s_Trace s)"

lemma grows_accounting:
  assumes "grows env R s s'" "fire_count (s_Trace s) = fire_flag s"
    "s_OutstandingIoCount s = in_flight env [] (s_Trace s)"
  shows "fire_count (s_Trace s') = fire_flag s'"
    "s_OutstandingIoCount s' = in_flight env [] (s_Trace s')"
  using assms by (auto simp: grows_def in_flight_append)

lemma session_inv_evolves:
  assumes "session_inv env I s" "evolves env I s s'"
  shows "session_inv env I s'"
proof -
  have "grows env (\<lambda>new. s_DisconnectRequested s \<and> sess_ok I s \<longrightarrow> \<not> list_ex is_active new) s s'"
    using assms(2) by (simp add: evolves_def)
  from grows_accounting[OF this] show ?thesis
    using assms by (auto simp: session_inv_def evolves_def)
qed

text \<open>A step of a session that is over adds no active event.\<close>

definition silent_after :: "('b, 'z) IOSession_scheme \<Rightarrow> ('b, 'z) IOSession_scheme \<Rightarrow> bool" where
  "silent_after s s' \<longleftrightarrow> s_DisconnectRequested s \<longrightarrow> s_DisconnectRequested s' \<and>
     (\<exists>new. s_Trace s' = s_Trace s @ new \<and> \<not> list_ex is_active new)"

lemma evolves_silent:
  "evolves env I s s' \<Longrightarrow> sess_ok I s \<Longrightarrow> silent_after s s'"
  by (auto simp: evolves_def grows_def silent_after_def)

lemma silent_after_refl [simp]: "silent_after s s"
  by (simp add: silent_after_def)

lemma silent_after_trans: "silent_after s s' \<Longrightarrow> silent_after s' s'' \<Longrightarrow> silent_after s s''"
  by (auto simp: silent_after_def)

text \<open>One call on the session. A successful receive completion with data comes after the
  kernel filled the posted buffers, which are the free region of the receive buffer.\<close>

inductive session_call ::
  "env \<Rightarrow> (trace \<Rightarrow> int) \<Rightarrow> 'b IBuffer \<Rightarrow> ('b, 'z) IOSession_scheme session_callbacks \<Rightarrow>
   ('b, 'z) IOSession_scheme \<Rightarrow> ('b, 'z) IOSession_scheme \<Rightarrow> bool"
  for env clock ops cb where
  call_send: "session_call env clock ops cb s
    (SendMessage env ops (cb_OnDisconnected cb) packetId body s)"
| call_send_buffer: "session_call env clock ops cb s (SendBuffer env ops data s)"
| call_start: "session_call env clock ops cb s (StartReceiveLoop env ops (cb_OnDisconnected cb) s)"
| call_disconnect: "session_call env clock ops cb s
    (RequestDisconnect ops (cb_OnDisconnected cb) reason s)"
| call_completion: "1 \<le> s_OutstandingIoCount s \<Longrightarrow> p \<noteq> OvNull \<Longrightarrow>
    OnIOCompleted env clock ops cb bSuccess n p s = Some s' \<Longrightarrow> session_call env clock ops cb s s'"
| call_received: "1 \<le> s_OutstandingIoCount s \<Longrightarrow> s_pReceiveBuffer s = Some rb \<Longrightarrow>
    vGetWriteableBuffers ops rb = (free, o_WSABufs (s_RecvOverlapped s)) \<Longrightarrow> length data \<le> free \<Longrightarrow>
    OnIOCompleted env clock ops cb True (length data) OvRecv (kernel_recv ops data s) = Some s' \<Longrightarrow>
    session_call env clock ops cb s s'"

inductive session_run ::
  "env \<Rightarrow> (trace \<Rightarrow> int) \<Rightarrow> 'b IBuffer \<Rightarrow> ('b, 'z) IOSession_scheme session_callbacks \<Rightarrow>
   ('b, 'z) IOSession_scheme \<Rightarrow> ('b, 'z) IOSession_scheme \<Rightarrow> bool"
  for env clock ops cb s0 where
  run_start: "session_run env clock ops cb s0 s0"
| run_call: "session_run env clock ops cb s0 s \<Longrightarrow> session_call env clock ops cb s s' \<Longrightarrow>
    session_run env clock ops cb s0 s'"

context session_client
begin

section \<open>Completions\<close>

lemma HandleZero_evolves:
  assumes "sess_ok inv s"
  shows "evolves env inv s (HandleZeroByteRecvCompletion env ops onDisc n s)"
  using recv_or_disconnect_calm[OF assms, of False] calm_flags(1)[of s False]
  by (simp add: HandleZeroByteRecvCompletion_def calm_evolves)

lemma drained_evolves: "drained xs s s' \<Longrightarrow> evolves env inv s s'"
  by (simp add: drained_def)

lemma then_request_received:
  assumes "evolves env inv s s3" "sess_ok inv s"
  shows "evolves env inv s (RequestReceived env ops onDisc (s3\<lparr>s_RecvInProgress := False\<rparr>))"
proof -
  have c: "calm env inv s3 (s3\<lparr>s_RecvInProgress := False\<rparr>)" by (rule calm_flags)
  have ok: "sess_ok inv s3" by (rule evolves_ok[OF assms])
  from calm_trans[OF c RequestReceived_calm[OF calm_ok[OF c ok]]]
  show ?thesis using assms(1) calm_evolves_trans(2) by blast
qed

text \<open>A committed receive, up to the framing loop.\<close>

lemma commit_evolves:
  "sess_ok inv s \<Longrightarrow> s_pReceiveBuffer s = Some rb \<Longrightarrow>
    evolves env inv s (s\<lparr>s_pReceiveBuffer := Some (snd (vCommitWrite ops n rb)),
      s_LastRecvTimeMs := t, s_TotalRxBytes := x\<rparr>)"
  using commit_inv[of rb n] by (intro evolves_same) (auto simp: sess_ok_def)

lemma HandleReal_evolves:
  assumes "sess_ok inv s"
  shows "\<exists>s'. HandleRealRecvCompletion env clock ops cb n s = Some s' \<and> evolves env inv s s'"
proof (cases "n = 0 \<or> s_pReceiveBuffer s = None")
  case True
  then show ?thesis
    using calm_then_disconnect[OF calm_flags(1)[of s False] assms]
    by (auto simp: HandleRealRecvCompletion_def calm_evolves split: option.splits)
next
  case False
  then obtain rb where rb: "s_pReceiveBuffer s = Some rb" and n: "n \<noteq> 0" by auto
  obtain ok rb' where c: "vCommitWrite ops n rb = (ok, rb')" by (cases "vCommitWrite ops n rb")
  let ?s1 = "s\<lparr>s_pReceiveBuffer := Some rb'\<rparr>"
  let ?s2 = "?s1\<lparr>s_LastRecvTimeMs := clock (s_Trace s), s_TotalRxBytes := s_TotalRxBytes s + of_nat n\<rparr>"
  have e1: "evolves env inv s (?s1\<lparr>s_RecvInProgress := False\<rparr>)"
    using commit_inv[of rb n] rb c assms by (intro evolves_same) (auto simp: sess_ok_def)
  have e2: "evolves env inv s ?s2"
    using commit_evolves[OF assms rb, where n = n] c by simp
  have ok2: "sess_ok inv ?s2" by (rule evolves_ok[OF e2 assms])
  show ?thesis
  proof (cases "ok \<and> \<not> s_DisconnectRequested s")
    case True
    obtain s3 where s3: "ReadReceivedBuffers (read_fuel ops ?s2) ops cb ?s2 = Some s3"
      "drained (contents rb') ?s2 s3"
      using read_fuel_enough[OF ok2, of rb'] by auto
    have "evolves env inv s s3"
      by (rule evolves_trans[OF e2 drained_evolves[OF s3(2)]])
    then show ?thesis
      using then_request_received[OF _ assms, of s3] True c rb n s3(1)
      by (simp add: HandleRealRecvCompletion_def Let_def)
  next
    case False
    have "evolves env inv s (?s2\<lparr>s_RecvInProgress := False\<rparr>)"
      using commit_inv[of rb n] rb c assms by (intro evolves_same) (auto simp: sess_ok_def)
    then show ?thesis
      using False c rb n evolves_then_disconnect[OF e1 assms]
      by (cases ok) (simp_all add: HandleRealRecvCompletion_def Let_def)
  qed
qed

lemma HandleRecv_evolves:
  assumes "sess_ok inv s"
  shows "\<exists>s'. HandleRecvCompletion env clock ops cb bSuccess n s = Some s' \<and> evolves env inv s s'"
  using HandleReal_evolves[OF assms] HandleZero_evolves[OF assms]
    calm_then_disconnect[OF calm_flags(1)[of s False] assms]
  by (auto simp: HandleRecvCompletion_def calm_evolves)

lemma HandleSend_evolves:
  assumes "sess_ok inv s"
  shows "evolves env inv s (HandleSendCompletion env ops cb bSuccess n s)"
proof -
  let ?s1 = "s\<lparr>s_SendInProgress := False\<rparr>"
  let ?s3 = "?s1\<lparr>s_pSendBuffer := map_option (snd \<circ> vConsume ops n) (s_pSendBuffer s),
    s_TotalTxBytes := s_TotalTxBytes s + of_nat n\<rparr>"
  have e1: "evolves env inv s (RequestDisconnect0 ops onDisc ?s1)"
    using calm_then_disconnect[OF calm_flags(2)[of s False] assms] by (rule calm_evolves)
  have send: "pred_option inv (map_option (snd \<circ> vConsume ops n) (s_pSendBuffer s))"
    using assms consume_contents(2) by (cases "s_pSendBuffer s") (auto simp: sess_ok_def)
  have e3: "evolves env inv s ?s3"
    using send by (intro evolves_same) auto
  let ?s3' = "?s3\<lparr>s_Trace := s_Trace s @ [Cb_OnSent n]\<rparr>"
  let ?s4 = "cb_OnSent cb n ?s3'"
  have e4: "evolves env inv s ?s4" if alive: "\<not> s_DisconnectRequested s"
  proof -
    have "evolves env inv ?s3 ?s3'"
      using alive by (intro evolves_event[where e = "Cb_OnSent n"]) auto
    then have e: "evolves env inv s ?s3'" using e3 evolves_trans by blast
    then show ?thesis
      using calm_evolves_trans(2)[OF e sent_calm[OF evolves_ok[OF e assms]]] by simp
  qed
  have e5: "evolves env inv s (snd (TryPostSendFromQueue env ops ?s4))" if "\<not> s_DisconnectRequested s"
    using calm_evolves_trans(2)[OF e4[OF that] TryPost_calm] .
  show ?thesis
    unfolding HandleSendCompletion_def Let_def using e1 e3 e4 e5 by simp
qed

text \<open>The guard's destructor establishes \<open>notified\<close>.\<close>

lemma guard_step:
  assumes "sess_ok inv s" "1 \<le> s_OutstandingIoCount s"
  defines "s' \<equiv> IoCompletionGuard_dtor ops onDisc s"
  shows "grows env (\<lambda>new. s_DisconnectRequested s \<longrightarrow> \<not> list_ex is_active new) s s'"
    and "sess_ok inv s'" "notified s'" "s_DisconnectRequested s \<longrightarrow> s_DisconnectRequested s'"
    and "s_OnDisconnectedFired s' \<longrightarrow> s_OnDisconnectedFired s \<or> s_DisconnectRequested s'"
proof -
  let ?s1 = "s\<lparr>s_OutstandingIoCount := s_OutstandingIoCount s - 1, s_Trace := s_Trace s @ [Gh_IoDone]\<rparr>"
  have ok1: "sess_ok inv ?s1" using assms(1) by (simp add: sess_ok_def)
  have g1: "grows env (\<lambda>new. \<not> list_ex is_active new) s ?s1"
    by (auto simp: grows_def fire_flag_def)
  have "grows env (\<lambda>new. s_DisconnectRequested s \<longrightarrow> \<not> list_ex is_active new) s s' \<and> sess_ok inv s' \<and>
    notified s' \<and> (s_DisconnectRequested s \<longrightarrow> s_DisconnectRequested s') \<and>
    (s_OnDisconnectedFired s' \<longrightarrow> s_OnDisconnectedFired s \<or> s_DisconnectRequested s')"
  proof (cases "s_OutstandingIoCount s = 1 \<and> s_DisconnectRequested s")
    case True
    then have s': "s' = TryFireOnDisconnected ops onDisc ?s1"
      by (simp add: s'_def IoCompletionGuard_dtor_def)
    have d1: "s_DisconnectRequested ?s1" using True by simp
    note tf = TryFire_calm[OF d1 ok1, folded s']
    have "grows env (\<lambda>new. \<not> list_ex is_active new) ?s1 s'"
      using tf(1) True ok1 by (simp add: calm_def evolves_def)
    then have "grows env (\<lambda>new. s_DisconnectRequested s \<longrightarrow> \<not> list_ex is_active new) s s'"
      by (rule grows_trans[OF g1]) auto
    moreover have "0 \<le> s_OutstandingIoCount s'"
      using tf(1) True by (auto simp: calm_def evolves_def)
    ultimately show ?thesis
      using tf calm_ok[OF tf(1) ok1] calm_disc[OF tf(1) d1] by (auto simp: notified_def)
  next
    case False
    then have "s' = ?s1"
      by (auto simp: s'_def IoCompletionGuard_dtor_def Let_def)
    then show ?thesis
      using False g1 ok1 assms(2) by (auto simp: notified_def grows_def fire_flag_def)
  qed
  then show "grows env (\<lambda>new. s_DisconnectRequested s \<longrightarrow> \<not> list_ex is_active new) s s'"
    "sess_ok inv s'" "notified s'" "s_DisconnectRequested s \<longrightarrow> s_DisconnectRequested s'"
    "s_OnDisconnectedFired s' \<longrightarrow> s_OnDisconnectedFired s \<or> s_DisconnectRequested s'" by auto
qed

text \<open>A completion always returns and keeps the invariant.\<close>

lemma evolves_then_guard:
  assumes "session_inv env inv s" "1 \<le> s_OutstandingIoCount s" "evolves env inv s s1"
  defines "s' \<equiv> IoCompletionGuard_dtor ops onDisc s1"
  shows "session_inv env inv s'" "silent_after s s'"
proof -
  have i1: "session_inv env inv s1" by (rule session_inv_evolves[OF assms(1,3)])
  have "sess_ok inv s1" "1 \<le> s_OutstandingIoCount s1"
    using i1 assms(2,3) by (auto simp: session_inv_def evolves_def)
  note g = guard_step[OF this, folded s'_def]
  show "session_inv env inv s'"
    using i1 g grows_accounting[OF g(1)] by (auto simp: session_inv_def)
  have "silent_after s1 s'"
    using g(1,4) by (auto simp: silent_after_def grows_def)
  then show "silent_after s s'"
    using evolves_silent[OF assms(3)] assms(1) silent_after_trans by (auto simp: session_inv_def)
qed

lemma OnIOCompleted_step:
  assumes "session_inv env inv s" "1 \<le> s_OutstandingIoCount s" "p \<noteq> OvNull"
  shows "\<exists>s'. OnIOCompleted env clock ops cb bSuccess n p s = Some s' \<and>
    session_inv env inv s' \<and> silent_after s s'"
proof -
  have ok: "sess_ok inv s" using assms(1) by (simp add: session_inv_def)
  obtain s1 where "(if p = OvRecv then HandleRecvCompletion env clock ops cb bSuccess n s
     else if p = OvSend then Some (HandleSendCompletion env ops cb bSuccess n s) else Some s) = Some s1"
    "evolves env inv s s1"
    using HandleRecv_evolves[OF ok, of clock bSuccess n] HandleSend_evolves[OF ok, of bSuccess n]
    by (cases p) auto
  then show ?thesis
    using evolves_then_guard[OF assms(1,2), of s1] assms(3)
    by (auto simp: OnIOCompleted_def)
qed

lemma kernel_recv_evolves:
  assumes "sess_ok inv s" "s_pReceiveBuffer s = Some rb"
    "vGetWriteableBuffers ops rb = (free, o_WSABufs (s_RecvOverlapped s))" "length data \<le> free"
  shows "evolves env inv s (kernel_recv ops data s)"
  using assms commit_ok[of rb free _ data]
  by (intro evolves_same) (auto simp: kernel_recv_def sess_ok_def)

section \<open>Runs\<close>

lemma session_call_step:
  assumes "session_call env clock ops cb s s'" "session_inv env inv s"
  shows "session_inv env inv s'" "silent_after s s'"
proof -
  have ok: "sess_ok inv s" using assms(2) by (simp add: session_inv_def)
  have calm: "session_inv env inv t \<and> silent_after s t" if "calm env inv s t" for t
    using session_inv_evolves[OF assms(2)] evolves_silent ok calm_evolves[OF that] by blast
  have "session_inv env inv s' \<and> silent_after s s'"
    using assms(1)
  proof cases
    case (call_completion p bSuccess n)
    then show ?thesis using OnIOCompleted_step[OF assms(2), of p clock bSuccess n] by auto
  next
    case (call_received rb free data)
    let ?k = "kernel_recv ops data s"
    have e: "evolves env inv s ?k"
      using kernel_recv_evolves[OF ok] call_received by blast
    have "session_inv env inv ?k" by (rule session_inv_evolves[OF assms(2) e])
    moreover have "1 \<le> s_OutstandingIoCount ?k"
      using call_received(1) by (simp add: kernel_recv_def)
    ultimately show ?thesis
      using OnIOCompleted_step[of ?k OvRecv clock True "length data"] call_received(5)
        silent_after_trans[OF evolves_silent[OF e ok]] by auto
  qed (use calm SendMessage_calm[OF ok] SendBuffer_calm[OF ok] StartReceiveLoop_calm[OF ok]
      RequestDisconnect_calm(1)[OF ok] in auto)
  then show "session_inv env inv s'" "silent_after s s'" by auto
qed

lemma session_run_inv:
  assumes "session_run env clock ops cb s0 s" "session_inv env inv s0"
  shows "session_inv env inv s"
  using assms by induction (auto dest: session_call_step)

lemma session_run_silent:
  assumes "session_run env clock ops cb s0 s" "session_inv env inv s0"
  shows "silent_after s0 s"
  using assms
proof induction
  case (run_call s s')
  then show ?case
    using session_run_inv[OF run_call.hyps(1) run_call.prems] session_call_step(2)
      silent_after_trans by blast
qed simp

end

end
