(* ===== verification/Inbound_Session.thy ===== *)
theory Inbound_Session
  imports Admin_Handler Session_Container IO_Session_Runs
begin

text \<open>
  The sessions of the IOCP server: \<open>InboundSession\<close> (\<open>LibNetworks/InboundSession.cpp\<close>) and
  \<open>IOCPInboundSession\<close> (\<open>FastPortServer/IOCPInboundSession.cpp\<close>), which answers echo, benchmark and
  admin requests. The record extends \<open>IOSession\<close> by the process-wide session container that
  the class reaches through a singleton.

  Its hooks keep the contract of \<open>session_client\<close>, so the laws of \<open>IOSession\<close> hold for the
  server's sessions over ring buffers, whatever Winsock answers and the clients send.
\<close>

record 'b IOCPInboundSession = "'b IOSession" +
  i_Sessions :: "(u64, u64) Container"

definition IOCPInboundSession_ctor ::
  "(u64, u64) Container \<Rightarrow> u64 \<Rightarrow> Socket option \<Rightarrow> 'b option \<Rightarrow> 'b option \<Rightarrow> 'b IOCPInboundSession \<times> u64" where
  "IOCPInboundSession_ctor sessions nextId pSocket rb sb =
     (let (base, next) = IOSession_ctor nextId pSocket rb sb
      in (IOSession.extend base \<lparr>i_Sessions = sessions\<rparr>, next))"

definition PACKET_ID_ECHO_REQUEST :: u16 where "PACKET_ID_ECHO_REQUEST = 1"

definition PACKET_ID_BENCHMARK_REQUEST :: u16 where "PACKET_ID_BENCHMARK_REQUEST = 0x1001"

definition PACKET_ID_BENCHMARK_RESPONSE :: u16 where "PACKET_ID_BENCHMARK_RESPONSE = 0x1002"

text \<open>Base class: logging only, and the start of the receive loop.\<close>

definition InboundSession_OnAccepted ::
  "env \<Rightarrow> 'b IBuffer \<Rightarrow> (('b, 'z) IOSession_scheme \<Rightarrow> ('b, 'z) IOSession_scheme) \<Rightarrow>
   ('b, 'z) IOSession_scheme \<Rightarrow> ('b, 'z) IOSession_scheme" where
  "InboundSession_OnAccepted env ops onDisc s = StartReceiveLoop env ops onDisc s"

definition InboundSession_OnDisconnected :: "('b, 'z) IOSession_scheme \<Rightarrow> ('b, 'z) IOSession_scheme" where
  "InboundSession_OnDisconnected s = s"

definition IOCPInboundSession_OnDisconnected :: "'b IOCPInboundSession \<Rightarrow> 'b IOCPInboundSession" where
  "IOCPInboundSession_OnDisconnected s =
     (let s1 = InboundSession_OnDisconnected s
      in s1\<lparr>i_Sessions := snd (Container_Remove (s_SessionId s1) (i_Sessions s1))\<rparr>)"

definition IOCPInboundSession_OnAccepted ::
  "env \<Rightarrow> 'b IBuffer \<Rightarrow> 'b IOCPInboundSession \<Rightarrow> 'b IOCPInboundSession" where
  "IOCPInboundSession_OnAccepted env ops s =
     (let s1 = s\<lparr>i_Sessions := snd (Container_Add (s_SessionId s) (s_SessionId s) (i_Sessions s))\<rparr>
      in InboundSession_OnAccepted env ops IOCPInboundSession_OnDisconnected s1)"

text \<open>\<open>nowNs\<close> is the high resolution clock (two readings) and \<open>time0\<close> is \<open>time(nullptr)\<close>.\<close>

definition IOCPInboundSession_HandleBenchmarkRequest ::
  "env \<Rightarrow> 'b IBuffer \<Rightarrow> codec \<Rightarrow> u64 \<times> u64 \<Rightarrow> Packet \<Rightarrow> 'b IOCPInboundSession \<Rightarrow> 'b IOCPInboundSession" where
  "IOCPInboundSession_HandleBenchmarkRequest env ops cd nowNs rfPacket s =
     (case parse_bench cd (m_Payload rfPacket) of
        None \<Rightarrow> s
      | Some request \<Rightarrow>
          let response = \<lparr>bs_header = \<lparr>hd_request_id = hd_request_id (bq_header request),
                                       hd_timestamp_ms = hd_timestamp_ms (bq_header request)\<rparr>,
                          bs_result = RESULT_CODE_OK,
                          bs_client_timestamp_ns = bq_client_timestamp_ns request,
                          bs_server_recv_timestamp_ns = fst nowNs,
                          bs_server_send_timestamp_ns = snd nowNs,
                          bs_sequence = bq_sequence request,
                          bs_payload = bq_payload request\<rparr>
          in SendMessage env ops IOCPInboundSession_OnDisconnected PACKET_ID_BENCHMARK_RESPONSE
               (ser_bench cd response) s)"

definition IOCPInboundSession_HandleEchoRequest ::
  "env \<Rightarrow> 'b IBuffer \<Rightarrow> codec \<Rightarrow> u64 \<Rightarrow> Packet \<Rightarrow> 'b IOCPInboundSession \<Rightarrow> 'b IOCPInboundSession" where
  "IOCPInboundSession_HandleEchoRequest env ops cd time0 rfPacket s =
     (case parse_echo cd (m_Payload rfPacket) of
        None \<Rightarrow> s
      | Some request \<Rightarrow>
          let response = \<lparr>es_header = \<lparr>hd_request_id = hd_request_id (eq_header request) + 1,
                                       hd_timestamp_ms = time0\<rparr>,
                          es_result = RESULT_CODE_OK,
                          es_data = [],
                          es_data_str = eq_data_str request\<rparr>
          in SendMessage env ops IOCPInboundSession_OnDisconnected (GetPacketId rfPacket)
               (ser_echo cd response) s)"

text \<open>The global admin handler may be null; it is given by its two snapshot functions.\<close>

type_synonym 's admin = "(('s \<Rightarrow> SummaryData) \<times> ('s \<Rightarrow> u32 \<Rightarrow> u32 \<Rightarrow> SessionListData)) option"

definition IOCPInboundSession_OnPacketReceived ::
  "env \<Rightarrow> 'b IBuffer \<Rightarrow> codec \<Rightarrow> (trace \<Rightarrow> u64 \<times> u64) \<Rightarrow> (trace \<Rightarrow> u64) \<Rightarrow> 'b IOCPInboundSession admin \<Rightarrow>
   Packet \<Rightarrow> 'b IOCPInboundSession \<Rightarrow> 'b IOCPInboundSession" where
  "IOCPInboundSession_OnPacketReceived env ops cd nowNs time0 admin rfPacket s =
     (let packetId = GetPacketId rfPacket in
      if IsAdminPacketId packetId then
        (case admin of
           None \<Rightarrow> s
         | Some (summaryOf, sessionsOf) \<Rightarrow>
             snd (AdminPacketHandler_HandlePacket cd
                    (\<lambda>i b. SendMessage env ops IOCPInboundSession_OnDisconnected i b)
                    summaryOf sessionsOf rfPacket s))
      else if packetId = PACKET_ID_BENCHMARK_REQUEST then
        IOCPInboundSession_HandleBenchmarkRequest env ops cd (nowNs (s_Trace s)) rfPacket s
      else if packetId = PACKET_ID_ECHO_REQUEST then
        IOCPInboundSession_HandleEchoRequest env ops cd (time0 (s_Trace s)) rfPacket s
      else s)"

definition IOCPInboundSession_OnSent :: "nat \<Rightarrow> 'b IOCPInboundSession \<Rightarrow> 'b IOCPInboundSession" where
  "IOCPInboundSession_OnSent bytesSent s = s"

definition iocp_callbacks ::
  "env \<Rightarrow> 'b IBuffer \<Rightarrow> codec \<Rightarrow> (trace \<Rightarrow> u64 \<times> u64) \<Rightarrow> (trace \<Rightarrow> u64) \<Rightarrow> 'b IOCPInboundSession admin \<Rightarrow>
   'b IOCPInboundSession session_callbacks" where
  "iocp_callbacks env ops cd nowNs time0 admin =
     \<lparr>cb_OnPacketReceived = IOCPInboundSession_OnPacketReceived env ops cd nowNs time0 admin,
      cb_OnSent = IOCPInboundSession_OnSent,
      cb_OnDisconnected = IOCPInboundSession_OnDisconnected\<rparr>"

section \<open>The hooks keep the contract\<close>

interpretation iocp0: session_core CircleBufferQueue_vtable cbq_contents m_Capacity cbq_inv env
  IOCPInboundSession_OnDisconnected for env
  by unfold_locales
    (auto simp: IOCPInboundSession_OnDisconnected_def InboundSession_OnDisconnected_def Let_def
      counters_def intro!: calm_same)

lemma iocp_packet_calm:
  assumes "sess_ok cbq_inv s"
  shows "calm env cbq_inv s
    (IOCPInboundSession_OnPacketReceived env CircleBufferQueue_vtable cd nowNs time0 admin p s)"
proof -
  have send: "calm env cbq_inv s
      (SendMessage env CircleBufferQueue_vtable IOCPInboundSession_OnDisconnected i b s)" for i b
    by (rule iocp0.SendMessage_calm[OF assms])
  then show ?thesis
    using HandlePacket_keeps[where P = "calm env cbq_inv" and s = s
        and send = "\<lambda>i b. SendMessage env CircleBufferQueue_vtable IOCPInboundSession_OnDisconnected i b"
        and packet = p and cd = cd]
    by (auto simp: IOCPInboundSession_OnPacketReceived_def IOCPInboundSession_HandleBenchmarkRequest_def
        IOCPInboundSession_HandleEchoRequest_def Let_def split: option.splits)
qed

interpretation iocp: session_client CircleBufferQueue_vtable cbq_contents m_Capacity cbq_inv env
  "iocp_callbacks env CircleBufferQueue_vtable cd nowNs time0 admin" for env cd nowNs time0 admin
proof (unfold_locales, goal_cases)
  case (1 s) then show ?case using iocp0.disc_calm[of s env] by (simp add: iocp_callbacks_def)
next
  case (2 s p) then show ?case using iocp_packet_calm by (simp add: iocp_callbacks_def)
next
  case (3 s n) then show ?case by (simp add: iocp_callbacks_def IOCPInboundSession_OnSent_def)
qed

text \<open>A freshly accepted session satisfies the invariant of the runs.\<close>

lemma iocp_fresh_inv:
  assumes "0 < rc" "0 < sc"
  shows "session_inv env cbq_inv (fst (IOCPInboundSession_ctor sessions i sk
    (Some (CircleBufferQueue_ctor rc)) (Some (CircleBufferQueue_ctor sc))))"
  using assms
  by (auto simp: IOCPInboundSession_ctor_def IOSession_ctor_def IOSession.defs session_inv_def sess_ok_def
      notified_def fire_flag_def cbq_inv_ctor)

abbreviation iocp_run where
  "iocp_run env clock cd nowNs time0 admin \<equiv>
     session_run env clock CircleBufferQueue_vtable
       (iocp_callbacks env CircleBufferQueue_vtable cd nowNs time0 admin)"

end
