(* ===== verification/IOCP_Properties.thy ===== *)
theory IOCP_Properties
  imports Inbound_Session
begin

text \<open>
  The properties of the IOCP server's sessions: life cycle, sending, receiving and the
  answers to requests. They instantiate the laws of \<open>IOSession\<close> at \<open>IOCPInboundSession\<close> over ring
  buffers; Winsock's answers, the clock, the codec and the admin handler are arbitrary.
\<close>

abbreviation fresh_session ::
  "(u64, u64) Container \<Rightarrow> u64 \<Rightarrow> Socket option \<Rightarrow> nat \<Rightarrow> nat \<Rightarrow> CircleBufferQueue IOCPInboundSession" where
  "fresh_session sessions i sk rc sc \<equiv> fst (IOCPInboundSession_ctor sessions i sk
     (Some (CircleBufferQueue_ctor rc)) (Some (CircleBufferQueue_ctor sc)))"

lemma iocp_cb [simp]:
  "cb_OnDisconnected (iocp_callbacks env ops cd nowNs time0 admin) = IOCPInboundSession_OnDisconnected"
  by (simp add: iocp_callbacks_def)

lemma run_one: "session_call env clock ops cb s s' \<Longrightarrow> session_run env clock ops cb s s'"
  by (rule run_call[OF run_start])

lemma iocp_run_calls:
  fixes env :: env and ops :: "'b IBuffer"
  defines "run \<equiv> \<lambda>cd nowNs time0 admin clock. session_run env clock ops (iocp_callbacks env ops cd nowNs time0 admin)"
  shows "run cd nowNs time0 admin clock s (RequestDisconnect ops IOCPInboundSession_OnDisconnected reason s)"
    and "run cd nowNs time0 admin clock s (SendMessage env ops IOCPInboundSession_OnDisconnected i body s)"
    and "run cd nowNs time0 admin clock s (StartReceiveLoop env ops IOCPInboundSession_OnDisconnected s)"
  unfolding run_def
  using run_one[OF call_disconnect[of env clock ops "iocp_callbacks env ops cd nowNs time0 admin" s reason]]
    run_one[OF call_send[of env clock ops "iocp_callbacks env ops cd nowNs time0 admin" s i body]]
    run_one[OF call_start[of env clock ops "iocp_callbacks env ops cd nowNs time0 admin" s]] by simp_all

lemma m_Capacity_ctor [simp]: "m_Capacity (CircleBufferQueue_ctor c) = c"
  by (simp add: CircleBufferQueue_ctor_def)

text \<open>A codec and the callbacks of a concrete server, for the witnesses: requests are not
  parsed and nothing is serialised.\<close>

definition demo_codec :: codec where
  "demo_codec = \<lparr>parse_summary = (\<lambda>_. None), ser_summary = (\<lambda>_. []), parse_list = (\<lambda>_. None),
     ser_list = (\<lambda>_. []),
     parse_echo = (\<lambda>b. Some \<lparr>eq_header = \<lparr>hd_request_id = 5, hd_timestamp_ms = 0\<rparr>, eq_data = [], eq_data_str = b\<rparr>),
     ser_echo = es_data_str, parse_bench = (\<lambda>_. None), ser_bench = (\<lambda>_. [])\<rparr>"

abbreviation demo_cb :: "CircleBufferQueue IOCPInboundSession session_callbacks" where
  "demo_cb \<equiv> iocp_callbacks (\<lambda>_ _. 0) CircleBufferQueue_vtable demo_codec (\<lambda>_. (0, 0)) (\<lambda>_. 0) None"

lemmas fresh_defs = IOCPInboundSession_ctor_def IOSession_ctor_def IOSession.defs

lemma iocp_run_inv:
  assumes "0 < rc" "0 < sc"
    "iocp_run env clock cd nowNs time0 admin (fresh_session sessions i sk rc sc) s"
  shows "session_inv env cbq_inv s"
  using iocp.session_run_inv[OF assms(3) iocp_fresh_inv[OF assms(1,2)]] .

lemma TryPost_send_buffer: "s_pSendBuffer (snd (TryPostSendFromQueue env ops s)) = s_pSendBuffer s"
  by (auto simp: TryPostSendFromQueue_def Let_def PrepareSendBuffers_def AddOutstandingIo_def
      UndoOutstandingOnFailure_def syscall_def split: option.splits prod.splits)

lemma TryPost_disc: "s_DisconnectRequested (snd (TryPostSendFromQueue env ops s)) = s_DisconnectRequested s"
  by (auto simp: TryPostSendFromQueue_def Let_def PrepareSendBuffers_def AddOutstandingIo_def
      UndoOutstandingOnFailure_def syscall_def split: option.splits prod.splits)

lemma SendMessage_room:
  assumes "cbq_inv sb" "s_pSendBuffer s = Some sb" "\<not> s_DisconnectRequested s"
    "length (cbq_contents sb) + length body + 4 \<le> m_Capacity sb"
  shows "\<exists>sb'. s_pSendBuffer (SendMessage env CircleBufferQueue_vtable IOCPInboundSession_OnDisconnected i body s) = Some sb' \<and>
    cbq_inv sb' \<and> cbq_contents sb' = cbq_contents sb @ encode i body \<and> m_Capacity sb' = m_Capacity sb"
    and "\<not> s_DisconnectRequested (SendMessage env CircleBufferQueue_vtable IOCPInboundSession_OnDisconnected i body s)"
proof -
  obtain ss sb' where a: "vAllocateWrite CircleBufferQueue_vtable (length body + 4) sb = (Some ss, sb')"
    using cbq.alloc_ok[OF assms(1), of "length body + 4"] assms(4) by auto
  note m = iocp0.alloc_message[OF assms(1) a]
  have "SendMessage env CircleBufferQueue_vtable IOCPInboundSession_OnDisconnected i body s =
    snd (TryPostSendFromQueue env CircleBufferQueue_vtable
      (s\<lparr>s_pSendBuffer := Some (vSetMem CircleBufferQueue_vtable
          (write_message ss i body (vMem CircleBufferQueue_vtable sb')) sb')\<rparr>))"
    using assms(2,3) a by (simp add: SendMessage_def Let_def add.commute)
  then show "\<exists>sb'. s_pSendBuffer (SendMessage env CircleBufferQueue_vtable IOCPInboundSession_OnDisconnected i body s) = Some sb' \<and>
    cbq_inv sb' \<and> cbq_contents sb' = cbq_contents sb @ encode i body \<and> m_Capacity sb' = m_Capacity sb"
    "\<not> s_DisconnectRequested (SendMessage env CircleBufferQueue_vtable IOCPInboundSession_OnDisconnected i body s)"
    using m assms(3) by (simp_all add: TryPost_send_buffer TryPost_disc)
qed

lemma SendMessage_no_room:
  assumes "sess_ok cbq_inv s" "s_pSendBuffer s = Some sb" "\<not> s_DisconnectRequested s"
    "m_Capacity sb < length (cbq_contents sb) + length body + 4"
  shows "SendMessage env CircleBufferQueue_vtable IOCPInboundSession_OnDisconnected i body s =
      RequestDisconnect CircleBufferQueue_vtable IOCPInboundSession_OnDisconnected Normal s"
    and "s_DisconnectRequested (SendMessage env CircleBufferQueue_vtable IOCPInboundSession_OnDisconnected i body s)"
proof -
  have "cbq_inv sb" using assms(1,2) by (simp add: sess_ok_def)
  then have "vAllocateWrite CircleBufferQueue_vtable (length body + 4) sb = (None, sb)"
    using cbq.alloc_full[of sb "length body + 4"] assms(4) by simp
  then have "SendMessage env CircleBufferQueue_vtable IOCPInboundSession_OnDisconnected i body s =
    RequestDisconnect0 CircleBufferQueue_vtable IOCPInboundSession_OnDisconnected (s\<lparr>s_pSendBuffer := Some sb\<rparr>)"
    using assms(2,3) by (simp add: SendMessage_def Let_def add.commute)
  moreover have "s\<lparr>s_pSendBuffer := Some sb\<rparr> = s" using assms(2) by (cases s) simp
  ultimately show eq: "SendMessage env CircleBufferQueue_vtable IOCPInboundSession_OnDisconnected i body s =
      RequestDisconnect CircleBufferQueue_vtable IOCPInboundSession_OnDisconnected Normal s"
    by (simp add: RequestDisconnect0_def)
  show "s_DisconnectRequested (SendMessage env CircleBufferQueue_vtable IOCPInboundSession_OnDisconnected i body s)"
    unfolding eq by (rule iocp0.RequestDisconnect_calm(2)[OF assms(1)])
qed

section \<open>Properties\<close>

text \<open>C3: \<open>OnDisconnected\<close> is called at most once in the life of a session, it is only called
  after a disconnect was requested, and as soon as a disconnect was requested and no I/O is
  outstanding it has been called. This holds after any sequence of sends, disconnect
  requests and I/O completions in which one call ends before the next begins.\<close>

theorem disconnect_notified_exactly_once:
  assumes "0 < rc" "0 < sc"
    "iocp_run env clock cd nowNs time0 admin (fresh_session sessions i sk rc sc) s"
  shows "fire_count (s_Trace s) \<le> 1 \<and>
    (fire_count (s_Trace s) = 1 \<longrightarrow> s_DisconnectRequested s) \<and>
    (s_DisconnectRequested s \<and> s_OutstandingIoCount s = 0 \<longrightarrow> fire_count (s_Trace s) = 1)"
  using iocp_run_inv[OF assms] by (auto simp: session_inv_def notified_def fire_flag_def)

theorem disconnect_notified_exactly_once_witness:
  "fire_count (s_Trace (RequestDisconnect CircleBufferQueue_vtable IOCPInboundSession_OnDisconnected Server
     (fresh_session [] 7 (Some (Socket_of_handle (Some 3))) 8 8))) = 1"
proof -
  let ?fresh = "fresh_session [] 7 (Some (Socket_of_handle (Some 3))) 8 8"
  let ?s = "RequestDisconnect CircleBufferQueue_vtable IOCPInboundSession_OnDisconnected Server ?fresh"
  have run: "session_run (\<lambda>_ _. 0) (\<lambda>_. 0) CircleBufferQueue_vtable demo_cb ?fresh ?s"
    by (rule iocp_run_calls)
  have "s_DisconnectRequested ?s \<and> s_OutstandingIoCount ?s = 0"
    by (simp add: RequestDisconnect_def TryFireOnDisconnected_def fresh_defs close_socket_def Let_def
        Socket_Close_def Socket_Shutdown_def Socket_of_handle_def IOCPInboundSession_OnDisconnected_def
        InboundSession_OnDisconnected_def)
  then show ?thesis
    using disconnect_notified_exactly_once[OF _ _ run] by simp
qed

text \<open>C10: once a disconnect was requested the session is silent: no later call dispatches a
  packet or a send notification to the application, none posts a send, and a receive that is
  still posted (the zero-byte completion re-arms without looking) goes to a closed handle.\<close>

theorem silent_after_disconnect:
  assumes "0 < rc" "0 < sc"
    "iocp_run env clock cd nowNs time0 admin (fresh_session sessions i sk rc sc) s"
    "s_DisconnectRequested s"
    "iocp_run env clock cd nowNs time0 admin s s'"
  shows "s_DisconnectRequested s' \<and> (\<exists>new. s_Trace s' = s_Trace s @ new \<and> \<not> list_ex is_active new)"
  using iocp.session_run_silent[OF assms(5) iocp_run_inv[OF assms(1-3)]] assms(4)
  by (simp add: silent_after_def)

theorem silent_after_disconnect_witness:
  "\<exists>new. s_Trace (SendMessage (\<lambda>_ _. 0) CircleBufferQueue_vtable IOCPInboundSession_OnDisconnected 1 [65]
      (RequestDisconnect CircleBufferQueue_vtable IOCPInboundSession_OnDisconnected Server (fresh_session [] 7 None 8 8))) =
    s_Trace (RequestDisconnect CircleBufferQueue_vtable IOCPInboundSession_OnDisconnected Server (fresh_session [] 7 None 8 8)) @ new \<and>
    \<not> list_ex is_active new"
proof -
  let ?fresh = "fresh_session [] 7 None 8 8"
  let ?s = "RequestDisconnect CircleBufferQueue_vtable IOCPInboundSession_OnDisconnected Server ?fresh"
  let ?t = "SendMessage (\<lambda>_ _. 0) CircleBufferQueue_vtable IOCPInboundSession_OnDisconnected 1 [65] ?s"
  have r1: "session_run (\<lambda>_ _. 0) (\<lambda>_. 0) CircleBufferQueue_vtable demo_cb ?fresh ?s"
    by (rule iocp_run_calls)
  have r2: "session_run (\<lambda>_ _. 0) (\<lambda>_. 0) CircleBufferQueue_vtable demo_cb ?s ?t"
    by (rule iocp_run_calls)
  have "s_DisconnectRequested ?s"
    by (simp add: RequestDisconnect_def TryFireOnDisconnected_def fresh_defs close_socket_def Let_def
        IOCPInboundSession_OnDisconnected_def InboundSession_OnDisconnected_def)
  then show ?thesis
    using silent_after_disconnect[OF _ _ r1 _ r2] by simp
qed

text \<open>The outstanding counter is exact and never negative: after any run it equals the
  number of receives and sends that Winsock accepted minus the number that completed.\<close>

theorem outstanding_count_exact:
  assumes "0 < rc" "0 < sc"
    "iocp_run env clock cd nowNs time0 admin (fresh_session sessions i sk rc sc) s"
  shows "s_OutstandingIoCount s = in_flight env [] (s_Trace s) \<and> 0 \<le> s_OutstandingIoCount s"
  using iocp_run_inv[OF assms] by (simp add: session_inv_def notified_def)

theorem outstanding_count_exact_witness:
  "s_OutstandingIoCount (fresh_session [] 7 None 8 8) = in_flight (\<lambda>_ _. 0) [] (s_Trace (fresh_session [] 7 None 8 8))"
  using outstanding_count_exact[OF _ _ run_start, where rc = 8 and sc = 8 and env = "\<lambda>_ _. 0"] by simp

text \<open>\<open>SendMessage\<close> on a live session is all or nothing: when header, id and body fit the
  free space of the send buffer, the bytes queued grow by exactly the encoded packet, also
  when the reserved space wraps around the end of the ring, and the session stays alive; when
  they do not fit, nothing is queued and the session requests its own disconnect.\<close>

theorem send_message_queues_one_packet:
  assumes "sess_ok cbq_inv s" "s_pSendBuffer s = Some sb" "\<not> s_DisconnectRequested s"
  shows "if length (cbq_contents sb) + length body + 4 \<le> m_Capacity sb
    then \<exists>sb'. s_pSendBuffer (SendMessage env CircleBufferQueue_vtable IOCPInboundSession_OnDisconnected i body s) = Some sb' \<and>
        cbq_inv sb' \<and> cbq_contents sb' = cbq_contents sb @ GetRawSpan (Packet_of_content i body)
    else SendMessage env CircleBufferQueue_vtable IOCPInboundSession_OnDisconnected i body s =
        RequestDisconnect CircleBufferQueue_vtable IOCPInboundSession_OnDisconnected Normal s"
proof -
  have "cbq_inv sb" using assms(1,2) by (simp add: sess_ok_def)
  then show ?thesis
    using SendMessage_room(1)[OF _ assms(2,3), of body env i] SendMessage_no_room(1)[OF assms, of body env i]
    by (auto simp: not_le)
qed

theorem send_message_queues_one_packet_witness:
  "\<exists>sb'. s_pSendBuffer (SendMessage (\<lambda>_ _. 0) CircleBufferQueue_vtable IOCPInboundSession_OnDisconnected 1 [65]
      (fresh_session [] 7 None 8 8)) = Some sb' \<and> cbq_contents sb' = GetRawSpan (Packet_of_content 1 [65])"
proof -
  have ok: "sess_ok cbq_inv (fresh_session [] 7 None 8 8)"
    using iocp_fresh_inv[of 8 8 "\<lambda>_ _. 0" "[]" 7 None] by (simp add: session_inv_def)
  have sb: "s_pSendBuffer (fresh_session [] 7 None 8 8) = Some (CircleBufferQueue_ctor 8)"
    and alive: "\<not> s_DisconnectRequested (fresh_session [] 7 None 8 8)"
    by (simp_all add: fresh_defs)
  show ?thesis
    using send_message_queues_one_packet[OF ok sb alive, of "[65]" "\<lambda>_ _. 0" 1]
    by (auto simp: CircleBufferQueue_ctor_def[of 8, THEN arg_cong[where f = m_Size]])
qed

end
