(* ===== verification/IO_Service.thy ===== *)
theory IO_Service
  imports Socket_Model
begin

text \<open>
  \<open>IOService\<close> (\<open>LibNetworks/iOService.cpp\<close>): the completion port and its worker threads. A worker
  is the function \<open>fDoWorker\<close> of the answers \<open>GetQueuedCompletionStatus\<close> gives it, one after
  the other; it returns when the worker leaves its loop, or when the answers run out (the
  worker is then still waiting). Delivering a completion is the parameter \<open>deliver\<close>, the virtual
  \<open>OnIOCompleted\<close> of the object whose address is the completion key.

  The worker pool as a whole takes the packets of the port in FIFO order, each by one of the
  workers that are still running; since all workers run the same function, \<open>pool_drain\<close> only
  counts the running ones.
\<close>

datatype HANDLE = HNull | HInvalid | Handle nat

record IOService =
  ios_Workers :: nat
  ios_hICOP :: HANDLE
  ios_Terminated :: bool

definition C_THREAD_SHUTDOWN_COMPLETION_KEY :: u64 where
  "C_THREAD_SHUTDOWN_COMPLETION_KEY = - 1"

definition IOService_ctor :: IOService where
  "IOService_ctor = \<lparr>ios_Workers = 0, ios_hICOP = HNull, ios_Terminated = False\<rparr>"

definition IOService_dtor :: "IOService \<times> trace \<Rightarrow> IOService \<times> trace" where
  "IOService_dtor st =
     (let (s, tr) = st in
      if ios_hICOP s \<noteq> HInvalid
      then (s\<lparr>ios_hICOP := HInvalid\<rparr>, tr @ [Sys_CloseHandle (case ios_hICOP s of Handle h \<Rightarrow> h | _ \<Rightarrow> 0)])
      else st)"

text \<open>A negative answer stands for a null handle.\<close>

definition IOService_CreateCompletionPort :: "env \<Rightarrow> IOService \<times> trace \<Rightarrow> bool \<times> IOService \<times> trace" where
  "IOService_CreateCompletionPort env st =
     (let (r, tr) = syscall env Sys_CreateIoCompletionPort (snd st)
      in if r < 0 then (False, ((fst st)\<lparr>ios_hICOP := HNull\<rparr>, tr))
         else (True, ((fst st)\<lparr>ios_hICOP := Handle (nat r)\<rparr>, tr)))"

definition IOService_Start :: "env \<Rightarrow> nat \<Rightarrow> IOService \<times> trace \<Rightarrow> bool \<times> IOService \<times> trace" where
  "IOService_Start env threadCount st =
     (let (ok, s, tr) = IOService_CreateCompletionPort env st in
      if \<not> ok then (False, s, tr)
      else
        let s1 = s\<lparr>ios_Terminated := False\<rparr>
        in (True, s1\<lparr>ios_Workers := ios_Workers s1 + threadCount\<rparr>, tr @ replicate threadCount Gh_SpawnWorker))"

definition IOService_Post :: "env \<Rightarrow> u64 \<Rightarrow> trace \<Rightarrow> bool \<times> trace" where
  "IOService_Post env uCompletionKey tr =
     (let (r, tr1) = syscall env (Sys_PostQueuedCompletionStatus (unat uCompletionKey)) tr in (\<not> r < 0, tr1))"

text \<open>The answer of \<open>CreateIoCompletionPort\<close> for a socket is negative for null, otherwise the
  handle, which must be the port's.\<close>

definition IOService_Associate :: "env \<Rightarrow> SOCKET \<Rightarrow> nat \<Rightarrow> IOService \<Rightarrow> trace \<Rightarrow> bool \<times> trace" where
  "IOService_Associate env rfSocket completionId s tr =
     (let (hResult, tr1) = syscall env (Sys_Associate rfSocket completionId) tr
      in if hResult < 0 then (False, tr1)
         else if Handle (nat hResult) \<noteq> ios_hICOP s then (False, tr1)
         else (True, tr1))"

fun post_shutdown :: "env \<Rightarrow> nat \<Rightarrow> trace \<Rightarrow> trace" where
  "post_shutdown env 0 tr = tr"
| "post_shutdown env (Suc n) tr = post_shutdown env n (snd (IOService_Post env C_THREAD_SHUTDOWN_COMPLETION_KEY tr))"

text \<open>\<open>Stop\<close> returns when every worker has been joined.\<close>

definition IOService_Stop :: "env \<Rightarrow> IOService \<times> trace \<Rightarrow> IOService \<times> trace" where
  "IOService_Stop env st =
     (let (s, tr) = st;
          tr1 = post_shutdown env (ios_Workers s) tr;
          tr2 = tr1 @ replicate (ios_Workers s) Gh_JoinWorker
      in (s\<lparr>ios_Workers := 0, ios_Terminated := True\<rparr>, tr2))"

text \<open>\<open>Wait\<close> returns exactly in the states where \<open>m_bTerminated\<close> is set.\<close>

definition IOService_Wait_returns :: "IOService \<Rightarrow> bool" where
  "IOService_Wait_returns s = ios_Terminated s"

section \<open>Workers\<close>

datatype win_error =
    ERROR_ABANDONED_WAIT_0
  | ERROR_CONNECTION_ABORTED
  | ERROR_NETNAME_DELETED
  | ERROR_OPERATION_ABORTED
  | ERROR_OTHER nat

record 'o completion =
  cp_Result :: bool
  cp_Error :: win_error
  cp_Bytes :: nat
  cp_Key :: u64
  cp_Overlapped :: 'o

text \<open>One turn of the loop: whether the worker goes on, and the world after it.\<close>

definition worker_turn ::
  "(u64 \<Rightarrow> bool \<Rightarrow> nat \<Rightarrow> 'o \<Rightarrow> 'w \<Rightarrow> 'w) \<Rightarrow> 'o completion \<Rightarrow> 'w \<Rightarrow> bool \<times> 'w" where
  "worker_turn deliver c w =
     (if \<not> cp_Result c \<and> (cp_Error c = ERROR_ABANDONED_WAIT_0 \<or> cp_Error c = ERROR_CONNECTION_ABORTED)
      then (False, w)
      else if \<not> cp_Result c \<and> (cp_Error c = ERROR_NETNAME_DELETED \<or> cp_Error c = ERROR_CONNECTION_ABORTED)
      then (True, if cp_Key c \<noteq> 0 then deliver (cp_Key c) False (cp_Bytes c) (cp_Overlapped c) w else w)
      else if cp_Key c = C_THREAD_SHUTDOWN_COMPLETION_KEY then (False, w)
      else (True, if cp_Key c \<noteq> 0 then deliver (cp_Key c) (cp_Result c) (cp_Bytes c) (cp_Overlapped c) w else w))"

fun fDoWorker ::
  "(u64 \<Rightarrow> bool \<Rightarrow> nat \<Rightarrow> 'o \<Rightarrow> 'w \<Rightarrow> 'w) \<Rightarrow> 'o completion list \<Rightarrow> 'w \<Rightarrow> 'o completion list \<times> 'w" where
  "fDoWorker deliver [] w = ([], w)"
| "fDoWorker deliver (c # cs) w =
     (case worker_turn deliver c w of
        (True, w') \<Rightarrow> fDoWorker deliver cs w'
      | (False, w') \<Rightarrow> (cs, w'))"

text \<open>The pool: packets left, workers still running, world.\<close>

fun pool_drain ::
  "(u64 \<Rightarrow> bool \<Rightarrow> nat \<Rightarrow> 'o \<Rightarrow> 'w \<Rightarrow> 'w) \<Rightarrow> 'o completion list \<Rightarrow> nat \<Rightarrow> 'w \<Rightarrow> 'o completion list \<times> nat \<times> 'w" where
  "pool_drain deliver [] n w = ([], n, w)"
| "pool_drain deliver cs 0 w = (cs, 0, w)"
| "pool_drain deliver (c # cs) (Suc n) w =
     (case worker_turn deliver c w of
        (True, w') \<Rightarrow> pool_drain deliver cs (Suc n) w'
      | (False, w') \<Rightarrow> pool_drain deliver cs n w')"

definition shutdown_packet :: "'o completion \<Rightarrow> bool" where
  "shutdown_packet c \<longleftrightarrow> cp_Result c \<and> cp_Key c = C_THREAD_SHUTDOWN_COMPLETION_KEY"

text \<open>A completion that reaches its consumer, and with which arguments.\<close>

definition delivered :: "'o completion \<Rightarrow> bool" where
  "delivered c \<longleftrightarrow> (cp_Result c \<longrightarrow> cp_Key c \<noteq> C_THREAD_SHUTDOWN_COMPLETION_KEY) \<and>
     (\<not> cp_Result c \<longrightarrow> cp_Error c \<notin> {ERROR_ABANDONED_WAIT_0, ERROR_CONNECTION_ABORTED} \<and>
        (cp_Key c = C_THREAD_SHUTDOWN_COMPLETION_KEY \<longrightarrow> cp_Error c = ERROR_NETNAME_DELETED)) \<and>
     cp_Key c \<noteq> 0"

fun deliver_all ::
  "(u64 \<Rightarrow> bool \<Rightarrow> nat \<Rightarrow> 'o \<Rightarrow> 'w \<Rightarrow> 'w) \<Rightarrow> 'o completion list \<Rightarrow> 'w \<Rightarrow> 'w" where
  "deliver_all deliver [] w = w"
| "deliver_all deliver (c # cs) w =
     deliver_all deliver cs (deliver (cp_Key c) (cp_Result c) (cp_Bytes c) (cp_Overlapped c) w)"

lemma worker_turn_delivered:
  "delivered c \<Longrightarrow> worker_turn deliver c w = (True, deliver (cp_Key c) (cp_Result c) (cp_Bytes c) (cp_Overlapped c) w)"
  by (auto simp: delivered_def worker_turn_def)

lemma worker_turn_shutdown: "shutdown_packet c \<Longrightarrow> worker_turn deliver c w = (False, w)"
  by (auto simp: shutdown_packet_def worker_turn_def)

lemma pool_drain_delivered:
  "list_all delivered cs \<Longrightarrow>
   pool_drain deliver (cs @ ds) (Suc n) w = pool_drain deliver ds (Suc n) (deliver_all deliver cs w)"
  by (induction cs arbitrary: w) (auto simp: worker_turn_delivered)

lemma pool_drain_shutdown:
  "list_all shutdown_packet cs \<Longrightarrow> pool_drain deliver (cs @ ds) (length cs) w = (ds, 0, w)"
proof (induction cs)
  case Nil
  then show ?case by (cases ds) simp_all
next
  case (Cons c cs)
  then show ?case by (simp add: worker_turn_shutdown)
qed

lemma post_shutdown_trace:
  "post_shutdown env n tr = tr @ replicate n (Sys_PostQueuedCompletionStatus (unat C_THREAD_SHUTDOWN_COMPLETION_KEY))"
proof (induction n arbitrary: tr)
  case (Suc n)
  then show ?case by (simp add: IOService_Post_def syscall_def)
qed simp

section \<open>Properties\<close>

text \<open>\<open>Stop\<close> terminates the pool and loses nothing queued before it. It posts exactly one
  shutdown packet per worker, joins each worker once and leaves the service terminated; and
  a pool of \<open>n\<close> workers that finds \<open>n\<close> shutdown packets behind any completions delivers all these
  completions, in order, before the last worker leaves, and then every worker has left.\<close>

theorem ioservice_stop_drains:
  assumes "list_all delivered cs" "list_all shutdown_packet downs" "length downs = ios_Workers s" "0 < ios_Workers s"
  shows "snd (IOService_Stop env (s, tr)) =
      tr @ replicate (ios_Workers s) (Sys_PostQueuedCompletionStatus (unat C_THREAD_SHUTDOWN_COMPLETION_KEY)) @
      replicate (ios_Workers s) Gh_JoinWorker \<and>
    IOService_Wait_returns (fst (IOService_Stop env (s, tr))) \<and> ios_Workers (fst (IOService_Stop env (s, tr))) = 0 \<and>
    pool_drain deliver (cs @ downs @ rest) (ios_Workers s) w = (rest, 0, deliver_all deliver cs w)"
proof -
  obtain n where n: "ios_Workers s = Suc n" using assms(4) by (cases "ios_Workers s") auto
  have "pool_drain deliver (cs @ downs @ rest) (ios_Workers s) w = (rest, 0, deliver_all deliver cs w)"
    using pool_drain_delivered[OF assms(1), of deliver "downs @ rest" n w]
      pool_drain_shutdown[OF assms(2), of deliver rest "deliver_all deliver cs w"] assms(3) n by simp
  then show ?thesis
    by (simp add: IOService_Stop_def IOService_Wait_returns_def post_shutdown_trace Let_def)
qed

theorem ioservice_stop_drains_witness:
  "pool_drain (\<lambda>k ok n o' w. w @ [k]) ([\<lparr>cp_Result = True, cp_Error = ERROR_OTHER 0, cp_Bytes = 1, cp_Key = 5, cp_Overlapped = ()\<rparr>] @
     [\<lparr>cp_Result = True, cp_Error = ERROR_OTHER 0, cp_Bytes = 0, cp_Key = C_THREAD_SHUTDOWN_COMPLETION_KEY, cp_Overlapped = ()\<rparr>] @ [])
     1 [] = ([], 0, [5])"
  using ioservice_stop_drains[of "[\<lparr>cp_Result = True, cp_Error = ERROR_OTHER 0, cp_Bytes = 1, cp_Key = 5, cp_Overlapped = ()\<rparr>]"
      "[\<lparr>cp_Result = True, cp_Error = ERROR_OTHER 0, cp_Bytes = 0, cp_Key = C_THREAD_SHUTDOWN_COMPLETION_KEY, cp_Overlapped = ()\<rparr>]"
      "\<lparr>ios_Workers = 1, ios_hICOP = Handle 1, ios_Terminated = False\<rparr>" _ _ "\<lambda>k ok n o' w. w @ [k]" "[]" "[]"]
  by (simp add: delivered_def shutdown_packet_def C_THREAD_SHUTDOWN_COMPLETION_KEY_def)

text \<open>A completion that failed with \<open>ERROR_CONNECTION_ABORTED\<close> (a peer reset) makes the worker
  leave its loop without delivering it, whoever it was for: the branch below it that would
  deliver it is never reached.\<close>

theorem connection_aborted_ends_worker:
  assumes "\<not> cp_Result c" "cp_Error c = ERROR_CONNECTION_ABORTED"
  shows "fDoWorker deliver (c # cs) w = (cs, w)"
  using assms by (simp add: worker_turn_def)

theorem connection_aborted_ends_worker_witness:
  "fDoWorker (\<lambda>k ok n o' w. w @ [k]) [\<lparr>cp_Result = False, cp_Error = ERROR_CONNECTION_ABORTED, cp_Bytes = 0, cp_Key = 5,
     cp_Overlapped = ()\<rparr>] [] = ([], [])"
  by (rule connection_aborted_ends_worker) simp_all

end
