(* ===== verification/Outbound_Session.thy ===== *)
theory Outbound_Session
  imports Inbound_Session IO_Service
begin

text \<open>
  \<open>OutboundSession\<close> (\<open>LibNetworks/OutboundSession.cpp\<close>): an \<open>IOSession\<close> that a connector made, with
  its connect I/O and its two observers, and the demo client's \<open>FastPortOutboundSession\<close>
  (\<open>FastPortClient/FastPortOutboundSession.cpp\<close>). An observer is a function on the references the
  connector holds (\<open>m_pSession\<close>, \<open>m_wpSession\<close>, \<open>m_pLifecycleHold\<close>), which is all the connector's
  observers change; \<open>None\<close> is an empty \<open>std::function\<close>.

  \<open>outbound_client\<close> extends the contract of the session by that of \<open>OnConnected\<close>, and its lemmas
  extend the runs of a session by the connect I/O.
\<close>

record connector_refs =
  cr_pSession :: bool
  cr_wpSession :: bool
  cr_LifecycleHold :: bool

record 'b OutboundSession = "'b IOSession" +
  ob_ConnectIoPending :: bool
  ob_ActivationObserver :: "(connector_refs \<Rightarrow> connector_refs) option"
  ob_DisconnectObserver :: "(connector_refs \<Rightarrow> connector_refs) option"
  ob_Refs :: connector_refs

definition OutboundSession_ctor ::
  "u64 \<Rightarrow> Socket option \<Rightarrow> 'b option \<Rightarrow> 'b option \<Rightarrow> 'b OutboundSession \<times> u64" where
  "OutboundSession_ctor nextId pSocket rb sb =
     (let (base, next) = IOSession_ctor nextId pSocket rb sb
      in (IOSession.extend base
            \<lparr>ob_ConnectIoPending = False, ob_ActivationObserver = None, ob_DisconnectObserver = None,
             ob_Refs = \<lparr>cr_pSession = False, cr_wpSession = False, cr_LifecycleHold = False\<rparr>\<rparr>, next))"

definition NotifyActivationObserver :: "('b, 'z) OutboundSession_scheme \<Rightarrow> ('b, 'z) OutboundSession_scheme" where
  "NotifyActivationObserver s =
     (case ob_ActivationObserver s of None \<Rightarrow> s | Some f \<Rightarrow> s\<lparr>ob_Refs := f (ob_Refs s)\<rparr>)"

definition NotifyDisconnectObserver :: "('b, 'z) OutboundSession_scheme \<Rightarrow> ('b, 'z) OutboundSession_scheme" where
  "NotifyDisconnectObserver s =
     (case ob_DisconnectObserver s of None \<Rightarrow> s | Some f \<Rightarrow> s\<lparr>ob_Refs := f (ob_Refs s)\<rparr>)"

definition SetActivationObserver ::
  "(connector_refs \<Rightarrow> connector_refs) \<Rightarrow> ('b, 'z) OutboundSession_scheme \<Rightarrow> ('b, 'z) OutboundSession_scheme" where
  "SetActivationObserver observer s = s\<lparr>ob_ActivationObserver := Some observer\<rparr>"

definition SetDisconnectObserver ::
  "(connector_refs \<Rightarrow> connector_refs) \<Rightarrow> ('b, 'z) OutboundSession_scheme \<Rightarrow> ('b, 'z) OutboundSession_scheme" where
  "SetDisconnectObserver observer s = s\<lparr>ob_DisconnectObserver := Some observer\<rparr>"

text \<open>\<open>onDisc\<close> is the virtual \<open>OnDisconnected\<close> of the most derived class.\<close>

definition OutboundSession_OnConnected ::
  "env \<Rightarrow> 'b IBuffer \<Rightarrow> (('b, 'z) OutboundSession_scheme \<Rightarrow> ('b, 'z) OutboundSession_scheme) \<Rightarrow>
   ('b, 'z) OutboundSession_scheme \<Rightarrow> ('b, 'z) OutboundSession_scheme" where
  "OutboundSession_OnConnected env ops onDisc s = NotifyActivationObserver (StartReceiveLoop env ops onDisc s)"

definition OutboundSession_OnDisconnected :: "('b, 'z) OutboundSession_scheme \<Rightarrow> ('b, 'z) OutboundSession_scheme" where
  "OutboundSession_OnDisconnected s = NotifyDisconnectObserver s"

definition MarkConnectIoPosted :: "('b, 'z) OutboundSession_scheme \<Rightarrow> ('b, 'z) OutboundSession_scheme" where
  "MarkConnectIoPosted s = (AddOutstandingIo s)\<lparr>ob_ConnectIoPending := True\<rparr>"

definition UndoConnectIoOnPostFailure :: "('b, 'z) OutboundSession_scheme \<Rightarrow> ('b, 'z) OutboundSession_scheme" where
  "UndoConnectIoOnPostFailure s = UndoOutstandingOnFailure (s\<lparr>ob_ConnectIoPending := False\<rparr>)"

definition ApplyConnectedSocketOptions ::
  "env \<Rightarrow> Socket \<Rightarrow> ('b, 'z) OutboundSession_scheme \<Rightarrow> ('b, 'z) OutboundSession_scheme" where
  "ApplyConnectedSocketOptions env sk s =
     (let t1 = snd (Socket_UpdateContextDisableNagleAlgorithm env sk (s_Trace s));
          t2 = snd (Socket_UpdateContextZeroCopy env sk t1);
          t3 = snd (Socket_UpdateContextKeepAlive env 30000 1000 sk t2)
      in s\<lparr>s_Trace := t3\<rparr>)"

text \<open>The code dereferences \<open>GetSocket()\<close>; a session without a socket is left alone here.\<close>

definition FinalizeConnect ::
  "env \<Rightarrow> 'b IBuffer \<Rightarrow> (('b, 'z) OutboundSession_scheme \<Rightarrow> ('b, 'z) OutboundSession_scheme) \<Rightarrow>
   (('b, 'z) OutboundSession_scheme \<Rightarrow> ('b, 'z) OutboundSession_scheme) \<Rightarrow>
   ('b, 'z) OutboundSession_scheme \<Rightarrow> bool \<times> ('b, 'z) OutboundSession_scheme" where
  "FinalizeConnect env ops onDisc onConnected s =
     (case s_pSocket s of
        None \<Rightarrow> (False, s)
      | Some sk \<Rightarrow>
          let (ok, t1) = Socket_UpdateConnectContext env sk (s_Trace s);
              s1 = s\<lparr>s_Trace := t1\<rparr>
          in if \<not> ok then (False, RequestDisconnect0 ops onDisc s1)
             else (True, onConnected (ApplyConnectedSocketOptions env sk s1)))"

datatype outbound_ptr = ConnectOverlapped | BaseOverlapped overlapped_ptr

definition IsConnectCompletion :: "outbound_ptr \<Rightarrow> bool" where
  "IsConnectCompletion p \<longleftrightarrow> p = ConnectOverlapped"

definition connect_completed ::
  "env \<Rightarrow> 'b IBuffer \<Rightarrow> (('b, 'z) OutboundSession_scheme \<Rightarrow> ('b, 'z) OutboundSession_scheme) \<Rightarrow>
   (('b, 'z) OutboundSession_scheme \<Rightarrow> ('b, 'z) OutboundSession_scheme) \<Rightarrow> bool \<Rightarrow>
   ('b, 'z) OutboundSession_scheme \<Rightarrow> ('b, 'z) OutboundSession_scheme" where
  "connect_completed env ops onDisc onConnected bSuccess s =
     (let s1 = s\<lparr>ob_ConnectIoPending := False\<rparr> in
      if s_DisconnectRequested s1 then s1
      else if \<not> bSuccess then RequestDisconnect0 ops onDisc s1
      else snd (FinalizeConnect env ops onDisc onConnected s1))"

definition OutboundSession_OnIOCompleted ::
  "env \<Rightarrow> (trace \<Rightarrow> int) \<Rightarrow> 'b IBuffer \<Rightarrow> ('b, 'z) OutboundSession_scheme session_callbacks \<Rightarrow>
   (('b, 'z) OutboundSession_scheme \<Rightarrow> ('b, 'z) OutboundSession_scheme) \<Rightarrow>
   bool \<Rightarrow> nat \<Rightarrow> outbound_ptr \<Rightarrow> ('b, 'z) OutboundSession_scheme \<Rightarrow> ('b, 'z) OutboundSession_scheme option" where
  "OutboundSession_OnIOCompleted env clock ops cb onConnected bSuccess bytesTransferred p s =
     (case p of
        BaseOverlapped q \<Rightarrow> OnIOCompleted env clock ops cb bSuccess bytesTransferred q s
      | ConnectOverlapped \<Rightarrow>
          Some (IoCompletionGuard_dtor ops (cb_OnDisconnected cb)
            (connect_completed env ops (cb_OnDisconnected cb) onConnected bSuccess s)))"

section \<open>FastPortOutboundSession\<close>

record 'b FastPortOutboundSession = "'b OutboundSession" +
  fs_Sessions :: "(u64, u64) Container"

definition FastPortOutboundSession_ctor ::
  "(u64, u64) Container \<Rightarrow> u64 \<Rightarrow> Socket option \<Rightarrow> 'b option \<Rightarrow> 'b option \<Rightarrow> 'b FastPortOutboundSession \<times> u64" where
  "FastPortOutboundSession_ctor sessions nextId pSocket rb sb =
     (let (base, next) = OutboundSession_ctor nextId pSocket rb sb
      in (OutboundSession.extend base \<lparr>fs_Sessions = sessions\<rparr>, next))"

definition FastPortOutboundSession_OnDisconnected :: "'b FastPortOutboundSession \<Rightarrow> 'b FastPortOutboundSession" where
  "FastPortOutboundSession_OnDisconnected s =
     (let sessionId = s_SessionId s;
          s1 = OutboundSession_OnDisconnected s
      in s1\<lparr>fs_Sessions := snd (Container_Remove sessionId (fs_Sessions s1))\<rparr>)"

text \<open>\<open>serReq\<close> serialises an \<open>EchoRequest\<close>.\<close>

definition hello_message :: "byte list" where
  "hello_message = map of_char ''Hello FastPort Server!''"

definition FastPortOutboundSession_OnConnected ::
  "env \<Rightarrow> 'b IBuffer \<Rightarrow> (EchoRequest \<Rightarrow> byte list) \<Rightarrow> (trace \<Rightarrow> u64) \<Rightarrow>
   'b FastPortOutboundSession \<Rightarrow> 'b FastPortOutboundSession" where
  "FastPortOutboundSession_OnConnected env ops serReq time0 s =
     (let s1 = OutboundSession_OnConnected env ops FastPortOutboundSession_OnDisconnected s;
          s2 = s1\<lparr>fs_Sessions := snd (Container_Add (s_SessionId s1) (s_SessionId s1) (fs_Sessions s1))\<rparr>;
          request = \<lparr>eq_header = \<lparr>hd_request_id = 1, hd_timestamp_ms = time0 (s_Trace s2)\<rparr>,
                     eq_data = [], eq_data_str = hello_message\<rparr>
      in SendMessage env ops FastPortOutboundSession_OnDisconnected PACKET_ID_ECHO_REQUEST (serReq request) s2)"

definition FastPortOutboundSession_OnPacketReceived ::
  "env \<Rightarrow> 'b IBuffer \<Rightarrow> codec \<Rightarrow> (trace \<Rightarrow> u64) \<Rightarrow> Packet \<Rightarrow> 'b FastPortOutboundSession \<Rightarrow> 'b FastPortOutboundSession" where
  "FastPortOutboundSession_OnPacketReceived env ops cd time0 rfPacket s =
     (case parse_echo cd (m_Payload rfPacket) of
        None \<Rightarrow> s
      | Some request \<Rightarrow>
          let response = \<lparr>es_header = \<lparr>hd_request_id = hd_request_id (eq_header request) + 1,
                                       hd_timestamp_ms = time0 (s_Trace s)\<rparr>,
                          es_result = RESULT_CODE_OK,
                          es_data = [],
                          es_data_str = eq_data_str request\<rparr>
          in SendMessage env ops FastPortOutboundSession_OnDisconnected PACKET_ID_ECHO_REQUEST (ser_echo cd response) s)"

definition FastPortOutboundSession_OnSent :: "nat \<Rightarrow> 'b FastPortOutboundSession \<Rightarrow> 'b FastPortOutboundSession" where
  "FastPortOutboundSession_OnSent bytesSent s = s"

definition client_callbacks ::
  "env \<Rightarrow> 'b IBuffer \<Rightarrow> codec \<Rightarrow> (trace \<Rightarrow> u64) \<Rightarrow> 'b FastPortOutboundSession session_callbacks" where
  "client_callbacks env ops cd time0 =
     \<lparr>cb_OnPacketReceived = FastPortOutboundSession_OnPacketReceived env ops cd time0,
      cb_OnSent = FastPortOutboundSession_OnSent,
      cb_OnDisconnected = FastPortOutboundSession_OnDisconnected\<rparr>"

section \<open>Laws\<close>

text \<open>Events that no law of the session is about: making, configuring and closing a socket.\<close>

fun inert :: "event \<Rightarrow> bool" where
  "inert (Sys_setsockopt _ _) = True"
| "inert (Sys_WSAIoctl _ _) = True"
| "inert (Sys_WSASocket _) = True"
| "inert (Sys_bind _ _) = True"
| "inert (Sys_closesocket _) = True"
| "inert (Sys_Associate _ _) = True"
| "inert _ = False"

lemma inert_events:
  "list_all inert es \<Longrightarrow> \<not> list_ex is_active es \<and> fire_count es = 0 \<and> packets_of es = [] \<and> in_flight env tr es = 0"
proof (induction es arbitrary: tr)
  case (Cons e es)
  then show ?case by (cases e) simp_all
qed simp

lemma calm_inert:
  assumes "list_all inert es"
  shows "calm env I s (s\<lparr>s_Trace := s_Trace s @ es\<rparr>)"
  using inert_events[OF assms]
  by (auto simp: calm_def evolves_def grows_def sess_ok_def notified_def fire_flag_def counters_def)

lemma ApplyOptions_calm: "calm env I s (ApplyConnectedSocketOptions env' sk s)"
  by (auto simp: ApplyConnectedSocketOptions_def Socket_UpdateContextDisableNagleAlgorithm_def
      Socket_UpdateContextZeroCopy_def Socket_UpdateContextKeepAlive_def syscall_def Let_def intro!: calm_inert)

lemma observers_calm:
  "calm env I s (NotifyActivationObserver s)" "calm env I s (NotifyDisconnectObserver s)"
  by (auto simp: NotifyActivationObserver_def NotifyDisconnectObserver_def counters_def split: option.splits intro!: calm_same)

text \<open>Posting the connect: the count is raised before the call and lowered again when it fails.\<close>

definition post_connect ::
  "env \<Rightarrow> SOCKET \<Rightarrow> sockaddr_in \<Rightarrow> ('b, 'z) OutboundSession_scheme \<Rightarrow> bool \<times> ('b, 'z) OutboundSession_scheme" where
  "post_connect env h remoteAddr s =
     (let s1 = MarkConnectIoPosted s;
          (r, tr) = syscall env (Sys_ConnectEx h remoteAddr) (s_Trace s1);
          s2 = s1\<lparr>s_Trace := tr\<rparr>
      in if r < 0 then (False, UndoConnectIoOnPostFailure s2) else (True, s2))"

lemma post_connect_calm: "calm env I s (snd (post_connect env h a s))"
  by (auto simp: post_connect_def MarkConnectIoPosted_def UndoConnectIoOnPostFailure_def AddOutstandingIo_def
      UndoOutstandingOnFailure_def syscall_def Let_def calm_def evolves_def grows_def sess_ok_def notified_def
      fire_flag_def counters_def)

locale outbound_client = session_client ops contents cap inv env cb
  for ops :: "'b IBuffer" and contents and cap and inv and env
    and cb :: "('b, 'z) OutboundSession_scheme session_callbacks" +
  fixes onConnected :: "('b, 'z) OutboundSession_scheme \<Rightarrow> ('b, 'z) OutboundSession_scheme"
  assumes connected_calm: "sess_ok inv s \<Longrightarrow> calm env inv s (onConnected s)"
begin

lemma FinalizeConnect_calm:
  assumes "sess_ok inv s"
  shows "calm env inv s (snd (FinalizeConnect env ops (cb_OnDisconnected cb) onConnected s))"
proof (cases "s_pSocket s")
  case None
  then show ?thesis by (simp add: FinalizeConnect_def)
next
  case (Some sk)
  let ?s1 = "s\<lparr>s_Trace := s_Trace s @ [Sys_setsockopt (m_Socket sk) SO_UPDATE_CONNECT_CONTEXT]\<rparr>"
  have 1: "calm env inv s ?s1" by (rule calm_inert) simp
  have 2: "calm env inv s (ApplyConnectedSocketOptions env sk ?s1)"
    by (rule calm_trans[OF 1 ApplyOptions_calm])
  have "calm env inv s (onConnected (ApplyConnectedSocketOptions env sk ?s1))"
    by (rule calm_trans[OF 2 connected_calm[OF calm_ok[OF 2 assms]]])
  then show ?thesis
    using Some calm_then_disconnect[OF 1 assms]
    by (simp add: FinalizeConnect_def Socket_UpdateConnectContext_def syscall_def Let_def)
qed

lemma connect_completed_calm:
  assumes "sess_ok inv s"
  shows "calm env inv s (connect_completed env ops (cb_OnDisconnected cb) onConnected bSuccess s)"
proof -
  let ?s1 = "s\<lparr>ob_ConnectIoPending := False\<rparr>"
  have 1: "calm env inv s ?s1" by (rule calm_same) (simp_all add: counters_def)
  show ?thesis
    using 1 calm_then_disconnect[OF 1 assms] calm_trans[OF 1 FinalizeConnect_calm[OF calm_ok[OF 1 assms]]]
    by (simp add: connect_completed_def Let_def)
qed

lemma connect_completion_step:
  assumes "session_inv env inv s" "1 \<le> s_OutstandingIoCount s"
  shows "\<exists>s'. OutboundSession_OnIOCompleted env clock ops cb onConnected bSuccess n ConnectOverlapped s = Some s' \<and>
    session_inv env inv s' \<and> silent_after s s'"
  using evolves_then_guard[OF assms calm_evolves[OF connect_completed_calm]] assms(1)
  by (simp add: OutboundSession_OnIOCompleted_def session_inv_def)

end

text \<open>Runs of an outbound session: the calls of \<open>IOSession\<close>, posting the connect, and its
  completion while it is pending.\<close>

inductive outbound_run ::
  "env \<Rightarrow> (trace \<Rightarrow> int) \<Rightarrow> 'b IBuffer \<Rightarrow> ('b, 'z) OutboundSession_scheme session_callbacks \<Rightarrow>
   (('b, 'z) OutboundSession_scheme \<Rightarrow> ('b, 'z) OutboundSession_scheme) \<Rightarrow>
   ('b, 'z) OutboundSession_scheme \<Rightarrow> ('b, 'z) OutboundSession_scheme \<Rightarrow> bool"
  for env clock ops cb onConnected s0 where
  or_start: "outbound_run env clock ops cb onConnected s0 s0"
| or_call: "outbound_run env clock ops cb onConnected s0 s \<Longrightarrow> session_call env clock ops cb s s' \<Longrightarrow>
    outbound_run env clock ops cb onConnected s0 s'"
| or_post: "outbound_run env clock ops cb onConnected s0 s \<Longrightarrow>
    outbound_run env clock ops cb onConnected s0 (snd (post_connect env h a s))"
| or_connected: "outbound_run env clock ops cb onConnected s0 s \<Longrightarrow> 1 \<le> s_OutstandingIoCount s \<Longrightarrow>
    OutboundSession_OnIOCompleted env clock ops cb onConnected bSuccess n ConnectOverlapped s = Some s' \<Longrightarrow>
    outbound_run env clock ops cb onConnected s0 s'"

context outbound_client
begin

lemma outbound_run_inv:
  assumes "outbound_run env clock ops cb onConnected s0 s" "session_inv env inv s0"
  shows "session_inv env inv s"
  using assms
proof (induction rule: outbound_run.induct)
  case (or_call s s')
  then show ?case using session_call_step(1) by blast
next
  case (or_post s h a)
  then show ?case using session_inv_evolves[OF _ calm_evolves[OF post_connect_calm]] by blast
next
  case (or_connected s bSuccess n s')
  then show ?case using connect_completion_step[of s clock bSuccess n] by auto
qed

end

section \<open>The demo client keeps the contract\<close>

lemma client_disc_calm: "calm env I s (FastPortOutboundSession_OnDisconnected s)"
proof -
  have "calm env I (OutboundSession_OnDisconnected s) (FastPortOutboundSession_OnDisconnected s)"
    by (rule calm_same) (simp_all add: FastPortOutboundSession_OnDisconnected_def counters_def Let_def)
  then show ?thesis
    using observers_calm(2)[of env I s] calm_trans by (auto simp: OutboundSession_OnDisconnected_def)
qed

interpretation client0: session_core CircleBufferQueue_vtable cbq_contents m_Capacity cbq_inv env
  FastPortOutboundSession_OnDisconnected for env
  by unfold_locales (rule client_disc_calm)

interpretation client: session_client CircleBufferQueue_vtable cbq_contents m_Capacity cbq_inv env
  "client_callbacks env CircleBufferQueue_vtable cd time0" for env cd time0
proof (unfold_locales, goal_cases)
  case (1 s) then show ?case by (simp add: client_callbacks_def client_disc_calm)
next
  case (2 s p)
  then show ?case
    using client0.SendMessage_calm
    by (auto simp: client_callbacks_def FastPortOutboundSession_OnPacketReceived_def Let_def split: option.splits)
next
  case (3 s n) then show ?case by (simp add: client_callbacks_def FastPortOutboundSession_OnSent_def)
qed

lemma client_connected_calm:
  assumes "sess_ok cbq_inv s"
  shows "calm env cbq_inv s (FastPortOutboundSession_OnConnected env CircleBufferQueue_vtable serReq time0 s)"
proof -
  let ?s1 = "OutboundSession_OnConnected env CircleBufferQueue_vtable FastPortOutboundSession_OnDisconnected s"
  have 1: "calm env cbq_inv s ?s1"
    unfolding OutboundSession_OnConnected_def
    by (rule calm_trans[OF client0.StartReceiveLoop_calm[OF assms] observers_calm(1)])
  have 2: "calm env cbq_inv s (?s1\<lparr>fs_Sessions := c\<rparr>)" for c
    by (rule calm_trans[OF 1], rule calm_same) (simp_all add: counters_def)
  show ?thesis
    unfolding FastPortOutboundSession_OnConnected_def Let_def
    by (rule calm_trans[OF 2 client0.SendMessage_calm[OF client0.calm_ok[OF 2 assms]]])
qed

interpretation client_out: outbound_client CircleBufferQueue_vtable cbq_contents m_Capacity cbq_inv env
  "client_callbacks env CircleBufferQueue_vtable cd time0"
  "FastPortOutboundSession_OnConnected env CircleBufferQueue_vtable serReq time0" for env cd time0 serReq
  by unfold_locales (rule client_connected_calm)


end

