(* ===== verification/IOCP_Stream.thy ===== *)
theory IOCP_Stream
  imports IOCP_Properties Outbound_Session "HOL-Library.Sublist"
begin

text \<open>
  What a receive completion of an IOCP session does to the byte stream: the bytes the kernel put
  into the free region are committed, framed and dispatched.
\<close>

text \<open>Histories of a session with the bytes it received: calls of its methods, completions that
  carry no data, and receive completions after the kernel filled the posted region.\<close>

inductive session_stream ::
  "env \<Rightarrow> (trace \<Rightarrow> int) \<Rightarrow> 'b IBuffer \<Rightarrow> ('b, 'z) IOSession_scheme session_callbacks \<Rightarrow>
   ('b, 'z) IOSession_scheme \<Rightarrow> byte list \<Rightarrow> ('b, 'z) IOSession_scheme \<Rightarrow> bool"
  for env clock ops cb s0 where
  st_start: "session_stream env clock ops cb s0 [] s0"
| st_send: "session_stream env clock ops cb s0 xs s \<Longrightarrow>
    session_stream env clock ops cb s0 xs (SendMessage env ops (cb_OnDisconnected cb) packetId body s)"
| st_send_buffer: "session_stream env clock ops cb s0 xs s \<Longrightarrow>
    session_stream env clock ops cb s0 xs (SendBuffer env ops data s)"
| st_loop: "session_stream env clock ops cb s0 xs s \<Longrightarrow>
    session_stream env clock ops cb s0 xs (StartReceiveLoop env ops (cb_OnDisconnected cb) s)"
| st_disconnect: "session_stream env clock ops cb s0 xs s \<Longrightarrow>
    session_stream env clock ops cb s0 xs (RequestDisconnect ops (cb_OnDisconnected cb) reason s)"
| st_completion: "session_stream env clock ops cb s0 xs s \<Longrightarrow> 1 \<le> s_OutstandingIoCount s \<Longrightarrow> p \<noteq> OvNull \<Longrightarrow>
    (p = OvRecv \<Longrightarrow> \<not> bSuccess \<or> o_IsZeroByte (s_RecvOverlapped s) \<or> n = 0) \<Longrightarrow>
    OnIOCompleted env clock ops cb bSuccess n p s = Some s' \<Longrightarrow> session_stream env clock ops cb s0 xs s'"
| st_received: "session_stream env clock ops cb s0 xs s \<Longrightarrow> 1 \<le> s_OutstandingIoCount s \<Longrightarrow>
    s_pReceiveBuffer s = Some rb \<Longrightarrow> \<not> o_IsZeroByte (s_RecvOverlapped s) \<Longrightarrow>
    vGetWriteableBuffers ops rb = (free, o_WSABufs (s_RecvOverlapped s)) \<Longrightarrow> data \<noteq> [] \<Longrightarrow> length data \<le> free \<Longrightarrow>
    OnIOCompleted env clock ops cb True (length data) OvRecv (kernel_recv ops data s) = Some s' \<Longrightarrow>
    session_stream env clock ops cb s0 (xs @ data) s'"

lemma session_stream_run: "session_stream env clock ops cb s0 xs s \<Longrightarrow> session_run env clock ops cb s0 s"
  by (induction rule: session_stream.induct) (auto intro: run_start run_call session_call.intros)

lemma deframe_all_more: "\<exists>more. fst (deframe_all (xs @ ys)) = fst (deframe_all xs) @ more"
  by (simp add: deframe_all_append split_beta)

text \<open>Messages in, packets out: bytes that are the first ones of encoded messages hold the first
  of these messages as packets, and all of them once the bytes are complete.\<close>

abbreviation packet_of :: "u16 \<times> byte list \<Rightarrow> Packet" where
  "packet_of m \<equiv> Packet_of_content (fst m) (snd m)"

lemma packets_delivered:
  assumes "fst (deframe_all xs) = ps @ behind" "prefix xs (encode_all ms)" "list_all (fits_frame \<circ> snd) ms"
  shows "prefix ps (map packet_of ms)" "xs = encode_all ms \<Longrightarrow> behind = [] \<Longrightarrow> ps = map packet_of ms"
proof -
  have d: "deframe_all (encode_all ms) = (map packet_of ms, [], False)" by (rule deframe_all_encode_all[OF assms(3)])
  obtain ys where ys: "encode_all ms = xs @ ys" using assms(2) by (auto simp: prefix_def)
  obtain rest where "map packet_of ms = fst (deframe_all xs) @ rest" using deframe_all_more[of xs ys] d ys by auto
  then show "prefix ps (map packet_of ms)" using assms(1) by (auto simp: prefix_def)
  show "xs = encode_all ms \<Longrightarrow> behind = [] \<Longrightarrow> ps = map packet_of ms" using assms(1) d by simp
qed

lemma inactive_packets: "\<not> list_ex is_active tr \<Longrightarrow> packets_of tr = []"
  by (induction tr) (auto simp: packets_of_def List.map_filter_def split: event.splits option.splits)

context session_client
begin

text \<open>A step that leaves the stream alone: no packet is dispatched, the disconnect flag is never
  cleared, and a session that is still connected has kept its receive buffer.\<close>

definition inbound_keeps where
  "inbound_keeps s s' \<longleftrightarrow> (\<exists>new. s_Trace s' = s_Trace s @ new \<and> packets_of new = []) \<and>
     (s_DisconnectRequested s \<longrightarrow> s_DisconnectRequested s') \<and>
     (\<not> s_DisconnectRequested s' \<longrightarrow> s_pReceiveBuffer s' = s_pReceiveBuffer s)"

definition stream_keeps where
  "stream_keeps s s' \<longleftrightarrow> inbound_keeps s s' \<and> counters s' = counters s"

lemma calm_keeps: "calm env inv s s' \<Longrightarrow> stream_keeps s s'"
  by (auto simp: stream_keeps_def inbound_keeps_def calm_def evolves_def)

lemma keeps_inbound: "stream_keeps s s' \<Longrightarrow> inbound_keeps s s'"
  by (simp add: stream_keeps_def)

lemma inbound_keeps_trans:
  assumes "inbound_keeps s t" "inbound_keeps t u"
  shows "inbound_keeps s u"
proof -
  obtain a b where "s_Trace t = s_Trace s @ a" "packets_of a = []" "s_Trace u = s_Trace t @ b" "packets_of b = []"
    using assms unfolding inbound_keeps_def by blast
  then have "s_Trace u = s_Trace s @ (a @ b) \<and> packets_of (a @ b) = []" by simp
  then show ?thesis using assms unfolding inbound_keeps_def by metis
qed

lemma stream_keeps_trans: "stream_keeps s t \<Longrightarrow> stream_keeps t u \<Longrightarrow> stream_keeps s u"
  using inbound_keeps_trans by (auto simp: stream_keeps_def)

lemma guard_keeps:
  assumes "sess_ok inv s"
  shows "stream_keeps s (IoCompletionGuard_dtor ops onDisc s)"
proof -
  let ?s1 = "s\<lparr>s_OutstandingIoCount := s_OutstandingIoCount s - 1, s_Trace := s_Trace s @ [Gh_IoDone]\<rparr>"
  have ok1: "sess_ok inv ?s1" using assms by (simp add: sess_ok_def)
  have k1: "stream_keeps s ?s1" by (simp add: stream_keeps_def inbound_keeps_def counters_def)
  have "stream_keeps s (TryFireOnDisconnected ops onDisc ?s1)" if "s_DisconnectRequested s"
    using stream_keeps_trans[OF k1 calm_keeps[OF TryFire_calm(1)[OF _ ok1]]] that by simp
  moreover have "IoCompletionGuard_dtor ops onDisc s \<in> {?s1} \<union> (if s_DisconnectRequested s then {TryFireOnDisconnected ops onDisc ?s1} else {})"
    by (simp only: IoCompletionGuard_dtor_def Let_def) auto
  ultimately show ?thesis using k1 by (auto split: if_splits)
qed

lemma drained_keeps:
  assumes "drained xs s t" "stream_keeps t u"
  shows "\<exists>new more. s_Trace u = s_Trace s @ new \<and> fst (deframe_all xs) = packets_of new @ more \<and> counters u = counters s \<and>
    (\<not> s_DisconnectRequested u \<longrightarrow> more = [] \<and> \<not> snd (snd (deframe_all xs)) \<and>
       (\<exists>rb. s_pReceiveBuffer u = Some rb \<and> contents rb = fst (snd (deframe_all xs))))"
proof -
  obtain new more where n: "s_Trace t = s_Trace s @ new" "fst (deframe_all xs) = packets_of new @ more" "counters t = counters s"
    "\<not> s_DisconnectRequested t \<Longrightarrow> packets_of new = fst (deframe_all xs) \<and> \<not> snd (snd (deframe_all xs)) \<and>
      (\<exists>rb. s_pReceiveBuffer t = Some rb \<and> contents rb = fst (snd (deframe_all xs)))"
    using assms(1) unfolding drained_def by blast
  obtain ext where e: "s_Trace u = s_Trace t @ ext" "packets_of ext = []" "counters u = counters t"
    "s_DisconnectRequested t \<Longrightarrow> s_DisconnectRequested u"
    "\<not> s_DisconnectRequested u \<Longrightarrow> s_pReceiveBuffer u = s_pReceiveBuffer t"
    using assms(2) unfolding stream_keeps_def inbound_keeps_def by blast
  show ?thesis
    using n e by (intro exI[of _ "new @ ext"] exI[of _ more]) auto
qed

lemma receive_completion:
  assumes "sess_ok inv s" "\<not> s_DisconnectRequested s" "s_pReceiveBuffer s = Some rb"
    "\<not> o_IsZeroByte (s_RecvOverlapped s)" "vGetWriteableBuffers ops rb = (free, o_WSABufs (s_RecvOverlapped s))"
    "data \<noteq> []" "length data \<le> free"
  shows "\<exists>s' new more. OnIOCompleted env clock ops cb True (length data) OvRecv (kernel_recv ops data s) = Some s' \<and>
    s_Trace s' = s_Trace s @ new \<and> fst (deframe_all (contents rb @ data)) = packets_of new @ more \<and>
    s_TotalRxBytes s' = s_TotalRxBytes s + of_nat (length data) \<and>
    (\<not> s_DisconnectRequested s' \<longrightarrow> more = [] \<and> \<not> snd (snd (deframe_all (contents rb @ data))) \<and>
       (\<exists>rb'. s_pReceiveBuffer s' = Some rb' \<and> contents rb' = fst (snd (deframe_all (contents rb @ data)))))"
proof -
  have inv: "inv rb" using assms(1,3) by (simp add: sess_ok_def)
  let ?rb = "buf_store ops (o_WSABufs (s_RecvOverlapped s)) data rb"
  obtain rb' where rb': "vCommitWrite ops (length data) ?rb = (True, rb')" "inv rb'" "contents rb' = contents rb @ data"
    using commit_ok[OF inv assms(5,7)] by auto
  define s2 where "s2 = (kernel_recv ops data s)\<lparr>s_pReceiveBuffer := Some rb',
    s_LastRecvTimeMs := clock (s_Trace s), s_TotalRxBytes := s_TotalRxBytes s + of_nat (length data)\<rparr>"
  have f2: "s_pReceiveBuffer s2 = Some rb'" "s_Trace s2 = s_Trace s" "\<not> s_DisconnectRequested s2"
    "s_TotalRxBytes s2 = s_TotalRxBytes s + of_nat (length data)"
    using assms(2) by (simp_all add: s2_def kernel_recv_def)
  have ok2: "sess_ok inv s2" using assms(1) rb'(2) by (simp add: s2_def kernel_recv_def sess_ok_def)
  obtain s3 where s3: "ReadReceivedBuffers (read_fuel ops s2) ops cb s2 = Some s3" "drained (contents rb') s2 s3"
    using read_fuel_enough[OF ok2 f2(1)] by auto
  have ok3: "sess_ok inv s3" using evolves_ok[OF drained_evolves[OF s3(2)] ok2] .
  let ?s3 = "s3\<lparr>s_RecvInProgress := False\<rparr>"
  let ?s4 = "RequestReceived env ops onDisc ?s3"
  have c: "calm env inv s3 ?s3" by (rule calm_flags)
  have c4: "calm env inv s3 ?s4" by (rule calm_trans[OF c RequestReceived_calm[OF calm_ok[OF c ok3]]])
  have k: "stream_keeps s3 (IoCompletionGuard_dtor ops onDisc ?s4)"
    by (rule stream_keeps_trans[OF calm_keeps[OF c4] guard_keeps[OF calm_ok[OF c4 ok3]]])
  have "HandleRealRecvCompletion env clock ops cb (length data) (kernel_recv ops data s) = Some ?s4"
    using assms(2,3,6) rb'(1) s3(1) by (simp add: HandleRealRecvCompletion_def kernel_recv_def s2_def Let_def)
  then have "OnIOCompleted env clock ops cb True (length data) OvRecv (kernel_recv ops data s) =
    Some (IoCompletionGuard_dtor ops onDisc ?s4)"
    using assms(4) by (simp add: OnIOCompleted_def HandleRecvCompletion_def kernel_recv_def)
  then show ?thesis
    using drained_keeps[OF s3(2) k] f2 rb'(3) by (auto simp: counters_def)
qed

section \<open>Whole histories of the stream\<close>

text \<open>Completions that carry no data.\<close>

lemma HandleSend_keeps:
  assumes "sess_ok inv s"
  shows "inbound_keeps s (HandleSendCompletion env ops cb bSuccess n s)"
proof -
  let ?s1 = "s\<lparr>s_SendInProgress := False\<rparr>"
  let ?s3 = "?s1\<lparr>s_pSendBuffer := map_option (snd \<circ> vConsume ops n) (s_pSendBuffer s),
    s_TotalTxBytes := s_TotalTxBytes s + of_nat n\<rparr>"
  let ?s3' = "?s3\<lparr>s_Trace := s_Trace s @ [Cb_OnSent n]\<rparr>"
  let ?s4 = "cb_OnSent cb n ?s3'"
  have send: "pred_option inv (map_option (snd \<circ> vConsume ops n) (s_pSendBuffer s))"
    using assms consume_contents(2) by (cases "s_pSendBuffer s") (auto simp: sess_ok_def)
  have ok: "sess_ok inv ?s3'" using assms send by (simp add: sess_ok_def)
  have k1: "inbound_keeps s (RequestDisconnect0 ops onDisc ?s1)"
    using calm_then_disconnect[OF calm_flags(2)[of s False] assms] by (intro keeps_inbound calm_keeps)
  have k3: "inbound_keeps s ?s3" "inbound_keeps s ?s3'" by (simp_all add: inbound_keeps_def)
  have k4: "inbound_keeps s ?s4"
    using inbound_keeps_trans[OF k3(2) keeps_inbound[OF calm_keeps[OF sent_calm[OF ok]]]] by simp
  have k5: "inbound_keeps s (snd (TryPostSendFromQueue env ops ?s4))"
    by (rule inbound_keeps_trans[OF k4 keeps_inbound[OF calm_keeps[OF TryPost_calm]]])
  show ?thesis unfolding HandleSendCompletion_def Let_def using k1 k3 k4 k5 by simp
qed

lemma HandleRecv_keeps:
  assumes "sess_ok inv s" "\<not> bSuccess \<or> o_IsZeroByte (s_RecvOverlapped s) \<or> n = 0"
    "HandleRecvCompletion env clock ops cb bSuccess n s = Some s'"
  shows "inbound_keeps s s'"
proof -
  have "calm env inv s (HandleZeroByteRecvCompletion env ops onDisc n s)"
    using recv_or_disconnect_calm[OF assms(1), of False] calm_flags(1)[of s False]
    by (simp add: HandleZeroByteRecvCompletion_def)
  moreover note calm_then_disconnect[OF calm_flags(1)[of s False] assms(1)]
  ultimately have "calm env inv s s'"
    using assms(2,3) by (auto simp: HandleRecvCompletion_def HandleRealRecvCompletion_def split: if_splits)
  then show ?thesis by (intro keeps_inbound calm_keeps)
qed

lemma no_data_keeps:
  assumes "session_inv env inv s" "1 \<le> s_OutstandingIoCount s" "p \<noteq> OvNull"
    "p = OvRecv \<Longrightarrow> \<not> bSuccess \<or> o_IsZeroByte (s_RecvOverlapped s) \<or> n = 0"
    "OnIOCompleted env clock ops cb bSuccess n p s = Some s'"
  shows "inbound_keeps s s'"
proof -
  have ok: "sess_ok inv s" using assms(1) by (simp add: session_inv_def)
  obtain s1 where s1: "inbound_keeps s s1" "sess_ok inv s1" "s' = IoCompletionGuard_dtor ops onDisc s1"
  proof (cases p)
    case OvRecv
    obtain s1 where h: "HandleRecvCompletion env clock ops cb bSuccess n s = Some s1" "evolves env inv s s1"
      using HandleRecv_evolves[OF ok] by blast
    have "s' = IoCompletionGuard_dtor ops onDisc s1" using assms(5) OvRecv h(1) by (simp add: OnIOCompleted_def)
    then show ?thesis by (rule that[OF HandleRecv_keeps[OF ok assms(4)[OF OvRecv] h(1)] evolves_ok[OF h(2) ok]])
  next
    case OvSend
    have "s' = IoCompletionGuard_dtor ops onDisc (HandleSendCompletion env ops cb bSuccess n s)"
      using assms(5) OvSend by (simp add: OnIOCompleted_def)
    then show ?thesis by (rule that[OF HandleSend_keeps[OF ok] evolves_ok[OF HandleSend_evolves[OF ok] ok]])
  next
    case OvOther
    then show ?thesis using that[of s] ok assms(5) keeps_inbound[OF calm_keeps[OF calm_refl]] by (auto simp: OnIOCompleted_def)
  qed (use assms(3) in simp)
  show ?thesis unfolding s1(3) by (rule inbound_keeps_trans[OF s1(1) keeps_inbound[OF guard_keeps[OF s1(2)]]])
qed

text \<open>What holds of a session that has received the bytes \<open>xs\<close>.\<close>

definition stream_ok where
  "stream_ok xs s \<longleftrightarrow> (\<exists>more. fst (deframe_all xs) = packets_of (s_Trace s) @ more \<and>
     (\<not> s_DisconnectRequested s \<longrightarrow> more = [] \<and> \<not> snd (snd (deframe_all xs)) \<and>
        (\<exists>rb. s_pReceiveBuffer s = Some rb \<and> contents rb = fst (snd (deframe_all xs)))))"

lemma stream_ok_keeps: "stream_ok xs s \<Longrightarrow> inbound_keeps s s' \<Longrightarrow> stream_ok xs s'"
  unfolding stream_ok_def inbound_keeps_def by auto

lemma stream_ok_silent:
  assumes "stream_ok xs s" "silent_after s s'" "s_DisconnectRequested s"
  shows "stream_ok (xs @ data) s'"
proof -
  obtain new where new: "s_Trace s' = s_Trace s @ new" "\<not> list_ex is_active new" "s_DisconnectRequested s'"
    using assms(2,3) by (auto simp: silent_after_def)
  have "packets_of new = []" using new(2) by (rule inactive_packets)
  moreover obtain more where "fst (deframe_all (xs @ data)) = fst (deframe_all xs) @ more"
    using deframe_all_more by blast
  moreover obtain more' where "fst (deframe_all xs) = packets_of (s_Trace s) @ more'"
    using assms(1) by (auto simp: stream_ok_def)
  ultimately show ?thesis using new(1,3) by (simp add: stream_ok_def)
qed

lemma stream_ok_received:
  assumes "session_inv env inv s" "stream_ok xs s" "\<not> s_DisconnectRequested s" "s_pReceiveBuffer s = Some rb"
    "\<not> o_IsZeroByte (s_RecvOverlapped s)" "vGetWriteableBuffers ops rb = (free, o_WSABufs (s_RecvOverlapped s))"
    "data \<noteq> []" "length data \<le> free"
    "OnIOCompleted env clock ops cb True (length data) OvRecv (kernel_recv ops data s) = Some s'"
  shows "stream_ok (xs @ data) s'"
proof -
  have ok: "sess_ok inv s" using assms(1) by (simp add: session_inv_def)
  have xs: "fst (deframe_all xs) = packets_of (s_Trace s)" "\<not> snd (snd (deframe_all xs))" "contents rb = fst (snd (deframe_all xs))"
    using assms(2-4) by (auto simp: stream_ok_def)
  have a: "deframe_all (xs @ data) = (packets_of (s_Trace s) @ fst (deframe_all (contents rb @ data)), snd (deframe_all (contents rb @ data)))"
    using xs by (simp add: deframe_all_append split_beta)
  show ?thesis
    using receive_completion[OF ok assms(3-8), of clock] assms(9) unfolding stream_ok_def a by fastforce
qed

lemma stream_ok_calm:
  assumes "session_stream env clock ops cb s0 xs s" "session_inv env inv s0" "stream_ok xs s"
    "sess_ok inv s \<Longrightarrow> calm env inv s s'"
  shows "stream_ok xs s'"
proof -
  have "sess_ok inv s" using session_run_inv[OF session_stream_run[OF assms(1)] assms(2)] by (simp add: session_inv_def)
  from stream_ok_keeps[OF assms(3) keeps_inbound[OF calm_keeps[OF assms(4)[OF this]]]] show ?thesis .
qed

lemma stream_in_order:
  assumes "session_stream env clock ops cb s0 xs s" "session_inv env inv s0" "packets_of (s_Trace s0) = []"
    "s_pReceiveBuffer s0 = Some rb0" "contents rb0 = []"
  shows "stream_ok xs s"
  using assms(1)
proof induction
  case st_start
  show ?case using assms(3-5) by (simp add: stream_ok_def deframe_all.simps deframe_def)
next
  case (st_completion xs s p bSuccess n s')
  then show ?case
    using no_data_keeps[OF session_run_inv[OF session_stream_run assms(2)]] stream_ok_keeps by blast
next
  case (st_received xs s rb free data s')
  have inv: "session_inv env inv s" by (rule session_run_inv[OF session_stream_run[OF st_received(1)] assms(2)])
  have "session_call env clock ops cb s s'" using st_received by (blast intro: call_received)
  from session_call_step(2)[OF this inv] show ?case
    using st_received stream_ok_silent[of xs s s' data] stream_ok_received[OF inv] by blast
next
  case (st_send xs s packetId body)
  then show ?case by (rule stream_ok_calm[OF _ assms(2) _ SendMessage_calm])
next
  case (st_send_buffer xs s data)
  then show ?case by (rule stream_ok_calm[OF _ assms(2) _ SendBuffer_calm])
next
  case (st_loop xs s)
  then show ?case by (rule stream_ok_calm[OF _ assms(2) _ StartReceiveLoop_calm])
next
  case (st_disconnect xs s reason)
  then show ?case by (rule stream_ok_calm[OF _ assms(2) _ RequestDisconnect_calm(1)])
qed

end

text \<open>A completed receive of the IOCP server is handled to its end. It dispatches the packets
  that the unframed bytes and the new bytes start with, each once and in order, and counts
  the bytes; unless the session asked for a disconnect on the way, all packets were
  dispatched and the bytes behind the last one are kept. A corrupt stream always ends in a
  disconnect request.\<close>

theorem iocp_receive_dispatches:
  assumes "0 < rc" "0 < sc" "iocp_run env clock cd nowNs time0 admin (fresh_session sessions i sk rc sc) s"
    "\<not> s_DisconnectRequested s" "s_pReceiveBuffer s = Some rb" "\<not> o_IsZeroByte (s_RecvOverlapped s)"
    "CircleBufferQueue_GetWriteableBuffers rb = (free, o_WSABufs (s_RecvOverlapped s))" "data \<noteq> []" "length data \<le> free"
  shows "\<exists>s' new more. OnIOCompleted env clock CircleBufferQueue_vtable
        (iocp_callbacks env CircleBufferQueue_vtable cd nowNs time0 admin) True (length data) OvRecv
        (kernel_recv CircleBufferQueue_vtable data s) = Some s' \<and>
    s_Trace s' = s_Trace s @ new \<and> fst (deframe_all (cbq_contents rb @ data)) = packets_of new @ more \<and>
    s_TotalRxBytes s' = s_TotalRxBytes s + of_nat (length data) \<and>
    (\<not> s_DisconnectRequested s' \<longrightarrow> more = [] \<and> \<not> snd (snd (deframe_all (cbq_contents rb @ data))) \<and>
       (\<exists>rb'. s_pReceiveBuffer s' = Some rb' \<and> cbq_contents rb' = fst (snd (deframe_all (cbq_contents rb @ data)))))"
proof -
  have "sess_ok cbq_inv s" using iocp_run_inv[OF assms(1-3)] by (simp add: session_inv_def)
  moreover have "vGetWriteableBuffers CircleBufferQueue_vtable rb = (free, o_WSABufs (s_RecvOverlapped s))"
    using assms(7) by (simp add: CircleBufferQueue_vtable_def)
  ultimately show ?thesis by (rule iocp.receive_completion[OF _ assms(4-6) _ assms(8,9)])
qed


text \<open>A session whose first zero-byte probe has completed, for the witness.\<close>

definition demo_started :: "CircleBufferQueue IOCPInboundSession" where
  "demo_started = StartReceiveLoop (\<lambda>_ _. 0) CircleBufferQueue_vtable IOCPInboundSession_OnDisconnected
     (fresh_session [] 7 (Some (Socket_of_handle (Some 3))) 8 8)"

definition demo_posted :: "CircleBufferQueue IOCPInboundSession" where
  "demo_posted = (demo_started\<lparr>s_RecvOverlapped := (s_RecvOverlapped demo_started)\<lparr>o_IsZeroByte := False, o_WSABufs := [(0, 8)]\<rparr>,
     s_Trace := s_Trace demo_started @ [Sys_WSARecv (Some 3) [(0, 8)], Gh_IoDone]\<rparr>)"

lemma demo_posted_reached:
  "OnIOCompleted (\<lambda>_ _. 0) (\<lambda>_. 0) CircleBufferQueue_vtable demo_cb True 0 OvRecv demo_started = Some demo_posted"
  "1 \<le> s_OutstandingIoCount demo_started"
  by (simp_all add: demo_posted_def demo_started_def OnIOCompleted_def HandleRecvCompletion_def HandleZeroByteRecvCompletion_def
      StartReceiveLoop_def RequestReceived_def RequestRecv_def PrepareRecvBuffers_def fresh_defs Let_def syscall_def
      AddOutstandingIo_def IoCompletionGuard_dtor_def CircleBufferQueue_vtable_def CircleBufferQueue_GetWriteableBuffers_def
      CircleBufferQueue_ctor_def Socket_of_handle_def)

lemma demo_posted_run:
  "session_run (\<lambda>_ _. 0) (\<lambda>_. 0) CircleBufferQueue_vtable demo_cb (fresh_session [] 7 (Some (Socket_of_handle (Some 3))) 8 8) demo_posted"
proof -
  let ?fresh = "fresh_session [] 7 (Some (Socket_of_handle (Some 3))) 8 8"
  have "session_run (\<lambda>_ _. 0) (\<lambda>_. 0) CircleBufferQueue_vtable demo_cb ?fresh demo_started"
    unfolding demo_started_def by (rule iocp_run_calls)
  then show ?thesis
    by (rule run_call) (rule call_completion[OF demo_posted_reached(2) _ demo_posted_reached(1)], simp)
qed

theorem iocp_receive_dispatches_witness:
  "\<exists>s' new more. OnIOCompleted (\<lambda>_ _. 0) (\<lambda>_. 0) CircleBufferQueue_vtable demo_cb True (length [0, 5, 0, 9, 65 :: byte]) OvRecv
      (kernel_recv CircleBufferQueue_vtable [0, 5, 0, 9, 65] demo_posted) = Some s' \<and>
    s_Trace s' = s_Trace demo_posted @ new \<and> [Packet_of_content 9 [65]] = packets_of new @ more"
proof -
  let ?fresh = "fresh_session [] 7 (Some (Socket_of_handle (Some 3))) 8 8"
  have f: "\<not> s_DisconnectRequested demo_posted" "s_pReceiveBuffer demo_posted = Some (CircleBufferQueue_ctor 8)"
    "\<not> o_IsZeroByte (s_RecvOverlapped demo_posted)" "o_WSABufs (s_RecvOverlapped demo_posted) = [(0, 8)]"
    by (simp_all add: demo_posted_def demo_started_def StartReceiveLoop_def RequestReceived_def RequestRecv_def
        PrepareRecvBuffers_def fresh_defs Let_def syscall_def AddOutstandingIo_def)
  have g: "CircleBufferQueue_GetWriteableBuffers (CircleBufferQueue_ctor 8) = (8, o_WSABufs (s_RecvOverlapped demo_posted))"
    unfolding f(4) by (simp add: CircleBufferQueue_GetWriteableBuffers_def CircleBufferQueue_ctor_def Let_def)
  have d: "fst (deframe_all [0, 5, 0, 9, 65]) = [Packet_of_content 9 [65]]"
    by code_simp
  have c: "cbq_contents (CircleBufferQueue_ctor 8) = []" by code_simp
  show ?thesis using iocp_receive_dispatches[OF _ _ demo_posted_run f(1-3) g, of "[0, 5, 0, 9, 65]"] d c by auto
qed


text \<open>C22: every I/O completion is handled to its end. Take any reachable session with an I/O in flight;
  the kernel may have written any bytes at all into the buffers of the posted receive, or nothing.
  \<open>OnIOCompleted\<close> then returns whatever it is told (which operation, success or failure, any number of
  bytes): the framing loop terminates within its fuel on every content of the ring, packets,
  fragments and corrupt headers alike, and the outstanding counter is exact afterwards.\<close>

theorem completion_always_returns:
  assumes "0 < rc" "0 < sc"
    "iocp_run env clock cd nowNs time0 admin (fresh_session sessions i sk rc sc) s"
    "1 \<le> s_OutstandingIoCount s" "p \<noteq> OvNull"
    "t = s \<or> (s_pReceiveBuffer s = Some rb \<and> length data \<le> free \<and>
       CircleBufferQueue_GetWriteableBuffers rb = (free, o_WSABufs (s_RecvOverlapped s)) \<and>
       t = kernel_recv CircleBufferQueue_vtable data s)"
  shows "\<exists>s'. OnIOCompleted env clock CircleBufferQueue_vtable
      (iocp_callbacks env CircleBufferQueue_vtable cd nowNs time0 admin) bSuccess n p t = Some s' \<and>
    s_OutstandingIoCount s' = in_flight env [] (s_Trace s') \<and> 0 \<le> s_OutstandingIoCount s'"
proof -
  have inv: "session_inv env cbq_inv s" by (rule iocp_run_inv[OF assms(1-3)])
  have "session_inv env cbq_inv t \<and> 1 \<le> s_OutstandingIoCount t"
  proof (cases "t = s")
    case False
    then have k: "s_pReceiveBuffer s = Some rb" "length data \<le> free"
      "vGetWriteableBuffers CircleBufferQueue_vtable rb = (free, o_WSABufs (s_RecvOverlapped s))"
      "t = kernel_recv CircleBufferQueue_vtable data s"
      using assms(6) by (auto simp: CircleBufferQueue_vtable_def)
    have "sess_ok cbq_inv s" using inv by (simp add: session_inv_def)
    from iocp.kernel_recv_evolves[OF this k(1,3,2)] have "session_inv env cbq_inv t"
      unfolding k(4) by (rule session_inv_evolves[OF inv])
    then show ?thesis using k(4) assms(4) by (simp add: kernel_recv_def)
  qed (use inv assms(4) in simp)
  then obtain s' where "OnIOCompleted env clock CircleBufferQueue_vtable
      (iocp_callbacks env CircleBufferQueue_vtable cd nowNs time0 admin) bSuccess n p t = Some s'" "session_inv env cbq_inv s'"
    using iocp.OnIOCompleted_step[of env t p] assms(5) by blast
  then show ?thesis by (auto simp: session_inv_def notified_def)
qed

text \<open>Here the completed receive brought a whole packet, which the framing loop takes out.\<close>

theorem completion_always_returns_witness:
  "\<exists>s'. OnIOCompleted (\<lambda>_ _. 0) (\<lambda>_. 0) CircleBufferQueue_vtable demo_cb True 5 OvRecv
      (kernel_recv CircleBufferQueue_vtable [0, 5, 0, 9, 65] demo_posted) = Some s' \<and>
    s_OutstandingIoCount s' = in_flight (\<lambda>_ _. 0) [] (s_Trace s') \<and> 0 \<le> s_OutstandingIoCount s'"
proof -
  have "1 \<le> s_OutstandingIoCount demo_posted"
    by (simp add: demo_posted_def demo_started_def StartReceiveLoop_def RequestReceived_def RequestRecv_def
        PrepareRecvBuffers_def fresh_defs Let_def syscall_def AddOutstandingIo_def)
  moreover have "s_pReceiveBuffer demo_posted = Some (CircleBufferQueue_ctor 8) \<and> length [0, 5, 0, 9, 65 :: byte] \<le> 8 \<and>
      CircleBufferQueue_GetWriteableBuffers (CircleBufferQueue_ctor 8) = (8, o_WSABufs (s_RecvOverlapped demo_posted))"
    by (simp add: demo_posted_def demo_started_def StartReceiveLoop_def RequestReceived_def RequestRecv_def fresh_defs Let_def
        PrepareRecvBuffers_def syscall_def AddOutstandingIo_def CircleBufferQueue_GetWriteableBuffers_def CircleBufferQueue_ctor_def)
  ultimately show ?thesis
    using completion_always_returns[OF _ _ demo_posted_run, where p = OvRecv and rb = "CircleBufferQueue_ctor 8"
        and data = "[0, 5, 0, 9, 65]" and free = 8 and bSuccess = True and n = 5]
    by simp
qed

text \<open>C2: after any history of a session of the IOCP server, the packets dispatched so far are the
  first packets of the bytes received so far, each once and in order, however the stream was
  cut into receives; as long as the session is connected they are all of them, the bytes
  were not corrupt, and the ring holds exactly the bytes behind the last packet.\<close>

theorem iocp_stream_in_order:
  assumes "0 < rc" "0 < sc"
    "session_stream env clock CircleBufferQueue_vtable (iocp_callbacks env CircleBufferQueue_vtable cd nowNs time0 admin)
       (fresh_session sessions i sk rc sc) xs s"
  shows "\<exists>more. fst (deframe_all xs) = packets_of (s_Trace s) @ more \<and>
    (\<not> s_DisconnectRequested s \<longrightarrow> more = [] \<and> \<not> snd (snd (deframe_all xs)) \<and>
       (\<exists>rb. s_pReceiveBuffer s = Some rb \<and> cbq_contents rb = fst (snd (deframe_all xs))))"
proof -
  let ?f = "fresh_session sessions i sk rc sc"
  have f: "packets_of (s_Trace ?f) = []" "s_pReceiveBuffer ?f = Some (CircleBufferQueue_ctor rc)" by (simp_all add: fresh_defs)
  have "cbq_contents (CircleBufferQueue_ctor rc) = []"
    by (simp add: cbq_contents_def CircleBufferQueue_ctor_def)
  from iocp.stream_in_order[OF assms(3) iocp_fresh_inv[OF assms(1,2)] f this] show ?thesis
    by (simp add: iocp.stream_ok_def)
qed

lemma demo_posted_stream:
  "session_stream (\<lambda>_ _. 0) (\<lambda>_. 0) CircleBufferQueue_vtable demo_cb (fresh_session [] 7 (Some (Socket_of_handle (Some 3))) 8 8) [] demo_posted"
proof -
  have "session_stream (\<lambda>_ _. 0) (\<lambda>_. 0) CircleBufferQueue_vtable demo_cb (fresh_session [] 7 (Some (Socket_of_handle (Some 3))) 8 8) [] demo_started"
    using st_loop[OF st_start, of "\<lambda>_ _. 0" "\<lambda>_. 0" CircleBufferQueue_vtable demo_cb "fresh_session [] 7 (Some (Socket_of_handle (Some 3))) 8 8"]
    by (simp add: demo_started_def)
  then show ?thesis by (rule st_completion[OF _ demo_posted_reached(2) _ _ demo_posted_reached(1)]) simp_all
qed

theorem iocp_stream_in_order_witness:
  "\<exists>more. [] = packets_of (s_Trace demo_posted) @ more \<and>
    (\<exists>rb. s_pReceiveBuffer demo_posted = Some rb \<and> cbq_contents rb = [])"
proof -
  have "\<not> s_DisconnectRequested demo_posted"
    by (simp add: demo_posted_def demo_started_def StartReceiveLoop_def RequestReceived_def RequestRecv_def
        PrepareRecvBuffers_def fresh_defs Let_def syscall_def AddOutstandingIo_def)
  moreover have "deframe_all [] = ([], [], False)" by (simp add: deframe_all.simps deframe_def)
  ultimately show ?thesis using iocp_stream_in_order[OF _ _ demo_posted_stream] by simp
qed

section \<open>The zero-copy send\<close>

text \<open>Reserving space and storing into the reserved spans leaves the ring as \<open>Write\<close> does.\<close>

lemma alloc_store_is_Write:
  assumes "cbq_inv q" "length (cbq_contents q) + length data \<le> m_Capacity q"
    "CircleBufferQueue_AllocateWrite (length data) q = (Some ss, q')"
  shows "CircleBufferQueue_Write data q = (True, buf_store CircleBufferQueue_vtable ss data q')"
  using assms
  by (auto simp: CircleBufferQueue_AllocateWrite_def CircleBufferQueue_Write_def CircleBufferQueue_vtable_def buf_store_def
      Let_def memcpy_at_def split: if_splits)

text \<open>C7: \<open>SendMessage\<close>, which serialises header, id and body in place into the reserved spans of the
  ring, leaves the session, its ring and the calls it made exactly as sending the encoded packet
  with \<open>SendBuffer\<close> would; only when the packet does not fit do they differ, and
  \<open>SendMessage\<close> requests a disconnect.\<close>

theorem zero_copy_send_equals_write:
  assumes "sess_ok cbq_inv s" "s_pSendBuffer s = Some sb"
  shows "SendMessage env CircleBufferQueue_vtable IOCPInboundSession_OnDisconnected i body s =
    (if s_DisconnectRequested s \<or> length (cbq_contents sb) + length body + 4 \<le> m_Capacity sb
     then SendBuffer env CircleBufferQueue_vtable (GetRawSpan (Packet_of_content i body)) s
     else RequestDisconnect CircleBufferQueue_vtable IOCPInboundSession_OnDisconnected Normal s)"
proof -
  have inv: "cbq_inv sb" using assms by (simp add: sess_ok_def)
  have len: "length (GetRawSpan (Packet_of_content i body)) = length body + 4" by simp
  show ?thesis
  proof (cases "s_DisconnectRequested s")
    case True
    then show ?thesis using assms(2) by (simp add: SendMessage_def SendBuffer_def)
  next
    case False
    show ?thesis
    proof (cases "length (cbq_contents sb) + length body + 4 \<le> m_Capacity sb")
      case True
      obtain ss sb' where a: "CircleBufferQueue_AllocateWrite (length body + 4) sb = (Some ss, sb')"
        using cbq.alloc_ok[OF inv, of "length body + 4"] True by (auto simp: CircleBufferQueue_vtable_def)
      have w: "spans_within (length (vMem CircleBufferQueue_vtable sb')) ss" "spans_size ss = length body + 4"
        using cbq.alloc_ok[OF inv, of "length body + 4"] True a by (auto simp: CircleBufferQueue_vtable_def)
      have "vSetMem CircleBufferQueue_vtable (write_message ss i body (vMem CircleBufferQueue_vtable sb')) sb' =
        buf_store CircleBufferQueue_vtable ss (GetRawSpan (Packet_of_content i body)) sb'"
        by (simp add: buf_store_def iocp0.write_message_scatter[OF w])
      moreover have "CircleBufferQueue_Write (GetRawSpan (Packet_of_content i body)) sb =
        (True, buf_store CircleBufferQueue_vtable ss (GetRawSpan (Packet_of_content i body)) sb')"
        by (rule alloc_store_is_Write[OF inv]) (use True a len in auto)
      moreover have "vWrite CircleBufferQueue_vtable = CircleBufferQueue_Write"
        "vAllocateWrite CircleBufferQueue_vtable = CircleBufferQueue_AllocateWrite"
        by (simp_all add: CircleBufferQueue_vtable_def)
      moreover have "GetRawSpan (Packet_of_content i body) \<noteq> []" using len by fastforce
      ultimately show ?thesis using a assms(2) False True
        by (simp add: SendMessage_def SendBuffer_def add.commute)
    next
      case no: False
      then show ?thesis using SendMessage_no_room(1)[OF assms False, of body env i] False by simp
    qed
  qed
qed

theorem zero_copy_send_equals_write_witness:
  "SendMessage (\<lambda>_ _. 0) CircleBufferQueue_vtable IOCPInboundSession_OnDisconnected 1 [65] (fresh_session [] 7 None 8 8) =
   SendBuffer (\<lambda>_ _. 0) CircleBufferQueue_vtable [0, 5, 0, 1, 65] (fresh_session [] 7 None 8 8)"
proof -
  have ok: "sess_ok cbq_inv (fresh_session [] 7 None 8 8)"
    using iocp_fresh_inv[of 8 8 "\<lambda>_ _. 0" "[]" 7 None] by (simp add: session_inv_def)
  have sb: "s_pSendBuffer (fresh_session [] 7 None 8 8) = Some (CircleBufferQueue_ctor 8)" by (simp add: fresh_defs)
  have e: "GetRawSpan (Packet_of_content 1 [65]) = [0, 5, 0, 1, 65]" by code_simp
  have c: "length (cbq_contents (CircleBufferQueue_ctor 8)) + length [65 :: byte] + 4 \<le> m_Capacity (CircleBufferQueue_ctor 8)"
    by code_simp
  show ?thesis
    using zero_copy_send_equals_write[OF ok sb, of "\<lambda>_ _. 0" 1 "[65]"] e c by simp
qed

end
