(* ===== verification/Rio_Buffer_Manager.thy ===== *)
theory Rio_Buffer_Manager
  imports External_Buffer
begin

text \<open>
  \<open>RioExtension\<close> and \<open>RioBufferManager\<close> (\<open>LibNetworksRIO\<close>): loading the function table of
  Registered I/O, and the pool of registered memory from which the sessions get their
  slices. The block is a list of bytes, \<open>pData\<close> of a slice a position in it. The members are
  32-bit words, so that \<open>m_CurrentOffset + size\<close> wraps as in the code. The answers of
  \<open>VirtualAlloc\<close> and \<open>RIORegisterBuffer\<close> are arguments; the calls that acquire or release a
  resource are logged in \<open>bm_Log\<close>. The mutex makes each call one step.

  The pool is a locale \<open>slice_pool\<close> of what a client may rely on, shown for the manager's
  functions: every byte below the current offset belongs to exactly one slice, handed out or
  free.
\<close>

section \<open>RioExtension\<close>

record RioExtension =
  re_Initialized :: bool
  re_Table :: "nat option"

text \<open>\<open>WSAIoctl\<close> answers with the table (\<open>Some\<close>) or \<open>SOCKET_ERROR\<close> (\<open>None\<close>).\<close>

definition RioExtension_Initialize ::
  "nat option \<Rightarrow> nat option \<Rightarrow> RioExtension \<Rightarrow> bool \<times> RioExtension" where
  "RioExtension_Initialize ioctl socket e =
     (if re_Initialized e then (True, e)
      else if socket = None then (False, e)
      else case ioctl of
          None \<Rightarrow> (False, e)
        | Some t \<Rightarrow> (True, e\<lparr>re_Initialized := True, re_Table := Some t\<rparr>))"

section \<open>RioBufferManager\<close>

record RioBufferSlice =
  sl_BufferId :: "nat option"
  sl_Offset :: u32
  sl_Length :: u32
  sl_pData :: nat

datatype pool_event =
    Ev_VirtualAlloc u32 bool
  | Ev_VirtualFree
  | Ev_RIORegisterBuffer u32 "nat option"
  | Ev_RIODeregisterBuffer nat

record RioBufferManager =
  bm_BufferId :: "nat option"
  bm_pBuffer :: "byte list option"
  bm_TotalSize :: u32
  bm_CurrentOffset :: u32
  bm_AllocatedCount :: u32
  bm_FreeList :: "RioBufferSlice list"
  bm_Log :: "pool_event list"

definition RioBufferSlice_default :: RioBufferSlice where
  "RioBufferSlice_default = \<lparr>sl_BufferId = None, sl_Offset = 0, sl_Length = 0, sl_pData = 0\<rparr>"

definition RioBufferManager_default :: RioBufferManager where
  "RioBufferManager_default =
     \<lparr>bm_BufferId = None, bm_pBuffer = None, bm_TotalSize = 0, bm_CurrentOffset = 0,
      bm_AllocatedCount = 0, bm_FreeList = [], bm_Log = []\<rparr>"

definition bm_log :: "pool_event \<Rightarrow> RioBufferManager \<Rightarrow> RioBufferManager" where
  "bm_log e m = m\<lparr>bm_Log := bm_Log m @ [e]\<rparr>"

definition RioBufferManager_Initialize ::
  "bool \<Rightarrow> nat option \<Rightarrow> u32 \<Rightarrow> RioBufferManager \<Rightarrow> bool \<times> RioBufferManager" where
  "RioBufferManager_Initialize allocated registered totalSize m =
     (if bm_pBuffer m \<noteq> None then (True, m)
      else
        let m1 = bm_log (Ev_VirtualAlloc totalSize allocated) m in
        if \<not> allocated then (False, m1)
        else
          let m2 = bm_log (Ev_RIORegisterBuffer totalSize registered)
                     (m1\<lparr>bm_pBuffer := Some (replicate (unat totalSize) 0), bm_BufferId := registered\<rparr>) in
          if registered = None then (False, bm_log Ev_VirtualFree (m2\<lparr>bm_pBuffer := None\<rparr>))
          else (True, m2\<lparr>bm_TotalSize := totalSize, bm_CurrentOffset := 0\<rparr>))"

text \<open>The search of the free list: the first slice of the same length, and the list
  without it.\<close>

fun take_free :: "u32 \<Rightarrow> RioBufferSlice list \<Rightarrow> (RioBufferSlice \<times> RioBufferSlice list) option" where
  "take_free sz [] = None"
| "take_free sz (x # xs) =
     (if sl_Length x = sz then Some (x, xs)
      else map_option (\<lambda>(y, ys). (y, x # ys)) (take_free sz xs))"

text \<open>\<open>outSlice\<close> is the second component; it is left unchanged when the call fails.\<close>

definition RioBufferManager_AllocateSlice ::
  "u32 \<Rightarrow> RioBufferSlice \<Rightarrow> RioBufferManager \<Rightarrow> bool \<times> RioBufferSlice \<times> RioBufferManager" where
  "RioBufferManager_AllocateSlice sz outSlice m =
     (case take_free sz (bm_FreeList m) of
        Some (x, rest) \<Rightarrow>
          (True, x, m\<lparr>bm_FreeList := rest, bm_AllocatedCount := bm_AllocatedCount m + 1\<rparr>)
      | None \<Rightarrow>
          if bm_CurrentOffset m + sz > bm_TotalSize m then (False, outSlice, m)
          else
            (True,
             \<lparr>sl_BufferId = bm_BufferId m, sl_Offset = bm_CurrentOffset m, sl_Length = sz,
              sl_pData = unat (bm_CurrentOffset m)\<rparr>,
             m\<lparr>bm_CurrentOffset := bm_CurrentOffset m + sz,
               bm_AllocatedCount := bm_AllocatedCount m + 1\<rparr>))"

definition RioBufferManager_DeallocateSlice :: "RioBufferSlice \<Rightarrow> RioBufferManager \<Rightarrow> RioBufferManager" where
  "RioBufferManager_DeallocateSlice rfSlice m =
     (let m1 = m\<lparr>bm_FreeList := bm_FreeList m @ [rfSlice]\<rparr>
      in if bm_AllocatedCount m1 > 0 then m1\<lparr>bm_AllocatedCount := bm_AllocatedCount m1 - 1\<rparr> else m1)"

definition RioBufferManager_GetAllocatedCount :: "RioBufferManager \<Rightarrow> u32" where
  "RioBufferManager_GetAllocatedCount m = bm_AllocatedCount m"

definition RioBufferManager_GetFreeCount :: "RioBufferManager \<Rightarrow> u32" where
  "RioBufferManager_GetFreeCount m = of_nat (length (bm_FreeList m))"

definition RioBufferManager_Finalize :: "RioBufferManager \<Rightarrow> RioBufferManager" where
  "RioBufferManager_Finalize m =
     (let m1 = (case bm_BufferId m of
                  None \<Rightarrow> m
                | Some i \<Rightarrow> (bm_log (Ev_RIODeregisterBuffer i) m)\<lparr>bm_BufferId := None\<rparr>);
          m2 = (case bm_pBuffer m1 of
                  None \<Rightarrow> m1
                | Some _ \<Rightarrow> (bm_log Ev_VirtualFree m1)\<lparr>bm_pBuffer := None\<rparr>)
      in m2\<lparr>bm_TotalSize := 0, bm_CurrentOffset := 0\<rparr>)"

definition RioBufferManager_dtor :: "RioBufferManager \<Rightarrow> RioBufferManager" where
  "RioBufferManager_dtor m = RioBufferManager_Finalize m"

section \<open>The pool as its clients see it\<close>

definition covers :: "nat \<Rightarrow> RioBufferSlice \<Rightarrow> bool" where
  "covers k x \<longleftrightarrow> sl_pData x \<le> k \<and> k < sl_pData x + unat (sl_Length x)"

definition owners :: "nat \<Rightarrow> RioBufferSlice list \<Rightarrow> nat" where
  "owners k xs = length (filter (covers k) xs)"

lemma owners_simps [simp]:
  "owners k [] = 0"
  "owners k (x # xs) = (if covers k x then 1 else 0) + owners k xs"
  "owners k (xs @ ys) = owners k xs + owners k ys"
  by (auto simp: owners_def)

lemma owners_remove1: "x \<in> set xs \<Longrightarrow> owners k xs = (if covers k x then 1 else 0) + owners k (remove1 x xs)"
  by (induction xs) auto

lemma owners_ge: "x \<in> set xs \<Longrightarrow> covers k x \<Longrightarrow> 1 \<le> owners k xs"
  by (induction xs) auto

lemma owners_two:
  assumes "i < length xs" "j < length xs" "i \<noteq> j" "covers k (xs ! i)" "covers k (xs ! j)"
  shows "2 \<le> owners k xs"
proof -
  have "card {i, j} \<le> card {i. i < length xs \<and> covers k (xs ! i)}"
    using assms by (intro card_mono) auto
  then show ?thesis using assms(3) by (simp add: owners_def length_filter_conv_card)
qed

lemma take_free_owners:
  "take_free n xs = Some (y, ys) \<Longrightarrow> owners k xs = (if covers k y then 1 else 0) + owners k ys"
  by (induction xs arbitrary: y ys) (auto split: if_splits)

lemma take_free_set:
  "take_free n xs = Some (y, ys) \<Longrightarrow> sl_Length y = n \<and> y \<in> set xs \<and> set ys \<subseteq> set xs"
  by (induction xs arbitrary: y ys) (auto split: if_splits)

lemma take_free_length: "take_free n xs = Some (y, ys) \<Longrightarrow> length xs = Suc (length ys)"
  by (induction xs arbitrary: y ys) (auto split: if_splits)

text \<open>What the sessions rely on: a slice handed out has the length asked for and lies in the
  block, and two slices handed out at the same time share no byte.\<close>

definition window :: "RioBufferSlice \<Rightarrow> span" where
  "window x = (sl_pData x, unat (sl_Length x))"

definition apart :: "span \<Rightarrow> span \<Rightarrow> bool" where
  "apart a b \<longleftrightarrow> fst a + snd a \<le> fst b \<or> fst b + snd b \<le> fst a \<or> snd a = 0 \<or> snd b = 0"

locale slice_pool =
  fixes alloc :: "u32 \<Rightarrow> 'm \<Rightarrow> (RioBufferSlice \<times> 'm) option"
    and free :: "RioBufferSlice \<Rightarrow> 'm \<Rightarrow> 'm"
    and pool_inv :: "'m \<Rightarrow> RioBufferSlice list \<Rightarrow> bool"
    and tot :: nat
  assumes alloc_law: "pool_inv m live \<Longrightarrow> tot + unat n < 2 ^ 32 \<Longrightarrow> alloc n m = Some (x, m') \<Longrightarrow>
      pool_inv m' (x # live) \<and> sl_Length x = n"
    and free_law: "pool_inv m live \<Longrightarrow> x \<in> set live \<Longrightarrow> pool_inv (free x m) (remove1 x live)"
    and owners_law: "pool_inv m live \<Longrightarrow> owners k live \<le> (if k < tot then 1 else 0)"
begin

lemma live_in_block:
  assumes "pool_inv m live" "x \<in> set live" "sl_Length x \<noteq> 0"
  shows "fst (window x) + snd (window x) \<le> tot"
proof (rule ccontr)
  assume "\<not> ?thesis"
  moreover have "0 < unat (sl_Length x)" using assms(3) by (simp add: unat_gt_0)
  ultimately have "covers (sl_pData x + unat (sl_Length x) - 1) x"
    and "tot \<le> sl_pData x + unat (sl_Length x) - 1"
    by (auto simp: covers_def window_def)
  then show False
    using owners_law[OF assms(1), of "sl_pData x + unat (sl_Length x) - 1"]
      owners_ge[OF assms(2)] by fastforce
qed

lemma live_apart:
  assumes "pool_inv m live" "i < length live" "j < length live" "i \<noteq> j"
  shows "apart (window (live ! i)) (window (live ! j))"
proof (rule ccontr)
  let ?k = "max (sl_pData (live ! i)) (sl_pData (live ! j))"
  assume "\<not> ?thesis"
  then have k: "covers (max (sl_pData (live ! i)) (sl_pData (live ! j))) (live ! i)"
      "covers (max (sl_pData (live ! i)) (sl_pData (live ! j))) (live ! j)"
    by (auto simp: apart_def window_def covers_def not_le)
  have "2 \<le> owners ?k live"
    using owners_two[OF assms(2-4) k] .
  then show False using owners_law[OF assms(1), of ?k] by (auto split: if_splits)
qed

text \<open>The two slices of a new session.\<close>

lemma session_slices:
  assumes "pool_inv m live" "tot + unat n < 2 ^ 32" "alloc n m = Some (r, m1)" "alloc n m1 = Some (s, m2)"
  shows "pool_inv m2 (s # r # live)" "apart (window s) (window r)"
    and "x \<in> set live \<Longrightarrow> apart (window r) (window x) \<and> apart (window s) (window x)"
proof -
  have 1: "pool_inv m1 (r # live)" using alloc_law[OF assms(1,2,3)] by simp
  show 2: "pool_inv m2 (s # r # live)" using alloc_law[OF 1 assms(2,4)] by simp
  show "apart (window s) (window r)" using live_apart[OF 2, of 0 1] by simp
  assume "x \<in> set live"
  then obtain i where i: "i < length live" "x = live ! i" by (auto simp: in_set_conv_nth)
  show "apart (window r) (window x) \<and> apart (window s) (window x)"
    using live_apart[OF 2, of 1 "i + 2"] live_apart[OF 2, of 0 "i + 2"] i by simp
qed

end

section \<open>The manager implements the pool\<close>

definition AllocateSlice_opt :: "u32 \<Rightarrow> RioBufferManager \<Rightarrow> (RioBufferSlice \<times> RioBufferManager) option" where
  "AllocateSlice_opt sz m =
     (case RioBufferManager_AllocateSlice sz RioBufferSlice_default m of
        (True, x, m') \<Rightarrow> Some (x, m') | (False, _) \<Rightarrow> None)"

text \<open>The invariant: the slices handed out and the free ones tile the block up to the current
  offset.\<close>

definition bm_inv :: "nat \<Rightarrow> RioBufferManager \<Rightarrow> RioBufferSlice list \<Rightarrow> bool" where
  "bm_inv tot m live \<longleftrightarrow>
     unat (bm_TotalSize m) = tot \<and> bm_CurrentOffset m \<le> bm_TotalSize m \<and>
     (\<forall>k. owners k (live @ bm_FreeList m) = (if k < unat (bm_CurrentOffset m) then 1 else 0)) \<and>
     (\<forall>x \<in> set (live @ bm_FreeList m). sl_BufferId x = bm_BufferId m \<and> sl_pData x = unat (sl_Offset x))"

lemma word_add_no_wrap:
  fixes a b c :: u32
  assumes "\<not> c < a + b" "a \<le> c" "unat c + unat b < 2 ^ 32"
  shows "unat (a + b) = unat a + unat b" "unat a + unat b \<le> unat c"
proof -
  have "unat a + unat b < 2 ^ LENGTH(32)"
    using assms(2,3) by (simp add: word_le_nat_alt)
  then show *: "unat (a + b) = unat a + unat b" by (simp add: unat_word_ariths)
  show "unat a + unat b \<le> unat c" using assms(1) * by (simp add: not_less word_le_nat_alt)
qed

lemma AllocateSlice_cases:
  assumes "AllocateSlice_opt sz m = Some (x, m')"
  obtains (reuse) rest where "take_free sz (bm_FreeList m) = Some (x, rest)"
      "m' = m\<lparr>bm_FreeList := rest, bm_AllocatedCount := bm_AllocatedCount m + 1\<rparr>"
    | (fresh) "take_free sz (bm_FreeList m) = None" "\<not> bm_TotalSize m < bm_CurrentOffset m + sz"
      "x = \<lparr>sl_BufferId = bm_BufferId m, sl_Offset = bm_CurrentOffset m, sl_Length = sz,
            sl_pData = unat (bm_CurrentOffset m)\<rparr>"
      "m' = m\<lparr>bm_CurrentOffset := bm_CurrentOffset m + sz, bm_AllocatedCount := bm_AllocatedCount m + 1\<rparr>"
  using assms by (auto simp: AllocateSlice_opt_def RioBufferManager_AllocateSlice_def
      split: option.splits if_splits)

lemma bm_inv_transfer:
  assumes "bm_inv tot m live" "\<And>k. owners k (live' @ bm_FreeList m') = owners k (live @ bm_FreeList m)"
    "set (live' @ bm_FreeList m') \<subseteq> set (live @ bm_FreeList m)"
    "bm_TotalSize m' = bm_TotalSize m" "bm_CurrentOffset m' = bm_CurrentOffset m" "bm_BufferId m' = bm_BufferId m"
  shows "bm_inv tot m' live'"
  using assms unfolding bm_inv_def by (metis subset_iff)

lemma AllocateSlice_inv:
  assumes "bm_inv tot m live" "tot + unat sz < 2 ^ 32" "AllocateSlice_opt sz m = Some (x, m')"
  shows "bm_inv tot m' (x # live) \<and> sl_Length x = sz"
  using assms(3)
proof (cases rule: AllocateSlice_cases)
  case (reuse rest)
  have "bm_inv tot m' (x # live)"
    using reuse(2) take_free_owners[OF reuse(1)] take_free_set[OF reuse(1)]
    by (intro bm_inv_transfer[OF assms(1)]) auto
  then show ?thesis using take_free_set[OF reuse(1)] by simp
next
  case fresh
  have "bm_CurrentOffset m \<le> bm_TotalSize m" "unat (bm_TotalSize m) + unat sz < 2 ^ 32"
    using assms(1,2) by (auto simp: bm_inv_def)
  note nw = word_add_no_wrap[OF fresh(2) this]
  then have "bm_CurrentOffset m + sz \<le> bm_TotalSize m" by (simp add: word_le_nat_alt)
  then show ?thesis
    using assms(1) nw fresh by (auto simp: bm_inv_def covers_def)
qed

lemma DeallocateSlice_inv:
  assumes "bm_inv tot m live" "x \<in> set live"
  shows "bm_inv tot (RioBufferManager_DeallocateSlice x m) (remove1 x live)"
  using assms(2) owners_remove1[OF assms(2)] set_remove1_subset[of x live]
  by (intro bm_inv_transfer[OF assms(1)]) (auto simp: RioBufferManager_DeallocateSlice_def Let_def)

interpretation rio_pool: slice_pool AllocateSlice_opt RioBufferManager_DeallocateSlice "bm_inv tot" tot for tot
proof (unfold_locales, goal_cases)
  case (1 m live n x m') then show ?case by (rule AllocateSlice_inv)
next
  case (2 m live x) then show ?case by (rule DeallocateSlice_inv)
next
  case (3 m live k)
  then have "owners k live \<le> (if k < unat (bm_CurrentOffset m) then 1 else 0)"
    "unat (bm_CurrentOffset m) \<le> tot"
    by (auto simp: bm_inv_def word_le_nat_alt dest!: spec[of _ k])
  then show ?case by (auto split: if_splits)
qed

section \<open>Histories\<close>

text \<open>Use of an initialised pool of \<open>T\<close> bytes by clients that ask for sizes which cannot wrap
  the 32-bit offset and return only slices they hold; \<open>live\<close> is what they hold.\<close>

inductive pool_reach :: "u32 \<Rightarrow> RioBufferManager \<Rightarrow> RioBufferSlice list \<Rightarrow> bool" for T where
  pool_start: "RioBufferManager_Initialize True (Some i) T RioBufferManager_default = (True, m) \<Longrightarrow> pool_reach T m []"
| pool_alloc: "pool_reach T m live \<Longrightarrow> unat T + unat sz < 2 ^ 32 \<Longrightarrow>
    RioBufferManager_AllocateSlice sz out m = (True, x, m') \<Longrightarrow> pool_reach T m' (x # live)"
| pool_refuse: "pool_reach T m live \<Longrightarrow> RioBufferManager_AllocateSlice sz out m = (False, x, m') \<Longrightarrow> pool_reach T m' live"
| pool_free: "pool_reach T m live \<Longrightarrow> x \<in> set live \<Longrightarrow> pool_reach T (RioBufferManager_DeallocateSlice x m) (remove1 x live)"

lemma AllocateSlice_opt_iff:
  "AllocateSlice_opt sz m = Some (x, m') \<longleftrightarrow>
     fst (RioBufferManager_AllocateSlice sz out m) \<and> snd (RioBufferManager_AllocateSlice sz out m) = (x, m')"
  by (auto simp: AllocateSlice_opt_def RioBufferManager_AllocateSlice_def split: option.splits)

lemma pool_reach_inv: "pool_reach T m live \<Longrightarrow> bm_inv (unat T) m live"
proof (induction rule: pool_reach.induct)
  case (pool_start i m)
  then show ?case
    by (auto simp: RioBufferManager_Initialize_def RioBufferManager_default_def bm_log_def bm_inv_def)
next
  case (pool_alloc m live sz out x m')
  then show ?case using rio_pool.alloc_law AllocateSlice_opt_iff[of sz m x m' out] by simp
next
  case (pool_refuse m live sz out x m')
  then have "m' = m"
    by (auto simp: RioBufferManager_AllocateSlice_def split: option.splits if_splits)
  then show ?case using pool_refuse by simp
next
  case (pool_free m live x)
  then show ?case by (intro rio_pool.free_law)
qed

text \<open>Acquired and released resources.\<close>

datatype pool_op = OpInitialize bool "nat option" u32 | OpAllocate u32 | OpDeallocate RioBufferSlice | OpFinalize

fun pool_do :: "pool_op \<Rightarrow> RioBufferManager \<Rightarrow> RioBufferManager" where
  "pool_do (OpInitialize a r n) m = snd (RioBufferManager_Initialize a r n m)"
| "pool_do (OpAllocate n) m = snd (snd (RioBufferManager_AllocateSlice n RioBufferSlice_default m))"
| "pool_do (OpDeallocate x) m = RioBufferManager_DeallocateSlice x m"
| "pool_do OpFinalize m = RioBufferManager_Finalize m"

fun blocks_held :: "pool_event list \<Rightarrow> int" where
  "blocks_held [] = 0"
| "blocks_held (Ev_VirtualAlloc _ ok # es) = (if ok then 1 else 0) + blocks_held es"
| "blocks_held (Ev_VirtualFree # es) = blocks_held es - 1"
| "blocks_held (_ # es) = blocks_held es"

fun registrations_held :: "pool_event list \<Rightarrow> int" where
  "registrations_held [] = 0"
| "registrations_held (Ev_RIORegisterBuffer _ r # es) = (if r = None then 0 else 1) + registrations_held es"
| "registrations_held (Ev_RIODeregisterBuffer _ # es) = registrations_held es - 1"
| "registrations_held (_ # es) = registrations_held es"

lemma held_append [simp]:
  "blocks_held (a @ b) = blocks_held a + blocks_held b"
  "registrations_held (a @ b) = registrations_held a + registrations_held b"
  by (induction a rule: blocks_held.induct) auto

definition bm_balanced :: "RioBufferManager \<Rightarrow> bool" where
  "bm_balanced m \<longleftrightarrow>
     blocks_held (bm_Log m) = (if bm_pBuffer m = None then 0 else 1) \<and>
     registrations_held (bm_Log m) = (if bm_BufferId m = None then 0 else 1) \<and>
     (bm_pBuffer m = None \<longrightarrow> bm_BufferId m = None)"

lemma pool_do_balanced: "bm_balanced m \<Longrightarrow> bm_balanced (pool_do c m)"
  by (cases c) (auto simp: bm_balanced_def bm_log_def RioBufferManager_Initialize_def Let_def
      RioBufferManager_AllocateSlice_def RioBufferManager_DeallocateSlice_def
      RioBufferManager_Finalize_def split: option.splits)

lemma pool_ops_balanced: "bm_balanced m \<Longrightarrow> bm_balanced (fold pool_do cs m)"
  by (induction cs arbitrary: m) (auto dest: pool_do_balanced)

section \<open>Properties\<close>

text \<open>C29: slices handed out by the pool and not returned lie inside the registered block, carry
  its id, point at their own offset, and no two of them share a byte, after any sequence of
  allocations and returns in which sizes do not wrap the 32-bit offset.\<close>

theorem rio_slices_disjoint:
  assumes "pool_reach T m live"
  shows "(\<forall>i < length live. \<forall>j < length live. i \<noteq> j \<longrightarrow> apart (window (live ! i)) (window (live ! j))) \<and>
    (\<forall>x \<in> set live. sl_Length x \<noteq> 0 \<longrightarrow> fst (window x) + snd (window x) \<le> unat T) \<and>
    (\<forall>x \<in> set live. sl_BufferId x = bm_BufferId m \<and> sl_pData x = unat (sl_Offset x))"
proof (intro conjI)
  note i = pool_reach_inv[OF assms]
  show "\<forall>i < length live. \<forall>j < length live. i \<noteq> j \<longrightarrow> apart (window (live ! i)) (window (live ! j))"
    using rio_pool.live_apart[OF i] by blast
  show "\<forall>x \<in> set live. sl_Length x \<noteq> 0 \<longrightarrow> fst (window x) + snd (window x) \<le> unat T"
    using rio_pool.live_in_block[OF i] by blast
  show "\<forall>x \<in> set live. sl_BufferId x = bm_BufferId m \<and> sl_pData x = unat (sl_Offset x)"
    using i by (simp add: bm_inv_def)
qed

theorem rio_slices_disjoint_witness:
  "\<exists>x y m. apart (window x) (window y) \<and> sl_Length x = 8 \<and> sl_Length y = 8 \<and>
     pool_reach 16 m [x, y]"
proof -
  define m0 where "m0 = snd (RioBufferManager_Initialize True (Some 1) 16 RioBufferManager_default)"
  have r0: "pool_reach 16 m0 []"
    by (rule pool_start[of 1])
      (simp add: m0_def RioBufferManager_Initialize_def RioBufferManager_default_def bm_log_def)
  obtain y m1 where 1: "RioBufferManager_AllocateSlice 8 RioBufferSlice_default m0 = (True, y, m1)"
      "sl_Length y = 8" "bm_FreeList m1 = []" "bm_TotalSize m1 = 16" "bm_CurrentOffset m1 = 8"
    by (simp add: RioBufferManager_AllocateSlice_def m0_def RioBufferManager_Initialize_def
        RioBufferManager_default_def bm_log_def)
  obtain x m2 where 2: "RioBufferManager_AllocateSlice 8 RioBufferSlice_default m1 = (True, x, m2)" "sl_Length x = 8"
    using 1 by (simp add: RioBufferManager_AllocateSlice_def)
  have r2: "pool_reach 16 m2 [x, y]"
    using pool_alloc[OF pool_alloc[OF r0 _ 1(1)] _ 2(1)] by simp
  have "\<forall>i < length [x, y]. \<forall>j < length [x, y]. i \<noteq> j \<longrightarrow> apart (window ([x, y] ! i)) (window ([x, y] ! j))"
    using rio_slices_disjoint[OF r2] by blast
  from this[rule_format, of 0 1] have "apart (window x) (window y)" by simp
  then show ?thesis using 1(2) 2(2) r2 by blast
qed

text \<open>The bounds check of \<open>AllocateSlice\<close> adds in 32 bits and wraps: in an exhausted pool of
  16 bytes a request for \<open>2^32 - 8\<close> bytes succeeds, moves the current offset back and makes the
  next request hand out memory that is already in use.\<close>

theorem allocate_slice_wraps:
  "let m0 = snd (RioBufferManager_Initialize True (Some 1) 16 RioBufferManager_default);
       (ok1, x1, m1) = RioBufferManager_AllocateSlice 16 RioBufferSlice_default m0;
       (ok2, x2, m2) = RioBufferManager_AllocateSlice (- 8) RioBufferSlice_default m1;
       (ok3, x3, m3) = RioBufferManager_AllocateSlice 8 RioBufferSlice_default m2
   in ok1 \<and> ok2 \<and> ok3 \<and> 16 < unat (sl_Length x2) \<and> \<not> apart (window x1) (window x3)"
  by (simp add: RioBufferManager_AllocateSlice_def RioBufferManager_Initialize_def apart_def window_def
      RioBufferManager_default_def bm_log_def)

text \<open>Whatever is called and however the system answers, the manager holds at most one
  block and one registration, and the destructor releases both exactly once.\<close>

theorem pool_resources_released:
  "let m = fold pool_do cs RioBufferManager_default in
   blocks_held (bm_Log m) \<in> {0, 1} \<and> registrations_held (bm_Log m) \<in> {0, 1} \<and>
   blocks_held (bm_Log (RioBufferManager_dtor m)) = 0 \<and>
   registrations_held (bm_Log (RioBufferManager_dtor m)) = 0"
proof -
  have b: "bm_balanced (fold pool_do cs RioBufferManager_default)"
    by (rule pool_ops_balanced) (simp add: bm_balanced_def RioBufferManager_default_def)
  moreover have "bm_balanced (RioBufferManager_dtor (fold pool_do cs RioBufferManager_default))"
    using pool_do_balanced[OF b, of OpFinalize] by (simp add: RioBufferManager_dtor_def)
  ultimately show ?thesis
    by (auto simp: bm_balanced_def Let_def RioBufferManager_dtor_def RioBufferManager_Finalize_def
        bm_log_def split: option.splits)
qed

end
