(* ===== verification/Rio_Session.thy ===== *)
theory Rio_Session
  imports Rio_Buffer_Manager Packet_Framer Socket_Model
begin

text \<open>
  \<open>RIOSession\<close> (\<open>LibNetworksRIO/RIOSession.ixx\<close>, \<open>RIOSession.cpp\<close>): one Registered I/O connection.
  Both ring buffers are windows of the registered block, which all sessions share; \<open>r_Pool\<close> is
  that block, and every method returns it changed where the code writes through a pointer.
  \<open>r_Trace\<close> is the history of the calls of the RIO function table and of the virtual hooks. A
  call of the table answers with a number, 0 for \<open>FALSE\<close> and for an invalid handle.

  Sends and receives of one session are serialised by its two mutexes: \<open>FlushPendingSendQueue\<close>
  and the posting inside it hold \<open>m_SendQueueMutex\<close>, the receive path \<open>m_RecvMutex\<close>. A method
  call runs here to its end before the next.
\<close>

datatype RioOperationType = Receive | Send

record RIO_BUF =
  rb_BufferId :: "nat option"
  rb_Offset :: u32
  rb_Length :: u32

text \<open>\<open>Rio_Send\<close> carries the bytes of the block that the posted buffer shows.\<close>

datatype rio_event =
    Rio_CreateRequestQueue SOCKET "nat option"
  | Rio_Receive RIO_BUF
  | Rio_Send RIO_BUF "byte list"
  | Rcb_OnPacketReceived Packet
  | Rcb_OnDisconnected

type_synonym rio_trace = "rio_event list"
type_synonym rio_env = "rio_trace \<Rightarrow> rio_event \<Rightarrow> nat"

record RioContext =
  rc_OpType :: RioOperationType
  rc_pSession :: "u64 option"

record PendingPacket =
  pp_Data :: "byte list"
  pp_Offset :: nat

record RIOSession =
  r_pSocket :: Socket
  r_RQ :: "nat option"
  r_RecvSlice :: RioBufferSlice
  r_SendSlice :: RioBufferSlice
  r_RecvContext :: RioContext
  r_SendContext :: RioContext
  r_SendInProgress :: bool
  r_ReceiveLoopStarted :: bool
  r_IsDisconnected :: bool
  r_PendingSendQueue :: "PendingPacket list"
  r_PendingTotalBytes :: nat
  r_SessionId :: u64
  r_TotalRxBytes :: u64
  r_TotalTxBytes :: u64
  r_pReceiveBuffer :: ExternalCircleBufferQueue
  r_pSendBuffer :: ExternalCircleBufferQueue
  r_Pool :: "byte list"
  r_Trace :: rio_trace

definition MAX_PENDING_BYTES :: nat where
  "MAX_PENDING_BYTES = 10 * 1024 * 1024"

text \<open>The buffers as the ring buffer operations take them: with the block.\<close>

abbreviation recv_view :: "'z RIOSession_scheme \<Rightarrow> xstate" where
  "recv_view s \<equiv> (r_Pool s, r_pReceiveBuffer s)"

abbreviation send_view :: "'z RIOSession_scheme \<Rightarrow> xstate" where
  "send_view s \<equiv> (r_Pool s, r_pSendBuffer s)"

definition set_recv :: "xstate \<Rightarrow> 'z RIOSession_scheme \<Rightarrow> 'z RIOSession_scheme" where
  "set_recv st s = s\<lparr>r_Pool := fst st, r_pReceiveBuffer := snd st\<rparr>"

definition set_send :: "xstate \<Rightarrow> 'z RIOSession_scheme \<Rightarrow> 'z RIOSession_scheme" where
  "set_send st s = s\<lparr>r_Pool := fst st, r_pSendBuffer := snd st\<rparr>"

definition rio_log :: "rio_event \<Rightarrow> 'z RIOSession_scheme \<Rightarrow> 'z RIOSession_scheme" where
  "rio_log e s = s\<lparr>r_Trace := r_Trace s @ [e]\<rparr>"

text \<open>The constructor; a failed \<open>RIOCreateRequestQueue\<close> is only logged there. The session id is
  drawn from the static counter, which is returned advanced.\<close>

definition RIOSession_ctor ::
  "rio_env \<Rightarrow> u64 \<Rightarrow> byte list \<Rightarrow> Socket \<Rightarrow> RioBufferSlice \<Rightarrow> RioBufferSlice \<Rightarrow> nat option \<Rightarrow>
   RIOSession \<times> u64" where
  "RIOSession_ctor env nextId pool pSocket recvSlice sendSlice completionQueue =
     (let e = Rio_CreateRequestQueue (m_Socket pSocket) completionQueue;
          rq = env [] e
      in (\<lparr>r_pSocket = pSocket, r_RQ = (if rq = 0 then None else Some rq),
           r_RecvSlice = recvSlice, r_SendSlice = sendSlice,
           r_RecvContext = \<lparr>rc_OpType = Receive, rc_pSession = Some nextId\<rparr>,
           r_SendContext = \<lparr>rc_OpType = Send, rc_pSession = Some nextId\<rparr>,
           r_SendInProgress = False, r_ReceiveLoopStarted = False, r_IsDisconnected = False,
           r_PendingSendQueue = [], r_PendingTotalBytes = 0, r_SessionId = nextId,
           r_TotalRxBytes = 0, r_TotalTxBytes = 0,
           r_pReceiveBuffer = ExternalCircleBufferQueue_ctor (sl_pData recvSlice, unat (sl_Length recvSlice)),
           r_pSendBuffer = ExternalCircleBufferQueue_ctor (sl_pData sendSlice, unat (sl_Length sendSlice)),
           r_Pool = pool, r_Trace = [e]\<rparr>,
          nextId + 1))"

text \<open>A \<open>RIO_BUF\<close> for a span of the window of a slice: the offset of the slice plus the
  distance of the pointers.\<close>

definition rio_buf :: "RioBufferSlice \<Rightarrow> span \<Rightarrow> RIO_BUF" where
  "rio_buf sl w =
     \<lparr>rb_BufferId = sl_BufferId sl,
      rb_Offset = sl_Offset sl + of_int (int (fst w) - int (sl_pData sl)),
      rb_Length = of_nat (snd w)\<rparr>"

section \<open>Receiving\<close>

text \<open>A failed \<open>RIOReceive\<close> is only logged: its answer changes nothing.\<close>

definition RIOSession_RequestRecv :: "'z RIOSession_scheme \<Rightarrow> 'z RIOSession_scheme" where
  "RIOSession_RequestRecv s =
     (if r_IsDisconnected s then s
      else
        let (freeSpace, writeableBuffers) = ExternalCircleBufferQueue_GetWriteableBuffers (r_pReceiveBuffer s) in
        if freeSpace = 0 \<or> writeableBuffers = [] then s
        else rio_log (Rio_Receive (rio_buf (r_RecvSlice s) (hd writeableBuffers))) s)"

definition RIOSession_StartReceiveLoop :: "'z RIOSession_scheme \<Rightarrow> 'z RIOSession_scheme" where
  "RIOSession_StartReceiveLoop s =
     (if r_ReceiveLoopStarted s then s
      else RIOSession_RequestRecv (s\<lparr>r_ReceiveLoopStarted := True\<rparr>))"

definition RIOSession_Initialize :: "'z RIOSession_scheme \<Rightarrow> bool \<times> 'z RIOSession_scheme" where
  "RIOSession_Initialize s =
     (if r_RQ s = None then (False, s) else (True, RIOSession_StartReceiveLoop s))"

section \<open>Sending\<close>

definition RIOSession_TryPostSendFromQueue ::
  "rio_env \<Rightarrow> 'z RIOSession_scheme \<Rightarrow> 'z RIOSession_scheme" where
  "RIOSession_TryPostSendFromQueue env s =
     (if r_SendInProgress s then s
      else
        let s1 = s\<lparr>r_SendInProgress := True\<rparr>;
            (bytesToSend, readBuffers) = ExternalCircleBufferQueue_GetReadBuffers (r_pSendBuffer s1)
        in if bytesToSend = 0 then s1\<lparr>r_SendInProgress := False\<rparr>
           else
             let e = Rio_Send (rio_buf (r_SendSlice s1) (hd readBuffers)) (span_read (r_Pool s1) (hd readBuffers));
                 ok = env (r_Trace s1) e;
                 s2 = rio_log e s1
             in if ok = 0 then s2\<lparr>r_SendInProgress := False\<rparr> else s2)"

text \<open>The copy loop of \<open>FlushPendingSendQueue\<close>: the bytes written and the block.\<close>

fun flush_copy :: "span list \<Rightarrow> byte list \<Rightarrow> nat \<Rightarrow> nat \<Rightarrow> byte list \<Rightarrow> nat \<times> byte list" where
  "flush_copy [] src remainingCopy written mem = (written, mem)"
| "flush_copy (sp # sps) src remainingCopy written mem =
     (if remainingCopy = 0 then (written, mem)
      else
        let copySize = min remainingCopy (snd sp)
        in flush_copy sps (drop copySize src) (remainingCopy - copySize) (written + copySize)
             (memcpy_at (fst sp) (take copySize src) mem))"

text \<open>The loop over the queue: it goes on only after a packet was written out whole.\<close>

fun flush_loop ::
  "PendingPacket list \<Rightarrow> xstate \<Rightarrow> nat \<Rightarrow> PendingPacket list \<times> xstate \<times> nat" where
  "flush_loop [] st pendingTotal = ([], st, pendingTotal)"
| "flush_loop (pending # rest) st pendingTotal =
     (let remainingInPacket = length (pp_Data pending) - pp_Offset pending;
          (availableSpace, writableBuffers) = ExternalCircleBufferQueue_GetWriteableBuffers (snd st)
      in if availableSpace = 0 then (pending # rest, st, pendingTotal)
         else
           let toWrite = min remainingInPacket availableSpace;
               (written, mem') = flush_copy writableBuffers (drop (pp_Offset pending) (pp_Data pending)) toWrite 0 (fst st);
               q' = snd (ExternalCircleBufferQueue_CommitWrite written (snd st));
               pending' = pending\<lparr>pp_Offset := pp_Offset pending + written\<rparr>
           in if length (pp_Data pending') \<le> pp_Offset pending'
              then flush_loop rest (mem', q') (pendingTotal - length (pp_Data pending'))
              else (pending' # rest, (mem', q'), pendingTotal))"

definition RIOSession_FlushPendingSendQueue ::
  "rio_env \<Rightarrow> 'z RIOSession_scheme \<Rightarrow> 'z RIOSession_scheme" where
  "RIOSession_FlushPendingSendQueue env s =
     (let (queue, st, pendingTotal) = flush_loop (r_PendingSendQueue s) (send_view s) (r_PendingTotalBytes s)
      in RIOSession_TryPostSendFromQueue env
           ((set_send st s)\<lparr>r_PendingSendQueue := queue, r_PendingTotalBytes := pendingTotal\<rparr>))"

text \<open>The packet as \<open>SendMessage\<close> lays it out in \<open>packetData\<close>.\<close>

definition rio_packet_data :: "u16 \<Rightarrow> byte list \<Rightarrow> byte list" where
  "rio_packet_data packetId body =
     (let totalSize = GetHeaderSize + GetPacketIdSize + length body;
          d0 = replicate totalSize 0;
          d1 = memcpy_at 0 (u16_be (of_nat totalSize)) d0;
          d2 = memcpy_at 2 (u16_be packetId) d1
      in if length body > 0 then memcpy_at (GetHeaderSize + GetPacketIdSize) body d2 else d2)"

definition RIOSession_SendMessage ::
  "rio_env \<Rightarrow> ('z RIOSession_scheme \<Rightarrow> 'z RIOSession_scheme) \<Rightarrow> u16 \<Rightarrow> byte list \<Rightarrow>
   'z RIOSession_scheme \<Rightarrow> 'z RIOSession_scheme" where
  "RIOSession_SendMessage env onDisc packetId body s =
     (if r_IsDisconnected s then s
      else
        let totalSize = GetHeaderSize + GetPacketIdSize + length body in
        if r_PendingTotalBytes s > MAX_PENDING_BYTES
        then onDisc (rio_log Rcb_OnDisconnected (s\<lparr>r_IsDisconnected := True\<rparr>))
        else
          let packetData = rio_packet_data packetId body;
              (bWrittenDirectly, s1) =
                (if r_PendingSendQueue s = [] then
                   if ExternalCircleBufferQueue_CanWriteSize (r_pSendBuffer s) \<ge> totalSize then
                     (let (ok, st) = ExternalCircleBufferQueue_Write packetData (send_view s)
                      in (ok, set_send st s))
                   else (False, s)
                 else (False, s));
              s2 = (if bWrittenDirectly then s1
                    else s1\<lparr>r_PendingSendQueue := r_PendingSendQueue s1 @ [\<lparr>pp_Data = packetData, pp_Offset = 0\<rparr>],
                            r_PendingTotalBytes := r_PendingTotalBytes s1 + totalSize\<rparr>)
          in RIOSession_FlushPendingSendQueue env s2)"

text \<open>A private helper that nothing calls: writing behind \<open>offset\<close> bytes of a span list. It
  returns the new offset.\<close>

fun rio_write_loop :: "span list \<Rightarrow> nat \<Rightarrow> byte list \<Rightarrow> byte list \<Rightarrow> byte list" where
  "rio_write_loop [] skip src mem = mem"
| "rio_write_loop (sp # sps) skip src mem =
     (if skip \<ge> snd sp then rio_write_loop sps (skip - snd sp) src mem
      else
        let toCopy = min (length src) (snd sp - skip);
            mem' = memcpy_at (fst sp + skip) (take toCopy src) mem;
            src' = drop toCopy src
        in if src' = [] then mem' else rio_write_loop sps 0 src' mem')"

definition RIOSession_WriteToBuffers ::
  "span list \<Rightarrow> nat \<Rightarrow> byte list \<Rightarrow> byte list \<Rightarrow> nat \<times> byte list" where
  "RIOSession_WriteToBuffers buffers offset src mem =
     (offset + length src, rio_write_loop buffers offset src mem)"

section \<open>Completions\<close>

record 's rio_callbacks =
  rcb_OnPacketReceived :: "Packet \<Rightarrow> 's \<Rightarrow> 's"
  rcb_OnDisconnected :: "'s \<Rightarrow> 's"

text \<open>The framing loop, with fuel as for \<open>IOSession\<close>. An \<open>Invalid\<close> frame ends it like
  \<open>NeedMore\<close>.\<close>

fun RIOSession_ReadReceivedBuffers ::
  "nat \<Rightarrow> ('z RIOSession_scheme) rio_callbacks \<Rightarrow> 'z RIOSession_scheme \<Rightarrow> 'z RIOSession_scheme option" where
  "RIOSession_ReadReceivedBuffers 0 cb s = None"
| "RIOSession_ReadReceivedBuffers (Suc fuel) cb s =
     (let (frame, st) = TryFrameFromBuffer ExternalCircleBufferQueue_vtable (recv_view s);
          s1 = set_recv st s
      in if frame_Result frame \<noteq> FrameOk then Some s1
         else
           RIOSession_ReadReceivedBuffers fuel cb
             (case frame_PacketOpt frame of
                None \<Rightarrow> s1
              | Some packet \<Rightarrow>
                  rcb_OnPacketReceived cb packet (rio_log (Rcb_OnPacketReceived packet) s1)))"

definition RIOSession_OnRioIOCompleted ::
  "rio_env \<Rightarrow> ('z RIOSession_scheme) rio_callbacks \<Rightarrow> bool \<Rightarrow> nat \<Rightarrow> RioOperationType \<Rightarrow>
   'z RIOSession_scheme \<Rightarrow> 'z RIOSession_scheme option" where
  "RIOSession_OnRioIOCompleted env cb bSuccess bytesTransferred opType s =
     (if \<not> bSuccess \<or> (opType = Receive \<and> bytesTransferred = 0) then
        Some (rcb_OnDisconnected cb (rio_log Rcb_OnDisconnected (s\<lparr>r_IsDisconnected := True\<rparr>)))
      else
        case opType of
          Receive \<Rightarrow>
            let s1 = s\<lparr>r_pReceiveBuffer := snd (ExternalCircleBufferQueue_CommitWrite bytesTransferred (r_pReceiveBuffer s))\<rparr>;
                s2 = s1\<lparr>r_TotalRxBytes := r_TotalRxBytes s1 + of_nat bytesTransferred\<rparr>
            in map_option RIOSession_RequestRecv
                 (RIOSession_ReadReceivedBuffers
                    (ExternalCircleBufferQueue_CanReadSize (r_pReceiveBuffer s2) + 1) cb s2)
        | Send \<Rightarrow>
            let s1 = s\<lparr>r_pSendBuffer := snd (ExternalCircleBufferQueue_Consume bytesTransferred (r_pSendBuffer s))\<rparr>;
                s2 = s1\<lparr>r_SendInProgress := False, r_TotalTxBytes := r_TotalTxBytes s1 + of_nat bytesTransferred\<rparr>
            in Some (RIOSession_FlushPendingSendQueue env s2))"

definition RIOSession_OnAccepted :: "'z RIOSession_scheme \<Rightarrow> 'z RIOSession_scheme" where
  "RIOSession_OnAccepted s = RIOSession_StartReceiveLoop s"

definition RIOSession_OnConnected :: "'z RIOSession_scheme \<Rightarrow> 'z RIOSession_scheme" where
  "RIOSession_OnConnected s = RIOSession_StartReceiveLoop s"

definition RIOSession_OnDisconnected :: "'z RIOSession_scheme \<Rightarrow> 'z RIOSession_scheme" where
  "RIOSession_OnDisconnected s = s"

text \<open>What the kernel did before a receive completion: it filled the start of the first
  writeable span, the buffer that \<open>RequestRecv\<close> posted.\<close>

definition rio_kernel_recv :: "byte list \<Rightarrow> 'z RIOSession_scheme \<Rightarrow> 'z RIOSession_scheme" where
  "rio_kernel_recv data s =
     s\<lparr>r_Pool := memcpy_at (fst (hd (snd (ExternalCircleBufferQueue_GetWriteableBuffers (r_pReceiveBuffer s)))))
        data (r_Pool s)\<rparr>"

end
