(* ===== verification/Rio_Session_Laws.thy ===== *)
theory Rio_Session_Laws
  imports Rio_Session "HOL-Library.Sublist"
begin

text \<open>
  What the methods of \<open>RIOSession\<close> guarantee. Every change of a buffer is one step of the queue
  contract on the send view or on the receive view of the block, so that the window of the
  other buffer and everything outside both windows stay as they are. \<open>rio_pending\<close>, the bytes
  accepted and not yet acknowledged, is the abstract send queue: the bytes in the ring
  followed by the packets that wait for space in it.
\<close>

abbreviation xops :: "xstate IBuffer" where
  "xops \<equiv> ExternalCircleBufferQueue_vtable"

section \<open>Well-formed sessions\<close>

definition queue_bytes :: "PendingPacket list \<Rightarrow> byte list" where
  "queue_bytes ps = concat (map (\<lambda>p. drop (pp_Offset p) (pp_Data p)) ps)"

definition queue_total :: "PendingPacket list \<Rightarrow> nat" where
  "queue_total ps = sum_list (map (length \<circ> pp_Data) ps)"

definition queue_ok :: "PendingPacket list \<Rightarrow> bool" where
  "queue_ok ps = list_all (\<lambda>p. pp_Offset p < length (pp_Data p)) ps"

lemma queue_simps [simp]:
  "queue_bytes [] = []" "queue_bytes (p # ps) = drop (pp_Offset p) (pp_Data p) @ queue_bytes ps"
  "queue_bytes (ps @ qs) = queue_bytes ps @ queue_bytes qs"
  "queue_total [] = 0" "queue_total (p # ps) = length (pp_Data p) + queue_total ps"
  "queue_total (ps @ qs) = queue_total ps + queue_total qs"
  "queue_ok []" "queue_ok (p # ps) \<longleftrightarrow> pp_Offset p < length (pp_Data p) \<and> queue_ok ps"
  "queue_ok (ps @ qs) \<longleftrightarrow> queue_ok ps \<and> queue_ok qs"
  by (auto simp: queue_bytes_def queue_total_def queue_ok_def)

definition rio_ok :: "'z RIOSession_scheme \<Rightarrow> bool" where
  "rio_ok s \<longleftrightarrow> x_inv (recv_view s) \<and> x_inv (send_view s) \<and>
     apart (x_Buffer (r_pReceiveBuffer s)) (x_Buffer (r_pSendBuffer s)) \<and>
     queue_ok (r_PendingSendQueue s) \<and> r_PendingTotalBytes s = queue_total (r_PendingSendQueue s)"

definition rio_pending :: "'z RIOSession_scheme \<Rightarrow> byte list" where
  "rio_pending s = x_contents (send_view s) @ queue_bytes (r_PendingSendQueue s)"

abbreviation rio_received :: "'z RIOSession_scheme \<Rightarrow> byte list" where
  "rio_received s \<equiv> x_contents (recv_view s)"

text \<open>The memory of all other sessions: what lies outside both windows is unchanged.\<close>

definition pool_kept :: "'z RIOSession_scheme \<Rightarrow> 'z RIOSession_scheme \<Rightarrow> bool" where
  "pool_kept s s' \<longleftrightarrow> length (r_Pool s') = length (r_Pool s) \<and>
     r_RecvSlice s' = r_RecvSlice s \<and> r_SendSlice s' = r_SendSlice s \<and>
     x_Buffer (r_pReceiveBuffer s') = x_Buffer (r_pReceiveBuffer s) \<and>
     x_Buffer (r_pSendBuffer s') = x_Buffer (r_pSendBuffer s) \<and>
     (\<forall>w. fst w + snd w \<le> length (r_Pool s) \<and> apart w (x_Buffer (r_pReceiveBuffer s)) \<and>
        apart w (x_Buffer (r_pSendBuffer s)) \<longrightarrow> span_read (r_Pool s') w = span_read (r_Pool s) w)"

lemma pool_kept_refl [simp]: "pool_kept s s"
  by (simp add: pool_kept_def)

lemma pool_kept_trans [trans]: "pool_kept s s' \<Longrightarrow> pool_kept s' s'' \<Longrightarrow> pool_kept s s''"
  by (auto simp: pool_kept_def)

section \<open>One step on one view\<close>

lemma apart_commute: "apart a b = apart b a"
  by (auto simp: apart_def)

lemma x_frame_apart:
  assumes "x_frame st st'" "x_inv st" "fst w + snd w \<le> length (fst st)" "apart w (x_Buffer (snd st))"
  shows "span_read (fst st') w = span_read (fst st) w"
proof (cases "snd w = 0")
  case True
  then show ?thesis by (simp add: span_read_def)
next
  case False
  have "x_cap st = snd (x_Buffer (snd st))" "0 < x_cap st"
    using assms(2) x_inv_cbq[OF assms(2)] by (auto simp: x_inv_def cbq_inv_def)
  then show ?thesis
    using assms(1,3,4) False by (cases w) (auto simp: x_frame_def apart_def)
qed

text \<open>A step on one ring leaves a ring with a window apart from it alone.\<close>

lemma x_frame_other:
  assumes "x_frame st st'" "x_inv st" "x_inv (fst st, q)" "apart (x_Buffer q) (x_Buffer (snd st))"
  shows "as_cbq (fst st', q) = as_cbq (fst st, q)" "x_inv (fst st', q)"
proof -
  have len: "length (fst st') = length (fst st)" using assms(1) by (simp add: x_frame_def)
  have "fst (x_Buffer q) + snd (x_Buffer q) \<le> length (fst st)" using assms(3) by (simp add: x_inv_def)
  from x_frame_apart[OF assms(1,2) this assms(4)]
  show *: "as_cbq (fst st', q) = as_cbq (fst st, q)" by (simp add: as_cbq_def)
  then show "x_inv (fst st', q)" using assms(3) len by (simp add: x_inv_def)
qed

lemma send_view_step:
  assumes "rio_ok s" "x_frame (send_view s) st'" "x_inv st'"
    "queue_ok q" "r_PendingTotalBytes s' = queue_total q" "r_PendingSendQueue s' = q"
    "send_view s' = st'" "r_pReceiveBuffer s' = r_pReceiveBuffer s"
    "r_RecvSlice s' = r_RecvSlice s" "r_SendSlice s' = r_SendSlice s"
  shows "rio_ok s'" "pool_kept s s'" "rio_received s' = rio_received s"
proof -
  have i: "x_inv (send_view s)" "x_inv (recv_view s)"
    "apart (x_Buffer (r_pReceiveBuffer s)) (x_Buffer (r_pSendBuffer s))"
    using assms(1) by (simp_all add: rio_ok_def)
  have b: "x_Buffer (r_pSendBuffer s') = x_Buffer (r_pSendBuffer s)" "length (r_Pool s') = length (r_Pool s)"
    using assms(2,7) by (auto simp: x_frame_def)
  note o = x_frame_other[OF assms(2) i(1), of "r_pReceiveBuffer s"]
  show "rio_ok s'" using o i assms(3-8) b by (auto simp: rio_ok_def)
  show "rio_received s' = rio_received s" using o(1) i assms(7,8) by auto
  show "pool_kept s s'"
    using x_frame_apart[OF assms(2) i(1)] b assms(7-10) by (auto simp: pool_kept_def)
qed

lemma recv_view_step:
  assumes "rio_ok s" "x_frame (recv_view s) st'" "x_inv st'" "recv_view s' = st'"
    "r_pSendBuffer s' = r_pSendBuffer s" "r_PendingSendQueue s' = r_PendingSendQueue s"
    "r_PendingTotalBytes s' = r_PendingTotalBytes s" "r_RecvSlice s' = r_RecvSlice s" "r_SendSlice s' = r_SendSlice s"
  shows "rio_ok s'" "pool_kept s s'" "rio_pending s' = rio_pending s"
proof -
  have i: "x_inv (send_view s)" "x_inv (recv_view s)"
    "apart (x_Buffer (r_pSendBuffer s)) (x_Buffer (r_pReceiveBuffer s))"
    "apart (x_Buffer (r_pReceiveBuffer s)) (x_Buffer (r_pSendBuffer s))"
    using assms(1) by (simp_all add: rio_ok_def apart_commute)
  have b: "x_Buffer (r_pReceiveBuffer s') = x_Buffer (r_pReceiveBuffer s)" "length (r_Pool s') = length (r_Pool s)"
    using assms(2,4) by (auto simp: x_frame_def)
  note o = x_frame_other[OF assms(2) i(2), of "r_pSendBuffer s"]
  show "rio_ok s'" using o i assms(1,3-7) b by (auto simp: rio_ok_def)
  show "rio_pending s' = rio_pending s" using o(1) i assms(4-6) by (auto simp: rio_pending_def)
  show "pool_kept s s'"
    using x_frame_apart[OF assms(2) i(2)] b assms(4,5,8,9) by (auto simp: pool_kept_def)
qed

section \<open>Flushing\<close>

lemma scatter_no_data: "spans_within (length mem) ss \<Longrightarrow> scatter ss [] mem = mem"
  by (induction ss) auto

lemma flush_copy_scatter:
  assumes "n \<le> length src" "n \<le> spans_size sps" "spans_within (length mem) sps"
  shows "flush_copy sps src n w mem = (w + n, scatter sps (take n src) mem)"
  using assms
proof (induction sps src n w mem rule: flush_copy.induct)
  case (1 src n w mem)
  then show ?case by (simp add: spans_size_def)
next
  case (2 sp sps src n w mem)
  show ?case
  proof (cases "n = 0")
    case True
    then show ?thesis using 2(4) scatter_no_data[of mem "sp # sps"] by simp
  next
    case False
    let ?c = "min n (snd sp)"
    have len: "length (memcpy_at (fst sp) (take ?c src) mem) = length mem"
      using 2(2-4) by (intro length_memcpy_at) auto
    have "flush_copy sps (drop ?c src) (n - ?c) (w + ?c) (memcpy_at (fst sp) (take ?c src) mem) =
      (w + n, scatter sps (take (n - ?c) (drop ?c src)) (memcpy_at (fst sp) (take ?c src) mem))"
      using 2(1)[OF False refl] 2(2-4) len by (auto simp: spans_size_def spans_within_def)
    moreover have "take (n - ?c) (drop ?c src) = drop (snd sp) (take n src)"
      "take ?c src = take (snd sp) (take n src)"
      by (auto simp: drop_take min_def)
    ultimately show ?thesis using False by (simp add: Let_def)
  qed
qed

lemma x_writeable:
  assumes "x_inv st"
  obtains ss where "ExternalCircleBufferQueue_GetWriteableBuffers (snd st) = (x_cap st - length (x_contents st), ss)"
    "spans_size ss = x_cap st - length (x_contents st)" "spans_within (length (fst st)) ss"
proof -
  obtain ss where ss: "ExternalCircleBufferQueue_GetWriteableBuffers (snd st) = (x_cap st - length (x_contents st), ss)"
    "spans_size ss = x_cap st - length (x_contents st)"
    using xbq.write_spans[OF assms] by (auto simp: ExternalCircleBufferQueue_vtable_def)
  have "snd (x_Buffer (snd st)) = x_cap st" "x_base st + snd (x_Buffer (snd st)) \<le> length (fst st)"
      "x_Head (snd st) < x_cap st"
    using assms cbq_head_less[OF x_inv_cbq[OF assms]] by (auto simp: x_inv_def as_cbq_def)
  then have "spans_within (length (fst st)) ss"
    using ss(1) by (auto simp: ExternalCircleBufferQueue_GetWriteableBuffers_def Let_def subspan_def split: if_splits)
  then show ?thesis using that ss by blast
qed

text \<open>Copying into the writeable spans and committing is one receive step of the queue.\<close>

lemma flush_iteration:
  assumes "x_inv st" "n \<le> length src" "n \<le> x_cap st - length (x_contents st)"
    "ExternalCircleBufferQueue_GetWriteableBuffers (snd st) = (free, ss)"
  defines "st' \<equiv> (snd (flush_copy ss src n 0 (fst st)), snd (ExternalCircleBufferQueue_CommitWrite n (snd st)))"
  shows "fst (flush_copy ss src n 0 (fst st)) = n" "x_inv st'" "x_frame st st'" "x_cap st' = x_cap st"
    "x_contents st' = x_contents st @ take n src"
proof -
  obtain ss' where w: "(free, ss) = (x_cap st - length (x_contents st), ss')"
    "spans_size ss' = x_cap st - length (x_contents st)" "spans_within (length (fst st)) ss'"
    using x_writeable[OF assms(1)] assms(4) by metis
  have fc: "flush_copy ss src n 0 (fst st) = (n, scatter ss (take n src) (fst st))"
    using flush_copy_scatter[OF assms(2), of ss "fst st" 0] w assms(3) by simp
  then show "fst (flush_copy ss src n 0 (fst st)) = n" by simp
  have st': "st' = snd (q_step xops (QRecv (take n src)) st)"
    using fc assms(2,3,4) w
    by (simp add: st'_def ExternalCircleBufferQueue_vtable_def buf_store_def Let_def min_def)
  show "x_inv st'" "x_cap st' = x_cap st" "x_contents st' = x_contents st @ take n src"
    using xbq.step_refines(2-4)[OF assms(1), of "QRecv (take n src)"] assms(3) st' by simp_all
  show "x_frame st st'" unfolding st' by (rule x_frame_recv[OF assms(1)])
qed

lemma flush_loop_Cons:
  assumes "ExternalCircleBufferQueue_GetWriteableBuffers (snd st) = (free, ss)" "free \<noteq> 0"
    "n = min (length (pp_Data p) - pp_Offset p) free"
    "flush_copy ss (drop (pp_Offset p) (pp_Data p)) n 0 (fst st) = (n, mem)"
  shows "flush_loop (p # ps) st tot =
    (let st' = (mem, snd (ExternalCircleBufferQueue_CommitWrite n (snd st))) in
     if length (pp_Data p) \<le> pp_Offset p + n then flush_loop ps st' (tot - length (pp_Data p))
     else (p\<lparr>pp_Offset := pp_Offset p + n\<rparr> # ps, st', tot))"
  using assms(1,2,4) by (simp add: Let_def assms(3)[symmetric])

lemma flush_loop_spec:
  assumes "x_inv st" "queue_ok ps" "tot = queue_total ps" "flush_loop ps st tot = (ps', st', tot')"
  shows "x_inv st' \<and> x_frame st st' \<and> x_cap st' = x_cap st \<and> queue_ok ps' \<and> tot' = queue_total ps' \<and>
    x_contents st' @ queue_bytes ps' = x_contents st @ queue_bytes ps \<and>
    prefix (x_contents st) (x_contents st') \<and> (ps' \<noteq> [] \<longrightarrow> length (x_contents st') = x_cap st')"
  using assms
proof (induction ps arbitrary: st tot)
  case (Cons p ps)
  obtain ss where w: "ExternalCircleBufferQueue_GetWriteableBuffers (snd st) = (x_cap st - length (x_contents st), ss)"
    using x_writeable[OF Cons.prems(1)] by blast
  have bnd: "length (x_contents st) \<le> x_cap st" by (rule xbq.bounded[OF Cons.prems(1)])
  let ?src = "drop (pp_Offset p) (pp_Data p)"
  let ?free = "x_cap st - length (x_contents st)"
  let ?n = "min (length (pp_Data p) - pp_Offset p) ?free"
  obtain n where n: "n = ?n" by blast
  obtain mem where fc: "flush_copy ss ?src n 0 (fst st) = (n, mem)"
    using flush_iteration(1)[OF Cons.prems(1) _ _ w, of n ?src] n by (metis length_drop min.cobounded1 min.cobounded2 prod.collapse)
  let ?st = "(mem, snd (ExternalCircleBufferQueue_CommitWrite n (snd st)))"
  have it: "x_inv ?st" "x_frame st ?st" "x_cap ?st = x_cap st"
    "x_contents ?st = x_contents st @ take n ?src"
    using flush_iteration(2-5)[OF Cons.prems(1) _ _ w, of n ?src] fc n by simp_all
  note step = flush_loop_Cons[OF w _ n fc, of ps tot]
  consider (full) "?free = 0" | (whole) "?free \<noteq> 0" "length (pp_Data p) \<le> pp_Offset p + n"
    | (part) "?free \<noteq> 0" "\<not> length (pp_Data p) \<le> pp_Offset p + n" by blast
  then show ?case
  proof cases
    case full
    then have "(ps', st', tot') = (p # ps, st, tot)" using Cons.prems(4) w by simp
    then show ?thesis using full bnd Cons.prems(1-3) by simp
  next
    case whole
    then have len: "n = length ?src" using Cons.prems(2) n by auto
    have "flush_loop ps ?st (tot - length (pp_Data p)) = (ps', st', tot')"
      using Cons.prems(4) step whole by (simp add: Let_def)
    with Cons.IH[OF it(1)] Cons.prems(2,3)
    have ih: "x_inv st' \<and> x_frame ?st st' \<and> x_cap st' = x_cap ?st \<and> queue_ok ps' \<and> tot' = queue_total ps' \<and>
        x_contents st' @ queue_bytes ps' = x_contents ?st @ queue_bytes ps \<and>
        prefix (x_contents ?st) (x_contents st') \<and> (ps' \<noteq> [] \<longrightarrow> length (x_contents st') = x_cap st')" by simp
    moreover have "prefix (x_contents st) (x_contents st')"
      using ih it(4) prefix_order.trans[of "x_contents st" "x_contents ?st"] by simp
    moreover have "x_frame st st'" using x_frame_trans[OF it(2,3)] ih by blast
    moreover have "take n ?src = ?src" using len by simp
    ultimately show ?thesis using it(3,4) by (metis append.assoc queue_simps(2))
  next
    case part
    have "(ps', st', tot') = (p\<lparr>pp_Offset := pp_Offset p + n\<rparr> # ps, ?st, tot)"
      using Cons.prems(4) step part by (simp add: Let_def)
    then have r: "ps' = p\<lparr>pp_Offset := pp_Offset p + n\<rparr> # ps" "st' = ?st" "tot' = tot" by auto
    have "take n ?src @ drop (pp_Offset p + n) (pp_Data p) = ?src"
      by (metis add.commute append_take_drop_id drop_drop)
    then have "x_contents st' @ queue_bytes ps' = x_contents st @ queue_bytes (p # ps)"
      using r it(4) by (simp add: add.commute)
    moreover have "length (x_contents st') = x_cap st'"
      using it(3,4) part bnd n unfolding r by (simp add: min_def split: if_splits)
    ultimately show ?thesis using it r Cons.prems(2,3) part by auto
  qed
qed simp

section \<open>The relation of a sending step\<close>

definition rio_packets :: "rio_trace \<Rightarrow> Packet list" where
  "rio_packets tr = List.map_filter (\<lambda>e. case e of Rcb_OnPacketReceived p \<Rightarrow> Some p | _ \<Rightarrow> None) tr"

lemma rio_packets_simps [simp]:
  "rio_packets [] = []"
  "rio_packets (e # tr) = (case e of Rcb_OnPacketReceived p \<Rightarrow> [p] | _ \<Rightarrow> []) @ rio_packets tr"
  "rio_packets (a @ b) = rio_packets a @ rio_packets b"
  by (auto simp: rio_packets_def List.map_filter_def split: rio_event.splits)

text \<open>The bytes of the last posted send.\<close>

definition last_send :: "rio_trace \<Rightarrow> byte list option" where
  "last_send tr = fold (\<lambda>e a. case e of Rio_Send _ d \<Rightarrow> Some d | _ \<Rightarrow> a) tr None"

lemma last_send_snoc [simp]:
  "last_send (tr @ [e]) = (case e of Rio_Send _ d \<Rightarrow> Some d | _ \<Rightarrow> last_send tr)"
  by (cases e) (simp_all add: last_send_def)

text \<open>While a send is in progress the bytes posted are still the first ones of the ring.\<close>

definition wire_ok :: "'z RIOSession_scheme \<Rightarrow> bool" where
  "wire_ok s \<longleftrightarrow> (r_SendInProgress s \<longrightarrow>
     (\<exists>d. last_send (r_Trace s) = Some d \<and> d \<noteq> [] \<and> prefix d (x_contents (send_view s))))"

text \<open>The slices describe the windows of the buffers, in numbers that fit 32 bits.\<close>

definition slice_ok :: "RioBufferSlice \<Rightarrow> span \<Rightarrow> bool" where
  "slice_ok sl w \<longleftrightarrow> window sl = w \<and> sl_pData sl = unat (sl_Offset sl) \<and> fst w + snd w < 2 ^ 32"

definition slices_ok :: "'z RIOSession_scheme \<Rightarrow> bool" where
  "slices_ok s \<longleftrightarrow> slice_ok (r_RecvSlice s) (x_Buffer (r_pReceiveBuffer s)) \<and>
     slice_ok (r_SendSlice s) (x_Buffer (r_pSendBuffer s))"

definition buf_in :: "RioBufferSlice \<Rightarrow> RIO_BUF \<Rightarrow> bool" where
  "buf_in sl b \<longleftrightarrow> rb_BufferId b = sl_BufferId sl \<and> rb_Length b \<noteq> 0 \<and> sl_pData sl \<le> unat (rb_Offset b) \<and>
     unat (rb_Offset b) + unat (rb_Length b) \<le> sl_pData sl + unat (sl_Length sl)"

text \<open>A post stays inside the slice of its direction, and a send names the bytes it shows.\<close>

fun post_ok :: "RioBufferSlice \<Rightarrow> RioBufferSlice \<Rightarrow> rio_event \<Rightarrow> bool" where
  "post_ok rs ss (Rio_Receive b) = buf_in rs b"
| "post_ok rs ss (Rio_Send b d) = (buf_in ss b \<and> length d = unat (rb_Length b))"
| "post_ok rs ss _ = True"

definition posts_ok :: "'z RIOSession_scheme \<Rightarrow> bool" where
  "posts_ok s \<longleftrightarrow> slices_ok s \<and> list_all (post_ok (r_RecvSlice s) (r_SendSlice s)) (r_Trace s)"

definition rio_counters :: "'z RIOSession_scheme \<Rightarrow> u64 \<times> u64 \<times> u64" where
  "rio_counters s = (r_TotalRxBytes s, r_TotalTxBytes s, r_SessionId s)"

definition rio_sends :: "byte list \<Rightarrow> 'z RIOSession_scheme \<Rightarrow> 'z RIOSession_scheme \<Rightarrow> bool" where
  "rio_sends out s s' \<longleftrightarrow> rio_ok s' \<and> pool_kept s s' \<and> r_pReceiveBuffer s' = r_pReceiveBuffer s \<and>
     rio_received s' = rio_received s \<and> rio_counters s' = rio_counters s \<and>
     rio_pending s' = rio_pending s @ out \<and> (wire_ok s \<longrightarrow> wire_ok s') \<and> (posts_ok s \<longrightarrow> posts_ok s') \<and>
     (r_IsDisconnected s \<longrightarrow> r_IsDisconnected s') \<and>
     (\<exists>new. r_Trace s' = r_Trace s @ new \<and> rio_packets new = [])"

lemma rio_sends_refl [simp]: "rio_ok s \<Longrightarrow> rio_sends [] s s"
  by (simp add: rio_sends_def)

lemma rio_sends_trans:
  assumes "rio_sends a s s'" "rio_sends b s' s''"
  shows "rio_sends (a @ b) s s''"
proof -
  obtain n1 n2 where "r_Trace s' = r_Trace s @ n1" "rio_packets n1 = []" "r_Trace s'' = r_Trace s' @ n2" "rio_packets n2 = []"
    using assms by (auto simp: rio_sends_def)
  then have "\<exists>new. r_Trace s'' = r_Trace s @ new \<and> rio_packets new = []" by (intro exI[of _ "n1 @ n2"]) simp
  then show ?thesis
    using assms pool_kept_trans[of s s' s''] by (auto simp: rio_sends_def)
qed

lemma rio_sends_ok: "rio_sends out s s' \<Longrightarrow> rio_ok s'"
  by (simp add: rio_sends_def)

lemma rio_sends_received: "rio_sends out s s' \<Longrightarrow> rio_received s' = rio_received s"
  unfolding rio_sends_def by blast

section \<open>Posting\<close>

lemma unat_of_diff:
  assumes "a \<le> n" "n < 2 ^ 32" "unat (w :: u32) = a"
  shows "unat (w + of_int (int n - int a)) = n"
proof -
  have "w = of_nat a" using assms(3) by auto
  then have "w + of_int (int n - int a) = of_nat n" by simp
  then show ?thesis using assms(2) by (simp add: unsigned_of_nat take_bit_nat_eq_self)
qed

lemma rio_buf_exact:
  assumes "slice_ok sl w" "fst w \<le> fst p" "fst p + snd p \<le> fst w + snd w" "snd p \<noteq> 0"
  shows "buf_in sl (rio_buf sl p)" "unat (rb_Length (rio_buf sl p)) = snd p" "unat (rb_Offset (rio_buf sl p)) = fst p"
proof -
  have w: "fst w = sl_pData sl" "snd w = unat (sl_Length sl)" "sl_pData sl = unat (sl_Offset sl)"
    "fst p + snd p < 2 ^ 32" using assms by (auto simp: slice_ok_def window_def)
  show l: "unat (rb_Length (rio_buf sl p)) = snd p"
    using w(4) by (simp add: rio_buf_def unsigned_of_nat take_bit_nat_eq_self)
  show off: "unat (rb_Offset (rio_buf sl p)) = fst p"
    using unat_of_diff[of "unat (sl_Offset sl)" "fst p" "sl_Offset sl"] w(1,3,4) assms(2) by (simp add: rio_buf_def)
  have "rb_Length (rio_buf sl p) \<noteq> 0" using l assms(4) by (metis unat_0)
  then show "buf_in sl (rio_buf sl p)"
    using l off w assms(2,3) by (simp add: buf_in_def rio_buf_def)
qed

text \<open>The first span of the bytes to read and of the space to write.\<close>

lemma first_read_span:
  assumes "x_inv st" "x_contents st \<noteq> []"
  obtains p ss where "ExternalCircleBufferQueue_GetReadBuffers (snd st) = (length (x_contents st), p # ss)"
    "x_base st \<le> fst p" "fst p + snd p \<le> x_base st + snd (x_Buffer (snd st))" "snd p \<noteq> 0"
    "prefix (span_read (fst st) p) (x_contents st)" "length (span_read (fst st) p) = snd p"
proof -
  obtain ss0 where l: "ExternalCircleBufferQueue_GetReadBuffers (snd st) = (length (x_contents st), ss0)"
    "gather (fst st) ss0 = x_contents st"
    using x_Load[OF assms(1)] by blast
  have i: "snd (x_Buffer (snd st)) = x_cap st" "x_base st + x_cap st \<le> length (fst st)" "x_Tail (snd st) < x_cap st"
    using assms(1) x_inv_cbq[OF assms(1)] by (auto simp: x_inv_def cbq_inv_def as_cbq_def)
  have "x_Size (snd st) \<noteq> 0"
    using assms(2) length_cbq_contents[of "as_cbq st"] by (metis length_greater_0_conv m_Size_as_cbq neq0_conv)
  then obtain p ss where p: "ss0 = p # ss" "p = (x_base st + x_Tail (snd st), min (x_Size (snd st)) (x_cap st - x_Tail (snd st)))"
    using l(1) by (auto simp: ExternalCircleBufferQueue_GetReadBuffers_def Let_def subspan_def)
  have "length (span_read (fst st) p) = snd p"
    using i p(2) by (intro length_span_read) auto
  moreover have "prefix (span_read (fst st) p) (x_contents st)"
    using l(2) p(1) by (simp add: gather_def) (metis prefixI)
  moreover have "x_base st \<le> fst p" "fst p + snd p \<le> x_base st + snd (x_Buffer (snd st))" "snd p \<noteq> 0"
    using p(2) i \<open>x_Size (snd st) \<noteq> 0\<close> by auto
  ultimately show ?thesis using that[of p ss] l(1) p(1) by blast
qed

lemma first_write_span:
  assumes "x_inv st" "length (x_contents st) < x_cap st"
  obtains p ss where "ExternalCircleBufferQueue_GetWriteableBuffers (snd st) = (x_cap st - length (x_contents st), p # ss)"
    "x_base st \<le> fst p" "fst p + snd p \<le> x_base st + snd (x_Buffer (snd st))" "snd p \<noteq> 0"
    "snd p \<le> x_cap st - length (x_contents st)" "spans_within (length (fst st)) (p # ss)"
proof -
  obtain ss0 where l: "ExternalCircleBufferQueue_GetWriteableBuffers (snd st) = (x_cap st - length (x_contents st), ss0)"
    "spans_within (length (fst st)) ss0"
    using x_writeable[OF assms(1)] by blast
  have i: "snd (x_Buffer (snd st)) = x_cap st" "x_Head (snd st) < x_cap st"
    using assms(1) cbq_head_less[OF x_inv_cbq[OF assms(1)]] by (auto simp: x_inv_def as_cbq_def)
  obtain p ss where p: "ss0 = p # ss"
      "p = (x_base st + x_Head (snd st), min (x_cap st - length (x_contents st)) (x_cap st - x_Head (snd st)))"
    using l(1) assms(2) by (auto simp: ExternalCircleBufferQueue_GetWriteableBuffers_def Let_def subspan_def split: if_splits)
  then show ?thesis using that[of p ss] l i assms(2) by auto
qed

text \<open>Steps that touch neither buffer nor queue.\<close>

lemma rio_sends_same:
  assumes "rio_ok s" "r_Pool s' = r_Pool s" "r_pReceiveBuffer s' = r_pReceiveBuffer s" "r_pSendBuffer s' = r_pSendBuffer s"
    "r_PendingSendQueue s' = r_PendingSendQueue s" "r_PendingTotalBytes s' = r_PendingTotalBytes s"
    "rio_counters s' = rio_counters s" "r_RecvSlice s' = r_RecvSlice s" "r_SendSlice s' = r_SendSlice s"
    "r_Trace s' = r_Trace s @ new" "rio_packets new = []" "wire_ok s \<longrightarrow> wire_ok s'"
    "posts_ok s \<longrightarrow> list_all (post_ok (r_RecvSlice s) (r_SendSlice s)) new"
    "r_IsDisconnected s \<longrightarrow> r_IsDisconnected s'"
  shows "rio_sends [] s s'"
  using assms by (auto simp: rio_sends_def rio_ok_def pool_kept_def rio_pending_def posts_ok_def slices_ok_def)

lemma TryPostSend_sends:
  assumes "rio_ok s"
  shows "rio_sends [] s (RIOSession_TryPostSendFromQueue env s)"
proof (cases "r_SendInProgress s \<or> x_contents (send_view s) = []")
  case True
  have "x_inv (send_view s)" using assms by (simp add: rio_ok_def)
  then have "x_contents (send_view s) = [] \<Longrightarrow> fst (ExternalCircleBufferQueue_GetReadBuffers (r_pSendBuffer s)) = 0"
    using x_Load[of "send_view s"] by fastforce
  then have "RIOSession_TryPostSendFromQueue env s = s"
    using True by (cases s) (auto simp: RIOSession_TryPostSendFromQueue_def split_beta Let_def)
  then show ?thesis using assms by simp
next
  case False
  have i: "x_inv (send_view s)" using assms by (simp add: rio_ok_def)
  obtain p ss where r: "ExternalCircleBufferQueue_GetReadBuffers (r_pSendBuffer s) = (length (x_contents (send_view s)), p # ss)"
    "fst (x_Buffer (r_pSendBuffer s)) \<le> fst p" "fst p + snd p \<le> fst (x_Buffer (r_pSendBuffer s)) + snd (x_Buffer (r_pSendBuffer s))"
    "snd p \<noteq> 0" "prefix (span_read (r_Pool s) p) (x_contents (send_view s))" "length (span_read (r_Pool s) p) = snd p"
    using first_read_span[OF i] False by auto
  let ?e = "Rio_Send (rio_buf (r_SendSlice s) p) (span_read (r_Pool s) p)"
  have post: "slices_ok s \<Longrightarrow> post_ok (r_RecvSlice s) (r_SendSlice s) ?e"
    using rio_buf_exact(1,2)[OF _ r(2-4), of "r_SendSlice s"] r(6) by (simp add: slices_ok_def)
  have nz: "x_Size (r_pSendBuffer s) \<noteq> 0"
    using False length_cbq_contents[of "as_cbq (send_view s)"] by (metis list.size(3) m_Size_as_cbq snd_conv length_0_conv)
  have "RIOSession_TryPostSendFromQueue env s = s\<lparr>r_SendInProgress := env (r_Trace s) ?e \<noteq> 0, r_Trace := r_Trace s @ [?e]\<rparr>"
    using False r(1) nz by (simp add: RIOSession_TryPostSendFromQueue_def Let_def rio_log_def)
  moreover have "span_read (r_Pool s) p \<noteq> []" using r(4,6) by auto
  ultimately show ?thesis
    using assms post r(5) by (intro rio_sends_same[where new = "[?e]"]) (auto simp: rio_counters_def wire_ok_def posts_ok_def)
qed

text \<open>A change of the send ring and of the queue that only appends to the ring.\<close>

lemma rio_sends_step:
  assumes "rio_ok s" "x_frame (send_view s) (send_view s')" "x_inv (send_view s')"
    "queue_ok (r_PendingSendQueue s')" "r_PendingTotalBytes s' = queue_total (r_PendingSendQueue s')"
    "r_pReceiveBuffer s' = r_pReceiveBuffer s" "rio_counters s' = rio_counters s"
    "r_RecvSlice s' = r_RecvSlice s" "r_SendSlice s' = r_SendSlice s" "r_Trace s' = r_Trace s"
    "r_SendInProgress s' = r_SendInProgress s" "r_IsDisconnected s' = r_IsDisconnected s"
    "prefix (x_contents (send_view s)) (x_contents (send_view s'))" "rio_pending s' = rio_pending s @ out"
  shows "rio_sends out s s'"
proof -
  have v: "rio_ok s'" "pool_kept s s'" "rio_received s' = rio_received s"
    using send_view_step[OF assms(1-5) refl refl assms(6,8,9)] by simp_all
  have "slices_ok s \<Longrightarrow> slices_ok s'"
    using assms(8,9) v(2) by (simp add: slices_ok_def pool_kept_def)
  moreover have "wire_ok s \<Longrightarrow> wire_ok s'"
    using assms(10,11,13) prefix_order.trans by (fastforce simp: wire_ok_def)
  ultimately show ?thesis
    using assms(6-14) v by (auto simp: rio_sends_def posts_ok_def)
qed

lemma Flush_sends:
  assumes "rio_ok s"
  shows "rio_sends [] s (RIOSession_FlushPendingSendQueue env s)"
proof -
  obtain ps st tot where f: "flush_loop (r_PendingSendQueue s) (send_view s) (r_PendingTotalBytes s) = (ps, st, tot)"
    by (metis prod_cases3)
  have sp: "x_inv st \<and> x_frame (send_view s) st \<and> x_cap st = x_cap (send_view s) \<and> queue_ok ps \<and> tot = queue_total ps \<and>
    x_contents st @ queue_bytes ps = x_contents (send_view s) @ queue_bytes (r_PendingSendQueue s) \<and>
    prefix (x_contents (send_view s)) (x_contents st) \<and> (ps \<noteq> [] \<longrightarrow> length (x_contents st) = x_cap st)"
    using flush_loop_spec[OF _ _ _ f] assms by (simp add: rio_ok_def)
  let ?s = "(set_send st s)\<lparr>r_PendingSendQueue := ps, r_PendingTotalBytes := tot\<rparr>"
  have "rio_sends [] s ?s"
    using assms sp by (intro rio_sends_step) (auto simp: set_send_def rio_counters_def rio_pending_def)
  from rio_sends_trans[OF this TryPostSend_sends[OF rio_sends_ok[OF this]]]
  show ?thesis using f by (simp add: RIOSession_FlushPendingSendQueue_def)
qed

end
