(* ===== verification/Rio_Session_Methods.thy ===== *)
theory Rio_Session_Methods
  imports Rio_Session_Laws
begin

text \<open>
  The methods of \<open>RIOSession\<close> for any subclass whose hooks keep the contract of the locales:
  \<open>OnDisconnected\<close> and \<open>OnPacketReceived\<close> may send, and leave the received bytes alone.
\<close>

section \<open>Sending\<close>

lemma rio_packet_data_encode: "rio_packet_data i body = encode i body"
proof -
  have n: "GetHeaderSize + GetPacketIdSize + length body = Suc (Suc (Suc (Suc (length body))))"
    by (simp add: GetHeaderSize_def GetPacketIdSize_def)
  have h: "GetHeaderSize + GetPacketIdSize = Suc (Suc (Suc (Suc 0)))" "(2 :: nat) = Suc (Suc 0)"
    by (simp_all add: GetHeaderSize_def GetPacketIdSize_def)
  have e: "length body + 4 = Suc (Suc (Suc (Suc (length body))))" by simp
  show ?thesis
    unfolding rio_packet_data_def encode_eq Let_def n h e u16_be_def memcpy_at_def by simp
qed

definition rio_accepts :: "'z RIOSession_scheme \<Rightarrow> bool" where
  "rio_accepts s \<longleftrightarrow> \<not> r_IsDisconnected s \<and> r_PendingTotalBytes s \<le> MAX_PENDING_BYTES"

locale rio_core =
  fixes onDisc :: "'z RIOSession_scheme \<Rightarrow> 'z RIOSession_scheme"
  assumes disc_law: "rio_ok s \<Longrightarrow> rio_sends [] s (onDisc s)"
begin

lemma disconnect_sends:
  assumes "rio_ok s"
  shows "rio_sends [] s (onDisc (rio_log Rcb_OnDisconnected (s\<lparr>r_IsDisconnected := True\<rparr>)))"
proof -
  let ?s = "rio_log Rcb_OnDisconnected (s\<lparr>r_IsDisconnected := True\<rparr>)"
  have 1: "rio_sends [] s ?s"
    using assms by (intro rio_sends_same[where new = "[Rcb_OnDisconnected]"])
      (auto simp: rio_log_def rio_counters_def wire_ok_def)
  from rio_sends_trans[OF 1 disc_law[OF rio_sends_ok[OF 1]]] show ?thesis by simp
qed

lemma SendMessage_sends:
  assumes "rio_ok s"
  shows "rio_sends (if rio_accepts s then encode i body else []) s (RIOSession_SendMessage env onDisc i body s)"
proof (cases "rio_accepts s")
  case False
  then show ?thesis
    using assms disconnect_sends[OF assms]
    by (auto simp: RIOSession_SendMessage_def Let_def rio_accepts_def)
next
  case True
  have i: "x_inv (send_view s)" "queue_ok (r_PendingSendQueue s)" "r_PendingTotalBytes s = queue_total (r_PendingSendQueue s)"
    using assms by (simp_all add: rio_ok_def)
  let ?p = "\<lparr>pp_Data = encode i body, pp_Offset = 0\<rparr>"
  let ?q = "s\<lparr>r_PendingSendQueue := r_PendingSendQueue s @ [?p],
              r_PendingTotalBytes := r_PendingTotalBytes s + (length body + 4)\<rparr>"
  have flush: "rio_sends (encode i body) s (RIOSession_FlushPendingSendQueue env s2)"
    if "rio_sends (encode i body) s s2" for s2
    using rio_sends_trans[OF that Flush_sends[OF rio_sends_ok[OF that]]] by simp
  have queued: "rio_sends (encode i body) s ?q"
    using assms i by (intro rio_sends_step) (auto simp: rio_counters_def rio_pending_def)
  show ?thesis
  proof (cases "r_PendingSendQueue s = [] \<and> length body + 4 \<le> ExternalCircleBufferQueue_CanWriteSize (r_pSendBuffer s)")
    case direct: True
    have room: "length (x_contents (send_view s)) + length (encode i body) \<le> x_cap (send_view s)"
      using direct xbq.bounded[OF i(1)] by (auto simp: ExternalCircleBufferQueue_CanWriteSize_def)
    obtain st where w: "ExternalCircleBufferQueue_Write (encode i body) (send_view s) = (True, st)" "x_inv st"
      "x_contents st = x_contents (send_view s) @ encode i body"
      using xbq.write_ok[OF i(1) room] by (auto simp: ExternalCircleBufferQueue_vtable_def)
    have "x_frame (send_view s) st"
      using x_frame_step[OF i(1), of "QWrite (encode i body)"] w(1) by (simp add: ExternalCircleBufferQueue_vtable_def)
    then have "rio_sends (encode i body) s (set_send st s)"
      using assms i w direct by (intro rio_sends_step) (auto simp: set_send_def rio_counters_def rio_pending_def)
    from flush[OF this] show ?thesis
      using True direct w(1) by (auto simp: RIOSession_SendMessage_def rio_accepts_def rio_packet_data_encode Let_def
          GetHeaderSize_def GetPacketIdSize_def add.commute)
  next
    case False
    then show ?thesis
      using True flush[OF queued]
      by (auto simp: RIOSession_SendMessage_def rio_accepts_def rio_packet_data_encode Let_def
          GetHeaderSize_def GetPacketIdSize_def add.commute)
  qed
qed

end

section \<open>Receiving\<close>

text \<open>What the framing loop does with the received bytes \<open>xs\<close>: it dispatches exactly the packets
  at their front, in order, and keeps the rest, also when the stream is corrupt there.\<close>

definition rio_drained :: "byte list \<Rightarrow> 'z RIOSession_scheme \<Rightarrow> 'z RIOSession_scheme \<Rightarrow> bool" where
  "rio_drained xs s s' \<longleftrightarrow> rio_ok s' \<and> pool_kept s s' \<and> rio_counters s' = rio_counters s \<and>
     (wire_ok s \<longrightarrow> wire_ok s') \<and> (posts_ok s \<longrightarrow> posts_ok s') \<and> (r_IsDisconnected s \<longrightarrow> r_IsDisconnected s') \<and>
     (\<exists>out. rio_pending s' = rio_pending s @ out) \<and>
     (\<exists>new. r_Trace s' = r_Trace s @ new \<and> rio_packets new = fst (deframe_all xs)) \<and>
     rio_received s' = fst (snd (deframe_all xs))"

lemma framer_same_block:
  "fst (snd (TryFrameFromBuffer xops st)) = fst st \<and>
   x_Buffer (snd (snd (TryFrameFromBuffer xops st))) = x_Buffer (snd st)"
  by (auto simp: TryFrameFromBuffer_def ExternalCircleBufferQueue_vtable_def ExternalCircleBufferQueue_Pop_def Let_def
      split: option.splits prod.splits)

text \<open>A step on the receive ring.\<close>

lemma rio_recv_step:
  assumes "rio_ok s" "x_frame (recv_view s) st" "x_inv st" "r_Trace s' = r_Trace s @ new"
    "list_all (\<lambda>e. case e of Rcb_OnPacketReceived _ \<Rightarrow> True | _ \<Rightarrow> False) new"
    "recv_view s' = st" "r_pSendBuffer s' = r_pSendBuffer s" "r_PendingSendQueue s' = r_PendingSendQueue s"
    "r_PendingTotalBytes s' = r_PendingTotalBytes s" "r_RecvSlice s' = r_RecvSlice s" "r_SendSlice s' = r_SendSlice s"
    "r_SendInProgress s' = r_SendInProgress s"
  shows "rio_ok s'" "pool_kept s s'" "rio_pending s' = rio_pending s" "wire_ok s \<longrightarrow> wire_ok s'" "posts_ok s \<longrightarrow> posts_ok s'"
proof -
  note v = recv_view_step[OF assms(1-3,6-11)]
  show "rio_ok s'" "pool_kept s s'" "rio_pending s' = rio_pending s" by (fact v)+
  have "x_contents (send_view s') = x_contents (send_view s)"
    using v(3) assms(8) by (simp add: rio_pending_def)
  moreover have "last_send (r_Trace s @ new) = last_send (r_Trace s)"
    using assms(5) by (induction new rule: rev_induct) (auto simp flip: append_assoc split: rio_event.splits)
  ultimately show "wire_ok s \<longrightarrow> wire_ok s'" using assms(4,12) by (simp add: wire_ok_def)
  have "list_all (post_ok (r_RecvSlice s) (r_SendSlice s)) new"
    using assms(5) by (induction new) (auto split: rio_event.splits)
  then show "posts_ok s \<longrightarrow> posts_ok s'"
    using v(2) assms(4,10,11) by (auto simp: posts_ok_def slices_ok_def pool_kept_def)
qed

lemma RequestRecv_sends:
  assumes "rio_ok s"
  shows "rio_sends [] s (RIOSession_RequestRecv s)"
proof (cases "r_IsDisconnected s \<or> length (rio_received s) = x_cap (recv_view s)")
  case True
  have "x_inv (recv_view s)" using assms by (simp add: rio_ok_def)
  then obtain ss where "ExternalCircleBufferQueue_GetWriteableBuffers (r_pReceiveBuffer s) =
      (x_cap (recv_view s) - length (rio_received s), ss)"
    using x_writeable[of "recv_view s"] by auto
  then have "RIOSession_RequestRecv s = s" using True by (auto simp: RIOSession_RequestRecv_def)
  then show ?thesis using assms by simp
next
  case False
  have i: "x_inv (recv_view s)" using assms by (simp add: rio_ok_def)
  have lt: "length (rio_received s) < x_cap (recv_view s)" using False xbq.bounded[OF i] by simp
  obtain p ss where r: "ExternalCircleBufferQueue_GetWriteableBuffers (r_pReceiveBuffer s) =
      (x_cap (recv_view s) - length (rio_received s), p # ss)"
    "fst (x_Buffer (r_pReceiveBuffer s)) \<le> fst p" "fst p + snd p \<le> fst (x_Buffer (r_pReceiveBuffer s)) + snd (x_Buffer (r_pReceiveBuffer s))"
    "snd p \<noteq> 0"
    using first_write_span[OF i lt] unfolding fst_conv snd_conv by blast
  let ?e = "Rio_Receive (rio_buf (r_RecvSlice s) p)"
  have "RIOSession_RequestRecv s = rio_log ?e s"
    using r(1) False xbq.bounded[OF i] by (auto simp: RIOSession_RequestRecv_def)
  moreover have "slices_ok s \<Longrightarrow> post_ok (r_RecvSlice s) (r_SendSlice s) ?e"
    using rio_buf_exact(1)[OF _ r(2-4)] by (simp add: slices_ok_def)
  ultimately show ?thesis
    using assms by (intro rio_sends_same[where new = "[?e]"]) (auto simp: rio_log_def rio_counters_def wire_ok_def posts_ok_def)
qed

locale rio_client = rio_core "rcb_OnDisconnected cb"
  for cb :: "('z RIOSession_scheme) rio_callbacks" +
  assumes packet_law: "rio_ok s \<Longrightarrow> \<exists>out. rio_sends out s (rcb_OnPacketReceived cb p s)"
begin

lemma ReadReceivedBuffers_drains:
  assumes "rio_ok s" "length (rio_received s) < fuel"
  shows "\<exists>s'. RIOSession_ReadReceivedBuffers fuel cb s = Some s' \<and> rio_drained (rio_received s) s s'"
  using assms
proof (induction fuel arbitrary: s)
  case (Suc fuel)
  have i: "x_inv (recv_view s)" using Suc.prems(1) by (simp add: rio_ok_def)
  have same: "set_recv (recv_view s) s = s" by (cases s) (simp add: set_recv_def)
  have stop: ?case if "TryFrameFromBuffer xops (recv_view s) = (\<lparr>frame_Result = r, frame_PacketOpt = None\<rparr>, recv_view s)"
    "r \<noteq> FrameOk" "deframe_all (rio_received s) = ([], rio_received s, b)" for r b
  proof -
    have "RIOSession_ReadReceivedBuffers (Suc fuel) cb s = Some s" using that(1,2) same by simp
    then show ?thesis using that(3) Suc.prems(1) by (auto simp: rio_drained_def)
  qed
  show ?case
  proof (cases "deframe (rio_received s)")
    case Stuck
    then have "deframe_all (rio_received s) = ([], rio_received s, False)" by (simp add: deframe_all.simps[of "rio_received s"])
    then show ?thesis using stop[OF xbq.framer_short[OF i Stuck]] by blast
  next
    case Corrupt
    then have "deframe_all (rio_received s) = ([], rio_received s, True)" by (simp add: deframe_all.simps[of "rio_received s"])
    then show ?thesis using stop[OF xbq.framer_corrupt[OF i Corrupt]] by blast
  next
    case (Framed p rest)
    obtain st where f: "TryFrameFromBuffer xops (recv_view s) = (\<lparr>frame_Result = FrameOk, frame_PacketOpt = Some p\<rparr>, st)"
      "x_inv st" "x_contents st = rest"
      using xbq.framer_ok[OF i Framed] by auto
    have fr: "x_frame (recv_view s) st"
      using framer_same_block[of "recv_view s"] f(1) x_frame_same_mem[of "snd st" "recv_view s"] by (cases st) simp
    let ?s1 = "rio_log (Rcb_OnPacketReceived p) (set_recv st s)"
    have v: "rio_ok ?s1" "pool_kept s ?s1" "rio_pending ?s1 = rio_pending s" "wire_ok s \<longrightarrow> wire_ok ?s1" "posts_ok s \<longrightarrow> posts_ok ?s1"
      using rio_recv_step[OF Suc.prems(1) fr f(2), of ?s1 "[Rcb_OnPacketReceived p]"]
      by (simp_all add: rio_log_def set_recv_def)
    obtain out where h: "rio_sends out ?s1 (rcb_OnPacketReceived cb p ?s1)" using packet_law[OF v(1)] by blast
    let ?s2 = "rcb_OnPacketReceived cb p ?s1"
    have "rio_received ?s1 = rest" using f(3) by (simp add: rio_log_def set_recv_def)
    then have r2: "rio_received ?s2 = rest" by (rule trans[OF rio_sends_received[OF h]])
    have "length rest < fuel" using deframe_Framed_length[OF Framed] Suc.prems(2) by simp
    then obtain s' where s': "RIOSession_ReadReceivedBuffers fuel cb ?s2 = Some s'" "rio_drained rest ?s2 s'"
      using Suc.IH[OF rio_sends_ok[OF h]] r2 by auto
    obtain n1 n2 where n: "r_Trace ?s2 = r_Trace ?s1 @ n1" "rio_packets n1 = []" "r_Trace s' = r_Trace ?s2 @ n2"
      "rio_packets n2 = fst (deframe_all rest)"
      using h s'(2) by (auto simp: rio_sends_def rio_drained_def)
    have all: "deframe_all (rio_received s) = (p # fst (deframe_all rest), snd (deframe_all rest))"
      by (simp add: deframe_all.simps[of "rio_received s"] Framed split_beta)
    have tr: "\<exists>new. r_Trace s' = r_Trace s @ new \<and> rio_packets new = fst (deframe_all (rio_received s))"
      using n all by (intro exI[of _ "Rcb_OnPacketReceived p # n1 @ n2"]) (simp add: rio_log_def set_recv_def)
    have "RIOSession_ReadReceivedBuffers (Suc fuel) cb s = Some s'" using f(1) s'(1) by simp
    moreover have "rio_drained (rio_received s) s s'"
      using v h s'(2) tr all pool_kept_trans[of s ?s1 ?s2] pool_kept_trans[of s ?s2 s']
      by (auto simp: rio_drained_def rio_sends_def rio_counters_def rio_log_def set_recv_def)
    ultimately show ?thesis by blast
  qed
qed simp

end

end
