(* ===== verification/Rio_Session_Runs.thy ===== *)
theory Rio_Session_Runs
  imports Rio_Session_Methods
begin

text \<open>
  Completions of a RIO session and histories of calls. \<open>rio_run\<close> keeps two ghost streams: the
  bytes that were accepted for sending (by \<open>SendMessage\<close> or by a hook during a receive) and the
  bytes that the kernel acknowledged, each acknowledged range being the first bytes of the
  buffer of the last posted send.
\<close>

lemma kernel_recv_commit:
  assumes "x_inv st" "ExternalCircleBufferQueue_GetWriteableBuffers (snd st) = (free, p # ss)"
    "spans_within (length (fst st)) (p # ss)" "length data \<le> snd p" "length data \<le> free"
  shows "(memcpy_at (fst p) data (fst st), snd (ExternalCircleBufferQueue_CommitWrite (length data) (snd st))) =
    snd (q_step xops (QRecv data) st)"
proof -
  have "scatter (p # ss) data (fst st) = memcpy_at (fst p) data (fst st)"
    using assms(3,4) scatter_no_data[of "memcpy_at (fst p) data (fst st)" ss] by simp
  then show ?thesis
    using assms(2,5) by (simp add: ExternalCircleBufferQueue_vtable_def buf_store_def)
qed

section \<open>Completions\<close>

text \<open>A receive of \<open>data\<close> into the posted buffer.\<close>

definition recv_fits :: "byte list \<Rightarrow> 'z RIOSession_scheme \<Rightarrow> bool" where
  "recv_fits data s \<longleftrightarrow> data \<noteq> [] \<and> length (rio_received s) < x_cap (recv_view s) \<and>
     length data \<le> snd (hd (snd (ExternalCircleBufferQueue_GetWriteableBuffers (r_pReceiveBuffer s))))"

lemma kernel_recv_view:
  assumes "rio_ok s" "recv_fits data s"
  defines "st \<equiv> (r_Pool (rio_kernel_recv data s), snd (ExternalCircleBufferQueue_CommitWrite (length data) (r_pReceiveBuffer s)))"
  shows "x_inv st" "x_frame (recv_view s) st" "x_contents st = rio_received s @ data"
proof -
  have i: "x_inv (recv_view s)" using assms(1) by (simp add: rio_ok_def)
  have lt: "length (rio_received s) < x_cap (recv_view s)" using assms(2) by (simp add: recv_fits_def)
  obtain p ss where w: "ExternalCircleBufferQueue_GetWriteableBuffers (r_pReceiveBuffer s) =
      (x_cap (recv_view s) - length (rio_received s), p # ss)"
    "snd p \<le> x_cap (recv_view s) - length (rio_received s)" "spans_within (length (r_Pool s)) (p # ss)"
    using first_write_span[OF i lt] unfolding fst_conv snd_conv by blast
  have l: "length data \<le> snd p" using assms(2) w(1) by (simp add: recv_fits_def)
  have st: "st = snd (q_step xops (QRecv data) (recv_view s))"
    using kernel_recv_commit[OF i, of _ p ss data] w l by (simp add: st_def rio_kernel_recv_def)
  show "x_inv st" unfolding st by (rule xbq.step_refines(3)[OF i])
  show "x_frame (recv_view s) st" unfolding st by (rule x_frame_step[OF i])
  have "length data \<le> x_cap (recv_view s) - length (rio_received s)" using l w(2) by simp
  then show "x_contents st = rio_received s @ data"
    using xbq.step_refines(2)[OF i, of "QRecv data"] unfolding st by simp
qed

context rio_client
begin

lemma receive_completion:
  assumes "rio_ok s" "recv_fits data s"
  shows "\<exists>s'. RIOSession_OnRioIOCompleted env cb True (length data) Receive (rio_kernel_recv data s) = Some s' \<and>
    rio_drained (rio_received s @ data) (s\<lparr>r_TotalRxBytes := r_TotalRxBytes s + of_nat (length data)\<rparr>) s'"
proof -
  note k = kernel_recv_view[OF assms]
  let ?s2 = "(rio_kernel_recv data s)\<lparr>r_pReceiveBuffer := snd (ExternalCircleBufferQueue_CommitWrite (length data) (r_pReceiveBuffer s)),
    r_TotalRxBytes := r_TotalRxBytes s + of_nat (length data)\<rparr>"
  let ?s0 = "s\<lparr>r_TotalRxBytes := r_TotalRxBytes s + of_nat (length data)\<rparr>"
  have ok0: "rio_ok ?s0" using assms(1) by (simp add: rio_ok_def)
  have v: "rio_ok ?s2" "pool_kept ?s0 ?s2" "rio_pending ?s2 = rio_pending ?s0" "wire_ok ?s0 \<longrightarrow> wire_ok ?s2"
    "posts_ok ?s0 \<longrightarrow> posts_ok ?s2"
    using rio_recv_step[of ?s0 _ ?s2 "[]", OF ok0 _ k(1)] k(2) by (simp_all add: rio_kernel_recv_def)
  have r2: "rio_received ?s2 = rio_received s @ data" using k(3) by (simp add: rio_kernel_recv_def)
  have "length (rio_received ?s2) < ExternalCircleBufferQueue_CanReadSize (r_pReceiveBuffer ?s2) + 1"
    by (simp add: ExternalCircleBufferQueue_CanReadSize_def)
  then obtain s3 where s3: "RIOSession_ReadReceivedBuffers (ExternalCircleBufferQueue_CanReadSize (r_pReceiveBuffer ?s2) + 1) cb ?s2 = Some s3"
    "rio_drained (rio_received s @ data) ?s2 s3"
    using ReadReceivedBuffers_drains[OF v(1)] r2 by metis
  have q: "rio_sends [] s3 (RIOSession_RequestRecv s3)"
    using s3(2) by (intro RequestRecv_sends) (simp add: rio_drained_def)
  obtain n1 n2 where n: "r_Trace s3 = r_Trace s @ n1" "rio_packets n1 = fst (deframe_all (rio_received s @ data))"
    "r_Trace (RIOSession_RequestRecv s3) = r_Trace s3 @ n2" "rio_packets n2 = []"
    using s3(2) q by (auto simp: rio_drained_def rio_sends_def rio_kernel_recv_def)
  have "\<exists>new. r_Trace (RIOSession_RequestRecv s3) = r_Trace s @ new \<and> rio_packets new = fst (deframe_all (rio_received s @ data))"
    using n by (intro exI[of _ "n1 @ n2"]) simp
  then have "rio_drained (rio_received s @ data) ?s0 (RIOSession_RequestRecv s3)"
    using s3(2) q v pool_kept_trans[of ?s0 ?s2 s3] pool_kept_trans[of ?s0 s3 "RIOSession_RequestRecv s3"]
      rio_sends_received[OF q]
    by (auto simp: rio_drained_def rio_sends_def rio_counters_def rio_kernel_recv_def)
  moreover have "data \<noteq> []" using assms(2) by (simp add: recv_fits_def)
  ultimately show ?thesis
    using s3(1) by (simp add: RIOSession_OnRioIOCompleted_def Let_def rio_kernel_recv_def
        del: RIOSession_ReadReceivedBuffers.simps)
qed

lemma send_completion:
  assumes "rio_ok s" "wire_ok s" "r_SendInProgress s" "last_send (r_Trace s) = Some d" "n \<le> length d"
  shows "\<exists>s'. RIOSession_OnRioIOCompleted env cb True n Send s = Some s' \<and> rio_ok s' \<and> pool_kept s s' \<and>
    rio_pending s = take n d @ rio_pending s' \<and> rio_received s' = rio_received s \<and> wire_ok s' \<and>
    (posts_ok s \<longrightarrow> posts_ok s') \<and>
    r_TotalTxBytes s' = r_TotalTxBytes s + of_nat n \<and> (\<exists>new. r_Trace s' = r_Trace s @ new \<and> rio_packets new = [])"
proof -
  have i: "x_inv (send_view s)" using assms(1) by (simp add: rio_ok_def)
  obtain rest where d: "x_contents (send_view s) = d @ rest"
    using assms(2-4) by (auto simp: wire_ok_def prefix_def)
  let ?st = "(r_Pool s, snd (ExternalCircleBufferQueue_Consume n (r_pSendBuffer s)))"
  have c: "x_inv ?st" "x_contents ?st = drop n (x_contents (send_view s))"
    using xbq.step_refines(2,3)[OF i, of "QConsume n"] d assms(5)
    by (auto simp: ExternalCircleBufferQueue_vtable_def)
  have f: "x_frame (send_view s) ?st"
    using x_frame_step[OF i, of "QConsume n"] by (simp add: ExternalCircleBufferQueue_vtable_def)
  let ?s2 = "s\<lparr>r_pSendBuffer := snd ?st, r_SendInProgress := False, r_TotalTxBytes := r_TotalTxBytes s + of_nat n\<rparr>"
  have v: "rio_ok ?s2" "pool_kept s ?s2" "rio_received ?s2 = rio_received s"
    using send_view_step[OF assms(1) f c(1), where s' = ?s2] assms(1) by (auto simp: rio_ok_def)
  have p: "rio_pending s = take n d @ rio_pending ?s2"
    using c(2) d assms(5) by (simp add: rio_pending_def)
  have "slices_ok s \<Longrightarrow> slices_ok ?s2" using v(2) by (simp add: slices_ok_def pool_kept_def)
  then have "posts_ok s \<longrightarrow> posts_ok ?s2" by (simp add: posts_ok_def)
  moreover have w2: "wire_ok ?s2" by (simp add: wire_ok_def)
  moreover note fl = Flush_sends[OF v(1), of env]
  moreover have "RIOSession_OnRioIOCompleted env cb True n Send s = Some (RIOSession_FlushPendingSendQueue env ?s2)"
    by (simp add: RIOSession_OnRioIOCompleted_def Let_def)
  ultimately show ?thesis
    using p v pool_kept_trans[OF v(2)] rio_sends_received[OF fl]
    by (intro exI[of _ "RIOSession_FlushPendingSendQueue env ?s2"]) (auto simp: rio_sends_def rio_counters_def)
qed

lemma failed_completion:
  assumes "rio_ok s" "\<not> bSuccess \<or> opType = Receive \<and> n = 0"
  shows "\<exists>s'. RIOSession_OnRioIOCompleted env cb bSuccess n opType s = Some s' \<and> rio_sends [] s s'"
  using assms(2) disconnect_sends[OF assms(1)] by (auto simp: RIOSession_OnRioIOCompleted_def)

end

section \<open>Histories\<close>

text \<open>Calls from outside: messages to send, the start of the loop, completions of the posted
  receive and of the send in progress (a send may complete short), and failures. \<open>out\<close> is what
  the hooks queued while the received packets were dispatched.\<close>

inductive rio_run ::
  "rio_env \<Rightarrow> ('z RIOSession_scheme) rio_callbacks \<Rightarrow> 'z RIOSession_scheme \<Rightarrow>
   byte list \<Rightarrow> byte list \<Rightarrow> 'z RIOSession_scheme \<Rightarrow> bool"
  for env cb s0 where
  rr_start: "rio_run env cb s0 [] [] s0"
| rr_send: "rio_run env cb s0 acc ack s \<Longrightarrow>
    rio_run env cb s0 (acc @ (if rio_accepts s then encode i body else [])) ack
      (RIOSession_SendMessage env (rcb_OnDisconnected cb) i body s)"
| rr_loop: "rio_run env cb s0 acc ack s \<Longrightarrow> rio_run env cb s0 acc ack (RIOSession_StartReceiveLoop s)"
| rr_received: "rio_run env cb s0 acc ack s \<Longrightarrow> recv_fits data s \<Longrightarrow>
    RIOSession_OnRioIOCompleted env cb True (length data) Receive (rio_kernel_recv data s) = Some s' \<Longrightarrow>
    rio_pending s' = rio_pending s @ out \<Longrightarrow> rio_run env cb s0 (acc @ out) ack s'"
| rr_sent: "rio_run env cb s0 acc ack s \<Longrightarrow> r_SendInProgress s \<Longrightarrow> last_send (r_Trace s) = Some d \<Longrightarrow>
    n \<le> length d \<Longrightarrow> RIOSession_OnRioIOCompleted env cb True n Send s = Some s' \<Longrightarrow>
    rio_run env cb s0 acc (ack @ take n d) s'"
| rr_failed: "rio_run env cb s0 acc ack s \<Longrightarrow> \<not> bSuccess \<or> opType = Receive \<and> n = 0 \<Longrightarrow>
    RIOSession_OnRioIOCompleted env cb bSuccess n opType s = Some s' \<Longrightarrow> rio_run env cb s0 acc ack s'"

definition rio_inv :: "'z RIOSession_scheme \<Rightarrow> 'z RIOSession_scheme \<Rightarrow> bool" where
  "rio_inv s0 s \<longleftrightarrow> rio_ok s \<and> wire_ok s \<and> posts_ok s \<and> pool_kept s0 s"

lemma rio_inv_sends: "rio_inv s0 s \<Longrightarrow> rio_sends out s s' \<Longrightarrow> rio_inv s0 s' \<and> rio_pending s' = rio_pending s @ out"
  using pool_kept_trans[of s0 s s'] by (simp add: rio_inv_def rio_sends_def)

lemma StartReceiveLoop_sends:
  assumes "rio_ok s"
  shows "rio_sends [] s (RIOSession_StartReceiveLoop s)"
proof -
  have 1: "rio_sends [] s (s\<lparr>r_ReceiveLoopStarted := True\<rparr>)"
    using assms by (intro rio_sends_same[where new = "[]"]) (auto simp: rio_counters_def wire_ok_def)
  from rio_sends_trans[OF 1 RequestRecv_sends[OF rio_sends_ok[OF 1]]] assms
  show ?thesis by (simp add: RIOSession_StartReceiveLoop_def)
qed

context rio_client
begin

lemma rio_run_inv:
  assumes "rio_run env cb s0 acc ack s" "rio_inv s0 s0" "rio_pending s0 = []"
  shows "rio_inv s0 s \<and> acc = ack @ rio_pending s"
  using assms
proof (induction rule: rio_run.induct)
  case rr_start
  then show ?case by simp
next
  case (rr_send acc ack s i body)
  then have I: "rio_inv s0 s" "acc = ack @ rio_pending s" by simp_all
  then show ?case using rio_inv_sends[OF I(1) SendMessage_sends] by (simp add: rio_inv_def)
next
  case (rr_loop acc ack s)
  then have I: "rio_inv s0 s" "acc = ack @ rio_pending s" by simp_all
  then show ?case using rio_inv_sends[OF I(1) StartReceiveLoop_sends] by (simp add: rio_inv_def)
next
  case (rr_received acc ack s data s' out)
  then have I: "rio_inv s0 s" "acc = ack @ rio_pending s" by simp_all
  let ?s = "s\<lparr>r_TotalRxBytes := r_TotalRxBytes s + of_nat (length data)\<rparr>"
  have d: "rio_drained (rio_received s @ data) ?s s'"
    using receive_completion[of s data env] rr_received(2,3) I(1) by (auto simp: rio_inv_def)
  have "wire_ok ?s \<longleftrightarrow> wire_ok s" "posts_ok ?s \<longleftrightarrow> posts_ok s" "pool_kept ?s s' \<longleftrightarrow> pool_kept s s'"
    by (simp_all add: wire_ok_def posts_ok_def slices_ok_def pool_kept_def)
  then have "rio_inv s0 s'"
    using d I(1) pool_kept_trans[of s0 s s'] by (simp add: rio_drained_def rio_inv_def)
  then show ?case using I(2) rr_received(4) by simp
next
  case (rr_sent acc ack s d n s')
  then have I: "rio_inv s0 s" "acc = ack @ rio_pending s" by simp_all
  then have "rio_ok s'" "pool_kept s s'" "rio_pending s = take n d @ rio_pending s'" "wire_ok s'" "posts_ok s'"
    using send_completion[of s d n env] rr_sent(2-5) by (auto simp: rio_inv_def)
  then show ?case using I pool_kept_trans[of s0 s s'] by (simp add: rio_inv_def)
next
  case (rr_failed acc ack s bSuccess opType n s')
  then have I: "rio_inv s0 s" "acc = ack @ rio_pending s" by simp_all
  then have "rio_sends [] s s'"
    using failed_completion[of s bSuccess opType n env] rr_failed(2,3) by (auto simp: rio_inv_def)
  then show ?case using rio_inv_sends[OF I(1)] I(2) by simp
qed

end

end
