(* ===== verification/Rio_Inbound.thy ===== *)
theory Rio_Inbound
  imports Inbound_Session Rio_Session_Runs
begin

text \<open>
  \<open>RIOInboundSession\<close> (\<open>FastPortServerRIO/RIOInboundSession.cpp\<close>): the sessions of the RIO server.
  They answer the same requests as the IOCP sessions, over \<open>RIOSession\<close>; packet ids, messages
  and codec are those of \<open>Inbound_Session\<close>. The hooks keep the contract of \<open>rio_client\<close>.
\<close>

record RIOInboundSession = RIOSession +
  ri_Sessions :: "(u64, u64) Container"

definition RIOInboundSession_ctor ::
  "rio_env \<Rightarrow> (u64, u64) Container \<Rightarrow> u64 \<Rightarrow> byte list \<Rightarrow> Socket \<Rightarrow> RioBufferSlice \<Rightarrow> RioBufferSlice \<Rightarrow> nat option \<Rightarrow>
   RIOInboundSession \<times> u64" where
  "RIOInboundSession_ctor env sessions nextId pool pSocket recvSlice sendSlice completionQueue =
     (let (base, next) = RIOSession_ctor env nextId pool pSocket recvSlice sendSlice completionQueue
      in (RIOSession.extend base \<lparr>ri_Sessions = sessions\<rparr>, next))"

definition RIOInboundSession_OnAccepted :: "RIOInboundSession \<Rightarrow> RIOInboundSession" where
  "RIOInboundSession_OnAccepted s =
     (let s1 = s\<lparr>ri_Sessions := snd (Container_Add (r_SessionId s) (r_SessionId s) (ri_Sessions s))\<rparr>
      in RIOSession_OnAccepted s1)"

definition RIOInboundSession_OnDisconnected :: "RIOInboundSession \<Rightarrow> RIOInboundSession" where
  "RIOInboundSession_OnDisconnected s =
     (let s1 = RIOSession_OnDisconnected s
      in s1\<lparr>ri_Sessions := snd (Container_Remove (r_SessionId s1) (ri_Sessions s1))\<rparr>)"

definition RIOInboundSession_HandleBenchmarkRequest ::
  "rio_env \<Rightarrow> codec \<Rightarrow> u64 \<times> u64 \<Rightarrow> Packet \<Rightarrow> RIOInboundSession \<Rightarrow> RIOInboundSession" where
  "RIOInboundSession_HandleBenchmarkRequest env cd nowNs rfPacket s =
     (case parse_bench cd (m_Payload rfPacket) of
        None \<Rightarrow> s
      | Some request \<Rightarrow>
          let response = \<lparr>bs_header = \<lparr>hd_request_id = hd_request_id (bq_header request),
                                       hd_timestamp_ms = hd_timestamp_ms (bq_header request)\<rparr>,
                          bs_result = RESULT_CODE_OK,
                          bs_client_timestamp_ns = bq_client_timestamp_ns request,
                          bs_server_recv_timestamp_ns = fst nowNs,
                          bs_server_send_timestamp_ns = snd nowNs,
                          bs_sequence = bq_sequence request,
                          bs_payload = bq_payload request\<rparr>
          in RIOSession_SendMessage env RIOInboundSession_OnDisconnected PACKET_ID_BENCHMARK_RESPONSE
               (ser_bench cd response) s)"

definition RIOInboundSession_HandleEchoRequest ::
  "rio_env \<Rightarrow> codec \<Rightarrow> u64 \<Rightarrow> Packet \<Rightarrow> RIOInboundSession \<Rightarrow> RIOInboundSession" where
  "RIOInboundSession_HandleEchoRequest env cd time0 rfPacket s =
     (case parse_echo cd (m_Payload rfPacket) of
        None \<Rightarrow> s
      | Some request \<Rightarrow>
          let response = \<lparr>es_header = \<lparr>hd_request_id = hd_request_id (eq_header request) + 1,
                                       hd_timestamp_ms = time0\<rparr>,
                          es_result = RESULT_CODE_OK,
                          es_data = [],
                          es_data_str = eq_data_str request\<rparr>
          in RIOSession_SendMessage env RIOInboundSession_OnDisconnected (GetPacketId rfPacket)
               (ser_echo cd response) s)"

definition RIOInboundSession_OnPacketReceived ::
  "rio_env \<Rightarrow> codec \<Rightarrow> (rio_trace \<Rightarrow> u64 \<times> u64) \<Rightarrow> (rio_trace \<Rightarrow> u64) \<Rightarrow> RIOInboundSession admin \<Rightarrow>
   Packet \<Rightarrow> RIOInboundSession \<Rightarrow> RIOInboundSession" where
  "RIOInboundSession_OnPacketReceived env cd nowNs time0 admin rfPacket s =
     (let packetId = GetPacketId rfPacket in
      if IsAdminPacketId packetId then
        (case admin of
           None \<Rightarrow> s
         | Some (summaryOf, sessionsOf) \<Rightarrow>
             snd (AdminPacketHandler_HandlePacket cd
                    (\<lambda>i b. RIOSession_SendMessage env RIOInboundSession_OnDisconnected i b)
                    summaryOf sessionsOf rfPacket s))
      else if packetId = PACKET_ID_BENCHMARK_REQUEST then
        RIOInboundSession_HandleBenchmarkRequest env cd (nowNs (r_Trace s)) rfPacket s
      else if packetId = PACKET_ID_ECHO_REQUEST then
        RIOInboundSession_HandleEchoRequest env cd (time0 (r_Trace s)) rfPacket s
      else s)"

definition rio_callbacks_of ::
  "rio_env \<Rightarrow> codec \<Rightarrow> (rio_trace \<Rightarrow> u64 \<times> u64) \<Rightarrow> (rio_trace \<Rightarrow> u64) \<Rightarrow> RIOInboundSession admin \<Rightarrow>
   RIOInboundSession rio_callbacks" where
  "rio_callbacks_of env cd nowNs time0 admin =
     \<lparr>rcb_OnPacketReceived = RIOInboundSession_OnPacketReceived env cd nowNs time0 admin,
      rcb_OnDisconnected = RIOInboundSession_OnDisconnected\<rparr>"

section \<open>The hooks keep the contract\<close>

lemma rio_sends_container:
  "rio_ok s \<Longrightarrow> rio_sends [] s (s\<lparr>ri_Sessions := c\<rparr>)"
  by (rule rio_sends_same[where new = "[]"]) (auto simp: rio_counters_def wire_ok_def)

interpretation rio0: rio_core RIOInboundSession_OnDisconnected
  by unfold_locales
    (simp add: RIOInboundSession_OnDisconnected_def RIOSession_OnDisconnected_def rio_sends_container)

lemma rio_packet_sends:
  assumes "rio_ok s"
  shows "\<exists>out. rio_sends out s (RIOInboundSession_OnPacketReceived env cd nowNs time0 admin p s)"
proof -
  let ?P = "\<lambda>s s'. \<exists>out. rio_sends out s s'"
  have send: "?P s (RIOSession_SendMessage env RIOInboundSession_OnDisconnected i b s)" for i b
    using rio0.SendMessage_sends[OF assms] by blast
  have same: "?P s s" using rio_sends_refl[OF assms] by blast
  show ?thesis
    using send same HandlePacket_keeps[where P = ?P and s = s and cd = cd and packet = p
        and send = "\<lambda>i b. RIOSession_SendMessage env RIOInboundSession_OnDisconnected i b"]
    by (auto simp: RIOInboundSession_OnPacketReceived_def RIOInboundSession_HandleBenchmarkRequest_def
        RIOInboundSession_HandleEchoRequest_def Let_def split: option.splits)
qed

interpretation rio: rio_client "rio_callbacks_of env cd nowNs time0 admin" for env cd nowNs time0 admin
proof (unfold_locales, goal_cases)
  case (1 s) then show ?case using rio0.disc_law[of s] by (simp add: rio_callbacks_of_def)
next
  case (2 s p) then show ?case using rio_packet_sends by (simp add: rio_callbacks_of_def)
qed

lemma rio_cb [simp]: "rcb_OnDisconnected (rio_callbacks_of env cd nowNs time0 admin) = RIOInboundSession_OnDisconnected"
  by (simp add: rio_callbacks_of_def)

abbreviation rio_server_run where
  "rio_server_run env cd nowNs time0 admin \<equiv> rio_run env (rio_callbacks_of env cd nowNs time0 admin)"

text \<open>A new session over two slices of the pool.\<close>

definition slices_fit :: "byte list \<Rightarrow> RioBufferSlice \<Rightarrow> RioBufferSlice \<Rightarrow> bool" where
  "slices_fit pool recvSlice sendSlice \<longleftrightarrow>
     sl_Length recvSlice \<noteq> 0 \<and> sl_Length sendSlice \<noteq> 0 \<and> apart (window recvSlice) (window sendSlice) \<and>
     length pool < 2 ^ 32 \<and> (\<forall>x \<in> {recvSlice, sendSlice}. sl_pData x = unat (sl_Offset x) \<and>
       fst (window x) + snd (window x) \<le> length pool)"

abbreviation fresh_rio where
  "fresh_rio env sessions i pool sk recvSlice sendSlice cq \<equiv>
     fst (RIOInboundSession_ctor env sessions i pool sk recvSlice sendSlice cq)"

lemma fresh_rio_inv:
  assumes "slices_fit pool recvSlice sendSlice"
  shows "rio_inv (fresh_rio env sessions i pool sk recvSlice sendSlice cq) (fresh_rio env sessions i pool sk recvSlice sendSlice cq)"
    and "rio_pending (fresh_rio env sessions i pool sk recvSlice sendSlice cq) = []"
    and "rio_received (fresh_rio env sessions i pool sk recvSlice sendSlice cq) = []"
  using assms x_inv_ctor[of "window recvSlice" pool] x_inv_ctor[of "window sendSlice" pool]
  by (auto simp: rio_inv_def rio_ok_def wire_ok_def posts_ok_def slices_ok_def slice_ok_def slices_fit_def window_def
      RIOInboundSession_ctor_def RIOSession_ctor_def RIOSession.defs Let_def ExternalCircleBufferQueue_ctor_def
      rio_pending_def cbq_contents_def as_cbq_def unat_gt_0)

end
