(* ===== verification/Rio_Properties.thy ===== *)
theory Rio_Properties
  imports Rio_Inbound IOCP_Properties
begin

text \<open>
  The properties of the RIO server's sessions, for every history of calls, every behaviour of
  the RIO function table, every codec and every admin handler.
\<close>

lemma rio_server_inv:
  assumes "slices_fit pool rs ss"
    "rio_server_run env cd nowNs time0 admin (fresh_rio env sessions i pool sk rs ss cq) acc ack s"
  shows "rio_inv (fresh_rio env sessions i pool sk rs ss cq) s" "acc = ack @ rio_pending s"
  using rio.rio_run_inv[OF assms(2) fresh_rio_inv(1,2)[OF assms(1)]] by simp_all

lemma flush_loop_total: "flush_loop ps st tot = (ps', st', tot') \<Longrightarrow> tot' \<le> tot"
proof (induction ps st tot rule: flush_loop.induct)
  case (2 p ps st tot)
  then show ?case
    by (fastforce simp: Let_def split: prod.splits if_splits)
qed simp

lemma Flush_total:
  "r_PendingTotalBytes (RIOSession_FlushPendingSendQueue env s) \<le> r_PendingTotalBytes s"
  "r_IsDisconnected (RIOSession_FlushPendingSendQueue env s) = r_IsDisconnected s"
  using flush_loop_total[of "r_PendingSendQueue s" "send_view s" "r_PendingTotalBytes s"]
  by (auto simp: RIOSession_FlushPendingSendQueue_def RIOSession_TryPostSendFromQueue_def Let_def rio_log_def
      set_send_def split: prod.splits)

text \<open>An accepted message raises the backlog by at most its own size.\<close>

lemma SendMessage_accepted:
  assumes "rio_accepts s"
  shows "\<not> r_IsDisconnected (RIOSession_SendMessage env onDisc i body s)"
    "r_PendingTotalBytes (RIOSession_SendMessage env onDisc i body s) \<le> r_PendingTotalBytes s + length body + 4"
proof -
  obtain s2 where "RIOSession_SendMessage env onDisc i body s = RIOSession_FlushPendingSendQueue env s2"
    "r_IsDisconnected s2 = r_IsDisconnected s" "r_PendingTotalBytes s2 \<le> r_PendingTotalBytes s + length body + 4"
    using assms by (auto simp: RIOSession_SendMessage_def rio_accepts_def Let_def split_beta set_send_def
        GetHeaderSize_def GetPacketIdSize_def intro: that)
  then show "\<not> r_IsDisconnected (RIOSession_SendMessage env onDisc i body s)"
    "r_PendingTotalBytes (RIOSession_SendMessage env onDisc i body s) \<le> r_PendingTotalBytes s + length body + 4"
    using Flush_total[of env s2] assms by (auto simp: rio_accepts_def)
qed

text \<open>Two slices of a block of 32 bytes, a socket and a message, for the witnesses.\<close>

definition demo_recv :: RioBufferSlice where
  "demo_recv = \<lparr>sl_BufferId = Some 1, sl_Offset = 0, sl_Length = 16, sl_pData = 0\<rparr>"

definition demo_send :: RioBufferSlice where
  "demo_send = \<lparr>sl_BufferId = Some 1, sl_Offset = 16, sl_Length = 16, sl_pData = 16\<rparr>"

abbreviation demo_rio :: RIOInboundSession where
  "demo_rio \<equiv> fresh_rio (\<lambda>_ _. 1) [] 7 (replicate 32 0) (Socket_of_handle (Some 3)) demo_recv demo_send (Some 1)"

abbreviation demo_rio_run where
  "demo_rio_run \<equiv> rio_server_run (\<lambda>_ _. 1) demo_codec (\<lambda>_. (0, 0)) (\<lambda>_. 0) None demo_rio"

lemma demo_fit: "slices_fit (replicate 32 0) demo_recv demo_send"
  by (simp add: slices_fit_def demo_recv_def demo_send_def apart_def window_def)

lemma demo_accepts: "rio_accepts demo_rio"
  by (simp add: rio_accepts_def RIOInboundSession_ctor_def RIOSession_ctor_def RIOSession.defs Let_def)

lemma demo_empty: "r_PendingTotalBytes demo_rio = 0"
  by (simp add: RIOInboundSession_ctor_def RIOSession_ctor_def RIOSession.defs Let_def)

lemma demo_received: "rio_received demo_rio = []"
  using fresh_rio_inv(3)[OF demo_fit] .

lemma demo_recv_fits:
  assumes "data \<noteq> []" "length data \<le> 16"
  shows "recv_fits data demo_rio"
proof -
  have w: "x_cap (recv_view demo_rio) = 16"
    "snd (hd (snd (ExternalCircleBufferQueue_GetWriteableBuffers (r_pReceiveBuffer demo_rio)))) = 16"
    by (simp_all add: RIOInboundSession_ctor_def RIOSession_ctor_def RIOSession.defs Let_def demo_recv_def
        ExternalCircleBufferQueue_ctor_def ExternalCircleBufferQueue_GetWriteableBuffers_def subspan_def)
  show ?thesis unfolding recv_fits_def demo_received w using assms by simp
qed

section \<open>Properties\<close>

text \<open>C6: nothing is lost, repeated or reordered on the way out of a RIO session. After any
  history, the bytes accepted for sending are the bytes the kernel acknowledged followed by
  the bytes still pending (in the ring, then in the queue of packets that wait for space), and
  the bytes of a send in progress are still the first bytes of the ring, so that the
  kernel reads what was posted.\<close>

theorem rio_send_stream_exact:
  assumes "slices_fit pool rs ss"
    "rio_server_run env cd nowNs time0 admin (fresh_rio env sessions i pool sk rs ss cq) acc ack s"
  shows "acc = ack @ rio_pending s \<and>
    (r_SendInProgress s \<longrightarrow> (\<exists>d. last_send (r_Trace s) = Some d \<and> d \<noteq> [] \<and> prefix d (x_contents (send_view s))))"
  using rio_server_inv[OF assms] by (simp add: rio_inv_def wire_ok_def)

theorem rio_send_stream_exact_witness:
  "rio_pending (RIOSession_SendMessage (\<lambda>_ _. 1) RIOInboundSession_OnDisconnected 2 (replicate 40 65)
     (RIOSession_SendMessage (\<lambda>_ _. 1) RIOInboundSession_OnDisconnected 1 [65] demo_rio)) =
   encode 1 [65] @ encode 2 (replicate 40 65)"
proof -
  let ?one = "RIOSession_SendMessage (\<lambda>_ _. 1) RIOInboundSession_OnDisconnected 1 [65] demo_rio"
  let ?two = "RIOSession_SendMessage (\<lambda>_ _. 1) RIOInboundSession_OnDisconnected 2 (replicate 40 65) ?one"
  have r1: "demo_rio_run ([] @ encode 1 [65]) [] ?one"
    using rr_send[OF rr_start, of "\<lambda>_ _. 1" "rio_callbacks_of (\<lambda>_ _. 1) demo_codec (\<lambda>_. (0, 0)) (\<lambda>_. 0) None" demo_rio 1 "[65]"]
      demo_accepts by simp
  have "rio_accepts ?one"
    using SendMessage_accepted[OF demo_accepts, of "\<lambda>_ _. 1" RIOInboundSession_OnDisconnected 1 "[65]"] demo_empty
    by (simp add: rio_accepts_def MAX_PENDING_BYTES_def)
  then have r2: "demo_rio_run (([] @ encode 1 [65]) @ encode 2 (replicate 40 65)) [] ?two"
    using rr_send[OF r1, of 2 "replicate 40 65"] by simp
  show ?thesis using rio_send_stream_exact[OF demo_fit r2] by simp
qed

text \<open>C18: every receive and send a RIO session posts names a non-empty range of its own slice of
  the registered block, a send exactly the bytes it shows, and no history changes a byte of
  the block outside the two slices: sessions that share the block cannot corrupt each
  other.\<close>

theorem rio_posts_stay_in_slice:
  assumes "slices_fit pool rs ss"
    "rio_server_run env cd nowNs time0 admin (fresh_rio env sessions i pool sk rs ss cq) acc ack s"
  shows "list_all (post_ok rs ss) (r_Trace s) \<and> length (r_Pool s) = length pool \<and>
    (\<forall>w. fst w + snd w \<le> length pool \<and> apart w (window rs) \<and> apart w (window ss) \<longrightarrow>
       span_read (r_Pool s) w = span_read pool w)"
proof -
  let ?f = "fresh_rio env sessions i pool sk rs ss cq"
  have f: "r_RecvSlice ?f = rs" "r_SendSlice ?f = ss" "r_Pool ?f = pool"
    "x_Buffer (r_pReceiveBuffer ?f) = window rs" "x_Buffer (r_pSendBuffer ?f) = window ss"
    by (simp_all add: RIOInboundSession_ctor_def RIOSession_ctor_def RIOSession.defs Let_def window_def
        ExternalCircleBufferQueue_ctor_def)
  show ?thesis
    using rio_server_inv(1)[OF assms] f by (auto simp: rio_inv_def posts_ok_def pool_kept_def)
qed

theorem rio_posts_stay_in_slice_witness:
  "list_all (post_ok demo_recv demo_send)
     (r_Trace (RIOSession_SendMessage (\<lambda>_ _. 1) RIOInboundSession_OnDisconnected 1 [65] demo_rio))"
proof -
  let ?one = "RIOSession_SendMessage (\<lambda>_ _. 1) RIOInboundSession_OnDisconnected 1 [65] demo_rio"
  have "demo_rio_run ([] @ encode 1 [65]) [] ?one"
    using rr_send[OF rr_start, of "\<lambda>_ _. 1" "rio_callbacks_of (\<lambda>_ _. 1) demo_codec (\<lambda>_. (0, 0)) (\<lambda>_. 0) None" demo_rio 1 "[65]"]
      demo_accepts by simp
  from rio_posts_stay_in_slice[OF demo_fit this] show ?thesis by simp
qed

text \<open>A completed receive is handled to its end and dispatches exactly the packets that the
  unframed bytes and the new bytes start with, each once and in order, keeps the bytes
  behind them, and adds the number of received bytes to the counter.\<close>

theorem rio_receive_dispatches:
  assumes "slices_fit pool rs ss"
    "rio_server_run env cd nowNs time0 admin (fresh_rio env sessions i pool sk rs ss cq) acc ack s"
    "recv_fits data s"
  shows "\<exists>s' new. RIOSession_OnRioIOCompleted env (rio_callbacks_of env cd nowNs time0 admin) True (length data) Receive
        (rio_kernel_recv data s) = Some s' \<and>
      r_Trace s' = r_Trace s @ new \<and> rio_packets new = fst (deframe_all (rio_received s @ data)) \<and>
      rio_received s' = fst (snd (deframe_all (rio_received s @ data))) \<and>
      r_TotalRxBytes s' = r_TotalRxBytes s + of_nat (length data)"
proof -
  have "rio_ok s" using rio_server_inv(1)[OF assms(1,2)] by (simp add: rio_inv_def)
  from rio.receive_completion[OF this assms(3), of env env cd nowNs time0 admin] show ?thesis
    unfolding rio_drained_def rio_counters_def by auto
qed

theorem rio_receive_dispatches_witness:
  "\<exists>s' new. RIOSession_OnRioIOCompleted (\<lambda>_ _. 1) (rio_callbacks_of (\<lambda>_ _. 1) demo_codec (\<lambda>_. (0, 0)) (\<lambda>_. 0) None)
      True (length [0, 5, 0, 9, 65, 7 :: byte]) Receive (rio_kernel_recv [0, 5, 0, 9, 65, 7] demo_rio) = Some s' \<and>
    r_Trace s' = r_Trace demo_rio @ new \<and> rio_packets new = [Packet_of_content 9 [65]] \<and> rio_received s' = [7]"
proof -
  note e = demo_received
  have fits: "recv_fits [0, 5, 0, 9, 65, 7] demo_rio"
    by (rule demo_recv_fits) simp_all
  have enc: "[0, 5, 0, 9, 65, 7] = encode 9 [65] @ [7 :: byte]" by (simp add: encode_eq u16_be_def)
  have "fits_frame [65 :: byte]" by (simp add: fits_frame_def)
  then have d: "deframe_all [0, 5, 0, 9, 65, 7] = ([Packet_of_content 9 [65]], [7], False)"
    unfolding enc deframe_all.simps[of "encode 9 [65] @ [7]"] deframe_encode[OF \<open>fits_frame [65]\<close>]
    by (simp add: deframe_all.simps[of "[7]"] deframe_def[of "[7]"])
  from rio_receive_dispatches[OF demo_fit rr_start fits] show ?thesis
    unfolding e append_Nil d fst_conv snd_conv by blast
qed

text \<open>C37: backpressure. A message is accepted exactly when the session is connected and the
  backlog of packets waiting for the ring is at most 10 MiB; an accepted message raises the
  backlog by at most its own size and adds its encoding behind everything pending, and a
  message that is not accepted adds nothing and leaves the session disconnected.\<close>

theorem rio_backpressure:
  assumes "rio_ok s"
  shows "let s' = RIOSession_SendMessage env RIOInboundSession_OnDisconnected i body s in
    if \<not> r_IsDisconnected s \<and> r_PendingTotalBytes s \<le> 10 * 1024 * 1024
    then rio_pending s' = rio_pending s @ encode i body \<and> \<not> r_IsDisconnected s' \<and>
      r_PendingTotalBytes s' \<le> 10 * 1024 * 1024 + length body + 4
    else rio_pending s' = rio_pending s \<and> r_IsDisconnected s'"
proof (cases "rio_accepts s")
  case True
  then show ?thesis
    using rio0.SendMessage_sends[OF assms, of i body env] SendMessage_accepted[OF True, of env RIOInboundSession_OnDisconnected i body]
    by (auto simp: rio_sends_def rio_accepts_def MAX_PENDING_BYTES_def Let_def)
next
  case False
  have "r_IsDisconnected (RIOSession_SendMessage env RIOInboundSession_OnDisconnected i body s)"
    using False by (auto simp: RIOSession_SendMessage_def rio_accepts_def Let_def rio_log_def
        RIOInboundSession_OnDisconnected_def RIOSession_OnDisconnected_def)
  then show ?thesis
    using False rio0.SendMessage_sends[OF assms, of i body env]
    by (auto simp: rio_sends_def rio_accepts_def MAX_PENDING_BYTES_def Let_def)
qed

theorem rio_backpressure_witness:
  "rio_pending (RIOSession_SendMessage (\<lambda>_ _. 1) RIOInboundSession_OnDisconnected 1 [65] demo_rio) = encode 1 [65]"
proof -
  have ok: "rio_ok demo_rio" using fresh_rio_inv(1)[OF demo_fit] by (simp add: rio_inv_def)
  have "\<not> r_IsDisconnected demo_rio" using demo_accepts by (simp add: rio_accepts_def)
  then show ?thesis
    using rio_backpressure[OF ok, of "\<lambda>_ _. 1" 1 "[65]"] fresh_rio_inv(2)[OF demo_fit] demo_empty by (simp add: Let_def)
qed

text \<open>A corrupt stream is not answered by a disconnect. When the unframed bytes start with
  a size field below four, no later receive dispatches a packet or drops a byte, and once the
  ring is full the session posts no further receive and stays connected for ever.\<close>

theorem rio_corrupt_stream_stalls:
  assumes "slices_fit pool rs ss"
    "rio_server_run env cd nowNs time0 admin (fresh_rio env sessions i pool sk rs ss cq) acc ack s"
    "deframe (rio_received s) = Corrupt"
  shows "(\<forall>data. recv_fits data s \<longrightarrow> (\<exists>s' new. RIOSession_OnRioIOCompleted env
        (rio_callbacks_of env cd nowNs time0 admin) True (length data) Receive (rio_kernel_recv data s) = Some s' \<and>
        r_Trace s' = r_Trace s @ new \<and> rio_packets new = [] \<and> rio_received s' = rio_received s @ data)) \<and>
    (length (rio_received s) = x_cap (recv_view s) \<longrightarrow> RIOSession_RequestRecv s = s)"
proof -
  have "deframe_all (rio_received s @ data) = ([], rio_received s @ data, True)" for data
    using deframe_append(2)[OF assms(3)] by (simp add: deframe_all.simps)
  then have 1: "\<forall>data. recv_fits data s \<longrightarrow> (\<exists>s' new. RIOSession_OnRioIOCompleted env
        (rio_callbacks_of env cd nowNs time0 admin) True (length data) Receive (rio_kernel_recv data s) = Some s' \<and>
        r_Trace s' = r_Trace s @ new \<and> rio_packets new = [] \<and> rio_received s' = rio_received s @ data)"
  proof (intro allI impI)
    fix data assume fits: "recv_fits data s"
    have "rio_ok s" using rio_server_inv(1)[OF assms(1,2)] by (simp add: rio_inv_def)
    from rio.receive_completion[OF this fits, of env env cd nowNs time0 admin]
    show "\<exists>s' new. RIOSession_OnRioIOCompleted env
        (rio_callbacks_of env cd nowNs time0 admin) True (length data) Receive (rio_kernel_recv data s) = Some s' \<and>
        r_Trace s' = r_Trace s @ new \<and> rio_packets new = [] \<and> rio_received s' = rio_received s @ data"
      unfolding rio_drained_def \<open>deframe_all (rio_received s @ data) = _\<close> by auto
  qed
  have "x_inv (recv_view s)" using rio_server_inv(1)[OF assms(1,2)] by (simp add: rio_inv_def rio_ok_def)
  then obtain ss where "ExternalCircleBufferQueue_GetWriteableBuffers (r_pReceiveBuffer s) =
      (x_cap (recv_view s) - length (rio_received s), ss)"
    using x_writeable[of "recv_view s"] by auto
  then show ?thesis using 1 by (auto simp: RIOSession_RequestRecv_def)
qed

theorem rio_corrupt_stream_stalls_witness:
  "\<exists>s. rio_received s = [0, 1] \<and> (length (rio_received s) = x_cap (recv_view s) \<longrightarrow> RIOSession_RequestRecv s = s) \<and>
     (\<forall>data. recv_fits data s \<longrightarrow> (\<exists>s' new. RIOSession_OnRioIOCompleted (\<lambda>_ _. 1)
        (rio_callbacks_of (\<lambda>_ _. 1) demo_codec (\<lambda>_. (0, 0)) (\<lambda>_. 0) None) True (length data) Receive (rio_kernel_recv data s) = Some s' \<and>
        r_Trace s' = r_Trace s @ new \<and> rio_packets new = [] \<and> rio_received s' = rio_received s @ data))"
proof -
  have fits: "recv_fits [0, 1] demo_rio" by (rule demo_recv_fits) simp_all
  have ok: "rio_ok demo_rio" using fresh_rio_inv(1)[OF demo_fit] by (simp add: rio_inv_def)
  have c: "deframe [0, 1] = Corrupt" by (simp add: deframe_def GetHeaderFromBuffer_def be_u16_def)
  then have d: "deframe_all [0, 1] = ([], [0, 1], True)" by (simp add: deframe_all.simps)
  obtain s out where s: "RIOSession_OnRioIOCompleted (\<lambda>_ _. 1) (rio_callbacks_of (\<lambda>_ _. 1) demo_codec (\<lambda>_. (0, 0)) (\<lambda>_. 0) None)
      True (length [0 :: byte, 1]) Receive (rio_kernel_recv [0, 1] demo_rio) = Some s" "rio_received s = [0, 1]"
      "rio_pending s = rio_pending demo_rio @ out"
    using rio.receive_completion[OF ok fits] unfolding rio_drained_def demo_received append_Nil d
    by (fastforce simp: rio_pending_def)
  have r: "demo_rio_run ([] @ out) [] s" using rr_received[OF rr_start fits s(1,3)] .
  show ?thesis
    using rio_corrupt_stream_stalls[OF demo_fit r] s(2) c by (intro exI[of _ s]) simp
qed

end
