(* ===== verification/Message_Delivery.thy ===== *)
theory Message_Delivery
  imports IOCP_Stream Rio_Properties
begin

text \<open>
  From one end of a connection to the other: the RIO server's outgoing stream and the demo
  client's incoming one, put together over a connection that delivers the bytes of the
  posted sends in order.
\<close>

text \<open>The bytes the server has given to the connection: those of completed sends and those of the
  send in progress.\<close>

definition rio_wire :: "byte list \<Rightarrow> 'z RIOSession_scheme \<Rightarrow> byte list" where
  "rio_wire ack s = ack @ (if r_SendInProgress s then the (last_send (r_Trace s)) else [])"

lemma rio_wire_prefix:
  assumes "slices_fit pool rs ss"
    "rio_server_run env cd nowNs time0 admin (fresh_rio env sessions i pool sk rs ss cq) acc ack s"
  shows "prefix (rio_wire ack s) acc"
proof -
  have w: "wire_ok s" using rio_server_inv(1)[OF assms] by (simp add: rio_inv_def)
  have "prefix (if r_SendInProgress s then the (last_send (r_Trace s)) else []) (rio_pending s)"
    using w by (auto simp: wire_ok_def rio_pending_def intro: prefix_prefix)
  then show ?thesis unfolding rio_wire_def rio_server_inv(2)[OF assms] by simp
qed

abbreviation fresh_client ::
  "(u64, u64) Container \<Rightarrow> u64 \<Rightarrow> Socket option \<Rightarrow> nat \<Rightarrow> nat \<Rightarrow> CircleBufferQueue FastPortOutboundSession" where
  "fresh_client sessions i sk rc sc \<equiv> fst (FastPortOutboundSession_ctor sessions i sk
     (Some (CircleBufferQueue_ctor rc)) (Some (CircleBufferQueue_ctor sc)))"

text \<open>A client that has not received anything yet.\<close>

definition client_ready :: "env \<Rightarrow> CircleBufferQueue FastPortOutboundSession \<Rightarrow> bool" where
  "client_ready env c \<longleftrightarrow> session_inv env cbq_inv c \<and> packets_of (s_Trace c) = [] \<and>
     (\<exists>rb. s_pReceiveBuffer c = Some rb \<and> cbq_contents rb = [])"

lemmas client_defs = FastPortOutboundSession_ctor_def OutboundSession_ctor_def IOSession_ctor_def IOSession.defs OutboundSession.defs

lemma client_ready_fresh: "0 < rc \<Longrightarrow> 0 < sc \<Longrightarrow> client_ready env (fresh_client sessions i sk rc sc)"
  using cbq_contents_ctor
  by (auto simp: client_ready_def client_defs session_inv_def sess_ok_def notified_def fire_flag_def cbq_inv_ctor)

abbreviation client_stream where
  "client_stream env clock cd time0 \<equiv> session_stream env clock CircleBufferQueue_vtable (client_callbacks env CircleBufferQueue_vtable cd time0)"

text \<open>C5: messages cross the connection. Whatever the RIO server and the client did, if the bytes
  the client received are the first bytes of what the server gave to the connection, then the
  packets dispatched at the client are the first ones of the messages the server accepted,
  each once and in order; and once all the bytes have arrived at a client that is
  still connected, every message was dispatched.\<close>

theorem rio_messages_reach_client:
  assumes "slices_fit pool rs ss"
    "rio_server_run env cd nowNs time0 admin (fresh_rio env sessions i pool sk rs ss cq) (encode_all ms) ack s"
    "list_all (fits_frame \<circ> snd) ms"
    "client_ready cenv c0" "client_stream cenv clock ccd ctime c0 xs c" "prefix xs (rio_wire ack s)"
  shows "prefix (packets_of (s_Trace c)) (map (\<lambda>m. Packet_of_content (fst m) (snd m)) ms) \<and>
    (xs = encode_all ms \<and> \<not> s_DisconnectRequested c \<longrightarrow>
       packets_of (s_Trace c) = map (\<lambda>m. Packet_of_content (fst m) (snd m)) ms)"
proof -
  have xs: "prefix xs (encode_all ms)"
    using prefix_order.trans[OF assms(6) rio_wire_prefix[OF assms(1,2)]] .
  obtain rb where "session_inv cenv cbq_inv c0" "packets_of (s_Trace c0) = []" "s_pReceiveBuffer c0 = Some rb" "cbq_contents rb = []"
    using assms(4) by (auto simp: client_ready_def)
  from client.stream_in_order[OF assms(5) this] obtain more where
    m: "fst (deframe_all xs) = packets_of (s_Trace c) @ more" "\<not> s_DisconnectRequested c \<Longrightarrow> more = []"
    by (auto simp: client.stream_ok_def)
  show ?thesis using packets_delivered[OF m(1) xs assms(3)] m(2) by blast
qed

section \<open>A message that arrives\<close>

text \<open>A client whose first zero-byte probe has completed.\<close>

definition demo_client :: "CircleBufferQueue FastPortOutboundSession" where
  "demo_client = fresh_client [] 7 (Some (Socket_of_handle (Some 3))) 8 8"

definition demo_client_started :: "CircleBufferQueue FastPortOutboundSession" where
  "demo_client_started = StartReceiveLoop (\<lambda>_ _. 0) CircleBufferQueue_vtable FastPortOutboundSession_OnDisconnected demo_client"

definition demo_client_posted :: "CircleBufferQueue FastPortOutboundSession" where
  "demo_client_posted = demo_client_started\<lparr>s_RecvOverlapped := (s_RecvOverlapped demo_client_started)\<lparr>o_IsZeroByte := False, o_WSABufs := [(0, 8)]\<rparr>,
     s_Trace := s_Trace demo_client_started @ [Sys_WSARecv (Some 3) [(0, 8)], Gh_IoDone]\<rparr>"

abbreviation demo_client_cb where
  "demo_client_cb \<equiv> client_callbacks (\<lambda>_ _. 0) CircleBufferQueue_vtable demo_codec (\<lambda>_. 0)"

lemma demo_client_reached:
  "OnIOCompleted (\<lambda>_ _. 0) (\<lambda>_. 0) CircleBufferQueue_vtable demo_client_cb True 0 OvRecv demo_client_started = Some demo_client_posted"
  "1 \<le> s_OutstandingIoCount demo_client_started"
  "\<not> s_DisconnectRequested demo_client_posted" "s_pReceiveBuffer demo_client_posted = Some (CircleBufferQueue_ctor 8)"
  "\<not> o_IsZeroByte (s_RecvOverlapped demo_client_posted)" "o_WSABufs (s_RecvOverlapped demo_client_posted) = [(0, 8)]"
  "1 \<le> s_OutstandingIoCount demo_client_posted"
  by (simp_all add: demo_client_posted_def demo_client_started_def demo_client_def OnIOCompleted_def HandleRecvCompletion_def
      HandleZeroByteRecvCompletion_def StartReceiveLoop_def RequestReceived_def RequestRecv_def PrepareRecvBuffers_def client_defs Let_def
      syscall_def AddOutstandingIo_def IoCompletionGuard_dtor_def CircleBufferQueue_vtable_def CircleBufferQueue_GetWriteableBuffers_def
      CircleBufferQueue_ctor_def Socket_of_handle_def)

lemma demo_client_stream: "client_stream (\<lambda>_ _. 0) (\<lambda>_. 0) demo_codec (\<lambda>_. 0) demo_client [] demo_client_posted"
proof -
  have "client_stream (\<lambda>_ _. 0) (\<lambda>_. 0) demo_codec (\<lambda>_. 0) demo_client [] demo_client_started"
    using st_loop[OF st_start, of "\<lambda>_ _. 0" "\<lambda>_. 0" CircleBufferQueue_vtable demo_client_cb demo_client]
    by (simp add: demo_client_started_def client_callbacks_def)
  then show ?thesis by (rule st_completion[OF _ demo_client_reached(2) _ _ demo_client_reached(1)]) simp_all
qed

lemma demo_client_receives:
  "\<exists>c. client_stream (\<lambda>_ _. 0) (\<lambda>_. 0) demo_codec (\<lambda>_. 0) demo_client (encode 1 [65]) c"
proof -
  have g: "vGetWriteableBuffers CircleBufferQueue_vtable (CircleBufferQueue_ctor 8) = (8, o_WSABufs (s_RecvOverlapped demo_client_posted))"
    unfolding demo_client_reached(6)
    by (simp add: CircleBufferQueue_vtable_def CircleBufferQueue_GetWriteableBuffers_def CircleBufferQueue_ctor_def Let_def)
  have "session_inv (\<lambda>_ _. 0) cbq_inv demo_client" using client_ready_fresh[of 8 8] by (simp add: demo_client_def client_ready_def)
  from client.session_run_inv[OF session_stream_run[OF demo_client_stream] this]
  have ok: "sess_ok cbq_inv demo_client_posted" by (simp add: session_inv_def)
  have e: "encode 1 [65] \<noteq> []" "length (encode 1 [65]) \<le> 8" using length_encode[of 1 "[65]"] by fastforce+
  obtain c where "OnIOCompleted (\<lambda>_ _. 0) (\<lambda>_. 0) CircleBufferQueue_vtable demo_client_cb True (length (encode 1 [65])) OvRecv
      (kernel_recv CircleBufferQueue_vtable (encode 1 [65]) demo_client_posted) = Some c"
    using client.receive_completion[OF ok demo_client_reached(3-5) g e] by blast
  from st_received[OF demo_client_stream demo_client_reached(7,4,5) g e this] show ?thesis by auto
qed

lemma demo_packet: "rio_packet_data 1 [65] = [0, 5, 0, 1, 65]" "encode 1 [65] = [0, 5, 0, 1, 65]"
  by code_simp+

lemma demo_sent_wire:
  "rio_wire [] (RIOSession_SendMessage (\<lambda>_ _. 1) RIOInboundSession_OnDisconnected 1 [65] demo_rio) = encode 1 [65]"
  unfolding demo_packet
  by (simp add: rio_wire_def RIOSession_SendMessage_def demo_packet RIOSession_FlushPendingSendQueue_def RIOSession_TryPostSendFromQueue_def
      RIOInboundSession_ctor_def RIOSession_ctor_def RIOSession.defs Let_def demo_recv_def demo_send_def set_send_def
      ExternalCircleBufferQueue_ctor_def ExternalCircleBufferQueue_CanWriteSize_def ExternalCircleBufferQueue_Write_def
      ExternalCircleBufferQueue_GetReadBuffers_def rio_log_def last_send_def MAX_PENDING_BYTES_def GetHeaderSize_def GetPacketIdSize_def
      span_read_def memcpy_at_def subspan_def)

theorem rio_messages_reach_client_witness:
  "\<exists>c. client_stream (\<lambda>_ _. 0) (\<lambda>_. 0) demo_codec (\<lambda>_. 0) demo_client (encode 1 [65]) c \<and>
     prefix (packets_of (s_Trace c)) [Packet_of_content 1 [65]] \<and>
     (\<not> s_DisconnectRequested c \<longrightarrow> packets_of (s_Trace c) = [Packet_of_content 1 [65]])"
proof -
  let ?one = "RIOSession_SendMessage (\<lambda>_ _. 1) RIOInboundSession_OnDisconnected 1 [65] demo_rio"
  have e: "encode_all [(1, [65])] = encode 1 [65]" by (simp add: encode_all_def)
  have r: "demo_rio_run (encode_all [(1, [65])]) [] ?one"
    using rr_send[OF rr_start, of "\<lambda>_ _. 1" "rio_callbacks_of (\<lambda>_ _. 1) demo_codec (\<lambda>_. (0, 0)) (\<lambda>_. 0) None" demo_rio 1 "[65]"]
      demo_accepts e by simp
  have w: "rio_wire [] ?one = encode 1 [65]"
    unfolding demo_sent_wire ..
  obtain c where c: "client_stream (\<lambda>_ _. 0) (\<lambda>_. 0) demo_codec (\<lambda>_. 0) demo_client (encode 1 [65]) c"
    using demo_client_receives by blast
  have "client_ready (\<lambda>_ _. 0) demo_client" unfolding demo_client_def by (rule client_ready_fresh) simp_all
  from rio_messages_reach_client[OF demo_fit r _ this c] w c show ?thesis by (auto simp: fits_frame_def e)
qed

end
