(* ===== verification/Idle_Checker.thy ===== *)
theory Idle_Checker
  imports Timer_Queue IO_Session_Runs
begin

text \<open>
  \<open>SessionIdleChecker\<close> (\<open>LibNetworks/SessionIdleChecker.ixx\<close>, \<open>.cpp\<close>): a periodic job on the timer
  queue that disconnects sessions which have not received for a while. The checker sees
  sessions through \<open>IIdleAware\<close>: references \<open>'r\<close> into a world \<open>'w\<close> with \<open>GetLastRecvTimeMs\<close> and
  \<open>RequestDisconnect\<close> (which may throw: the first component). A null \<open>shared_ptr\<close> is \<open>None\<close>.
\<close>

record IdleCheckerConfig =
  cfg_thresholdMs :: int
  cfg_tickIntervalMs :: int
  cfg_enabled :: bool

record SessionIdleChecker =
  ic_Config :: IdleCheckerConfig
  ic_TimerId :: TimerId
  ic_Running :: bool
  ic_DisconnectCount :: u64

record ('r, 'w) idle_aware =
  ia_GetLastRecvTimeMs :: "'r \<Rightarrow> 'w \<Rightarrow> int"
  ia_RequestDisconnect :: "DisconnectReason \<Rightarrow> 'r \<Rightarrow> 'w \<Rightarrow> bool \<times> 'w"

definition SessionIdleChecker_ctor :: "IdleCheckerConfig \<Rightarrow> SessionIdleChecker" where
  "SessionIdleChecker_ctor cfg =
     \<lparr>ic_Config = cfg, ic_TimerId = 0, ic_Running = False, ic_DisconnectCount = 0\<rparr>"

definition SessionIdleChecker_Start ::
  "(tp_event list \<Rightarrow> bool) \<Rightarrow> nat \<Rightarrow> SessionIdleChecker \<Rightarrow> TimerQueue \<Rightarrow>
   SessionIdleChecker \<times> TimerQueue" where
  "SessionIdleChecker_Start tpOk task c tq =
     (if \<not> cfg_enabled (ic_Config c) then (c, tq)
      else if ic_Running c then (c, tq)
      else
        let c1 = c\<lparr>ic_Running := True\<rparr>;
            (tid, tq1) = SchedulePeriodic tpOk (cfg_tickIntervalMs (ic_Config c)) task
                           ''SessionIdleChecker'' tq
        in (c1\<lparr>ic_TimerId := tid\<rparr>, tq1))"

definition SessionIdleChecker_Stop ::
  "SessionIdleChecker \<Rightarrow> TimerQueue \<Rightarrow> SessionIdleChecker \<times> TimerQueue" where
  "SessionIdleChecker_Stop c tq =
     (let wasRunning = ic_Running c; c1 = c\<lparr>ic_Running := False\<rparr> in
      if \<not> wasRunning then (c1, tq)
      else
        let tid = ic_TimerId c1; c2 = c1\<lparr>ic_TimerId := 0\<rparr> in
        if tid \<noteq> kInvalidTimerId then (c2, snd (TimerQueue_Cancel tid tq)) else (c2, tq))"

definition SessionIdleChecker_dtor ::
  "SessionIdleChecker \<Rightarrow> TimerQueue \<Rightarrow> SessionIdleChecker \<times> TimerQueue" where
  "SessionIdleChecker_dtor c tq = SessionIdleChecker_Stop c tq"

text \<open>The loop over the snapshot: the world and the count of disconnects that did not throw.\<close>

fun tick_sessions ::
  "('r, 'w) idle_aware \<Rightarrow> int \<Rightarrow> int \<Rightarrow> 'r option list \<Rightarrow> 'w \<Rightarrow> u64 \<Rightarrow> 'w \<times> u64" where
  "tick_sessions ia nowMs thresholdMs [] w n = (w, n)"
| "tick_sessions ia nowMs thresholdMs (None # ss) w n = tick_sessions ia nowMs thresholdMs ss w n"
| "tick_sessions ia nowMs thresholdMs (Some r # ss) w n =
     (let last = ia_GetLastRecvTimeMs ia r w in
      if last = 0 then tick_sessions ia nowMs thresholdMs ss w n
      else if nowMs - last < thresholdMs then tick_sessions ia nowMs thresholdMs ss w n
      else
        let (threw, w') = ia_RequestDisconnect ia IdleTimeout r w in
        tick_sessions ia nowMs thresholdMs ss w' (if threw then n else n + 1))"

text \<open>\<open>OnTick\<close>; the snapshot is \<open>None\<close> when the provider throws.\<close>

definition SessionIdleChecker_OnTick ::
  "('r, 'w) idle_aware \<Rightarrow> int \<Rightarrow> 'r option list option \<Rightarrow> SessionIdleChecker \<Rightarrow> 'w \<Rightarrow>
   SessionIdleChecker \<times> 'w" where
  "SessionIdleChecker_OnTick ia nowMs provider c w =
     (if \<not> ic_Running c then (c, w)
      else
        case provider of
          None \<Rightarrow> (c, w)
        | Some snapshot \<Rightarrow>
            let (w', n) = tick_sessions ia nowMs (cfg_thresholdMs (ic_Config c)) snapshot w
                            (ic_DisconnectCount c)
            in (c\<lparr>ic_DisconnectCount := n\<rparr>, w'))"

section \<open>On IOCP sessions\<close>

text \<open>The sessions of a server as a list, referred to by position; \<open>RequestDisconnect\<close> does
  not throw.\<close>

definition io_idle_aware ::
  "'b IBuffer \<Rightarrow> (('b, 'z) IOSession_scheme \<Rightarrow> ('b, 'z) IOSession_scheme) \<Rightarrow>
   (nat, ('b, 'z) IOSession_scheme list) idle_aware" where
  "io_idle_aware ops onDisc =
     \<lparr>ia_GetLastRecvTimeMs = (\<lambda>r w. s_LastRecvTimeMs (w ! r)),
      ia_RequestDisconnect = (\<lambda>reason r w. (False, w[r := RequestDisconnect ops onDisc reason (w ! r)]))\<rparr>"

text \<open>Specification: which sessions are idle.\<close>

definition is_idle :: "int \<Rightarrow> int \<Rightarrow> ('b, 'z) IOSession_scheme \<Rightarrow> bool" where
  "is_idle nowMs thresholdMs s \<longleftrightarrow> s_LastRecvTimeMs s \<noteq> 0 \<and> nowMs - s_LastRecvTimeMs s \<ge> thresholdMs"

lemma tick_io:
  assumes "distinct (List.map_filter (\<lambda>x. x) snap)" "\<forall>r. Some r \<in> set snap \<longrightarrow> r < length w"
  shows "tick_sessions (io_idle_aware ops onDisc) now thr snap w n =
    (map (\<lambda>i. if Some i \<in> set snap \<and> is_idle now thr (w ! i)
              then RequestDisconnect ops onDisc IdleTimeout (w ! i) else w ! i) [0..<length w],
     n + of_nat (length (filter (\<lambda>x. case x of None \<Rightarrow> False | Some i \<Rightarrow> is_idle now thr (w ! i)) snap)))"
  using assms
proof (induction snap arbitrary: w n)
  case Nil
  then show ?case by (simp add: map_nth)
next
  case (Cons x snap)
  show ?case
  proof (cases x)
    case None
    then show ?thesis using Cons by (simp add: List.map_filter_def)
  next
    case (Some r)
    have r: "r < length w" "Some r \<notin> set snap" "distinct (List.map_filter (\<lambda>x. x) snap)"
      using Cons.prems Some by (auto simp: List.map_filter_def image_iff)
    show ?thesis
    proof (cases "is_idle now thr (w ! r)")
      case True
      let ?w = "w[r := RequestDisconnect ops onDisc IdleTimeout (w ! r)]"
      have step: "tick_sessions (io_idle_aware ops onDisc) now thr (x # snap) w n =
        tick_sessions (io_idle_aware ops onDisc) now thr snap ?w (n + 1)"
        using True Some by (simp add: io_idle_aware_def is_idle_def)
      have "?w ! i = w ! i" if "Some i \<in> set snap" for i
        using r(2) that by (cases "i = r") auto
      then have "filter (\<lambda>x. case x of None \<Rightarrow> False | Some i \<Rightarrow> is_idle now thr (?w ! i)) snap =
        filter (\<lambda>x. case x of None \<Rightarrow> False | Some i \<Rightarrow> is_idle now thr (w ! i)) snap"
        by (intro filter_cong) (auto split: option.splits)
      then show ?thesis
        unfolding step using Cons.IH[of ?w "n + 1"] Cons.prems(2) r Some True
        by (auto simp: nth_list_update intro!: nth_equalityI)
    next
      case False
      have step: "tick_sessions (io_idle_aware ops onDisc) now thr (x # snap) w n =
        tick_sessions (io_idle_aware ops onDisc) now thr snap w n"
        using False Some by (auto simp: io_idle_aware_def is_idle_def Let_def)
      show ?thesis
        unfolding step using Cons.IH[of w n] Cons.prems(2) r Some False
        by (auto intro!: nth_equalityI)
    qed
  qed
qed

section \<open>Properties\<close>

text \<open>C36: one tick of a running idle checker over a snapshot of distinct sessions disconnects
  (with reason \<open>IdleTimeout\<close>) exactly the sessions in the snapshot that have received before
  and whose last receive is at least the threshold ago, leaves all others untouched, and
  counts exactly those sessions.\<close>

theorem idle_tick_disconnects_exactly_idle:
  fixes ops :: "'b IBuffer" and onDisc :: "('b, 'z) IOSession_scheme \<Rightarrow> ('b, 'z) IOSession_scheme"
    and now :: int
  assumes "ic_Running c" "distinct (List.map_filter (\<lambda>x. x) snap)"
    "\<forall>r. Some r \<in> set snap \<longrightarrow> r < length w" "i < length w"
  defines "res \<equiv> SessionIdleChecker_OnTick (io_idle_aware ops onDisc) now (Some snap) c w"
    and "thr \<equiv> cfg_thresholdMs (ic_Config c)"
  shows "snd res ! i =
      (if Some i \<in> set snap \<and> is_idle now thr (w ! i)
       then RequestDisconnect ops onDisc IdleTimeout (w ! i) else w ! i) \<and>
    ic_DisconnectCount (fst res) = ic_DisconnectCount c +
      of_nat (length (filter (\<lambda>x. case x of None \<Rightarrow> False | Some i \<Rightarrow> is_idle now thr (w ! i)) snap))"
  using assms(1,4) tick_io[OF assms(2,3), of ops onDisc now thr "ic_DisconnectCount c"]
  unfolding res_def thr_def by (simp add: SessionIdleChecker_OnTick_def)

text \<open>A concrete server: three sessions, one fresh, one idle, one active; the snapshot has a
  null entry.\<close>

definition demo_session :: "int \<Rightarrow> CircleBufferQueue IOSession" where
  "demo_session t = (fst (IOSession_ctor 1 None (Some (CircleBufferQueue_ctor 8)) (Some (CircleBufferQueue_ctor 8))))
     \<lparr>s_LastRecvTimeMs := t\<rparr>"

definition demo_checker :: SessionIdleChecker where
  "demo_checker = (SessionIdleChecker_ctor \<lparr>cfg_thresholdMs = 100, cfg_tickIntervalMs = 10, cfg_enabled = True\<rparr>)
     \<lparr>ic_Running := True\<rparr>"

theorem idle_tick_disconnects_exactly_idle_witness:
  "snd (SessionIdleChecker_OnTick (io_idle_aware CircleBufferQueue_vtable (\<lambda>s. s)) 250
      (Some [Some 0, None, Some 1, Some 2]) demo_checker
      [demo_session 0, demo_session 100, demo_session 200]) ! 1 =
    RequestDisconnect CircleBufferQueue_vtable (\<lambda>s. s) IdleTimeout (demo_session 100)"
proof -
  have r: "ic_Running demo_checker"
    by (simp add: demo_checker_def)
  have d: "distinct (List.map_filter (\<lambda>x. x) [Some 0, None, Some 1, Some (2 :: nat)])"
    by (simp add: List.map_filter_def)
  have b: "\<forall>r. Some r \<in> set [Some 0, None, Some 1, Some 2] \<longrightarrow>
      r < length [demo_session 0, demo_session 100, demo_session 200]"
    by auto
  show ?thesis
    using idle_tick_disconnects_exactly_idle[OF r d b, of 1 CircleBufferQueue_vtable "\<lambda>s. s" 250]
    by (simp add: is_idle_def demo_session_def demo_checker_def SessionIdleChecker_ctor_def)
qed

text \<open>Starting an enabled checker registers one timer and stopping it takes that timer
  out again: after \<open>Start\<close> and \<open>Stop\<close> the map of the timer queue is what it was, the checker is
  not running, and a second \<open>Stop\<close> changes nothing.\<close>

theorem idle_start_stop:
  fixes task :: nat
  assumes "tq_inv tq" "tq_QueueState tq = QRunning" "map_of (tq_Entries tq) (fst (AllocateId tq)) = None"
    "\<not> ic_Running c" "cfg_enabled (ic_Config c)" "tpOk (tq_Trace tq)"
  defines "st \<equiv> SessionIdleChecker_Start tpOk task c tq"
  defines "sp \<equiv> SessionIdleChecker_Stop (fst st) (snd st)"
  shows "ic_Running (fst st) \<and> map_of (tq_Entries (snd st)) (ic_TimerId (fst st)) \<noteq> None \<and>
    \<not> ic_Running (fst sp) \<and> tq_Entries (snd sp) = tq_Entries tq \<and>
    SessionIdleChecker_Stop (fst sp) (snd sp) = sp"
proof -
  obtain i q1 where a: "AllocateId tq = (i, q1)" by (cases "AllocateId tq")
  note f = AllocateId_fields[OF a]
  let ?p = "length (tq_Heap tq)"
  have none: "map_of (tq_Entries tq) i = None" using assms(3) a by simp
  have sched: "fst (SchedulePeriodic tpOk d task n tq) = i \<and>
      tq_Entries (snd (SchedulePeriodic tpOk d task n tq)) = tq_Entries tq @ [(i, ?p)]" for d n
    using assms(2,6) f none
    by (simp add: SchedulePeriodic_def ScheduleImpl_def a Let_def)
  have st: "ic_Running (fst st)" "ic_TimerId (fst st) = i" "tq_Entries (snd st) = tq_Entries tq @ [(i, ?p)]"
    using assms(4,5) sched unfolding st_def SessionIdleChecker_Start_def by (auto simp: Let_def split_beta)
  have inv: "tq_inv (snd st)"
    using Schedule_inv(1)[OF assms(1)] assms(4,5)
    by (simp add: st_def SessionIdleChecker_Start_def SchedulePeriodic_def split_beta Let_def)
  have m: "map_of (tq_Entries (snd st)) i = Some ?p"
    using none st(3) by (simp add: map_add_Some_iff)
  note c = Cancel_listed[OF inv m, where wait = True and cur = "IsCurrentCallbackEntry i (snd st)"]
  have "filter (\<lambda>kv. fst kv \<noteq> i) (tq_Entries tq) = tq_Entries tq"
    using none by (intro filter_True) (auto simp: map_of_eq_None_iff image_iff)
  then have "\<not> ic_Running (fst sp) \<and> tq_Entries (snd sp) = tq_Entries tq"
    using st f(1) c(2) by (simp add: sp_def SessionIdleChecker_Stop_def Let_def TimerQueue_Cancel_def)
  then show ?thesis
    using st m by (cases sp) (auto simp: SessionIdleChecker_Stop_def Let_def)
qed

theorem idle_start_stop_witness:
  "\<not> ic_Running (fst (SessionIdleChecker_Stop
     (fst (SessionIdleChecker_Start (\<lambda>_. True) 1 (SessionIdleChecker_ctor
        \<lparr>cfg_thresholdMs = 100, cfg_tickIntervalMs = 10, cfg_enabled = True\<rparr>) TimerQueue_ctor))
     (snd (SessionIdleChecker_Start (\<lambda>_. True) 1 (SessionIdleChecker_ctor
        \<lparr>cfg_thresholdMs = 100, cfg_tickIntervalMs = 10, cfg_enabled = True\<rparr>) TimerQueue_ctor))))"
  using idle_start_stop[OF tq_inv_ctor, of "SessionIdleChecker_ctor
     \<lparr>cfg_thresholdMs = 100, cfg_tickIntervalMs = 10, cfg_enabled = True\<rparr>" "\<lambda>_. True" 1]
  by (simp add: TimerQueue_ctor_def AllocateId_def SessionIdleChecker_ctor_def)

end
