(* ===== verification/Socket_Acceptor.thy ===== *)
theory Socket_Acceptor
  imports IO_Service
begin

text \<open>
  \<open>IOSocketAcceptor\<close> (\<open>LibNetworks/IOSocketAcceptor.cpp\<close>): the listening socket and its posted
  \<open>AcceptEx\<close> calls. \<open>a_Overlapped\<close> is the heap of \<open>AcceptOverlapped\<close> objects that were allocated and
  not deleted, by address, each with the socket it waits for; \<open>a_Posted\<close> the addresses that a
  successful \<open>AcceptEx\<close> handed to the kernel.

  Parameters: Winsock (\<open>env\<close>), and the session factory with what it makes (\<open>create\<close>, the
  completion id of a session that is an \<open>IIOConsumer\<close>, \<open>OnAccepted\<close>), which act on a world of
  sessions of their own.
\<close>

record IOSocketAcceptor =
  a_ListenerSocketMode :: ENetworkMode
  a_ListenerSocket :: Socket
  a_pService :: "IOService option"
  a_Executed :: bool
  a_lpfnAcceptEx :: bool
  a_lpfnGetAcceptExSockaddrs :: bool
  a_Overlapped :: "(nat \<times> SOCKET) list"
  a_Posted :: "nat list"
  a_NextAddr :: nat

record ('w, 'k) session_factory =
  sf_create :: "Socket \<Rightarrow> 'w \<Rightarrow> 'k \<times> 'w"
  sf_completionId :: "'k \<Rightarrow> nat option"
  sf_OnAccepted :: "'k \<Rightarrow> 'w \<Rightarrow> 'w"

definition IOSocketAcceptor_ctor :: "ENetworkMode \<Rightarrow> Socket \<Rightarrow> IOSocketAcceptor" where
  "IOSocketAcceptor_ctor listenSocketMode rfListenerSocket =
     \<lparr>a_ListenerSocketMode = listenSocketMode, a_ListenerSocket = rfListenerSocket, a_pService = None,
      a_Executed = False, a_lpfnAcceptEx = False, a_lpfnGetAcceptExSockaddrs = False, a_Overlapped = [],
      a_Posted = [], a_NextAddr = 1\<rparr>"

definition IOSocketAcceptor_Shutdown :: "env \<Rightarrow> IOSocketAcceptor \<times> trace \<Rightarrow> IOSocketAcceptor \<times> trace" where
  "IOSocketAcceptor_Shutdown env st =
     (let a = (fst st)\<lparr>a_Executed := False\<rparr>;
          (svc, tr1) = (case a_pService a of
                          None \<Rightarrow> (None, snd st)
                        | Some s \<Rightarrow> let (s', t) = IOService_Stop env (s, snd st) in (Some s', t));
          (sk, tr2) = Socket_Close (a_ListenerSocket a, tr1)
      in (a\<lparr>a_pService := svc, a_ListenerSocket := sk\<rparr>, tr2))"

definition IOSocketAcceptor_BeginAcceptEx ::
  "env \<Rightarrow> IOSocketAcceptor \<times> trace \<Rightarrow> bool \<times> IOSocketAcceptor \<times> trace" where
  "IOSocketAcceptor_BeginAcceptEx env st =
     (let (a, tr) = st in
      if \<not> a_Executed a then (False, a, tr)
      else
        let p = a_NextAddr a;
            a1 = a\<lparr>a_NextAddr := p + 1, a_Overlapped := (p, Some 0) # a_Overlapped a\<rparr>;
            (r, tr1) = syscall env (Sys_WSASocket (a_ListenerSocketMode a)) tr
        in if r < 0 then (False, a1\<lparr>a_Overlapped := a_Overlapped a\<rparr>, tr1)
           else
             let sk = Some (nat r);
                 a2 = a1\<lparr>a_Overlapped := (p, sk) # a_Overlapped a\<rparr>;
                 (r2, tr2) = syscall env (Sys_AcceptEx (m_Socket (a_ListenerSocket a)) sk) tr1
             in if r2 < 0
                then (False, a2\<lparr>a_Overlapped := a_Overlapped a\<rparr>, tr2 @ [Sys_closesocket (nat r)])
                else (True, a2\<lparr>a_Posted := p # a_Posted a\<rparr>, tr2))"

definition delete_overlapped :: "nat \<Rightarrow> IOSocketAcceptor \<Rightarrow> IOSocketAcceptor" where
  "delete_overlapped p a = a\<lparr>a_Overlapped := filter (\<lambda>x. fst x \<noteq> p) (a_Overlapped a)\<rparr>"

text \<open>\<open>None\<close> is the null \<open>OVERLAPPED\<close> pointer. \<open>CONTAINING_RECORD\<close> never yields null, so the check
  behind it has no effect. The kernel has given the posted structure back.\<close>

definition IOSocketAcceptor_OnIOCompleted ::
  "env \<Rightarrow> ('w, 'k) session_factory \<Rightarrow> bool \<Rightarrow> nat option \<Rightarrow> IOSocketAcceptor \<times> trace \<times> 'w \<Rightarrow>
   IOSocketAcceptor \<times> trace \<times> 'w" where
  "IOSocketAcceptor_OnIOCompleted env sf bSuccess pOverlapped st =
     (case pOverlapped of
        None \<Rightarrow> st
      | Some p \<Rightarrow>
          let (a0, tr, w) = st;
              a = a0\<lparr>a_Posted := remove1 p (a_Posted a0)\<rparr>;
              acceptSocket = (case map_of (a_Overlapped a) p of None \<Rightarrow> INVALID_SOCKET | Some x \<Rightarrow> x);
              (early, tr1, w1) =
                (if \<not> bSuccess then
                   (False, (case acceptSocket of None \<Rightarrow> tr | Some h \<Rightarrow> tr @ [Sys_closesocket h]), w)
                 else
                   let pSocket = Socket_of_handle acceptSocket;
                       (ok, t1) = Socket_UpdateAcceptContext env (m_Socket (a_ListenerSocket a)) pSocket tr
                   in if \<not> ok then (True, snd (Socket_Close (pSocket, t1)), w)
                      else
                        let t2 = snd (Socket_UpdateContextDisableNagleAlgorithm env pSocket t1);
                            t3 = snd (Socket_UpdateContextZeroCopy env pSocket t2);
                            t4 = snd (Socket_UpdateContextKeepAlive env 30000 1000 pSocket t3);
                            (k, w') = sf_create sf pSocket w
                        in if a_ListenerSocketMode a = IOCP then
                             (case a_pService a of
                                None \<Rightarrow> (True, snd (Socket_Close (pSocket, t4)), w')
                              | Some svc \<Rightarrow>
                                  let t5 = (case sf_completionId sf k of
                                              None \<Rightarrow> t4
                                            | Some cid \<Rightarrow> snd (IOService_Associate env acceptSocket cid svc t4))
                                  in (False, t5, sf_OnAccepted sf k w'))
                           else (False, t4, sf_OnAccepted sf k w'))
          in if early then (a, tr1, w1)
             else
               let (a2, tr2) = (if a_Executed a then snd (IOSocketAcceptor_BeginAcceptEx env (a, tr1)) else (a, tr1))
               in (delete_overlapped p a2, tr2, w1))"

definition IOSocketAcceptor_ListenSocket ::
  "env \<Rightarrow> nat \<Rightarrow> u16 \<Rightarrow> nat \<Rightarrow> IOSocketAcceptor \<times> trace \<Rightarrow> bool \<times> IOSocketAcceptor \<times> trace" where
  "IOSocketAcceptor_ListenSocket env completionId listenPort maxConnectionCount st =
     (let (a, tr) = st;
          (created, sk1, tr1) = Socket_CreateSocket env (a_ListenerSocketMode a) (a_ListenerSocket a, tr);
          sk2 = Socket_SetLocalAddress listenPort sk1;
          tr2 = snd (Socket_UpdateContextReuseAddr env True sk2 tr1);
          (bound, sk3, tr3) = Socket_Bind env (sk2, tr2);
          a3 = a\<lparr>a_ListenerSocket := sk3\<rparr>
      in if \<not> bound then (False, a3, tr3)
         else
           let (assoc, tr4) = (case a_pService a3 of
                                 None \<Rightarrow> (False, tr3)
                               | Some svc \<Rightarrow> IOService_Associate env (m_Socket sk3) completionId svc tr3)
           in if \<not> assoc then (False, IOSocketAcceptor_Shutdown env (a3, tr4))
              else
                let (listening, sk5, tr5) = Socket_Listen env maxConnectionCount (sk3, tr4);
                    a5 = a3\<lparr>a_ListenerSocket := sk5\<rparr>
                in if \<not> listening then (False, a5, tr5)
                   else
                     let (r6, tr6) = syscall env (Sys_WSAIoctl (m_Socket sk5) GET_ACCEPTEX) tr5;
                         a6 = a5\<lparr>a_lpfnAcceptEx := \<not> r6 < 0\<rparr>
                     in if r6 < 0 then (False, IOSocketAcceptor_Shutdown env (a5, tr6))
                        else
                          let (r7, tr7) = syscall env (Sys_WSAIoctl (m_Socket sk5) GET_ACCEPTEXSOCKADDRS) tr6
                          in if r7 < 0 then (False, IOSocketAcceptor_Shutdown env (a6, tr7))
                             else (True, a6\<lparr>a_lpfnGetAcceptExSockaddrs := True\<rparr>, tr7))"

fun begin_accepts :: "env \<Rightarrow> nat \<Rightarrow> IOSocketAcceptor \<times> trace \<Rightarrow> IOSocketAcceptor \<times> trace" where
  "begin_accepts env 0 st = st"
| "begin_accepts env (Suc n) st = begin_accepts env n (snd (IOSocketAcceptor_BeginAcceptEx env st))"

definition IOSocketAcceptor_Start ::
  "env \<Rightarrow> nat \<Rightarrow> u16 \<Rightarrow> nat \<Rightarrow> nat \<Rightarrow> nat \<Rightarrow> IOSocketAcceptor \<times> trace \<Rightarrow> bool \<times> IOSocketAcceptor \<times> trace" where
  "IOSocketAcceptor_Start env completionId listenPort maxConnectionCount threadCount beginAcceptCount st =
     (let (a, tr) = st;
          (stop, a1, tr1) =
            (case a_pService a of
               Some svc \<Rightarrow>
                 let (ok, svc', t) = IOService_Start env threadCount (svc, tr);
                     a' = a\<lparr>a_pService := Some svc'\<rparr>
                 in if \<not> ok then (True, IOSocketAcceptor_Shutdown env (a', t)) else (False, a', t)
             | None \<Rightarrow>
                 let (ok, svc', t) = IOService_Start env threadCount (IOService_ctor, tr)
                 in if \<not> ok then (True, a, t) else (False, a\<lparr>a_pService := Some svc'\<rparr>, t))
      in if stop then (False, a1, tr1)
         else
           let (ok, a2, tr2) = IOSocketAcceptor_ListenSocket env completionId listenPort maxConnectionCount (a1, tr1)
           in if \<not> ok then (False, IOSocketAcceptor_Shutdown env (a2, tr2))
              else (True, begin_accepts env beginAcceptCount (a2\<lparr>a_Executed := True\<rparr>, tr2)))"

definition IOSocketAcceptor_Create ::
  "env \<Rightarrow> nat \<Rightarrow> ENetworkMode \<Rightarrow> Socket \<Rightarrow> u16 \<Rightarrow> nat \<Rightarrow> nat \<Rightarrow> nat \<Rightarrow> trace \<Rightarrow>
   IOSocketAcceptor option \<times> IOSocketAcceptor \<times> trace" where
  "IOSocketAcceptor_Create env completionId mode sk listenPort maxConnectionCount threadCount beginAcceptCount tr =
     (let (ok, a, tr') = IOSocketAcceptor_Start env completionId listenPort maxConnectionCount threadCount beginAcceptCount
            (IOSocketAcceptor_ctor mode sk, tr)
      in (if ok then Some a else None, a, tr'))"

section \<open>The heap of AcceptOverlapped objects\<close>

abbreviation ov_addrs :: "IOSocketAcceptor \<Rightarrow> nat set" where
  "ov_addrs a \<equiv> fst ` set (a_Overlapped a)"

text \<open>Objects that nobody will delete: neither posted to the kernel nor being handled.\<close>

definition leaked :: "IOSocketAcceptor \<Rightarrow> nat set" where
  "leaked a = ov_addrs a - set (a_Posted a)"

definition acc_inv :: "IOSocketAcceptor \<Rightarrow> bool" where
  "acc_inv a \<longleftrightarrow> distinct (map fst (a_Overlapped a)) \<and> distinct (a_Posted a) \<and> set (a_Posted a) \<subseteq> ov_addrs a \<and>
     (\<forall>p \<in> ov_addrs a. p < a_NextAddr a)"

lemma acc_inv_ctor: "acc_inv (IOSocketAcceptor_ctor mode sk)" "leaked (IOSocketAcceptor_ctor mode sk) = {}"
  by (simp_all add: acc_inv_def leaked_def IOSocketAcceptor_ctor_def)

text \<open>One \<open>BeginAcceptEx\<close>: either a new object was allocated and posted, or nothing remains.\<close>

lemma BeginAcceptEx_cases:
  obtains (fail) a' tr' where "IOSocketAcceptor_BeginAcceptEx env (a, tr) = (False, a', tr')"
      "a_Overlapped a' = a_Overlapped a" "a_Posted a' = a_Posted a" "a_NextAddr a \<le> a_NextAddr a'"
      "a_Executed a' = a_Executed a" "a_pService a' = a_pService a" "a_ListenerSocket a' = a_ListenerSocket a"
    | (ok) a' tr' sk where "IOSocketAcceptor_BeginAcceptEx env (a, tr) = (True, a', tr')"
      "a_Overlapped a' = (a_NextAddr a, sk) # a_Overlapped a" "a_Posted a' = a_NextAddr a # a_Posted a"
      "a_NextAddr a' = a_NextAddr a + 1"
      "a_Executed a' = a_Executed a" "a_pService a' = a_pService a" "a_ListenerSocket a' = a_ListenerSocket a"
proof -
  let ?R = "IOSocketAcceptor_BeginAcceptEx env (a, tr)"
  consider "\<not> a_Executed a" | "a_Executed a" "env tr (Sys_WSASocket (a_ListenerSocketMode a)) < 0"
    | h where "a_Executed a" "\<not> env tr (Sys_WSASocket (a_ListenerSocketMode a)) < 0"
      "h = nat (env tr (Sys_WSASocket (a_ListenerSocketMode a)))" by blast
  then show ?thesis
  proof cases
    case 1 then show ?thesis using fail[of a tr] by (simp add: IOSocketAcceptor_BeginAcceptEx_def)
  next
    case 2 then show ?thesis
      using fail[of "fst (snd ?R)" "snd (snd ?R)"] by (simp add: IOSocketAcceptor_BeginAcceptEx_def Let_def syscall_def)
  next
    case (3 h)
    then show ?thesis
      using fail[of "fst (snd ?R)" "snd (snd ?R)"] ok[of "fst (snd ?R)" "snd (snd ?R)" "Some h"]
      by (cases "env (tr @ [Sys_WSASocket (a_ListenerSocketMode a)]) (Sys_AcceptEx (m_Socket (a_ListenerSocket a)) (Some h)) < 0")
        (simp_all add: IOSocketAcceptor_BeginAcceptEx_def Let_def syscall_def)
  qed
qed

text \<open>Posting more accepts: the objects and posts that were there stay, and nothing leaks.\<close>

definition acc_grows :: "nat \<Rightarrow> IOSocketAcceptor \<Rightarrow> IOSocketAcceptor \<Rightarrow> bool" where
  "acc_grows n a a' \<longleftrightarrow> acc_inv a' \<and> leaked a' = leaked a \<and> length (a_Posted a') \<le> length (a_Posted a) + n \<and>
     a_Executed a' = a_Executed a \<and> a_pService a' = a_pService a \<and> a_ListenerSocket a' = a_ListenerSocket a \<and>
     set (a_Posted a) \<subseteq> set (a_Posted a') \<and> (\<forall>p \<in> ov_addrs a' - ov_addrs a. a_NextAddr a \<le> p) \<and> a_NextAddr a \<le> a_NextAddr a'"

lemma acc_grows_trans:
  assumes "acc_grows m a b" "acc_grows n b c"
  shows "acc_grows (m + n) a c"
proof -
  have "a_NextAddr a \<le> p" if "p \<in> ov_addrs c - ov_addrs a" for p
    using assms that unfolding acc_grows_def by (cases "p \<in> ov_addrs b") (blast, metis DiffD1 DiffI le_trans)
  moreover have "set (a_Posted a) \<subseteq> set (a_Posted c)" "length (a_Posted c) \<le> length (a_Posted a) + (m + n)"
    "a_NextAddr a \<le> a_NextAddr c"
    using assms by (auto simp: acc_grows_def)
  ultimately show ?thesis using assms unfolding acc_grows_def by metis
qed

lemma BeginAcceptEx_grows:
  assumes "acc_inv a"
  shows "acc_grows 1 a (fst (snd (IOSocketAcceptor_BeginAcceptEx env (a, tr))))"
proof (cases rule: BeginAcceptEx_cases[of env a tr])
  case (fail b tr')
  then show ?thesis using assms by (auto simp: acc_grows_def acc_inv_def leaked_def)
next
  case (ok b tr' sk)
  have new: "a_NextAddr a \<notin> ov_addrs a" using assms by (auto simp: acc_inv_def)
  then have "a_NextAddr a \<notin> set (a_Posted a)" using assms by (auto simp: acc_inv_def)
  then have "leaked b = leaked a" using ok new by (auto simp: leaked_def)
  moreover have "acc_inv b"
    using ok assms new \<open>a_NextAddr a \<notin> set (a_Posted a)\<close> by (auto simp: acc_inv_def less_Suc_eq)
  ultimately show ?thesis using ok by (auto simp: acc_grows_def)
qed

lemma begin_accepts_grows:
  assumes "acc_inv a"
  shows "acc_grows n a (fst (begin_accepts env n (a, tr)))"
  using assms
proof (induction n arbitrary: a tr)
  case 0
  then show ?case by (simp add: acc_grows_def)
next
  case (Suc n)
  obtain ok b tr' where r: "IOSocketAcceptor_BeginAcceptEx env (a, tr) = (ok, b, tr')" by (metis prod_cases3)
  have 1: "acc_grows 1 a b" using BeginAcceptEx_grows[OF Suc.prems, of env tr] r by simp
  then have "acc_inv b" by (simp add: acc_grows_def)
  from acc_grows_trans[OF 1 Suc.IH[OF this, of tr']] show ?case using r by simp
qed

lemma delete_overlapped_props:
  "ov_addrs (delete_overlapped p c) = ov_addrs c - {p}" "a_Posted (delete_overlapped p c) = a_Posted c"
  "leaked (delete_overlapped p c) = leaked c - {p}"
  "acc_inv c \<Longrightarrow> p \<notin> set (a_Posted c) \<Longrightarrow> acc_inv (delete_overlapped p c)"
proof -
  show addrs: "ov_addrs (delete_overlapped p c) = ov_addrs c - {p}" by (force simp: delete_overlapped_def)
  show posted: "a_Posted (delete_overlapped p c) = a_Posted c" by (simp add: delete_overlapped_def)
  show "leaked (delete_overlapped p c) = leaked c - {p}" unfolding leaked_def addrs posted by auto
  assume "acc_inv c" "p \<notin> set (a_Posted c)"
  then show "acc_inv (delete_overlapped p c)"
    unfolding acc_inv_def addrs posted by (auto simp: delete_overlapped_def distinct_map_filter)
qed

lemma Shutdown_state:
  "a_Overlapped (fst (IOSocketAcceptor_Shutdown env (a, tr))) = a_Overlapped a"
  "a_Posted (fst (IOSocketAcceptor_Shutdown env (a, tr))) = a_Posted a"
  "\<not> a_Executed (fst (IOSocketAcceptor_Shutdown env (a, tr)))"
  "m_Socket (a_ListenerSocket (fst (IOSocketAcceptor_Shutdown env (a, tr)))) = INVALID_SOCKET"
  "a_pService (fst (IOSocketAcceptor_Shutdown env (a, tr))) = map_option (\<lambda>s. s\<lparr>ios_Workers := 0, ios_Terminated := True\<rparr>) (a_pService a)"
  using Socket_Close_invalid[of "(a_ListenerSocket a, _)"]
  by (auto simp: IOSocketAcceptor_Shutdown_def IOService_Stop_def Let_def split_beta split: option.splits)

lemma Shutdown_eq:
  "IOSocketAcceptor_Shutdown env st = (a', tr') \<Longrightarrow>
    a_Overlapped a' = a_Overlapped (fst st) \<and> a_Posted a' = a_Posted (fst st) \<and> \<not> a_Executed a'"
  using Shutdown_state(1-3)[of env "fst st" "snd st"] by simp

lemma ListenSocket_keeps:
  assumes "IOSocketAcceptor_ListenSocket env completionId listenPort maxConnectionCount (a, tr) = (ok, a', tr')"
  shows "a_Overlapped a' = a_Overlapped a" "a_Posted a' = a_Posted a" "a_Executed a' \<longrightarrow> a_Executed a"
    "ok \<Longrightarrow> a_pService a' = a_pService a"
  using assms
  by (auto simp: IOSocketAcceptor_ListenSocket_def Let_def split_beta dest!: Shutdown_eq split: if_splits option.splits)

section \<open>Properties\<close>

text \<open>What ends a completion early: the accepted socket could not be attached to the listener, or
  the service is missing in IOCP mode.\<close>

definition accept_aborted :: "env \<Rightarrow> bool \<Rightarrow> nat \<Rightarrow> IOSocketAcceptor \<Rightarrow> trace \<Rightarrow> bool" where
  "accept_aborted env bSuccess p a tr \<longleftrightarrow> bSuccess \<and>
     (\<not> fst (Socket_UpdateAcceptContext env (m_Socket (a_ListenerSocket a))
          (Socket_of_handle (case map_of (a_Overlapped a) p of None \<Rightarrow> INVALID_SOCKET | Some x \<Rightarrow> x)) tr) \<or>
      a_ListenerSocketMode a = IOCP \<and> a_pService a = None)"

lemma OnIOCompleted_parts:
  "\<exists>tr1 w1. IOSocketAcceptor_OnIOCompleted env sf bSuccess (Some p) (a, tr, w) =
     (let b = a\<lparr>a_Posted := remove1 p (a_Posted a)\<rparr> in
      if accept_aborted env bSuccess p a tr then (b, tr1, w1)
      else let (c, tr2) = (if a_Executed a then snd (IOSocketAcceptor_BeginAcceptEx env (b, tr1)) else (b, tr1))
           in (delete_overlapped p c, tr2, w1))"
proof (cases bSuccess)
  case False
  then show ?thesis
    by (intro exI) (auto simp: IOSocketAcceptor_OnIOCompleted_def accept_aborted_def Let_def split_beta)
next
  case True
  let ?sk = "Socket_of_handle (case map_of (a_Overlapped a) p of None \<Rightarrow> INVALID_SOCKET | Some x \<Rightarrow> x)"
  obtain ok t1 where u: "Socket_UpdateAcceptContext env (m_Socket (a_ListenerSocket a)) ?sk tr = (ok, t1)"
    by fastforce
  show ?thesis
    using True u
    by (cases ok; cases "a_ListenerSocketMode a"; cases "a_pService a"; intro exI)
      (auto simp: IOSocketAcceptor_OnIOCompleted_def accept_aborted_def Let_def split_beta)
qed

text \<open>C25: the accept objects are managed exactly. For a completed accept the object it carried is
  deleted and at most one new accept is posted, so nothing leaks; only when the completion is
  cut short (the socket could not be attached to the listener, or no service) the object
  stays allocated for ever and no new accept replaces it, so the listener has one accept
  less.\<close>

theorem acceptor_completion_slots:
  assumes "acc_inv a" "p \<in> set (a_Posted a)"
  shows "let a' = fst (IOSocketAcceptor_OnIOCompleted env sf bSuccess (Some p) (a, tr, w)) in
    acc_inv a' \<and> p \<notin> set (a_Posted a') \<and>
    (if accept_aborted env bSuccess p a tr
     then leaked a' = insert p (leaked a) \<and> length (a_Posted a') + 1 = length (a_Posted a)
     else leaked a' = leaked a \<and> length (a_Posted a') \<le> length (a_Posted a))"
proof -
  let ?b = "a\<lparr>a_Posted := remove1 p (a_Posted a)\<rparr>"
  have pos: "0 < length (a_Posted a)" using assms(2) by (auto dest: length_pos_if_in_set)
  have ib: "acc_inv ?b" using assms(1) by (auto simp: acc_inv_def dest: set_remove1_subset[THEN subsetD])
  have pb: "p \<notin> set (a_Posted ?b)" "p \<in> ov_addrs ?b" using assms by (auto simp: acc_inv_def)
  have lb: "leaked ?b = insert p (leaked a)" "length (a_Posted ?b) + 1 = length (a_Posted a)"
    using assms pb pos by (auto simp: leaked_def acc_inv_def length_remove1)
  obtain tr1 w1 where r: "IOSocketAcceptor_OnIOCompleted env sf bSuccess (Some p) (a, tr, w) =
     (let b = a\<lparr>a_Posted := remove1 p (a_Posted a)\<rparr> in
      if accept_aborted env bSuccess p a tr then (b, tr1, w1)
      else let (c, tr2) = (if a_Executed a then snd (IOSocketAcceptor_BeginAcceptEx env (b, tr1)) else (b, tr1))
           in (delete_overlapped p c, tr2, w1))" using OnIOCompleted_parts[of env sf bSuccess p a tr w] by (elim exE) (rule that)
  have lp: "p \<notin> leaked a" using assms(2) by (simp add: leaked_def)
  have del: "acc_inv (delete_overlapped p c) \<and> p \<notin> set (a_Posted (delete_overlapped p c)) \<and>
      leaked (delete_overlapped p c) = leaked a \<and> length (a_Posted (delete_overlapped p c)) \<le> length (a_Posted a)"
    if "acc_grows n ?b c" "n \<le> 1" for n c
  proof -
    have "p < a_NextAddr ?b" using ib pb(2) by (auto simp: acc_inv_def)
    have "p \<notin> set (a_Posted c)"
    proof
      assume "p \<in> set (a_Posted c)"
      then have "p \<notin> leaked c" by (simp add: leaked_def)
      then show False using that(1) lb(1) by (simp add: acc_grows_def)
    qed
    moreover have "acc_inv c" "leaked c = insert p (leaked a)" "length (a_Posted c) \<le> length (a_Posted a)"
      using that lb by (auto simp: acc_grows_def)
    ultimately show ?thesis using delete_overlapped_props[where p = p and c = c] lp by auto
  qed
  show ?thesis
  proof (cases "accept_aborted env bSuccess p a tr")
    case True
    then show ?thesis using r ib pb lb by (simp add: Let_def)
  next
    case False
    have "acc_grows 0 ?b ?b" using ib by (simp add: acc_grows_def)
    then show ?thesis
      using False r del[of 0 ?b] del[OF BeginAcceptEx_grows[OF ib, of env tr1]] by (simp add: Let_def split_beta)
  qed
qed

theorem acceptor_completion_slots_witness:
  "let a' = fst (IOSocketAcceptor_OnIOCompleted (\<lambda>_ _. 0) \<lparr>sf_create = (\<lambda>sk w. ((), w)), sf_completionId = (\<lambda>k. None), sf_OnAccepted = (\<lambda>k w. w)\<rparr>
     True (Some 1) (fst (begin_accepts (\<lambda>_ _. 0) 1 ((IOSocketAcceptor_ctor RIO (Socket_of_handle (Some 3)))\<lparr>a_Executed := True\<rparr>, [])), [], ()))
   in leaked a' = {} \<and> 1 \<notin> set (a_Posted a')"
proof -
  let ?c = "(IOSocketAcceptor_ctor RIO (Socket_of_handle (Some 3)))\<lparr>a_Executed := True\<rparr>"
  define a where "a = fst (begin_accepts (\<lambda>_ _. 0) 1 (?c, []))"
  have c: "acc_inv ?c" "leaked ?c = {}" using acc_inv_ctor[of RIO "Socket_of_handle (Some 3)"] by (simp_all add: acc_inv_def leaked_def)
  have i: "acc_inv a" "leaked a = {}"
    using begin_accepts_grows[OF c(1), of 1 "\<lambda>_ _. 0" "[]"] c(2) by (simp_all add: acc_grows_def a_def)
  have p: "1 \<in> set (a_Posted a)" "a_ListenerSocketMode a = RIO"
    by (simp_all add: a_def IOSocketAcceptor_BeginAcceptEx_def IOSocketAcceptor_ctor_def syscall_def Let_def)
  have "\<not> accept_aborted (\<lambda>_ _. 0) True 1 a []"
    using p(2) by (simp add: accept_aborted_def Socket_UpdateAcceptContext_def syscall_def)
  then show ?thesis
    unfolding a_def[symmetric] using acceptor_completion_slots[OF i(1) p(1), where env = "\<lambda>_ _. 0" and bSuccess = True and tr = "[]" and w = "()"
        and sf = "\<lparr>sf_create = (\<lambda>sk w. ((), w)), sf_completionId = (\<lambda>k. None), sf_OnAccepted = (\<lambda>k w. w)\<rparr>"] i(2)
    by (simp add: Let_def)
qed

text \<open>Starting a listener is all or nothing. When \<open>Create\<close> fails at any step (completion port,
  bind, association, listen or loading the extension functions) the listening socket is
  closed, no accept is posted and no worker is left running; when it succeeds the acceptor
  runs, its service has the requested workers, at most the requested accepts are posted and
  nothing leaked.\<close>

theorem acceptor_create_all_or_nothing:
  assumes "m_Socket sk = INVALID_SOCKET"
  shows "case IOSocketAcceptor_Create env completionId mode sk listenPort maxConnectionCount threadCount beginAcceptCount tr of
      (None, a, tr') \<Rightarrow> m_Socket (a_ListenerSocket a) = INVALID_SOCKET \<and> a_Overlapped a = [] \<and> \<not> a_Executed a \<and>
        (case a_pService a of None \<Rightarrow> True | Some s \<Rightarrow> ios_Workers s = 0 \<and> ios_Terminated s)
    | (Some a, a', tr') \<Rightarrow> a' = a \<and> a_Executed a \<and> acc_inv a \<and> leaked a = {} \<and>
        length (a_Posted a) \<le> beginAcceptCount \<and> (\<exists>s. a_pService a = Some s \<and> ios_Workers s = threadCount)"
proof -
  let ?c = "IOSocketAcceptor_ctor mode sk"
  have none: "a_pService ?c = None" by (simp add: IOSocketAcceptor_ctor_def)
  obtain ok svc t where st: "IOService_Start env threadCount (IOService_ctor, tr) = (ok, svc, t)" by (metis prod_cases3)
  show ?thesis
  proof (cases ok)
    case False
    then show ?thesis
      using st none assms by (simp add: IOSocketAcceptor_Create_def IOSocketAcceptor_Start_def IOSocketAcceptor_ctor_def)
  next
    case True
    then have w: "ios_Workers svc = threadCount"
      using st by (auto simp: IOService_Start_def IOService_CreateCompletionPort_def IOService_ctor_def Let_def split: prod.splits if_splits)
    let ?a = "?c\<lparr>a_pService := Some svc\<rparr>"
    obtain ok2 a2 tr2 where ls: "IOSocketAcceptor_ListenSocket env completionId listenPort maxConnectionCount (?a, t) = (ok2, a2, tr2)"
      by (metis prod_cases3)
    note l = ListenSocket_keeps[OF ls]
    have fresh: "a_Overlapped ?a = []" "a_Posted ?a = []" "\<not> a_Executed ?a" by (simp_all add: IOSocketAcceptor_ctor_def)
    show ?thesis
    proof (cases ok2)
      case False
      then show ?thesis
        using st none True ls l fresh Shutdown_state[of env a2 tr2]
        by (simp add: IOSocketAcceptor_Create_def IOSocketAcceptor_Start_def split_beta split: option.splits)
    next
      case ok: True
      let ?b = "a2\<lparr>a_Executed := True\<rparr>"
      have b: "acc_inv ?b" "leaked ?b = {}" using l(1,2) fresh by (simp_all add: acc_inv_def leaked_def)
      have "acc_grows beginAcceptCount ?b (fst (begin_accepts env beginAcceptCount (?b, tr2)))"
        by (rule begin_accepts_grows[OF b(1)])
      then show ?thesis
        using st none True ls ok l(1,2) l(4)[OF ok] b fresh w
        by (simp add: IOSocketAcceptor_Create_def IOSocketAcceptor_Start_def split_beta acc_grows_def)
    qed
  qed
qed

theorem acceptor_create_all_or_nothing_witness:
  "case IOSocketAcceptor_Create (\<lambda>_ _. 0) 9 IOCP (Socket_of_handle INVALID_SOCKET) 6628 5 2 3 [] of
      (None, a, tr') \<Rightarrow> m_Socket (a_ListenerSocket a) = INVALID_SOCKET \<and> a_Overlapped a = [] \<and> \<not> a_Executed a \<and>
        (case a_pService a of None \<Rightarrow> True | Some s \<Rightarrow> ios_Workers s = 0 \<and> ios_Terminated s)
    | (Some a, a', tr') \<Rightarrow> a' = a \<and> a_Executed a \<and> acc_inv a \<and> leaked a = {} \<and>
        length (a_Posted a) \<le> 3 \<and> (\<exists>s. a_pService a = Some s \<and> ios_Workers s = 2)"
  by (rule acceptor_create_all_or_nothing) (simp add: Socket_of_handle_def)

end
