(* ===== verification/Socket_Connector.thy ===== *)
theory Socket_Connector
  imports Outbound_Session IOCP_Properties
begin

text \<open>
  \<open>IOSocketConnector\<close> (\<open>LibNetworks/IOSocketConnector.cpp\<close>): makes a socket and a session on it and
  posts \<open>ConnectEx\<close>. The socket object is shared with the session, so from the moment the session
  exists its own \<open>s_pSocket\<close> is read; likewise the three references the session's observers
  change (\<open>m_pSession\<close>, \<open>m_wpSession\<close>, \<open>m_pLifecycleHold\<close>) are then \<open>ob_Refs\<close> of the session, and the
  history of system calls is continued in \<open>s_Trace\<close>.

  Parameters: Winsock (\<open>env\<close>), \<open>inet_pton\<close>, the session factory (\<open>create\<close>), the completion id of the
  session it makes (its address, \<open>cid\<close>) and the virtual \<open>OnDisconnected\<close> of that session.
\<close>

datatype 's INetworkSession = OutboundSess 's | OtherSess

record 's IOSocketConnector =
  k_pSocket :: Socket
  k_pService :: "IOService option"
  k_Session :: "'s INetworkSession option"
  k_lpfnConnectEx :: bool
  k_Refs :: connector_refs
  k_Trace :: trace

abbreviation no_refs :: connector_refs where
  "no_refs \<equiv> \<lparr>cr_pSession = False, cr_wpSession = False, cr_LifecycleHold = False\<rparr>"

abbreviation all_refs :: connector_refs where
  "all_refs \<equiv> \<lparr>cr_pSession = True, cr_wpSession = True, cr_LifecycleHold = True\<rparr>"

text \<open>A static helper the file defines and does not call.\<close>

definition UpdateSocketReuseAddr :: "env \<Rightarrow> SOCKET \<Rightarrow> trace \<Rightarrow> bool \<times> trace" where
  "UpdateSocketReuseAddr env socket tr =
     (let (nRet, tr1) = syscall env (Sys_setsockopt socket (SO_REUSEADDR True)) tr in (nRet = 0, tr1))"

text \<open>\<open>m_pService\<close> counts here when it is an \<open>IOService\<close> (the code casts it).\<close>

definition IOSocketConnector_ctor :: "IOService option \<Rightarrow> trace \<Rightarrow> 's IOSocketConnector" where
  "IOSocketConnector_ctor pService tr =
     \<lparr>k_pSocket = Socket_of_handle INVALID_SOCKET, k_pService = pService, k_Session = None, k_lpfnConnectEx = False,
      k_Refs = no_refs, k_Trace = tr\<rparr>"

text \<open>The references, the trace and the handle, wherever they are kept.\<close>

definition conn_refs :: "('b, 'z) OutboundSession_scheme IOSocketConnector \<Rightarrow> connector_refs" where
  "conn_refs k = (case k_Session k of Some (OutboundSess s) \<Rightarrow> ob_Refs s | _ \<Rightarrow> k_Refs k)"

definition conn_trace :: "('b, 'z) OutboundSession_scheme IOSocketConnector \<Rightarrow> trace" where
  "conn_trace k = (case k_Session k of Some (OutboundSess s) \<Rightarrow> s_Trace s | _ \<Rightarrow> k_Trace k)"

definition session_handle :: "('b, 'z) IOSession_scheme \<Rightarrow> SOCKET" where
  "session_handle s = (case s_pSocket s of None \<Rightarrow> INVALID_SOCKET | Some sk \<Rightarrow> m_Socket sk)"

definition conn_handle :: "('b, 'z) OutboundSession_scheme IOSocketConnector \<Rightarrow> SOCKET" where
  "conn_handle k = (case k_Session k of Some (OutboundSess s) \<Rightarrow> session_handle s | _ \<Rightarrow> m_Socket (k_pSocket k))"

definition HasTrackedSession :: "connector_refs \<Rightarrow> bool" where
  "HasTrackedSession r \<longleftrightarrow> cr_pSession r \<or> cr_wpSession r"

definition ReleaseSessionAfterActivation :: "connector_refs \<Rightarrow> connector_refs" where
  "ReleaseSessionAfterActivation r =
     (let r1 = (if cr_pSession r then r\<lparr>cr_wpSession := True, cr_pSession := False\<rparr> else r)
      in r1\<lparr>cr_LifecycleHold := False\<rparr>)"

definition ReleaseSessionAfterDisconnect :: "connector_refs \<Rightarrow> connector_refs" where
  "ReleaseSessionAfterDisconnect r = r\<lparr>cr_pSession := False, cr_wpSession := False, cr_LifecycleHold := False\<rparr>"

definition DisConnect ::
  "'b IBuffer \<Rightarrow> (('b, 'z) OutboundSession_scheme \<Rightarrow> ('b, 'z) OutboundSession_scheme) \<Rightarrow>
   ('b, 'z) OutboundSession_scheme IOSocketConnector \<Rightarrow> ('b, 'z) OutboundSession_scheme IOSocketConnector" where
  "DisConnect ops onDisc k =
     (if \<not> HasTrackedSession (conn_refs k) then k
      else case k_Session k of
        Some (OutboundSess s) \<Rightarrow> k\<lparr>k_Session := Some (OutboundSess (RequestDisconnect ops onDisc Normal s))\<rparr>
      | _ \<Rightarrow>
          let (sk, tr) = Socket_Close (k_pSocket k, k_Trace k)
          in k\<lparr>k_pSocket := sk, k_Trace := tr, k_Refs := ReleaseSessionAfterDisconnect (k_Refs k)\<rparr>)"

definition ConnectEx ::
  "env \<Rightarrow> (string \<Rightarrow> u32 option) \<Rightarrow> string \<Rightarrow> u16 \<Rightarrow>
   ('b, 'z) OutboundSession_scheme IOSocketConnector \<Rightarrow> bool \<times> ('b, 'z) OutboundSession_scheme IOSocketConnector" where
  "ConnectEx env inet_pton ip port k =
     (if \<not> k_lpfnConnectEx k then (False, k)
      else case k_Session k of
        Some (OutboundSess s) \<Rightarrow>
          let remoteAddr = snd (CreateSocketAddress inet_pton ip port);
              (ok, s') = post_connect env (session_handle s) remoteAddr s
          in (ok, k\<lparr>k_Session := Some (OutboundSess s')\<rparr>)
      | _ \<Rightarrow> (False, k))"

definition connect_associate ::
  "env \<Rightarrow> nat \<Rightarrow> IOService option \<Rightarrow> ('b, 'z) OutboundSession_scheme \<Rightarrow> bool \<times> ('b, 'z) OutboundSession_scheme" where
  "connect_associate env cid pService s =
     (case pService of
        None \<Rightarrow> (True, s)
      | Some pIOService \<Rightarrow>
          let (ok, tr) = IOService_Associate env (session_handle s) cid pIOService (s_Trace s)
          in (ok, s\<lparr>s_Trace := tr\<rparr>))"

definition Connect ::
  "env \<Rightarrow> 'b IBuffer \<Rightarrow> (('b, 'z) OutboundSession_scheme \<Rightarrow> ('b, 'z) OutboundSession_scheme) \<Rightarrow>
   (string \<Rightarrow> u32 option) \<Rightarrow> (Socket \<Rightarrow> ('b, 'z) OutboundSession_scheme INetworkSession option) \<Rightarrow> nat \<Rightarrow> string \<Rightarrow> u16 \<Rightarrow>
   ('b, 'z) OutboundSession_scheme IOSocketConnector \<Rightarrow> bool \<times> ('b, 'z) OutboundSession_scheme IOSocketConnector" where
  "Connect env ops onDisc inet_pton create cid ip port k =
     (let (created, sk1, tr1) = Socket_CreateSocket env IOCP (k_pSocket k, k_Trace k);
          sk2 = Socket_SetLocalAddress 0 sk1;
          (bound, sk3, tr3) = Socket_Bind env (sk2, tr1);
          k3 = k\<lparr>k_pSocket := sk3, k_Trace := tr3\<rparr>
      in if \<not> bound then (False, DisConnect ops onDisc k3)
         else case create sk3 of
           None \<Rightarrow> let (sk4, tr4) = Socket_Close (sk3, tr3) in (False, k3\<lparr>k_pSocket := sk4, k_Trace := tr4\<rparr>)
         | Some OtherSess \<Rightarrow> (False, DisConnect ops onDisc (k3\<lparr>k_Session := Some OtherSess, k_Refs := all_refs\<rparr>))
         | Some (OutboundSess s0) \<Rightarrow>
             let s1 = SetDisconnectObserver ReleaseSessionAfterDisconnect
                        (SetActivationObserver ReleaseSessionAfterActivation
                           (s0\<lparr>s_Trace := tr3 @ s_Trace s0, ob_Refs := all_refs\<rparr>));
                 (assoc, s2) = connect_associate env cid (k_pService k) s1;
                 k4 = k3\<lparr>k_Session := Some (OutboundSess s2)\<rparr>
             in if \<not> assoc then (False, DisConnect ops onDisc k4)
                else
                  let (r, tr5) = syscall env (Sys_WSAIoctl (session_handle s2) GET_CONNECTEX) (s_Trace s2);
                      k5 = k4\<lparr>k_Session := Some (OutboundSess (s2\<lparr>s_Trace := tr5\<rparr>)), k_lpfnConnectEx := \<not> r < 0\<rparr>
                  in if r < 0 then (False, DisConnect ops onDisc k5)
                     else
                       let (ok, k6) = ConnectEx env inet_pton ip port k5
                       in if \<not> ok then (False, DisConnect ops onDisc k6) else (True, k6))"

definition IOSocketConnector_Create ::
  "env \<Rightarrow> 'b IBuffer \<Rightarrow> (('b, 'z) OutboundSession_scheme \<Rightarrow> ('b, 'z) OutboundSession_scheme) \<Rightarrow>
   (string \<Rightarrow> u32 option) \<Rightarrow> (Socket \<Rightarrow> ('b, 'z) OutboundSession_scheme INetworkSession option) \<Rightarrow> nat \<Rightarrow> string \<Rightarrow> u16 \<Rightarrow>
   IOService option \<Rightarrow> trace \<Rightarrow>
   ('b, 'z) OutboundSession_scheme IOSocketConnector option \<times> ('b, 'z) OutboundSession_scheme IOSocketConnector" where
  "IOSocketConnector_Create env ops onDisc inet_pton create cid ip port pService tr =
     (let (ok, k) = Connect env ops onDisc inet_pton create cid ip port (IOSocketConnector_ctor pService tr)
      in (if ok then Some k else None, k))"

section \<open>Connecting\<close>

text \<open>A session under connect: made on the socket, tracked by the connector, with nothing in
  flight and no disconnect yet.\<close>

definition connecting :: "env \<Rightarrow> ('b \<Rightarrow> bool) \<Rightarrow> ('b, 'z) OutboundSession_scheme \<Rightarrow> bool" where
  "connecting env I s \<longleftrightarrow> session_inv env I s \<and> \<not> s_DisconnectRequested s \<and> s_OutstandingIoCount s = 0 \<and>
     \<not> s_OnDisconnectedFired s \<and> ob_Refs s = all_refs \<and> ob_DisconnectObserver s = Some ReleaseSessionAfterDisconnect"

lemma connecting_inert:
  assumes "connecting env I s" "list_all inert es"
  shows "connecting env I (s\<lparr>s_Trace := s_Trace s @ es\<rparr>)"
  using assms session_inv_evolves[OF _ calm_evolves[OF calm_inert[OF assms(2)]], of env I s]
  by (simp add: connecting_def)

lemma connecting_associate:
  "connecting env I s \<Longrightarrow> connecting env I (snd (connect_associate env cid svc s))"
  by (auto simp: connect_associate_def IOService_Associate_def syscall_def Let_def split: option.splits
      intro!: connecting_inert)

text \<open>Giving up: the socket is closed, the hook has been called once and the connector holds
  nothing any more.\<close>

definition released :: "('b, 'z) OutboundSession_scheme \<Rightarrow> bool" where
  "released s \<longleftrightarrow> s_DisconnectRequested s \<and> s_OutstandingIoCount s = 0 \<and> fire_count (s_Trace s) = 1 \<and>
     session_handle s = INVALID_SOCKET \<and> ob_Refs s = no_refs"

lemma client_disc_fields:
  "s_DisconnectRequested (FastPortOutboundSession_OnDisconnected s) = s_DisconnectRequested s"
  "s_OutstandingIoCount (FastPortOutboundSession_OnDisconnected s) = s_OutstandingIoCount s"
  "s_Trace (FastPortOutboundSession_OnDisconnected s) = s_Trace s"
  "s_pSocket (FastPortOutboundSession_OnDisconnected s) = s_pSocket s"
  "ob_Refs (FastPortOutboundSession_OnDisconnected s) =
     (case ob_DisconnectObserver s of None \<Rightarrow> ob_Refs s | Some f \<Rightarrow> f (ob_Refs s))"
  by (simp_all add: FastPortOutboundSession_OnDisconnected_def OutboundSession_OnDisconnected_def
      NotifyDisconnectObserver_def Let_def split: option.splits)

lemma closed_socket_fields:
  fixes s :: "('b, 'z) OutboundSession_scheme"
  shows "s_DisconnectRequested (close_socket s) = s_DisconnectRequested s"
    "s_OutstandingIoCount (close_socket s) = s_OutstandingIoCount s"
    "s_OnDisconnectedFired (close_socket s) = s_OnDisconnectedFired s"
    "fire_count (s_Trace (close_socket s)) = fire_count (s_Trace s)"
    "(case s_pSocket (close_socket s) of None \<Rightarrow> INVALID_SOCKET | Some sk \<Rightarrow> m_Socket sk) = INVALID_SOCKET"
    "ob_Refs (close_socket s) = ob_Refs s"
    "ob_DisconnectObserver (close_socket s) = ob_DisconnectObserver s"
  by (simp_all add: close_socket_def Socket_Close_def Socket_Shutdown_def Let_def
      split: option.splits prod.splits)

lemma connecting_disconnect:
  assumes "connecting env I s"
  shows "released (RequestDisconnect ops FastPortOutboundSession_OnDisconnected Normal s)"
  using assms
  by (simp add: connecting_def session_inv_def fire_flag_def released_def RequestDisconnect_def
      TryFireOnDisconnected_def client_disc_fields closed_socket_fields session_handle_def
      ReleaseSessionAfterDisconnect_def Let_def)


lemma post_connect_connecting:
  assumes "connecting env I s"
  shows "if fst (post_connect env h a s)
    then session_inv env I (snd (post_connect env h a s)) \<and> s_OutstandingIoCount (snd (post_connect env h a s)) = 1 \<and>
      \<not> s_DisconnectRequested (snd (post_connect env h a s)) \<and> ob_Refs (snd (post_connect env h a s)) = all_refs \<and>
      ob_ConnectIoPending (snd (post_connect env h a s))
    else connecting env I (snd (post_connect env h a s))"
  using assms session_inv_evolves[OF _ calm_evolves[OF post_connect_calm], of env I s h a]
  by (simp add: connecting_def post_connect_def MarkConnectIoPosted_def AddOutstandingIo_def UndoConnectIoOnPostFailure_def
      UndoOutstandingOnFailure_def syscall_def Let_def)

text \<open>The factory of the demo client.\<close>

definition client_factory ::
  "(u64, u64) Container \<Rightarrow> u64 \<Rightarrow> nat \<Rightarrow> nat \<Rightarrow> Socket \<Rightarrow> CircleBufferQueue FastPortOutboundSession INetworkSession option" where
  "client_factory sessions i rc sc sk =
     Some (OutboundSess (fst (FastPortOutboundSession_ctor sessions i (Some sk) (Some (CircleBufferQueue_ctor rc))
       (Some (CircleBufferQueue_ctor sc)))))"

lemma client_made_connecting:
  assumes "0 < rc" "0 < sc" "list_all inert tr"
    "client_factory sessions i rc sc sk = Some (OutboundSess s0)"
  shows "connecting env cbq_inv (SetDisconnectObserver ReleaseSessionAfterDisconnect
           (SetActivationObserver ReleaseSessionAfterActivation (s0\<lparr>s_Trace := tr @ s_Trace s0, ob_Refs := all_refs\<rparr>)))"
  using assms inert_events[OF assms(3), of env "[]"]
  by (auto simp: client_factory_def FastPortOutboundSession_ctor_def OutboundSession_ctor_def IOSession_ctor_def
      IOSession.defs OutboundSession.defs SetDisconnectObserver_def SetActivationObserver_def connecting_def
      session_inv_def sess_ok_def notified_def fire_flag_def cbq_inv_ctor)

lemma socket_made:
  assumes "Socket_CreateSocket env mode (sk, tr) = (created, sk1, tr1)" "Socket_Bind env (sk2, tr1) = (bound, sk3, tr3)"
    "list_all inert tr"
  shows "list_all inert tr3" "\<not> bound \<Longrightarrow> m_Socket sk3 = INVALID_SOCKET"
  using assms
  by (auto simp: Socket_CreateSocket_def Socket_Bind_def Socket_Close_def syscall_def Let_def
      split: option.splits if_splits prod.splits)

lemma fire_inert: "list_all inert tr \<Longrightarrow> fire_count tr = 0"
  by (simp add: inert_events)

definition connect_result :: "env \<Rightarrow> bool \<times> CircleBufferQueue FastPortOutboundSession IOSocketConnector \<Rightarrow> bool" where
  "connect_result env r \<longleftrightarrow>
     (case r of
        (True, k) \<Rightarrow> \<exists>s. k_Session k = Some (OutboundSess s) \<and> session_inv env cbq_inv s \<and> s_OutstandingIoCount s = 1 \<and>
          ob_ConnectIoPending s \<and> \<not> s_DisconnectRequested s \<and> conn_refs k = all_refs
      | (False, k) \<Rightarrow> conn_refs k = no_refs \<and> conn_handle k = INVALID_SOCKET \<and>
          fire_count (conn_trace k) = (if k_Session k = None then 0 else 1))"

lemma give_up_result:
  assumes "connecting env I s" "k_Session k = Some (OutboundSess s)"
  shows "connect_result env (False, DisConnect ops FastPortOutboundSession_OnDisconnected k)"
  using connecting_disconnect[OF assms(1), of ops] assms
  by (simp add: connect_result_def DisConnect_def conn_refs_def conn_handle_def conn_trace_def HasTrackedSession_def
      connecting_def released_def)


lemma Connect_unfold:
  fixes env :: env and k :: "('b, 'z) OutboundSession_scheme IOSocketConnector"
  assumes "Socket_CreateSocket env IOCP (k_pSocket k, k_Trace k) = (created, sk1, tr1)"
    "Socket_Bind env (Socket_SetLocalAddress 0 sk1, tr1) = (True, sk3, tr3)" "create sk3 = Some (OutboundSess s0)"
    "s1 = SetDisconnectObserver ReleaseSessionAfterDisconnect (SetActivationObserver ReleaseSessionAfterActivation
       (s0\<lparr>s_Trace := tr3 @ s_Trace s0, ob_Refs := all_refs\<rparr>))"
    "connect_associate env cid (k_pService k) s1 = (assoc, s2)"
    "syscall env (Sys_WSAIoctl (session_handle s2) GET_CONNECTEX) (s_Trace s2) = (r, tr5)"
    "k4 = k\<lparr>k_pSocket := sk3, k_Trace := tr3, k_Session := Some (OutboundSess s2)\<rparr>"
    "k5 = k4\<lparr>k_Session := Some (OutboundSess (s2\<lparr>s_Trace := tr5\<rparr>)), k_lpfnConnectEx := \<not> r < 0\<rparr>"
    "post_connect env (session_handle (s2\<lparr>s_Trace := tr5\<rparr>)) (snd (CreateSocketAddress inet_pton ip port))
       (s2\<lparr>s_Trace := tr5\<rparr>) = (ok, s6)"
  shows "Connect env ops onDisc inet_pton create cid ip port k =
    (if \<not> assoc then (False, DisConnect ops onDisc k4)
     else if r < 0 then (False, DisConnect ops onDisc k5)
     else if \<not> ok then (False, DisConnect ops onDisc (k5\<lparr>k_Session := Some (OutboundSess s6)\<rparr>))
     else (True, k5\<lparr>k_Session := Some (OutboundSess s6)\<rparr>))"
  using assms by (simp add: Connect_def ConnectEx_def Let_def)

lemma Connect_not_bound:
  assumes "Socket_CreateSocket env IOCP (k_pSocket k, k_Trace k) = (created, sk1, tr1)"
    "Socket_Bind env (Socket_SetLocalAddress 0 sk1, tr1) = (False, sk3, tr3)" "k_Session k = None" "k_Refs k = no_refs"
  shows "Connect env ops onDisc inet_pton create cid ip port k = (False, k\<lparr>k_pSocket := sk3, k_Trace := tr3\<rparr>)"
  using assms by (simp add: Connect_def DisConnect_def HasTrackedSession_def conn_refs_def)

lemma Connect_result:
  assumes "0 < rc" "0 < sc"
  shows "connect_result env (Connect env CircleBufferQueue_vtable FastPortOutboundSession_OnDisconnected inet_pton
    (client_factory sessions i rc sc) cid ip port (IOSocketConnector_ctor svc []))"
proof -
  let ?k = "IOSocketConnector_ctor svc [] :: CircleBufferQueue FastPortOutboundSession IOSocketConnector"
  obtain created sk1 tr1 where 1: "Socket_CreateSocket env IOCP (k_pSocket ?k, k_Trace ?k) = (created, sk1, tr1)"
    using prod_cases3 by blast
  obtain bound sk3 tr3 where 3: "Socket_Bind env (Socket_SetLocalAddress 0 sk1, tr1) = (bound, sk3, tr3)"
    using prod_cases3 by blast
  have inert3: "list_all inert tr3" and closed3: "\<not> bound \<Longrightarrow> m_Socket sk3 = INVALID_SOCKET"
    using socket_made[OF 1 3] by (simp_all add: IOSocketConnector_ctor_def)
  obtain s0 where s0: "client_factory sessions i rc sc sk3 = Some (OutboundSess s0)" by (simp add: client_factory_def)
  define s1 where s1: "s1 = SetDisconnectObserver ReleaseSessionAfterDisconnect
    (SetActivationObserver ReleaseSessionAfterActivation (s0\<lparr>s_Trace := tr3 @ s_Trace s0, ob_Refs := all_refs\<rparr>))"
  obtain assoc s2 where 2: "connect_associate env cid (k_pService ?k) s1 = (assoc, s2)" by fastforce
  obtain r tr5 where 5: "syscall env (Sys_WSAIoctl (session_handle s2) GET_CONNECTEX) (s_Trace s2) = (r, tr5)" by fastforce
  obtain ok s6 where 6: "post_connect env (session_handle (s2\<lparr>s_Trace := tr5\<rparr>)) (snd (CreateSocketAddress inet_pton ip port))
    (s2\<lparr>s_Trace := tr5\<rparr>) = (ok, s6)" by fastforce
  have c2: "connecting env cbq_inv s2"
    using connecting_associate[OF client_made_connecting[OF assms inert3 s0], of env cid "k_pService ?k"] 2
    by (simp flip: s1)
  have c5: "connecting env cbq_inv (s2\<lparr>s_Trace := tr5\<rparr>)"
    using connecting_inert[OF c2, of "[Sys_WSAIoctl (session_handle s2) GET_CONNECTEX]"] 5 by (simp add: syscall_def)
  note c6 = post_connect_connecting[OF c5, of "session_handle (s2\<lparr>s_Trace := tr5\<rparr>)"
      "snd (CreateSocketAddress inet_pton ip port)", unfolded 6 fst_conv snd_conv]
  show ?thesis
  proof (cases bound)
    case False
    then have "Socket_Bind env (Socket_SetLocalAddress 0 sk1, tr1) = (False, sk3, tr3)" using 3 by simp
    from Connect_not_bound[OF 1 this] show ?thesis
      using False closed3 fire_inert[OF inert3]
      by (simp add: IOSocketConnector_ctor_def connect_result_def conn_refs_def conn_handle_def conn_trace_def)
  next
    case True
    then have b3: "Socket_Bind env (Socket_SetLocalAddress 0 sk1, tr1) = (True, sk3, tr3)" using 3 by simp
    note unfold = Connect_unfold[where create = "client_factory sessions i rc sc" and k = ?k, OF 1 b3 s0 s1 2 5 refl refl 6]
    consider "\<not> assoc" | "assoc" "r < 0" | "assoc" "\<not> r < 0" "\<not> ok" | "assoc" "\<not> r < 0" "ok" by blast
    then show ?thesis
    proof cases
      case 1
      show ?thesis unfolding unfold using 1 by (simp add: give_up_result[OF c2])
    next
      case 2
      show ?thesis unfolding unfold using 2 by (simp add: give_up_result[OF c5])
    next
      case 3
      then have "connecting env cbq_inv s6" using c6 by simp
      show ?thesis unfolding unfold using 3 by (simp add: give_up_result[OF \<open>connecting env cbq_inv s6\<close>])
    next
      case 4
      show ?thesis unfolding unfold using 4 c6 by (simp add: connect_result_def conn_refs_def)
    qed
  qed
qed


text \<open>C26: connecting the demo client is all or nothing. When \<open>Connect\<close> succeeds, exactly one I/O of
  the new session (the connect) is outstanding and the connector tracks the session and keeps
  itself alive; when it fails, at whatever step and whatever Winsock answered, the socket is
  closed, the connector tracks nothing and holds no reference to itself, and the session, if
  there was one, has been told of its disconnect exactly once.\<close>

theorem connect_all_or_nothing:
  assumes "0 < rc" "0 < sc"
  shows "connect_result env (Connect env CircleBufferQueue_vtable FastPortOutboundSession_OnDisconnected inet_pton
    (client_factory sessions i rc sc) cid ip port (IOSocketConnector_ctor svc []))"
  by (rule Connect_result[OF assms])

theorem connect_all_or_nothing_witness:
  "connect_result (\<lambda>_ _. 0) (Connect (\<lambda>_ _. 0) CircleBufferQueue_vtable FastPortOutboundSession_OnDisconnected (\<lambda>_. None)
    (client_factory [] 1 4 4) 7 [] 6628 (IOSocketConnector_ctor None []))"
  by (rule connect_all_or_nothing) simp_all

text \<open>C21: whatever the demo client does after a successful \<open>Connect\<close> (the connect completes or
  fails, messages are sent, completions arrive, either side disconnects), its outstanding
  count is the number of accepted posts that have not completed, \<open>OnDisconnected\<close> is called at
  most once, and it has been called when a disconnect was requested and nothing is in flight.\<close>

theorem outbound_disconnect_once:
  assumes "0 < rc" "0 < sc"
    "Connect env CircleBufferQueue_vtable FastPortOutboundSession_OnDisconnected inet_pton
       (client_factory sessions i rc sc) cid ip port (IOSocketConnector_ctor svc []) = (True, k)"
    "k_Session k = Some (OutboundSess s)"
    "outbound_run env clock CircleBufferQueue_vtable (client_callbacks env CircleBufferQueue_vtable cd time0)
       (FastPortOutboundSession_OnConnected env CircleBufferQueue_vtable serReq time0) s s'"
  shows "s_OutstandingIoCount s' = in_flight env [] (s_Trace s') \<and> fire_count (s_Trace s') \<le> 1 \<and>
    (s_DisconnectRequested s' \<and> in_flight env [] (s_Trace s') = 0 \<longrightarrow> fire_count (s_Trace s') = 1)"
proof -
  have "session_inv env cbq_inv s"
    using Connect_result[OF assms(1,2), of env inet_pton sessions i cid ip port svc] assms(3,4)
    by (simp add: connect_result_def)
  from client_out.outbound_run_inv[OF assms(5) this] show ?thesis
    by (auto simp: session_inv_def notified_def fire_flag_def)
qed


text \<open>A client whose connect fails.\<close>

abbreviation demo_connect :: "bool \<times> CircleBufferQueue FastPortOutboundSession IOSocketConnector" where
  "demo_connect \<equiv> Connect (\<lambda>_ _. 0) CircleBufferQueue_vtable FastPortOutboundSession_OnDisconnected (\<lambda>_. None)
     (client_factory [] 1 4 4) 7 [] 6628 (IOSocketConnector_ctor None [])"

lemma demo_connect_ok:
  obtains k s where "demo_connect = (True, k)" "k_Session k = Some (OutboundSess s)" "s_OutstandingIoCount s = 1"
    "\<not> s_DisconnectRequested s"
proof -
  have "fst demo_connect"
    by (simp add: Connect_def ConnectEx_def IOSocketConnector_ctor_def Socket_CreateSocket_def Socket_Bind_def syscall_def
        client_factory_def connect_associate_def post_connect_def Let_def)
  then show ?thesis
    using Connect_result[of 4 4 "\<lambda>_ _. 0" "\<lambda>_. None" "[]" 1 7 "[]" 6628 None] that
    by (cases demo_connect) (auto simp: connect_result_def)
qed

lemma refused_connect:
  fixes env :: env and ops :: "'b IBuffer" and onConnected
  assumes "s_OutstandingIoCount s = 1" "\<not> s_DisconnectRequested s"
  defines "s' \<equiv> IoCompletionGuard_dtor ops FastPortOutboundSession_OnDisconnected
    (connect_completed env ops FastPortOutboundSession_OnDisconnected onConnected False s)"
  shows "s_DisconnectRequested s'" "s_OutstandingIoCount s' = 0"
  using assms
  by (simp_all add: IoCompletionGuard_dtor_def connect_completed_def RequestDisconnect0_def RequestDisconnect_def
      TryFireOnDisconnected_def client_disc_fields closed_socket_fields Let_def)

theorem outbound_disconnect_once_witness:
  "\<exists>k s s'. demo_connect = (True, k) \<and> k_Session k = Some (OutboundSess s) \<and>
     outbound_run (\<lambda>_ _. 0) (\<lambda>_. 0) CircleBufferQueue_vtable (client_callbacks (\<lambda>_ _. 0) CircleBufferQueue_vtable demo_codec (\<lambda>_. 0))
       (FastPortOutboundSession_OnConnected (\<lambda>_ _. 0) CircleBufferQueue_vtable (\<lambda>_. []) (\<lambda>_. 0)) s s' \<and>
     fire_count (s_Trace s') = 1"
proof -
  obtain k s where k: "demo_connect = (True, k)" "k_Session k = Some (OutboundSess s)" "s_OutstandingIoCount s = 1"
    "\<not> s_DisconnectRequested s" by (rule demo_connect_ok)
  let ?onC = "FastPortOutboundSession_OnConnected (\<lambda>_ _. 0) CircleBufferQueue_vtable (\<lambda>_. []) (\<lambda>_. 0)"
  let ?cb = "client_callbacks (\<lambda>_ _. 0) CircleBufferQueue_vtable demo_codec (\<lambda>_. 0)"
  define s' where "s' = IoCompletionGuard_dtor CircleBufferQueue_vtable FastPortOutboundSession_OnDisconnected
    (connect_completed (\<lambda>_ _. 0) CircleBufferQueue_vtable FastPortOutboundSession_OnDisconnected ?onC False s)"
  have run: "outbound_run (\<lambda>_ _. 0) (\<lambda>_. 0) CircleBufferQueue_vtable ?cb ?onC s s'"
    by (rule or_connected[OF or_start, where bSuccess = False and n = 0])
      (simp_all add: k(3) OutboundSession_OnIOCompleted_def client_callbacks_def s'_def)
  have "fire_count (s_Trace s') = 1"
    using outbound_disconnect_once[OF _ _ k(1,2) run] refused_connect[OF k(3,4)] by (auto simp: s'_def)
  then show ?thesis using k(1,2) run by blast
qed

end
