(* ===== verification/Rio_Service.thy ===== *)
theory Rio_Service
  imports Rio_Session "HOL-Library.Multiset"
begin

text \<open>
  \<open>RIOService\<close> (\<open>LibNetworksRIO/RIOService.cpp\<close>): the RIO completion queue and the threads that poll
  it. \<open>Initialize\<close>, \<open>Start\<close>, \<open>Stop\<close> and the destructor are functions on the object and the history
  of its calls. The threads run concurrently, so \<open>WorkerLoop\<close> is a state machine: a worker is at
  the head of its loop (\<open>WPolling\<close>), has read the flag as set and is on its way to the queue
  (\<open>WTested\<close>), is in the loop over the results it dequeued (\<open>WBatch\<close>), or has left (\<open>WDone\<close>);
  \<open>svc_step\<close> interleaves the actions of all workers with the kernel, which adds results to the
  queue, and with \<open>Stop\<close>, which clears the flag. The flag is read outside the lock, in a step of
  its own, so \<open>Stop\<close> may come between the test and the dequeue; dequeuing holds \<open>m_CQMutex\<close> and is
  one step. What a completion does to its session is the parameter \<open>deliver\<close>, the call of
  \<open>OnRioIOCompleted\<close> on the session the context points to. That call takes effect at one point
  here: the session guards its buffers with \<open>m_RecvMutex\<close> and \<open>m_SendQueueMutex\<close>, and the server
  starts one worker, for which the calls come one after the other anyway.
\<close>

record RIOService =
  rs_CQ :: "nat option"
  rs_WorkerThreads :: nat
  rs_bIsRunning :: bool

datatype rio_service_event =
    Rs_CreateCompletionQueue u32
  | Rs_CloseCompletionQueue nat
  | Rs_SpawnWorker
  | Rs_JoinWorker

definition RIOService_default :: RIOService where
  "RIOService_default = \<lparr>rs_CQ = None, rs_WorkerThreads = 0, rs_bIsRunning = False\<rparr>"

text \<open>\<open>cq\<close> is the answer of \<open>RIOCreateCompletionQueue\<close>, \<open>None\<close> for \<open>RIO_INVALID_CQ\<close>.\<close>

definition RIOService_Initialize ::
  "nat option \<Rightarrow> u32 \<Rightarrow> RIOService \<times> rio_service_event list \<Rightarrow> bool \<times> RIOService \<times> rio_service_event list" where
  "RIOService_Initialize cq maxCompletionResults st =
     (let (s, tr) = st in
      if rs_CQ s \<noteq> None then (True, s, tr)
      else
        let s1 = s\<lparr>rs_CQ := cq\<rparr>; tr1 = tr @ [Rs_CreateCompletionQueue maxCompletionResults]
        in if rs_CQ s1 = None then (False, s1, tr1) else (True, s1, tr1))"

definition RIOService_Start ::
  "nat \<Rightarrow> RIOService \<times> rio_service_event list \<Rightarrow> bool \<times> RIOService \<times> rio_service_event list" where
  "RIOService_Start threadCount st =
     (let (s, tr) = st; s1 = s\<lparr>rs_bIsRunning := True\<rparr> in
      if rs_bIsRunning s then (True, s1, tr)
      else (True, s1\<lparr>rs_WorkerThreads := rs_WorkerThreads s1 + threadCount\<rparr>, tr @ replicate threadCount Rs_SpawnWorker))"

definition RIOService_Stop :: "RIOService \<times> rio_service_event list \<Rightarrow> RIOService \<times> rio_service_event list" where
  "RIOService_Stop st =
     (let (s, tr) = st; s1 = s\<lparr>rs_bIsRunning := False\<rparr> in
      if \<not> rs_bIsRunning s then (s1, tr)
      else
        let tr1 = tr @ replicate (rs_WorkerThreads s1) Rs_JoinWorker; s2 = s1\<lparr>rs_WorkerThreads := 0\<rparr>
        in case rs_CQ s2 of
             None \<Rightarrow> (s2, tr1)
           | Some cq \<Rightarrow> (s2\<lparr>rs_CQ := None\<rparr>, tr1 @ [Rs_CloseCompletionQueue cq]))"

definition RIOService_dtor :: "RIOService \<times> rio_service_event list \<Rightarrow> RIOService \<times> rio_service_event list" where
  "RIOService_dtor st = RIOService_Stop st"

section \<open>The workers\<close>

record RIORESULT =
  rr_Status :: int
  rr_BytesTransferred :: nat
  rr_RequestContext :: "RioContext option"

definition RIOService_ProcessResult ::
  "(u64 \<Rightarrow> bool \<Rightarrow> nat \<Rightarrow> RioOperationType \<Rightarrow> 'w \<Rightarrow> 'w) \<Rightarrow> RIORESULT \<Rightarrow> 'w \<Rightarrow> 'w" where
  "RIOService_ProcessResult deliver result w =
     (case rr_RequestContext result of
        None \<Rightarrow> w
      | Some ctx \<Rightarrow>
          (case rc_pSession ctx of
             None \<Rightarrow> w
           | Some pSession \<Rightarrow>
               let bSuccess = (rr_Status result \<ge> 0)
               in deliver pSession bSuccess (rr_BytesTransferred result) (rc_OpType ctx) w))"

definition MAX_RESULTS :: nat where
  "MAX_RESULTS = 128"

datatype worker = WPolling | WTested | WBatch "RIORESULT list" | WDone

datatype dequeue_answer = Corrupt_CQ | Dequeued "RIORESULT list"

text \<open>The round of the loop from the answer of the dequeue to the loop over the results.\<close>

definition worker_poll :: "dequeue_answer \<Rightarrow> worker" where
  "worker_poll ans =
     (case ans of
        Corrupt_CQ \<Rightarrow> WDone
      | Dequeued [] \<Rightarrow> WPolling
      | Dequeued (r # rs) \<Rightarrow> WBatch (r # rs))"

text \<open>The state: the flag, the queue, the workers and what they act on. \<open>sv_Arrived\<close> and
  \<open>sv_Done\<close> are the results the kernel has queued and those that were processed, in order.\<close>

record 'w service_state =
  sv_Running :: bool
  sv_Queue :: "RIORESULT list"
  sv_Workers :: "worker list"
  sv_World :: 'w
  sv_Arrived :: "RIORESULT list"
  sv_Done :: "RIORESULT list"

inductive worker_step ::
  "(u64 \<Rightarrow> bool \<Rightarrow> nat \<Rightarrow> RioOperationType \<Rightarrow> 'w \<Rightarrow> 'w) \<Rightarrow> 'w service_state \<Rightarrow> 'w service_state \<Rightarrow> bool" for deliver where
  w_test: "i < length (sv_Workers s) \<Longrightarrow> sv_Workers s ! i = WPolling \<Longrightarrow> sv_Running s \<Longrightarrow>
    worker_step deliver s (s\<lparr>sv_Workers := (sv_Workers s)[i := WTested]\<rparr>)"
| w_leave: "i < length (sv_Workers s) \<Longrightarrow> sv_Workers s ! i = WPolling \<Longrightarrow> \<not> sv_Running s \<Longrightarrow>
    worker_step deliver s (s\<lparr>sv_Workers := (sv_Workers s)[i := WDone]\<rparr>)"
| w_corrupt: "i < length (sv_Workers s) \<Longrightarrow> sv_Workers s ! i = WTested \<Longrightarrow>
    worker_step deliver s (s\<lparr>sv_Workers := (sv_Workers s)[i := worker_poll Corrupt_CQ]\<rparr>)"
| w_dequeue: "i < length (sv_Workers s) \<Longrightarrow> sv_Workers s ! i = WTested \<Longrightarrow> n \<le> MAX_RESULTS \<Longrightarrow>
    worker_step deliver s (s\<lparr>sv_Workers := (sv_Workers s)[i := worker_poll (Dequeued (take n (sv_Queue s)))],
                             sv_Queue := drop n (sv_Queue s)\<rparr>)"
| w_process: "i < length (sv_Workers s) \<Longrightarrow> sv_Workers s ! i = WBatch (r # rs) \<Longrightarrow>
    worker_step deliver s (s\<lparr>sv_Workers := (sv_Workers s)[i := (if rs = [] then WPolling else WBatch rs)],
                             sv_World := RIOService_ProcessResult deliver r (sv_World s),
                             sv_Done := sv_Done s @ [r]\<rparr>)"

inductive svc_step ::
  "(u64 \<Rightarrow> bool \<Rightarrow> nat \<Rightarrow> RioOperationType \<Rightarrow> 'w \<Rightarrow> 'w) \<Rightarrow> 'w service_state \<Rightarrow> 'w service_state \<Rightarrow> bool" for deliver where
  svc_worker: "worker_step deliver s s' \<Longrightarrow> svc_step deliver s s'"
| svc_arrive: "svc_step deliver s (s\<lparr>sv_Queue := sv_Queue s @ [r], sv_Arrived := sv_Arrived s @ [r]\<rparr>)"
| svc_stop: "svc_step deliver s (s\<lparr>sv_Running := False\<rparr>)"

definition service_start :: "nat \<Rightarrow> 'w \<Rightarrow> 'w service_state" where
  "service_start threadCount w =
     \<lparr>sv_Running = True, sv_Queue = [], sv_Workers = replicate threadCount WPolling, sv_World = w,
      sv_Arrived = [], sv_Done = []\<rparr>"

section \<open>Every result is processed at most once, and none is lost\<close>

fun batch_of :: "worker \<Rightarrow> RIORESULT list" where
  "batch_of (WBatch rs) = rs"
| "batch_of _ = []"

lemma batch_of_poll [simp]:
  "batch_of (worker_poll Corrupt_CQ) = []" "batch_of (worker_poll (Dequeued rs)) = rs"
  by (cases rs; simp add: worker_poll_def)+

definition batches :: "worker list \<Rightarrow> RIORESULT multiset" where
  "batches ws = (\<Sum>w\<leftarrow>ws. mset (batch_of w))"

lemma batches_simps [simp]:
  "batches [] = {#}" "batches (w # ws) = mset (batch_of w) + batches ws" "batches (replicate n WPolling) = {#}"
  by (induction n) (simp_all add: batches_def)

lemma batches_update:
  "i < length ws \<Longrightarrow> batches (ws[i := w]) + mset (batch_of (ws ! i)) = batches ws + mset (batch_of w)"
proof (induction ws arbitrary: i)
  case (Cons a ws)
  then show ?case by (cases i) (simp_all add: ac_simps)
qed simp

definition accounted :: "(u64 \<Rightarrow> bool \<Rightarrow> nat \<Rightarrow> RioOperationType \<Rightarrow> 'w \<Rightarrow> 'w) \<Rightarrow> 'w \<Rightarrow> 'w service_state \<Rightarrow> bool" where
  "accounted deliver w s \<longleftrightarrow>
     mset (sv_Done s) + batches (sv_Workers s) + mset (sv_Queue s) = mset (sv_Arrived s) \<and>
     sv_World s = fold (RIOService_ProcessResult deliver) (sv_Done s) w"

lemma worker_step_accounted:
  assumes "worker_step deliver s s'" "accounted deliver w s"
  shows "accounted deliver w s'"
  using assms
proof (induction rule: worker_step.induct)
  case (w_test i s)
  then show ?case using batches_update[OF w_test(1), of WTested] by (simp add: accounted_def)
next
  case (w_leave i s)
  then show ?case using batches_update[OF w_leave(1), of WDone] by (simp add: accounted_def)
next
  case (w_corrupt i s)
  then show ?case using batches_update[OF w_corrupt(1), of "worker_poll Corrupt_CQ"] by (simp add: accounted_def)
next
  case (w_dequeue i s n)
  have "mset (sv_Queue s) = mset (take n (sv_Queue s)) + mset (drop n (sv_Queue s))"
    by (metis append_take_drop_id mset_append)
  then show ?case
    using w_dequeue batches_update[OF w_dequeue(1), of "worker_poll (Dequeued (take n (sv_Queue s)))"]
    by (simp add: accounted_def ac_simps)
next
  case (w_process i s r rs)
  define w' where "w' = (if rs = [] then WPolling else WBatch rs)"
  have "batch_of w' = rs" by (simp add: w'_def)
  then show ?case
    using w_process batches_update[OF w_process(1), of w'] by (auto simp: accounted_def simp flip: w'_def) (metis union_mset_add_mset_left union_mset_add_mset_right)
qed

lemma svc_accounted:
  assumes "(svc_step deliver)\<^sup>*\<^sup>* (service_start threadCount w) s"
  shows "accounted deliver w s"
  using assms
proof (induction rule: rtranclp_induct)
  case base
  then show ?case by (simp add: accounted_def service_start_def)
next
  case (step s s')
  from step(2,3) show ?case
    by (induction rule: svc_step.induct) (auto simp: worker_step_accounted, auto simp: accounted_def)
qed

text \<open>With one worker, results are also processed in the order in which they arrived.\<close>

definition in_order :: "'w service_state \<Rightarrow> bool" where
  "in_order s \<longleftrightarrow> (\<exists>x. sv_Workers s = [x] \<and> sv_Done s @ batch_of x @ sv_Queue s = sv_Arrived s)"

lemma svc_in_order:
  assumes "(svc_step deliver)\<^sup>*\<^sup>* (service_start 1 w) s"
  shows "in_order s"
  using assms
proof (induction rule: rtranclp_induct)
  case base
  then show ?case by (simp add: in_order_def service_start_def)
next
  case (step s s')
  from step(2,3) show ?case
  proof (induction rule: svc_step.induct)
    case (svc_worker s s')
    then show ?case by (induction rule: worker_step.induct) (auto simp: in_order_def)
  qed (auto simp: in_order_def)
qed

text \<open>A concrete run, for the witnesses: a completion arrives, the worker reads the flag, \<open>Stop\<close>
  clears it, and only then the worker goes to the queue, where it still takes the completion.\<close>

abbreviation demo_result :: RIORESULT where
  "demo_result \<equiv> \<lparr>rr_Status = 0, rr_BytesTransferred = 3, rr_RequestContext = Some \<lparr>rc_OpType = Receive, rc_pSession = Some 9\<rparr>\<rparr>"

abbreviation demo_deliver :: "u64 \<Rightarrow> bool \<Rightarrow> nat \<Rightarrow> RioOperationType \<Rightarrow> u64 list \<Rightarrow> u64 list" where
  "demo_deliver \<equiv> \<lambda>p ok n op w. w @ [p]"

abbreviation demo_stopped :: "u64 list service_state" where
  "demo_stopped \<equiv> \<lparr>sv_Running = False, sv_Queue = [demo_result], sv_Workers = [WTested], sv_World = [],
     sv_Arrived = [demo_result], sv_Done = []\<rparr>"

abbreviation demo_held :: "u64 list service_state" where
  "demo_held \<equiv> \<lparr>sv_Running = False, sv_Queue = [], sv_Workers = [WBatch [demo_result]], sv_World = [],
     sv_Arrived = [demo_result], sv_Done = []\<rparr>"

abbreviation demo_processed :: "u64 list service_state" where
  "demo_processed \<equiv> \<lparr>sv_Running = False, sv_Queue = [], sv_Workers = [WPolling], sv_World = [9],
     sv_Arrived = [demo_result], sv_Done = [demo_result]\<rparr>"

lemma demo_worker_steps:
  "worker_step demo_deliver demo_stopped demo_held"
  "worker_step demo_deliver demo_held demo_processed"
  using w_dequeue[of 0 demo_stopped 1 demo_deliver] w_process[of 0 demo_held demo_result "[]" demo_deliver]
  by (simp_all add: MAX_RESULTS_def worker_poll_def RIOService_ProcessResult_def)

lemma demo_steps:
  "(svc_step demo_deliver)\<^sup>*\<^sup>* (service_start 1 []) demo_stopped"
  "(svc_step demo_deliver)\<^sup>*\<^sup>* (service_start 1 []) demo_held"
  "(svc_step demo_deliver)\<^sup>*\<^sup>* (service_start 1 []) demo_processed"
proof -
  let ?s0 = "service_start 1 [] :: u64 list service_state"
  let ?s1 = "?s0\<lparr>sv_Queue := [demo_result], sv_Arrived := [demo_result]\<rparr>"
  let ?s2 = "?s1\<lparr>sv_Workers := [WTested]\<rparr>"
  have 1: "svc_step demo_deliver ?s0 ?s1" using svc_arrive[of demo_deliver ?s0 demo_result] by (simp add: service_start_def)
  have 2: "svc_step demo_deliver ?s1 ?s2"
    using svc_worker[OF w_test[of 0 ?s1 demo_deliver]] by (simp add: service_start_def)
  have 3: "svc_step demo_deliver ?s2 demo_stopped" using svc_stop[of demo_deliver ?s2] by (simp add: service_start_def)
  show stopped: "(svc_step demo_deliver)\<^sup>*\<^sup>* (service_start 1 []) demo_stopped"
    using 1 2 3 by (meson rtranclp.rtrancl_into_rtrancl rtranclp.rtrancl_refl)
  show held: "(svc_step demo_deliver)\<^sup>*\<^sup>* (service_start 1 []) demo_held"
    using stopped svc_worker[OF demo_worker_steps(1)] by (rule rtranclp.rtrancl_into_rtrancl)
  show "(svc_step demo_deliver)\<^sup>*\<^sup>* (service_start 1 []) demo_processed"
    using held svc_worker[OF demo_worker_steps(2)] by (rule rtranclp.rtrancl_into_rtrancl)
qed

text \<open>C23: whatever the number of workers and however they interleave, every completion that
  reached the queue is processed at most once and is otherwise still queued or in the hands
  of one worker, and the sessions are in the state that processing the completions one after
  the other gives. When every worker has left, nothing is in hand: what was not processed is
  still in the queue.\<close>

theorem rio_results_exactly_once:
  assumes "(svc_step deliver)\<^sup>*\<^sup>* (service_start threadCount w) s"
  shows "mset (sv_Done s) + batches (sv_Workers s) + mset (sv_Queue s) = mset (sv_Arrived s) \<and>
    sv_World s = fold (RIOService_ProcessResult deliver) (sv_Done s) w \<and>
    (list_all ((=) WDone) (sv_Workers s) \<longrightarrow> mset (sv_Done s) + mset (sv_Queue s) = mset (sv_Arrived s))"
proof -
  have "list_all ((=) WDone) ws \<Longrightarrow> batches ws = {#}" for ws by (induction ws) auto
  then show ?thesis using svc_accounted[OF assms] by (auto simp: accounted_def)
qed

theorem rio_results_exactly_once_witness:
  "mset (sv_Done demo_held) + batches (sv_Workers demo_held) + mset (sv_Queue demo_held) = mset [demo_result]"
  using rio_results_exactly_once[OF demo_steps(2)] by simp

text \<open>The server starts one worker; then completions are processed in the order in which the
  kernel reported them.\<close>

theorem rio_single_worker_in_order:
  assumes "(svc_step deliver)\<^sup>*\<^sup>* (service_start 1 w) s"
  shows "\<exists>rest. sv_Arrived s = sv_Done s @ rest \<and> sv_World s = fold (RIOService_ProcessResult deliver) (sv_Done s) w"
  using svc_in_order[OF assms] svc_accounted[OF assms] unfolding in_order_def accounted_def by metis

theorem rio_single_worker_in_order_witness:
  "\<exists>rest. [demo_result] = sv_Done demo_processed @ rest \<and> sv_World demo_processed = [9]"
  using rio_single_worker_in_order[OF demo_steps(3)] by simp

section \<open>Stopping\<close>

text \<open>What a worker can still do once the flag is cleared: one that had read the flag before
  takes one more answer of at most \<open>MAX_RESULTS\<close> results, processes it and leaves.\<close>

fun worker_work :: "worker \<Rightarrow> nat" where
  "worker_work WPolling = 1"
| "worker_work WTested = MAX_RESULTS + 2"
| "worker_work (WBatch rs) = length rs + 1"
| "worker_work WDone = 0"

definition work :: "'w service_state \<Rightarrow> nat" where
  "work s = (\<Sum>w\<leftarrow>sv_Workers s. worker_work w)"

lemma worker_work_poll:
  "length rs \<le> MAX_RESULTS \<Longrightarrow> worker_work (worker_poll (Dequeued rs)) < worker_work WTested"
  "worker_work (worker_poll Corrupt_CQ) = 0"
  by (cases rs; simp add: worker_poll_def)+

lemma work_update: "i < length ws \<Longrightarrow>
  (\<Sum>w\<leftarrow>ws[i := w']. worker_work w) + worker_work (ws ! i) = (\<Sum>w\<leftarrow>ws. worker_work w) + worker_work w'"
proof (induction ws arbitrary: i)
  case (Cons a ws)
  then show ?case by (cases i) simp_all
qed simp

lemma work_replaced:
  assumes "i < length (sv_Workers s)" "worker_work w' < worker_work (sv_Workers s ! i)" "sv_Workers s' = (sv_Workers s)[i := w']"
  shows "work s' < work s"
  using work_update[OF assms(1), of w'] assms(2,3) by (simp add: work_def)

lemma worker_step_work:
  assumes "worker_step deliver s s'" "\<not> sv_Running s"
  shows "work s' < work s"
  using assms
proof (induction rule: worker_step.induct)
  case (w_leave i s)
  then show ?case by (intro work_replaced[of i _ WDone]) simp_all
next
  case (w_corrupt i s)
  then show ?case by (intro work_replaced[of i _ "worker_poll Corrupt_CQ"]) (simp_all add: worker_work_poll)
next
  case (w_dequeue i s n)
  then show ?case
    using worker_work_poll(1)[of "take n (sv_Queue s)"]
    by (intro work_replaced[of i _ "worker_poll (Dequeued (take n (sv_Queue s)))"]) simp_all
next
  case (w_process i s r rs)
  then show ?case by (intro work_replaced[of i _ "if rs = [] then WPolling else WBatch rs"]) simp_all
qed simp

lemma worker_step_running: "worker_step deliver s s' \<Longrightarrow> sv_Running s' = sv_Running s"
  by (induction rule: worker_step.induct) simp_all

text \<open>A run of the stopping service: \<open>n\<close> steps of its workers, in any order, while the kernel may go
  on adding completions to the queue.\<close>

inductive stop_run ::
  "(u64 \<Rightarrow> bool \<Rightarrow> nat \<Rightarrow> RioOperationType \<Rightarrow> 'w \<Rightarrow> 'w) \<Rightarrow> 'w service_state \<Rightarrow> nat \<Rightarrow> 'w service_state \<Rightarrow> bool"
  for deliver s where
  run_nil: "stop_run deliver s 0 s"
| run_arrive: "stop_run deliver s n t \<Longrightarrow>
    stop_run deliver s n (t\<lparr>sv_Queue := sv_Queue t @ [r], sv_Arrived := sv_Arrived t @ [r]\<rparr>)"
| run_worker: "stop_run deliver s n t \<Longrightarrow> worker_step deliver t u \<Longrightarrow> stop_run deliver s (Suc n) u"

lemma stop_run_bounded:
  "stop_run deliver s n s' \<Longrightarrow> \<not> sv_Running s \<Longrightarrow> n + work s' \<le> work s \<and> \<not> sv_Running s'"
proof (induction rule: stop_run.induct)
  case (run_worker n t u)
  then show ?case using worker_step_work[of deliver t u] worker_step_running[of deliver t u] by simp
qed (simp_all add: work_def)

lemma stop_run_reachable:
  assumes "(svc_step deliver)\<^sup>*\<^sup>* s0 s" "stop_run deliver s n s'"
  shows "(svc_step deliver)\<^sup>*\<^sup>* s0 s'"
  using assms(2)
proof (induction rule: stop_run.induct)
  case (run_arrive n t r)
  show ?case by (rule rtranclp.rtrancl_into_rtrancl[OF run_arrive.IH svc_arrive])
next
  case (run_worker n t u)
  show ?case by (rule rtranclp.rtrancl_into_rtrancl[OF run_worker.IH svc_worker[OF run_worker.hyps(2)]])
qed (fact assms(1))

text \<open>The workers of a reachable state: as many as were started, none with an empty batch (it goes
  back to polling instead) and none with more than one answer of the queue.\<close>

definition worker_ok :: "worker \<Rightarrow> bool" where
  "worker_ok w \<longleftrightarrow> w \<noteq> WBatch [] \<and> worker_work w \<le> MAX_RESULTS + 2"

definition workers_ok :: "nat \<Rightarrow> 'w service_state \<Rightarrow> bool" where
  "workers_ok k s \<longleftrightarrow> length (sv_Workers s) = k \<and> (\<forall>w\<in>set (sv_Workers s). worker_ok w)"

lemma worker_ok_simps [simp]: "worker_ok WPolling" "worker_ok WTested" "worker_ok WDone" "worker_ok (worker_poll Corrupt_CQ)"
  by (simp_all add: worker_ok_def MAX_RESULTS_def worker_poll_def)

lemma worker_ok_poll: "length rs \<le> MAX_RESULTS \<Longrightarrow> worker_ok (worker_poll (Dequeued rs))"
  by (cases rs) (simp_all add: worker_ok_def worker_poll_def MAX_RESULTS_def)

lemma worker_ok_next: "worker_ok (WBatch (r # rs)) \<Longrightarrow> worker_ok (if rs = [] then WPolling else WBatch rs)"
  by (simp add: worker_ok_def MAX_RESULTS_def)

lemma workers_ok_update:
  assumes "workers_ok k s" "worker_ok w'" "sv_Workers s' = (sv_Workers s)[i := w']"
  shows "workers_ok k s'"
proof -
  have "worker_ok x" if "x \<in> set (sv_Workers s')" for x
    using that set_update_subset_insert[of "sv_Workers s" i w'] assms(1,2)
    unfolding assms(3) workers_ok_def by blast
  then show ?thesis using assms(1) by (simp add: workers_ok_def assms(3))
qed

lemma workers_ok_step:
  assumes "worker_step deliver s s'" "workers_ok k s"
  shows "workers_ok k s'"
  using assms
proof (induction rule: worker_step.induct)
  case (w_test i s)
  then show ?case by - (rule workers_ok_update[of k s WTested _ i]; simp)
next
  case (w_leave i s)
  then show ?case by - (rule workers_ok_update[of k s WDone _ i]; simp)
next
  case (w_corrupt i s)
  then show ?case by - (rule workers_ok_update[of k s "worker_poll Corrupt_CQ" _ i]; simp)
next
  case (w_dequeue i s n)
  then show ?case
    by - (rule workers_ok_update[of k s "worker_poll (Dequeued (take n (sv_Queue s)))" _ i]; simp add: worker_ok_poll)
next
  case (w_process i s r rs)
  then have "worker_ok (WBatch (r # rs))" by (metis nth_mem workers_ok_def)
  then show ?case
    using w_process by - (rule workers_ok_update[of k s "if rs = [] then WPolling else WBatch rs" _ i]; simp add: worker_ok_next)
qed

lemma workers_ok_reach:
  "(svc_step deliver)\<^sup>*\<^sup>* (service_start k w) s \<Longrightarrow> workers_ok k s"
proof (induction rule: rtranclp_induct)
  case (step s s')
  from step(2,3) show ?case
    by (induction rule: svc_step.induct) (auto simp: workers_ok_step, auto simp: workers_ok_def)
qed (simp add: workers_ok_def service_start_def)

lemma work_bounded: "workers_ok k s \<Longrightarrow> work s \<le> k * (MAX_RESULTS + 2)"
  using sum_list_mono[of "sv_Workers s" worker_work "\<lambda>_. MAX_RESULTS + 2"]
  by (auto simp: work_def workers_ok_def worker_ok_def sum_list_triv)

lemma worker_progress:
  assumes "workers_ok k s" "\<not> sv_Running s" "\<not> list_all ((=) WDone) (sv_Workers s)"
  shows "\<exists>s'. worker_step deliver s s'"
proof -
  obtain i where i: "i < length (sv_Workers s)" "sv_Workers s ! i \<noteq> WDone"
    using assms(3) by (auto simp: list_all_length)
  show ?thesis
  proof (cases "sv_Workers s ! i")
    case WPolling
    then show ?thesis using w_leave[OF i(1)] assms(2) by blast
  next
    case WTested
    then show ?thesis using w_dequeue[OF i(1), of 0] by (auto simp: MAX_RESULTS_def)
  next
    case (WBatch rs)
    then have "rs \<noteq> []" using assms(1) nth_mem[OF i(1)] by (auto simp: workers_ok_def worker_ok_def)
    then show ?thesis using w_process[OF i(1)] WBatch by (metis neq_Nil_conv)
  qed (use i in simp)
qed

text \<open>C33: \<open>Stop\<close> ends. Once it has cleared the flag, a worker that had already read it as set may take
  one more answer of at most 128 results from the queue, and a worker with an answer in hand
  processes it; so with \<open>threadCount\<close> workers at most \<open>threadCount * 130\<close> further steps are taken,
  whatever the kernel still adds to the queue, and as long as a worker has not left its loop
  some worker can take a step: the \<open>join\<close> of every thread returns.\<close>

theorem rio_stop_terminates:
  assumes "(svc_step deliver)\<^sup>*\<^sup>* (service_start threadCount w) s" "\<not> sv_Running s" "stop_run deliver s n s'"
  shows "n \<le> work s \<and> work s \<le> threadCount * (MAX_RESULTS + 2) \<and>
    (list_all ((=) WDone) (sv_Workers s') \<or> (\<exists>s''. worker_step deliver s' s''))"
proof -
  have "workers_ok threadCount s'"
    using stop_run_reachable[OF assms(1,3)] by (rule workers_ok_reach)
  then show ?thesis
    using stop_run_bounded[OF assms(3,2)] worker_progress[of threadCount s' deliver] work_bounded[OF workers_ok_reach[OF assms(1)]]
    by auto
qed

theorem rio_stop_terminates_witness:
  "2 \<le> work demo_stopped \<and> work demo_stopped \<le> 1 * (MAX_RESULTS + 2) \<and>
   (list_all ((=) WDone) (sv_Workers demo_processed) \<or> (\<exists>s''. worker_step demo_deliver demo_processed s''))"
proof (rule rio_stop_terminates[OF demo_steps(1)])
  show "stop_run demo_deliver demo_stopped 2 demo_processed"
    using run_worker[OF run_worker[OF run_nil demo_worker_steps(1)] demo_worker_steps(2)] by (simp add: eval_nat_numeral)
qed simp

end
