(* ===== verification/Periodic_Jobs.thy ===== *)
theory Periodic_Jobs
  imports Idle_Checker Server_Stats
begin

text \<open>
  What \<open>SessionIdleChecker\<close> and \<open>StatsSampler\<close> have in common: an object that registers one
  periodic timer when it is started and cancels it when it is stopped. The locale states it, its
  lemmas say what starting and stopping do to the ids registered with the timer queue, and the
  interpretations show it for both classes.
\<close>

definition timer_ids :: "TimerQueue \<Rightarrow> TimerId set" where
  "timer_ids q = fst ` set (tq_Entries q)"

lemma timer_ids_schedule:
  assumes "tq_inv q" "SchedulePeriodic tpOk interval task name q = (tid, q')"
  shows "tq_inv q'" "timer_ids q' \<subseteq> insert tid (timer_ids q)" "tid = kInvalidTimerId \<Longrightarrow> timer_ids q' = timer_ids q"
proof -
  show "tq_inv q'" using Schedule_inv(1)[OF assms(1)] assms(2) by (metis SchedulePeriodic_def snd_conv)
  obtain i q1 where a: "AllocateId q = (i, q1)" by (cases "AllocateId q")
  note f = AllocateId_fields[OF a]
  show "timer_ids q' \<subseteq> insert tid (timer_ids q)" "tid = kInvalidTimerId \<Longrightarrow> timer_ids q' = timer_ids q"
    using assms(2) f
    by (auto simp: SchedulePeriodic_def ScheduleImpl_def a Let_def timer_ids_def split: if_splits)
qed

lemma timer_ids_cancel:
  assumes "tq_inv q"
  shows "tq_inv (snd (TimerQueue_Cancel tid q))" "timer_ids (snd (TimerQueue_Cancel tid q)) = timer_ids q - {tid}"
proof -
  show "tq_inv (snd (TimerQueue_Cancel tid q))" using Cancel_inv(1)[OF assms] by (simp add: TimerQueue_Cancel_def)
  show "timer_ids (snd (TimerQueue_Cancel tid q)) = timer_ids q - {tid}"
  proof (cases "map_of (tq_Entries q) tid")
    case None
    then show ?thesis by (simp add: TimerQueue_Cancel_def Cancel_unlisted timer_ids_def map_of_eq_None_iff)
  next
    case (Some p)
    then show ?thesis using Cancel_listed(2)[OF assms Some] by (force simp: TimerQueue_Cancel_def timer_ids_def)
  qed
qed

lemma invalid_not_listed: "tq_inv q \<Longrightarrow> kInvalidTimerId \<notin> timer_ids q"
  by (auto simp: tq_inv_def map_ok_def list_all_iff listed_ok_def timer_ids_def)

locale periodic_job =
  fixes start :: "(tp_event list \<Rightarrow> bool) \<Rightarrow> 'j \<Rightarrow> TimerQueue \<Rightarrow> 'j \<times> TimerQueue"
    and stop :: "'j \<Rightarrow> TimerQueue \<Rightarrow> 'j \<times> TimerQueue"
    and active :: "'j \<Rightarrow> bool"
    and timer :: "'j \<Rightarrow> TimerId"
    and enabled :: "'j \<Rightarrow> bool"
  assumes start_schedules: "enabled j \<Longrightarrow> \<not> active j \<Longrightarrow> \<exists>interval task name.
      SchedulePeriodic tpOk interval task name q = (timer (fst (start tpOk j q)), snd (start tpOk j q)) \<and>
      active (fst (start tpOk j q))"
    and start_again: "\<not> enabled j \<or> active j \<Longrightarrow> start tpOk j q = (j, q)"
    and stop_cancels: "active j \<Longrightarrow> timer j \<noteq> kInvalidTimerId \<Longrightarrow> snd (stop j q) = snd (TimerQueue_Cancel (timer j) q)"
    and stop_nothing: "\<not> active j \<or> timer j = kInvalidTimerId \<Longrightarrow> snd (stop j q) = q"
    and stop_inactive: "\<not> active (fst (stop j q))"
begin

lemma start_ids:
  assumes "tq_inv q" "\<not> active j"
  shows "tq_inv (snd (start tpOk j q))"
    "timer_ids (snd (start tpOk j q)) \<subseteq> insert (timer (fst (start tpOk j q))) (timer_ids q)"
    "active (fst (start tpOk j q)) = enabled j"
    "\<not> enabled j \<Longrightarrow> timer_ids (snd (start tpOk j q)) = timer_ids q"
proof -
  show "tq_inv (snd (start tpOk j q))"
    "timer_ids (snd (start tpOk j q)) \<subseteq> insert (timer (fst (start tpOk j q))) (timer_ids q)"
    "active (fst (start tpOk j q)) = enabled j"
    "\<not> enabled j \<Longrightarrow> timer_ids (snd (start tpOk j q)) = timer_ids q"
    using start_schedules[of j tpOk q] start_again[of j tpOk q] assms timer_ids_schedule[OF assms(1)]
    by (cases "enabled j"; auto dest: timer_ids_schedule[OF assms(1)])+
qed

lemma stop_ids:
  assumes "tq_inv q" "active j"
  shows "tq_inv (snd (stop j q))" "timer_ids (snd (stop j q)) = timer_ids q - {timer j}"
proof -
  show "tq_inv (snd (stop j q))"
    using stop_cancels[of j q] stop_nothing[of j q] timer_ids_cancel(1)[OF assms(1)] assms by (cases "timer j = kInvalidTimerId") auto
  show "timer_ids (snd (stop j q)) = timer_ids q - {timer j}"
    using stop_cancels[of j q] stop_nothing[of j q] timer_ids_cancel(2)[OF assms(1)] invalid_not_listed[OF assms(1)] assms
    by (cases "timer j = kInvalidTimerId") auto
qed

end

lemmas job_defs = SessionIdleChecker_Start_def SessionIdleChecker_Stop_def StatsSampler_Start_def StatsSampler_Stop_def

interpretation idle_job: periodic_job "\<lambda>tpOk. SessionIdleChecker_Start tpOk task" SessionIdleChecker_Stop ic_Running ic_TimerId
  "\<lambda>c. cfg_enabled (ic_Config c)" for task
  by unfold_locales (auto simp: job_defs Let_def split_beta)

text \<open>For the sampler: sampling does not touch the timer or the configuration.\<close>

lemma DoSample_keeps:
  "sp_Running (DoSample p n w s) = sp_Running s" "sp_Config (DoSample p n w s) = sp_Config s" "sp_TimerId (DoSample p n w s) = sp_TimerId s"
  by (auto simp: DoSample_def Let_def split: option.splits prod.splits)

interpretation sampler_job: periodic_job "\<lambda>tpOk. StatsSampler_Start tpOk task (DoSample procTimes sysNow workingSet)" StatsSampler_Stop sp_Running sp_TimerId
  "\<lambda>s. sc_enabled (sp_Config s)" for task procTimes sysNow workingSet
  by unfold_locales (auto simp: job_defs Let_def split_beta DoSample_keeps)

end
