(* ===== verification/Service_Installer.thy ===== *)
theory Service_Installer
  imports FP_Prelude
begin

text \<open>
  \<open>ServiceMode::Installer\<close> (\<open>LibCommons/ServiceMode.cpp\<close>): registering, stopping and removing the
  Windows service. Every call of the service control manager (SCM), of the clock and of \<open>Sleep\<close>
  is an event of a trace; the environment answers it from the history. An answer is a record
  of which each call reads the fields it returns; a value of 0 is a null handle or \<open>FALSE\<close>.

  The polling loops of \<open>Stop\<close> and \<open>UnInstall\<close> depend on the SCM and on the clock only, and get
  fuel: \<open>None\<close> means that they have not ended within it. Log output is left out; the \<open>assert\<close>s
  are those of a debug build and are not modelled.
\<close>

datatype SERVICE_STATE =
    SERVICE_STOPPED
  | SERVICE_START_PENDING
  | SERVICE_STOP_PENDING
  | SERVICE_RUNNING
  | SERVICE_CONTINUE_PENDING
  | SERVICE_PAUSE_PENDING
  | SERVICE_PAUSED

datatype start_type = SERVICE_AUTO_START | SERVICE_DEMAND_START

datatype event_type = EVENTLOG_ERROR_TYPE | EVENTLOG_INFORMATION_TYPE

record SERVICE_STATUS =
  dwCurrentState :: SERVICE_STATE
  dwControlsAccepted :: u32
  dwWin32ExitCode :: u32
  dwServiceSpecificExitCode :: u32
  dwCheckPoint :: u32
  dwWaitHint :: u32

datatype scm_event =
    Scm_OpenSCManager
  | Scm_OpenService nat string
  | Scm_GetModuleFileName
  | Scm_CreateService nat string string start_type string
  | Scm_CloseServiceHandle nat
  | Scm_QueryServiceStatus nat
  | Scm_QueryServiceConfig nat nat
  | Scm_ControlStop nat
  | Scm_DeleteService nat
  | Scm_Sleep nat
  | Scm_GetTickCount64
  | Scm_GetLastError
  | Scm_RegisterEventSource string
  | Scm_ReportEvent event_type string string
  | Scm_DeregisterEventSource
  | Scm_RegisterServiceCtrlHandler string
  | Scm_StartServiceCtrlDispatcher string
  | Scm_SetServiceStatus SERVICE_STATUS
  | Scm_PrintHelp

record scm_answer =
  sa_Value :: nat
  sa_State :: SERVICE_STATE
  sa_WaitHint :: nat
  sa_Error :: u32
  sa_Tick :: u64
  sa_Text :: string
  sa_Needed :: nat

type_synonym scm_trace = "scm_event list"
type_synonym scm_env = "scm_trace \<Rightarrow> scm_event \<Rightarrow> scm_answer"

definition scm :: "scm_env \<Rightarrow> scm_event \<Rightarrow> scm_trace \<Rightarrow> scm_answer \<times> scm_trace" where
  "scm env e tr = (env tr e, tr @ [e])"

definition close_both :: "nat \<Rightarrow> nat \<Rightarrow> scm_trace \<Rightarrow> scm_trace" where
  "close_both hManager hService tr = tr @ [Scm_CloseServiceHandle hManager, Scm_CloseServiceHandle hService]"

text \<open>The start type, dependencies, account and password that are passed in are not used.\<close>

definition Installer_Install ::
  "scm_env \<Rightarrow> string \<Rightarrow> string \<Rightarrow> start_type \<Rightarrow> string \<Rightarrow> string \<Rightarrow> string \<Rightarrow> scm_trace \<Rightarrow> bool \<times> scm_trace" where
  "Installer_Install env ServiceName DisplayName dwStartType Dependencies Account password tr =
     (let (m, t1) = scm env Scm_OpenSCManager tr; hManager = sa_Value m in
      if hManager = 0 then (False, t1)
      else
        let (f, t2) = scm env Scm_GetModuleFileName t1;
            (h, t3) = scm env (Scm_CreateService hManager ServiceName DisplayName SERVICE_AUTO_START (sa_Text f)) t2;
            hService = sa_Value h
        in if hService = 0 then (False, t3 @ [Scm_CloseServiceHandle hManager])
           else (True, close_both hManager hService t3))"

section \<open>Stop\<close>

definition stop_timeout :: u64 where
  "stop_timeout = 30000"

definition pending_wait :: "nat \<Rightarrow> nat" where
  "pending_wait hint =
     (let dwWaitTime = hint div 10 in
      if dwWaitTime < 1000 then 1000 else if dwWaitTime > 10000 then 10000 else dwWaitTime)"

text \<open>The first loop: \<open>Inl b\<close> is a \<open>return b\<close> from inside it, \<open>Inr ()\<close> that the service is not
  (or no longer) stopping by itself.\<close>

fun stop_pending ::
  "nat \<Rightarrow> scm_env \<Rightarrow> nat \<Rightarrow> nat \<Rightarrow> u64 \<Rightarrow> bool \<Rightarrow> scm_trace \<Rightarrow> ((bool + unit) \<times> scm_trace) option" where
  "stop_pending 0 env hManager hService dwStartTime bPending tr = None"
| "stop_pending (Suc fuel) env hManager hService dwStartTime bPending tr =
     (let (ssp, t1) = scm env (Scm_QueryServiceStatus hService) tr in
      if sa_Value ssp = 0 then Some (Inl False, close_both hManager hService t1)
      else
        let t2 = (if bPending then snd (scm env (Scm_Sleep (pending_wait (sa_WaitHint ssp))) t1) else t1) in
        if sa_State ssp = SERVICE_STOPPED then Some (Inl True, close_both hManager hService t2)
        else
          let (late, t3) =
                (if bPending
                 then let (tk, t) = scm env Scm_GetTickCount64 t2 in (sa_Tick tk - dwStartTime > stop_timeout, t)
                 else (False, t2))
          in if late then Some (Inl False, close_both hManager hService t3)
             else if sa_State ssp = SERVICE_STOP_PENDING
                  then stop_pending fuel env hManager hService dwStartTime True t3
                  else Some (Inr (), t3))"

text \<open>The second loop; \<open>state\<close> and \<open>hint\<close> are the fields of \<open>ssp\<close>.\<close>

fun stop_wait ::
  "nat \<Rightarrow> scm_env \<Rightarrow> nat \<Rightarrow> nat \<Rightarrow> u64 \<Rightarrow> SERVICE_STATE \<Rightarrow> nat \<Rightarrow> scm_trace \<Rightarrow> (bool \<times> scm_trace) option" where
  "stop_wait 0 env hManager hService dwStartTime state hint tr = None"
| "stop_wait (Suc fuel) env hManager hService dwStartTime state hint tr =
     (if state = SERVICE_STOPPED then Some (True, close_both hManager hService tr)
      else
        let t1 = snd (scm env (Scm_Sleep hint) tr);
            (ssp, t2) = scm env (Scm_QueryServiceStatus hService) t1
        in if sa_Value ssp = 0 then Some (False, close_both hManager hService t2)
           else if sa_State ssp = SERVICE_STOPPED then Some (True, close_both hManager hService t2)
           else
             let (tk, t3) = scm env Scm_GetTickCount64 t2
             in if sa_Tick tk - dwStartTime > stop_timeout then Some (False, close_both hManager hService t3)
                else stop_wait fuel env hManager hService dwStartTime (sa_State ssp) (sa_WaitHint ssp) t3)"

definition stop_control :: "nat \<Rightarrow> scm_env \<Rightarrow> nat \<Rightarrow> nat \<Rightarrow> u64 \<Rightarrow> scm_trace \<Rightarrow> (bool \<times> scm_trace) option" where
  "stop_control fuel env hManager hService dwStartTime tr =
     (let (ssp, t1) = scm env (Scm_ControlStop hService) tr
      in if sa_Value ssp = 0 then Some (False, close_both hManager hService t1)
         else stop_wait fuel env hManager hService dwStartTime (sa_State ssp) (sa_WaitHint ssp) t1)"

definition Installer_Stop :: "nat \<Rightarrow> scm_env \<Rightarrow> string \<Rightarrow> scm_trace \<Rightarrow> (bool \<times> scm_trace) option" where
  "Installer_Stop fuel env ServiceName tr =
     (let (tk, t0) = scm env Scm_GetTickCount64 tr; dwStartTime = sa_Tick tk;
          (m, t1) = scm env Scm_OpenSCManager t0; hManager = sa_Value m
      in if hManager = 0 then Some (False, t1)
         else
           let (h, t2) = scm env (Scm_OpenService hManager ServiceName) t1; hService = sa_Value h
           in if hService = 0 then Some (False, t2 @ [Scm_CloseServiceHandle hManager])
              else case stop_pending fuel env hManager hService dwStartTime False t2 of
                None \<Rightarrow> None
              | Some (Inl b, t3) \<Rightarrow> Some (b, t3)
              | Some (Inr _, t3) \<Rightarrow> stop_control fuel env hManager hService dwStartTime t3)"

section \<open>UnInstall\<close>

text \<open>The wait of \<open>UnInstall\<close>: it goes round only while the query fails, with the state that
  \<open>ControlService\<close> left in \<open>ss\<close>; a query that succeeds ends it at once. The result is the state.\<close>

fun uninstall_wait :: "nat \<Rightarrow> scm_env \<Rightarrow> nat \<Rightarrow> SERVICE_STATE \<Rightarrow> scm_trace \<Rightarrow> (SERVICE_STATE \<times> scm_trace) option" where
  "uninstall_wait 0 env hService ss tr = None"
| "uninstall_wait (Suc fuel) env hService ss tr =
     (let (q, t1) = scm env (Scm_QueryServiceStatus hService) tr in
      if sa_Value q \<noteq> 0 then Some (sa_State q, t1)
      else if ss = SERVICE_STOP_PENDING then uninstall_wait fuel env hService ss (snd (scm env (Scm_Sleep 1000) t1))
      else Some (ss, t1))"

text \<open>\<open>ss\<close> is zero when \<open>ControlService\<close> failed; zero is none of the states, and the code only
  compares it with two of them, so the model uses a third for it.\<close>

definition Installer_UnInstall :: "nat \<Rightarrow> scm_env \<Rightarrow> string \<Rightarrow> scm_trace \<Rightarrow> (bool \<times> scm_trace) option" where
  "Installer_UnInstall fuel env ServiceName tr =
     (let (m, t1) = scm env Scm_OpenSCManager tr; hManager = sa_Value m in
      if hManager = 0 then Some (False, t1)
      else
        let (h, t2) = scm env (Scm_OpenService hManager ServiceName) t1; hService = sa_Value h in
        if hService = 0 then Some (True, t2)
        else
          let (c, t3) = scm env (Scm_ControlStop hService) t2;
              ss = (if sa_Value c = 0 then SERVICE_START_PENDING else sa_State c);
              t4 = snd (scm env (Scm_Sleep 1000) t3)
          in case uninstall_wait fuel env hService ss t4 of
               None \<Rightarrow> None
             | Some (_, t5) \<Rightarrow>
                 let (d, t6) = scm env (Scm_DeleteService hService) t5
                 in Some (sa_Value d \<noteq> 0, t6))"

section \<open>Handles\<close>

text \<open>Handles a call returned, minus handles closed.\<close>

fun handle_delta :: "scm_env \<Rightarrow> scm_trace \<Rightarrow> scm_event \<Rightarrow> int" where
  "handle_delta env tr Scm_OpenSCManager = (if sa_Value (env tr Scm_OpenSCManager) = 0 then 0 else 1)"
| "handle_delta env tr (Scm_OpenService m n) = (if sa_Value (env tr (Scm_OpenService m n)) = 0 then 0 else 1)"
| "handle_delta env tr (Scm_CreateService m n d t f) = (if sa_Value (env tr (Scm_CreateService m n d t f)) = 0 then 0 else 1)"
| "handle_delta env tr (Scm_CloseServiceHandle h) = - 1"
| "handle_delta env tr _ = 0"

fun open_handles :: "scm_env \<Rightarrow> scm_trace \<Rightarrow> scm_trace \<Rightarrow> int" where
  "open_handles env tr [] = 0"
| "open_handles env tr (e # es) = handle_delta env tr e + open_handles env (tr @ [e]) es"

lemma open_handles_append [simp]:
  "open_handles env tr (a @ b) = open_handles env tr a + open_handles env (tr @ a) b"
  by (induction a arbitrary: tr) auto

abbreviation held :: "scm_env \<Rightarrow> scm_trace \<Rightarrow> int" where
  "held env tr \<equiv> open_handles env [] tr"

lemma held_close_both [simp]: "held env (close_both m h tr) = held env tr - 2"
  by (simp add: close_both_def)

lemma Install_handles: "held env (snd (Installer_Install env n d st dep acc pw tr)) = held env tr"
  by (auto simp: Installer_Install_def scm_def Let_def)

lemma stop_pending_handles:
  "stop_pending fuel env m h st b tr = Some (r, tr') \<Longrightarrow>
   held env tr' = held env tr - (case r of Inl _ \<Rightarrow> 2 | Inr _ \<Rightarrow> 0)"
  by (induction fuel env m h st b tr rule: stop_pending.induct)
    (auto simp: scm_def Let_def split: if_splits prod.splits)

lemma stop_wait_handles:
  "stop_wait fuel env m h st state hint tr = Some (b, tr') \<Longrightarrow> held env tr' = held env tr - 2"
  by (induction fuel env m h st state hint tr rule: stop_wait.induct)
    (auto simp: scm_def Let_def split: if_splits prod.splits)

text \<open>The ways through \<open>Stop\<close>.\<close>

lemma Stop_cases [consumes 1, case_names no_manager no_service early control_failed waited]:
  fixes env :: scm_env and tr n
  defines "t0 \<equiv> tr @ [Scm_GetTickCount64]"
  defines "start \<equiv> sa_Tick (env tr Scm_GetTickCount64)"
  defines "m \<equiv> sa_Value (env t0 Scm_OpenSCManager)"
  defines "t1 \<equiv> t0 @ [Scm_OpenSCManager]"
  defines "h \<equiv> sa_Value (env t1 (Scm_OpenService m n))"
  defines "t2 \<equiv> t1 @ [Scm_OpenService m n]"
  assumes "Installer_Stop fuel env n tr = Some (b, tr')"
  obtains "m = 0" "\<not> b" "tr' = t1"
  | "m \<noteq> 0" "h = 0" "\<not> b" "tr' = t2 @ [Scm_CloseServiceHandle m]"
  | "m \<noteq> 0" "h \<noteq> 0" "stop_pending fuel env m h start False t2 = Some (Inl b, tr')"
  | t3 where "m \<noteq> 0" "h \<noteq> 0" "stop_pending fuel env m h start False t2 = Some (Inr (), t3)" "\<not> b"
      "tr' = close_both m h (t3 @ [Scm_ControlStop h])"
  | t3 c where "m \<noteq> 0" "h \<noteq> 0" "stop_pending fuel env m h start False t2 = Some (Inr (), t3)"
      "c = env t3 (Scm_ControlStop h)"
      "stop_wait fuel env m h start (sa_State c) (sa_WaitHint c) (t3 @ [Scm_ControlStop h]) = Some (b, tr')"
proof -
  have eq: "Installer_Stop fuel env n tr =
    (if m = 0 then Some (False, t1)
     else if h = 0 then Some (False, t2 @ [Scm_CloseServiceHandle m])
     else case stop_pending fuel env m h start False t2 of
       None \<Rightarrow> None
     | Some (Inl b, t3) \<Rightarrow> Some (b, t3)
     | Some (Inr _, t3) \<Rightarrow> stop_control fuel env m h start t3)"
    by (simp only: Installer_Stop_def scm_def Let_def prod.case t0_def start_def m_def t1_def h_def t2_def)
  show thesis
  proof (cases "m = 0 \<or> h = 0")
    case True
    then show ?thesis using assms(7) that(1,2) unfolding eq by (auto split: if_splits)
  next
    case False
    then obtain r t3 where r: "stop_pending fuel env m h start False t2 = Some (r, t3)"
      using assms(7) unfolding eq by (cases "stop_pending fuel env m h start False t2") auto
    show ?thesis
    proof (cases r)
      case (Inl b')
      then have "b' = b" "t3 = tr'" using assms(7) False r unfolding eq by simp_all
      then show ?thesis using that(3) False r Inl by simp
    next
      case (Inr u)
      have c: "stop_control fuel env m h start t3 = Some (b, tr')" using assms(7) False r Inr unfolding eq by simp
      show ?thesis
      proof (cases "sa_Value (env t3 (Scm_ControlStop h)) = 0")
        case True
        then have "\<not> b" "tr' = close_both m h (t3 @ [Scm_ControlStop h])" using c by (simp_all add: stop_control_def scm_def)
        then show ?thesis using that(4)[of t3] False r Inr by simp
      next
        case nz: False
        then have "stop_wait fuel env m h start (sa_State (env t3 (Scm_ControlStop h)))
          (sa_WaitHint (env t3 (Scm_ControlStop h))) (t3 @ [Scm_ControlStop h]) = Some (b, tr')"
          using c by (simp add: stop_control_def scm_def)
        then show ?thesis using that(5)[of t3 "env t3 (Scm_ControlStop h)"] False r Inr by simp
      qed
    qed
  qed
qed

lemma Stop_handles:
  assumes "Installer_Stop fuel env n tr = Some (b, tr')"
  shows "held env tr' = held env tr"
  using assms
proof (cases rule: Stop_cases)
  case early
  then show ?thesis using stop_pending_handles[OF early(3)] by simp
next
  case (control_failed t3)
  then show ?thesis using stop_pending_handles[OF control_failed(3)] by simp
next
  case (waited t3 c)
  then show ?thesis using stop_pending_handles[OF waited(3)] stop_wait_handles[OF waited(5)] by simp
qed simp_all


section \<open>What a successful Stop means\<close>

definition saw_stopped :: "scm_env \<Rightarrow> nat \<Rightarrow> scm_trace \<Rightarrow> bool" where
  "saw_stopped env h tr \<longleftrightarrow> (\<exists>pre e post. tr = pre @ e # post \<and> e \<in> {Scm_QueryServiceStatus h, Scm_ControlStop h} \<and>
     sa_State (env pre e) = SERVICE_STOPPED)"

lemma saw_stopped_append: "saw_stopped env h tr \<Longrightarrow> saw_stopped env h (tr @ ext)"
  by (fastforce simp: saw_stopped_def)

lemma saw_stopped_close: "saw_stopped env h tr \<Longrightarrow> saw_stopped env h (close_both m h tr)"
  by (simp add: close_both_def saw_stopped_append)

lemma saw_stopped_now:
  "e \<in> {Scm_QueryServiceStatus h, Scm_ControlStop h} \<Longrightarrow> sa_State (env tr e) = SERVICE_STOPPED \<Longrightarrow>
   saw_stopped env h (tr @ e # ext)"
  unfolding saw_stopped_def by blast

lemma stop_pending_saw:
  "stop_pending fuel env m h st b tr = Some (Inl True, tr') \<Longrightarrow> saw_stopped env h tr'"
proof (induction fuel env m h st b tr rule: stop_pending.induct)
  case (2 fuel env m h st b tr)
  then show ?case
    using saw_stopped_now[of "Scm_QueryServiceStatus h" h env tr]
    by (auto simp: scm_def Let_def close_both_def split: if_splits)
qed simp

lemma stop_wait_saw:
  "stop_wait fuel env m h st state hint tr = Some (True, tr') \<Longrightarrow> state = SERVICE_STOPPED \<longrightarrow> saw_stopped env h tr \<Longrightarrow>
   saw_stopped env h tr'"
proof (induction fuel env m h st state hint tr rule: stop_wait.induct)
  case (2 fuel env m h st state hint tr)
  then show ?case
    using saw_stopped_now[of "Scm_QueryServiceStatus h" h env "tr @ [Scm_Sleep hint]"]
    by (auto simp: scm_def Let_def saw_stopped_close split: if_splits)
qed simp

text \<open>\<open>Installer::Stop\<close> closes every handle it opened, whichever way it ends, and reports success
  only after the service control manager reported the service as stopped.\<close>

theorem installer_stop_sound:
  assumes "Installer_Stop fuel env ServiceName tr = Some (b, tr')"
  shows "held env tr' = held env tr \<and> (b \<longrightarrow> (\<exists>h. saw_stopped env h tr'))"
proof -
  have "\<exists>h. saw_stopped env h tr'" if b
    using assms
  proof (cases rule: Stop_cases)
    case early
    then show ?thesis using that stop_pending_saw by fastforce
  next
    case (waited t3 c)
    let ?h = "sa_Value (env ((tr @ [Scm_GetTickCount64]) @ [Scm_OpenSCManager])
      (Scm_OpenService (sa_Value (env (tr @ [Scm_GetTickCount64]) Scm_OpenSCManager)) ServiceName))"
    have "sa_State c = SERVICE_STOPPED \<longrightarrow> saw_stopped env ?h (t3 @ [Scm_ControlStop ?h])"
      using saw_stopped_now[of "Scm_ControlStop ?h" ?h env t3 "[]"] waited(4) by simp
    then have "saw_stopped env ?h tr'" using stop_wait_saw waited(5) that by (metis (full_types))
    then show ?thesis by blast
  qed (use that in simp_all)
  then show ?thesis using Stop_handles[OF assms] by blast
qed

definition demo_scm :: "SERVICE_STATE \<Rightarrow> u64 \<Rightarrow> scm_answer" where
  "demo_scm state tick = \<lparr>sa_Value = 1, sa_State = state, sa_WaitHint = 2000, sa_Error = 0, sa_Tick = tick, sa_Text = [], sa_Needed = 0\<rparr>"

theorem installer_stop_sound_witness:
  "held (\<lambda>_ _. demo_scm SERVICE_STOPPED 0) [Scm_GetTickCount64, Scm_OpenSCManager, Scm_OpenService 1 ''x'',
     Scm_QueryServiceStatus 1, Scm_CloseServiceHandle 1, Scm_CloseServiceHandle 1] = 0"
  using installer_stop_sound[of 1 "\<lambda>_ _. demo_scm SERVICE_STOPPED 0" "''x''" "[]" True
      "[Scm_GetTickCount64, Scm_OpenSCManager, Scm_OpenService 1 ''x'', Scm_QueryServiceStatus 1, Scm_CloseServiceHandle 1,
        Scm_CloseServiceHandle 1]"]
  by (simp add: Installer_Stop_def scm_def demo_scm_def close_both_def)

section \<open>Stop ends\<close>

text \<open>\<open>Sleep\<close> may return up to one tick of the clock (16 ms) early; the difference of two readings of
  \<open>GetTickCount64\<close> is at least the time slept between them. The bound on that time keeps the
  difference below the range of the counter.\<close>

fun slept :: "scm_trace \<Rightarrow> nat" where
  "slept [] = 0"
| "slept (Scm_Sleep d # tr) = (d - 16) + slept tr"
| "slept (e # tr) = slept tr"

lemma slept_append [simp]: "slept (a @ b) = slept a + slept b"
  by (induction a rule: slept.induct) auto

definition clock_ok :: "scm_env \<Rightarrow> bool" where
  "clock_ok env \<longleftrightarrow> (\<forall>tr ext. slept ext < 2 ^ 40 \<longrightarrow>
     slept ext \<le> unat (sa_Tick (env (tr @ ext) Scm_GetTickCount64) - sa_Tick (env tr Scm_GetTickCount64)))"

lemma clock_late:
  assumes "clock_ok env" "30000 < slept ext" "slept ext < 2 ^ 40"
  shows "sa_Tick (env (tr @ ext) Scm_GetTickCount64) - sa_Tick (env tr Scm_GetTickCount64) > stop_timeout"
proof -
  have "30000 < unat (sa_Tick (env (tr @ ext) Scm_GetTickCount64) - sa_Tick (env tr Scm_GetTickCount64))"
    using assms unfolding clock_ok_def by (meson order_less_le_trans)
  then show ?thesis by (simp add: stop_timeout_def word_less_nat_alt)
qed

lemma pending_wait_bounds: "1000 \<le> pending_wait hint" "pending_wait hint \<le> 10000"
  by (simp_all add: pending_wait_def Let_def)

text \<open>Every round but the first sleeps for at least a second.\<close>

lemma stop_pending_ends:
  assumes "clock_ok env" "1 \<le> fuel" "fuel \<le> 31" "984 * (31 - fuel) \<le> slept ext" "slept ext \<le> 10000 * (31 - fuel)"
  shows "\<exists>r ext'. stop_pending fuel env m h (sa_Tick (env tr Scm_GetTickCount64)) True (tr @ ext) = Some (r, tr @ ext') \<and>
    slept ext' \<le> 310000"
  using assms(2-)
proof (induction fuel arbitrary: ext)
  case (Suc fuel)
  let ?q = "env (tr @ ext) (Scm_QueryServiceStatus h)"
  define w where "w = pending_wait (sa_WaitHint ?q)"
  have w: "1000 \<le> w" "w \<le> 10000" by (simp_all add: w_def pending_wait_bounds)
  define ext2 where "ext2 = ext @ [Scm_QueryServiceStatus h, Scm_Sleep w]"
  have s2: "slept ext2 = slept ext + (w - 16)" by (simp add: ext2_def)
  let ?late = "sa_Tick (env (tr @ ext2) Scm_GetTickCount64) - sa_Tick (env tr Scm_GetTickCount64) > stop_timeout"
  have late: "fuel = 0 \<Longrightarrow> ?late" by (rule clock_late[OF assms(1)]) (use s2 w Suc.prems in auto)
  have step: "stop_pending (Suc fuel) env m h (sa_Tick (env tr Scm_GetTickCount64)) True (tr @ ext) =
    (if sa_Value ?q = 0 then Some (Inl False, tr @ close_both m h (ext @ [Scm_QueryServiceStatus h]))
     else if sa_State ?q = SERVICE_STOPPED then Some (Inl True, tr @ close_both m h ext2)
     else if ?late then Some (Inl False, tr @ close_both m h (ext2 @ [Scm_GetTickCount64]))
     else if sa_State ?q = SERVICE_STOP_PENDING
       then stop_pending fuel env m h (sa_Tick (env tr Scm_GetTickCount64)) True (tr @ ext2 @ [Scm_GetTickCount64])
     else Some (Inr (), tr @ ext2 @ [Scm_GetTickCount64]))"
    by (simp add: scm_def Let_def w_def ext2_def close_both_def)
  have ih: "\<exists>r ext'. stop_pending fuel env m h (sa_Tick (env tr Scm_GetTickCount64)) True
      (tr @ ext2 @ [Scm_GetTickCount64]) = Some (r, tr @ ext') \<and> slept ext' \<le> 310000" if "\<not> ?late"
    by (rule Suc.IH) (use that late s2 w Suc.prems in \<open>cases fuel; auto\<close>)+
  have b: "slept ext \<le> 310000" "slept ext2 \<le> 310000" using s2 w Suc.prems by auto
  show ?case unfolding step using ih b by (auto simp: close_both_def)
qed simp

lemma stop_wait_ends:
  assumes "clock_ok env" "\<forall>tr e. 1016 \<le> sa_WaitHint (env tr e) \<and> sa_WaitHint (env tr e) < 2 ^ 32"
    "1 \<le> fuel" "fuel \<le> 32" "1000 * (32 - fuel) \<le> slept ext" "slept ext \<le> 310000 + 2 ^ 32 * (32 - fuel)"
    "1016 \<le> hint" "hint < 2 ^ 32"
  shows "stop_wait fuel env m h (sa_Tick (env tr Scm_GetTickCount64)) state hint (tr @ ext) \<noteq> None"
  using assms(3-)
proof (induction fuel arbitrary: ext state hint)
  case (Suc fuel)
  define ext2 where "ext2 = ext @ [Scm_Sleep hint, Scm_QueryServiceStatus h]"
  let ?q = "env (tr @ ext @ [Scm_Sleep hint]) (Scm_QueryServiceStatus h)"
  have s2: "slept ext2 = slept ext + (hint - 16)" by (simp add: ext2_def)
  let ?late = "sa_Tick (env (tr @ ext2) Scm_GetTickCount64) - sa_Tick (env tr Scm_GetTickCount64) > stop_timeout"
  have late: "fuel = 0 \<Longrightarrow> ?late" by (rule clock_late[OF assms(1)]) (use s2 Suc.prems in auto)
  have step: "stop_wait (Suc fuel) env m h (sa_Tick (env tr Scm_GetTickCount64)) state hint (tr @ ext) =
    (if state = SERVICE_STOPPED then Some (True, close_both m h (tr @ ext))
     else if sa_Value ?q = 0 then Some (False, close_both m h (tr @ ext2))
     else if sa_State ?q = SERVICE_STOPPED then Some (True, close_both m h (tr @ ext2))
     else if ?late then Some (False, close_both m h (tr @ ext2 @ [Scm_GetTickCount64]))
     else stop_wait fuel env m h (sa_Tick (env tr Scm_GetTickCount64)) (sa_State ?q) (sa_WaitHint ?q)
            (tr @ ext2 @ [Scm_GetTickCount64]))"
    by (simp add: scm_def Let_def ext2_def)
  have ih: "stop_wait fuel env m h (sa_Tick (env tr Scm_GetTickCount64)) (sa_State ?q) (sa_WaitHint ?q)
      (tr @ ext2 @ [Scm_GetTickCount64]) \<noteq> None" if "\<not> ?late"
    by (rule Suc.IH) (use that late s2 Suc.prems assms(2) in \<open>cases fuel; auto\<close>)+
  show ?case unfolding step using ih by (simp del: not_None_eq)
qed simp

lemma stop_pending_first:
  assumes "clock_ok env" "slept ext = 0"
  shows "\<exists>r ext'. stop_pending 32 env m h (sa_Tick (env tr Scm_GetTickCount64)) False (tr @ ext) = Some (r, tr @ ext') \<and>
    slept ext' \<le> 310000"
proof -
  let ?q = "env (tr @ ext) (Scm_QueryServiceStatus h)" and ?e = "ext @ [Scm_QueryServiceStatus h]"
  have "stop_pending (Suc f) env m h st False (tr @ ext) =
    (if sa_Value ?q = 0 then Some (Inl False, tr @ close_both m h ?e)
     else if sa_State ?q = SERVICE_STOPPED then Some (Inl True, tr @ close_both m h ?e)
     else if sa_State ?q = SERVICE_STOP_PENDING then stop_pending f env m h st True (tr @ ?e)
     else Some (Inr (), tr @ ?e))" for f st
    by (simp add: scm_def Let_def close_both_def)
  from this[of 31] have "stop_pending 32 env m h st False (tr @ ext) =
    (if sa_Value ?q = 0 then Some (Inl False, tr @ close_both m h ?e)
     else if sa_State ?q = SERVICE_STOPPED then Some (Inl True, tr @ close_both m h ?e)
     else if sa_State ?q = SERVICE_STOP_PENDING then stop_pending 31 env m h st True (tr @ ?e)
     else Some (Inr (), tr @ ?e))" for st
    by simp
  then show ?thesis
    using stop_pending_ends[OF assms(1), of 31 ?e m h tr] assms(2) by (auto simp: close_both_def)
qed

text \<open>\<open>Installer::Stop\<close> ends. If the tick counter advances by what was slept and the service always
  reports a wait hint of at least about a second (and below the range of a \<open>DWORD\<close>), 32 rounds
  of its loops are enough: within them the service was seen stopped, a call failed, or the
  time-out of 30 seconds was noticed.\<close>

theorem installer_stop_terminates:
  assumes "clock_ok env" "\<forall>tr e. 1016 \<le> sa_WaitHint (env tr e) \<and> sa_WaitHint (env tr e) < 2 ^ 32"
  shows "\<exists>b tr'. Installer_Stop 32 env ServiceName tr = Some (b, tr')"
proof (rule ccontr)
  assume no: "\<not> ?thesis"
  let ?e0 = "[Scm_GetTickCount64, Scm_OpenSCManager]"
  define m where "m = sa_Value (env (tr @ [Scm_GetTickCount64]) Scm_OpenSCManager)"
  define h where "h = sa_Value (env (tr @ ?e0) (Scm_OpenService m ServiceName))"
  define st where "st = sa_Tick (env tr Scm_GetTickCount64)"
  obtain r ext where p: "stop_pending 32 env m h st False (tr @ ?e0 @ [Scm_OpenService m ServiceName]) = Some (r, tr @ ext)"
    "slept ext \<le> 310000"
    using stop_pending_first[OF assms(1), of "?e0 @ [Scm_OpenService m ServiceName]" m h tr] by (auto simp: st_def)
  have "stop_control 32 env m h st (tr @ ext) \<noteq> None"
    using stop_wait_ends[OF assms, of 32 "ext @ [Scm_ControlStop h]" "sa_WaitHint (env (tr @ ext) (Scm_ControlStop h))" m h tr] p(2) assms(2)
    by (simp add: stop_control_def scm_def st_def del: stop_wait.simps not_None_eq)
  then have "Installer_Stop 32 env ServiceName tr \<noteq> None"
    using p(1) by (auto simp: Installer_Stop_def scm_def Let_def m_def h_def st_def split: sum.splits)
  then show False using no by auto
qed

text \<open>A service that never stops, with a clock that shows the time slept.\<close>

theorem installer_stop_terminates_witness:
  "\<exists>b tr'. Installer_Stop 32 (\<lambda>tr _. demo_scm SERVICE_STOP_PENDING (of_nat (slept tr))) ''x'' [] = Some (b, tr')"
proof (rule installer_stop_terminates)
  have "unat (of_nat n :: u64) = n" if "n < 2 ^ 40" for n :: nat using that by (simp add: unat_of_nat take_bit_nat_eq_self)
  then show "clock_ok (\<lambda>tr _. demo_scm SERVICE_STOP_PENDING (of_nat (slept tr)))"
    by (simp add: clock_ok_def demo_scm_def)
qed (simp add: demo_scm_def)

end
