(* ===== verification/Service_Mode.thy ===== *)
theory Service_Mode
  imports Service_Installer
begin

text \<open>
  \<open>ServiceMode\<close> (\<open>LibCommons/ServiceMode.cpp\<close>): the frame of the two servers. It answers the command
  line, runs under the service control manager (SCM) and reports its state to it. The virtual
  \<open>OnStarted\<close>, \<open>OnStopped\<close>, \<open>OnPaused\<close>, \<open>OnContinue\<close> and \<open>OnShutdown\<close> are parameters: functions on the
  server (the field \<open>sm_Server\<close>) that may end with an exception, which the code distinguishes
  as \<open>DWORD\<close> and others. \<open>sm_CheckPoint\<close> is the static counter of \<open>SetServiceStatus\<close>.

  \<open>std::format\<close> with \<open>{}\<close> is \<open>std_format\<close>; \<open>cxxopts\<close> is the parameter \<open>count\<close>, how often an option is
  on the command line.
\<close>

datatype exn = Exn_DWORD u32 | Exn_Other

record 'w ServiceMode =
  sm_bRunning :: bool
  sm_FileVersion :: string
  sm_Status :: SERVICE_STATUS
  sm_StatusHandle :: nat
  sm_CheckPoint :: u32
  sm_Server :: 'w
  sm_Trace :: scm_trace

record 'w service_hooks =
  hk_OnStarted :: "'w \<Rightarrow> exn option \<times> 'w"
  hk_OnStopped :: "'w \<Rightarrow> exn option \<times> 'w"
  hk_OnPaused :: "'w \<Rightarrow> exn option \<times> 'w"
  hk_OnContinue :: "'w \<Rightarrow> exn option \<times> 'w"
  hk_OnShutdown :: "'w \<Rightarrow> exn option \<times> 'w"
  hk_GetServiceName :: string
  hk_GetDisplayName :: string
  hk_GetStartType :: start_type

definition SERVICE_ACCEPT_STOP :: u32 where "SERVICE_ACCEPT_STOP = 1"
definition SERVICE_ACCEPT_PAUSE_CONTINUE :: u32 where "SERVICE_ACCEPT_PAUSE_CONTINUE = 2"
definition SERVICE_ACCEPT_SHUTDOWN :: u32 where "SERVICE_ACCEPT_SHUTDOWN = 4"
definition SERVICE_ACCEPT_SESSIONCHANGE :: u32 where "SERVICE_ACCEPT_SESSIONCHANGE = 0x80"

definition ServiceMode_ctor :: "bool \<Rightarrow> bool \<Rightarrow> bool \<Rightarrow> u32 \<Rightarrow> 'w \<Rightarrow> 'w ServiceMode" where
  "ServiceMode_ctor bCanStop bCanShutdown bCanPauseContinue checkPoint server =
     (let a0 = SERVICE_ACCEPT_SESSIONCHANGE;
          a1 = (if bCanStop then or a0 SERVICE_ACCEPT_STOP else a0);
          a2 = (if bCanShutdown then or a1 SERVICE_ACCEPT_SHUTDOWN else a1);
          a3 = (if bCanPauseContinue then or a2 SERVICE_ACCEPT_PAUSE_CONTINUE else a2)
      in \<lparr>sm_bRunning = False, sm_FileVersion = [],
          sm_Status = \<lparr>dwCurrentState = SERVICE_START_PENDING, dwControlsAccepted = a3, dwWin32ExitCode = 0,
                       dwServiceSpecificExitCode = 0, dwCheckPoint = 0, dwWaitHint = 0\<rparr>,
          sm_StatusHandle = 0, sm_CheckPoint = checkPoint, sm_Server = server, sm_Trace = []\<rparr>)"

section \<open>Formatting and the event log\<close>

fun std_format :: "string \<Rightarrow> string list \<Rightarrow> string" where
  "std_format [] as = []"
| "std_format (c # cs) as =
     (case (cs, as) of
        (d # ds, a # bs) \<Rightarrow> if c = CHR ''{'' \<and> d = CHR ''}'' then a @ std_format ds bs else c # std_format cs as
      | _ \<Rightarrow> c # std_format cs as)"

fun dec :: "nat \<Rightarrow> string" where
  "dec n = (if n < 10 then [char_of (48 + n)] else dec (n div 10) @ [char_of (48 + n mod 10)])"

declare dec.simps [simp del]

definition hex_digit :: "nat \<Rightarrow> char" where
  "hex_digit d = (if d < 10 then char_of (48 + d) else char_of (87 + d))"

definition hex8 :: "u32 \<Rightarrow> string" where
  "hex8 w = map (\<lambda>i. hex_digit (unat w div 16 ^ i mod 16)) [7, 6, 5, 4, 3, 2, 1, 0]"

definition sm_log :: "scm_event \<Rightarrow> 'w ServiceMode \<Rightarrow> 'w ServiceMode" where
  "sm_log e s = s\<lparr>sm_Trace := sm_Trace s @ [e]\<rparr>"

definition sm_call :: "scm_env \<Rightarrow> scm_event \<Rightarrow> 'w ServiceMode \<Rightarrow> scm_answer \<times> 'w ServiceMode" where
  "sm_call env e s = (env (sm_Trace s) e, sm_log e s)"

definition WriteEventLogEntry ::
  "scm_env \<Rightarrow> 'w service_hooks \<Rightarrow> string \<Rightarrow> event_type \<Rightarrow> 'w ServiceMode \<Rightarrow> 'w ServiceMode" where
  "WriteEventLogEntry env hk pszMessage wType s =
     (let serviceName = hk_GetServiceName hk;
          (hEventSource, s1) = sm_call env (Scm_RegisterEventSource serviceName) s
      in if sa_Value hEventSource \<noteq> 0
         then sm_log Scm_DeregisterEventSource (sm_log (Scm_ReportEvent wType serviceName pszMessage) s1)
         else s1)"

text \<open>The message buffer holds 260 characters; \<open>swprintf_s\<close> does not return when it is too small,
  which the messages of this file do not make it.\<close>

definition WriteErrorLogEntry ::
  "scm_env \<Rightarrow> 'w service_hooks \<Rightarrow> string \<Rightarrow> u32 \<Rightarrow> 'w ServiceMode \<Rightarrow> 'w ServiceMode" where
  "WriteErrorLogEntry env hk pszFunction dwError s =
     WriteEventLogEntry env hk (pszFunction @ '' failed w/err 0x'' @ hex8 dwError) EVENTLOG_ERROR_TYPE s"

section \<open>The state reported to the SCM\<close>

definition SetServiceStatus :: "SERVICE_STATE \<Rightarrow> u32 \<Rightarrow> u32 \<Rightarrow> 'w ServiceMode \<Rightarrow> 'w ServiceMode" where
  "SetServiceStatus state exitCode waitHint s =
     (let zero = (state = SERVICE_RUNNING \<or> state = SERVICE_STOPPED);
          status = (sm_Status s)\<lparr>dwCurrentState := state, dwWin32ExitCode := exitCode, dwWaitHint := waitHint,
                                 dwCheckPoint := (if zero then 0 else sm_CheckPoint s)\<rparr>
      in sm_log (Scm_SetServiceStatus status)
           (s\<lparr>sm_Status := status, sm_CheckPoint := (if zero then sm_CheckPoint s else sm_CheckPoint s + 1)\<rparr>))"

text \<open>Calling a hook: its exception, if any, is the result.\<close>

definition call_hook :: "('w \<Rightarrow> exn option \<times> 'w) \<Rightarrow> 'w ServiceMode \<Rightarrow> exn option \<times> 'w ServiceMode" where
  "call_hook hook s = (let (r, w) = hook (sm_Server s) in (r, s\<lparr>sm_Server := w\<rparr>))"

definition ServiceMode_Start :: "scm_env \<Rightarrow> 'w service_hooks \<Rightarrow> 'w ServiceMode \<Rightarrow> 'w ServiceMode" where
  "ServiceMode_Start env hk s =
     (let s1 = SetServiceStatus SERVICE_START_PENDING 0 0 s;
          s2 = WriteEventLogEntry env hk (hk_GetServiceName hk @ '' is Started'') EVENTLOG_INFORMATION_TYPE s1;
          (r, s3) = call_hook (hk_OnStarted hk) s2
      in case r of
           None \<Rightarrow> SetServiceStatus SERVICE_RUNNING 0 0 s3
         | Some (Exn_DWORD dwError) \<Rightarrow>
             SetServiceStatus SERVICE_STOPPED dwError 0 (WriteErrorLogEntry env hk (hk_GetServiceName hk @ '' Start'') dwError s3)
         | Some Exn_Other \<Rightarrow>
             SetServiceStatus SERVICE_STOPPED 0 0 (WriteEventLogEntry env hk ''Service failed to start.'' EVENTLOG_ERROR_TYPE s3))"

definition ServiceMode_Pause :: "scm_env \<Rightarrow> 'w service_hooks \<Rightarrow> 'w ServiceMode \<Rightarrow> 'w ServiceMode" where
  "ServiceMode_Pause env hk s =
     (let message = hk_GetServiceName hk @ '' is Paused'';
          s1 = SetServiceStatus SERVICE_PAUSE_PENDING 0 0 s;
          s2 = WriteEventLogEntry env hk message EVENTLOG_INFORMATION_TYPE s1;
          (r, s3) = call_hook (hk_OnPaused hk) s2
      in case r of
           None \<Rightarrow> SetServiceStatus SERVICE_PAUSED 0 0 s3
         | Some (Exn_DWORD dwError) \<Rightarrow> SetServiceStatus SERVICE_RUNNING 0 0 (WriteErrorLogEntry env hk message dwError s3)
         | Some Exn_Other \<Rightarrow>
             SetServiceStatus SERVICE_RUNNING 0 0 (WriteEventLogEntry env hk ''Service failed to pause.'' EVENTLOG_ERROR_TYPE s3))"

definition ServiceMode_Stop :: "scm_env \<Rightarrow> 'w service_hooks \<Rightarrow> 'w ServiceMode \<Rightarrow> 'w ServiceMode" where
  "ServiceMode_Stop env hk s =
     (let message = hk_GetServiceName hk @ '' is Stopped'';
          dwOriginalState = dwCurrentState (sm_Status s);
          s1 = SetServiceStatus SERVICE_STOP_PENDING 0 0 s;
          s2 = WriteEventLogEntry env hk message EVENTLOG_INFORMATION_TYPE s1;
          (r, s3) = call_hook (hk_OnStopped hk) s2
      in case r of
           None \<Rightarrow> SetServiceStatus SERVICE_STOPPED 0 0 s3
         | Some (Exn_DWORD dwError) \<Rightarrow> SetServiceStatus dwOriginalState 0 0 (WriteErrorLogEntry env hk message dwError s3)
         | Some Exn_Other \<Rightarrow>
             SetServiceStatus dwOriginalState 0 0 (WriteEventLogEntry env hk ''Service failed to stop.'' EVENTLOG_ERROR_TYPE s3))"

definition ServiceMode_Continue :: "scm_env \<Rightarrow> 'w service_hooks \<Rightarrow> 'w ServiceMode \<Rightarrow> 'w ServiceMode" where
  "ServiceMode_Continue env hk s =
     (let message = hk_GetServiceName hk @ '' is continue'';
          s1 = SetServiceStatus SERVICE_CONTINUE_PENDING 0 0 s;
          s2 = WriteEventLogEntry env hk message EVENTLOG_INFORMATION_TYPE s1;
          (r, s3) = call_hook (hk_OnContinue hk) s2
      in case r of
           None \<Rightarrow> SetServiceStatus SERVICE_RUNNING 0 0 s3
         | Some (Exn_DWORD dwError) \<Rightarrow> SetServiceStatus SERVICE_PAUSED 0 0 (WriteErrorLogEntry env hk message dwError s3)
         | Some Exn_Other \<Rightarrow>
             SetServiceStatus SERVICE_PAUSED 0 0 (WriteEventLogEntry env hk ''Service failed to resume.'' EVENTLOG_ERROR_TYPE s3))"

definition ServiceMode_Shutdown :: "scm_env \<Rightarrow> 'w service_hooks \<Rightarrow> 'w ServiceMode \<Rightarrow> 'w ServiceMode" where
  "ServiceMode_Shutdown env hk s =
     (let message = hk_GetServiceName hk @ '' is shutdown'';
          s1 = WriteEventLogEntry env hk message EVENTLOG_INFORMATION_TYPE s;
          (r, s2) = call_hook (hk_OnShutdown hk) s1
      in case r of
           None \<Rightarrow> SetServiceStatus SERVICE_STOPPED 0 0 s2
         | Some (Exn_DWORD dwError) \<Rightarrow> WriteErrorLogEntry env hk message dwError s2
         | Some Exn_Other \<Rightarrow> WriteEventLogEntry env hk ''Service failed to shut down.'' EVENTLOG_ERROR_TYPE s2)"

datatype service_control =
    SERVICE_CONTROL_STOP
  | SERVICE_CONTROL_PAUSE
  | SERVICE_CONTROL_CONTINUE
  | SERVICE_CONTROL_SHUTDOWN
  | SERVICE_CONTROL_INTERROGATE
  | SERVICE_CONTROL_OTHER nat

definition ServiceCtrlHandler :: "scm_env \<Rightarrow> 'w service_hooks \<Rightarrow> service_control \<Rightarrow> 'w ServiceMode \<Rightarrow> 'w ServiceMode" where
  "ServiceCtrlHandler env hk dwCtrl s =
     (case dwCtrl of
        SERVICE_CONTROL_STOP \<Rightarrow> ServiceMode_Stop env hk s
      | SERVICE_CONTROL_PAUSE \<Rightarrow> ServiceMode_Pause env hk s
      | SERVICE_CONTROL_CONTINUE \<Rightarrow> ServiceMode_Continue env hk s
      | SERVICE_CONTROL_SHUTDOWN \<Rightarrow> ServiceMode_Shutdown env hk s
      | SERVICE_CONTROL_INTERROGATE \<Rightarrow> s
      | SERVICE_CONTROL_OTHER _ \<Rightarrow> s)"

definition ServiceMain :: "scm_env \<Rightarrow> 'w service_hooks \<Rightarrow> 'w ServiceMode \<Rightarrow> exn option \<times> 'w ServiceMode" where
  "ServiceMain env hk s =
     (let (h, s1) = sm_call env (Scm_RegisterServiceCtrlHandler (hk_GetServiceName hk)) s;
          s2 = s1\<lparr>sm_StatusHandle := sa_Value h\<rparr>
      in if sm_StatusHandle s2 = 0 then
           let (e1, s3) = sm_call env Scm_GetLastError s2;
               s4 = WriteEventLogEntry env hk
                      (std_format ''Service Name : {}, RegisterServiceCtrlHandler is failed. Error : {}''
                         [hk_GetServiceName hk, dec (unat (sa_Error e1))]) EVENTLOG_ERROR_TYPE s3;
               (e2, s5) = sm_call env Scm_GetLastError s4
           in (Some (Exn_DWORD (sa_Error e2)), s5)
         else (None, ServiceMode_Start env hk s2))"

section \<open>The command line\<close>

text \<open>\<open>debug\<close> is the build: a debug build starts the server in the calling thread and lets an
  exception of \<open>OnStarted\<close> through; a release build hands the thread to the dispatcher of the SCM,
  which calls \<open>ServiceMain\<close> and \<open>ServiceCtrlHandler\<close>.\<close>

definition ServiceMode_Run ::
  "bool \<Rightarrow> scm_env \<Rightarrow> 'w service_hooks \<Rightarrow> 'w ServiceMode \<Rightarrow> (exn + bool) \<times> 'w ServiceMode" where
  "ServiceMode_Run debug env hk s =
     (if debug then
        let (r, s1) = call_hook (hk_OnStarted hk) s
        in (case r of None \<Rightarrow> Inr True | Some e \<Rightarrow> Inl e, s1)
      else
        let (d, s1) = sm_call env (Scm_StartServiceCtrlDispatcher (hk_GetServiceName hk)) s;
            bSuccess = (sa_Value d \<noteq> 0)
        in if \<not> bSuccess then
             let (e, s2) = sm_call env Scm_GetLastError s1
             in (Inr False, WriteEventLogEntry env hk
                   (std_format ''Service Mode is Started failed, Version : {}, Error : {}''
                      [sm_FileVersion s2, dec (unat (sa_Error e))]) EVENTLOG_INFORMATION_TYPE s2)
           else (Inr True, WriteEventLogEntry env hk
                   (std_format ''Service Mode is Started, Version : {}'' [sm_FileVersion s1]) EVENTLOG_INFORMATION_TYPE s1))"

definition sm_installer :: "(scm_trace \<Rightarrow> (bool \<times> scm_trace) option) \<Rightarrow> 'w ServiceMode \<Rightarrow> (bool \<times> 'w ServiceMode) option" where
  "sm_installer f s = map_option (\<lambda>(b, tr). (b, s\<lparr>sm_Trace := tr\<rparr>)) (f (sm_Trace s))"

definition execute_command ::
  "nat \<Rightarrow> (string \<Rightarrow> nat) \<Rightarrow> scm_env \<Rightarrow> 'w service_hooks \<Rightarrow> 'w ServiceMode \<Rightarrow> 'w ServiceMode option" where
  "execute_command fuel count env hk s =
     (let name = hk_GetServiceName hk in
      if count ''install'' \<noteq> 0 then
        (case sm_installer (\<lambda>tr. Some (Installer_Install env name (hk_GetDisplayName hk) (hk_GetStartType hk) [] [] [] tr)) s of
           None \<Rightarrow> None
         | Some (True, s1) \<Rightarrow> Some (WriteEventLogEntry env hk (std_format ''{} is installed.'' [name]) EVENTLOG_INFORMATION_TYPE s1)
         | Some (False, s1) \<Rightarrow> Some (WriteEventLogEntry env hk ''Columbus service is install failed.'' EVENTLOG_ERROR_TYPE s1))
      else if count ''uninstall'' \<noteq> 0 then
        (case sm_installer (Installer_UnInstall fuel env name) s of
           None \<Rightarrow> None
         | Some (True, s1) \<Rightarrow> Some (WriteEventLogEntry env hk (std_format ''Service is uninstall.'' [name]) EVENTLOG_INFORMATION_TYPE s1)
         | Some (False, s1) \<Rightarrow> Some (WriteEventLogEntry env hk (std_format ''Service is not uninstall.'' [name]) EVENTLOG_ERROR_TYPE s1))
      else if count ''stop'' \<noteq> 0 then
        (case sm_installer (Installer_Stop fuel env name) s of
           None \<Rightarrow> None
         | Some (True, s1) \<Rightarrow> Some (WriteEventLogEntry env hk (std_format ''Service is stop. ServiceName : {}'' [name]) EVENTLOG_INFORMATION_TYPE s1)
         | Some (False, s1) \<Rightarrow> Some (WriteEventLogEntry env hk (std_format ''Service is stop. ServiceName : {}'' [name]) EVENTLOG_ERROR_TYPE s1))
      else Some s)"

definition ServiceMode_Execute ::
  "bool \<Rightarrow> nat \<Rightarrow> (string \<Rightarrow> nat) \<Rightarrow> scm_env \<Rightarrow> 'w service_hooks \<Rightarrow> 'w ServiceMode \<Rightarrow> ((exn + bool) \<times> 'w ServiceMode) option" where
  "ServiceMode_Execute debug fuel count env hk s =
     (if count ''help'' \<noteq> 0 then Some (Inr False, sm_log Scm_PrintHelp s)
      else case execute_command fuel count env hk s of
        None \<Rightarrow> None
      | Some s1 \<Rightarrow>
          let (r, s2) = ServiceMode_Run debug env hk s1
          in Some (case r of Inl e \<Rightarrow> (Inl e, s2) | Inr _ \<Rightarrow> (Inr True, s2)))"

text \<open>\<open>Wait\<close> looks at the flag once a second: the number of seconds until it returns, or \<open>None\<close>
  while the flag stays set.\<close>

fun ServiceMode_Wait :: "bool list \<Rightarrow> nat option" where
  "ServiceMode_Wait [] = None"
| "ServiceMode_Wait (m_bRunning # later) = (if m_bRunning then map_option Suc (ServiceMode_Wait later) else Some 0)"

section \<open>Where the service is installed\<close>

text \<open>The query is repeated with the size it asked for as long as the buffer was too small;
  \<open>ERROR_INSUFFICIENT_BUFFER\<close> is 122. Any other failure leaves the name as it was, and the function
  returns true all the same. The handles of the success path are not closed.\<close>

fun query_config :: "nat \<Rightarrow> scm_env \<Rightarrow> nat \<Rightarrow> nat \<Rightarrow> string \<Rightarrow> 'w ServiceMode \<Rightarrow> (string \<times> 'w ServiceMode) option" where
  "query_config 0 env hService dwBytesNeeded name s = None"
| "query_config (Suc fuel) env hService dwBytesNeeded name s =
     (let (q, s1) = sm_call env (Scm_QueryServiceConfig hService dwBytesNeeded) s in
      if sa_Value q \<noteq> 0 then Some (sa_Text q, s1)
      else
        let (e, s2) = sm_call env Scm_GetLastError s1
        in if sa_Error e = 122 then query_config fuel env hService (sa_Needed q) name s2 else Some (name, s2))"

definition sizeof_QUERY_SERVICE_CONFIG :: nat where
  "sizeof_QUERY_SERVICE_CONFIG = 64"

definition GetServiceBinaryName ::
  "nat \<Rightarrow> scm_env \<Rightarrow> 'w service_hooks \<Rightarrow> string \<Rightarrow> 'w ServiceMode \<Rightarrow> (bool \<times> string \<times> 'w ServiceMode) option" where
  "GetServiceBinaryName fuel env hk rfOut s =
     (let (m, s1) = sm_call env Scm_OpenSCManager s in
      if sa_Value m = 0 then
        let (e, s2) = sm_call env Scm_GetLastError s1
        in Some (False, rfOut, WriteEventLogEntry env hk
             (std_format ''OpenSCManager is not success, Name : {}, Version : {}, Error : {}''
                [hk_GetServiceName hk, sm_FileVersion s2, dec (unat (sa_Error e))]) EVENTLOG_ERROR_TYPE s2)
      else
        let (h, s2) = sm_call env (Scm_OpenService (sa_Value m) (hk_GetServiceName hk)) s1 in
        if sa_Value h = 0 then
          let (e, s3) = sm_call env Scm_GetLastError s2
          in Some (False, rfOut, sm_log (Scm_CloseServiceHandle (sa_Value m)) (WriteEventLogEntry env hk
               (std_format ''OpenService is not success, Name : {}, Version : {}, Error : {}''
                  [hk_GetServiceName hk, sm_FileVersion s3, dec (unat (sa_Error e))]) EVENTLOG_ERROR_TYPE s3))
        else map_option (\<lambda>(name, s3). (True, name, s3))
               (query_config fuel env (sa_Value h) sizeof_QUERY_SERVICE_CONFIG rfOut s2))"

text \<open>\<open>std::filesystem::path\<close> on Windows: the file name is what follows the last separator of the
  part behind the drive.\<close>

definition is_sep :: "char \<Rightarrow> bool" where
  "is_sep c \<longleftrightarrow> c = CHR 0x5C \<or> c = CHR ''/''"

definition path_split :: "string \<Rightarrow> string \<times> string" where
  "path_split p =
     (let drive = (case p of _ # c # _ \<Rightarrow> if c = CHR '':'' then take 2 p else [] | _ \<Rightarrow> []);
          rest = drop (length drive) p
      in (drive @ rev (dropWhile (Not \<circ> is_sep) (rev rest)), rev (takeWhile (Not \<circ> is_sep) (rev rest))))"

definition GetServiceBinaryLocation ::
  "nat \<Rightarrow> scm_env \<Rightarrow> 'w service_hooks \<Rightarrow> string \<Rightarrow> 'w ServiceMode \<Rightarrow> (bool \<times> string \<times> 'w ServiceMode) option" where
  "GetServiceBinaryLocation fuel env hk rfOut s =
     (case GetServiceBinaryName fuel env hk [] s of
        None \<Rightarrow> None
      | Some (ok, binaryFullPath, s1) \<Rightarrow>
          if \<not> ok then
            let (e, s2) = sm_call env Scm_GetLastError s1
            in Some (False, rfOut, WriteEventLogEntry env hk
                 (std_format ''GetServiceBinaryName is not success, Name : {}, Version : {}, Error : {}''
                    [hk_GetServiceName hk, sm_FileVersion s2, dec (unat (sa_Error e))]) EVENTLOG_ERROR_TYPE s2)
          else
            let (location, filename) = path_split binaryFullPath
            in if filename = [] then Some (False, rfOut, s1) else Some (True, location, s1))"

section \<open>The SCM sees the state of the service\<close>

fun report_of :: "scm_event \<Rightarrow> SERVICE_STATUS list" where
  "report_of (Scm_SetServiceStatus st) = [st]"
| "report_of _ = []"

definition reports :: "scm_trace \<Rightarrow> SERVICE_STATUS list" where
  "reports tr = concat (map report_of tr)"

lemma reports_simps [simp]:
  "reports [] = []" "reports (e # tr) = report_of e @ reports tr" "reports (a @ b) = reports a @ reports b"
  by (simp_all add: reports_def)

text \<open>Check points: 0 in \<open>RUNNING\<close> and \<open>STOPPED\<close>, otherwise the values of a counter, without a gap.\<close>

abbreviation final_state :: "SERVICE_STATE \<Rightarrow> bool" where
  "final_state state \<equiv> state = SERVICE_RUNNING \<or> state = SERVICE_STOPPED"

fun checkpoints :: "u32 \<Rightarrow> SERVICE_STATUS list \<Rightarrow> u32 option" where
  "checkpoints c [] = Some c"
| "checkpoints c (st # sts) =
     (if dwCheckPoint st = (if final_state (dwCurrentState st) then 0 else c)
      then checkpoints (if final_state (dwCurrentState st) then c else c + 1) sts else None)"

lemma checkpoints_append:
  "checkpoints c (a @ b) = (case checkpoints c a of None \<Rightarrow> None | Some c' \<Rightarrow> checkpoints c' b)"
  by (induction a arbitrary: c) auto

definition status_inv :: "'w ServiceMode \<Rightarrow> bool" where
  "status_inv s \<longleftrightarrow> checkpoints 1 (reports (sm_Trace s)) = Some (sm_CheckPoint s) \<and>
     (reports (sm_Trace s) \<noteq> [] \<longrightarrow> last (reports (sm_Trace s)) = sm_Status s)"

abbreviation state_of :: "'w ServiceMode \<Rightarrow> SERVICE_STATE" where
  "state_of s \<equiv> dwCurrentState (sm_Status s)"

lemma status_inv_ctor: "status_inv (ServiceMode_ctor a b c 1 w)"
  by (simp add: status_inv_def ServiceMode_ctor_def Let_def)

lemma status_inv_set: "status_inv s \<Longrightarrow> status_inv (SetServiceStatus st e h s)"
  by (simp add: status_inv_def SetServiceStatus_def sm_log_def checkpoints_append Let_def)

lemma state_set [simp]:
  "state_of (SetServiceStatus st e h s) = st" "dwWin32ExitCode (sm_Status (SetServiceStatus st e h s)) = e"
  by (simp_all add: SetServiceStatus_def sm_log_def Let_def)

lemma set_reported [simp]: "reports (sm_Trace (SetServiceStatus st e h s)) \<noteq> []"
  by (simp add: SetServiceStatus_def sm_log_def Let_def)

text \<open>Steps that do not report a status.\<close>

definition quiet :: "'w ServiceMode \<Rightarrow> 'w ServiceMode \<Rightarrow> bool" where
  "quiet s s' \<longleftrightarrow> reports (sm_Trace s') = reports (sm_Trace s) \<and> sm_Status s' = sm_Status s \<and> sm_CheckPoint s' = sm_CheckPoint s"

lemma quiet_log: "report_of e = [] \<Longrightarrow> quiet s (sm_log e s)"
  by (simp add: quiet_def sm_log_def)

lemma quiet_trans: "quiet s t \<Longrightarrow> quiet t u \<Longrightarrow> quiet s u"
  by (simp add: quiet_def)

lemma quiet_entry:
  "quiet s (WriteEventLogEntry env hk m ty s)" "quiet s (WriteErrorLogEntry env hk m e s)"
  by (simp_all add: WriteErrorLogEntry_def WriteEventLogEntry_def sm_call_def sm_log_def quiet_def Let_def)

lemma quiet_hook: "quiet s (snd (call_hook f s))"
  by (simp add: call_hook_def quiet_def split: prod.splits)

lemma status_inv_quiet: "quiet s s' \<Longrightarrow> status_inv s \<Longrightarrow> status_inv s'"
  by (simp add: quiet_def status_inv_def)

lemma quiet_reports: "quiet s s' \<Longrightarrow> reports (sm_Trace s') = reports (sm_Trace s)"
  by (simp add: quiet_def)

lemma state_quiet: "quiet s s' \<Longrightarrow> state_of s' = state_of s"
  by (simp add: quiet_def)

lemma status_inv_steps:
  "status_inv s \<Longrightarrow> status_inv (WriteEventLogEntry env hk m ty s)"
  "status_inv s \<Longrightarrow> status_inv (WriteErrorLogEntry env hk m e s)"
  "status_inv s \<Longrightarrow> call_hook f s = (r, s') \<Longrightarrow> status_inv s'"
  using status_inv_quiet quiet_entry quiet_hook by (blast, blast, metis snd_conv)

lemma ops_status_inv:
  assumes "status_inv s"
  shows "status_inv (ServiceMode_Start env hk s)" "status_inv (ServiceMode_Pause env hk s)"
    "status_inv (ServiceMode_Stop env hk s)" "status_inv (ServiceMode_Continue env hk s)"
    "status_inv (ServiceMode_Shutdown env hk s)"
  using assms
  by (auto simp: ServiceMode_Start_def ServiceMode_Pause_def ServiceMode_Stop_def ServiceMode_Continue_def
      ServiceMode_Shutdown_def Let_def split: prod.splits option.splits exn.splits
      intro!: status_inv_set status_inv_steps(1,2) dest!: status_inv_steps(3)[rotated])


definition settled :: "SERVICE_STATE \<Rightarrow> bool" where
  "settled state \<longleftrightarrow> state \<in> {SERVICE_STOPPED, SERVICE_RUNNING, SERVICE_PAUSED}"

lemma state_ops:
  "state_of (ServiceMode_Start env hk s) \<in> {SERVICE_RUNNING, SERVICE_STOPPED}"
  "state_of (ServiceMode_Pause env hk s) \<in> {SERVICE_RUNNING, SERVICE_PAUSED}"
  "state_of (ServiceMode_Stop env hk s) \<in> {SERVICE_STOPPED, state_of s}"
  "state_of (ServiceMode_Continue env hk s) \<in> {SERVICE_RUNNING, SERVICE_PAUSED}"
  by (auto simp: ServiceMode_Start_def ServiceMode_Pause_def ServiceMode_Stop_def ServiceMode_Continue_def Let_def
      split: prod.splits option.splits exn.splits)

lemma Shutdown_cases:
  "(\<exists>t. ServiceMode_Shutdown env hk s = SetServiceStatus SERVICE_STOPPED 0 0 t) \<or> quiet s (ServiceMode_Shutdown env hk s)"
proof -
  let ?s1 = "WriteEventLogEntry env hk (hk_GetServiceName hk @ '' is shutdown'') EVENTLOG_INFORMATION_TYPE s"
  have q: "quiet s (snd (call_hook (hk_OnShutdown hk) ?s1))" by (rule quiet_trans[OF quiet_entry(1) quiet_hook])
  show ?thesis
    using quiet_trans[OF q quiet_entry(1)] quiet_trans[OF q quiet_entry(2)]
    by (auto simp: ServiceMode_Shutdown_def Let_def split: prod.splits option.splits exn.splits)
qed

lemma state_Shutdown: "state_of (ServiceMode_Shutdown env hk s) \<in> {SERVICE_STOPPED, state_of s}"
  using Shutdown_cases[of env hk s] state_quiet by fastforce

lemma handler_settled: "settled (state_of s) \<Longrightarrow> settled (state_of (ServiceCtrlHandler env hk c s))"
  using state_ops(2-4)[of env hk s] state_Shutdown[of env hk s]
  by (cases c) (auto simp: ServiceCtrlHandler_def settled_def)

lemma handler_inv: "status_inv s \<Longrightarrow> status_inv (ServiceCtrlHandler env hk c s)"
  by (cases c) (simp_all add: ServiceCtrlHandler_def ops_status_inv)

lemma handler_reported:
  assumes "reports (sm_Trace s) \<noteq> []"
  shows "reports (sm_Trace (ServiceCtrlHandler env hk c s)) \<noteq> []"
proof -
  have "reports (sm_Trace (ServiceMode_Shutdown env hk s)) \<noteq> []"
    using Shutdown_cases[of env hk s] assms by (auto simp: quiet_def)
  then show ?thesis
    using assms
    by (cases c) (auto simp: ServiceCtrlHandler_def ServiceMode_Pause_def ServiceMode_Stop_def ServiceMode_Continue_def
        Let_def split: prod.splits option.splits exn.splits)
qed

lemma ServiceMain_ok:
  assumes "fst (ServiceMain env hk s) = None" "status_inv s"
  shows "status_inv (snd (ServiceMain env hk s))" "settled (state_of (snd (ServiceMain env hk s)))"
    "reports (sm_Trace (snd (ServiceMain env hk s))) \<noteq> []"
proof -
  let ?s = "(sm_log (Scm_RegisterServiceCtrlHandler (hk_GetServiceName hk)) s)\<lparr>sm_StatusHandle :=
    sa_Value (env (sm_Trace s) (Scm_RegisterServiceCtrlHandler (hk_GetServiceName hk)))\<rparr>"
  have eq: "snd (ServiceMain env hk s) = ServiceMode_Start env hk ?s"
    using assms(1) by (auto simp: ServiceMain_def sm_call_def Let_def split: if_splits)
  have "quiet s ?s" by (simp add: quiet_def sm_log_def)
  from status_inv_quiet[OF this assms(2)] show "status_inv (snd (ServiceMain env hk s))" unfolding eq by (rule ops_status_inv)
  show "settled (state_of (snd (ServiceMain env hk s)))" unfolding eq using state_ops(1)[of env hk ?s] by (auto simp: settled_def)
  show "reports (sm_Trace (snd (ServiceMain env hk s))) \<noteq> []"
    unfolding eq by (auto simp: ServiceMode_Start_def Let_def split: prod.splits option.splits exn.splits)
qed

lemma controls_ok:
  fixes env hk cs
  assumes "status_inv s" "settled (state_of s)" "reports (sm_Trace s) \<noteq> []"
  defines "s' \<equiv> fold (ServiceCtrlHandler env hk) cs s"
  shows "status_inv s' \<and> settled (state_of s') \<and> reports (sm_Trace s') \<noteq> []"
  unfolding s'_def using assms(1-3)
  by (induction cs arbitrary: s) (auto simp: handler_inv handler_settled handler_reported)

text \<open>C24: once \<open>ServiceMain\<close> has come through, then after any sequence of control requests, and
  whatever exceptions the hooks throw, the service is in one of the states stopped, running and
  paused (never left in a pending one), the status the SCM was told last is the one the
  object holds, and the check points of all reports are 0 in running and stopped and count
  up from 1 without a gap otherwise.\<close>

theorem service_status_settles:
  fixes env hk cs
  assumes "fst (ServiceMain env hk (ServiceMode_ctor a b c 1 w)) = None"
  defines "s \<equiv> fold (ServiceCtrlHandler env hk) cs (snd (ServiceMain env hk (ServiceMode_ctor a b c 1 w)))"
  shows "settled (state_of s) \<and> last (reports (sm_Trace s)) = sm_Status s \<and>
    checkpoints 1 (reports (sm_Trace s)) = Some (sm_CheckPoint s)"
  using controls_ok[OF ServiceMain_ok[OF assms(1) status_inv_ctor], of env hk cs] unfolding s_def by (auto simp: status_inv_def)


text \<open>A server whose \<open>OnStopped\<close> fails, for the witnesses.\<close>

definition demo_hooks :: "unit service_hooks" where
  "demo_hooks = \<lparr>hk_OnStarted = \<lambda>w. (None, w), hk_OnStopped = \<lambda>w. (Some (Exn_DWORD 5), w), hk_OnPaused = \<lambda>w. (None, w),
     hk_OnContinue = \<lambda>w. (None, w), hk_OnShutdown = \<lambda>w. (None, w), hk_GetServiceName = ''x'', hk_GetDisplayName = ''x'',
     hk_GetStartType = SERVICE_DEMAND_START\<rparr>"

theorem service_status_settles_witness:
  "settled (state_of (ServiceCtrlHandler (\<lambda>_ _. demo_scm SERVICE_STOPPED 0) demo_hooks SERVICE_CONTROL_STOP
     (snd (ServiceMain (\<lambda>_ _. demo_scm SERVICE_STOPPED 0) demo_hooks (ServiceMode_ctor True True False 1 ())))))"
  using service_status_settles[of "\<lambda>_ _. demo_scm SERVICE_STOPPED 0" demo_hooks True True False "()" "[SERVICE_CONTROL_STOP]"]
  by (simp add: ServiceMain_def sm_call_def demo_scm_def)

text \<open>What an exception in a hook leads to. A failed stop puts the service back into the state
  it had, a failed pause leaves it running, a failed resume paused; a failed start ends in the
  state stopped with the thrown \<open>DWORD\<close> as exit code, and a failed shutdown reports nothing.\<close>

theorem failed_hook_outcome:
  "(fst (hk_OnStopped hk (sm_Server s)) = Some e \<longrightarrow> state_of (ServiceMode_Stop env hk s) = state_of s) \<and>
   (fst (hk_OnPaused hk (sm_Server s)) = Some e \<longrightarrow> state_of (ServiceMode_Pause env hk s) = SERVICE_RUNNING) \<and>
   (fst (hk_OnContinue hk (sm_Server s)) = Some e \<longrightarrow> state_of (ServiceMode_Continue env hk s) = SERVICE_PAUSED) \<and>
   (fst (hk_OnStarted hk (sm_Server s)) = Some e \<longrightarrow>
      state_of (ServiceMode_Start env hk s) = SERVICE_STOPPED \<and>
      dwWin32ExitCode (sm_Status (ServiceMode_Start env hk s)) = (case e of Exn_DWORD d \<Rightarrow> d | Exn_Other \<Rightarrow> 0)) \<and>
   (fst (hk_OnShutdown hk (sm_Server s)) = Some e \<longrightarrow>
      reports (sm_Trace (ServiceMode_Shutdown env hk s)) = reports (sm_Trace s))"
proof -
  have server: "sm_Server (WriteEventLogEntry env hk m ty t) = sm_Server t" "sm_Server (SetServiceStatus x c h t) = sm_Server t"
    for m ty t x c h
    by (simp_all add: WriteEventLogEntry_def SetServiceStatus_def sm_call_def sm_log_def Let_def)
  have q: "reports (sm_Trace (WriteEventLogEntry env hk m ty t)) = reports (sm_Trace t)"
    "reports (sm_Trace (WriteErrorLogEntry env hk m d t)) = reports (sm_Trace t)" for m ty t d
    by (rule quiet_reports[OF quiet_entry(1)], rule quiet_reports[OF quiet_entry(2)])
  show ?thesis
    by (simp add: ServiceMode_Stop_def ServiceMode_Pause_def ServiceMode_Continue_def ServiceMode_Start_def
        ServiceMode_Shutdown_def call_hook_def server q Let_def split: prod.splits option.splits exn.splits)
qed

theorem failed_hook_outcome_witness:
  "state_of (ServiceMode_Stop (\<lambda>_ _. demo_scm SERVICE_STOPPED 0) demo_hooks (ServiceMode_ctor True True False 1 ())) = SERVICE_START_PENDING"
  using failed_hook_outcome[of demo_hooks "ServiceMode_ctor True True False 1 ()" "Exn_DWORD 5" "\<lambda>_ _. demo_scm SERVICE_STOPPED 0"]
  by (simp add: demo_hooks_def ServiceMode_ctor_def Let_def)

text \<open>A command of the command line does not end the program. After installing, removing or
  stopping the service a release build goes on to the dispatcher of the SCM, as it does
  without any command; only \<open>help\<close> returns before.\<close>

theorem execute_always_dispatches:
  assumes "count ''help'' = 0" "ServiceMode_Execute False fuel count env hk s = Some (r, s')"
  shows "Scm_StartServiceCtrlDispatcher (hk_GetServiceName hk) \<in> set (sm_Trace s') \<and> r = Inr True"
proof -
  have keep: "set (sm_Trace t) \<subseteq> set (sm_Trace (WriteEventLogEntry env hk m ty t))" for m ty t
    by (auto simp: WriteEventLogEntry_def sm_call_def sm_log_def Let_def)
  have run: "Scm_StartServiceCtrlDispatcher (hk_GetServiceName hk) \<in> set (sm_Trace (snd (ServiceMode_Run False env hk t))) \<and>
    (\<exists>b. fst (ServiceMode_Run False env hk t) = Inr b)" for t
    by (auto simp: ServiceMode_Run_def sm_call_def sm_log_def Let_def intro!: subsetD[OF keep])
  obtain s1 where s1: "execute_command fuel count env hk s = Some s1"
    using assms by (cases "execute_command fuel count env hk s") (auto simp: ServiceMode_Execute_def)
  show ?thesis
    using run[of s1] assms s1 by (auto simp: ServiceMode_Execute_def split: prod.splits sum.splits)
qed

lemma install_command_returns: "count ''install'' \<noteq> 0 \<Longrightarrow> \<exists>s'. execute_command fuel count env hk s = Some s'"
  by (simp add: execute_command_def sm_installer_def Let_def split: prod.splits bool.splits)

theorem execute_always_dispatches_witness:
  "\<exists>s'. ServiceMode_Execute False 1 (\<lambda>o'. if o' = ''install'' then 1 else 0) (\<lambda>_ _. demo_scm SERVICE_STOPPED 0) demo_hooks
     (ServiceMode_ctor True True False 1 ()) = Some (Inr True, s') \<and>
     Scm_StartServiceCtrlDispatcher ''x'' \<in> set (sm_Trace s')"
proof -
  let ?c = "\<lambda>o'. if o' = ''install'' then 1 else (0::nat)" and ?e = "\<lambda>_ _. demo_scm SERVICE_STOPPED 0"
    and ?s = "ServiceMode_ctor True True False 1 ()"
  obtain s1 where "execute_command 1 ?c ?e demo_hooks ?s = Some s1" using install_command_returns[of ?c 1 ?e demo_hooks ?s] by auto
  then have "ServiceMode_Execute False 1 ?c ?e demo_hooks ?s \<noteq> None"
    by (simp add: ServiceMode_Execute_def split: prod.splits)
  then obtain r s' where e: "ServiceMode_Execute False 1 ?c ?e demo_hooks ?s = Some (r, s')" by auto
  show ?thesis using execute_always_dispatches[OF _ e] e by (simp add: demo_hooks_def)
qed

end
