(* ===== verification/Server_Modes.thy ===== *)
theory Server_Modes
  imports Periodic_Jobs Socket_Acceptor Rio_Inbound Rio_Service Service_Mode
begin

text \<open>
  The two servers: \<open>IOCPServiceMode\<close> (\<open>FastPortServer/IOCPServiceMode.cpp\<close>) and \<open>RIOServiceMode\<close>
  (\<open>FastPortServerRIO/RIOServiceMode.cpp\<close>). They put the components together when the service starts
  and take them down when it stops or the system shuts down. A component that is a member
  \<open>shared_ptr\<close> is an \<open>option\<close>; the timer queue is the process-wide one. \<open>OnStarted\<close> is called once, on
  a new object, so the members it sets are null before.

  Parameters: Winsock (\<open>env\<close>), the thread pool (\<open>tpOk\<close>), the clock (\<open>nowSteady\<close>), the number of
  processors (\<open>hw\<close>), the address of the acceptor (\<open>cid\<close>), what one sample of the sampler reads.
\<close>

section \<open>IOCPServiceMode\<close>

record IOCPServiceMode =
  iv_AdminGlobal :: bool
  iv_bRunning :: bool
  iv_ListenSocket :: Socket
  iv_Acceptor :: "IOSocketAcceptor option"
  iv_IdleChecker :: "SessionIdleChecker option"
  iv_StatsSampler :: "StatsSampler option"
  iv_StatsCollector :: "ServerStatsCollector option"
  iv_AdminHandler :: bool
  iv_Timers :: TimerQueue
  iv_Trace :: trace

definition kSessionBufferSize :: nat where "kSessionBufferSize = 64 * 1024"
definition kListenBacklog :: nat where "kListenBacklog = 1024"
definition kInitialAcceptCount :: nat where "kInitialAcceptCount = 256"

definition IOCPServiceMode_ctor :: "TimerQueue \<Rightarrow> IOCPServiceMode" where
  "IOCPServiceMode_ctor tq =
     \<lparr>iv_AdminGlobal = False, iv_bRunning = False, iv_ListenSocket = Socket_of_handle INVALID_SOCKET, iv_Acceptor = None,
      iv_IdleChecker = None, iv_StatsSampler = None, iv_StatsCollector = None, iv_AdminHandler = False,
      iv_Timers = tq, iv_Trace = []\<rparr>"

text \<open>The global is set exactly while the handler is alive.\<close>

definition GetGlobalIOCPAdminHandler :: "IOCPServiceMode \<Rightarrow> bool" where
  "GetGlobalIOCPAdminHandler s = iv_AdminGlobal s"

text \<open>The factory of the acceptor and the two snapshots of the session container.\<close>

definition iocp_create_session ::
  "(u64, u64) Container \<Rightarrow> u64 \<Rightarrow> Socket \<Rightarrow> CircleBufferQueue IOCPInboundSession \<times> u64" where
  "iocp_create_session sessions nextId pSocket =
     IOCPInboundSession_ctor sessions nextId (Some pSocket)
       (Some (CircleBufferQueue_ctor kSessionBufferSize)) (Some (CircleBufferQueue_ctor kSessionBufferSize))"

definition session_snapshot :: "(u64, 'p option) Container \<Rightarrow> 'p list" where
  "session_snapshot container =
     Container_ForEach (\<lambda>_ pSession result. case pSession of None \<Rightarrow> result | Some p \<Rightarrow> result @ [p]) container []"

definition iocp_idle_config :: IdleCheckerConfig where
  "iocp_idle_config = \<lparr>cfg_thresholdMs = 60000, cfg_tickIntervalMs = 1000, cfg_enabled = True\<rparr>"

definition sampler_config :: SamplerConfig where
  "sampler_config = \<lparr>sc_tickIntervalMs = 1000, sc_enabled = True\<rparr>"

text \<open>The count of the admin summary: the checker is captured by value.\<close>

definition idle_count :: "SessionIdleChecker option \<Rightarrow> u64" where
  "idle_count pChecker = (case pChecker of None \<Rightarrow> 0 | Some c \<Rightarrow> ic_DisconnectCount c)"

definition IOCPServiceMode_OnStarted ::
  "env \<Rightarrow> (tp_event list \<Rightarrow> bool) \<Rightarrow> nat \<Rightarrow> nat \<Rightarrow> int \<Rightarrow>
   ((u32 \<times> u32) \<times> (u32 \<times> u32)) option \<times> (u32 \<times> u32) \<times> u64 option \<Rightarrow> IOCPServiceMode \<Rightarrow> IOCPServiceMode" where
  "IOCPServiceMode_OnStarted env tpOk cid hw nowSteady smp s =
     (let (acceptor, _, tr) = IOSocketAcceptor_Create env cid IOCP (iv_ListenSocket s) 6628 kListenBacklog (hw * 2)
            kInitialAcceptCount (iv_Trace s);
          s1 = s\<lparr>iv_Acceptor := acceptor, iv_Trace := tr, iv_bRunning := (acceptor \<noteq> None)\<rparr>;
          (checker, tq1) = SessionIdleChecker_Start tpOk 0 (SessionIdleChecker_ctor iocp_idle_config) (iv_Timers s1);
          s2 = s1\<lparr>iv_IdleChecker := Some checker, iv_Timers := tq1\<rparr>;
          (sampler, tq2) = StatsSampler_Start tpOk 1 (DoSample (fst smp) (fst (snd smp)) (snd (snd smp)))
            (StatsSampler_ctor sampler_config) (iv_Timers s2);
          s3 = s2\<lparr>iv_StatsSampler := Some sampler, iv_Timers := tq2\<rparr>
      in s3\<lparr>iv_StatsCollector := Some (ServerStatsCollector_ctor SM_IOCP nowSteady), iv_AdminHandler := True,
            iv_AdminGlobal := True\<rparr>)"

text \<open>The part \<open>OnStopped\<close> and \<open>OnShutdown\<close> share.\<close>

definition iocp_take_down :: "IOCPServiceMode \<Rightarrow> IOCPServiceMode" where
  "iocp_take_down s =
     (let s0 = s\<lparr>iv_AdminGlobal := False\<rparr>;
          s1 = (case iv_IdleChecker s0 of
                  None \<Rightarrow> s0
                | Some c \<Rightarrow> s0\<lparr>iv_IdleChecker := None, iv_Timers := snd (SessionIdleChecker_Stop c (iv_Timers s0))\<rparr>);
          s2 = (case iv_StatsSampler s1 of
                  None \<Rightarrow> s1
                | Some p \<Rightarrow>
                    let (p', tq) = StatsSampler_Stop p (iv_Timers s1)
                    in s1\<lparr>iv_StatsSampler := Some p', iv_Timers := tq\<rparr>)
      in s2\<lparr>iv_AdminHandler := False, iv_StatsCollector := None, iv_StatsSampler := None\<rparr>)"

definition IOCPServiceMode_OnStopped :: "IOCPServiceMode \<Rightarrow> IOCPServiceMode" where
  "IOCPServiceMode_OnStopped s = iocp_take_down s"

definition IOCPServiceMode_OnShutdown :: "env \<Rightarrow> IOCPServiceMode \<Rightarrow> IOCPServiceMode \<times> IOSocketAcceptor option" where
  "IOCPServiceMode_OnShutdown env s =
     (let s1 = iocp_take_down s in
      case iv_Acceptor s1 of
        None \<Rightarrow> (s1, None)
      | Some a \<Rightarrow>
          let (a', tr) = IOSocketAcceptor_Shutdown env (a, iv_Trace s1)
          in (s1\<lparr>iv_Acceptor := None, iv_Trace := tr\<rparr>, Some a'))"

section \<open>RIOServiceMode\<close>

record RIOServiceMode =
  rv_AdminGlobal :: bool
  rv_bRunning :: bool
  rv_Extension :: RioExtension
  rv_ListenSocket :: Socket
  rv_Dummy :: Socket
  rv_Acceptor :: "IOSocketAcceptor option"
  rv_RioService :: "RIOService option"
  rv_BufferManager :: "RioBufferManager option"
  rv_StatsSampler :: "StatsSampler option"
  rv_StatsCollector :: "ServerStatsCollector option"
  rv_AdminHandler :: bool
  rv_Timers :: TimerQueue
  rv_Trace :: trace
  rv_ServiceTrace :: "rio_service_event list"

definition C_RIO_RECV_BUFFER_SIZE :: u32 where "C_RIO_RECV_BUFFER_SIZE = 16 * 1024"
definition C_RIO_SEND_BUFFER_SIZE :: u32 where "C_RIO_SEND_BUFFER_SIZE = 16 * 1024"
definition C_RIO_POOL_SIZE :: u32 where "C_RIO_POOL_SIZE = 1024 * 1024 * 64"

definition RIOServiceMode_ctor :: "RioExtension \<Rightarrow> TimerQueue \<Rightarrow> RIOServiceMode" where
  "RIOServiceMode_ctor ext tq =
     \<lparr>rv_AdminGlobal = False, rv_bRunning = False, rv_Extension = ext, rv_ListenSocket = Socket_of_handle INVALID_SOCKET,
      rv_Dummy = Socket_of_handle INVALID_SOCKET, rv_Acceptor = None, rv_RioService = None, rv_BufferManager = None,
      rv_StatsSampler = None, rv_StatsCollector = None, rv_AdminHandler = False, rv_Timers = tq, rv_Trace = [],
      rv_ServiceTrace = []\<rparr>"

definition GetGlobalRIOAdminHandler :: "RIOServiceMode \<Rightarrow> bool" where
  "GetGlobalRIOAdminHandler s = rv_AdminGlobal s"

text \<open>The factory: the answers of \<open>AllocateSlice\<close> and of \<open>Initialize\<close> are not looked at.\<close>

definition rio_create_session ::
  "rio_env \<Rightarrow> (u64, u64) Container \<Rightarrow> nat option \<Rightarrow> u64 \<Rightarrow> Socket \<Rightarrow> RioBufferManager \<Rightarrow>
   RIOInboundSession \<times> u64 \<times> RioBufferManager" where
  "rio_create_session env sessions cq nextId pSocket m =
     (let (_, recvSlice, m1) = RioBufferManager_AllocateSlice C_RIO_RECV_BUFFER_SIZE RioBufferSlice_default m;
          (_, sendSlice, m2) = RioBufferManager_AllocateSlice C_RIO_SEND_BUFFER_SIZE RioBufferSlice_default m1;
          pool = (case bm_pBuffer m2 of None \<Rightarrow> [] | Some b \<Rightarrow> b);
          (pSession, next) = RIOInboundSession_ctor env sessions nextId pool pSocket recvSlice sendSlice cq
      in (snd (RIOSession_Initialize pSession), next, m2))"

text \<open>\<open>ioctl\<close>, \<open>cq\<close> and \<open>mem\<close> are the answers of \<open>WSAIoctl\<close>, of \<open>RIOCreateCompletionQueue\<close> and of the
  allocation and registration of the pool.\<close>

definition RIOServiceMode_OnStarted ::
  "env \<Rightarrow> (tp_event list \<Rightarrow> bool) \<Rightarrow> nat \<Rightarrow> nat \<Rightarrow> int \<Rightarrow>
   ((u32 \<times> u32) \<times> (u32 \<times> u32)) option \<times> (u32 \<times> u32) \<times> u64 option \<Rightarrow>
   nat option \<Rightarrow> nat option \<Rightarrow> bool \<times> nat option \<Rightarrow> RIOServiceMode \<Rightarrow> RIOServiceMode" where
  "RIOServiceMode_OnStarted env tpOk cid hw nowSteady smp ioctl cq mem s =
     (let (_, dummy, tr1) = Socket_CreateSocket env RIO (rv_Dummy s, rv_Trace s);
          (extOk, ext) = RioExtension_Initialize ioctl (m_Socket dummy) (rv_Extension s);
          s1 = s\<lparr>rv_Dummy := dummy, rv_Trace := tr1, rv_Extension := ext\<rparr>
      in if \<not> extOk then s1
         else
           let (dummy2, tr2) = Socket_Close (dummy, tr1);
               (svcOk, svc, str) = RIOService_Initialize cq 1024 (RIOService_default, rv_ServiceTrace s1);
               s2 = s1\<lparr>rv_Dummy := dummy2, rv_Trace := tr2, rv_RioService := Some svc, rv_ServiceTrace := str\<rparr>
           in if \<not> svcOk then s2
              else
                let (poolOk, m) = RioBufferManager_Initialize (fst mem) (snd mem) C_RIO_POOL_SIZE RioBufferManager_default;
                    s3 = s2\<lparr>rv_BufferManager := Some m\<rparr>
                in if \<not> poolOk then s3
                   else
                     let (acceptor, _, tr4) = IOSocketAcceptor_Create env cid RIO (rv_ListenSocket s3) 6628 5 (hw * 2) 2
                           (rv_Trace s3);
                         (_, svc5, str5) = RIOService_Start 1 (svc, rv_ServiceTrace s3);
                         s5 = s3\<lparr>rv_Acceptor := acceptor, rv_Trace := tr4, rv_RioService := Some svc5,
                                 rv_ServiceTrace := str5, rv_bRunning := (acceptor \<noteq> None)\<rparr>;
                         (sampler, tq) = StatsSampler_Start tpOk 1 (DoSample (fst smp) (fst (snd smp)) (snd (snd smp)))
                           (StatsSampler_ctor sampler_config) (rv_Timers s5)
                     in s5\<lparr>rv_StatsSampler := Some sampler, rv_Timers := tq,
                           rv_StatsCollector := Some (ServerStatsCollector_ctor SM_RIO nowSteady), rv_AdminHandler := True,
                           rv_AdminGlobal := True\<rparr>)"

definition rio_take_down :: "RIOServiceMode \<Rightarrow> RIOServiceMode" where
  "rio_take_down s =
     (let s0 = s\<lparr>rv_AdminGlobal := False\<rparr>;
          s1 = (case rv_StatsSampler s0 of
                  None \<Rightarrow> s0
                | Some p \<Rightarrow>
                    let (p', tq) = StatsSampler_Stop p (rv_Timers s0)
                    in s0\<lparr>rv_StatsSampler := Some p', rv_Timers := tq\<rparr>)
      in s1\<lparr>rv_AdminHandler := False, rv_StatsCollector := None, rv_StatsSampler := None\<rparr>)"

definition RIOServiceMode_OnStopped :: "RIOServiceMode \<Rightarrow> RIOServiceMode" where
  "RIOServiceMode_OnStopped s =
     (let s1 = rio_take_down s in
      case rv_RioService s1 of
        None \<Rightarrow> s1
      | Some svc \<Rightarrow>
          let (_, str) = RIOService_Stop (svc, rv_ServiceTrace s1)
          in s1\<lparr>rv_RioService := None, rv_ServiceTrace := str\<rparr>)"

definition RIOServiceMode_OnShutdown :: "env \<Rightarrow> RIOServiceMode \<Rightarrow> RIOServiceMode \<times> IOSocketAcceptor option" where
  "RIOServiceMode_OnShutdown env s =
     (let s1 = rio_take_down s in
      case rv_Acceptor s1 of
        None \<Rightarrow> (s1, None)
      | Some a \<Rightarrow>
          let (a', tr) = IOSocketAcceptor_Shutdown env (a, rv_Trace s1)
          in (s1\<lparr>rv_Acceptor := None, rv_Trace := tr\<rparr>, Some a'))"

text \<open>The virtual functions the two classes override; none of them throws.\<close>

definition iocp_hooks ::
  "env \<Rightarrow> (tp_event list \<Rightarrow> bool) \<Rightarrow> nat \<Rightarrow> nat \<Rightarrow> int \<Rightarrow>
   ((u32 \<times> u32) \<times> (u32 \<times> u32)) option \<times> (u32 \<times> u32) \<times> u64 option \<Rightarrow> IOCPServiceMode service_hooks" where
  "iocp_hooks env tpOk cid hw nowSteady smp =
     \<lparr>hk_OnStarted = \<lambda>s. (None, IOCPServiceMode_OnStarted env tpOk cid hw nowSteady smp s),
      hk_OnStopped = \<lambda>s. (None, IOCPServiceMode_OnStopped s),
      hk_OnPaused = \<lambda>s. (None, s), hk_OnContinue = \<lambda>s. (None, s),
      hk_OnShutdown = \<lambda>s. (None, fst (IOCPServiceMode_OnShutdown env s)),
      hk_GetServiceName = ''FastPortServerIOCP'', hk_GetDisplayName = ''FastPortServer IOCP Service'',
      hk_GetStartType = SERVICE_DEMAND_START\<rparr>"

definition rio_hooks ::
  "env \<Rightarrow> (tp_event list \<Rightarrow> bool) \<Rightarrow> nat \<Rightarrow> nat \<Rightarrow> int \<Rightarrow>
   ((u32 \<times> u32) \<times> (u32 \<times> u32)) option \<times> (u32 \<times> u32) \<times> u64 option \<Rightarrow>
   nat option \<Rightarrow> nat option \<Rightarrow> bool \<times> nat option \<Rightarrow> RIOServiceMode service_hooks" where
  "rio_hooks env tpOk cid hw nowSteady smp ioctl cq mem =
     \<lparr>hk_OnStarted = \<lambda>s. (None, RIOServiceMode_OnStarted env tpOk cid hw nowSteady smp ioctl cq mem s),
      hk_OnStopped = \<lambda>s. (None, RIOServiceMode_OnStopped s),
      hk_OnPaused = \<lambda>s. (None, s), hk_OnContinue = \<lambda>s. (None, s),
      hk_OnShutdown = \<lambda>s. (None, fst (RIOServiceMode_OnShutdown env s)),
      hk_GetServiceName = ''FastPortServerRIO'', hk_GetDisplayName = ''FastPortServer RIO Service'',
      hk_GetStartType = SERVICE_DEMAND_START\<rparr>"

section \<open>Stopping the IOCP server\<close>

text \<open>A started server: the two jobs are active and the registered timers are theirs.\<close>

definition iocp_started :: "IOCPServiceMode \<Rightarrow> bool" where
  "iocp_started s \<longleftrightarrow> tq_inv (iv_Timers s) \<and> iv_AdminGlobal s \<and>
     (\<exists>c p. iv_IdleChecker s = Some c \<and> iv_StatsSampler s = Some p \<and> ic_Running c \<and> sp_Running p \<and>
        timer_ids (iv_Timers s) \<subseteq> {ic_TimerId c, sp_TimerId p})"

lemma iocp_OnStarted_started:
  assumes "tq_inv tq" "timer_ids tq = {}"
  shows "iocp_started (IOCPServiceMode_OnStarted env tpOk cid hw now smp (IOCPServiceMode_ctor tq))"
proof -
  let ?c0 = "SessionIdleChecker_ctor iocp_idle_config" and ?p0 = "StatsSampler_ctor sampler_config"
  let ?f = "DoSample (fst smp) (fst (snd smp)) (snd (snd smp))"
  have off: "\<not> ic_Running ?c0" "\<not> sp_Running ?p0" "cfg_enabled (ic_Config ?c0)" "sc_enabled (sp_Config ?p0)"
    by (simp_all add: SessionIdleChecker_ctor_def StatsSampler_ctor_def iocp_idle_config_def sampler_config_def)
  obtain c tq1 where c: "SessionIdleChecker_Start tpOk 0 ?c0 tq = (c, tq1)" by fastforce
  obtain p tq2 where p: "StatsSampler_Start tpOk 1 ?f ?p0 tq1 = (p, tq2)" by fastforce
  have 1: "tq_inv tq1" "timer_ids tq1 \<subseteq> {ic_TimerId c}" "ic_Running c"
    using idle_job.start_ids[OF assms(1) off(1), of tpOk 0] c assms(2) off(3) by auto
  have 2: "tq_inv tq2" "timer_ids tq2 \<subseteq> insert (sp_TimerId p) (timer_ids tq1)" "sp_Running p"
    using sampler_job.start_ids[OF 1(1) off(2), where tpOk = tpOk and task = 1 and procTimes = "fst smp"
        and sysNow = "fst (snd smp)" and workingSet = "snd (snd smp)"] p off(4) by auto
  show ?thesis
    using 1 2 c p by (auto simp: iocp_started_def IOCPServiceMode_OnStarted_def IOCPServiceMode_ctor_def Let_def split: prod.splits)
qed

definition taken_down :: "IOCPServiceMode \<Rightarrow> bool" where
  "taken_down s \<longleftrightarrow> \<not> GetGlobalIOCPAdminHandler s \<and> \<not> iv_AdminHandler s \<and> iv_StatsCollector s = None \<and>
     iv_StatsSampler s = None \<and> iv_IdleChecker s = None \<and> tq_inv (iv_Timers s) \<and> timer_ids (iv_Timers s) = {}"

lemma iocp_take_down_ok:
  assumes "iocp_started s"
  shows "taken_down (iocp_take_down s)" "iv_Acceptor (iocp_take_down s) = iv_Acceptor s"
    "iv_Trace (iocp_take_down s) = iv_Trace s"
proof -
  obtain c p where cp: "tq_inv (iv_Timers s)" "iv_IdleChecker s = Some c" "iv_StatsSampler s = Some p" "ic_Running c" "sp_Running p"
    "timer_ids (iv_Timers s) \<subseteq> {ic_TimerId c, sp_TimerId p}" using assms by (auto simp: iocp_started_def)
  note 1 = idle_job.stop_ids[OF cp(1,4)]
  note 2 = sampler_job.stop_ids[OF 1(1) cp(5)]
  have "timer_ids (snd (StatsSampler_Stop p (snd (SessionIdleChecker_Stop c (iv_Timers s))))) = {}"
    unfolding 2(2) 1(2) using cp(6) by blast
  then show "taken_down (iocp_take_down s)" "iv_Acceptor (iocp_take_down s) = iv_Acceptor s"
    "iv_Trace (iocp_take_down s) = iv_Trace s"
    using 2(1) cp by (simp_all add: taken_down_def iocp_take_down_def GetGlobalIOCPAdminHandler_def Let_def split_beta)
qed

text \<open>The life cycle of the IOCP server. After \<open>OnStarted\<close> and then \<open>OnStopped\<close> or \<open>OnShutdown\<close> the
  admin handler can no longer be reached, sampler, collector and idle checker are gone and no
  timer is registered any more. \<open>OnShutdown\<close> has also closed the listening socket and joined
  every I/O worker; \<open>OnStopped\<close> has not: the acceptor is the one \<open>OnStarted\<close> made, and it still
  accepts.\<close>

theorem iocp_server_lifecycle:
  fixes env :: env and tpOk cid hw now smp
  assumes "tq_inv tq" "timer_ids tq = {}"
  defines "s \<equiv> IOCPServiceMode_OnStarted env tpOk cid hw now smp (IOCPServiceMode_ctor tq)"
  shows "taken_down (IOCPServiceMode_OnStopped s) \<and> iv_Acceptor (IOCPServiceMode_OnStopped s) = iv_Acceptor s \<and>
    taken_down (fst (IOCPServiceMode_OnShutdown env s)) \<and> iv_Acceptor (fst (IOCPServiceMode_OnShutdown env s)) = None \<and>
    (\<forall>a'. snd (IOCPServiceMode_OnShutdown env s) = Some a' \<longrightarrow>
       m_Socket (a_ListenerSocket a') = INVALID_SOCKET \<and> \<not> a_Executed a' \<and>
       (\<forall>svc. a_pService a' = Some svc \<longrightarrow> ios_Workers svc = 0 \<and> ios_Terminated svc))"
proof -
  have st: "iocp_started s" unfolding s_def by (rule iocp_OnStarted_started[OF assms(1,2)])
  note t = iocp_take_down_ok[OF st]
  have stop: "taken_down (IOCPServiceMode_OnStopped s)" "iv_Acceptor (IOCPServiceMode_OnStopped s) = iv_Acceptor s"
    using t by (simp_all add: IOCPServiceMode_OnStopped_def)
  show ?thesis
  proof (cases "iv_Acceptor s")
    case None
    then show ?thesis using stop t by (simp add: IOCPServiceMode_OnShutdown_def)
  next
    case (Some a)
    obtain a' tr where sd: "IOSocketAcceptor_Shutdown env (a, iv_Trace s) = (a', tr)" by fastforce
    have "taken_down (u\<lparr>iv_Acceptor := x, iv_Trace := y\<rparr>) = taken_down u" for u x y
      by (simp add: taken_down_def GetGlobalIOCPAdminHandler_def)
    then show ?thesis
      using stop t Some sd Shutdown_state(3-5)[of env a "iv_Trace s"]
      by (auto simp: IOCPServiceMode_OnShutdown_def)
  qed
qed

theorem iocp_server_lifecycle_witness:
  "taken_down (IOCPServiceMode_OnStopped (IOCPServiceMode_OnStarted (\<lambda>_ _. 0) (\<lambda>_. True) 7 2 0 (None, (0, 0), None)
     (IOCPServiceMode_ctor TimerQueue_ctor)))"
  using iocp_server_lifecycle[OF tq_inv_ctor, of "\<lambda>_ _. 0" "\<lambda>_. True" 7 2 0 "(None, (0, 0), None)"]
  by (simp add: timer_ids_def TimerQueue_ctor_def)

section \<open>How many sessions the RIO server can serve\<close>

fun rio_create_many ::
  "rio_env \<Rightarrow> nat option \<Rightarrow> Socket \<Rightarrow> nat \<Rightarrow> RioBufferManager \<Rightarrow> RioBufferManager" where
  "rio_create_many env cq sk 0 m = m"
| "rio_create_many env cq sk (Suc n) m =
     snd (snd (rio_create_session env [] cq (of_nat n) sk (rio_create_many env cq sk n m)))"

definition fresh_pool :: RioBufferManager where
  "fresh_pool = snd (RioBufferManager_Initialize True (Some 1) C_RIO_POOL_SIZE RioBufferManager_default)"

lemma fresh_pool_fields:
  "bm_CurrentOffset fresh_pool = 0" "bm_TotalSize fresh_pool = C_RIO_POOL_SIZE" "bm_FreeList fresh_pool = []"
  "bm_BufferId fresh_pool = Some 1"
  by (simp_all add: fresh_pool_def RioBufferManager_Initialize_def RioBufferManager_default_def bm_log_def Let_def)

lemma take_slice:
  assumes "bm_FreeList m = []" "bm_TotalSize m = C_RIO_POOL_SIZE" "bm_CurrentOffset m = of_nat k" "k \<le> 2 ^ 26"
  shows "RioBufferManager_AllocateSlice 16384 out m =
    (if k + 16384 \<le> 2 ^ 26
     then (True, \<lparr>sl_BufferId = bm_BufferId m, sl_Offset = of_nat k, sl_Length = 16384, sl_pData = k\<rparr>,
       m\<lparr>bm_CurrentOffset := of_nat (k + 16384), bm_AllocatedCount := bm_AllocatedCount m + 1\<rparr>)
     else (False, out, m))"
proof -
  have u: "unat (of_nat j :: u32) = j" if "j \<le> 2 ^ 27" for j :: nat using that by (simp add: unat_of_nat take_bit_nat_eq_self)
  have "(of_nat k + 16384 :: u32) = of_nat (k + 16384)" by simp
  moreover have "(of_nat (k + 16384) :: u32) > C_RIO_POOL_SIZE \<longleftrightarrow> k + 16384 > 2 ^ 26"
    using u[of "k + 16384"] assms(4) by (simp add: word_less_nat_alt C_RIO_POOL_SIZE_def del: of_nat_add)
  ultimately show ?thesis
    using assms u[of k] by (simp add: RioBufferManager_AllocateSlice_def del: of_nat_add)
qed

lemma Initialize_slices:
  "r_RecvSlice (snd (RIOSession_Initialize s)) = r_RecvSlice s" "r_SendSlice (snd (RIOSession_Initialize s)) = r_SendSlice s"
  by (simp_all add: RIOSession_Initialize_def RIOSession_StartReceiveLoop_def RIOSession_RequestRecv_def rio_log_def
      split: prod.splits)

abbreviation pool_at :: "nat \<Rightarrow> RioBufferManager \<Rightarrow> bool" where
  "pool_at k m \<equiv> bm_FreeList m = [] \<and> bm_TotalSize m = C_RIO_POOL_SIZE \<and> bm_CurrentOffset m = of_nat k"

text \<open>What the factory makes when the pool has handed out \<open>k\<close> bytes.\<close>

lemma create_slices:
  assumes "pool_at (32768 * n) m" "n \<le> 2048"
  shows "pool_at (32768 * (if n < 2048 then n + 1 else n)) (snd (snd (rio_create_session env sessions cq i sk m)))"
    and "sl_Length (r_RecvSlice (fst (rio_create_session env sessions cq i sk m))) = (if n < 2048 then 16384 else 0)"
    and "sl_Length (r_SendSlice (fst (rio_create_session env sessions cq i sk m))) = (if n < 2048 then 16384 else 0)"
proof -
  let ?d = RioBufferSlice_default
  obtain ok1 rs m1 where 1: "RioBufferManager_AllocateSlice 16384 ?d m = (ok1, rs, m1)" using prod_cases3 by blast
  obtain ok2 ss m2 where 2: "RioBufferManager_AllocateSlice 16384 ?d m1 = (ok2, ss, m2)" using prod_cases3 by blast
  have k: "32768 * n \<le> 2 ^ 26" using assms(2) by simp
  have t: "pool_at (32768 * (if n < 2048 then n + 1 else n)) m2 \<and> sl_Length rs = (if n < 2048 then 16384 else 0) \<and>
      sl_Length ss = (if n < 2048 then 16384 else 0)"
  proof (cases "n < 2048")
    case True
    then have m1: "pool_at (32768 * n + 16384) m1" "sl_Length rs = 16384"
      using take_slice[of m "32768 * n" ?d] assms(1) 1 k by auto
    then have "pool_at (32768 * n + 16384 + 16384) m2" "sl_Length ss = 16384"
      using take_slice[of m1 "32768 * n + 16384" ?d] 2 True by auto
    then show ?thesis using True m1(2) by (simp add: algebra_simps)
  next
    case False
    then have n: "n = 2048" using assms(2) by linarith
    have "RioBufferManager_AllocateSlice 16384 ?d m = (False, ?d, m)"
      using take_slice[of m "32768 * n" ?d] assms(1) k n by simp
    then have "m1 = m" "rs = ?d" "m2 = m" "ss = ?d" using 1 2 by auto
    then show ?thesis using False assms(1) by (simp add: RioBufferSlice_default_def)
  qed
  show "pool_at (32768 * (if n < 2048 then n + 1 else n)) (snd (snd (rio_create_session env sessions cq i sk m)))"
    "sl_Length (r_RecvSlice (fst (rio_create_session env sessions cq i sk m))) = (if n < 2048 then 16384 else 0)"
    "sl_Length (r_SendSlice (fst (rio_create_session env sessions cq i sk m))) = (if n < 2048 then 16384 else 0)"
    using t 1 2
    by (simp_all add: rio_create_session_def C_RIO_RECV_BUFFER_SIZE_def C_RIO_SEND_BUFFER_SIZE_def Initialize_slices
        RIOInboundSession_ctor_def RIOSession_ctor_def RIOSession.defs Let_def split_beta)
qed

lemma pool_after: "pool_at (32768 * min n 2048) (rio_create_many env cq sk n fresh_pool)"
proof (induction n)
  case 0
  then show ?case by (simp add: fresh_pool_fields)
next
  case (Suc n)
  show ?case using create_slices(1)[OF Suc, of env "[]" cq "of_nat n" sk] by (simp add: min_def split: if_splits)
qed

text \<open>A session over an empty window never asks for data.\<close>

lemma empty_window_no_receive:
  assumes "sl_Length recvSlice = 0"
  shows "\<not> list_ex (\<lambda>e. case e of Rio_Receive _ \<Rightarrow> True | _ \<Rightarrow> False)
    (r_Trace (snd (RIOSession_Initialize (fst (RIOInboundSession_ctor env sessions i pool sk recvSlice sendSlice cq)))))"
  using assms
  by (simp add: RIOSession_Initialize_def RIOSession_StartReceiveLoop_def RIOSession_RequestRecv_def RIOInboundSession_ctor_def
      RIOSession_ctor_def RIOSession.defs ExternalCircleBufferQueue_ctor_def ExternalCircleBufferQueue_GetWriteableBuffers_def Let_def)

lemma created_without_slice:
  assumes "sl_Length (r_RecvSlice (fst (rio_create_session env sessions cq i sk m))) = 0"
  shows "\<not> list_ex (\<lambda>e. case e of Rio_Receive _ \<Rightarrow> True | _ \<Rightarrow> False) (r_Trace (fst (rio_create_session env sessions cq i sk m)))"
proof -
  obtain ok1 rs m1 where 1: "RioBufferManager_AllocateSlice C_RIO_RECV_BUFFER_SIZE RioBufferSlice_default m = (ok1, rs, m1)"
    using prod_cases3 by blast
  obtain ok2 ss m2 where 2: "RioBufferManager_AllocateSlice C_RIO_SEND_BUFFER_SIZE RioBufferSlice_default m1 = (ok2, ss, m2)"
    using prod_cases3 by blast
  have eq: "fst (rio_create_session env sessions cq i sk m) = snd (RIOSession_Initialize (fst (RIOInboundSession_ctor env sessions i
    (case bm_pBuffer m2 of None \<Rightarrow> [] | Some b \<Rightarrow> b) sk rs ss cq)))"
    using 1 2 by (simp add: rio_create_session_def Let_def split_beta)
  have "sl_Length rs = 0"
    using assms unfolding eq by (simp add: Initialize_slices RIOInboundSession_ctor_def RIOSession_ctor_def RIOSession.defs Let_def)
  then show ?thesis unfolding eq by (rule empty_window_no_receive)
qed

text \<open>The RIO server can serve 2048 connections in its life. The first 2048 sessions get a
  receive and a send window of 16 KB each; slices are never given back, so every session
  after them is made over empty windows, and no receive is ever posted for it.\<close>

theorem rio_server_capacity:
  "let s = fst (rio_create_session env sessions cq i sk (rio_create_many env cq sk n fresh_pool))
   in if n < 2048 then sl_Length (r_RecvSlice s) = 16384 \<and> sl_Length (r_SendSlice s) = 16384
      else sl_Length (r_RecvSlice s) = 0 \<and> sl_Length (r_SendSlice s) = 0 \<and>
        \<not> list_ex (\<lambda>e. case e of Rio_Receive _ \<Rightarrow> True | _ \<Rightarrow> False) (r_Trace s)"
proof -
  have p: "pool_at (32768 * min n 2048) (rio_create_many env cq sk n fresh_pool)" "min n 2048 \<le> 2048" by (simp_all add: pool_after)
  note c = create_slices(2,3)[OF p, of env sessions cq i sk]
  show ?thesis using c created_without_slice[of env sessions cq i sk] by (simp add: Let_def min_def split: if_splits)
qed

section \<open>Stopping the RIO server\<close>

lemma pool_Initialize_ok: "fst (RioBufferManager_Initialize a r n RioBufferManager_default) \<longleftrightarrow> a \<and> r \<noteq> None"
  by (auto simp: RioBufferManager_Initialize_def RioBufferManager_default_def Let_def bm_log_def)

lemma RIOService_cycle:
  "RIOService_Initialize cq n (RIOService_default, []) =
     (cq \<noteq> None, \<lparr>rs_CQ = cq, rs_WorkerThreads = 0, rs_bIsRunning = False\<rparr>, [Rs_CreateCompletionQueue n])"
  "RIOService_Start 1 (\<lparr>rs_CQ = cq, rs_WorkerThreads = 0, rs_bIsRunning = False\<rparr>, tr) =
     (True, \<lparr>rs_CQ = cq, rs_WorkerThreads = 1, rs_bIsRunning = True\<rparr>, tr @ [Rs_SpawnWorker])"
  "RIOService_Stop (\<lparr>rs_CQ = Some c, rs_WorkerThreads = 1, rs_bIsRunning = True\<rparr>, tr) =
     (\<lparr>rs_CQ = None, rs_WorkerThreads = 0, rs_bIsRunning = False\<rparr>, tr @ [Rs_JoinWorker, Rs_CloseCompletionQueue c])"
  by (auto simp: RIOService_Initialize_def RIOService_default_def RIOService_Start_def RIOService_Stop_def Let_def)

text \<open>Starting and stopping the RIO server. If the extension, the completion queue and the
  pool could be set up, then after \<open>OnStarted\<close> and \<open>OnStopped\<close> the admin handler can no longer be reached,
  no timer is registered, and the one worker was joined before the completion queue was
  closed. If one of them could not, \<open>OnStarted\<close> leaves neither acceptor nor admin handler and does
  not report that it runs.\<close>

theorem rio_server_lifecycle:
  fixes env :: env and tpOk cid hw now smp ioctl cq mem ext
  assumes "tq_inv tq" "timer_ids tq = {}"
  defines "s0 \<equiv> RIOServiceMode_ctor ext tq"
  defines "s \<equiv> RIOServiceMode_OnStarted env tpOk cid hw now smp ioctl cq mem s0"
  defines "ok \<equiv> fst (RioExtension_Initialize ioctl (m_Socket (fst (snd (Socket_CreateSocket env RIO (rv_Dummy s0, []))))) ext) \<and>
    cq \<noteq> None \<and> fst mem \<and> snd mem \<noteq> None"
  shows "if ok
    then \<not> GetGlobalRIOAdminHandler (RIOServiceMode_OnStopped s) \<and> timer_ids (rv_Timers (RIOServiceMode_OnStopped s)) = {} \<and>
      rv_RioService (RIOServiceMode_OnStopped s) = None \<and>
      rv_ServiceTrace (RIOServiceMode_OnStopped s) =
        [Rs_CreateCompletionQueue 1024, Rs_SpawnWorker, Rs_JoinWorker, Rs_CloseCompletionQueue (the cq)]
    else rv_Acceptor s = None \<and> \<not> GetGlobalRIOAdminHandler s \<and> \<not> rv_bRunning s \<and> timer_ids (rv_Timers s) = {}"
proof -
  let ?p0 = "StatsSampler_ctor sampler_config"
  obtain b dummy tr1 where d: "Socket_CreateSocket env RIO (rv_Dummy s0, []) = (b, dummy, tr1)" using prod_cases3 by blast
  obtain e ext' where e: "RioExtension_Initialize ioctl (m_Socket dummy) ext = (e, ext')" by fastforce
  obtain acc a' tr4 where acc: "IOSocketAcceptor_Create env cid RIO (rv_ListenSocket s0) 6628 5 (hw * 2) 2
    (snd (Socket_Close (dummy, tr1))) = (acc, a', tr4)" using prod_cases3 by blast
  obtain p tq2 where p: "StatsSampler_Start tpOk 1 (DoSample (fst smp) (fst (snd smp)) (snd (snd smp))) ?p0 tq = (p, tq2)"
    by fastforce
  have off: "\<not> sp_Running ?p0" "sc_enabled (sp_Config ?p0)" by (simp_all add: StatsSampler_ctor_def sampler_config_def)
  have 2: "tq_inv tq2" "timer_ids tq2 \<subseteq> {sp_TimerId p}" "sp_Running p"
    using sampler_job.start_ids[OF assms(1) off(1), where tpOk = tpOk and task = 1 and procTimes = "fst smp"
        and sysNow = "fst (snd smp)" and workingSet = "snd (snd smp)"] p off(2) assms(2) by auto
  have none: "timer_ids (snd (StatsSampler_Stop p tq2)) = {}" using sampler_job.stop_ids(2)[OF 2(1,3)] 2(2) by blast
  have s0: "rv_Trace s0 = []" "rv_ServiceTrace s0 = []" "rv_Timers s0 = tq" "rv_Extension s0 = ext" "rv_Acceptor s0 = None"
    "\<not> rv_AdminGlobal s0" "\<not> rv_bRunning s0" by (simp_all add: s0_def RIOServiceMode_ctor_def)
  note defs = RIOServiceMode_OnStarted_def RIOServiceMode_OnStopped_def rio_take_down_def GetGlobalRIOAdminHandler_def
  have ok: "ok \<longleftrightarrow> e \<and> cq \<noteq> None \<and> fst mem \<and> snd mem \<noteq> None" using d e by (simp add: ok_def)
  show ?thesis
  proof (cases ok)
    case True
    then obtain c where "cq = Some c" using ok by auto
    then show ?thesis
      using True ok d e acc p none s0 pool_Initialize_ok[of "fst mem" "snd mem" C_RIO_POOL_SIZE]
      by (simp add: s_def defs RIOService_cycle[unfolded One_nat_def] Let_def split_beta)
  next
    case False
    then show ?thesis
      using ok d e s0 assms(2) pool_Initialize_ok[of "fst mem" "snd mem" C_RIO_POOL_SIZE]
      by (auto simp: s_def defs RIOService_cycle[unfolded One_nat_def] Let_def split_beta)
  qed
qed

theorem rio_server_lifecycle_witness:
  "rv_ServiceTrace (RIOServiceMode_OnStopped (RIOServiceMode_OnStarted (\<lambda>_ _. 0) (\<lambda>_. True) 7 2 0 (None, (0, 0), None)
     (Some 1) (Some 5) (True, Some 3) (RIOServiceMode_ctor \<lparr>re_Initialized = False, re_Table = None\<rparr> TimerQueue_ctor))) =
     [Rs_CreateCompletionQueue 1024, Rs_SpawnWorker, Rs_JoinWorker, Rs_CloseCompletionQueue 5]"
  using rio_server_lifecycle[OF tq_inv_ctor, where ext = "\<lparr>re_Initialized = False, re_Table = None\<rparr>" and ioctl = "Some 1"
      and env = "\<lambda>_ _. 0" and cq = "Some 5" and mem = "(True, Some 3)" and tpOk = "\<lambda>_. True" and cid = 7 and hw = 2 and now = 0
      and smp = "(None, (0, 0), None)"]
  by (simp add: timer_ids_def TimerQueue_ctor_def RioExtension_Initialize_def Socket_CreateSocket_def syscall_def
      RIOServiceMode_ctor_def)

end
