(* ===== verification/Server_Process.thy ===== *)
theory Server_Process
  imports Server_Modes
begin

text \<open>
  The IOCP server as a Windows service: the frame of \<open>ServiceMode\<close> with the hooks of
  \<open>IOCPServiceMode\<close> and the components these start and stop.
\<close>

lemma sm_Server_steps [simp]:
  "sm_Server (SetServiceStatus st e h s) = sm_Server s"
  "sm_Server (WriteEventLogEntry env hk m ty s) = sm_Server s"
  by (simp_all add: SetServiceStatus_def WriteEventLogEntry_def sm_call_def sm_log_def Let_def)



section \<open>The acceptor a started server holds\<close>










end
