(* ===== verification/Interleaving.thy ===== *)
theory Interleaving
  imports Main
begin

text \<open>
  Programs of several threads as interleavings of atomic actions, for the components whose
  methods run in many threads at once (\<open>IO_Session_Race\<close>, \<open>Benchmark_Multi\<close>). A thread is the list of
  the actions it still has to do; executing its first action puts the actions of the branch taken
  in its place. What such programs keep is mostly a count: \<open>tally\<close> adds up the weights of all
  the actions of all threads.
\<close>

definition tally :: "('a \<Rightarrow> int) \<Rightarrow> 'a list list \<Rightarrow> int" where
  "tally w ts = sum_list (map (\<lambda>t. sum_list (map w t)) ts)"

lemma tally_simps [simp]:
  "tally w [] = 0" "tally w (t # ts) = sum_list (map w t) + tally w ts" "tally w (ts @ us) = tally w ts + tally w us"
  by (simp_all add: tally_def)

lemma tally_nonneg: "(\<And>a. 0 \<le> w a) \<Longrightarrow> 0 \<le> tally w ts"
  by (induction ts) (auto intro!: add_nonneg_nonneg sum_list_nonneg)

lemma tally_ge:
  assumes "\<And>a. 0 \<le> w a" "t \<in> set ts" "a \<in> set t"
  shows "w a \<le> tally w ts"
proof -
  obtain ys zs where t: "t = ys @ a # zs" using assms(3) by (meson split_list)
  obtain us vs where ts: "ts = us @ t # vs" using assms(2) by (meson split_list)
  have "0 \<le> sum_list (map w ys)" "0 \<le> sum_list (map w zs)" using assms(1) by (auto intro!: sum_list_nonneg)
  then show ?thesis using tally_nonneg[of w us] tally_nonneg[of w vs] assms(1) by (simp add: ts t)
qed

lemma tally_empty: "list_all ((=) []) ts \<Longrightarrow> tally w ts = 0"
  by (induction ts) auto

text \<open>Actions of one kind somewhere in the threads.\<close>

abbreviation some_act :: "('a \<Rightarrow> bool) \<Rightarrow> 'a list list \<Rightarrow> bool" where
  "some_act P ts \<equiv> list_ex (list_ex P) ts"

lemma no_act_empty: "list_all ((=) []) ts \<Longrightarrow> \<not> some_act P ts"
  by (induction ts) auto

text \<open>A thread picked by its index, with the threads before and behind it.\<close>

lemma thread_split:
  assumes "i < length ts" "ts ! i = t"
  shows "ts = take i ts @ t # drop (Suc i) ts" "ts[i := t'] = take i ts @ t' # drop (Suc i) ts"
  using id_take_nth_drop[OF assms(1)] assms(2) upd_conv_take_nth_drop[OF assms(1)] by simp_all

text \<open>Numerals as indices and counts, to run schedules.\<close>

lemma unroll_numeral:
  "replicate (numeral k) x = x # replicate (pred_numeral k) x" "(y # ys)[numeral k := z] = y # ys[pred_numeral k := z]"
  "(y # ys) ! numeral k = ys ! pred_numeral k"
  by (simp_all add: numeral_eq_Suc)

abbreviation flag :: "bool \<Rightarrow> int" where
  "flag b \<equiv> (if b then 1 else 0)"

end
