(* ===== verification/IO_Session_Race.thy ===== *)
theory IO_Session_Race
  imports FP_Prelude Interleaving
begin

text \<open>
  The concurrency of \<open>IOSession\<close> (\<open>LibNetworks/IOSession.cpp\<close>). The methods of one session run at the
  same time in many threads: those of the application and the workers of the completion port, each
  of which handles one completion. Here they are cut into their atomic actions, the loads, stores,
  compare-exchanges and fetch-adds of the atomic members, one call of a buffer (which holds the
  lock of the buffer) and one call of Winsock, and the actions of all threads interleave in any order.

  A thread is the list of the actions it still has to do; executing the first action puts the
  actions of the branch taken in its place (\<open>act_do\<close>). \<open>choice\<close> resolves what the action cannot know:
  whether Winsock accepts a request, whether the receive buffer is full, what the framer finds
  and which methods of the session a hook calls.

  The bytes ever put into the send buffer are \<open>sh_Stream\<close> (\<open>None\<close> for a byte that \<open>AllocateWrite\<close>
  reserved and nobody has written yet), the ones below \<open>sh_Consumed\<close> have left the buffer.
  \<open>sh_Recvs\<close> and \<open>sh_Sends\<close> are the requests in flight, \<open>sh_Wire\<close>, \<open>sh_Fires\<close> and \<open>sh_Refused\<close> record the
  bytes given to Winsock, the calls of \<open>OnDisconnected\<close>, and whether a send was refused after the
  disconnect was requested. A closed socket refuses every request.
\<close>

record shared =
  sh_DisconnectRequested :: bool
  sh_OnDisconnectedFired :: bool
  sh_OutstandingIoCount :: int
  sh_RecvInProgress :: bool
  sh_SendInProgress :: bool
  sh_ReceiveLoopStarted :: bool
  sh_Closed :: bool
  sh_IsZeroByte :: bool
  sh_Stream :: "byte option list"
  sh_Consumed :: nat
  sh_Recvs :: nat
  sh_Sends :: "byte option list list"
  sh_Wire :: "byte option list"
  sh_Fires :: nat
  sh_Refused :: bool

datatype frame_outcome = FO_NeedMore | FO_Invalid | FO_Packet

datatype act =
    \<comment> \<open>the public methods\<close>
    A_SendBuffer "byte list"
  | A_SendMessage "byte list"
  | A_StartReceiveLoop
  | A_RequestDisconnect
    \<comment> \<open>SendBuffer, SendMessage\<close>
  | A_Write "byte list"
  | A_Allocate "byte list"
  | A_Fill nat "byte list"
    \<comment> \<open>TryPostSendFromQueue\<close>
  | A_TryPost
  | A_ClaimSend
  | A_ReadSend
  | A_AddSend nat nat
  | A_WSASend nat nat
  | A_UndoSend
  | A_ReleaseSend
    \<comment> \<open>StartReceiveLoop, RequestReceived, RequestRecv\<close>
  | A_ClaimLoop
  | A_RequestReceived
  | A_ClaimRecv
  | A_Prepare bool
  | A_AddRecv
  | A_WSARecv
  | A_UndoRecv
  | A_ReleaseRecv
    \<comment> \<open>OnIOCompleted\<close>
  | A_RecvDone bool nat
  | A_Commit
  | A_RecvLoad
  | A_Frames
  | A_SendDone bool nat
  | A_Consume nat
  | A_SentLoad
  | A_Pending
  | A_PendingLoad
  | A_Guard
  | A_GuardLoad
    \<comment> \<open>RequestDisconnect, TryFireOnDisconnected\<close>
  | A_Close
  | A_DropRecv
  | A_DropSend
  | A_CheckCount
  | A_Fire

record choice =
  ch_Ok :: bool
  ch_Frame :: frame_outcome
  ch_Hook :: "act list"

fun public_call :: "act \<Rightarrow> bool" where
  "public_call (A_SendBuffer _) = True"
| "public_call (A_SendMessage _) = True"
| "public_call A_StartReceiveLoop = True"
| "public_call A_RequestDisconnect = True"
| "public_call _ = False"

definition queued :: "shared \<Rightarrow> nat" where
  "queued sh = length (sh_Stream sh) - sh_Consumed sh"

text \<open>\<open>cap\<close> is the capacity of the send buffer.\<close>

fun act_do :: "nat \<Rightarrow> choice \<Rightarrow> act \<Rightarrow> shared \<Rightarrow> act list \<times> shared" where
  "act_do cap c (A_SendBuffer d) sh =
     (if d = [] \<or> sh_DisconnectRequested sh then ([], sh) else ([A_Write d], sh))"
| "act_do cap c (A_Write d) sh =
     (if cap < queued sh + length d then ([], sh)
      else ([A_TryPost], sh\<lparr>sh_Stream := sh_Stream sh @ map Some d\<rparr>))"
| "act_do cap c (A_SendMessage d) sh =
     (if sh_DisconnectRequested sh then ([], sh) else ([A_Allocate d], sh))"
| "act_do cap c (A_Allocate d) sh =
     (if cap < queued sh + length d then ([A_RequestDisconnect], sh)
      else ([A_Fill (length (sh_Stream sh)) d, A_TryPost],
            sh\<lparr>sh_Stream := sh_Stream sh @ replicate (length d) None\<rparr>))"
| "act_do cap c (A_Fill i d) sh =
     ([], sh\<lparr>sh_Stream := memcpy_at i (map Some d) (sh_Stream sh)\<rparr>)"
| "act_do cap c A_TryPost sh = (if sh_DisconnectRequested sh then ([], sh) else ([A_ClaimSend], sh))"
| "act_do cap c A_ClaimSend sh =
     (if sh_SendInProgress sh then ([], sh) else ([A_ReadSend], sh\<lparr>sh_SendInProgress := True\<rparr>))"
| "act_do cap c A_ReadSend sh =
     (if queued sh = 0 then ([A_ReleaseSend], sh) else ([A_AddSend (sh_Consumed sh) (queued sh)], sh))"
| "act_do cap c (A_AddSend i n) sh =
     ([A_WSASend i n], sh\<lparr>sh_OutstandingIoCount := sh_OutstandingIoCount sh + 1\<rparr>)"
| "act_do cap c (A_WSASend i n) sh =
     (if ch_Ok c \<and> \<not> sh_Closed sh
      then let d = take n (drop i (sh_Stream sh))
           in ([], sh\<lparr>sh_Sends := sh_Sends sh @ [d], sh_Wire := sh_Wire sh @ d\<rparr>)
      else ([A_UndoSend, A_ReleaseSend], sh))"
| "act_do cap c A_UndoSend sh =
     ([], sh\<lparr>sh_OutstandingIoCount := sh_OutstandingIoCount sh - 1, sh_Refused := sh_Refused sh \<or> sh_DisconnectRequested sh\<rparr>)"
| "act_do cap c A_ReleaseSend sh = ([], sh\<lparr>sh_SendInProgress := False\<rparr>)"
| "act_do cap c A_StartReceiveLoop sh = (if sh_DisconnectRequested sh then ([], sh) else ([A_ClaimLoop], sh))"
| "act_do cap c A_ClaimLoop sh =
     (if sh_ReceiveLoopStarted sh then ([], sh) else ([A_RequestReceived], sh\<lparr>sh_ReceiveLoopStarted := True\<rparr>))"
| "act_do cap c A_RequestReceived sh = (if sh_DisconnectRequested sh then ([], sh) else ([A_ClaimRecv], sh))"
| "act_do cap c A_ClaimRecv sh =
     (if sh_RecvInProgress sh then ([], sh) else ([A_Prepare True], sh\<lparr>sh_RecvInProgress := True\<rparr>))"
| "act_do cap c (A_Prepare zero) sh =
     (let sh1 = sh\<lparr>sh_IsZeroByte := zero\<rparr>
      in if zero \<or> ch_Ok c then ([A_AddRecv], sh1)
         else ([A_RequestDisconnect, A_ReleaseRecv, A_RequestDisconnect], sh1))"
| "act_do cap c A_AddRecv sh =
     ([A_WSARecv], sh\<lparr>sh_OutstandingIoCount := sh_OutstandingIoCount sh + 1\<rparr>)"
| "act_do cap c A_WSARecv sh =
     (if ch_Ok c \<and> \<not> sh_Closed sh then ([], sh\<lparr>sh_Recvs := sh_Recvs sh + 1\<rparr>)
      else ([A_UndoRecv, A_ReleaseRecv, A_RequestDisconnect], sh))"
| "act_do cap c A_UndoRecv sh = ([], sh\<lparr>sh_OutstandingIoCount := sh_OutstandingIoCount sh - 1\<rparr>)"
| "act_do cap c A_ReleaseRecv sh = ([], sh\<lparr>sh_RecvInProgress := False\<rparr>)"
| "act_do cap c (A_RecvDone ok n) sh =
     (if \<not> ok then ([A_ReleaseRecv, A_RequestDisconnect], sh)
      else if sh_IsZeroByte sh then (if n = 0 then ([A_Prepare False], sh) else ([A_ReleaseRecv], sh))
      else if n = 0 then ([A_ReleaseRecv, A_RequestDisconnect], sh)
      else ([A_Commit], sh))"
| "act_do cap c A_Commit sh = (if ch_Ok c then ([A_RecvLoad], sh) else ([A_ReleaseRecv, A_RequestDisconnect], sh))"
| "act_do cap c A_RecvLoad sh =
     (if sh_DisconnectRequested sh then ([A_ReleaseRecv], sh)
      else ([A_Frames, A_ReleaseRecv, A_RequestReceived], sh))"
| "act_do cap c A_Frames sh =
     (if sh_DisconnectRequested sh then ([], sh)
      else case ch_Frame c of
        FO_NeedMore \<Rightarrow> ([], sh)
      | FO_Invalid \<Rightarrow> ([A_RequestDisconnect], sh)
      | FO_Packet \<Rightarrow> (ch_Hook c @ [A_Frames], sh))"
| "act_do cap c (A_SendDone ok n) sh =
     (let sh1 = sh\<lparr>sh_SendInProgress := False\<rparr>
      in if \<not> ok then ([A_RequestDisconnect], sh1) else ([A_Consume n, A_SentLoad], sh1))"
| "act_do cap c (A_Consume n) sh =
     (if queued sh < n then ([], sh) else ([], sh\<lparr>sh_Consumed := sh_Consumed sh + n\<rparr>))"
| "act_do cap c A_SentLoad sh =
     (if sh_DisconnectRequested sh then ([], sh) else (ch_Hook c @ [A_Pending], sh))"
| "act_do cap c A_Pending sh = (if 0 < queued sh then ([A_PendingLoad], sh) else ([], sh))"
| "act_do cap c A_PendingLoad sh = (if sh_DisconnectRequested sh then ([], sh) else ([A_TryPost], sh))"
| "act_do cap c A_Guard sh =
     (let sh1 = sh\<lparr>sh_OutstandingIoCount := sh_OutstandingIoCount sh - 1\<rparr>
      in if sh_OutstandingIoCount sh = 1 then ([A_GuardLoad], sh1) else ([], sh1))"
| "act_do cap c A_GuardLoad sh = (if sh_DisconnectRequested sh then ([A_Fire], sh) else ([], sh))"
| "act_do cap c A_RequestDisconnect sh =
     (if sh_DisconnectRequested sh then ([A_CheckCount], sh)
      else ([A_Close, A_DropRecv, A_DropSend, A_CheckCount], sh\<lparr>sh_DisconnectRequested := True\<rparr>))"
| "act_do cap c A_Close sh = ([], sh\<lparr>sh_Closed := True\<rparr>)"
| "act_do cap c A_DropRecv sh = ([], sh\<lparr>sh_RecvInProgress := False\<rparr>)"
| "act_do cap c A_DropSend sh = ([], sh\<lparr>sh_SendInProgress := False\<rparr>)"
| "act_do cap c A_CheckCount sh = (if sh_OutstandingIoCount sh = 0 then ([A_Fire], sh) else ([], sh))"
| "act_do cap c A_Fire sh =
     (if sh_OnDisconnectedFired sh then ([], sh)
      else ([], sh\<lparr>sh_OnDisconnectedFired := True, sh_Consumed := length (sh_Stream sh), sh_Fires := sh_Fires sh + 1\<rparr>))"

text \<open>What can happen next: a thread calls a method, a completion is taken by a worker, or a thread
  executes its next action.\<close>

datatype race_event =
    Ev_Call act
  | Ev_RecvDone bool nat
  | Ev_SendDone bool nat
  | Ev_Act nat choice

fun race_exec :: "nat \<Rightarrow> race_event \<Rightarrow> shared \<times> act list list \<Rightarrow> (shared \<times> act list list) option" where
  "race_exec cap (Ev_Call a) (sh, ts) = (if public_call a then Some (sh, ts @ [[a]]) else None)"
| "race_exec cap (Ev_RecvDone ok n) (sh, ts) =
     (if sh_Recvs sh = 0 then None
      else Some (sh\<lparr>sh_Recvs := sh_Recvs sh - 1\<rparr>, ts @ [[A_RecvDone ok n, A_Guard]]))"
| "race_exec cap (Ev_SendDone ok n) (sh, ts) =
     (case sh_Sends sh of
        [] \<Rightarrow> None
      | d # ds \<Rightarrow> if length d < n then None else Some (sh\<lparr>sh_Sends := ds\<rparr>, ts @ [[A_SendDone ok n, A_Guard]]))"
| "race_exec cap (Ev_Act i c) (sh, ts) =
     (if i < length ts \<and> list_all public_call (ch_Hook c) then
        case ts ! i of
          [] \<Rightarrow> None
        | a # k \<Rightarrow> let (new, sh') = act_do cap c a sh in Some (sh', ts[i := new @ k])
      else None)"

fun race_run :: "nat \<Rightarrow> race_event list \<Rightarrow> shared \<times> act list list \<Rightarrow> (shared \<times> act list list) option" where
  "race_run cap [] s = Some s"
| "race_run cap (e # es) s = (case race_exec cap e s of None \<Rightarrow> None | Some s' \<Rightarrow> race_run cap es s')"

definition race_init :: "shared \<times> act list list" where
  "race_init = (\<lparr>sh_DisconnectRequested = False, sh_OnDisconnectedFired = False, sh_OutstandingIoCount = 0,
     sh_RecvInProgress = False, sh_SendInProgress = False, sh_ReceiveLoopStarted = False, sh_Closed = False,
     sh_IsZeroByte = False, sh_Stream = [], sh_Consumed = 0, sh_Recvs = 0, sh_Sends = [], sh_Wire = [], sh_Fires = 0,
     sh_Refused = False\<rparr>, [])"


section \<open>Counting over the threads\<close>

lemma hooks_weightless: "list_all public_call xs \<Longrightarrow> (\<And>a. public_call a \<Longrightarrow> w a = 0) \<Longrightarrow> sum_list (map w xs) = (0 :: int)"
  by (induction xs) auto

text \<open>The actions that stand for one of the outstanding I/Os.\<close>

fun io_weight :: "act \<Rightarrow> int" where
  "io_weight (A_WSASend _ _) = 1"
| "io_weight A_WSARecv = 1"
| "io_weight A_UndoSend = 1"
| "io_weight A_UndoRecv = 1"
| "io_weight A_Guard = 1"
| "io_weight _ = 0"

text \<open>The actions of the thread that owns the send, or the receive, of the session.\<close>

fun send_hold :: "act \<Rightarrow> int" where
  "send_hold A_ReadSend = 1"
| "send_hold (A_AddSend _ _) = 1"
| "send_hold (A_WSASend _ _) = 1"
| "send_hold A_ReleaseSend = 1"
| "send_hold (A_SendDone _ _) = 1"
| "send_hold _ = 0"

fun recv_hold :: "act \<Rightarrow> int" where
  "recv_hold (A_Prepare _) = 1"
| "recv_hold A_AddRecv = 1"
| "recv_hold A_WSARecv = 1"
| "recv_hold A_ReleaseRecv = 1"
| "recv_hold (A_RecvDone _ _) = 1"
| "recv_hold A_Commit = 1"
| "recv_hold A_RecvLoad = 1"
| "recv_hold _ = 0"

lemma weights_nonneg [simp]: "0 \<le> io_weight a" "0 \<le> send_hold a" "0 \<le> recv_hold a"
  by (cases a; simp)+

lemma public_weights: "public_call a \<Longrightarrow> io_weight a = 0" "public_call a \<Longrightarrow> send_hold a = 0" "public_call a \<Longrightarrow> recv_hold a = 0"
  by (cases a; simp)+

lemmas hook_weights [simp] = hooks_weightless[OF _ public_weights(1)] hooks_weightless[OF _ public_weights(2)]
  hooks_weightless[OF _ public_weights(3)]

lemma act_counts:
  assumes "act_do cap c a sh = (new, sh')" "list_all public_call (ch_Hook c)"
  shows "sh_OutstandingIoCount sh' - int (sh_Recvs sh') - int (length (sh_Sends sh')) - sum_list (map io_weight new) =
    sh_OutstandingIoCount sh - int (sh_Recvs sh) - int (length (sh_Sends sh)) - io_weight a"
  using assms by (cases a) (auto simp: Let_def split: if_splits frame_outcome.splits)

lemma act_send_hold:
  assumes "act_do cap c a sh = (new, sh')" "list_all public_call (ch_Hook c)" "a \<noteq> A_DropSend"
    "send_hold a \<le> flag (sh_SendInProgress sh)"
  shows "sum_list (map send_hold new) + int (length (sh_Sends sh')) - flag (sh_SendInProgress sh') =
    send_hold a + int (length (sh_Sends sh)) - flag (sh_SendInProgress sh)"
  using assms by (cases a) (auto simp: Let_def split: if_splits frame_outcome.splits)

lemma act_recv_hold:
  assumes "act_do cap c a sh = (new, sh')" "list_all public_call (ch_Hook c)" "a \<noteq> A_DropRecv"
    "recv_hold a \<le> flag (sh_RecvInProgress sh)"
  shows "sum_list (map recv_hold new) + int (sh_Recvs sh') - flag (sh_RecvInProgress sh') =
    recv_hold a + int (sh_Recvs sh) - flag (sh_RecvInProgress sh)"
  using assms by (cases a) (auto simp: Let_def split: if_splits frame_outcome.splits)

lemma act_closed:
  assumes "act_do cap c a sh = (new, sh')"
  shows "sh_Closed sh \<Longrightarrow> sh_Closed sh' \<and> sh_Sends sh' = sh_Sends sh \<and> sh_Recvs sh' = sh_Recvs sh"
  using assms by (cases a) (auto simp: Let_def split: if_splits frame_outcome.splits)

lemma act_flags_stay:
  assumes "act_do cap c a sh = (new, sh')"
  shows "sh_OnDisconnectedFired sh \<Longrightarrow> sh_OnDisconnectedFired sh'" "sh_Refused sh \<Longrightarrow> sh_Refused sh'"
  using assms by (cases a; auto simp: Let_def split: if_splits frame_outcome.splits)+

section \<open>The shape of the threads\<close>

text \<open>The flags are only dropped behind the \<open>Close\<close>, and the recovery of a refused receive is followed
  by a disconnect request.\<close>

fun shaped :: "bool \<Rightarrow> act list \<Rightarrow> bool" where
  "shaped closed [] = True"
| "shaped closed (a # k) =
     ((a = A_DropRecv \<or> a = A_DropSend \<longrightarrow> closed) \<and> (a = A_UndoRecv \<longrightarrow> A_RequestDisconnect \<in> set k) \<and>
      shaped (closed \<or> a = A_Close) k)"

lemma shaped_mono: "shaped c t \<Longrightarrow> c \<longrightarrow> c' \<Longrightarrow> shaped c' t"
proof (induction t arbitrary: c c')
  case (Cons a t)
  then show ?case using Cons.IH[of "c \<or> a = A_Close" "c' \<or> a = A_Close"] by (simp split: if_splits)
qed simp

lemma shaped_append: "shaped c xs \<Longrightarrow> shaped c ys \<Longrightarrow> shaped c (xs @ ys)"
proof (induction xs arbitrary: c)
  case (Cons a xs)
  then show ?case using shaped_mono[of c ys "c \<or> a = A_Close"] by auto
qed simp

lemma shaped_public: "list_all public_call xs \<Longrightarrow> shaped c xs"
  by (induction xs arbitrary: c) auto

lemma act_shaped:
  assumes "act_do cap c a sh = (new, sh')" "list_all public_call (ch_Hook c)"
  shows "shaped (sh_Closed sh') new"
proof -
  have "shaped b (ch_Hook c @ [A_Frames])" "shaped b (ch_Hook c @ [A_Pending])" for b
    using assms(2) by (simp_all add: shaped_append shaped_public)
  then show ?thesis using assms(1) by (cases a) (auto simp: Let_def split: if_splits frame_outcome.splits)
qed

section \<open>The notification\<close>

text \<open>Actions that lead to the test whether \<open>OnDisconnected\<close> is due, and actions that only follow a
  disconnect request.\<close>

fun watches :: "act \<Rightarrow> bool" where
  "watches A_RequestDisconnect = True"
| "watches A_CheckCount = True"
| "watches A_Fire = True"
| "watches A_GuardLoad = True"
| "watches _ = False"

fun after_request :: "act \<Rightarrow> bool" where
  "after_request A_CheckCount = True"
| "after_request A_Fire = True"
| "after_request A_Close = True"
| "after_request _ = False"

lemma act_requested:
  assumes "act_do cap c a sh = (new, sh')" "list_all public_call (ch_Hook c)"
    "after_request a \<Longrightarrow> sh_DisconnectRequested sh" "sh_OnDisconnectedFired sh \<Longrightarrow> sh_DisconnectRequested sh"
  shows "list_ex after_request new \<Longrightarrow> sh_DisconnectRequested sh'"
    and "sh_DisconnectRequested sh \<Longrightarrow> sh_DisconnectRequested sh'"
    and "sh_OnDisconnectedFired sh' \<Longrightarrow> sh_DisconnectRequested sh'"
    and "int (sh_Fires sh') - flag (sh_OnDisconnectedFired sh') = int (sh_Fires sh) - flag (sh_OnDisconnectedFired sh)"
proof -
  have "public_call x \<Longrightarrow> \<not> after_request x" for x by (cases x) auto
  then have h: "\<not> list_ex after_request (ch_Hook c)" using assms(2) by (auto simp: list_all_iff list_ex_iff)
  show "list_ex after_request new \<Longrightarrow> sh_DisconnectRequested sh'" "sh_DisconnectRequested sh \<Longrightarrow> sh_DisconnectRequested sh'"
    "sh_OnDisconnectedFired sh' \<Longrightarrow> sh_DisconnectRequested sh'"
    "int (sh_Fires sh') - flag (sh_OnDisconnectedFired sh') = int (sh_Fires sh) - flag (sh_OnDisconnectedFired sh)"
    using assms h by (cases a; auto simp: Let_def split: if_splits frame_outcome.splits)+
qed

text \<open>An action either leaves the count positive, hands the test on, or fires.\<close>

lemma act_watch:
  assumes "act_do cap c a sh = (new, sh')" "0 \<le> sh_OutstandingIoCount sh" "io_weight a \<le> sh_OutstandingIoCount sh"
    "a \<noteq> A_UndoRecv" "sh_DisconnectRequested sh'" "\<not> sh_OnDisconnectedFired sh'" "\<not> sh_Refused sh'"
    "sh_DisconnectRequested sh \<Longrightarrow> 0 < sh_OutstandingIoCount sh \<or> watches a \<or> elsewhere"
  shows "0 < sh_OutstandingIoCount sh' \<or> list_ex watches new \<or> elsewhere"
  using assms by (cases a) (auto simp: Let_def split: if_splits frame_outcome.splits)

section \<open>The invariant of all interleavings\<close>

definition io_counted :: "shared \<Rightarrow> act list list \<Rightarrow> bool" where
  "io_counted sh ts \<longleftrightarrow> sh_OutstandingIoCount sh = int (sh_Recvs sh) + int (length (sh_Sends sh)) + tally io_weight ts"

definition one_owner :: "shared \<Rightarrow> act list list \<Rightarrow> bool" where
  "one_owner sh ts \<longleftrightarrow> length (sh_Sends sh) \<le> 1 \<and> sh_Recvs sh \<le> 1 \<and>
     (\<not> sh_Closed sh \<longrightarrow> tally send_hold ts + int (length (sh_Sends sh)) = flag (sh_SendInProgress sh) \<and>
        tally recv_hold ts + int (sh_Recvs sh) = flag (sh_RecvInProgress sh))"

definition fire_ok :: "shared \<Rightarrow> act list list \<Rightarrow> bool" where
  "fire_ok sh ts \<longleftrightarrow> (some_act after_request ts \<or> sh_OnDisconnectedFired sh \<longrightarrow> sh_DisconnectRequested sh) \<and>
     int (sh_Fires sh) = flag (sh_OnDisconnectedFired sh)"

definition notice_due :: "shared \<Rightarrow> act list list \<Rightarrow> bool" where
  "notice_due sh ts \<longleftrightarrow> (sh_DisconnectRequested sh \<and> \<not> sh_OnDisconnectedFired sh \<and> \<not> sh_Refused sh \<longrightarrow>
     0 < sh_OutstandingIoCount sh \<or> some_act watches ts)"

definition race_inv :: "shared \<times> act list list \<Rightarrow> bool" where
  "race_inv s \<longleftrightarrow> (case s of (sh, ts) \<Rightarrow>
     io_counted sh ts \<and> one_owner sh ts \<and> list_all (shaped (sh_Closed sh)) ts \<and> fire_ok sh ts \<and> notice_due sh ts)"

lemma race_inv_init: "race_inv race_init"
  by (simp add: race_inv_def race_init_def io_counted_def one_owner_def fire_ok_def notice_due_def)

text \<open>An action of the thread between \<open>us\<close> and \<open>vs\<close>.\<close>

lemma act_one_owner:
  assumes "one_owner sh (us @ (a # k) # vs)" "shaped (sh_Closed sh) (a # k)"
    "act_do cap c a sh = (new, sh')" "list_all public_call (ch_Hook c)"
  shows "one_owner sh' (us @ (new @ k) # vs)"
proof (cases "sh_Closed sh")
  case True
  then show ?thesis using act_closed[OF assms(3)] assms(1) by (simp add: one_owner_def)
next
  case False
  then have no_drop: "a \<noteq> A_DropSend" "a \<noteq> A_DropRecv" using assms(2) by auto
  have own: "tally send_hold (us @ (a # k) # vs) + int (length (sh_Sends sh)) = flag (sh_SendInProgress sh)"
    "tally recv_hold (us @ (a # k) # vs) + int (sh_Recvs sh) = flag (sh_RecvInProgress sh)"
    using assms(1) False by (simp_all add: one_owner_def)
  have "send_hold a \<le> tally send_hold (us @ (a # k) # vs)" "recv_hold a \<le> tally recv_hold (us @ (a # k) # vs)"
    by (rule tally_ge[where t = "a # k"]; simp)+
  then have h: "send_hold a \<le> flag (sh_SendInProgress sh)" "recv_hold a \<le> flag (sh_RecvInProgress sh)"
    using own by linarith+
  have new: "tally send_hold (us @ (new @ k) # vs) + int (length (sh_Sends sh')) = flag (sh_SendInProgress sh')"
    "tally recv_hold (us @ (new @ k) # vs) + int (sh_Recvs sh') = flag (sh_RecvInProgress sh')"
    using act_send_hold[OF assms(3,4) no_drop(1) h(1)] act_recv_hold[OF assms(3,4) no_drop(2) h(2)] own by simp_all
  have "0 \<le> tally send_hold (us @ (new @ k) # vs)" "0 \<le> tally recv_hold (us @ (new @ k) # vs)" by (simp_all only: tally_nonneg weights_nonneg)
  then have "int (length (sh_Sends sh')) \<le> 1" "int (sh_Recvs sh') \<le> 1" using new by (simp_all split: if_splits)
  then show ?thesis using new by (simp add: one_owner_def)
qed

lemma act_fire_ok:
  assumes "fire_ok sh (us @ (a # k) # vs)" "act_do cap c a sh = (new, sh')" "list_all public_call (ch_Hook c)"
  shows "fire_ok sh' (us @ (new @ k) # vs)"
proof -
  note r = act_requested[OF assms(2,3)]
  have "after_request a \<Longrightarrow> sh_DisconnectRequested sh" "sh_OnDisconnectedFired sh \<Longrightarrow> sh_DisconnectRequested sh"
    using assms(1) by (auto simp: fire_ok_def)
  then show ?thesis using r assms(1) by (auto simp: fire_ok_def)
qed

lemma act_notice_due:
  assumes "io_counted sh (us @ (a # k) # vs)" "shaped (sh_Closed sh) (a # k)" "notice_due sh (us @ (a # k) # vs)"
    "act_do cap c a sh = (new, sh')"
  shows "notice_due sh' (us @ (new @ k) # vs)"
proof (cases "a = A_UndoRecv")
  case True
  then have "A_RequestDisconnect \<in> set k" using assms(2) by simp
  then have "list_ex watches k" by (force simp: list_ex_iff)
  then show ?thesis by (simp add: notice_due_def)
next
  case False
  let ?e = "list_ex watches k \<or> some_act watches us \<or> some_act watches vs"
  have "io_weight a \<le> tally io_weight (us @ (a # k) # vs)" by (rule tally_ge[where t = "a # k"]) simp_all
  moreover have "0 \<le> tally io_weight (us @ (a # k) # vs)" by (simp only: tally_nonneg weights_nonneg)
  ultimately have "0 \<le> sh_OutstandingIoCount sh" "io_weight a \<le> sh_OutstandingIoCount sh"
    using assms(1) by (simp_all add: io_counted_def)
  note w = act_watch[OF assms(4) this False, of ?e]
  have "sh_OnDisconnectedFired sh \<longrightarrow> sh_OnDisconnectedFired sh'" "sh_Refused sh \<longrightarrow> sh_Refused sh'"
    using act_flags_stay[OF assms(4)] by auto
  then show ?thesis using w assms(3) by (auto simp: notice_due_def)
qed

lemma race_act_inv:
  assumes inv: "race_inv (sh, us @ (a # k) # vs)"
    and new: "act_do cap c a sh = (new, sh')" and hook: "list_all public_call (ch_Hook c)"
  shows "race_inv (sh', us @ (new @ k) # vs)"
proof -
  note i = inv[unfolded race_inv_def prod.case]
  have mono: "sh_Closed sh \<longrightarrow> sh_Closed sh'" using act_closed[OF new] by blast
  have sa: "shaped (sh_Closed sh) (a # k)" using i by simp
  have k: "shaped (sh_Closed sh') k"
  proof (cases "a = A_Close")
    case True
    then have "sh_Closed sh'" using new by auto
    then show ?thesis using sa True by simp
  next
    case False
    then show ?thesis using sa shaped_mono[OF _ mono] by simp
  qed
  have "list_all (shaped (sh_Closed sh')) us" "list_all (shaped (sh_Closed sh')) vs"
    using i shaped_mono[OF _ mono] by (simp_all add: list_all_iff)
  then have "list_all (shaped (sh_Closed sh')) (us @ (new @ k) # vs)"
    using shaped_append[OF act_shaped[OF new hook] k] by simp
  moreover have "io_counted sh' (us @ (new @ k) # vs)"
    using act_counts[OF new hook] i by (simp add: io_counted_def)
  moreover have "one_owner sh' (us @ (new @ k) # vs)" using act_one_owner[OF _ sa new hook] i by blast
  moreover have "fire_ok sh' (us @ (new @ k) # vs)" using act_fire_ok[OF _ new hook] i by blast
  moreover have "notice_due sh' (us @ (new @ k) # vs)" using act_notice_due[OF _ sa _ new] i by blast
  ultimately show ?thesis by (simp add: race_inv_def)
qed

lemmas race_inv_defs = race_inv_def io_counted_def one_owner_def fire_ok_def notice_due_def

lemma race_exec_inv:
  assumes "race_inv (sh, ts)" "race_exec cap e (sh, ts) = Some s'"
  shows "race_inv s'"
proof (cases e)
  case (Ev_Act i c)
  then obtain a k new sh' where ts: "i < length ts" "ts ! i = a # k" and hook: "list_all public_call (ch_Hook c)"
    and new: "act_do cap c a sh = (new, sh')" "s' = (sh', ts[i := new @ k])"
    using assms(2) by (auto split: if_splits list.splits prod.splits)
  note t = thread_split[OF ts(1,2)]
  show ?thesis using race_act_inv[OF _ new(1) hook, of "take i ts" k "drop (Suc i) ts"] assms(1) t(1) t(2)[of "new @ k"] new(2) by simp
next
  case (Ev_Call a)
  then have "public_call a" "s' = (sh, ts @ [[a]])" using assms(2) by (simp_all split: if_splits)
  then show ?thesis using assms(1) by (cases a) (auto simp: race_inv_defs)
next
  case (Ev_RecvDone ok n)
  then have "0 < sh_Recvs sh" "s' = (sh\<lparr>sh_Recvs := sh_Recvs sh - 1\<rparr>, ts @ [[A_RecvDone ok n, A_Guard]])"
    using assms(2) by (simp_all split: if_splits)
  then show ?thesis using assms(1) by (auto simp: race_inv_defs)
next
  case (Ev_SendDone ok n)
  then obtain d ds where "sh_Sends sh = d # ds" "s' = (sh\<lparr>sh_Sends := ds\<rparr>, ts @ [[A_SendDone ok n, A_Guard]])"
    using assms(2) by (auto split: if_splits list.splits)
  then show ?thesis using assms(1) by (auto simp: race_inv_defs)
qed

lemma race_run_inv: "race_inv s \<Longrightarrow> race_run cap es s = Some s' \<Longrightarrow> race_inv s'"
proof (induction es arbitrary: s)
  case (Cons e es)
  then obtain s1 where s1: "race_exec cap e s = Some s1" "race_run cap es s1 = Some s'" by (auto split: option.splits)
  have "race_inv s1" using race_exec_inv[of "fst s" "snd s" cap e s1] Cons.prems(1) s1(1) by simp
  then show ?case using Cons.IH s1(2) by blast
qed simp

section \<open>Properties\<close>

definition quiescent :: "shared \<times> act list list \<Rightarrow> bool" where
  "quiescent s \<longleftrightarrow> list_all ((=) []) (snd s) \<and> sh_Recvs (fst s) = 0 \<and> sh_Sends (fst s) = []"

text \<open>C20: whatever the threads do at the same time, the outstanding count is the number of requests in
  flight plus the number of threads between taking or giving back a count and the request it
  stands for, and so never negative; and there is never more than one send and one receive in
  flight, so that each \<open>OVERLAPPED\<close> of the session serves one request.\<close>

theorem race_io_accounting:
  assumes "race_run cap es race_init = Some (sh, ts)"
  shows "sh_OutstandingIoCount sh = int (sh_Recvs sh) + int (length (sh_Sends sh)) + tally io_weight ts \<and>
    0 \<le> tally io_weight ts \<and> length (sh_Sends sh) \<le> 1 \<and> sh_Recvs sh \<le> 1"
  using race_run_inv[OF race_inv_init assms] tally_nonneg[of io_weight ts]
  by (simp add: race_inv_def io_counted_def one_owner_def)

text \<open>C8: whatever the threads do at the same time, \<open>OnDisconnected\<close> is called at most once and only after a
  disconnect was requested; and when all threads are done and nothing is in flight, a requested
  disconnect has been notified, unless Winsock refused a send after the request.\<close>

theorem race_disconnect_notified:
  assumes "race_run cap es race_init = Some s"
  shows "sh_Fires (fst s) \<le> 1 \<and> (sh_Fires (fst s) = 1 \<longrightarrow> sh_DisconnectRequested (fst s)) \<and>
    (quiescent s \<and> sh_DisconnectRequested (fst s) \<and> \<not> sh_Refused (fst s) \<longrightarrow> sh_Fires (fst s) = 1)"
proof -
  obtain sh ts where s: "s = (sh, ts)" by fastforce
  have i: "io_counted sh ts" "fire_ok sh ts" "notice_due sh ts"
    using race_run_inv[OF race_inv_init assms] by (simp_all add: s race_inv_def)
  have "sh_OnDisconnectedFired sh" if q: "quiescent s" "sh_DisconnectRequested sh" "\<not> sh_Refused sh"
  proof -
    have e: "list_all ((=) []) ts" using q(1) by (simp add: quiescent_def s)
    have "sh_OutstandingIoCount sh = 0" using i(1) q(1) tally_empty[OF e] by (simp add: io_counted_def quiescent_def s)
    then show ?thesis using i(3) q(2,3) no_act_empty[OF e] by (auto simp: notice_due_def)
  qed
  then show ?thesis using i(2) by (auto simp: s fire_ok_def split: if_splits)
qed

section \<open>Schedules\<close>

abbreviation yes :: choice where
  "yes \<equiv> \<lparr>ch_Ok = True, ch_Frame = FO_NeedMore, ch_Hook = []\<rparr>"

abbreviation steps :: "nat \<Rightarrow> nat \<Rightarrow> race_event list" where
  "steps n i \<equiv> replicate n (Ev_Act i yes)"

lemma scheduled: "(case race_run cap es s of Some t \<Rightarrow> P t | None \<Rightarrow> False) \<Longrightarrow> \<exists>es t. race_run cap es s = Some t \<and> P t"
  by (cases "race_run cap es s") auto

text \<open>A receive is posted, the application disconnects, the receive fails.\<close>

definition calm_schedule :: "race_event list" where
  "calm_schedule = Ev_Call A_StartReceiveLoop # steps 7 0 @ Ev_Call A_RequestDisconnect # steps 5 1 @
     Ev_RecvDone False 0 # steps 7 2"

theorem race_disconnect_notified_witness:
  "case race_run 8 calm_schedule race_init of Some s \<Rightarrow> quiescent s \<and> sh_Fires (fst s) = 1 | None \<Rightarrow> False"
proof -
  obtain s where s: "race_run 8 calm_schedule race_init = Some s" "quiescent s" "sh_DisconnectRequested (fst s)" "\<not> sh_Refused (fst s)"
    by (simp add: calm_schedule_def race_init_def quiescent_def eval_nat_numeral)
  then show ?thesis using race_disconnect_notified[OF s(1)] by simp
qed

theorem race_io_accounting_witness:
  "case race_run 8 (take 8 calm_schedule) race_init of
     Some (sh, ts) \<Rightarrow> sh_Recvs sh = 1 \<and> sh_OutstandingIoCount sh = int (sh_Recvs sh) + int (length (sh_Sends sh)) + tally io_weight ts
   | None \<Rightarrow> False"
proof -
  obtain sh ts where s: "race_run 8 (take 8 calm_schedule) race_init = Some (sh, ts)" "sh_Recvs sh = 1"
    by (simp add: calm_schedule_def race_init_def eval_nat_numeral)
  then show ?thesis using race_io_accounting[OF s(1)] by simp
qed

text \<open>A thread is sending and has taken its count when another thread requests the disconnect, and the
  posted receive fails before the send is posted.\<close>

definition lost_schedule :: "race_event list" where
  "lost_schedule = Ev_Call A_StartReceiveLoop # steps 7 0 @ Ev_Call (A_SendBuffer [1]) # steps 6 1 @
     Ev_Call A_RequestDisconnect # steps 5 2 @ Ev_RecvDone False 0 # steps 5 3 @ steps 3 1"

text \<open>The exception of the guarantee above is real. A send that Winsock refuses because the socket was
  closed meanwhile takes its count back without the test that \<open>OnDisconnected\<close> is due: there is a
  schedule after which the disconnect was requested, nothing is in flight, every thread is done,
  and \<open>OnDisconnected\<close> was never called.\<close>

theorem race_notice_can_be_lost:
  "\<exists>es s. race_run 8 es race_init = Some s \<and> quiescent s \<and> sh_DisconnectRequested (fst s) \<and> sh_Fires (fst s) = 0"
proof -
  have "case race_run 8 lost_schedule race_init of
      Some s \<Rightarrow> quiescent s \<and> sh_DisconnectRequested (fst s) \<and> sh_Fires (fst s) = 0 | None \<Rightarrow> False"
    by (simp add: lost_schedule_def race_init_def quiescent_def queued_def eval_nat_numeral)
  then show ?thesis by (rule scheduled)
qed

text \<open>A completed send has been taken from the flag but not yet from the ring when another thread posts;
  and a completed send posts while another thread has reserved space but not yet written to it.\<close>

definition resend_schedule :: "race_event list" where
  "resend_schedule = Ev_Call (A_SendBuffer [1]) # steps 7 0 @ Ev_SendDone True 1 # steps 1 1 @ Ev_Call (A_SendBuffer [2]) # steps 7 2"

definition unwritten_schedule :: "race_event list" where
  "unwritten_schedule = Ev_Call (A_SendMessage [1]) # steps 8 0 @ Ev_Call (A_SendMessage [2]) # steps 2 1 @
     Ev_SendDone True 1 # steps 10 2"

text \<open>Calls from several threads can spoil the outgoing stream. There is a schedule in which the
  bytes 1 and 2 were sent in this order and Winsock was given 1, 1, 2; and one in which it was
  given a byte that the sending thread had reserved but not yet written.\<close>

theorem race_stream_can_break:
  "(\<exists>es s. race_run 8 es race_init = Some s \<and> sh_Stream (fst s) = [Some 1, Some 2] \<and> sh_Wire (fst s) = [Some 1, Some 1, Some 2]) \<and>
   (\<exists>es s. race_run 8 es race_init = Some s \<and> sh_Wire (fst s) = [Some 1, None])"
proof -
  have "case race_run 8 resend_schedule race_init of
      Some s \<Rightarrow> sh_Stream (fst s) = [Some 1, Some 2] \<and> sh_Wire (fst s) = [Some 1, Some 1, Some 2] | None \<Rightarrow> False"
    by (simp add: resend_schedule_def race_init_def queued_def Let_def eval_nat_numeral)
  moreover have "case race_run 8 unwritten_schedule race_init of Some s \<Rightarrow> sh_Wire (fst s) = [Some 1, None] | None \<Rightarrow> False"
    by (simp add: unwritten_schedule_def race_init_def queued_def memcpy_at_def Let_def eval_nat_numeral)
  ultimately show ?thesis by (intro conjI scheduled)
qed

end
