(* ===== verification/Benchmark_Stats.thy ===== *)
theory Benchmark_Stats
  imports FP_Prelude Complex_Main "HOL-Library.Multiset"
begin

text \<open>
  The statistics of the benchmark tool (\<open>FastPortBenchmark/BenchmarkStats.ixx\<close>): the samples of
  \<open>LatencyCollector\<close> and the figures \<open>Calculate\<close> derives from them. Samples and byte counts keep
  their 64 bits; a \<open>double\<close> is a real number, so that rounding is not modelled. Printing of numbers
  is a parameter of the CSV row.
\<close>

section \<open>HighResolutionTimer and BenchmarkStats\<close>

definition ToMicroseconds :: "real \<Rightarrow> real" where
  "ToMicroseconds ns = ns / 1000"

definition ToMilliseconds :: "real \<Rightarrow> real" where
  "ToMilliseconds ns = ns / 1000000"

definition ToSeconds :: "real \<Rightarrow> real" where
  "ToSeconds ns = ns / 1000000000"

record BenchmarkStats =
  bs_testName :: string
  bs_iterations :: nat
  bs_payloadSize :: nat
  bs_avgLatencyNs :: real
  bs_minLatencyNs :: real
  bs_maxLatencyNs :: real
  bs_medianLatencyNs :: real
  bs_p50LatencyNs :: real
  bs_p90LatencyNs :: real
  bs_p95LatencyNs :: real
  bs_p99LatencyNs :: real
  bs_stdDevNs :: real
  bs_packetsPerSecond :: real
  bs_megabytesPerSecond :: real
  bs_totalBytes :: u64
  bs_totalElapsedNs :: u64
  bs_debugProfileEnabled :: bool
  bs_requestedSessions :: nat
  bs_connectedSessions :: nat
  bs_connectionLosses :: nat
  bs_warmupRequests :: nat
  bs_warmupResponses :: nat
  bs_measuredRequests :: nat
  bs_measuredResponses :: nat
  bs_payloadMinBytes :: nat
  bs_payloadMaxBytes :: nat
  bs_payloadPoolSize :: nat
  bs_connectElapsedNs :: u64
  bs_warmupElapsedNs :: u64
  bs_measuredElapsedNs :: u64

definition BenchmarkStats_default :: BenchmarkStats where
  "BenchmarkStats_default = \<lparr>bs_testName = [], bs_iterations = 0, bs_payloadSize = 0, bs_avgLatencyNs = 0,
     bs_minLatencyNs = 0, bs_maxLatencyNs = 0, bs_medianLatencyNs = 0, bs_p50LatencyNs = 0, bs_p90LatencyNs = 0,
     bs_p95LatencyNs = 0, bs_p99LatencyNs = 0, bs_stdDevNs = 0, bs_packetsPerSecond = 0, bs_megabytesPerSecond = 0,
     bs_totalBytes = 0, bs_totalElapsedNs = 0, bs_debugProfileEnabled = False, bs_requestedSessions = 0,
     bs_connectedSessions = 0, bs_connectionLosses = 0, bs_warmupRequests = 0, bs_warmupResponses = 0,
     bs_measuredRequests = 0, bs_measuredResponses = 0, bs_payloadMinBytes = 0, bs_payloadMaxBytes = 0,
     bs_payloadPoolSize = 0, bs_connectElapsedNs = 0, bs_warmupElapsedNs = 0, bs_measuredElapsedNs = 0\<rparr>"

section \<open>The CSV row\<close>

text \<open>\<open>dbl\<close> prints a \<open>double\<close> (fixed, six digits), \<open>num\<close> an unsigned number.\<close>

fun join_with :: "char \<Rightarrow> string list \<Rightarrow> string" where
  "join_with c [] = []"
| "join_with c [x] = x"
| "join_with c (x # y # xs) = x @ c # join_with c (y # xs)"

definition csv_fields :: "(real \<Rightarrow> string) \<Rightarrow> (nat \<Rightarrow> string) \<Rightarrow> BenchmarkStats \<Rightarrow> string list" where
  "csv_fields dbl num s =
    [bs_testName s, num (bs_iterations s), num (bs_payloadSize s), dbl (bs_avgLatencyNs s), dbl (bs_minLatencyNs s),
     dbl (bs_maxLatencyNs s), dbl (bs_p50LatencyNs s), dbl (bs_p90LatencyNs s), dbl (bs_p95LatencyNs s),
     dbl (bs_p99LatencyNs s), dbl (bs_stdDevNs s), dbl (bs_packetsPerSecond s), dbl (bs_megabytesPerSecond s),
     num (bs_requestedSessions s), num (bs_connectedSessions s), num (bs_connectionLosses s),
     num (bs_warmupRequests s), num (bs_warmupResponses s), num (bs_measuredRequests s),
     num (bs_measuredResponses s), num (bs_payloadMinBytes s), num (bs_payloadMaxBytes s),
     num (bs_payloadPoolSize s), num (unat (bs_connectElapsedNs s)), num (unat (bs_warmupElapsedNs s)),
     num (unat (bs_measuredElapsedNs s))]"

definition ToCsv :: "(real \<Rightarrow> string) \<Rightarrow> (nat \<Rightarrow> string) \<Rightarrow> BenchmarkStats \<Rightarrow> string" where
  "ToCsv dbl num s = join_with CHR '','' (csv_fields dbl num s)"

definition CsvHeader :: string where
  "CsvHeader = ''test_name,iterations,payload_size,avg_latency_ns,min_latency_ns,max_latency_ns,'' @
     ''p50_latency_ns,p90_latency_ns,p95_latency_ns,p99_latency_ns,stddev_ns,'' @
     ''packets_per_sec,mb_per_sec,requested_sessions,connected_sessions,connection_losses,'' @
     ''warmup_requests,warmup_responses,measured_requests,measured_responses,'' @
     ''payload_min_bytes,payload_max_bytes,payload_pool_size,connect_elapsed_ns,'' @
     ''warmup_elapsed_ns,measured_elapsed_ns''"

fun split_at_char :: "char \<Rightarrow> string \<Rightarrow> string list" where
  "split_at_char c [] = [[]]"
| "split_at_char c (x # xs) =
     (if x = c then [] # split_at_char c xs
      else case split_at_char c xs of [] \<Rightarrow> [[x]] | y # ys \<Rightarrow> (x # y) # ys)"

section \<open>LatencyCollector\<close>

record LatencyCollector =
  lc_Samples :: "u64 list"
  lc_TotalBytes :: u64

definition LatencyCollector_ctor :: LatencyCollector where
  "LatencyCollector_ctor = \<lparr>lc_Samples = [], lc_TotalBytes = 0\<rparr>"

definition AddSample :: "u64 \<Rightarrow> nat \<Rightarrow> LatencyCollector \<Rightarrow> LatencyCollector" where
  "AddSample latencyNs bytes lc =
     lc\<lparr>lc_Samples := lc_Samples lc @ [latencyNs], lc_TotalBytes := lc_TotalBytes lc + of_nat bytes\<rparr>"

definition LatencyCollector_Clear :: "LatencyCollector \<Rightarrow> LatencyCollector" where
  "LatencyCollector_Clear lc = lc\<lparr>lc_Samples := [], lc_TotalBytes := 0\<rparr>"

definition LatencyCollector_Count :: "LatencyCollector \<Rightarrow> nat" where
  "LatencyCollector_Count lc = length (lc_Samples lc)"

definition Percentile :: "u64 list \<Rightarrow> real \<Rightarrow> real" where
  "Percentile samples percent =
    (if samples = [] then 0
     else if length samples = 1 then real (unat (samples ! 0))
     else let index = (percent / 100) * real (length samples - 1);
              lower = nat \<lfloor>index\<rfloor>;
              upper = nat \<lceil>index\<rceil>
          in if lower = upper then real (unat (samples ! lower))
             else let fraction = index - real lower
                  in real (unat (samples ! lower)) * (1 - fraction) + real (unat (samples ! upper)) * fraction)"

fun add_samples :: "real \<Rightarrow> u64 list \<Rightarrow> real" where
  "add_samples acc [] = acc"
| "add_samples acc (x # xs) = add_samples (acc + real (unat x)) xs"

fun add_squares :: "real \<Rightarrow> real \<Rightarrow> u64 list \<Rightarrow> real" where
  "add_squares avg sqSum [] = sqSum"
| "add_squares avg sqSum (x # xs) =
     (let diff = real (unat x) - avg in add_squares avg (sqSum + diff * diff) xs)"

definition Calculate :: "string \<Rightarrow> nat \<Rightarrow> LatencyCollector \<Rightarrow> BenchmarkStats" where
  "Calculate testName payloadSize lc =
    (let stats = BenchmarkStats_default\<lparr>bs_testName := testName, bs_payloadSize := payloadSize,
                   bs_iterations := length (lc_Samples lc)\<rparr>
     in if lc_Samples lc = [] then stats
        else let samples = sort (lc_Samples lc);
                 acc = add_samples 0 samples;
                 avg = acc / real (length samples);
                 median = Percentile samples 50;
                 sqSum = add_squares avg 0 samples;
                 totalElapsedNs = (of_int \<lfloor>acc\<rfloor> :: u64);
                 totalBytes = (if lc_TotalBytes lc > 0 then lc_TotalBytes lc
                               else of_nat (length (lc_Samples lc)) * of_nat payloadSize);
                 stats1 = stats\<lparr>bs_minLatencyNs := real (unat (hd samples)), bs_maxLatencyNs := real (unat (last samples)),
                   bs_avgLatencyNs := avg, bs_medianLatencyNs := median, bs_p50LatencyNs := median,
                   bs_p90LatencyNs := Percentile samples 90, bs_p95LatencyNs := Percentile samples 95,
                   bs_p99LatencyNs := Percentile samples 99, bs_stdDevNs := sqrt (sqSum / real (length samples)),
                   bs_totalElapsedNs := totalElapsedNs, bs_totalBytes := totalBytes\<rparr>;
                 elapsedSec = ToSeconds (real (unat totalElapsedNs))
             in if elapsedSec > 0
                then stats1\<lparr>bs_packetsPerSecond := real (bs_iterations stats1) / elapsedSec,
                       bs_megabytesPerSecond := real (unat totalBytes) / (1024 * 1024) / elapsedSec\<rparr>
                else stats1)"

section \<open>The percentiles\<close>

lemma index_bounds:
  assumes "0 \<le> p" "p \<le> 100" "1 < length xs"
  defines "i \<equiv> (p / 100) * real (length xs - 1)"
  shows "0 \<le> i" "nat \<lfloor>i\<rfloor> < length xs" "nat \<lceil>i\<rceil> < length xs" "nat \<lfloor>i\<rfloor> \<le> nat \<lceil>i\<rceil>" "real (nat \<lfloor>i\<rfloor>) \<le> i" "i \<le> real (nat \<lceil>i\<rceil>)"
proof -
  show i0: "0 \<le> i" using assms by (simp add: i_def)
  have "i \<le> 1 * real (length xs - 1)" unfolding i_def using assms by (intro mult_right_mono) auto
  then have "\<lceil>i\<rceil> \<le> int (length xs - 1)" by (simp add: ceiling_le_iff)
  then show "nat \<lceil>i\<rceil> < length xs" using assms(3) by linarith
  show le: "nat \<lfloor>i\<rfloor> \<le> nat \<lceil>i\<rceil>" using floor_le_ceiling[of i] by linarith
  then show "nat \<lfloor>i\<rfloor> < length xs" using \<open>nat \<lceil>i\<rceil> < length xs\<close> by linarith
  show "real (nat \<lfloor>i\<rfloor>) \<le> i" using i0 by (simp add: of_nat_nat)
  show "i \<le> real (nat \<lceil>i\<rceil>)" using i0 by (simp add: of_nat_nat)
qed

text \<open>The piecewise linear function through the sorted samples: it is what \<open>Percentile\<close> evaluates.\<close>

definition level :: "u64 list \<Rightarrow> real \<Rightarrow> real" where
  "level xs i = real (unat (xs ! nat \<lfloor>i\<rfloor>)) +
     (real (unat (xs ! nat \<lceil>i\<rceil>)) - real (unat (xs ! nat \<lfloor>i\<rfloor>))) * (i - real (nat \<lfloor>i\<rfloor>))"

lemma Percentile_level:
  assumes "xs \<noteq> []"
  shows "Percentile xs p = level xs ((p / 100) * real (length xs - 1))"
proof (cases "length xs = 1")
  case True
  then show ?thesis using assms by (simp add: Percentile_def level_def)
next
  case False
  then show ?thesis using assms by (simp add: Percentile_def level_def Let_def algebra_simps)
qed

lemma sorted_words_real: "sorted xs \<Longrightarrow> i \<le> j \<Longrightarrow> j < length xs \<Longrightarrow> real (unat (xs ! i :: u64)) \<le> real (unat (xs ! j))"
  using sorted_nth_mono[of xs i j] by (simp only: word_le_nat_alt of_nat_le_iff)

lemma level_between:
  assumes "sorted xs" "0 \<le> i" "i \<le> real (length xs - 1)" "xs \<noteq> []"
  shows "real (unat (xs ! nat \<lfloor>i\<rfloor>)) \<le> level xs i \<and> level xs i \<le> real (unat (xs ! nat \<lceil>i\<rceil>))"
proof -
  let ?l = "real (unat (xs ! nat \<lfloor>i\<rfloor>))" and ?u = "real (unat (xs ! nat \<lceil>i\<rceil>))"
  have "\<lceil>i\<rceil> \<le> int (length xs - 1)" using assms(3) by (simp add: ceiling_le_iff)
  then have "nat \<lceil>i\<rceil> < length xs" using assms(4) by (cases xs) (auto simp: nat_le_iff)
  then have lu: "?l \<le> ?u" using sorted_words_real[OF assms(1), of "nat \<lfloor>i\<rfloor>" "nat \<lceil>i\<rceil>"] floor_le_ceiling[of i] nat_mono by blast
  have f: "0 \<le> i - real (nat \<lfloor>i\<rfloor>)" "i - real (nat \<lfloor>i\<rfloor>) \<le> 1" using assms(2) by (simp_all add: of_nat_nat) linarith
  have "(?u - ?l) * (i - real (nat \<lfloor>i\<rfloor>)) \<le> (?u - ?l) * 1" using lu f by (intro mult_left_mono) auto
  moreover have "0 \<le> (?u - ?l) * (i - real (nat \<lfloor>i\<rfloor>))" using lu f by simp
  ultimately show ?thesis by (simp add: level_def)
qed

lemma level_mono:
  assumes "sorted xs" "0 \<le> i" "i \<le> j" "j \<le> real (length xs - 1)" "xs \<noteq> []"
  shows "level xs i \<le> level xs j"
proof (cases "\<lceil>i\<rceil> \<le> \<lfloor>j\<rfloor>")
  case True
  have "\<lfloor>j\<rfloor> \<le> int (length xs - 1)" using assms(4) by linarith
  then have "nat \<lfloor>j\<rfloor> < length xs" using assms(5) by (cases xs) (auto simp: nat_le_iff)
  then have "real (unat (xs ! nat \<lceil>i\<rceil>)) \<le> real (unat (xs ! nat \<lfloor>j\<rfloor>))"
    using sorted_words_real[OF assms(1)] nat_mono[OF True] by blast
  then show ?thesis using level_between[OF assms(1), of i] level_between[OF assms(1), of j] assms by linarith
next
  case False
  have ff: "\<lfloor>i\<rfloor> = \<lfloor>j\<rfloor>" using False assms(3) by linarith
  show ?thesis
  proof (cases "i = real_of_int \<lfloor>i\<rfloor>")
    case True
    then have "level xs i = real (unat (xs ! nat \<lfloor>j\<rfloor>))" using ff assms(2) by (simp add: level_def of_nat_nat)
    then show ?thesis using level_between[OF assms(1), of j] assms by simp
  next
    case False
    then have cc: "\<lceil>i\<rceil> = \<lfloor>i\<rfloor> + 1" by linarith
    then have "\<lceil>j\<rceil> = \<lfloor>i\<rfloor> + 1" using ff assms(3) False by linarith
    then have c: "\<lceil>i\<rceil> = \<lceil>j\<rceil>" using cc by simp
    have "\<lceil>j\<rceil> \<le> int (length xs - 1)" using assms(4) by (simp add: ceiling_le_iff)
    then have "nat \<lceil>j\<rceil> < length xs" using assms(5) by (cases xs) (auto simp: nat_le_iff)
    then have "real (unat (xs ! nat \<lfloor>j\<rfloor>)) \<le> real (unat (xs ! nat \<lceil>j\<rceil>))"
      using sorted_words_real[OF assms(1)] floor_le_ceiling[of j] nat_mono by blast
    then have "(real (unat (xs ! nat \<lceil>j\<rceil>)) - real (unat (xs ! nat \<lfloor>j\<rfloor>))) * (i - real (nat \<lfloor>j\<rfloor>)) \<le>
        (real (unat (xs ! nat \<lceil>j\<rceil>)) - real (unat (xs ! nat \<lfloor>j\<rfloor>))) * (j - real (nat \<lfloor>j\<rfloor>))"
      using assms(3) by (intro mult_left_mono) auto
    then show ?thesis by (simp add: level_def ff c)
  qed
qed

lemma Percentile_mono:
  assumes "sorted xs" "0 \<le> p" "p \<le> q" "q \<le> 100" "xs \<noteq> []"
  shows "Percentile xs p \<le> Percentile xs q"
proof -
  have "(p / 100) * real (length xs - 1) \<le> (q / 100) * real (length xs - 1)" using assms by (intro mult_right_mono) auto
  moreover have "(q / 100) * real (length xs - 1) \<le> 1 * real (length xs - 1)" using assms by (intro mult_right_mono) auto
  ultimately show ?thesis using assms by (simp add: Percentile_level level_mono)
qed

lemma Percentile_ends: "xs \<noteq> [] \<Longrightarrow> Percentile xs 0 = real (unat (hd xs)) \<and> Percentile xs 100 = real (unat (last xs))"
  by (simp add: Percentile_level level_def hd_conv_nth last_conv_nth)

section \<open>Sums\<close>

lemma add_samples_sum: "add_samples s xs = s + (\<Sum>x\<leftarrow>xs. real (unat x))"
  by (induction xs arbitrary: s) auto

lemma add_squares_sum: "add_squares a s xs = s + (\<Sum>x\<leftarrow>xs. (real (unat x) - a)\<^sup>2)"
  by (induction xs arbitrary: s) (auto simp: Let_def power2_eq_square)

lemma sum_list_bounds:
  assumes "\<forall>x\<in>set xs. l \<le> f x \<and> f x \<le> (u :: real)"
  shows "l * real (length xs) \<le> (\<Sum>x\<leftarrow>xs. f x) \<and> (\<Sum>x\<leftarrow>xs. f x) \<le> u * real (length xs)"
  using assms by (induction xs) (auto simp: algebra_simps)

lemma sum_list_sort: "(\<Sum>x\<leftarrow>sort xs. f x) = (\<Sum>x\<leftarrow>xs. (f x :: real))"
  by (metis mset_map mset_sort sum_mset_sum_list)

text \<open>The two loops compute the sum and the sum of the squared deviations, in sorted order.\<close>

lemma Calculate_values:
  assumes "lc_Samples lc \<noteq> []"
  shows "bs_iterations (Calculate t n lc) = length (lc_Samples lc)"
    "bs_minLatencyNs (Calculate t n lc) = Percentile (sort (lc_Samples lc)) 0"
    "bs_maxLatencyNs (Calculate t n lc) = Percentile (sort (lc_Samples lc)) 100"
    "bs_p50LatencyNs (Calculate t n lc) = Percentile (sort (lc_Samples lc)) 50"
    "bs_p90LatencyNs (Calculate t n lc) = Percentile (sort (lc_Samples lc)) 90"
    "bs_p95LatencyNs (Calculate t n lc) = Percentile (sort (lc_Samples lc)) 95"
    "bs_p99LatencyNs (Calculate t n lc) = Percentile (sort (lc_Samples lc)) 99"
    "bs_avgLatencyNs (Calculate t n lc) = (\<Sum>x\<leftarrow>lc_Samples lc. real (unat x)) / real (length (lc_Samples lc))"
    "bs_stdDevNs (Calculate t n lc) =
      sqrt ((\<Sum>x\<leftarrow>lc_Samples lc. (real (unat x) - bs_avgLatencyNs (Calculate t n lc))\<^sup>2) / real (length (lc_Samples lc)))"
proof -
  have ne: "sort (lc_Samples lc) \<noteq> []" using assms by (metis length_0_conv length_sort)
  note c = Calculate_def BenchmarkStats_default_def Let_def
  have avg: "bs_avgLatencyNs (Calculate t n lc) = add_samples 0 (sort (lc_Samples lc)) / real (length (lc_Samples lc))"
    using assms by (simp add: c)
  show "bs_iterations (Calculate t n lc) = length (lc_Samples lc)"
    "bs_p50LatencyNs (Calculate t n lc) = Percentile (sort (lc_Samples lc)) 50"
    "bs_p90LatencyNs (Calculate t n lc) = Percentile (sort (lc_Samples lc)) 90"
    "bs_p95LatencyNs (Calculate t n lc) = Percentile (sort (lc_Samples lc)) 95"
    "bs_p99LatencyNs (Calculate t n lc) = Percentile (sort (lc_Samples lc)) 99"
    "bs_minLatencyNs (Calculate t n lc) = Percentile (sort (lc_Samples lc)) 0"
    "bs_maxLatencyNs (Calculate t n lc) = Percentile (sort (lc_Samples lc)) 100"
    using assms Percentile_ends[OF ne] by (simp_all add: c)
  show "bs_avgLatencyNs (Calculate t n lc) = (\<Sum>x\<leftarrow>lc_Samples lc. real (unat x)) / real (length (lc_Samples lc))"
    by (simp only: avg add_samples_sum sum_list_sort) simp
  have "bs_stdDevNs (Calculate t n lc) =
      sqrt (add_squares (bs_avgLatencyNs (Calculate t n lc)) 0 (sort (lc_Samples lc)) / real (length (lc_Samples lc)))"
    unfolding avg using assms by (simp add: c)
  then show "bs_stdDevNs (Calculate t n lc) =
      sqrt ((\<Sum>x\<leftarrow>lc_Samples lc. (real (unat x) - bs_avgLatencyNs (Calculate t n lc))\<^sup>2) / real (length (lc_Samples lc)))"
    by (simp only: add_squares_sum sum_list_sort) simp
qed

lemma sample_between:
  assumes "x \<in> set xs"
  shows "Percentile (sort xs) 0 \<le> real (unat x) \<and> real (unat x) \<le> Percentile (sort xs) 100"
proof -
  have ne: "sort xs \<noteq> []" using assms by (metis empty_iff list.set(1) set_sort)
  obtain i where i: "i < length (sort xs)" "sort xs ! i = x" using assms by (metis in_set_conv_nth set_sort)
  have "real (unat (sort xs ! 0)) \<le> real (unat x)" using sorted_words_real[of "sort xs" 0 i] i by simp
  moreover have "real (unat x) \<le> real (unat (sort xs ! (length (sort xs) - 1)))"
    using sorted_words_real[of "sort xs" i "length (sort xs) - 1"] i by simp
  ultimately show ?thesis using Percentile_ends[OF ne] hd_conv_nth[OF ne] last_conv_nth[OF ne] by simp
qed

lemma std_dev_bound:
  fixes t :: string and n :: nat
  assumes "lc_Samples lc \<noteq> []"
  defines "st \<equiv> Calculate t n lc"
  assumes "bs_minLatencyNs st \<le> bs_avgLatencyNs st" "bs_avgLatencyNs st \<le> bs_maxLatencyNs st"
  shows "0 \<le> bs_stdDevNs st" "bs_stdDevNs st \<le> bs_maxLatencyNs st - bs_minLatencyNs st"
proof -
  let ?d = "bs_maxLatencyNs st - bs_minLatencyNs st" and ?n = "real (length (lc_Samples lc))"
  let ?q = "\<Sum>x\<leftarrow>lc_Samples lc. (real (unat x) - bs_avgLatencyNs st)\<^sup>2"
  have n: "0 < ?n" using assms(1) by simp
  have "\<bar>real (unat x) - bs_avgLatencyNs st\<bar> \<le> \<bar>?d\<bar>" if "x \<in> set (lc_Samples lc)" for x
    using sample_between[OF that] assms(3,4) Calculate_values(2,3)[OF assms(1), of t n] unfolding st_def by linarith
  then have "\<forall>x\<in>set (lc_Samples lc). 0 \<le> (real (unat x) - bs_avgLatencyNs st)\<^sup>2 \<and> (real (unat x) - bs_avgLatencyNs st)\<^sup>2 \<le> ?d\<^sup>2"
    using abs_le_square_iff by auto
  then have q: "0 \<le> ?q" "?q \<le> ?d\<^sup>2 * ?n" using sum_list_bounds[of "lc_Samples lc" 0 _ "?d\<^sup>2"] by auto
  have s: "bs_stdDevNs st = sqrt (?q / ?n)" using Calculate_values(9)[OF assms(1), of t n] by (simp add: st_def)
  show "0 \<le> bs_stdDevNs st" using q(1) by (simp add: s)
  have "sqrt (?q / ?n) \<le> sqrt (?d\<^sup>2)" using q(2) n by (intro real_sqrt_le_mono) (simp add: divide_le_eq)
  then show "bs_stdDevNs st \<le> ?d" using assms(3,4) by (simp add: s)
qed

text \<open>C31: the figures \<open>Calculate\<close> reports of at least one sample are in order: minimum, percentiles 50, 90,
  95 and 99, maximum; average and every sample lie between minimum and maximum, the average
  times the number of samples is their sum, and the standard deviation is between 0 and the
  spread.\<close>

theorem latency_figures_ordered:
  fixes t :: string and n :: nat
  assumes "lc_Samples lc \<noteq> []"
  defines "st \<equiv> Calculate t n lc"
  shows "bs_minLatencyNs st \<le> bs_p50LatencyNs st \<and> bs_p50LatencyNs st \<le> bs_p90LatencyNs st \<and>
    bs_p90LatencyNs st \<le> bs_p95LatencyNs st \<and> bs_p95LatencyNs st \<le> bs_p99LatencyNs st \<and> bs_p99LatencyNs st \<le> bs_maxLatencyNs st \<and>
    (\<forall>x\<in>set (lc_Samples lc). bs_minLatencyNs st \<le> real (unat x) \<and> real (unat x) \<le> bs_maxLatencyNs st) \<and>
    bs_avgLatencyNs st * real (bs_iterations st) = (\<Sum>x\<leftarrow>lc_Samples lc. real (unat x)) \<and>
    bs_minLatencyNs st \<le> bs_avgLatencyNs st \<and> bs_avgLatencyNs st \<le> bs_maxLatencyNs st \<and>
    0 \<le> bs_stdDevNs st \<and> bs_stdDevNs st \<le> bs_maxLatencyNs st - bs_minLatencyNs st"
proof -
  note v = Calculate_values[OF assms(1), of t n, folded st_def]
  let ?n = "real (length (lc_Samples lc))"
  have n: "0 < ?n" using assms(1) by simp
  have ne: "sort (lc_Samples lc) \<noteq> []" using assms by (metis length_0_conv length_sort)
  have m: "Percentile (sort (lc_Samples lc)) p \<le> Percentile (sort (lc_Samples lc)) q" if "0 \<le> p" "p \<le> q" "q \<le> 100" for p q
    using that Percentile_mono[OF _ _ _ _ ne] by simp
  have b: "\<forall>x\<in>set (lc_Samples lc). bs_minLatencyNs st \<le> real (unat x) \<and> real (unat x) \<le> bs_maxLatencyNs st"
    using sample_between by (simp add: v)
  have s: "bs_avgLatencyNs st * ?n = (\<Sum>x\<leftarrow>lc_Samples lc. real (unat x))" using n by (simp add: v(8))
  have a: "bs_minLatencyNs st \<le> bs_avgLatencyNs st" "bs_avgLatencyNs st \<le> bs_maxLatencyNs st"
    using sum_list_bounds[OF b] n unfolding s[symmetric] by simp_all
  show ?thesis using b s a std_dev_bound[OF assms(1), of t n, folded st_def, OF a] by (simp add: v m)
qed

theorem latency_figures_ordered_witness:
  "bs_minLatencyNs (Calculate ''t'' 0 \<lparr>lc_Samples = [30, 10, 20], lc_TotalBytes = 0\<rparr>)
     \<le> bs_p50LatencyNs (Calculate ''t'' 0 \<lparr>lc_Samples = [30, 10, 20], lc_TotalBytes = 0\<rparr>)"
  using latency_figures_ordered[of "\<lparr>lc_Samples = [30, 10, 20], lc_TotalBytes = 0\<rparr>" "''t''" 0] by simp

section \<open>The CSV table\<close>

lemma split_no_sep: "c \<notin> set x \<Longrightarrow> split_at_char c x = [x]"
  by (induction x) auto

lemma split_append: "c \<notin> set x \<Longrightarrow> split_at_char c (x @ c # ys) = x # split_at_char c ys"
  by (induction x) auto

lemma split_join: "xs \<noteq> [] \<Longrightarrow> list_all (\<lambda>x. c \<notin> set x) xs \<Longrightarrow> split_at_char c (join_with c xs) = xs"
  by (induction c xs rule: join_with.induct) (auto simp: split_no_sep split_append)

text \<open>A row of the results file splits at its commas into the fields of the statistics in the order
  of the header, one for each of its columns, provided that neither the name of the test nor a
  printed number contains a comma.\<close>

theorem csv_row_roundtrip:
  assumes "\<And>x. CHR '','' \<notin> set (dbl x)" "\<And>n. CHR '','' \<notin> set (num n)" "CHR '','' \<notin> set (bs_testName s)"
  shows "split_at_char CHR '','' (ToCsv dbl num s) = csv_fields dbl num s \<and>
    length (split_at_char CHR '','' CsvHeader) = length (csv_fields dbl num s)"
proof -
  have "split_at_char CHR '','' (ToCsv dbl num s) = csv_fields dbl num s"
    unfolding ToCsv_def by (rule split_join) (simp_all add: csv_fields_def assms)
  moreover have "length (split_at_char CHR '','' CsvHeader) = 26" by (simp add: CsvHeader_def)
  ultimately show ?thesis by (simp add: csv_fields_def)
qed

theorem csv_row_roundtrip_witness:
  "split_at_char CHR '','' (ToCsv (\<lambda>x. ''0.000000'') (\<lambda>n. replicate n CHR ''1'') BenchmarkStats_default) =
    csv_fields (\<lambda>x. ''0.000000'') (\<lambda>n. replicate n CHR ''1'') BenchmarkStats_default"
  using csv_row_roundtrip[of "\<lambda>x. ''0.000000''" "\<lambda>n. replicate n CHR ''1''" BenchmarkStats_default]
  by (simp add: BenchmarkStats_default_def)

end
