(* ===== verification/Benchmark_Runner.thy ===== *)
theory Benchmark_Runner
  imports Benchmark_Stats
begin

text \<open>
  The frame of the latency benchmark: configuration, states, callbacks and the synchronisation
  helper (\<open>FastPortBenchmark/BenchmarkRunner.ixx\<close>), and of \<open>LatencyBenchmarkRunner\<close>
  (\<open>LatencyBenchmarkRunner.cpp\<close>) the life of the object, the state machine, the choice between the two
  kinds of run and the pool of payloads. The two runs themselves are in \<open>Benchmark_Sequential\<close> and
  \<open>Benchmark_Multi\<close>, which extend the record of the runner by the local variables of the run.

  The calls of the callbacks are recorded in \<open>lr_Calls\<close>. The random generator of the payload sizes is a
  parameter: \<open>sizeDist low high i\<close> is the i-th number drawn.
\<close>

section \<open>BenchmarkRunner.ixx\<close>

record BenchmarkConfig =
  cf_testName :: string
  cf_serverHost :: string
  cf_serverPort :: u16
  cf_iterations :: nat
  cf_warmupIterations :: nat
  cf_payloadSize :: nat
  cf_payloadMinSize :: nat
  cf_payloadMaxSize :: nat
  cf_payloadPoolSize :: nat
  cf_sessionCount :: nat
  cf_ioThreadCount :: u32
  cf_timeoutMs :: u32
  cf_verbose :: bool
  cf_useRio :: bool

definition BenchmarkConfig_default :: BenchmarkConfig where
  "BenchmarkConfig_default = \<lparr>cf_testName = ''Default'', cf_serverHost = ''127.0.0.1'', cf_serverPort = 6628,
     cf_iterations = 10000, cf_warmupIterations = 100, cf_payloadSize = 64, cf_payloadMinSize = 0,
     cf_payloadMaxSize = 0, cf_payloadPoolSize = 1024, cf_sessionCount = 1, cf_ioThreadCount = 2,
     cf_timeoutMs = 5000, cf_verbose = False, cf_useRio = False\<rparr>"

datatype BenchmarkState = BS_Idle | BS_Connecting | BS_Warmup | BS_Running | BS_Completed | BS_Failed

text \<open>Which of the callbacks are set, and the calls of them.\<close>

record BenchmarkCallbacks =
  has_onStateChanged :: bool
  has_onProgress :: bool
  has_onCompleted :: bool
  has_onError :: bool

datatype callback_call =
    CB_State BenchmarkState
  | CB_Progress nat nat
  | CB_Completed BenchmarkStats
  | CB_Error string

text \<open>\<open>BenchmarkWaiter\<close> is its flag: \<open>Wait\<close> returns when the flag is set or the time is over, and returns
  the flag.\<close>

type_synonym BenchmarkWaiter = bool

definition BenchmarkWaiter_Signal :: "BenchmarkWaiter \<Rightarrow> BenchmarkWaiter" where
  "BenchmarkWaiter_Signal w = True"

definition BenchmarkWaiter_Reset :: "BenchmarkWaiter \<Rightarrow> BenchmarkWaiter" where
  "BenchmarkWaiter_Reset w = False"

definition BenchmarkWaiter_Wait :: "bool \<Rightarrow> BenchmarkWaiter \<Rightarrow> bool option" where
  "BenchmarkWaiter_Wait timedOut w = (if w \<or> timedOut then Some w else None)"

section \<open>LatencyBenchmarkRunner\<close>

abbreviation PACKET_ID_BENCHMARK_REQUEST :: u16 where
  "PACKET_ID_BENCHMARK_REQUEST \<equiv> 0x1001"

abbreviation PACKET_ID_BENCHMARK_RESPONSE :: u16 where
  "PACKET_ID_BENCHMARK_RESPONSE \<equiv> 0x1002"

datatype bench_service = SV_IOService u32 | SV_RIOService u32 | SV_Stopped

record LatencyBenchmarkRunner =
  lr_Config :: BenchmarkConfig
  lr_Callbacks :: BenchmarkCallbacks
  lr_State :: BenchmarkState
  lr_StopRequested :: bool
  lr_LatencyCollector :: LatencyCollector
  lr_Results :: BenchmarkStats
  lr_RunnerThread :: bool
  lr_Service :: "bench_service option"
  lr_Calls :: "callback_call list"

definition LatencyBenchmarkRunner_ctor :: LatencyBenchmarkRunner where
  "LatencyBenchmarkRunner_ctor = \<lparr>lr_Config = BenchmarkConfig_default,
     lr_Callbacks = \<lparr>has_onStateChanged = False, has_onProgress = False, has_onCompleted = False, has_onError = False\<rparr>,
     lr_State = BS_Idle, lr_StopRequested = False, lr_LatencyCollector = LatencyCollector_ctor,
     lr_Results = BenchmarkStats_default, lr_RunnerThread = False, lr_Service = None, lr_Calls = []\<rparr>"

definition call_back :: "bool \<Rightarrow> callback_call \<Rightarrow> 'a LatencyBenchmarkRunner_scheme \<Rightarrow> 'a LatencyBenchmarkRunner_scheme" where
  "call_back present c r = (if present then r\<lparr>lr_Calls := lr_Calls r @ [c]\<rparr> else r)"

text \<open>\<open>SetState\<close> reads the state first and stores the new one later; in a run of several threads these are
  two actions.\<close>

definition SetState_skips :: "BenchmarkState \<Rightarrow> BenchmarkState \<Rightarrow> bool" where
  "SetState_skips state previous \<longleftrightarrow>
     state \<noteq> BS_Idle \<and> (previous = state \<or> previous = BS_Completed \<or> previous = BS_Failed)"

definition SetState_store :: "BenchmarkState \<Rightarrow> 'a LatencyBenchmarkRunner_scheme \<Rightarrow> 'a LatencyBenchmarkRunner_scheme" where
  "SetState_store state r = call_back (has_onStateChanged (lr_Callbacks r)) (CB_State state) (r\<lparr>lr_State := state\<rparr>)"

definition SetState :: "BenchmarkState \<Rightarrow> 'a LatencyBenchmarkRunner_scheme \<Rightarrow> 'a LatencyBenchmarkRunner_scheme" where
  "SetState state r = (if SetState_skips state (lr_State r) then r else SetState_store state r)"

definition report_error :: "string \<Rightarrow> 'a LatencyBenchmarkRunner_scheme \<Rightarrow> 'a LatencyBenchmarkRunner_scheme" where
  "report_error what r = call_back (has_onError (lr_Callbacks r)) (CB_Error what) r"

text \<open>\<open>Start\<close> assigns the new thread to \<open>m_RunnerThread\<close>; when that still holds a thread,
  \<open>std::thread\<close> ends the process (\<open>None\<close>).\<close>

definition LatencyBenchmarkRunner_Start ::
    "BenchmarkConfig \<Rightarrow> BenchmarkCallbacks \<Rightarrow> 'a LatencyBenchmarkRunner_scheme \<Rightarrow> (bool \<times> 'a LatencyBenchmarkRunner_scheme) option" where
  "LatencyBenchmarkRunner_Start config callbacks r =
    (if lr_State r \<noteq> BS_Idle then Some (False, r)
     else let r1 = r\<lparr>lr_Config := config, lr_Callbacks := callbacks, lr_StopRequested := False,
                     lr_LatencyCollector := LatencyCollector_Clear (lr_LatencyCollector r)\<rparr>
          in if lr_RunnerThread r1 then None else Some (True, r1\<lparr>lr_RunnerThread := True\<rparr>))"

text \<open>\<open>thread\<close> is what the runner thread still does until it ends.\<close>

definition LatencyBenchmarkRunner_Stop ::
    "('a LatencyBenchmarkRunner_scheme \<Rightarrow> 'a LatencyBenchmarkRunner_scheme) \<Rightarrow> 'a LatencyBenchmarkRunner_scheme \<Rightarrow> 'a LatencyBenchmarkRunner_scheme" where
  "LatencyBenchmarkRunner_Stop thread r =
    (let r1 = r\<lparr>lr_StopRequested := True\<rparr>;
         r2 = (if lr_RunnerThread r1 then (thread r1)\<lparr>lr_RunnerThread := False\<rparr> else r1)
     in SetState BS_Idle r2)"

definition LatencyBenchmarkRunner_dtor ::
    "('a LatencyBenchmarkRunner_scheme \<Rightarrow> 'a LatencyBenchmarkRunner_scheme) \<Rightarrow> 'a LatencyBenchmarkRunner_scheme \<Rightarrow> 'a LatencyBenchmarkRunner_scheme" where
  "LatencyBenchmarkRunner_dtor thread r =
    LatencyBenchmarkRunner_Stop thread (if lr_Service r = None then r else r\<lparr>lr_Service := Some SV_Stopped\<rparr>)"

definition LatencyBenchmarkRunner_GetState :: "'a LatencyBenchmarkRunner_scheme \<Rightarrow> BenchmarkState" where
  "LatencyBenchmarkRunner_GetState r = lr_State r"

definition LatencyBenchmarkRunner_GetResults :: "'a LatencyBenchmarkRunner_scheme \<Rightarrow> BenchmarkStats" where
  "LatencyBenchmarkRunner_GetResults r = lr_Results r"

text \<open>\<open>RunBenchmark\<close>: the test which of the two runs it is.\<close>

definition fixedSingleSession :: "BenchmarkConfig \<Rightarrow> bool" where
  "fixedSingleSession c \<longleftrightarrow> cf_sessionCount c \<le> 1 \<and>
     (cf_payloadMinSize c = 0 \<or> cf_payloadMinSize c = cf_payloadSize c) \<and>
     (cf_payloadMaxSize c = 0 \<or> cf_payloadMaxSize c = cf_payloadSize c)"

section \<open>BuildPayloadPool\<close>

definition payload_low :: "BenchmarkConfig \<Rightarrow> nat" where
  "payload_low c = (let minSize = (if cf_payloadMinSize c = 0 then cf_payloadSize c else cf_payloadMinSize c);
                        maxSize = (if cf_payloadMaxSize c = 0 then minSize else cf_payloadMaxSize c)
                    in min minSize maxSize)"

definition payload_high :: "BenchmarkConfig \<Rightarrow> nat" where
  "payload_high c = (let minSize = (if cf_payloadMinSize c = 0 then cf_payloadSize c else cf_payloadMinSize c);
                         maxSize = (if cf_payloadMaxSize c = 0 then minSize else cf_payloadMaxSize c)
                     in max minSize maxSize)"

definition payload_bytes :: "nat \<Rightarrow> nat \<Rightarrow> byte list" where
  "payload_bytes i n = map (\<lambda>j. of_nat (65 + (i + j) mod 26)) [0..<n]"

definition BuildPayloadPool :: "(nat \<Rightarrow> nat \<Rightarrow> nat \<Rightarrow> nat) \<Rightarrow> BenchmarkConfig \<Rightarrow> byte list list" where
  "BuildPayloadPool sizeDist c =
    map (\<lambda>i. payload_bytes i (sizeDist (payload_low c) (payload_high c) i)) [0..<max 1 (cf_payloadPoolSize c)]"

section \<open>Lemmas\<close>

lemma call_back_simps [simp]:
  "lr_State (call_back p c r) = lr_State r" "lr_StopRequested (call_back p c r) = lr_StopRequested r"
  "lr_LatencyCollector (call_back p c r) = lr_LatencyCollector r" "lr_Results (call_back p c r) = lr_Results r"
  "lr_Config (call_back p c r) = lr_Config r" "lr_Callbacks (call_back p c r) = lr_Callbacks r"
  "lr_RunnerThread (call_back p c r) = lr_RunnerThread r" "lr_Service (call_back p c r) = lr_Service r"
  "LatencyBenchmarkRunner.more (call_back p c r) = LatencyBenchmarkRunner.more r"
  "lr_Calls (call_back p c r) = (if p then lr_Calls r @ [c] else lr_Calls r)"
  by (simp_all add: call_back_def)

lemma SetState_store_simps [simp]:
  "lr_State (SetState_store s r) = s" "lr_StopRequested (SetState_store s r) = lr_StopRequested r"
  "lr_LatencyCollector (SetState_store s r) = lr_LatencyCollector r" "lr_Results (SetState_store s r) = lr_Results r"
  "lr_Config (SetState_store s r) = lr_Config r" "lr_Callbacks (SetState_store s r) = lr_Callbacks r"
  "lr_RunnerThread (SetState_store s r) = lr_RunnerThread r" "lr_Service (SetState_store s r) = lr_Service r"
  "LatencyBenchmarkRunner.more (SetState_store s r) = LatencyBenchmarkRunner.more r"
  "lr_Calls (SetState_store s r) = (if has_onStateChanged (lr_Callbacks r) then lr_Calls r @ [CB_State s] else lr_Calls r)"
  by (simp_all add: SetState_store_def)

lemma report_error_simps [simp]:
  "lr_State (report_error e r) = lr_State r" "lr_StopRequested (report_error e r) = lr_StopRequested r"
  "lr_LatencyCollector (report_error e r) = lr_LatencyCollector r" "lr_Results (report_error e r) = lr_Results r"
  "lr_Config (report_error e r) = lr_Config r" "lr_Callbacks (report_error e r) = lr_Callbacks r"
  "lr_RunnerThread (report_error e r) = lr_RunnerThread r" "lr_Service (report_error e r) = lr_Service r"
  "LatencyBenchmarkRunner.more (report_error e r) = LatencyBenchmarkRunner.more r"
  "lr_Calls (report_error e r) = (if has_onError (lr_Callbacks r) then lr_Calls r @ [CB_Error e] else lr_Calls r)"
  by (simp_all add: report_error_def)

definition terminal :: "BenchmarkState \<Rightarrow> bool" where
  "terminal s \<longleftrightarrow> s = BS_Completed \<or> s = BS_Failed"

text \<open>The states a sequence of calls of \<open>SetState\<close> reports.\<close>

fun reported :: "BenchmarkState \<Rightarrow> BenchmarkState list \<Rightarrow> BenchmarkState list" where
  "reported p [] = []"
| "reported p (s # ss) = (if SetState_skips s p then reported p ss else s # reported s ss)"

lemma SetState_reports:
  assumes "has_onStateChanged (lr_Callbacks r)"
  shows "lr_Calls (fold SetState ss r) = lr_Calls r @ map CB_State (reported (lr_State r) ss)"
  using assms by (induction ss arbitrary: r) (auto simp: SetState_def)

lemma terminal_sticks:
  assumes "terminal p" "BS_Idle \<notin> set ss"
  shows "reported p ss = []"
  using assms by (induction ss) (auto simp: terminal_def SetState_skips_def)

lemma reported_terminal_last:
  assumes "BS_Idle \<notin> set ss" "reported p ss = xs @ s # ys" "terminal s"
  shows "ys = []"
  using assms
proof (induction ss arbitrary: p xs)
  case (Cons a ss)
  then show ?case
  proof (cases "SetState_skips a p")
    case False
    show ?thesis
    proof (cases xs)
      case Nil
      then show ?thesis using Cons.prems False terminal_sticks[of a ss] by auto
    next
      case (Cons x xs')
      then show ?thesis using Cons.IH[of a xs'] Cons.prems False by auto
    qed
  qed auto
qed simp

lemma Start_result:
  assumes "LatencyBenchmarkRunner_Start c cb r = Some (ok, r')"
  shows "ok \<longleftrightarrow> lr_State r = BS_Idle" "\<not> ok \<Longrightarrow> r' = r"
    "ok \<Longrightarrow> lr_RunnerThread r' \<and> \<not> lr_RunnerThread r \<and> lc_Samples (lr_LatencyCollector r') = []"
  using assms by (auto simp: LatencyBenchmarkRunner_Start_def LatencyCollector_Clear_def Let_def split: if_splits)

text \<open>The state says nothing about the thread: until the thread has set its first state a second \<open>Start\<close>
  passes the test and ends the process.\<close>

lemma second_start_terminates:
  assumes "LatencyBenchmarkRunner_Start c cb r = Some (True, r')"
  shows "LatencyBenchmarkRunner_Start c' cb' r' = None"
  using assms by (auto simp: LatencyBenchmarkRunner_Start_def Let_def split: if_splits)

lemma pool_not_empty: "BuildPayloadPool d c \<noteq> []"
  by (simp add: BuildPayloadPool_def)

lemma length_pool [simp]: "length (BuildPayloadPool d c) = max 1 (cf_payloadPoolSize c)"
  by (simp add: BuildPayloadPool_def)

lemma length_pool_payload:
  "i < max 1 (cf_payloadPoolSize c) \<Longrightarrow>
    length (BuildPayloadPool d c ! i) = d (payload_low c) (payload_high c) i"
  by (simp add: BuildPayloadPool_def payload_bytes_def)

end
