(* ===== verification/Benchmark_Multi.thy ===== *)
theory Benchmark_Multi
  imports Benchmark_Runner Interleaving
begin

text \<open>
  The benchmark over many sessions (\<open>LatencyBenchmarkRunner.cpp\<close>, \<open>RunMultiSessionBenchmark\<close> and
  \<open>DisconnectAndWaitDrain\<close>). The runner thread and the handlers of the sessions, which the workers of
  the completion port call, run at the same time; they are cut into their atomic actions (one access
  of an atomic variable, one region under a lock, one call) and interleave in any order, as in
  \<open>Interleaving\<close>. Thread 0 is the runner.

  The record extends that of the runner by the local variables of the run. \<open>mr_Answered\<close> is no variable
  of the program: it records the requests whose responses gave a sample, with the time of the
  response. \<open>mr_Returned\<close> tells that the function has returned, so that its local variables are gone,
  and \<open>mr_Dangling\<close> that a handler used one of them afterwards.

  Of a session the model keeps what the run needs: the handlers that are set, the requests it
  has sent and not seen answered (a server answers the requests of a connection in order, each
  once), that one packet is handled at a time, and that connect and disconnect are notified once.
\<close>

record bench_request =
  rq_Session :: nat
  rq_Measured :: bool
  rq_Ticket :: nat
  rq_Sequence :: u32
  rq_Time :: u64
  rq_Payload :: nat

record SessionContext =
  cx_Session :: bool
  cx_Connected :: bool
  cx_Active :: bool
  cx_Sequence :: u32
  cx_SendTimeNs :: u64
  cx_PayloadIndex :: nat
  cx_PacketHandler :: bool
  cx_DrainHandler :: bool
  cx_DrainLive :: bool
  cx_Drained :: bool
  cx_DisconnectRequested :: bool
  cx_Inflight :: "bench_request list"
  cx_InCallback :: bool
  cx_ConnectTold :: bool
  cx_DisconnectTold :: bool

definition SessionContext_ctor :: SessionContext where
  "SessionContext_ctor = \<lparr>cx_Session = False, cx_Connected = False, cx_Active = True, cx_Sequence = 0, cx_SendTimeNs = 0,
     cx_PayloadIndex = 0, cx_PacketHandler = False, cx_DrainHandler = False, cx_DrainLive = False, cx_Drained = False,
     cx_DisconnectRequested = False, cx_Inflight = [], cx_InCallback = False, cx_ConnectTold = False,
     cx_DisconnectTold = False\<rparr>"

record multi_run = LatencyBenchmarkRunner +
  mr_Contexts :: "SessionContext list"
  mr_AbortRequested :: bool
  mr_DisconnectedCount :: nat
  mr_ConnectedCount :: nat
  mr_NextWarmup :: nat
  mr_CompletedWarmup :: nat
  mr_NextMeasured :: nat
  mr_CompletedMeasured :: nat
  mr_RunningMeasured :: bool
  mr_ConnectElapsedNs :: u64
  mr_WarmupElapsedNs :: u64
  mr_Returned :: bool
  mr_Dangling :: bool
  mr_Answered :: "(bench_request \<times> u64) list"

definition sessionCount :: "BenchmarkConfig \<Rightarrow> nat" where
  "sessionCount c = max 1 (cf_sessionCount c)"

definition totalTarget :: "BenchmarkConfig \<Rightarrow> nat" where
  "totalTarget c = max 1 (cf_iterations c)"

definition warmupTarget :: "BenchmarkConfig \<Rightarrow> nat" where
  "warmupTarget c = cf_warmupIterations c * sessionCount c"

abbreviation ctx :: "'a multi_run_scheme \<Rightarrow> nat \<Rightarrow> SessionContext" where
  "ctx s c \<equiv> mr_Contexts s ! c"

definition upd_ctx :: "nat \<Rightarrow> (SessionContext \<Rightarrow> SessionContext) \<Rightarrow> 'a multi_run_scheme \<Rightarrow> 'a multi_run_scheme" where
  "upd_ctx c f s = s\<lparr>mr_Contexts := (mr_Contexts s)[c := f (mr_Contexts s ! c)]\<rparr>"

datatype bench_act =
    \<comment> \<open>the runner thread\<close>
    M_Begin
  | M_ConnectStart
  | M_Create nat u64
  | M_Created nat u64
  | M_ConnectWait u64
  | M_ConnectAbort u64
  | M_SetHandler nat
  | M_Warmup
  | M_WarmupSend
  | M_WarmupWait u64
  | M_WarmupCheck bool u64
  | M_WarmupError
  | M_Running
  | M_Measure
  | M_MeasureSend
  | M_DoneWait u64
  | M_DoneCheck bool u64
  | M_DoneError
  | M_Results u64
  | M_Completed
  | M_Drain nat
  | M_Disconnect nat
  | M_DrainWait nat
  | M_Throw string
  | M_Unwind
    \<comment> \<open>SetState and onError\<close>
  | B_SetState BenchmarkState
  | B_StoreState BenchmarkState
  | B_Error string
    \<comment> \<open>sendNext, with the number of the response it follows\<close>
  | S_Guard nat bool "nat option"
  | S_Ticket nat bool "nat option"
  | S_Build nat bool nat
  | S_StorePayload bench_request
  | S_StoreTime bench_request
  | S_Send bench_request
    \<comment> \<open>the packet handler\<close>
  | P_Check nat bench_request
  | P_WarmCount nat
  | P_LoadTime nat bench_request
  | P_LoadPayload nat bench_request u64 u64
  | P_AddSample nat bench_request u64 u64 nat
  | P_Count nat
  | P_Progress nat
  | P_Notify
  | P_End nat
    \<comment> \<open>the connect and the disconnect handler\<close>
  | C_Connected nat
  | C_Count
  | D_Active nat
  | D_Check
  | D_Abort
  | D_Count
  | D_Error nat

record bench_choice =
  bc_Now :: u64
  bc_Ok :: bool
  bc_Timeout :: bool

definition measured_limit :: "BenchmarkConfig \<Rightarrow> bool \<Rightarrow> nat" where
  "measured_limit cfg measured = (if measured then totalTarget cfg else warmupTarget cfg)"

text \<open>What follows a \<open>sendNext\<close> that returned \<open>false\<close>.\<close>

definition send_failed :: "BenchmarkConfig \<Rightarrow> bool \<Rightarrow> nat option \<Rightarrow> bench_act list" where
  "send_failed cfg measured done =
    (case done of None \<Rightarrow> [] | Some n \<Rightarrow> if measured_limit cfg measured \<le> n then [P_Notify] else [])"

definition multi_results :: "(nat \<Rightarrow> nat \<Rightarrow> nat \<Rightarrow> nat) \<Rightarrow> u64 \<Rightarrow> 'a multi_run_scheme \<Rightarrow> BenchmarkStats" where
  "multi_results d measuredElapsedNs s =
    (let cfg = lr_Config s;
         st = Calculate (cf_testName cfg) (if cf_payloadMaxSize cfg = 0 then cf_payloadSize cfg else cf_payloadMaxSize cfg)
                (lr_LatencyCollector s);
         minBytes = (if cf_payloadMinSize cfg = 0 then cf_payloadSize cfg
                     else min (cf_payloadMinSize cfg) (if cf_payloadMaxSize cfg = 0 then cf_payloadMinSize cfg else cf_payloadMaxSize cfg));
         maxBytes = (if cf_payloadMaxSize cfg = 0 then minBytes
                     else max (if cf_payloadMinSize cfg = 0 then cf_payloadSize cfg else cf_payloadMinSize cfg) (cf_payloadMaxSize cfg));
         st1 = st\<lparr>bs_totalElapsedNs := measuredElapsedNs, bs_debugProfileEnabled := True,
                  bs_requestedSessions := sessionCount cfg, bs_connectedSessions := mr_ConnectedCount s,
                  bs_connectionLosses := mr_DisconnectedCount s, bs_warmupRequests := warmupTarget cfg,
                  bs_warmupResponses := mr_CompletedWarmup s, bs_measuredRequests := totalTarget cfg,
                  bs_measuredResponses := mr_CompletedMeasured s, bs_payloadMinBytes := minBytes,
                  bs_payloadMaxBytes := maxBytes, bs_payloadPoolSize := length (BuildPayloadPool d cfg),
                  bs_connectElapsedNs := mr_ConnectElapsedNs s, bs_warmupElapsedNs := mr_WarmupElapsedNs s,
                  bs_measuredElapsedNs := measuredElapsedNs\<rparr>;
         elapsedSec = ToSeconds (real (unat measuredElapsedNs))
     in if elapsedSec > 0
        then st1\<lparr>bs_packetsPerSecond := real (bs_iterations st1) / elapsedSec,
               bs_megabytesPerSecond := real (unat (bs_totalBytes st1)) / (1024 * 1024) / elapsedSec\<rparr>
        else st1)"

text \<open>One action. \<open>None\<close> is a wait that goes on; \<open>d\<close> draws the sizes of the payloads.\<close>

text \<open>The runner opens the sessions; the exceptions it throws are caught in \<open>RunBenchmark\<close>.\<close>

definition connect_do :: "(nat \<Rightarrow> nat \<Rightarrow> nat \<Rightarrow> nat) \<Rightarrow> bench_choice \<Rightarrow> bench_act \<Rightarrow> multi_run \<Rightarrow> (bench_act list \<times> multi_run) option" where
  "connect_do d ch a s = (case a of
       M_Begin \<Rightarrow>
       (if cf_useRio (lr_Config s)
        then Some ([M_Throw ''Multi-session random payload benchmark currently supports IOCP mode only''], s)
        else Some ([B_SetState BS_Connecting, M_ConnectStart],
                   s\<lparr>lr_Service := Some (SV_IOService (cf_ioThreadCount (lr_Config s)))\<rparr>))
     | M_ConnectStart \<Rightarrow>
       (Some ([M_Create 0 (bc_Now ch)], s))
     | M_Create i t0 \<Rightarrow>
       (if i < sessionCount (lr_Config s)
        then Some ([M_Created i t0], upd_ctx i (\<lambda>x. x\<lparr>cx_Session := bc_Ok ch\<rparr>) s)
        else Some ([M_ConnectWait t0], s))
     | M_Created i t0 \<Rightarrow>
       (if cx_Session (ctx s i) \<and> bc_Ok ch then Some ([M_Create (Suc i) t0], s)
        else Some ([M_Throw ''Failed to create benchmark connector''], s))
     | M_ConnectWait t0 \<Rightarrow>
       (if mr_ConnectedCount s = sessionCount (lr_Config s) \<or> mr_AbortRequested s then Some ([M_ConnectAbort t0], s)
        else if bc_Timeout ch
        then Some ([B_SetState BS_Failed, B_Error ''Connection timeout while opening benchmark sessions'', M_Unwind], s)
        else None)
     | M_ConnectAbort t0 \<Rightarrow>
       (if mr_AbortRequested s then Some ([M_Unwind], s)
        else Some ([M_SetHandler 0], s\<lparr>mr_ConnectElapsedNs := bc_Now ch - t0\<rparr>))
     | M_SetHandler i \<Rightarrow>
       (if i < sessionCount (lr_Config s)
        then Some ([M_SetHandler (Suc i)], upd_ctx i (\<lambda>x. x\<lparr>cx_PacketHandler := True\<rparr>) s)
        else Some ([M_Warmup], s))
     | M_Throw what \<Rightarrow>
       (Some ([M_Unwind, B_SetState BS_Failed, B_Error what], s))
     | M_Unwind \<Rightarrow>
       (Some ([], s\<lparr>mr_Returned := True\<rparr>))
     | _ \<Rightarrow> None)"

definition warmup_do :: "(nat \<Rightarrow> nat \<Rightarrow> nat \<Rightarrow> nat) \<Rightarrow> bench_choice \<Rightarrow> bench_act \<Rightarrow> multi_run \<Rightarrow> (bench_act list \<times> multi_run) option" where
  "warmup_do d ch a s = (case a of
       M_Warmup \<Rightarrow>
       (if 0 < warmupTarget (lr_Config s) then Some ([B_SetState BS_Warmup, M_WarmupSend], s) else Some ([M_Running], s))
     | M_WarmupSend \<Rightarrow>
       (Some (map (\<lambda>c. S_Guard c False None) [0..<sessionCount (lr_Config s)] @ [M_WarmupWait (bc_Now ch)], s))
     | M_WarmupWait t0 \<Rightarrow>
       (let pred = warmupTarget (lr_Config s) \<le> mr_CompletedWarmup s \<or> lr_StopRequested s \<or> mr_AbortRequested s
        in if pred \<or> bc_Timeout ch then Some ([M_WarmupCheck pred t0], s) else None)
     | M_WarmupCheck warmupDone t0 \<Rightarrow>
       (if \<not> warmupDone \<or> lr_StopRequested s \<or> mr_AbortRequested s
        then Some ([B_SetState BS_Failed, M_WarmupError, M_Unwind], s)
        else Some ([M_Running], s\<lparr>mr_WarmupElapsedNs := bc_Now ch - t0\<rparr>))
     | M_WarmupError \<Rightarrow>
       (Some ([B_Error (if mr_AbortRequested s then ''Warmup aborted after connection loss'' else ''Warmup timeout'')], s))
     | _ \<Rightarrow> None)"

definition measure_do :: "(nat \<Rightarrow> nat \<Rightarrow> nat \<Rightarrow> nat) \<Rightarrow> bench_choice \<Rightarrow> bench_act \<Rightarrow> multi_run \<Rightarrow> (bench_act list \<times> multi_run) option" where
  "measure_do d ch a s = (case a of
       M_Running \<Rightarrow>
       (Some ([B_SetState BS_Running, M_Measure], s))
     | M_Measure \<Rightarrow>
       (Some ([M_MeasureSend], s\<lparr>mr_RunningMeasured := True\<rparr>))
     | M_MeasureSend \<Rightarrow>
       (Some (map (\<lambda>c. S_Guard c True None) [0..<sessionCount (lr_Config s)] @ [M_DoneWait (bc_Now ch)], s))
     | M_DoneWait t0 \<Rightarrow>
       (let pred = totalTarget (lr_Config s) \<le> mr_CompletedMeasured s \<or> lr_StopRequested s \<or> mr_AbortRequested s
        in if pred \<or> bc_Timeout ch then Some ([M_DoneCheck pred t0], s) else None)
     | M_DoneCheck measuredDone t0 \<Rightarrow>
       (if \<not> measuredDone \<or> lr_StopRequested s \<or> mr_AbortRequested s
        then Some ([B_SetState BS_Failed, M_DoneError, M_Unwind], s)
        else Some ([M_Results t0], s))
     | M_DoneError \<Rightarrow>
       (Some ([B_Error (if mr_AbortRequested s then ''Measured run aborted after connection loss'' else ''Measured run timeout'')], s))
     | _ \<Rightarrow> None)"

definition report_do :: "(nat \<Rightarrow> nat \<Rightarrow> nat \<Rightarrow> nat) \<Rightarrow> bench_choice \<Rightarrow> bench_act \<Rightarrow> multi_run \<Rightarrow> (bench_act list \<times> multi_run) option" where
  "report_do d ch a s = (case a of
       M_Results t0 \<Rightarrow>
       (Some ([B_SetState BS_Completed, M_Completed, M_Drain 0], s\<lparr>lr_Results := multi_results d (bc_Now ch - t0) s\<rparr>))
     | M_Completed \<Rightarrow>
       (Some ([], call_back (has_onCompleted (lr_Callbacks s)) (CB_Completed (lr_Results s)) s))
     | _ \<Rightarrow> None)"

text \<open>\<open>DisconnectAndWaitDrain\<close> of one session after the other.\<close>

definition drain_do :: "(nat \<Rightarrow> nat \<Rightarrow> nat \<Rightarrow> nat) \<Rightarrow> bench_choice \<Rightarrow> bench_act \<Rightarrow> multi_run \<Rightarrow> (bench_act list \<times> multi_run) option" where
  "drain_do d ch a s = (case a of
       M_Drain i \<Rightarrow>
       (if i < sessionCount (lr_Config s)
        then Some ([M_Disconnect i], upd_ctx i (\<lambda>x. x\<lparr>cx_DrainHandler := True, cx_DrainLive := True\<rparr>) s)
        else Some ([M_Unwind], s))
     | M_Disconnect i \<Rightarrow>
       (Some ([M_DrainWait i], upd_ctx i (\<lambda>x. x\<lparr>cx_DisconnectRequested := True\<rparr>) s))
     | M_DrainWait i \<Rightarrow>
       (if cx_Drained (ctx s i) \<or> bc_Timeout ch
        then Some ([M_Drain (Suc i)], upd_ctx i (\<lambda>x. x\<lparr>cx_DrainLive := False\<rparr>) s) else None)
     | _ \<Rightarrow> None)"

definition state_do :: "(nat \<Rightarrow> nat \<Rightarrow> nat \<Rightarrow> nat) \<Rightarrow> bench_choice \<Rightarrow> bench_act \<Rightarrow> multi_run \<Rightarrow> (bench_act list \<times> multi_run) option" where
  "state_do d ch a s = (case a of
       B_SetState st \<Rightarrow>
       (Some (if SetState_skips st (lr_State s) then [] else [B_StoreState st], s))
     | B_StoreState st \<Rightarrow>
       (Some ([], SetState_store st s))
     | B_Error what \<Rightarrow>
       (Some ([], report_error what s))
     | _ \<Rightarrow> None)"

text \<open>\<open>sendNext\<close>.\<close>

definition sendNext_do :: "(nat \<Rightarrow> nat \<Rightarrow> nat \<Rightarrow> nat) \<Rightarrow> bench_choice \<Rightarrow> bench_act \<Rightarrow> multi_run \<Rightarrow> (bench_act list \<times> multi_run) option" where
  "sendNext_do d ch a s = (case a of
       S_Guard c measured done \<Rightarrow>
       (if \<not> cx_Session (ctx s c) \<or> \<not> cx_Active (ctx s c) \<or> lr_StopRequested s
        then Some (send_failed (lr_Config s) measured done, s) else Some ([S_Ticket c measured done], s))
     | S_Ticket c measured done \<Rightarrow>
       (let ticket = (if measured then mr_NextMeasured s else mr_NextWarmup s);
            s1 = (if measured then s\<lparr>mr_NextMeasured := Suc ticket\<rparr> else s\<lparr>mr_NextWarmup := Suc ticket\<rparr>)
        in if measured_limit (lr_Config s) measured \<le> ticket then Some (send_failed (lr_Config s) measured done, s1)
           else Some ([S_Build c measured ticket], s1))
     | S_Build c measured ticket \<Rightarrow>
       (Some ([S_StorePayload \<lparr>rq_Session = c, rq_Measured = measured, rq_Ticket = ticket,
                rq_Sequence = cx_Sequence (ctx s c), rq_Time = bc_Now ch,
                rq_Payload = (ticket + c * 131) mod length (BuildPayloadPool d (lr_Config s))\<rparr>],
             upd_ctx c (\<lambda>x. x\<lparr>cx_Sequence := cx_Sequence x + 1\<rparr>) s))
     | S_StorePayload r \<Rightarrow>
       (Some ([S_StoreTime r], upd_ctx (rq_Session r) (\<lambda>x. x\<lparr>cx_PayloadIndex := rq_Payload r\<rparr>) s))
     | S_StoreTime r \<Rightarrow>
       (Some ([S_Send r], upd_ctx (rq_Session r) (\<lambda>x. x\<lparr>cx_SendTimeNs := rq_Time r\<rparr>) s))
     | S_Send r \<Rightarrow>
       (Some ([], if bc_Ok ch then upd_ctx (rq_Session r) (\<lambda>x. x\<lparr>cx_Inflight := cx_Inflight x @ [r]\<rparr>) s else s))
     | _ \<Rightarrow> None)"

text \<open>The packet handler, the connect handler and the disconnect handler of a session.\<close>

definition packet_do :: "(nat \<Rightarrow> nat \<Rightarrow> nat \<Rightarrow> nat) \<Rightarrow> bench_choice \<Rightarrow> bench_act \<Rightarrow> multi_run \<Rightarrow> (bench_act list \<times> multi_run) option" where
  "packet_do d ch a s = (case a of
       P_Check c r \<Rightarrow>
       (Some ([if mr_RunningMeasured s then P_LoadTime c r else P_WarmCount c], s))
     | P_WarmCount c \<Rightarrow>
       (Some ([S_Guard c False (Some (Suc (mr_CompletedWarmup s)))], s\<lparr>mr_CompletedWarmup := Suc (mr_CompletedWarmup s)\<rparr>))
     | P_LoadTime c r \<Rightarrow>
       (Some ([P_LoadPayload c r (bc_Now ch) (cx_SendTimeNs (ctx s c))], s))
     | P_LoadPayload c r recvTime sendTime \<Rightarrow>
       (Some ([P_AddSample c r recvTime sendTime (cx_PayloadIndex (ctx s c))], s))
     | P_AddSample c r recvTime sendTime payloadIndex \<Rightarrow>
       (Some ([P_Count c],
         s\<lparr>lr_LatencyCollector := AddSample (recvTime - sendTime)
              (length (BuildPayloadPool d (lr_Config s) ! payloadIndex)) (lr_LatencyCollector s),
           mr_Answered := mr_Answered s @ [(r, recvTime)]\<rparr>))
     | P_Count c \<Rightarrow>
       (let done = Suc (mr_CompletedMeasured s)
        in Some ([P_Progress done, S_Guard c True (Some done)], s\<lparr>mr_CompletedMeasured := done\<rparr>))
     | P_Progress done \<Rightarrow>
       (Some ([], call_back (has_onProgress (lr_Callbacks s) \<and> (done mod 1000 = 0 \<or> done = totalTarget (lr_Config s)))
                   (CB_Progress done (totalTarget (lr_Config s))) s))
     | P_Notify \<Rightarrow>
       (Some ([], s))
     | P_End c \<Rightarrow>
       (Some ([], upd_ctx c (\<lambda>x. x\<lparr>cx_InCallback := False\<rparr>) s))
     | _ \<Rightarrow> None)"

definition connection_do :: "(nat \<Rightarrow> nat \<Rightarrow> nat \<Rightarrow> nat) \<Rightarrow> bench_choice \<Rightarrow> bench_act \<Rightarrow> multi_run \<Rightarrow> (bench_act list \<times> multi_run) option" where
  "connection_do d ch a s = (case a of
       C_Connected c \<Rightarrow>
       (Some ([C_Count], upd_ctx c (\<lambda>x. x\<lparr>cx_Connected := True\<rparr>) s))
     | C_Count \<Rightarrow>
       (Some ([], s\<lparr>mr_ConnectedCount := Suc (mr_ConnectedCount s)\<rparr>))
     | D_Active c \<Rightarrow>
       (Some ([D_Check], upd_ctx c (\<lambda>x. x\<lparr>cx_Active := False\<rparr>) s))
     | D_Check \<Rightarrow>
       (Some (if lr_State s \<noteq> BS_Completed \<and> \<not> lr_StopRequested s then [D_Abort] else [], s))
     | D_Abort \<Rightarrow>
       (Some ([D_Count], s\<lparr>mr_AbortRequested := True\<rparr>))
     | D_Count \<Rightarrow>
       (let disconnected = Suc (mr_DisconnectedCount s)
        in Some ([B_SetState BS_Failed, D_Error disconnected], s\<lparr>mr_DisconnectedCount := disconnected\<rparr>))
     | D_Error disconnected \<Rightarrow>
       (Some ([], if disconnected = 1 then report_error ''Connection lost during multi-session benchmark'' s else s))
     | _ \<Rightarrow> None)"

fun bench_do :: "(nat \<Rightarrow> nat \<Rightarrow> nat \<Rightarrow> nat) \<Rightarrow> bench_choice \<Rightarrow> bench_act \<Rightarrow> multi_run \<Rightarrow> (bench_act list \<times> multi_run) option" where
  "bench_do d ch M_Begin s = connect_do d ch M_Begin s"
| "bench_do d ch M_ConnectStart s = connect_do d ch M_ConnectStart s"
| "bench_do d ch (M_Create i t0) s = connect_do d ch (M_Create i t0) s"
| "bench_do d ch (M_Created i t0) s = connect_do d ch (M_Created i t0) s"
| "bench_do d ch (M_ConnectWait t0) s = connect_do d ch (M_ConnectWait t0) s"
| "bench_do d ch (M_ConnectAbort t0) s = connect_do d ch (M_ConnectAbort t0) s"
| "bench_do d ch (M_SetHandler i) s = connect_do d ch (M_SetHandler i) s"
| "bench_do d ch M_Warmup s = warmup_do d ch M_Warmup s"
| "bench_do d ch M_WarmupSend s = warmup_do d ch M_WarmupSend s"
| "bench_do d ch (M_WarmupWait t0) s = warmup_do d ch (M_WarmupWait t0) s"
| "bench_do d ch (M_WarmupCheck warmupDone t0) s = warmup_do d ch (M_WarmupCheck warmupDone t0) s"
| "bench_do d ch M_WarmupError s = warmup_do d ch M_WarmupError s"
| "bench_do d ch M_Running s = measure_do d ch M_Running s"
| "bench_do d ch M_Measure s = measure_do d ch M_Measure s"
| "bench_do d ch M_MeasureSend s = measure_do d ch M_MeasureSend s"
| "bench_do d ch (M_DoneWait t0) s = measure_do d ch (M_DoneWait t0) s"
| "bench_do d ch (M_DoneCheck measuredDone t0) s = measure_do d ch (M_DoneCheck measuredDone t0) s"
| "bench_do d ch M_DoneError s = measure_do d ch M_DoneError s"
| "bench_do d ch (M_Results t0) s = report_do d ch (M_Results t0) s"
| "bench_do d ch M_Completed s = report_do d ch M_Completed s"
| "bench_do d ch (M_Drain i) s = drain_do d ch (M_Drain i) s"
| "bench_do d ch (M_Disconnect i) s = drain_do d ch (M_Disconnect i) s"
| "bench_do d ch (M_DrainWait i) s = drain_do d ch (M_DrainWait i) s"
| "bench_do d ch (M_Throw what) s = connect_do d ch (M_Throw what) s"
| "bench_do d ch M_Unwind s = connect_do d ch M_Unwind s"
| "bench_do d ch (B_SetState st) s = state_do d ch (B_SetState st) s"
| "bench_do d ch (B_StoreState st) s = state_do d ch (B_StoreState st) s"
| "bench_do d ch (B_Error what) s = state_do d ch (B_Error what) s"
| "bench_do d ch (S_Guard c measured done) s = sendNext_do d ch (S_Guard c measured done) s"
| "bench_do d ch (S_Ticket c measured done) s = sendNext_do d ch (S_Ticket c measured done) s"
| "bench_do d ch (S_Build c measured ticket) s = sendNext_do d ch (S_Build c measured ticket) s"
| "bench_do d ch (S_StorePayload r) s = sendNext_do d ch (S_StorePayload r) s"
| "bench_do d ch (S_StoreTime r) s = sendNext_do d ch (S_StoreTime r) s"
| "bench_do d ch (S_Send r) s = sendNext_do d ch (S_Send r) s"
| "bench_do d ch (P_Check c r) s = packet_do d ch (P_Check c r) s"
| "bench_do d ch (P_WarmCount c) s = packet_do d ch (P_WarmCount c) s"
| "bench_do d ch (P_LoadTime c r) s = packet_do d ch (P_LoadTime c r) s"
| "bench_do d ch (P_LoadPayload c r recvTime sendTime) s = packet_do d ch (P_LoadPayload c r recvTime sendTime) s"
| "bench_do d ch (P_AddSample c r recvTime sendTime payloadIndex) s = packet_do d ch (P_AddSample c r recvTime sendTime payloadIndex) s"
| "bench_do d ch (P_Count c) s = packet_do d ch (P_Count c) s"
| "bench_do d ch (P_Progress done) s = packet_do d ch (P_Progress done) s"
| "bench_do d ch P_Notify s = packet_do d ch P_Notify s"
| "bench_do d ch (P_End c) s = packet_do d ch (P_End c) s"
| "bench_do d ch (C_Connected c) s = connection_do d ch (C_Connected c) s"
| "bench_do d ch C_Count s = connection_do d ch C_Count s"
| "bench_do d ch (D_Active c) s = connection_do d ch (D_Active c) s"
| "bench_do d ch D_Check s = connection_do d ch D_Check s"
| "bench_do d ch D_Abort s = connection_do d ch D_Abort s"
| "bench_do d ch D_Count s = connection_do d ch D_Count s"
| "bench_do d ch (D_Error disconnected) s = connection_do d ch (D_Error disconnected) s"

text \<open>The actions of a handler that use a local variable of the function.\<close>

fun touches_frame :: "bench_act \<Rightarrow> bool" where
  "touches_frame (B_SetState _) = False"
| "touches_frame (B_StoreState _) = False"
| "touches_frame (B_Error _) = False"
| "touches_frame (C_Connected _) = False"
| "touches_frame (D_Active _) = False"
| "touches_frame D_Check = False"
| "touches_frame (D_Error _) = False"
| "touches_frame (P_End _) = False"
| "touches_frame _ = True"

datatype bench_event =
    BE_Stop
  | BE_Connected nat
  | BE_Disconnected nat
  | BE_Packet nat u16 bool
  | BE_Act nat bench_choice

type_synonym bench_threads = "bench_act list list"

fun bench_exec :: "(nat \<Rightarrow> nat \<Rightarrow> nat \<Rightarrow> nat) \<Rightarrow> bench_event \<Rightarrow> multi_run \<times> bench_threads \<Rightarrow> (multi_run \<times> bench_threads) option" where
  "bench_exec d BE_Stop (s, ts) = Some (s\<lparr>lr_StopRequested := True\<rparr>, ts)"
| "bench_exec d (BE_Connected c) (s, ts) =
     (if c < length (mr_Contexts s) \<and> cx_Session (ctx s c) \<and> \<not> cx_ConnectTold (ctx s c)
      then Some (upd_ctx c (\<lambda>x. x\<lparr>cx_ConnectTold := True\<rparr>) s, ts @ [[C_Connected c]]) else None)"
| "bench_exec d (BE_Disconnected c) (s, ts) =
     (if c < length (mr_Contexts s) \<and> cx_Session (ctx s c) \<and> \<not> cx_DisconnectTold (ctx s c) \<and> \<not> cx_InCallback (ctx s c)
      then let s1 = upd_ctx c (\<lambda>x. x\<lparr>cx_DisconnectTold := True\<rparr>) s
           in Some (if cx_DrainHandler (ctx s c)
                    then (upd_ctx c (\<lambda>x. x\<lparr>cx_Drained := True\<rparr>) (s1\<lparr>mr_Dangling := mr_Dangling s \<or> \<not> cx_DrainLive (ctx s c)\<rparr>), ts)
                    else (s1, ts @ [[D_Active c]]))
      else None)"
| "bench_exec d (BE_Packet c packetId parsed) (s, ts) =
     (if c < length (mr_Contexts s) \<and> cx_Session (ctx s c) \<and> \<not> cx_DisconnectTold (ctx s c) \<and> \<not> cx_InCallback (ctx s c)
      then if packetId \<noteq> PACKET_ID_BENCHMARK_RESPONSE \<or> \<not> parsed then Some (s, ts)
           else case cx_Inflight (ctx s c) of
                  [] \<Rightarrow> None
                | r # rs \<Rightarrow>
                    if cx_PacketHandler (ctx s c)
                    then Some (upd_ctx c (\<lambda>x. x\<lparr>cx_Inflight := rs, cx_InCallback := True\<rparr>) s, ts @ [[P_Check c r, P_End c]])
                    else Some (upd_ctx c (\<lambda>x. x\<lparr>cx_Inflight := rs\<rparr>) s, ts)
      else None)"
| "bench_exec d (BE_Act i ch) (s, ts) =
     (if i < length ts then
        case ts ! i of
          [] \<Rightarrow> None
        | a # k \<Rightarrow>
            (case bench_do d ch a s of
               None \<Rightarrow> None
             | Some (new, s') \<Rightarrow>
                 Some (s'\<lparr>mr_Dangling := mr_Dangling s' \<or> 0 < i \<and> mr_Returned s \<and> touches_frame a\<rparr>, ts[i := new @ k]))
      else None)"

fun bench_run :: "(nat \<Rightarrow> nat \<Rightarrow> nat \<Rightarrow> nat) \<Rightarrow> bench_event list \<Rightarrow> multi_run \<times> bench_threads \<Rightarrow> (multi_run \<times> bench_threads) option" where
  "bench_run d [] s = Some s"
| "bench_run d (e # es) s = (case bench_exec d e s of None \<Rightarrow> None | Some s' \<Rightarrow> bench_run d es s')"

text \<open>The run of a runner that \<open>Start\<close> has just started.\<close>

definition multi_init :: "LatencyBenchmarkRunner \<Rightarrow> multi_run \<times> bench_threads" where
  "multi_init r = (LatencyBenchmarkRunner.extend r
     \<lparr>mr_Contexts = replicate (sessionCount (lr_Config r)) SessionContext_ctor, mr_AbortRequested = False,
      mr_DisconnectedCount = 0, mr_ConnectedCount = 0, mr_NextWarmup = 0, mr_CompletedWarmup = 0, mr_NextMeasured = 0,
      mr_CompletedMeasured = 0, mr_RunningMeasured = False, mr_ConnectElapsedNs = 0, mr_WarmupElapsedNs = 0,
      mr_Returned = False, mr_Dangling = False, mr_Answered = []\<rparr>, [[M_Begin]])"

end
