(* ===== verification/Benchmark_Multi_Laws.thy ===== *)
theory Benchmark_Multi_Laws
  imports Benchmark_Multi
begin

text \<open>
  The invariant of the benchmark over many sessions, for every interleaving of the runner with the
  handlers. Tickets, the right to use the stamps of a session (send time and payload index), and
  the responses still to be counted are weights of the pending actions; one action never
  increases their sum. From this follows that the stamps a handler reads are those of the
  request that was answered.
\<close>

lemmas bench_do_defs [simp] = connect_do_def warmup_do_def measure_do_def report_do_def drain_do_def state_do_def sendNext_do_def packet_do_def connection_do_def

section \<open>Field lemmas\<close>

lemma upd_ctx_simps [simp]:
  "mr_Contexts (upd_ctx c f s) = (mr_Contexts s)[c := f (mr_Contexts s ! c)]"
  "lr_Config (upd_ctx c f s) = lr_Config s" "lr_State (upd_ctx c f s) = lr_State s"
  "lr_StopRequested (upd_ctx c f s) = lr_StopRequested s" "lr_LatencyCollector (upd_ctx c f s) = lr_LatencyCollector s"
  "lr_Results (upd_ctx c f s) = lr_Results s" "lr_Calls (upd_ctx c f s) = lr_Calls s"
  "mr_AbortRequested (upd_ctx c f s) = mr_AbortRequested s" "mr_ConnectedCount (upd_ctx c f s) = mr_ConnectedCount s"
  "mr_NextWarmup (upd_ctx c f s) = mr_NextWarmup s" "mr_CompletedWarmup (upd_ctx c f s) = mr_CompletedWarmup s"
  "mr_NextMeasured (upd_ctx c f s) = mr_NextMeasured s" "mr_CompletedMeasured (upd_ctx c f s) = mr_CompletedMeasured s"
  "mr_RunningMeasured (upd_ctx c f s) = mr_RunningMeasured s" "mr_Answered (upd_ctx c f s) = mr_Answered s"
  by (simp_all add: upd_ctx_def)

lemma call_back_multi [simp]:
  "mr_Contexts (call_back p x s) = mr_Contexts s" "mr_AbortRequested (call_back p x s) = mr_AbortRequested s"
  "mr_ConnectedCount (call_back p x s) = mr_ConnectedCount s" "mr_NextWarmup (call_back p x s) = mr_NextWarmup s"
  "mr_CompletedWarmup (call_back p x s) = mr_CompletedWarmup s" "mr_NextMeasured (call_back p x s) = mr_NextMeasured s"
  "mr_CompletedMeasured (call_back p x s) = mr_CompletedMeasured s" "mr_RunningMeasured (call_back p x s) = mr_RunningMeasured s"
  "mr_Answered (call_back p x s) = mr_Answered s"
  by (simp_all add: call_back_def)

lemma SetState_store_multi [simp]:
  "mr_Contexts (SetState_store x s) = mr_Contexts s" "mr_AbortRequested (SetState_store x s) = mr_AbortRequested s"
  "mr_ConnectedCount (SetState_store x s) = mr_ConnectedCount s" "mr_NextWarmup (SetState_store x s) = mr_NextWarmup s"
  "mr_CompletedWarmup (SetState_store x s) = mr_CompletedWarmup s" "mr_NextMeasured (SetState_store x s) = mr_NextMeasured s"
  "mr_CompletedMeasured (SetState_store x s) = mr_CompletedMeasured s" "mr_RunningMeasured (SetState_store x s) = mr_RunningMeasured s"
  "mr_Answered (SetState_store x s) = mr_Answered s"
  by (simp_all add: SetState_store_def)

lemma report_error_multi [simp]:
  "mr_Contexts (report_error x s) = mr_Contexts s" "mr_AbortRequested (report_error x s) = mr_AbortRequested s"
  "mr_ConnectedCount (report_error x s) = mr_ConnectedCount s" "mr_NextWarmup (report_error x s) = mr_NextWarmup s"
  "mr_CompletedWarmup (report_error x s) = mr_CompletedWarmup s" "mr_NextMeasured (report_error x s) = mr_NextMeasured s"
  "mr_CompletedMeasured (report_error x s) = mr_CompletedMeasured s" "mr_RunningMeasured (report_error x s) = mr_RunningMeasured s"
  "mr_Answered (report_error x s) = mr_Answered s"
  by (simp_all add: report_error_def)

section \<open>Weights\<close>

text \<open>Warm-up tickets that are taken and whose response is not counted yet.\<close>

fun warm_w :: "bench_act \<Rightarrow> int" where
  "warm_w (S_Build _ m _) = flag (\<not> m)"
| "warm_w (S_StorePayload r) = flag (\<not> rq_Measured r)"
| "warm_w (S_StoreTime r) = flag (\<not> rq_Measured r)"
| "warm_w (S_Send r) = flag (\<not> rq_Measured r)"
| "warm_w (P_Check _ r) = flag (\<not> rq_Measured r)"
| "warm_w (P_WarmCount _) = 1"
| "warm_w _ = 0"

text \<open>The right to send measured requests on a session, which the runner has until it starts the
  measured phase.\<close>

fun token :: "nat \<Rightarrow> bench_act \<Rightarrow> int" where
  "token c M_Begin = 1"
| "token c M_ConnectStart = 1"
| "token c (M_Create _ _) = 1"
| "token c (M_Created _ _) = 1"
| "token c (M_ConnectWait _) = 1"
| "token c (M_ConnectAbort _) = 1"
| "token c (M_SetHandler _) = 1"
| "token c M_Warmup = 1"
| "token c M_WarmupSend = 1"
| "token c (M_WarmupWait _) = 1"
| "token c (M_WarmupCheck _ _) = 1"
| "token c M_Running = 1"
| "token c M_Measure = 1"
| "token c M_MeasureSend = 1"
| "token c (S_Guard x m _) = flag (m \<and> x = c)"
| "token c (S_Ticket x m _) = flag (m \<and> x = c)"
| "token c (S_Build x m _) = flag (m \<and> x = c)"
| "token c (S_StorePayload r) = flag (rq_Measured r \<and> rq_Session r = c)"
| "token c (S_StoreTime r) = flag (rq_Measured r \<and> rq_Session r = c)"
| "token c (S_Send r) = flag (rq_Measured r \<and> rq_Session r = c)"
| "token c (P_Check x r) = flag (rq_Measured r \<and> rq_Session r = c)"
| "token c (P_LoadTime x r) = flag (x = c)"
| "token c (P_LoadPayload x r _ _) = flag (x = c)"
| "token c (P_AddSample x r _ _ _) = flag (x = c)"
| "token c (P_Count x) = flag (x = c)"
| "token c _ = 0"

text \<open>The measured tickets in the hands of a thread.\<close>

fun ticket_w :: "nat \<Rightarrow> bench_act \<Rightarrow> int" where
  "ticket_w t (S_Build _ m x) = flag (m \<and> x = t)"
| "ticket_w t (S_StorePayload r) = flag (rq_Measured r \<and> rq_Ticket r = t)"
| "ticket_w t (S_StoreTime r) = flag (rq_Measured r \<and> rq_Ticket r = t)"
| "ticket_w t (S_Send r) = flag (rq_Measured r \<and> rq_Ticket r = t)"
| "ticket_w t (P_Check _ r) = flag (rq_Measured r \<and> rq_Ticket r = t)"
| "ticket_w t (P_LoadTime _ r) = flag (rq_Measured r \<and> rq_Ticket r = t)"
| "ticket_w t (P_LoadPayload _ r _ _) = flag (rq_Measured r \<and> rq_Ticket r = t)"
| "ticket_w t (P_AddSample _ r _ _ _) = flag (rq_Measured r \<and> rq_Ticket r = t)"
| "ticket_w t _ = 0"

fun count_w :: "bench_act \<Rightarrow> int" where
  "count_w (P_Count _) = 1"
| "count_w _ = 0"

fun connect_w :: "bench_act \<Rightarrow> int" where
  "connect_w (C_Connected _) = 1"
| "connect_w C_Count = 1"
| "connect_w _ = 0"

text \<open>The runner before it reports the results.\<close>

fun runner_w :: "bench_act \<Rightarrow> int" where
  "runner_w (M_DoneWait _) = 1"
| "runner_w (M_DoneCheck _ _) = 1"
| "runner_w (M_Results _) = 1"
| "runner_w M_Completed = 1"
| "runner_w M_Begin = 1"
| "runner_w M_ConnectStart = 1"
| "runner_w (M_Create _ _) = 1"
| "runner_w (M_Created _ _) = 1"
| "runner_w (M_ConnectWait _) = 1"
| "runner_w (M_ConnectAbort _) = 1"
| "runner_w (M_SetHandler _) = 1"
| "runner_w M_Warmup = 1"
| "runner_w M_WarmupSend = 1"
| "runner_w (M_WarmupWait _) = 1"
| "runner_w (M_WarmupCheck _ _) = 1"
| "runner_w M_Running = 1"
| "runner_w M_Measure = 1"
| "runner_w M_MeasureSend = 1"
| "runner_w _ = 0"

lemma bench_weights_nonneg [simp]:
  "0 \<le> warm_w a" "0 \<le> token c a" "0 \<le> ticket_w t a" "0 \<le> count_w a" "0 \<le> connect_w a" "0 \<le> runner_w a"
  by (cases a; simp)+

definition inflight :: "(bench_request \<Rightarrow> bool) \<Rightarrow> SessionContext list \<Rightarrow> int" where
  "inflight P cs = int (length (filter P (concat (map cx_Inflight cs))))"

lemma inflight_nonneg [simp]: "0 \<le> inflight P cs"
  by (simp add: inflight_def)

lemma inflight_update:
  "c < length cs \<Longrightarrow> inflight P (cs[c := x]) =
    inflight P cs - int (length (filter P (cx_Inflight (cs ! c)))) + int (length (filter P (cx_Inflight x)))"
  unfolding inflight_def by (induction cs arbitrary: c) (auto simp: nth_Cons' split: nat.splits)

lemma inflight_same [simp]: "cx_Inflight x = cx_Inflight (cs ! c) \<Longrightarrow> inflight P (cs[c := x]) = inflight P cs"
  by (cases "c < length cs") (simp_all add: inflight_update list_update_beyond)

lemma inflight_send: "inflight P (cs[c := (cs ! c)\<lparr>cx_Inflight := cx_Inflight (cs ! c) @ [r]\<rparr>]) \<le> inflight P cs + flag (P r)"
  by (cases "c < length cs") (simp_all add: inflight_update list_update_beyond)

lemma inflight_pop:
  "c < length cs \<Longrightarrow> cx_Inflight (cs ! c) = r # rs \<Longrightarrow> cx_Inflight x = rs \<Longrightarrow>
    inflight P (cs[c := x]) = inflight P cs - flag (P r)"
  by (simp add: inflight_update)

lemma sum_sends [simp]:
  "(\<Sum>x\<leftarrow>xs. warm_w (S_Guard x m k)) = 0" "(\<Sum>x\<leftarrow>xs. ticket_w t (S_Guard x m k)) = 0"
  "(\<Sum>x\<leftarrow>xs. count_w (S_Guard x m k)) = 0" "(\<Sum>x\<leftarrow>xs. connect_w (S_Guard x m k)) = 0"
  "(\<Sum>x\<leftarrow>xs. runner_w (S_Guard x m k)) = 0" "(\<Sum>x\<leftarrow>xs. token c (S_Guard x False k)) = 0"
  by (induction xs) auto

lemma sum_tokens: "distinct xs \<Longrightarrow> (\<Sum>x\<leftarrow>xs. flag (x = c)) = flag (c \<in> set xs)"
  by (induction xs) auto

lemma send_failed_weights [simp]:
  "sum_list (map warm_w (send_failed cfg m k)) = 0" "sum_list (map (token c) (send_failed cfg m k)) = 0"
  "sum_list (map (ticket_w t) (send_failed cfg m k)) = 0" "sum_list (map count_w (send_failed cfg m k)) = 0"
  "sum_list (map connect_w (send_failed cfg m k)) = 0" "sum_list (map runner_w (send_failed cfg m k)) = 0"
  by (auto simp: send_failed_def split: option.splits)

section \<open>What a pending action knows\<close>

definition stamp :: "multi_run \<Rightarrow> bench_request \<Rightarrow> bool" where
  "stamp s r \<longleftrightarrow> cx_SendTimeNs (ctx s (rq_Session r)) = rq_Time r \<and> cx_PayloadIndex (ctx s (rq_Session r)) = rq_Payload r"

text \<open>Statistics of a finished run: every figure is about all the measured requests.\<close>

definition good_results :: "multi_run \<Rightarrow> BenchmarkStats \<Rightarrow> bool" where
  "good_results s st \<longleftrightarrow> (let cfg = lr_Config s in
     mr_CompletedMeasured s = totalTarget cfg \<and> bs_iterations st = totalTarget cfg \<and>
     bs_measuredRequests st = totalTarget cfg \<and> bs_measuredResponses st = totalTarget cfg \<and>
     bs_requestedSessions st = sessionCount cfg \<and> bs_connectedSessions st = sessionCount cfg \<and>
     bs_warmupResponses st = warmupTarget cfg \<and>
     bs_minLatencyNs st = Percentile (sort (lc_Samples (lr_LatencyCollector s))) 0 \<and>
     bs_maxLatencyNs st = Percentile (sort (lc_Samples (lr_LatencyCollector s))) 100 \<and>
     bs_avgLatencyNs st * real (totalTarget cfg) = (\<Sum>x\<leftarrow>lc_Samples (lr_LatencyCollector s). real (unat x)))"

abbreviation all_connected :: "multi_run \<Rightarrow> bool" where
  "all_connected s \<equiv> sessionCount (lr_Config s) \<le> mr_ConnectedCount s"

abbreviation sendable :: "multi_run \<Rightarrow> nat \<Rightarrow> bool \<Rightarrow> bool" where
  "sendable s c m \<equiv> c < length (mr_Contexts s) \<and> (m \<longrightarrow> mr_RunningMeasured s)"

abbreviation answers :: "multi_run \<Rightarrow> nat \<Rightarrow> bench_request \<Rightarrow> bool" where
  "answers s c r \<equiv> c < length (mr_Contexts s) \<and> rq_Session r = c \<and> rq_Measured r \<and> mr_RunningMeasured s"

fun act_ok :: "multi_run \<Rightarrow> bench_act \<Rightarrow> bool" where
  "act_ok s (M_ConnectAbort _) = (all_connected s \<or> mr_AbortRequested s)"
| "act_ok s (M_SetHandler _) = all_connected s"
| "act_ok s M_Warmup = all_connected s"
| "act_ok s M_WarmupSend = all_connected s"
| "act_ok s (M_WarmupWait _) = all_connected s"
| "act_ok s (M_WarmupCheck ok _) = (all_connected s \<and>
     (ok \<longrightarrow> warmupTarget (lr_Config s) \<le> mr_CompletedWarmup s \<or> lr_StopRequested s \<or> mr_AbortRequested s))"
| "act_ok s M_Running = (all_connected s \<and> warmupTarget (lr_Config s) \<le> mr_CompletedWarmup s)"
| "act_ok s M_Measure = (all_connected s \<and> warmupTarget (lr_Config s) \<le> mr_CompletedWarmup s)"
| "act_ok s M_MeasureSend = (all_connected s \<and> mr_RunningMeasured s)"
| "act_ok s (M_DoneWait _) = (all_connected s \<and> mr_RunningMeasured s)"
| "act_ok s (M_DoneCheck ok _) = (all_connected s \<and> mr_RunningMeasured s \<and>
     (ok \<longrightarrow> totalTarget (lr_Config s) \<le> mr_CompletedMeasured s \<or> lr_StopRequested s \<or> mr_AbortRequested s))"
| "act_ok s (M_Results _) =
     (all_connected s \<and> mr_RunningMeasured s \<and> totalTarget (lr_Config s) \<le> mr_CompletedMeasured s)"
| "act_ok s M_Completed = good_results s (lr_Results s)"
| "act_ok s (S_Guard c m _) = sendable s c m"
| "act_ok s (S_Ticket c m _) = sendable s c m"
| "act_ok s (S_Build c m _) = sendable s c m"
| "act_ok s (S_StorePayload r) = sendable s (rq_Session r) (rq_Measured r)"
| "act_ok s (S_StoreTime r) = (sendable s (rq_Session r) (rq_Measured r) \<and>
     (rq_Measured r \<longrightarrow> cx_PayloadIndex (ctx s (rq_Session r)) = rq_Payload r))"
| "act_ok s (S_Send r) = (sendable s (rq_Session r) (rq_Measured r) \<and> (rq_Measured r \<longrightarrow> stamp s r))"
| "act_ok s (P_Check c r) =
     (c < length (mr_Contexts s) \<and> rq_Session r = c \<and> (rq_Measured r \<longleftrightarrow> mr_RunningMeasured s) \<and> (rq_Measured r \<longrightarrow> stamp s r))"
| "act_ok s (P_WarmCount c) = (c < length (mr_Contexts s))"
| "act_ok s (P_LoadTime c r) = (answers s c r \<and> stamp s r)"
| "act_ok s (P_LoadPayload c r recvTime sendTime) = (answers s c r \<and> stamp s r \<and> sendTime = rq_Time r)"
| "act_ok s (P_AddSample c r recvTime sendTime payloadIndex) =
     (answers s c r \<and> sendTime = rq_Time r \<and> payloadIndex = rq_Payload r)"
| "act_ok s (P_Count c) = (c < length (mr_Contexts s) \<and> mr_RunningMeasured s)"
| "act_ok s _ = True"

section \<open>One action\<close>

lemmas act_defs = Let_def measured_limit_def comp_def min_def

lemma do_warm:
  assumes "bench_do d ch a s = Some (new, s')" "act_ok s a"
  shows "sum_list (map warm_w new) + inflight (\<lambda>r. \<not> rq_Measured r) (mr_Contexts s') + int (mr_CompletedWarmup s') -
      int (min (mr_NextWarmup s') (warmupTarget (lr_Config s))) \<le>
    warm_w a + inflight (\<lambda>r. \<not> rq_Measured r) (mr_Contexts s) + int (mr_CompletedWarmup s) -
      int (min (mr_NextWarmup s) (warmupTarget (lr_Config s)))"
  using assms by (cases a) (auto simp: inflight_update act_defs split: if_splits)

lemma do_token:
  assumes "bench_do d ch a s = Some (new, s')" "act_ok s a"
  shows "sum_list (map (token c) new) + inflight (\<lambda>r. rq_Measured r \<and> rq_Session r = c) (mr_Contexts s') \<le>
    token c a + inflight (\<lambda>r. rq_Measured r \<and> rq_Session r = c) (mr_Contexts s)"
  using assms by (cases a) (auto simp: inflight_update act_defs sum_tokens split: if_splits)

definition answered_with :: "nat \<Rightarrow> (bench_request \<times> u64) list \<Rightarrow> int" where
  "answered_with t rs = int (length (filter (\<lambda>(r, _). rq_Measured r \<and> rq_Ticket r = t) rs))"

definition issued :: "nat \<Rightarrow> nat \<Rightarrow> nat \<Rightarrow> int" where
  "issued t n limit = flag (t < n \<and> t < limit)"

lemma answered_with_append [simp]: "answered_with t (rs @ [(r, x)]) = answered_with t rs + flag (rq_Measured r \<and> rq_Ticket r = t)"
  by (simp add: answered_with_def)

lemma issued_Suc: "issued t (Suc n) limit = issued t n limit + flag (t = n \<and> n < limit)"
  by (auto simp: issued_def)

lemma do_ticket:
  assumes "bench_do d ch a s = Some (new, s')" "act_ok s a"
  shows "sum_list (map (ticket_w t) new) + inflight (\<lambda>r. rq_Measured r \<and> rq_Ticket r = t) (mr_Contexts s') +
      answered_with t (mr_Answered s') - issued t (mr_NextMeasured s') (totalTarget (lr_Config s)) \<le>
    ticket_w t a + inflight (\<lambda>r. rq_Measured r \<and> rq_Ticket r = t) (mr_Contexts s) +
      answered_with t (mr_Answered s) - issued t (mr_NextMeasured s) (totalTarget (lr_Config s))"
  using assms by (cases a) (auto simp: inflight_update act_defs issued_Suc split: if_splits)

lemma do_count:
  assumes "bench_do d ch a s = Some (new, s')"
  shows "sum_list (map count_w new) + int (mr_CompletedMeasured s') - int (length (mr_Answered s')) =
    count_w a + int (mr_CompletedMeasured s) - int (length (mr_Answered s))"
    "sum_list (map connect_w new) + int (mr_ConnectedCount s') = connect_w a + int (mr_ConnectedCount s)"
    "sum_list (map runner_w new) \<le> runner_w a"
  using assms by (cases a; auto simp: act_defs split: if_splits)+

text \<open>What only grows, and what only the stores of \<open>sendNext\<close> change.\<close>

definition later :: "multi_run \<Rightarrow> multi_run \<Rightarrow> bool" where
  "later s s' \<longleftrightarrow> lr_Config s' = lr_Config s \<and> length (mr_Contexts s') = length (mr_Contexts s) \<and>
     mr_CompletedWarmup s \<le> mr_CompletedWarmup s' \<and> mr_CompletedMeasured s \<le> mr_CompletedMeasured s' \<and>
     mr_ConnectedCount s \<le> mr_ConnectedCount s' \<and>
     (lr_StopRequested s \<longrightarrow> lr_StopRequested s') \<and> (mr_AbortRequested s \<longrightarrow> mr_AbortRequested s') \<and>
     (mr_RunningMeasured s \<longrightarrow> mr_RunningMeasured s')"

definition same_stamps :: "nat \<Rightarrow> multi_run \<Rightarrow> multi_run \<Rightarrow> bool" where
  "same_stamps c s s' \<longleftrightarrow> cx_SendTimeNs (ctx s' c) = cx_SendTimeNs (ctx s c) \<and> cx_PayloadIndex (ctx s' c) = cx_PayloadIndex (ctx s c)"

lemma do_later: "bench_do d ch a s = Some (new, s') \<Longrightarrow> later s s'"
  by (cases a) (auto simp: later_def act_defs split: if_splits)

lemma upd_stamps [simp]:
  "cx_SendTimeNs x = cx_SendTimeNs (xs ! i) \<Longrightarrow> cx_SendTimeNs (xs[i := x] ! c) = cx_SendTimeNs (xs ! c)"
  "cx_PayloadIndex x = cx_PayloadIndex (xs ! i) \<Longrightarrow> cx_PayloadIndex (xs[i := x] ! c) = cx_PayloadIndex (xs ! c)"
  by (cases "i < length xs"; cases "i = c"; simp add: list_update_beyond)+

lemma do_stamps:
  assumes "bench_do d ch a s = Some (new, s')"
  shows "same_stamps c s s' \<or> (\<exists>r. (a = S_StorePayload r \<or> a = S_StoreTime r) \<and> rq_Session r = c)"
  using assms by (cases a) (auto simp: act_defs same_stamps_def split: if_splits)

end
