(* ===== verification/Benchmark_Multi_Runs.thy ===== *)
theory Benchmark_Multi_Runs
  imports Benchmark_Multi_Laws
begin

text \<open>
  The histories of the benchmark over many sessions: the invariant holds in every interleaving, and
  with it the correctness of what is measured. Then schedules that show where the local
  variables of the run are used after it has returned, and that a final state can be overwritten.
\<close>

section \<open>The invariant\<close>

definition told :: "SessionContext list \<Rightarrow> int" where
  "told cs = (\<Sum>x\<leftarrow>cs. flag (cx_ConnectTold x))"

lemma told_update:
  "c < length cs \<Longrightarrow> told (cs[c := x]) = told cs - flag (cx_ConnectTold (cs ! c)) + flag (cx_ConnectTold x)"
  unfolding told_def by (induction cs arbitrary: c) (auto simp: nth_Cons' split: nat.splits)

lemma told_same [simp]: "cx_ConnectTold x = cx_ConnectTold (cs ! c) \<Longrightarrow> told (cs[c := x]) = told cs"
  by (cases "c < length cs") (simp_all add: told_update list_update_beyond)

lemma told_le: "told cs \<le> int (length cs)"
  unfolding told_def by (induction cs) auto

definition ctx_ok :: "multi_run \<Rightarrow> bool" where
  "ctx_ok s \<longleftrightarrow> length (mr_Contexts s) = sessionCount (lr_Config s) \<and>
     (\<forall>c<length (mr_Contexts s). \<forall>r\<in>set (cx_Inflight (ctx s c)).
        rq_Session r = c \<and> (rq_Measured r \<longrightarrow> mr_RunningMeasured s \<and> stamp s r))"

definition samples_ok :: "(nat \<Rightarrow> nat \<Rightarrow> nat \<Rightarrow> nat) \<Rightarrow> multi_run \<Rightarrow> bool" where
  "samples_ok d s \<longleftrightarrow>
     lc_Samples (lr_LatencyCollector s) = map (\<lambda>(r, t). t - rq_Time r) (mr_Answered s) \<and>
     lc_TotalBytes (lr_LatencyCollector s) =
       (\<Sum>(r, t)\<leftarrow>mr_Answered s. of_nat (length (BuildPayloadPool d (lr_Config s) ! rq_Payload r))) \<and>
     list_all (\<lambda>(r, t). rq_Measured r) (mr_Answered s)"

definition weights_ok :: "multi_run \<Rightarrow> bench_threads \<Rightarrow> bool" where
  "weights_ok s ts \<longleftrightarrow>
     tally warm_w ts + inflight (\<lambda>r. \<not> rq_Measured r) (mr_Contexts s) + int (mr_CompletedWarmup s)
       \<le> int (min (mr_NextWarmup s) (warmupTarget (lr_Config s))) \<and>
     (\<forall>c. tally (token c) ts + inflight (\<lambda>r. rq_Measured r \<and> rq_Session r = c) (mr_Contexts s) \<le> 1) \<and>
     (\<forall>t. tally (ticket_w t) ts + inflight (\<lambda>r. rq_Measured r \<and> rq_Ticket r = t) (mr_Contexts s) + answered_with t (mr_Answered s)
       \<le> issued t (mr_NextMeasured s) (totalTarget (lr_Config s))) \<and>
     int (mr_CompletedMeasured s) + tally count_w ts = int (length (mr_Answered s)) \<and>
     int (mr_ConnectedCount s) + tally connect_w ts \<le> told (mr_Contexts s) \<and>
     tally runner_w ts \<le> 1"

definition acts_ok :: "multi_run \<Rightarrow> bench_threads \<Rightarrow> bool" where
  "acts_ok s ts \<longleftrightarrow> (\<forall>t\<in>set ts. \<forall>a\<in>set t. act_ok s a)"

definition done_ok :: "multi_run \<Rightarrow> bool" where
  "done_ok s \<longleftrightarrow> (\<forall>st. CB_Completed st \<in> set (lr_Calls s) \<longrightarrow> good_results s st) \<and>
     (mr_RunningMeasured s \<longrightarrow> warmupTarget (lr_Config s) \<le> mr_CompletedWarmup s)"

definition multi_inv :: "(nat \<Rightarrow> nat \<Rightarrow> nat \<Rightarrow> nat) \<Rightarrow> multi_run \<times> bench_threads \<Rightarrow> bool" where
  "multi_inv d x \<longleftrightarrow> (case x of (s, ts) \<Rightarrow> ctx_ok s \<and> samples_ok d s \<and> weights_ok s ts \<and> acts_ok s ts \<and> done_ok s)"

lemma weights_okD:
  assumes "weights_ok s ts"
  shows "tally warm_w ts + inflight (\<lambda>r. \<not> rq_Measured r) (mr_Contexts s) + int (mr_CompletedWarmup s)
       \<le> int (min (mr_NextWarmup s) (warmupTarget (lr_Config s)))"
    "tally (token c) ts + inflight (\<lambda>r. rq_Measured r \<and> rq_Session r = c) (mr_Contexts s) \<le> 1"
    "tally (ticket_w t) ts + inflight (\<lambda>r. rq_Measured r \<and> rq_Ticket r = t) (mr_Contexts s) + answered_with t (mr_Answered s)
       \<le> issued t (mr_NextMeasured s) (totalTarget (lr_Config s))"
    "int (mr_CompletedMeasured s) + tally count_w ts = int (length (mr_Answered s))"
    "int (mr_ConnectedCount s) + tally connect_w ts \<le> told (mr_Contexts s)"
    "tally runner_w ts \<le> 1"
  using assms by (simp_all add: weights_ok_def)

section \<open>Tickets that were answered\<close>

lemma answered_distinct:
  assumes "\<And>t. answered_with t rs \<le> issued t n limit" "list_all (\<lambda>(r, t). rq_Measured r) rs"
  shows "distinct (map (rq_Ticket \<circ> fst) rs)" "set (map (rq_Ticket \<circ> fst) rs) \<subseteq> {..<limit}"
proof -
  have "answered_with t rs \<le> 1" for t using assms(1)[of t] by (simp add: issued_def split: if_splits)
  then show "distinct (map (rq_Ticket \<circ> fst) rs)"
    using assms(2)
  proof (induction rs)
    case (Cons x rs)
    obtain r u where x: "x = (r, u)" by fastforce
    have le: "answered_with t rs \<le> answered_with t (x # rs)" for t by (simp add: answered_with_def)
    have "answered_with (rq_Ticket r) rs \<le> 0" using Cons.prems(1)[of "rq_Ticket r"] Cons.prems(2) by (simp add: x answered_with_def)
    then have "rq_Ticket r \<notin> set (map (rq_Ticket \<circ> fst) rs)"
      using Cons.prems(2) by (auto simp: answered_with_def filter_empty_conv list_all_iff)
    moreover have "distinct (map (rq_Ticket \<circ> fst) rs)"
      using Cons.IH Cons.prems order_trans[OF le Cons.prems(1)] by (simp add: comp_def)
    ultimately show ?case by (simp add: x comp_def)
  qed simp
  show "set (map (rq_Ticket \<circ> fst) rs) \<subseteq> {..<limit}"
  proof
    fix t assume "t \<in> set (map (rq_Ticket \<circ> fst) rs)"
    then have "filter (\<lambda>(r, _). rq_Measured r \<and> rq_Ticket r = t) rs \<noteq> []"
      using assms(2) by (fastforce simp: filter_empty_conv list_all_iff)
    then have "1 \<le> answered_with t rs" unfolding answered_with_def by (cases "filter (\<lambda>(r, _). rq_Measured r \<and> rq_Ticket r = t) rs") auto
    then show "t \<in> {..<limit}" using assms(1)[of t] by (auto simp: issued_def split: if_splits)
  qed
qed

lemma answered_all:
  assumes "\<And>t. answered_with t rs \<le> issued t n limit" "list_all (\<lambda>(r, t). rq_Measured r) rs"
  shows "length rs \<le> limit" "limit \<le> length rs \<Longrightarrow> set (map (rq_Ticket \<circ> fst) rs) = {..<limit}"
proof -
  note a = answered_distinct[OF assms]
  have c: "card (set (map (rq_Ticket \<circ> fst) rs)) = length rs" using distinct_card[OF a(1)] by simp
  have le: "card (set (map (rq_Ticket \<circ> fst) rs)) \<le> card {..<limit}" by (rule card_mono[OF _ a(2)]) simp
  then show "length rs \<le> limit" using c by simp
  show "set (map (rq_Ticket \<circ> fst) rs) = {..<limit}" if "limit \<le> length rs"
    using card_subset_eq[OF _ a(2)] that c le by simp
qed

lemma weights_answered:
  assumes "weights_ok s ts" "samples_ok d s"
  shows "length (mr_Answered s) \<le> totalTarget (lr_Config s)" "distinct (map (rq_Ticket \<circ> fst) (mr_Answered s))"
    "set (map (rq_Ticket \<circ> fst) (mr_Answered s)) \<subseteq> {..<totalTarget (lr_Config s)}"
    "totalTarget (lr_Config s) \<le> length (mr_Answered s) \<Longrightarrow>
      set (map (rq_Ticket \<circ> fst) (mr_Answered s)) = {..<totalTarget (lr_Config s)}"
proof -
  have w: "answered_with t (mr_Answered s) \<le> issued t (mr_NextMeasured s) (totalTarget (lr_Config s))" for t
  proof -
    have "0 \<le> tally (ticket_w t) ts" by (simp add: tally_nonneg)
    then show ?thesis using weights_okD(3)[OF assms(1), of t] inflight_nonneg[of "\<lambda>r. rq_Measured r \<and> rq_Ticket r = t" "mr_Contexts s"]
      by linarith
  qed
  have m: "list_all (\<lambda>(r, t). rq_Measured r) (mr_Answered s)" using assms(2) by (simp add: samples_ok_def)
  show "length (mr_Answered s) \<le> totalTarget (lr_Config s)" "distinct (map (rq_Ticket \<circ> fst) (mr_Answered s))"
    "set (map (rq_Ticket \<circ> fst) (mr_Answered s)) \<subseteq> {..<totalTarget (lr_Config s)}"
    "totalTarget (lr_Config s) \<le> length (mr_Answered s) \<Longrightarrow>
      set (map (rq_Ticket \<circ> fst) (mr_Answered s)) = {..<totalTarget (lr_Config s)}"
    using answered_all[OF w m] answered_distinct[OF w m] by simp_all
qed

text \<open>When all measured responses are counted, no thread counts or samples another one.\<close>

lemma all_counted:
  assumes "weights_ok s ts" "samples_ok d s" "totalTarget (lr_Config s) \<le> mr_CompletedMeasured s"
    and a: "t \<in> set ts" "a \<in> set t" "act_ok s a"
  shows "\<forall>c. a \<noteq> P_Count c" "\<forall>c r x y i. a \<noteq> P_AddSample c r x y i"
proof -
  have "0 \<le> tally count_w ts" by (simp add: tally_nonneg)
  then have n: "totalTarget (lr_Config s) \<le> length (mr_Answered s)" "tally count_w ts = 0"
    using weights_okD(4)[OF assms(1)] assms(3) weights_answered(1)[OF assms(1,2)] by linarith+
  have "count_w a \<le> tally count_w ts" by (rule tally_ge[OF _ a(1,2)]) simp
  then show "\<forall>c. a \<noteq> P_Count c" using n(2) by auto
  show "\<forall>c r x y i. a \<noteq> P_AddSample c r x y i"
  proof (intro allI notI)
    fix c r x y i assume ar: "a = P_AddSample c r x y i"
    let ?t = "rq_Ticket r"
    have "ticket_w ?t a \<le> tally (ticket_w ?t) ts" by (rule tally_ge[OF _ a(1,2)]) simp
    then have "1 \<le> tally (ticket_w ?t) ts" using a(3) by (simp add: ar)
    then have "answered_with ?t (mr_Answered s) \<le> issued ?t (mr_NextMeasured s) (totalTarget (lr_Config s)) - 1"
      using weights_okD(3)[OF assms(1), of ?t] inflight_nonneg[of "\<lambda>r. rq_Measured r \<and> rq_Ticket r = ?t" "mr_Contexts s"]
      by linarith
    then have z: "answered_with ?t (mr_Answered s) = 0" "?t < totalTarget (lr_Config s)"
      by (auto simp: issued_def answered_with_def split: if_splits)
    then have "?t \<in> set (map (rq_Ticket \<circ> fst) (mr_Answered s))" using weights_answered(4)[OF assms(1,2) n(1)] by simp
    then show False using z(1) assms(2) by (auto simp: samples_ok_def answered_with_def filter_empty_conv list_all_iff)
  qed
qed

section \<open>One action of one thread\<close>

lemma act_ok_stable:
  assumes "act_ok s b" "later s s'" "\<And>c. mr_RunningMeasured s \<Longrightarrow> token c b = 0 \<or> same_stamps c s s'"
    "mr_RunningMeasured s' \<Longrightarrow> mr_RunningMeasured s \<or> warm_w b = 0"
    "b = M_Completed \<Longrightarrow> good_results s' (lr_Results s')"
  shows "act_ok s' b"
proof -
  note sim = later_def stamp_def same_stamps_def
  show ?thesis
  proof (cases b)
    case (P_Check c r)
    then show ?thesis using assms(1,2,4) assms(3)[of "rq_Session r"] by (auto simp: sim)
  next
    case (S_StoreTime r)
    then show ?thesis using assms(1,2) assms(3)[of "rq_Session r"] by (auto simp: sim)
  next
    case (S_Send r)
    then show ?thesis using assms(1,2) assms(3)[of "rq_Session r"] by (auto simp: sim)
  next
    case (P_LoadTime c r)
    then show ?thesis using assms(1,2) assms(3)[of c] by (auto simp: sim)
  next
    case (P_LoadPayload c r x y)
    then show ?thesis using assms(1,2) assms(3)[of c] by (auto simp: sim)
  next
    case M_Completed
    then show ?thesis using assms(5) by simp
  qed (use assms(1,2) in \<open>auto simp: later_def\<close>)
qed

lemma do_new_ok:
  assumes "bench_do d ch a s = Some (new, s')" "act_ok s a" "length (mr_Contexts s) = sessionCount (lr_Config s)"
    "mr_ConnectedCount s \<le> sessionCount (lr_Config s)"
    "\<And>t0. a = M_Results t0 \<Longrightarrow> good_results s' (lr_Results s')" "b \<in> set new"
  shows "act_ok s' b"
  using assms
  by (cases a) (auto simp: act_defs stamp_def send_failed_def split: if_splits option.splits)

lemma results_good:
  assumes "weights_ok s ts" "samples_ok d s" "ctx_ok s" "done_ok s" "act_ok s (M_Results t0)"
  shows "good_results (s\<lparr>lr_Results := x\<rparr>) (multi_results d e s)"
proof -
  have pos: "0 \<le> tally count_w ts" "0 \<le> tally connect_w ts" "0 \<le> tally warm_w ts" by (simp_all add: tally_nonneg)
  have m: "mr_CompletedMeasured s = totalTarget (lr_Config s)" "length (mr_Answered s) = totalTarget (lr_Config s)"
    using weights_okD(4)[OF assms(1)] weights_answered(1)[OF assms(1,2)] pos(1) assms(5) by simp_all
  have c: "mr_ConnectedCount s = sessionCount (lr_Config s)"
    using weights_okD(5)[OF assms(1)] pos(2) assms(3,5) told_le[of "mr_Contexts s"] by (simp add: ctx_ok_def)
  have "int (mr_CompletedWarmup s) \<le> int (warmupTarget (lr_Config s))"
    using weights_okD(1)[OF assms(1)] inflight_nonneg[of "\<lambda>r. \<not> rq_Measured r" "mr_Contexts s"] pos(3) by linarith
  then have w: "mr_CompletedWarmup s = warmupTarget (lr_Config s)" using assms(4,5) by (simp add: done_ok_def)
  have n: "length (lc_Samples (lr_LatencyCollector s)) = totalTarget (lr_Config s)" using assms(2) m(2) by (simp add: samples_ok_def)
  then have ne: "lc_Samples (lr_LatencyCollector s) \<noteq> []" by (auto simp: totalTarget_def)
  show ?thesis using Calculate_values[OF ne] n m c w
    by (auto simp: good_results_def multi_results_def Let_def totalTarget_def)
qed

lemma do_told: "bench_do d ch a s = Some (new, s') \<Longrightarrow> told (mr_Contexts s') = told (mr_Contexts s)"
  by (cases a) (auto simp: act_defs split: if_splits)

lemma do_running: "bench_do d ch a s = Some (new, s') \<Longrightarrow> mr_RunningMeasured s' \<Longrightarrow> mr_RunningMeasured s \<or> a = M_Measure"
  by (cases a) (auto simp: act_defs split: if_splits)

lemma do_frozen:
  assumes "bench_do d ch a s = Some (new, s')" "\<forall>c. a \<noteq> P_Count c" "\<forall>c r x y i. a \<noteq> P_AddSample c r x y i"
  shows "mr_CompletedMeasured s' = mr_CompletedMeasured s" "lr_LatencyCollector s' = lr_LatencyCollector s"
  using assms by (cases a; auto simp: act_defs split: if_splits)+

lemma do_results:
  assumes "bench_do d ch a s = Some (new, s')"
  shows "lr_Results s' = (case a of M_Results t0 \<Rightarrow> multi_results d (bc_Now ch - t0) s | _ \<Rightarrow> lr_Results s)"
    "CB_Completed st \<in> set (lr_Calls s') \<Longrightarrow> CB_Completed st \<in> set (lr_Calls s) \<or> a = M_Completed \<and> st = lr_Results s"
  using assms by (cases a; auto simp: act_defs split: if_splits)+

lemma do_samples:
  assumes "bench_do d ch a s = Some (new, s')" "act_ok s a" "samples_ok d s"
  shows "samples_ok d s'"
  using assms by (cases a) (auto simp: act_defs samples_ok_def AddSample_def split: if_splits)

lemma do_inflight:
  assumes "bench_do d ch a s = Some (new, s')" "r \<in> set (cx_Inflight (ctx s' c))"
  shows "r \<in> set (cx_Inflight (ctx s c)) \<or> a = S_Send r \<and> rq_Session r = c"
proof -
  have upd: "cx_Inflight x = cx_Inflight (xs ! i) \<Longrightarrow> cx_Inflight (xs[i := x] ! c) = cx_Inflight (xs ! c)" for xs i x
    by (cases "i < length xs"; cases "i = c"; simp add: list_update_beyond)
  have send: "r \<in> set (cx_Inflight (xs[i := (xs ! i)\<lparr>cx_Inflight := cx_Inflight (xs ! i) @ [q]\<rparr>] ! c)) \<Longrightarrow>
      r \<in> set (cx_Inflight (xs ! c)) \<or> q = r \<and> i = c" for xs i q
    by (cases "i < length xs"; cases "i = c"; auto simp: list_update_beyond)
  show ?thesis using assms by (cases a) (auto simp: act_defs upd dest: send split: if_splits)
qed

section \<open>The invariant is kept\<close>

text \<open>An action of the thread between \<open>us\<close> and \<open>vs\<close>; the other actions are those of \<open>us @ k # vs\<close>.\<close>

lemma tally_around: "tally w (us @ (a # k) # vs) = w a + tally w (us @ k # vs)"
  by simp

lemma tally_other:
  assumes "\<And>a. 0 \<le> w a" "t \<in> set (us @ k # vs)" "b \<in> set t"
  shows "w a + w b \<le> tally w (us @ (a # k) # vs)"
  using tally_ge[of w t "us @ k # vs" b, OF assms] unfolding tally_around by linarith

lemma act_weights:
  assumes "weights_ok s (us @ (a # k) # vs)" "act_ok s a" "bench_do d ch a s = Some (new, s')"
  shows "weights_ok s' (us @ (new @ k) # vs)"
proof -
  note w = weights_okD[OF assms(1)] and c = do_count[OF assms(3)]
  have cfg: "lr_Config s' = lr_Config s" using do_later[OF assms(3)] by (simp add: later_def)
  have "tally (token c) (us @ (new @ k) # vs) + inflight (\<lambda>r. rq_Measured r \<and> rq_Session r = c) (mr_Contexts s') \<le> 1" for c
    using w(2)[of c] do_token[OF assms(3,2), of c] by simp
  moreover have "tally (ticket_w t) (us @ (new @ k) # vs) + inflight (\<lambda>r. rq_Measured r \<and> rq_Ticket r = t) (mr_Contexts s') +
      answered_with t (mr_Answered s') \<le> issued t (mr_NextMeasured s') (totalTarget (lr_Config s'))" for t
    using w(3)[of t] do_ticket[OF assms(3,2), of t] by (simp add: cfg)
  moreover have "int (mr_ConnectedCount s') + tally connect_w (us @ (new @ k) # vs) \<le> told (mr_Contexts s')"
    using w(5) c(2) do_told[OF assms(3)] by simp
  ultimately show ?thesis using w(1,4,6) do_warm[OF assms(3,2)] c(1,3) by (simp add: weights_ok_def cfg)
qed

text \<open>Who holds the stamps of a session while an action changes them.\<close>

lemma stamps_kept:
  assumes "weights_ok s (us @ (a # k) # vs)" "done_ok s" "bench_do d ch a s = Some (new, s')" "mr_RunningMeasured s"
  shows "same_stamps c s s' \<or> token c a = 1"
proof (cases "same_stamps c s s'")
  case False
  then obtain r where r: "a = S_StorePayload r \<or> a = S_StoreTime r" "rq_Session r = c" using do_stamps[OF assms(3)] by blast
  have "0 \<le> tally warm_w (us @ k # vs)" by (simp only: tally_nonneg bench_weights_nonneg)
  then have "warm_w a + int (mr_CompletedWarmup s) \<le> int (min (mr_NextWarmup s) (warmupTarget (lr_Config s)))"
    using weights_okD(1)[OF assms(1)] inflight_nonneg[of "\<lambda>r. \<not> rq_Measured r" "mr_Contexts s"] unfolding tally_around by linarith
  moreover have "warmupTarget (lr_Config s) \<le> mr_CompletedWarmup s" using assms(2,4) by (simp add: done_ok_def)
  ultimately have "warm_w a \<le> 0" by linarith
  then have "rq_Measured r" using r(1) by (auto split: if_splits)
  then show ?thesis using r by auto
qed simp

lemma other_good:
  assumes "weights_ok s ts" "samples_ok d s" "good_results s st" "t \<in> set ts" "a \<in> set t" "act_ok s a"
    "bench_do d ch a s = Some (new, s')"
  shows "good_results s' st"
proof -
  have "totalTarget (lr_Config s) \<le> mr_CompletedMeasured s" using assms(3) by (simp add: good_results_def Let_def)
  note f = do_frozen[OF assms(7) all_counted[OF assms(1,2) this assms(4,5,6)]]
  have "lr_Config s' = lr_Config s" using do_later[OF assms(7)] by (simp add: later_def)
  then show ?thesis using assms(3) f by (simp add: good_results_def)
qed

lemma act_acts:
  assumes inv: "multi_inv d (s, us @ (a # k) # vs)" and do: "bench_do d ch a s = Some (new, s')"
  shows "acts_ok s' (us @ (new @ k) # vs)"
proof -
  let ?ts = "us @ (a # k) # vs"
  have w: "weights_ok s ?ts" and sm: "samples_ok d s" and cx: "ctx_ok s" and dn: "done_ok s" and ac: "acts_ok s ?ts"
    using inv by (simp_all add: multi_inv_def)
  have a: "act_ok s a" using ac by (simp add: acts_ok_def)
  have "int (mr_ConnectedCount s) \<le> told (mr_Contexts s)"
    using weights_okD(5)[OF w] tally_nonneg[of connect_w ?ts] by simp
  then have conn: "mr_ConnectedCount s \<le> sessionCount (lr_Config s)" using told_le[of "mr_Contexts s"] cx by (simp add: ctx_ok_def)
  have "good_results s' (lr_Results s')" if "a = M_Results t0" for t0
    using results_good[OF w sm cx dn, of t0] a do by (auto simp: that)
  then have new: "act_ok s' b" if "b \<in> set new" for b
    using do_new_ok[OF do a _ conn _ that] cx by (simp add: ctx_ok_def)
  have other: "act_ok s' b" if b: "t \<in> set (us @ k # vs)" "b \<in> set t" for t b
  proof (rule act_ok_stable)
    show "act_ok s b" using ac b by (auto simp: acts_ok_def)
    show "later s s'" by (rule do_later[OF do])
    show "token c b = 0 \<or> same_stamps c s s'" if "mr_RunningMeasured s" for c
      using stamps_kept[OF w dn do that, of c] tally_other[of "token c" t us k vs b a, OF bench_weights_nonneg(2) b]
        weights_okD(2)[OF w, of c] inflight_nonneg[of "\<lambda>r. rq_Measured r \<and> rq_Session r = c" "mr_Contexts s"]
        bench_weights_nonneg(2)[of c b] by linarith
    show "mr_RunningMeasured s \<or> warm_w b = 0" if "mr_RunningMeasured s'"
    proof -
      have "warm_w b \<le> 0" if m: "a = M_Measure"
      proof -
        have "warmupTarget (lr_Config s) \<le> mr_CompletedWarmup s" "warm_w a = 0" using a m by simp_all
        then show ?thesis using tally_other[of warm_w t us k vs b a, OF bench_weights_nonneg(1) b] weights_okD(1)[OF w]
          inflight_nonneg[of "\<lambda>r. \<not> rq_Measured r" "mr_Contexts s"] by linarith
      qed
      then show ?thesis using do_running[OF do that] bench_weights_nonneg(1)[of b] by (metis order_antisym)
    qed
    show "good_results s' (lr_Results s')" if "b = M_Completed"
    proof -
      have "runner_w a + runner_w b \<le> 1" using tally_other[of runner_w t us k vs b a, OF _ b] weights_okD(6)[OF w] by simp
      then have "lr_Results s' = lr_Results s" using do_results(1)[OF do] that by (cases a) simp_all
      moreover have "good_results s (lr_Results s)" using \<open>act_ok s b\<close> that by simp
      ultimately show ?thesis using other_good[OF w sm _ _ _ a do, of _ "a # k"] by simp
    qed
  qed
  show ?thesis unfolding acts_ok_def
  proof (intro ballI)
    fix t b assume t: "t \<in> set (us @ (new @ k) # vs)" "b \<in> set t"
    then have "b \<in> set new \<or> (\<exists>u\<in>set (us @ k # vs). b \<in> set u)" by auto
    then show "act_ok s' b" using new other by blast
  qed
qed

lemma act_ctx:
  assumes inv: "multi_inv d (s, us @ (a # k) # vs)" and do: "bench_do d ch a s = Some (new, s')"
  shows "ctx_ok s'"
proof -
  let ?ts = "us @ (a # k) # vs"
  have w: "weights_ok s ?ts" and cx: "ctx_ok s" and dn: "done_ok s" and a: "act_ok s a"
    using inv by (simp_all add: multi_inv_def acts_ok_def)
  note l = do_later[OF do, unfolded later_def]
  have "rq_Session r = c \<and> (rq_Measured r \<longrightarrow> mr_RunningMeasured s' \<and> stamp s' r)"
    if c: "c < length (mr_Contexts s')" "r \<in> set (cx_Inflight (ctx s' c))" for c r
  proof (cases "a = S_Send r \<and> rq_Session r = c")
    case True
    then have "same_stamps c s s'" using do_stamps[OF do, of c] by auto
    then show ?thesis using True a l by (auto simp: stamp_def same_stamps_def)
  next
    case False
    then have r: "r \<in> set (cx_Inflight (ctx s c))" using do_inflight[OF do c(2)] by blast
    then have ok: "rq_Session r = c" "rq_Measured r \<longrightarrow> mr_RunningMeasured s \<and> stamp s r" using cx c(1) l by (auto simp: ctx_ok_def)
    have "same_stamps c s s'" if m: "rq_Measured r"
    proof -
      have "r \<in> set (filter (\<lambda>r. rq_Measured r \<and> rq_Session r = c) (concat (map cx_Inflight (mr_Contexts s))))"
        using r m ok(1) c(1) l by auto
      then have "1 \<le> inflight (\<lambda>r. rq_Measured r \<and> rq_Session r = c) (mr_Contexts s)"
        unfolding inflight_def by (cases "filter (\<lambda>r. rq_Measured r \<and> rq_Session r = c) (concat (map cx_Inflight (mr_Contexts s)))") auto
      moreover have "token c a \<le> tally (token c) ?ts" by (rule tally_ge[where t = "a # k"]) simp_all
      ultimately show ?thesis using stamps_kept[OF w dn do, of c] weights_okD(2)[OF w, of c] ok(2) m by linarith
    qed
    then show ?thesis using ok l by (auto simp: stamp_def same_stamps_def)
  qed
  then show ?thesis using cx l by (simp add: ctx_ok_def)
qed

lemma act_done:
  assumes inv: "multi_inv d (s, us @ (a # k) # vs)" and do: "bench_do d ch a s = Some (new, s')"
  shows "done_ok s'"
proof -
  let ?ts = "us @ (a # k) # vs"
  have w: "weights_ok s ?ts" and sm: "samples_ok d s" and dn: "done_ok s" and a: "act_ok s a"
    using inv by (simp_all add: multi_inv_def acts_ok_def)
  note l = do_later[OF do, unfolded later_def]
  have "good_results s st" if "CB_Completed st \<in> set (lr_Calls s')" for st
    using do_results(2)[OF do that] dn a by (auto simp: done_ok_def)
  then have "good_results s' st" if "CB_Completed st \<in> set (lr_Calls s')" for st
    using other_good[OF w sm _ _ _ a do, of st "a # k"] that by simp
  moreover have "warmupTarget (lr_Config s') \<le> mr_CompletedWarmup s'" if "mr_RunningMeasured s'"
    using do_running[OF do that] dn a l by (auto simp: done_ok_def)
  ultimately show ?thesis by (simp add: done_ok_def)
qed

lemma act_inv:
  assumes "multi_inv d (s, us @ (a # k) # vs)" "bench_do d ch a s = Some (new, s')"
  shows "multi_inv d (s', us @ (new @ k) # vs)"
proof -
  have "act_ok s a" "samples_ok d s" "weights_ok s (us @ (a # k) # vs)" using assms(1) by (simp_all add: multi_inv_def acts_ok_def)
  then show ?thesis
    using act_ctx[OF assms] act_done[OF assms] act_acts[OF assms] do_samples[OF assms(2)] act_weights[OF _ _ assms(2)]
    by (simp add: multi_inv_def)
qed

text \<open>Steps that keep the counts, the stamps and the results, such as a new handler that starts.\<close>

lemma event_inv:
  assumes inv: "multi_inv d (s, ts)" and l: "later s s'" and st: "\<And>c. same_stamps c s s'"
    and eq: "mr_RunningMeasured s' = mr_RunningMeasured s" "mr_CompletedMeasured s' = mr_CompletedMeasured s"
      "lr_LatencyCollector s' = lr_LatencyCollector s" "lr_Results s' = lr_Results s" "lr_Calls s' = lr_Calls s"
      "mr_Answered s' = mr_Answered s" "mr_NextMeasured s' = mr_NextMeasured s"
    and new: "\<And>t a. t \<in> set us \<Longrightarrow> a \<in> set t \<Longrightarrow> act_ok s' a"
    and w: "weights_ok s' (ts @ us)"
    and infl: "\<And>c. c < length (mr_Contexts s) \<Longrightarrow> set (cx_Inflight (ctx s' c)) \<subseteq> set (cx_Inflight (ctx s c))"
  shows "multi_inv d (s', ts @ us)"
proof -
  have p: "ctx_ok s" "samples_ok d s" "acts_ok s ts" "done_ok s" using inv by (simp_all add: multi_inv_def)
  have g: "good_results s' x \<longleftrightarrow> good_results s x" for x using l eq by (simp add: good_results_def later_def)
  have stm: "stamp s' r \<longleftrightarrow> stamp s r" for r using st by (simp add: stamp_def same_stamps_def)
  have "act_ok s' b" if "act_ok s b" for b
    using act_ok_stable[OF that l] st eq that by (cases "b = M_Completed") (auto simp: g)
  then have "acts_ok s' (ts @ us)" using p(3) new by (auto simp: acts_ok_def)
  moreover have "ctx_ok s'" unfolding ctx_ok_def using p(1) l infl by (fastforce simp: ctx_ok_def later_def stm eq)
  moreover have "samples_ok d s'" using p(2) l by (simp add: samples_ok_def later_def eq)
  moreover have "done_ok s'" using p(4) l by (auto simp: done_ok_def later_def eq g)
  ultimately show ?thesis using w by (simp add: multi_inv_def)
qed

lemma weights_dangling [simp]: "weights_ok (s\<lparr>mr_Dangling := x\<rparr>) ts \<longleftrightarrow> weights_ok s ts"
  by (simp add: weights_ok_def)

lemma dangling_inv: "multi_inv d (s, ts) \<Longrightarrow> multi_inv d (s\<lparr>mr_Dangling := x\<rparr>, ts)"
  using event_inv[of d s ts "s\<lparr>mr_Dangling := x\<rparr>" "[]"]
  by (simp add: later_def same_stamps_def multi_inv_def)

text \<open>A response is taken from the requests in flight and becomes a thread that handles it.\<close>

lemma pop_weights:
  assumes w: "weights_ok s ts" and c: "c < length (mr_Contexts s)" "cx_Inflight (ctx s c) = r # rs"
    and f: "cx_Inflight (f (ctx s c)) = rs" "cx_ConnectTold (f (ctx s c)) = cx_ConnectTold (ctx s c)"
  shows "weights_ok (upd_ctx c f s) (ts @ [[P_Check c r, P_End c]])" "weights_ok (upd_ctx c f s) ts"
proof -
  let ?cs = "(mr_Contexts s)[c := f (ctx s c)]"
  note wd = weights_okD[OF w]
  have move: "tally v (ts @ [[P_Check c r, P_End c]]) + inflight P ?cs = tally v ts + inflight P (mr_Contexts s)"
    if "v (P_Check c r) = flag (P r)" "v (P_End c) = 0" for v P using inflight_pop[OF c f(1)] that by simp
  have less: "inflight P ?cs \<le> inflight P (mr_Contexts s)" for P using inflight_pop[OF c f(1), of P] by simp
  have same: "tally v (ts @ [[P_Check c r, P_End c]]) = tally v ts" if "v (P_Check c r) = 0" "v (P_End c) = 0" for v using that by simp
  show "weights_ok (upd_ctx c f s) (ts @ [[P_Check c r, P_End c]])"
    unfolding weights_ok_def upd_ctx_simps told_same[OF f(2)]
    using wd(1,4,5,6) wd(2) wd(3)
    by (simp only: move same warm_w.simps token.simps ticket_w.simps count_w.simps connect_w.simps runner_w.simps simp_thms)
  show "weights_ok (upd_ctx c f s) ts"
    unfolding weights_ok_def upd_ctx_simps told_same[OF f(2)]
    using wd(1,4,5,6) order_trans[OF add_left_mono[OF less] wd(2)] order_trans[OF add_right_mono[OF add_left_mono[OF less]] wd(3)]
      order_trans[OF add_right_mono[OF add_left_mono[OF less]] wd(1)] by blast
qed

lemma packet_inv:
  assumes inv: "multi_inv d (s, ts)" and c: "c < length (mr_Contexts s)" "cx_Inflight (ctx s c) = r # rs"
  shows "multi_inv d (upd_ctx c (\<lambda>x. x\<lparr>cx_Inflight := rs, cx_InCallback := True\<rparr>) s, ts @ [[P_Check c r, P_End c]])"
    "multi_inv d (upd_ctx c (\<lambda>x. x\<lparr>cx_Inflight := rs\<rparr>) s, ts)"
proof -
  let ?s = "upd_ctx c (\<lambda>x. x\<lparr>cx_Inflight := rs, cx_InCallback := True\<rparr>) s" and ?t = "upd_ctx c (\<lambda>x. x\<lparr>cx_Inflight := rs\<rparr>) s"
  have w: "weights_ok s ts" and cx: "ctx_ok s" and dn: "done_ok s" using inv by (simp_all add: multi_inv_def)
  have "r \<in> set (cx_Inflight (ctx s c))" by (simp add: c(2))
  then have r: "rq_Session r = c" "rq_Measured r \<Longrightarrow> mr_RunningMeasured s \<and> stamp s r" using cx c(1) unfolding ctx_ok_def by blast+
  have "\<not> mr_RunningMeasured s" if "\<not> rq_Measured r"
  proof -
    have "1 \<le> inflight (\<lambda>r. \<not> rq_Measured r) (mr_Contexts s)"
      using inflight_pop[OF c, of "(ctx s c)\<lparr>cx_Inflight := rs\<rparr>" "\<lambda>r. \<not> rq_Measured r"] that
        inflight_nonneg[of "\<lambda>r. \<not> rq_Measured r" "(mr_Contexts s)[c := (ctx s c)\<lparr>cx_Inflight := rs\<rparr>]"] by simp
    moreover have "0 \<le> tally warm_w ts" by (simp add: tally_nonneg)
    ultimately have "mr_CompletedWarmup s < warmupTarget (lr_Config s)" using weights_okD(1)[OF w] by linarith
    then show ?thesis using dn by (auto simp: done_ok_def)
  qed
  then have ok: "act_ok ?s (P_Check c r)" using c(1) r by (auto simp: stamp_def)
  have infl: "set (cx_Inflight (ctx ?s x)) \<subseteq> set (cx_Inflight (ctx s x))" "set (cx_Inflight (ctx ?t x)) \<subseteq> set (cx_Inflight (ctx s x))" for x
    using c by (cases "x = c"; auto)+
  show "multi_inv d (?s, ts @ [[P_Check c r, P_End c]])"
  proof (rule event_inv[OF inv])
    show "act_ok ?s a" if "t \<in> set [[P_Check c r, P_End c]]" "a \<in> set t" for t a using that ok by auto
    show "weights_ok ?s (ts @ [[P_Check c r, P_End c]])" by (rule pop_weights(1)[OF w c]) simp_all
  qed (use infl(1) in \<open>simp_all add: later_def same_stamps_def\<close>)
  have "multi_inv d (?t, ts @ [])"
  proof (rule event_inv[OF inv])
    show "weights_ok ?t (ts @ [])" unfolding append_Nil2 by (rule pop_weights(2)[OF w c]) simp_all
  qed (use infl(2) in \<open>simp_all add: later_def same_stamps_def\<close>)
  then show "multi_inv d (?t, ts)" by simp
qed

lemma bench_exec_inv:
  assumes inv: "multi_inv d (s, ts)" and ex: "bench_exec d e (s, ts) = Some x"
  shows "multi_inv d x"
proof -
  have w: "weights_ok s ts" and cx: "ctx_ok s" using inv by (simp_all add: multi_inv_def)
  note wd = weights_okD[OF w]
  show ?thesis
  proof (cases e)
    case BE_Stop
    then have x: "x = (s\<lparr>lr_StopRequested := True\<rparr>, ts)" using ex by simp
    have "weights_ok (s\<lparr>lr_StopRequested := True\<rparr>) ts" using w by (simp add: weights_ok_def)
    then show ?thesis using event_inv[OF inv, of "s\<lparr>lr_StopRequested := True\<rparr>" "[]"] by (simp add: x later_def same_stamps_def)
  next
    case (BE_Connected c)
    let ?s = "upd_ctx c (\<lambda>x. x\<lparr>cx_ConnectTold := True\<rparr>) s"
    have c: "c < length (mr_Contexts s)" "\<not> cx_ConnectTold (ctx s c)" "x = (?s, ts @ [[C_Connected c]])"
      using ex BE_Connected by (simp_all split: if_splits)
    have "weights_ok ?s (ts @ [[C_Connected c]])" using w c by (simp add: weights_ok_def told_update)
    then show ?thesis
      using event_inv[OF inv, of ?s "[[C_Connected c]]"] c(1) by (simp add: c(3) later_def same_stamps_def nth_list_update)
  next
    case (BE_Disconnected c)
    let ?s = "upd_ctx c (\<lambda>x. x\<lparr>cx_DisconnectTold := True\<rparr>) s"
    let ?t = "upd_ctx c (\<lambda>x. x\<lparr>cx_Drained := True\<rparr>) (?s\<lparr>mr_Dangling := mr_Dangling s \<or> \<not> cx_DrainLive (ctx s c)\<rparr>)"
    have c: "c < length (mr_Contexts s)" "x = (if cx_DrainHandler (ctx s c) then (?t, ts) else (?s, ts @ [[D_Active c]]))"
      using ex BE_Disconnected by (simp_all add: Let_def split: if_splits)
    have "weights_ok ?s (ts @ [[D_Active c]])" "weights_ok ?t ts" using w c(1) by (simp_all add: weights_ok_def)
    then show ?thesis
      using event_inv[OF inv, of ?s "[[D_Active c]]"] event_inv[OF inv, of ?t "[]"] c(1)
      by (simp add: c(2) later_def same_stamps_def nth_list_update)
  next
    case (BE_Packet c packetId parsed)
    show ?thesis
    proof (cases "packetId \<noteq> PACKET_ID_BENCHMARK_RESPONSE \<or> \<not> parsed")
      case True
      then show ?thesis using ex inv BE_Packet by (simp split: if_splits)
    next
      case False
      then obtain r rs where c: "c < length (mr_Contexts s)" "cx_Inflight (ctx s c) = r # rs"
        and x: "x = (if cx_PacketHandler (ctx s c)
          then (upd_ctx c (\<lambda>x. x\<lparr>cx_Inflight := rs, cx_InCallback := True\<rparr>) s, ts @ [[P_Check c r, P_End c]])
          else (upd_ctx c (\<lambda>x. x\<lparr>cx_Inflight := rs\<rparr>) s, ts))"
        using ex BE_Packet by (auto split: if_splits list.splits)
      show ?thesis using packet_inv[OF inv c] by (simp add: x)
    qed
  next
    case (BE_Act i ch)
    then obtain a k new s' where i: "i < length ts" "ts ! i = a # k" and do: "bench_do d ch a s = Some (new, s')"
      and x: "x = (s'\<lparr>mr_Dangling := mr_Dangling s' \<or> 0 < i \<and> mr_Returned s \<and> touches_frame a\<rparr>, ts[i := new @ k])"
      using ex by (auto split: if_splits list.splits option.splits prod.splits)
    note t = thread_split[OF i]
    have "multi_inv d (s, take i ts @ (a # k) # drop (Suc i) ts)" using inv t(1) by simp
    then show ?thesis using dangling_inv[OF act_inv[OF _ do]] by (simp add: x t(2))
  qed
qed

lemma bench_run_inv: "multi_inv d x \<Longrightarrow> bench_run d es x = Some y \<Longrightarrow> multi_inv d y"
proof (induction es arbitrary: x)
  case (Cons e es)
  then obtain x1 where x1: "bench_exec d e x = Some x1" "bench_run d es x1 = Some y" by (auto split: option.splits)
  have "multi_inv d x1" using bench_exec_inv[of d "fst x" "snd x" e x1] Cons.prems(1) x1(1) by simp
  then show ?case using Cons.IH x1(2) by blast
qed simp

lemma Start_fresh:
  assumes "LatencyBenchmarkRunner_Start cfg cb r0 = Some (True, r)" "lr_Calls r0 = []"
  shows "lr_Config r = cfg" "lr_Calls r = []" "lr_LatencyCollector r = \<lparr>lc_Samples = [], lc_TotalBytes = 0\<rparr>"
  using assms by (auto simp: LatencyBenchmarkRunner_Start_def LatencyCollector_Clear_def Let_def split: if_splits)

lemma multi_inv_init:
  assumes "LatencyBenchmarkRunner_Start cfg cb r0 = Some (True, r)" "lr_Calls r0 = []"
  shows "multi_inv d (multi_init r)"
proof -
  note f = Start_fresh[OF assms]
  have z: "told (replicate n SessionContext_ctor) = 0" "inflight P (replicate n SessionContext_ctor) = 0" for n P
    by (induction n) (simp_all add: told_def inflight_def SessionContext_ctor_def)
  show ?thesis
    using z by (auto simp: multi_inv_def multi_init_def LatencyBenchmarkRunner.defs f ctx_ok_def samples_ok_def weights_ok_def acts_ok_def
        done_ok_def answered_with_def issued_def SessionContext_ctor_def)
qed

section \<open>What the run measures\<close>

text \<open>C9: however the runner and the handlers of the sessions interleave, every sample of a run over many
  sessions is the time from the sending of one measured request to the response to this very request,
  no request gives two samples, and the payload bytes are those of these requests. When the
  results are reported, each of the \<open>totalTarget\<close> requests has given exactly one sample, all sessions
  were connected and all warm-up requests answered.\<close>

theorem multi_run_measures_each_request:
  assumes "LatencyBenchmarkRunner_Start cfg cb r0 = Some (True, r)" "lr_Calls r0 = []"
    "bench_run d es (multi_init r) = Some (s, ts)"
  shows "lc_Samples (lr_LatencyCollector s) = map (\<lambda>(q, t). t - rq_Time q) (mr_Answered s) \<and>
    lc_TotalBytes (lr_LatencyCollector s) =
      (\<Sum>(q, t)\<leftarrow>mr_Answered s. of_nat (length (BuildPayloadPool d (lr_Config s) ! rq_Payload q))) \<and>
    distinct (map (rq_Ticket \<circ> fst) (mr_Answered s)) \<and> length (mr_Answered s) \<le> totalTarget (lr_Config s) \<and>
    mr_CompletedMeasured s \<le> length (mr_Answered s) \<and>
    (\<forall>st. CB_Completed st \<in> set (lr_Calls s) \<longrightarrow>
      set (map (rq_Ticket \<circ> fst) (mr_Answered s)) = {..<totalTarget (lr_Config s)} \<and> good_results s st)"
proof -
  have inv: "ctx_ok s" "samples_ok d s" "weights_ok s ts" "done_ok s"
    using bench_run_inv[OF multi_inv_init[OF assms(1,2)] assms(3)] by (simp_all add: multi_inv_def)
  note a = weights_answered[OF inv(3,2)]
  have c: "mr_CompletedMeasured s \<le> length (mr_Answered s)"
    using weights_okD(4)[OF inv(3)] tally_nonneg[of count_w ts] by simp
  have "set (map (rq_Ticket \<circ> fst) (mr_Answered s)) = {..<totalTarget (lr_Config s)} \<and> good_results s st"
    if "CB_Completed st \<in> set (lr_Calls s)" for st
    using inv(4) that a(4) c by (auto simp: done_ok_def good_results_def Let_def)
  then show ?thesis using inv(2) a c by (simp add: samples_ok_def)
qed

section \<open>Schedules\<close>

abbreviation go :: "nat \<Rightarrow> nat \<Rightarrow> bench_event list" where
  "go n i \<equiv> replicate n (BE_Act i \<lparr>bc_Now = 7, bc_Ok = True, bc_Timeout = False\<rparr>)"

abbreviation late :: "nat \<Rightarrow> bench_event" where
  "late i \<equiv> BE_Act i \<lparr>bc_Now = 9, bc_Ok = True, bc_Timeout = True\<rparr>"

definition demo_config :: BenchmarkConfig where
  "demo_config = BenchmarkConfig_default\<lparr>cf_sessionCount := 2, cf_iterations := 2, cf_warmupIterations := 0, cf_payloadPoolSize := 1\<rparr>"

definition demo_callbacks :: BenchmarkCallbacks where
  "demo_callbacks = \<lparr>has_onStateChanged = True, has_onProgress = True, has_onCompleted = True, has_onError = True\<rparr>"

definition demo_runner :: LatencyBenchmarkRunner where
  "demo_runner = LatencyBenchmarkRunner_ctor\<lparr>lr_Config := demo_config, lr_Callbacks := demo_callbacks, lr_RunnerThread := True\<rparr>"

text \<open>Both sessions connect and send their first requests.\<close>

definition sending_schedule :: "bench_event list" where
  "sending_schedule = go 9 0 @ [BE_Connected 0, BE_Connected 1] @ go 2 1 @ go 2 2 @ go 23 0"

text \<open>Both are answered, and the runner computes the results; then it reports them.\<close>

definition measured_schedule :: "bench_event list" where
  "measured_schedule = sending_schedule @ [BE_Packet 0 PACKET_ID_BENCHMARK_RESPONSE True] @ go 1 3 @ late 3 # go 7 3 @
     [BE_Packet 1 PACKET_ID_BENCHMARK_RESPONSE True] @ go 1 4 @ late 4 # go 8 4 @ go 3 0"

definition full_schedule :: "bench_event list" where
  "full_schedule = measured_schedule @ go 3 0"

lemma demo_start: "LatencyBenchmarkRunner_Start demo_config demo_callbacks LatencyBenchmarkRunner_ctor = Some (True, demo_runner)"
  by (simp add: LatencyBenchmarkRunner_Start_def LatencyBenchmarkRunner_ctor_def demo_runner_def LatencyCollector_Clear_def
      LatencyCollector_ctor_def Let_def)

lemmas demo_defs = demo_runner_def demo_config_def demo_callbacks_def LatencyBenchmarkRunner_ctor_def BenchmarkConfig_default_def
  multi_init_def LatencyBenchmarkRunner.defs SessionContext_ctor_def sessionCount_def totalTarget_def warmupTarget_def

lemmas bench_demo_steps = upd_ctx_def call_back_def SetState_store_def report_error_def
      SetState_skips_def send_failed_def measured_limit_def Let_def unroll_numeral

lemma full_run:
  "\<exists>s ts st. bench_run (\<lambda>low high i. low) full_schedule (multi_init demo_runner) = Some (s, ts) \<and>
     CB_Completed st \<in> set (lr_Calls s) \<and> lr_Config s = demo_config"
  by (simp add: full_schedule_def measured_schedule_def sending_schedule_def demo_defs bench_demo_steps)

theorem multi_run_measures_each_request_witness:
  "\<exists>s ts st. bench_run (\<lambda>low high i. low) full_schedule (multi_init demo_runner) = Some (s, ts) \<and>
     CB_Completed st \<in> set (lr_Calls s) \<and> set (map (rq_Ticket \<circ> fst) (mr_Answered s)) = {..<2} \<and> bs_iterations st = 2"
proof -
  obtain s ts st where s: "bench_run (\<lambda>low high i. low) full_schedule (multi_init demo_runner) = Some (s, ts)"
    "CB_Completed st \<in> set (lr_Calls s)" "lr_Config s = demo_config" using full_run by blast
  have t: "totalTarget demo_config = 2" by (simp add: totalTarget_def demo_config_def)
  have "lr_Calls LatencyBenchmarkRunner_ctor = []" by (simp add: LatencyBenchmarkRunner_ctor_def)
  then have "set (map (rq_Ticket \<circ> fst) (mr_Answered s)) = {..<totalTarget (lr_Config s)} \<and> good_results s st"
    using multi_run_measures_each_request[OF demo_start _ s(1)] s(2) by blast
  then have "set (map (rq_Ticket \<circ> fst) (mr_Answered s)) = {..<2}" "bs_iterations st = 2"
    by (simp_all add: good_results_def Let_def s(3) t)
  then show ?thesis using s(1,2) by blast
qed

text \<open>The wait for the responses times out, the run returns, and then a response arrives.\<close>

definition dangling_schedule :: "bench_event list" where
  "dangling_schedule = sending_schedule @ [late 0] @ go 6 0 @ [BE_Packet 0 PACKET_ID_BENCHMARK_RESPONSE True] @ go 1 3"

text \<open>A session is lost while the runner reports the end of the run.\<close>

definition overwritten_schedule :: "bench_event list" where
  "overwritten_schedule = measured_schedule @ [BE_Disconnected 0] @ go 5 5 @ go 2 0 @ go 1 5"

text \<open>The handlers outlive the variables they use, and \<open>SetState\<close> is no atomic step. There is a run that
  gives up waiting for responses and returns, and a later response makes a handler read a
  local variable of the run; and there is a run in which a lost connection overwrites the final
  state \<open>Completed\<close> with \<open>Failed\<close>, although \<open>SetState\<close> means a final state to stay.\<close>

theorem multi_run_races:
  "(\<exists>es s ts. bench_run (\<lambda>low high i. low) es (multi_init demo_runner) = Some (s, ts) \<and> mr_Returned s \<and> mr_Dangling s) \<and>
   (\<exists>es s ts cs. bench_run (\<lambda>low high i. low) es (multi_init demo_runner) = Some (s, ts) \<and>
      lr_Calls s = cs @ [CB_State BS_Completed, CB_State BS_Failed] \<and> lr_State s = BS_Failed)"
proof (intro conjI)
  have "\<exists>s ts. bench_run (\<lambda>low high i. low) dangling_schedule (multi_init demo_runner) = Some (s, ts) \<and> mr_Returned s \<and> mr_Dangling s"
    by (simp add: dangling_schedule_def sending_schedule_def demo_defs bench_demo_steps)
  then show "\<exists>es s ts. bench_run (\<lambda>low high i. low) es (multi_init demo_runner) = Some (s, ts) \<and> mr_Returned s \<and> mr_Dangling s"
    by blast
  have "\<exists>s ts cs. bench_run (\<lambda>low high i. low) overwritten_schedule (multi_init demo_runner) = Some (s, ts) \<and>
      lr_Calls s = cs @ [CB_State BS_Completed, CB_State BS_Failed] \<and> lr_State s = BS_Failed"
    by (simp add: overwritten_schedule_def full_schedule_def measured_schedule_def sending_schedule_def demo_defs bench_demo_steps)
  then show "\<exists>es s ts cs. bench_run (\<lambda>low high i. low) es (multi_init demo_runner) = Some (s, ts) \<and>
      lr_Calls s = cs @ [CB_State BS_Completed, CB_State BS_Failed] \<and> lr_State s = BS_Failed" by blast
qed

end
