(* ===== verification/Benchmark_Sequential.thy ===== *)
theory Benchmark_Sequential
  imports Benchmark_Runner Interleaving
begin

text \<open>
  The benchmark over one session (\<open>LatencyBenchmarkRunner.cpp\<close>, \<open>RunSequentialBenchmark\<close>,
  \<open>SendAndWaitResponse\<close> and \<open>DisconnectAndWaitDrain\<close>): the runner sends one request after the other and
  waits for each response, while the handlers of the session run in other threads. The runner is
  the list of the actions it still has to do; the handlers are a list of such lists, with actions of their own.

  \<open>sq_LastReq\<close>, \<open>sq_Measured\<close>, \<open>sq_TimedOut\<close> are no variables of the program: the request whose response was
  stored last, the samples with the request that was sent for them, the time of the sample and the
  request the response of which was there, and whether a wait for a response ended without one.
  \<open>sq_Returned\<close> and \<open>sq_Dangling\<close> are as in \<open>Benchmark_Multi\<close>.
\<close>

record seq_request =
  sr_Measured :: bool
  sr_Index :: nat
  sr_Time :: u64

record seq_run = LatencyBenchmarkRunner +
  sq_Session :: bool
  sq_Connected :: bool
  sq_LastReceivedSeq :: u32
  sq_LastRecvTimestamp :: u64
  sq_ResponseWaiter :: BenchmarkWaiter
  sq_WarmupResponses :: nat
  sq_ConnectElapsedNs :: u64
  sq_WarmupElapsedNs :: u64
  sq_PacketHandler :: bool
  sq_DrainHandler :: bool
  sq_DrainLive :: bool
  sq_Drained :: bool
  sq_DisconnectRequested :: bool
  sq_ConnectTold :: bool
  sq_DisconnectTold :: bool
  sq_InCallback :: bool
  sq_Inflight :: "seq_request list"
  sq_LastReq :: "seq_request option"
  sq_Measured :: "(seq_request \<times> u64 \<times> seq_request option) list"
  sq_TimedOut :: bool
  sq_Returned :: bool
  sq_Dangling :: bool

text \<open>The runner; \<open>Q_Wait\<close> carries the request it waits for.\<close>

datatype seq_act =
    Q_Begin
  | Q_ConnectStart
  | Q_Create u64
  | Q_ConnectWait u64
  | Q_SetPacketHandler
  | Q_WarmupStart
  | Q_WarmupClock
  | Q_Warmup nat u64
  | Q_WarmupReset nat u64
  | Q_WarmupSend nat u64
  | Q_WarmupWait seq_request u64
  | Q_Running
  | Q_Measure
  | Q_Loop nat u64
  | Q_Reset nat u64
  | Q_Clock nat u64
  | Q_Send seq_request u64
  | Q_Wait seq_request u64
  | Q_Sample seq_request u64
  | Q_Progress nat
  | Q_Results u64
  | Q_Completed
  | Q_SetDrain
  | Q_Disconnect
  | Q_DrainWait
  | Q_Throw string
  | Q_Unwind
  | Q_SetState BenchmarkState
  | Q_StoreState BenchmarkState
  | Q_Error string

text \<open>The handlers.\<close>

datatype hand_act =
    H_Connected
  | H_DiscCheck
  | H_SetState BenchmarkState
  | H_StoreState BenchmarkState
  | H_Error string
  | H_StoreSeq seq_request
  | H_StoreTimestamp seq_request
  | H_Signal seq_request
  | H_End

record seq_choice =
  sc_Now :: u64
  sc_Ok :: bool
  sc_Timeout :: bool

definition sequential_payload :: "(nat \<Rightarrow> nat \<Rightarrow> nat \<Rightarrow> nat) \<Rightarrow> BenchmarkConfig \<Rightarrow> byte list" where
  "sequential_payload d c = hd (BuildPayloadPool d c)"

definition sequential_results :: "(nat \<Rightarrow> nat \<Rightarrow> nat \<Rightarrow> nat) \<Rightarrow> u64 \<Rightarrow> 'a seq_run_scheme \<Rightarrow> BenchmarkStats" where
  "sequential_results d measuredElapsedNs s =
    (let cfg = lr_Config s;
         payload = sequential_payload d cfg;
         st = Calculate (cf_testName cfg) (cf_payloadSize cfg) (lr_LatencyCollector s)
     in st\<lparr>bs_debugProfileEnabled := True, bs_requestedSessions := 1, bs_connectedSessions := 1, bs_connectionLosses := 0,
           bs_warmupRequests := cf_warmupIterations cfg, bs_warmupResponses := sq_WarmupResponses s,
           bs_measuredRequests := cf_iterations cfg, bs_measuredResponses := bs_iterations st,
           bs_payloadMinBytes := length payload, bs_payloadMaxBytes := length payload,
           bs_payloadPoolSize := length (BuildPayloadPool d cfg), bs_connectElapsedNs := sq_ConnectElapsedNs s,
           bs_warmupElapsedNs := sq_WarmupElapsedNs s, bs_measuredElapsedNs := measuredElapsedNs\<rparr>)"

text \<open>Sending may fail silently, when the session has lost its connection.\<close>

definition seq_post :: "bool \<Rightarrow> seq_request \<Rightarrow> 'a seq_run_scheme \<Rightarrow> 'a seq_run_scheme" where
  "seq_post ok r s = (if ok then s\<lparr>sq_Inflight := sq_Inflight s @ [r]\<rparr> else s)"

text \<open>The runner starts the service and opens the session.\<close>

definition open_do :: "(nat \<Rightarrow> nat \<Rightarrow> nat \<Rightarrow> nat) \<Rightarrow> seq_choice \<Rightarrow> seq_act \<Rightarrow> seq_run \<Rightarrow> (seq_act list \<times> seq_run) option" where
  "open_do d ch a s = (case a of
       Q_Begin \<Rightarrow>
       (if cf_useRio (lr_Config s)
        then if sc_Ok ch
             then Some ([Q_SetState BS_Connecting, Q_ConnectStart],
                        s\<lparr>lr_Service := Some (SV_RIOService (cf_ioThreadCount (lr_Config s)))\<rparr>)
             else Some ([Q_Throw ''Failed to initialize RIO Service''], s)
        else Some ([Q_SetState BS_Connecting, Q_ConnectStart],
                   s\<lparr>lr_Service := Some (SV_IOService (cf_ioThreadCount (lr_Config s)))\<rparr>))
     | Q_ConnectStart \<Rightarrow>
       (Some ([Q_Create (sc_Now ch)], s))
     | Q_Create t0 \<Rightarrow>
       (Some ([Q_ConnectWait t0], s\<lparr>sq_Session := sc_Ok ch\<rparr>))
     | Q_ConnectWait t0 \<Rightarrow>
       (if sq_Connected s then Some ([Q_SetPacketHandler], s\<lparr>sq_ConnectElapsedNs := sc_Now ch - t0\<rparr>)
        else if sc_Timeout ch then Some ([Q_SetState BS_Failed, Q_Error ''Connection timeout'', Q_Unwind], s)
        else None)
     | Q_SetPacketHandler \<Rightarrow>
       (Some ([Q_WarmupStart], s\<lparr>sq_PacketHandler := True\<rparr>))
     | Q_Throw what \<Rightarrow>
       (Some ([Q_Unwind, Q_SetState BS_Failed, Q_Error what], s))
     | Q_Unwind \<Rightarrow>
       (Some ([], s\<lparr>sq_Returned := True\<rparr>))
     | _ \<Rightarrow> None)"

text \<open>The warm-up, with \<open>SendAndWaitResponse\<close> (reset, send, wait).\<close>

definition warm_do :: "(nat \<Rightarrow> nat \<Rightarrow> nat \<Rightarrow> nat) \<Rightarrow> seq_choice \<Rightarrow> seq_act \<Rightarrow> seq_run \<Rightarrow> (seq_act list \<times> seq_run) option" where
  "warm_do d ch a s = (case a of
       Q_WarmupStart \<Rightarrow>
       (if 0 < cf_warmupIterations (lr_Config s) then Some ([Q_SetState BS_Warmup, Q_WarmupClock], s) else Some ([Q_Running], s))
     | Q_WarmupClock \<Rightarrow>
       (Some ([Q_Warmup 0 (sc_Now ch)], s))
     | Q_Warmup i t0 \<Rightarrow>
       (if i < cf_warmupIterations (lr_Config s) \<and> \<not> lr_StopRequested s then Some ([Q_WarmupReset i t0], s)
        else Some ([Q_Running], s\<lparr>sq_WarmupElapsedNs := sc_Now ch - t0\<rparr>))
     | Q_WarmupReset i t0 \<Rightarrow>
       (Some ([Q_WarmupSend i t0], s\<lparr>sq_ResponseWaiter := BenchmarkWaiter_Reset (sq_ResponseWaiter s)\<rparr>))
     | Q_WarmupSend i t0 \<Rightarrow>
       (let r = \<lparr>sr_Measured = False, sr_Index = i, sr_Time = sc_Now ch\<rparr> in Some ([Q_WarmupWait r t0], seq_post (sc_Ok ch) r s))
     | Q_WarmupWait r t0 \<Rightarrow>
       (case BenchmarkWaiter_Wait (sc_Timeout ch) (sq_ResponseWaiter s) of
          None \<Rightarrow> None
        | Some True \<Rightarrow> Some ([Q_Warmup (Suc (sr_Index r)) t0], s\<lparr>sq_WarmupResponses := Suc (sq_WarmupResponses s)\<rparr>)
        | Some False \<Rightarrow> Some ([Q_Warmup (Suc (sr_Index r)) t0], s\<lparr>sq_TimedOut := True\<rparr>))
     | _ \<Rightarrow> None)"

definition measured_do :: "(nat \<Rightarrow> nat \<Rightarrow> nat \<Rightarrow> nat) \<Rightarrow> seq_choice \<Rightarrow> seq_act \<Rightarrow> seq_run \<Rightarrow> (seq_act list \<times> seq_run) option" where
  "measured_do d ch a s = (case a of
       Q_Running \<Rightarrow>
       (Some ([Q_SetState BS_Running, Q_Measure], s))
     | Q_Measure \<Rightarrow>
       (Some ([Q_Loop 0 (sc_Now ch)], s))
     | Q_Loop i t0 \<Rightarrow>
       (if i < cf_iterations (lr_Config s) \<and> \<not> lr_StopRequested s then Some ([Q_Reset i t0], s) else Some ([Q_Results t0], s))
     | Q_Reset i t0 \<Rightarrow>
       (Some ([Q_Clock i t0], s\<lparr>sq_ResponseWaiter := BenchmarkWaiter_Reset (sq_ResponseWaiter s)\<rparr>))
     | Q_Clock i t0 \<Rightarrow>
       (Some ([Q_Send \<lparr>sr_Measured = True, sr_Index = i, sr_Time = sc_Now ch\<rparr> t0], s))
     | Q_Send r t0 \<Rightarrow>
       (Some ([Q_Wait r t0], seq_post (sc_Ok ch) r s))
     | Q_Wait r t0 \<Rightarrow>
       (case BenchmarkWaiter_Wait (sc_Timeout ch) (sq_ResponseWaiter s) of
          None \<Rightarrow> None
        | Some True \<Rightarrow> Some ([Q_Sample r t0], s)
        | Some False \<Rightarrow> Some ([Q_Loop (Suc (sr_Index r)) t0], s\<lparr>sq_TimedOut := True\<rparr>))
     | Q_Sample r t0 \<Rightarrow>
       (Some ([Q_Progress (sr_Index r), Q_Loop (Suc (sr_Index r)) t0],
         s\<lparr>lr_LatencyCollector := AddSample (sc_Now ch - sr_Time r) (length (sequential_payload d (lr_Config s))) (lr_LatencyCollector s),
           sq_Measured := sq_Measured s @ [(r, sc_Now ch, sq_LastReq s)]\<rparr>))
     | Q_Progress i \<Rightarrow>
       (Some ([], call_back (has_onProgress (lr_Callbacks s) \<and> (i mod 100 = 0 \<or> i = cf_iterations (lr_Config s) - 1))
                   (CB_Progress (i + 1) (cf_iterations (lr_Config s))) s))
     | _ \<Rightarrow> None)"

definition finish_do :: "(nat \<Rightarrow> nat \<Rightarrow> nat \<Rightarrow> nat) \<Rightarrow> seq_choice \<Rightarrow> seq_act \<Rightarrow> seq_run \<Rightarrow> (seq_act list \<times> seq_run) option" where
  "finish_do d ch a s = (case a of
       Q_Results t0 \<Rightarrow>
       (Some ([Q_SetState BS_Completed, Q_Completed, Q_SetDrain], s\<lparr>lr_Results := sequential_results d (sc_Now ch - t0) s\<rparr>))
     | Q_Completed \<Rightarrow>
       (Some ([], call_back (has_onCompleted (lr_Callbacks s)) (CB_Completed (lr_Results s)) s))
     | _ \<Rightarrow> None)"

text \<open>\<open>DisconnectAndWaitDrain\<close>; \<open>Disconnect\<close> of a RIO session does nothing.\<close>

definition drain_one_do :: "(nat \<Rightarrow> nat \<Rightarrow> nat \<Rightarrow> nat) \<Rightarrow> seq_choice \<Rightarrow> seq_act \<Rightarrow> seq_run \<Rightarrow> (seq_act list \<times> seq_run) option" where
  "drain_one_do d ch a s = (case a of
       Q_SetDrain \<Rightarrow>
       (Some ([Q_Disconnect], s\<lparr>sq_DrainHandler := True, sq_DrainLive := True\<rparr>))
     | Q_Disconnect \<Rightarrow>
       (Some ([Q_DrainWait], if cf_useRio (lr_Config s) then s else s\<lparr>sq_DisconnectRequested := True\<rparr>))
     | Q_DrainWait \<Rightarrow>
       (if sq_Drained s \<or> sc_Timeout ch then Some ([Q_Unwind], s\<lparr>sq_DrainLive := False\<rparr>) else None)
     | _ \<Rightarrow> None)"

definition seq_state_do :: "(nat \<Rightarrow> nat \<Rightarrow> nat \<Rightarrow> nat) \<Rightarrow> seq_choice \<Rightarrow> seq_act \<Rightarrow> seq_run \<Rightarrow> (seq_act list \<times> seq_run) option" where
  "seq_state_do d ch a s = (case a of
       Q_SetState st \<Rightarrow>
       (Some (if SetState_skips st (lr_State s) then [] else [Q_StoreState st], s))
     | Q_StoreState st \<Rightarrow>
       (Some ([], SetState_store st s))
     | Q_Error what \<Rightarrow>
       (Some ([], report_error what s))
     | _ \<Rightarrow> None)"

fun seq_do :: "(nat \<Rightarrow> nat \<Rightarrow> nat \<Rightarrow> nat) \<Rightarrow> seq_choice \<Rightarrow> seq_act \<Rightarrow> seq_run \<Rightarrow> (seq_act list \<times> seq_run) option" where
  "seq_do d ch Q_Begin s = open_do d ch Q_Begin s"
| "seq_do d ch Q_ConnectStart s = open_do d ch Q_ConnectStart s"
| "seq_do d ch (Q_Create t0) s = open_do d ch (Q_Create t0) s"
| "seq_do d ch (Q_ConnectWait t0) s = open_do d ch (Q_ConnectWait t0) s"
| "seq_do d ch Q_SetPacketHandler s = open_do d ch Q_SetPacketHandler s"
| "seq_do d ch Q_WarmupStart s = warm_do d ch Q_WarmupStart s"
| "seq_do d ch Q_WarmupClock s = warm_do d ch Q_WarmupClock s"
| "seq_do d ch (Q_Warmup i t0) s = warm_do d ch (Q_Warmup i t0) s"
| "seq_do d ch (Q_WarmupReset i t0) s = warm_do d ch (Q_WarmupReset i t0) s"
| "seq_do d ch (Q_WarmupSend i t0) s = warm_do d ch (Q_WarmupSend i t0) s"
| "seq_do d ch (Q_WarmupWait r t0) s = warm_do d ch (Q_WarmupWait r t0) s"
| "seq_do d ch Q_Running s = measured_do d ch Q_Running s"
| "seq_do d ch Q_Measure s = measured_do d ch Q_Measure s"
| "seq_do d ch (Q_Loop i t0) s = measured_do d ch (Q_Loop i t0) s"
| "seq_do d ch (Q_Reset i t0) s = measured_do d ch (Q_Reset i t0) s"
| "seq_do d ch (Q_Clock i t0) s = measured_do d ch (Q_Clock i t0) s"
| "seq_do d ch (Q_Send r t0) s = measured_do d ch (Q_Send r t0) s"
| "seq_do d ch (Q_Wait r t0) s = measured_do d ch (Q_Wait r t0) s"
| "seq_do d ch (Q_Sample r t0) s = measured_do d ch (Q_Sample r t0) s"
| "seq_do d ch (Q_Progress i) s = measured_do d ch (Q_Progress i) s"
| "seq_do d ch (Q_Results t0) s = finish_do d ch (Q_Results t0) s"
| "seq_do d ch Q_Completed s = finish_do d ch Q_Completed s"
| "seq_do d ch Q_SetDrain s = drain_one_do d ch Q_SetDrain s"
| "seq_do d ch Q_Disconnect s = drain_one_do d ch Q_Disconnect s"
| "seq_do d ch Q_DrainWait s = drain_one_do d ch Q_DrainWait s"
| "seq_do d ch (Q_Throw what) s = open_do d ch (Q_Throw what) s"
| "seq_do d ch Q_Unwind s = open_do d ch Q_Unwind s"
| "seq_do d ch (Q_SetState st) s = seq_state_do d ch (Q_SetState st) s"
| "seq_do d ch (Q_StoreState st) s = seq_state_do d ch (Q_StoreState st) s"
| "seq_do d ch (Q_Error what) s = seq_state_do d ch (Q_Error what) s"

fun hand_do :: "hand_act \<Rightarrow> seq_run \<Rightarrow> hand_act list \<times> seq_run" where
  "hand_do H_Connected s = ([], s\<lparr>sq_Connected := True\<rparr>)"
| "hand_do H_DiscCheck s =
     (if lr_State s \<noteq> BS_Completed then ([H_SetState BS_Failed, H_Error ''Connection lost''], s) else ([], s))"
| "hand_do (H_SetState st) s = (if SetState_skips st (lr_State s) then [] else [H_StoreState st], s)"
| "hand_do (H_StoreState st) s = ([], SetState_store st s)"
| "hand_do (H_Error what) s = ([], report_error what s)"
| "hand_do (H_StoreSeq r) s =
     ([H_StoreTimestamp r], s\<lparr>sq_LastReceivedSeq := of_nat (sr_Index r), sq_LastReq := Some r\<rparr>)"
| "hand_do (H_StoreTimestamp r) s = ([H_Signal r], s\<lparr>sq_LastRecvTimestamp := sr_Time r\<rparr>)"
| "hand_do (H_Signal r) s = ([], s\<lparr>sq_ResponseWaiter := BenchmarkWaiter_Signal (sq_ResponseWaiter s)\<rparr>)"
| "hand_do H_End s = ([], s\<lparr>sq_InCallback := False\<rparr>)"

text \<open>The actions of a handler that use a local variable of the function.\<close>

fun hand_touches :: "hand_act \<Rightarrow> bool" where
  "hand_touches H_Connected = True"
| "hand_touches (H_StoreSeq _) = True"
| "hand_touches (H_StoreTimestamp _) = True"
| "hand_touches (H_Signal _) = True"
| "hand_touches _ = False"

datatype seq_event =
    SE_Stop
  | SE_Connected
  | SE_Disconnected
  | SE_Packet u16 bool
  | SE_Runner seq_choice
  | SE_Handler nat

type_synonym seq_state = "seq_run \<times> seq_act list \<times> hand_act list list"

fun seq_exec :: "(nat \<Rightarrow> nat \<Rightarrow> nat \<Rightarrow> nat) \<Rightarrow> seq_event \<Rightarrow> seq_state \<Rightarrow> seq_state option" where
  "seq_exec d SE_Stop (s, m, hs) = Some (s\<lparr>lr_StopRequested := True\<rparr>, m, hs)"
| "seq_exec d SE_Connected (s, m, hs) =
     (if sq_Session s \<and> \<not> sq_ConnectTold s then Some (s\<lparr>sq_ConnectTold := True\<rparr>, m, hs @ [[H_Connected]]) else None)"
| "seq_exec d SE_Disconnected (s, m, hs) =
     (if sq_Session s \<and> \<not> sq_DisconnectTold s \<and> \<not> sq_InCallback s
      then let s1 = s\<lparr>sq_DisconnectTold := True\<rparr>
           in Some (if sq_DrainHandler s
                    then (s1\<lparr>sq_Drained := True, sq_Dangling := sq_Dangling s \<or> \<not> sq_DrainLive s\<rparr>, m, hs)
                    else (s1, m, hs @ [[H_DiscCheck]]))
      else None)"
| "seq_exec d (SE_Packet packetId parsed) (s, m, hs) =
     (if sq_Session s \<and> \<not> sq_DisconnectTold s \<and> \<not> sq_InCallback s
      then if packetId \<noteq> PACKET_ID_BENCHMARK_RESPONSE \<or> \<not> parsed then Some (s, m, hs)
           else case sq_Inflight s of
                  [] \<Rightarrow> None
                | r # rs \<Rightarrow>
                    if sq_PacketHandler s
                    then Some (s\<lparr>sq_Inflight := rs, sq_InCallback := True\<rparr>, m, hs @ [[H_StoreSeq r, H_End]])
                    else Some (s\<lparr>sq_Inflight := rs\<rparr>, m, hs)
      else None)"
| "seq_exec d (SE_Runner ch) (s, m, hs) =
     (case m of
        [] \<Rightarrow> None
      | a # k \<Rightarrow> (case seq_do d ch a s of None \<Rightarrow> None | Some (new, s') \<Rightarrow> Some (s', new @ k, hs)))"
| "seq_exec d (SE_Handler i) (s, m, hs) =
     (if i < length hs then
        case hs ! i of
          [] \<Rightarrow> None
        | a # k \<Rightarrow> let (new, s') = hand_do a s
                   in Some (s'\<lparr>sq_Dangling := sq_Dangling s' \<or> sq_Returned s \<and> hand_touches a\<rparr>, m, hs[i := new @ k])
      else None)"

fun seq_run_all :: "(nat \<Rightarrow> nat \<Rightarrow> nat \<Rightarrow> nat) \<Rightarrow> seq_event list \<Rightarrow> seq_state \<Rightarrow> seq_state option" where
  "seq_run_all d [] x = Some x"
| "seq_run_all d (e # es) x = (case seq_exec d e x of None \<Rightarrow> None | Some y \<Rightarrow> seq_run_all d es y)"

definition seq_init :: "LatencyBenchmarkRunner \<Rightarrow> seq_state" where
  "seq_init r = (LatencyBenchmarkRunner.extend r
     \<lparr>sq_Session = False, sq_Connected = False, sq_LastReceivedSeq = 0, sq_LastRecvTimestamp = 0, sq_ResponseWaiter = False,
      sq_WarmupResponses = 0, sq_ConnectElapsedNs = 0, sq_WarmupElapsedNs = 0, sq_PacketHandler = False,
      sq_DrainHandler = False, sq_DrainLive = False, sq_Drained = False, sq_DisconnectRequested = False,
      sq_ConnectTold = False, sq_DisconnectTold = False, sq_InCallback = False, sq_Inflight = [], sq_LastReq = None,
      sq_Measured = [], sq_TimedOut = False, sq_Returned = False, sq_Dangling = False\<rparr>, [Q_Begin], [])"

end
