(* ===== verification/Benchmark_Sequential_Runs.thy ===== *)
theory Benchmark_Sequential_Runs
  imports Benchmark_Sequential
begin

text \<open>
  The histories of the benchmark over one session: as long as no wait has timed out, at most one
  request is unanswered, and the response a wait ends with is the one to the request that was sent for
  it. A response that comes after its wait timed out is counted for the next request.
\<close>

lemmas seq_do_defs [simp] = open_do_def warm_do_def measured_do_def finish_do_def drain_one_do_def seq_state_do_def

lemma call_back_seq [simp]:
  "sq_Inflight (call_back p x s) = sq_Inflight s" "sq_ResponseWaiter (call_back p x s) = sq_ResponseWaiter s"
  "sq_LastReq (call_back p x s) = sq_LastReq s" "sq_TimedOut (call_back p x s) = sq_TimedOut s"
  "sq_Measured (call_back p x s) = sq_Measured s" "sq_WarmupResponses (call_back p x s) = sq_WarmupResponses s"
  by (simp_all add: call_back_def)

lemma SetState_store_seq [simp]:
  "sq_Inflight (SetState_store x s) = sq_Inflight s" "sq_ResponseWaiter (SetState_store x s) = sq_ResponseWaiter s"
  "sq_LastReq (SetState_store x s) = sq_LastReq s" "sq_TimedOut (SetState_store x s) = sq_TimedOut s"
  "sq_Measured (SetState_store x s) = sq_Measured s" "sq_WarmupResponses (SetState_store x s) = sq_WarmupResponses s"
  by (simp_all add: SetState_store_def)

lemma report_error_seq [simp]:
  "sq_Inflight (report_error x s) = sq_Inflight s" "sq_ResponseWaiter (report_error x s) = sq_ResponseWaiter s"
  "sq_LastReq (report_error x s) = sq_LastReq s" "sq_TimedOut (report_error x s) = sq_TimedOut s"
  "sq_Measured (report_error x s) = sq_Measured s" "sq_WarmupResponses (report_error x s) = sq_WarmupResponses s"
  by (simp_all add: report_error_def)

lemma seq_post_simps [simp]:
  "sq_Inflight (seq_post ok r s) = (if ok then sq_Inflight s @ [r] else sq_Inflight s)"
  "sq_ResponseWaiter (seq_post ok r s) = sq_ResponseWaiter s" "sq_LastReq (seq_post ok r s) = sq_LastReq s"
  "sq_TimedOut (seq_post ok r s) = sq_TimedOut s" "sq_Measured (seq_post ok r s) = sq_Measured s"
  "sq_WarmupResponses (seq_post ok r s) = sq_WarmupResponses s" "lr_Config (seq_post ok r s) = lr_Config s"
  "lr_LatencyCollector (seq_post ok r s) = lr_LatencyCollector s" "lr_Calls (seq_post ok r s) = lr_Calls s"
  "lr_StopRequested (seq_post ok r s) = lr_StopRequested s" "lr_Results (seq_post ok r s) = lr_Results s"
  by (simp_all add: seq_post_def)

section \<open>Requests without a response\<close>

fun act_req :: "hand_act \<Rightarrow> seq_request list" where
  "act_req (H_StoreSeq r) = [r]"
| "act_req (H_StoreTimestamp r) = [r]"
| "act_req (H_Signal r) = [r]"
| "act_req _ = []"

definition reqs :: "hand_act list \<Rightarrow> seq_request list" where
  "reqs t = concat (map act_req t)"

definition hand_reqs :: "hand_act list list \<Rightarrow> seq_request list" where
  "hand_reqs hs = concat (map reqs hs)"

lemma reqs_simps [simp]: "reqs [] = []" "reqs (a # k) = act_req a @ reqs k" "reqs (xs @ ys) = reqs xs @ reqs ys"
  by (simp_all add: reqs_def)

definition pending :: "seq_run \<Rightarrow> hand_act list list \<Rightarrow> seq_request list" where
  "pending s hs = sq_Inflight s @ hand_reqs hs"

text \<open>What the next action of the runner relies on while no wait has timed out.\<close>

definition alone :: "seq_run \<Rightarrow> seq_request list \<Rightarrow> seq_request \<Rightarrow> bool" where
  "alone s p r \<longleftrightarrow> set p \<subseteq> {r} \<and> length p + (if sq_ResponseWaiter s then 1 else 0) \<le> 1 \<and>
     (sq_ResponseWaiter s \<longrightarrow> sq_LastReq s = Some r)"

abbreviation warmed :: "seq_run \<Rightarrow> bool" where
  "warmed s \<equiv> lr_StopRequested s \<or> sq_WarmupResponses s = cf_warmupIterations (lr_Config s)"

definition runner_ok :: "seq_run \<Rightarrow> seq_request list \<Rightarrow> seq_act \<Rightarrow> bool" where
  "runner_ok s p a = (let fresh = (p = [] \<and> sq_WarmupResponses s = 0); W = cf_warmupIterations (lr_Config s) in
     case a of
       Q_Begin \<Rightarrow> fresh | Q_ConnectStart \<Rightarrow> fresh | Q_Create _ \<Rightarrow> fresh | Q_ConnectWait _ \<Rightarrow> fresh
     | Q_SetPacketHandler \<Rightarrow> fresh | Q_WarmupStart \<Rightarrow> fresh | Q_WarmupClock \<Rightarrow> fresh
     | Q_Warmup i _ \<Rightarrow> p = [] \<and> sq_WarmupResponses s = i \<and> i \<le> W
     | Q_WarmupReset i _ \<Rightarrow> p = [] \<and> sq_WarmupResponses s = i \<and> i < W
     | Q_WarmupSend i _ \<Rightarrow> p = [] \<and> \<not> sq_ResponseWaiter s \<and> sq_WarmupResponses s = i \<and> i < W
     | Q_WarmupWait r _ \<Rightarrow> alone s p r \<and> sq_WarmupResponses s = sr_Index r \<and> sr_Index r < W
     | Q_Running \<Rightarrow> warmed s \<and> p = []
     | Q_Measure \<Rightarrow> warmed s \<and> p = []
     | Q_Loop i _ \<Rightarrow> warmed s \<and> p = [] \<and> length (sq_Measured s) = i
     | Q_Reset i _ \<Rightarrow> warmed s \<and> p = [] \<and> length (sq_Measured s) = i
     | Q_Clock i _ \<Rightarrow> warmed s \<and> p = [] \<and> \<not> sq_ResponseWaiter s \<and> length (sq_Measured s) = i
     | Q_Send r _ \<Rightarrow> warmed s \<and> p = [] \<and> \<not> sq_ResponseWaiter s \<and> length (sq_Measured s) = sr_Index r
     | Q_Wait r _ \<Rightarrow> warmed s \<and> alone s p r \<and> length (sq_Measured s) = sr_Index r
     | Q_Sample r _ \<Rightarrow> warmed s \<and> p = [] \<and> sq_LastReq s = Some r \<and> length (sq_Measured s) = sr_Index r
     | Q_Results _ \<Rightarrow> warmed s \<and> (lr_StopRequested s \<or> length (sq_Measured s) = cf_iterations (lr_Config s))
     | _ \<Rightarrow> True)"

text \<open>What it relies on in any case: the samples so far are of earlier requests.\<close>

abbreviation earlier :: "seq_run \<Rightarrow> nat \<Rightarrow> bool" where
  "earlier s n \<equiv> (\<forall>x\<in>set (sq_Measured s). sr_Index (fst x) < n)"

text \<open>Results of the samples so far, and whether they are of all requests.\<close>

definition seq_good :: "seq_run \<Rightarrow> BenchmarkStats \<Rightarrow> bool" where
  "seq_good s st \<longleftrightarrow> bs_iterations st = length (sq_Measured s) \<and> bs_measuredResponses st = length (sq_Measured s) \<and>
     bs_measuredRequests st = cf_iterations (lr_Config s) \<and>
     (\<not> sq_TimedOut s \<and> \<not> lr_StopRequested s \<longrightarrow>
        length (sq_Measured s) = cf_iterations (lr_Config s) \<and> bs_warmupResponses st = cf_warmupIterations (lr_Config s))"

definition order_ok :: "seq_run \<Rightarrow> seq_act \<Rightarrow> bool" where
  "order_ok s a = (let n = cf_iterations (lr_Config s); next = (\<lambda>r. earlier s (sr_Index r) \<and> sr_Index r < n \<and> sr_Measured r) in
     case a of
       Q_Loop i _ \<Rightarrow> earlier s i \<and> i \<le> n
     | Q_Reset i _ \<Rightarrow> earlier s i \<and> i < n
     | Q_Clock i _ \<Rightarrow> earlier s i \<and> i < n
     | Q_Send r _ \<Rightarrow> next r
     | Q_Wait r _ \<Rightarrow> next r
     | Q_Sample r _ \<Rightarrow> next r
     | Q_Begin \<Rightarrow> sq_Measured s = [] | Q_ConnectStart \<Rightarrow> sq_Measured s = [] | Q_Create _ \<Rightarrow> sq_Measured s = []
     | Q_ConnectWait _ \<Rightarrow> sq_Measured s = [] | Q_SetPacketHandler \<Rightarrow> sq_Measured s = [] | Q_WarmupStart \<Rightarrow> sq_Measured s = []
     | Q_WarmupClock \<Rightarrow> sq_Measured s = [] | Q_Warmup _ _ \<Rightarrow> sq_Measured s = [] | Q_WarmupReset _ _ \<Rightarrow> sq_Measured s = []
     | Q_WarmupSend _ _ \<Rightarrow> sq_Measured s = [] | Q_WarmupWait _ _ \<Rightarrow> sq_Measured s = [] | Q_Running \<Rightarrow> sq_Measured s = []
     | Q_Measure \<Rightarrow> sq_Measured s = []
     | Q_Completed \<Rightarrow> seq_good s (lr_Results s)
     | _ \<Rightarrow> True)"

text \<open>Of the actions the runner still has to do, at most one relies on anything.\<close>

definition idle :: "seq_act \<Rightarrow> bool" where
  "idle a = (case a of Q_Progress _ \<Rightarrow> True | Q_SetDrain \<Rightarrow> True | Q_Disconnect \<Rightarrow> True | Q_DrainWait \<Rightarrow> True
     | Q_Throw _ \<Rightarrow> True | Q_Unwind \<Rightarrow> True | Q_SetState _ \<Rightarrow> True | Q_StoreState _ \<Rightarrow> True | Q_Error _ \<Rightarrow> True | _ \<Rightarrow> False)"

definition one_core :: "seq_act list \<Rightarrow> bool" where
  "one_core m \<longleftrightarrow> length (filter (\<lambda>a. \<not> idle a) m) \<le> 1"

definition hand_ok :: "seq_run \<Rightarrow> hand_act list list \<Rightarrow> bool" where
  "hand_ok s hs \<longleftrightarrow> length (pending s hs) \<le> 1 \<and>
     (\<forall>t\<in>set hs. \<forall>r. H_StoreTimestamp r \<in> set t \<or> H_Signal r \<in> set t \<longrightarrow> sq_LastReq s = Some r)"

definition seq_samples_ok :: "seq_run \<Rightarrow> bool" where
  "seq_samples_ok s \<longleftrightarrow>
     lc_Samples (lr_LatencyCollector s) = map (\<lambda>(r, t, _). t - sr_Time r) (sq_Measured s) \<and>
     sorted_wrt (<) (map (sr_Index \<circ> fst) (sq_Measured s)) \<and>
     (\<forall>x\<in>set (sq_Measured s). sr_Measured (fst x) \<and> sr_Index (fst x) < cf_iterations (lr_Config s) \<and>
        (\<not> sq_TimedOut s \<longrightarrow> snd (snd x) = Some (fst x)))"

definition seq_inv :: "seq_state \<Rightarrow> bool" where
  "seq_inv x \<longleftrightarrow> (case x of (s, m, hs) \<Rightarrow>
     one_core m \<and> seq_samples_ok s \<and> (\<forall>a\<in>set m. order_ok s a) \<and>
     (\<forall>st. CB_Completed st \<in> set (lr_Calls s) \<longrightarrow> filter (\<lambda>a. \<not> idle a) m = [] \<and> seq_good s st) \<and>
     (\<not> sq_TimedOut s \<longrightarrow> (\<forall>a\<in>set m. runner_ok s (pending s hs) a) \<and> hand_ok s hs))"

section \<open>One action of the runner\<close>

lemma idle_step:
  assumes "seq_do d ch a s = Some (new, s')" "idle a"
  shows "list_all idle new" "sq_Inflight s' = sq_Inflight s" "sq_ResponseWaiter s' = sq_ResponseWaiter s" "sq_LastReq s' = sq_LastReq s"
    "sq_TimedOut s' = sq_TimedOut s" "sq_Measured s' = sq_Measured s" "sq_WarmupResponses s' = sq_WarmupResponses s"
    "lr_StopRequested s' = lr_StopRequested s" "lr_Config s' = lr_Config s" "lr_Results s' = lr_Results s"
    "lr_LatencyCollector s' = lr_LatencyCollector s" "CB_Completed st \<in> set (lr_Calls s') \<longleftrightarrow> CB_Completed st \<in> set (lr_Calls s)"
  using assms by (cases a; auto simp: idle_def split: if_splits)+

lemma core_step_shape:
  assumes "seq_do d ch a s = Some (new, s')"
  shows "length (filter (\<lambda>a. \<not> idle a) new) \<le> 1" "sq_TimedOut s \<longrightarrow> sq_TimedOut s'" "lr_Config s' = lr_Config s"
  using assms by (cases a; auto simp: idle_def Let_def split: if_splits option.splits bool.splits)+

lemma core_same:
  assumes "seq_do d ch a s = Some (new, s')" "\<And>r t. a \<noteq> Q_Sample r t"
  shows "sq_Measured s' = sq_Measured s" "lr_LatencyCollector s' = lr_LatencyCollector s"
  using assms by (cases a; auto simp: Let_def split: if_splits option.splits bool.splits)+

lemma core_samples:
  assumes "seq_do d ch a s = Some (new, s')" "order_ok s a" "seq_samples_ok s" "\<not> sq_TimedOut s \<longrightarrow> runner_ok s p a"
  shows "seq_samples_ok s'"
proof (cases "\<exists>r t. a = Q_Sample r t")
  case True
  then obtain r t where a: "a = Q_Sample r t" by blast
  then have "earlier s (sr_Index r)" "sr_Index r < cf_iterations (lr_Config s)" "sr_Measured r" "\<not> sq_TimedOut s \<longrightarrow> sq_LastReq s = Some r"
    using assms(2,4) by (simp_all add: order_ok_def runner_ok_def Let_def)
  moreover have "sq_Measured s' = sq_Measured s @ [(r, sc_Now ch, sq_LastReq s)]" "sq_TimedOut s' = sq_TimedOut s" "lr_Config s' = lr_Config s"
    "lc_Samples (lr_LatencyCollector s') = lc_Samples (lr_LatencyCollector s) @ [sc_Now ch - sr_Time r]"
    using assms(1) by (auto simp: a AddSample_def)
  ultimately show ?thesis using assms(3) by (simp add: seq_samples_ok_def sorted_wrt_append)
next
  case False
  then show ?thesis using core_same[OF assms(1)] core_step_shape(2,3)[OF assms(1)] assms(3) by (auto simp: seq_samples_ok_def)
qed

lemma core_order:
  assumes "seq_do d ch a s = Some (new, s')" "order_ok s a" "b \<in> set new" "b \<noteq> Q_Completed"
  shows "order_ok s' b"
  using assms by (cases a) (auto simp: order_ok_def Let_def less_Suc_eq split: if_splits option.splits bool.splits)

lemma wait_done [simp]:
  "BenchmarkWaiter_Wait t w = None \<longleftrightarrow> \<not> w \<and> \<not> t" "BenchmarkWaiter_Wait t w = Some b \<longleftrightarrow> (b = w \<and> (w \<or> t))"
  by (auto simp: BenchmarkWaiter_Wait_def)

lemma core_runner:
  assumes "seq_do d ch a s = Some (new, s')" "runner_ok s (pending s hs) a" "order_ok s a" "\<not> sq_TimedOut s'" "b \<in> set new"
  shows "runner_ok s' (pending s' hs) b"
  using assms
  by (cases a) (auto simp: runner_ok_def order_ok_def alone_def pending_def BenchmarkWaiter_Reset_def Let_def split: if_splits option.splits bool.splits)

lemma core_pending:
  assumes "seq_do d ch a s = Some (new, s')" "runner_ok s (pending s hs) a" "length (pending s hs) \<le> 1"
  shows "length (pending s' hs) \<le> 1"
  using assms by (cases a) (auto simp: runner_ok_def pending_def Let_def split: if_splits option.splits bool.splits)

lemma results_step:
  assumes "seq_do d ch (Q_Results t0) s = Some (new, s')" "runner_ok s p (Q_Results t0) \<or> sq_TimedOut s" "seq_samples_ok s"
  shows "seq_good s' (lr_Results s')"
proof -
  have n: "length (lc_Samples (lr_LatencyCollector s)) = length (sq_Measured s)" using assms(3) by (simp add: seq_samples_ok_def)
  have i: "bs_iterations (Calculate t k lc) = length (lc_Samples lc)" for t k lc
    by (simp add: Calculate_def BenchmarkStats_default_def Let_def)
  have "seq_good s (sequential_results d (sc_Now ch - t0) s)"
    using assms(2) by (auto simp: seq_good_def sequential_results_def Let_def i n runner_ok_def)
  then show ?thesis using assms(1) by (auto simp: seq_good_def)
qed

lemma completed_calls:
  assumes "seq_do d ch a s = Some (new, s')" "CB_Completed st \<in> set (lr_Calls s')"
  shows "CB_Completed st \<in> set (lr_Calls s) \<or> a = Q_Completed \<and> st = lr_Results s \<and> s' = call_back (has_onCompleted (lr_Callbacks s)) (CB_Completed (lr_Results s)) s \<and> new = []"
  using assms by (cases a) (auto simp: Let_def seq_post_def split: if_splits option.splits bool.splits)

lemma same_facts:
  assumes "sq_ResponseWaiter s' = sq_ResponseWaiter s" "sq_LastReq s' = sq_LastReq s" "sq_TimedOut s' = sq_TimedOut s"
    "sq_Measured s' = sq_Measured s" "sq_WarmupResponses s' = sq_WarmupResponses s" "lr_StopRequested s' = lr_StopRequested s"
    "lr_Config s' = lr_Config s" "lr_Results s' = lr_Results s"
  shows "runner_ok s' p a = runner_ok s p a" "order_ok s' a = order_ok s a" "seq_good s' st = seq_good s st"
  using assms by (cases a; simp add: runner_ok_def order_ok_def seq_good_def alone_def Let_def)+

lemma completed_follows:
  "seq_do d ch a s = Some (new, s') \<Longrightarrow> Q_Completed \<in> set new \<Longrightarrow> \<exists>t0. a = Q_Results t0"
  by (cases a) (auto simp: Let_def split: if_splits option.splits bool.splits)

lemma seq_runner_inv:
  assumes inv: "seq_inv (s, a # k, hs)" and do: "seq_do d ch a s = Some (new, s')"
  shows "seq_inv (s', new @ k, hs)"
proof (cases "idle a")
  case True
  note i = idle_step[OF do True]
  note f = same_facts[OF i(3,4,5,6,7,8,9,10)]
  have new: "idle b" if "b \<in> set new" for b using i(1) that by (simp add: list_all_iff)
  have triv: "idle b \<Longrightarrow> order_ok s b \<and> runner_ok s p b" for b p by (cases b) (simp_all add: idle_def order_ok_def runner_ok_def Let_def)
  have "filter (\<lambda>a. \<not> idle a) (new @ k) = filter (\<lambda>a. \<not> idle a) (a # k)" using True new by simp
  moreover have "seq_samples_ok s'" using inv i(5,6,9,11) by (simp add: seq_inv_def seq_samples_ok_def)
  ultimately show ?thesis using inv new triv i(4,5,12)
    by (auto simp: seq_inv_def one_core_def f pending_def i(2) hand_ok_def)
next
  case False
  then have k: "\<And>b. b \<in> set k \<Longrightarrow> idle b" using inv by (auto simp: seq_inv_def one_core_def filter_empty_conv)
  have triv: "idle b \<Longrightarrow> order_ok x b \<and> runner_ok x p b" for x b p by (cases b) (simp_all add: idle_def order_ok_def runner_ok_def Let_def)
  have a: "order_ok s a" "sq_TimedOut s \<or> runner_ok s (pending s hs) a" "seq_samples_ok s" using inv by (auto simp: seq_inv_def)
  have fk: "filter (\<lambda>a. \<not> idle a) k = []" using k by (simp add: filter_empty_conv)
  have shape: "one_core (new @ k)" using core_step_shape(1)[OF do] fk by (simp add: one_core_def)
  have none: "CB_Completed st \<notin> set (lr_Calls s)" for st using inv False by (auto simp: seq_inv_def)
  have smp: "seq_samples_ok s'" by (rule core_samples[OF do a(1,3), of "pending s hs"]) (use a(2) in blast)
  have ord: "order_ok s' b" if nb: "b \<in> set new" for b
  proof (cases "b = Q_Completed")
    case True
    then obtain t0 where "a = Q_Results t0" using completed_follows[OF do] nb by blast
    then have "seq_good s' (lr_Results s')" using results_step[of d ch t0 s new s' "pending s hs"] do a by blast
    then show ?thesis by (simp add: True order_ok_def)
  qed (rule core_order[OF do a(1) nb])
  have run: "runner_ok s' (pending s' hs) b" if "\<not> sq_TimedOut s'" "b \<in> set new" for b
    using core_runner[OF do _ a(1) that] a(2) core_step_shape(2)[OF do] that(1) by blast
  have last: "sq_LastReq s' = sq_LastReq s" using do by (cases a) (auto simp: Let_def split: if_splits option.splits bool.splits)
  have comp: "filter (\<lambda>a. \<not> idle a) (new @ k) = [] \<and> seq_good s' st" if "CB_Completed st \<in> set (lr_Calls s')" for st
  proof -
    have c: "a = Q_Completed" "st = lr_Results s" "s' = call_back (has_onCompleted (lr_Callbacks s)) (CB_Completed (lr_Results s)) s" "new = []"
      using completed_calls[OF do that] none by auto
    have "seq_good s (lr_Results s)" using a(1) by (simp add: c(1) order_ok_def)
    then show ?thesis using c(2,4) fk by (simp add: c(3) seq_good_def)
  qed
  have "hand_ok s' hs" if "\<not> sq_TimedOut s'"
    using inv that core_step_shape(2)[OF do] core_pending[OF do] by (auto simp: seq_inv_def hand_ok_def last)
  then show ?thesis using shape smp ord run comp k triv by (auto simp: seq_inv_def)
qed

section \<open>One action of a handler\<close>

lemma hand_same:
  assumes "hand_do a s = (new, s')"
  shows "sq_Inflight s' = sq_Inflight s" "sq_TimedOut s' = sq_TimedOut s" "sq_Measured s' = sq_Measured s"
    "sq_WarmupResponses s' = sq_WarmupResponses s" "lr_StopRequested s' = lr_StopRequested s" "lr_Config s' = lr_Config s"
    "lr_Results s' = lr_Results s" "lr_LatencyCollector s' = lr_LatencyCollector s"
    "CB_Completed st \<in> set (lr_Calls s') \<longleftrightarrow> CB_Completed st \<in> set (lr_Calls s)"
  using assms by (cases a; auto split: if_splits)+

lemma hand_effect:
  assumes "hand_do a s = (new, s')"
  shows "(reqs new = act_req a \<and> sq_ResponseWaiter s' = sq_ResponseWaiter s \<and> (sq_LastReq s' = sq_LastReq s \<or> act_req a \<noteq> [])) \<or>
    (\<exists>r. a = H_Signal r \<and> new = [] \<and> sq_ResponseWaiter s' \<and> sq_LastReq s' = sq_LastReq s)"
  using assms by (cases a) (auto simp: BenchmarkWaiter_Signal_def split: if_splits)

lemma hand_last:
  assumes "hand_do a s = (new, s')" "H_StoreTimestamp r \<in> set new \<or> H_Signal r \<in> set new"
    "\<And>q. a = H_StoreTimestamp q \<Longrightarrow> sq_LastReq s = Some q"
  shows "sq_LastReq s' = Some r"
  using assms by (cases a) (auto split: if_splits)

lemma hand_keeps_last:
  assumes "hand_do a s = (new, s')" "\<And>q. a \<noteq> H_StoreSeq q"
  shows "sq_LastReq s' = sq_LastReq s"
  using assms by (cases a) (auto split: if_splits)

lemma hand_reqs_simps [simp]: "hand_reqs [] = []" "hand_reqs (t # ts) = reqs t @ hand_reqs ts"
  "hand_reqs (us @ ts) = hand_reqs us @ hand_reqs ts"
  by (simp_all add: hand_reqs_def)

text \<open>The runner never waits for two requests, so that a handler with a response is the only one.\<close>

lemma alone_hand:
  assumes "alone s (sq_Inflight s @ hand_reqs (us @ (a # k) # vs)) r" "hand_do a s = (new, s')"
    "\<And>q. a = H_Signal q \<Longrightarrow> sq_LastReq s = Some q"
  shows "alone s' (sq_Inflight s' @ hand_reqs (us @ (new @ k) # vs)) r"
  using hand_effect[OF assms(2)] assms(1,3) hand_same(1)[OF assms(2)]
  by (cases "act_req a") (auto simp: alone_def split: if_splits)

lemma quiet_hand:
  assumes "sq_Inflight s @ hand_reqs (us @ (a # k) # vs) = []" "hand_do a s = (new, s')"
  shows "sq_Inflight s' @ hand_reqs (us @ (new @ k) # vs) = []" "sq_ResponseWaiter s' = sq_ResponseWaiter s" "sq_LastReq s' = sq_LastReq s"
  using hand_effect[OF assms(2)] assms(1) hand_same(1)[OF assms(2)] by auto

lemma runner_hand:
  assumes "runner_ok s (pending s (us @ (a # k) # vs)) b" "hand_do a s = (new, s')" "\<And>q. a = H_Signal q \<Longrightarrow> sq_LastReq s = Some q"
  shows "runner_ok s' (pending s' (us @ (new @ k) # vs)) b"
proof -
  let ?p = "pending s (us @ (a # k) # vs)" and ?p' = "pending s' (us @ (new @ k) # vs)"
  note h = hand_same[OF assms(2)]
  show ?thesis
  proof (cases "?p = []")
    case True
    note q = quiet_hand[OF True[unfolded pending_def] assms(2)]
    have "?p' = []" using q(1) by (simp only: pending_def)
    then show ?thesis using assms(1) True same_facts(1)[OF q(2,3) h(2,3,4,5,6,7)] by simp
  next
    case False
    have al: "alone s' ?p' r" if "alone s ?p r" for r
      using alone_hand[OF that[unfolded pending_def] assms(2,3)] by (simp only: pending_def)
    show ?thesis using assms(1) False al by (cases b) (simp_all add: runner_ok_def h Let_def)
  qed
qed

lemma in_reqs: "t \<in> set hs \<Longrightarrow> a \<in> set t \<Longrightarrow> r \<in> set (act_req a) \<Longrightarrow> r \<in> set (hand_reqs hs)"
  by (auto simp: hand_reqs_def reqs_def)

lemma hand_ok_step:
  assumes ok: "hand_ok s (us @ (a # k) # vs)" and do: "hand_do a s = (new, s')"
  shows "hand_ok s' (us @ (new @ k) # vs)"
proof -
  let ?hs = "us @ (a # k) # vs" and ?hs' = "us @ (new @ k) # vs"
  note h = hand_same[OF do]
  have len: "length (pending s' ?hs') \<le> 1"
    using ok hand_effect[OF do] by (auto simp: hand_ok_def pending_def h)
  have "sq_LastReq s' = Some r" if t: "t \<in> set ?hs'" "H_StoreTimestamp r \<in> set t \<or> H_Signal r \<in> set t" for t r
  proof (cases "\<exists>q. a = H_StoreSeq q")
    case True
    then obtain q where q: "new = [H_StoreTimestamp q]" "sq_LastReq s' = Some q" using do by auto
    have "r \<in> set (pending s' ?hs')" "q \<in> set (pending s' ?hs')"
      using in_reqs[OF t(1), of "H_StoreTimestamp r" r] in_reqs[OF t(1), of "H_Signal r" r] t(2) by (auto simp: pending_def q(1))
    then have "r = q" using len by (cases "pending s' ?hs'") auto
    then show ?thesis using q(2) by simp
  next
    case False
    then have same: "sq_LastReq s' = sq_LastReq s" using hand_keeps_last[OF do] by blast
    show ?thesis
    proof (cases "H_StoreTimestamp r \<in> set new \<or> H_Signal r \<in> set new")
      case True
      then show ?thesis using hand_last[OF do] ok by (auto simp: hand_ok_def)
    next
      case False
      then have "\<exists>u\<in>set ?hs. H_StoreTimestamp r \<in> set u \<or> H_Signal r \<in> set u" using t by auto
      then show ?thesis using ok same by (auto simp: hand_ok_def)
    qed
  qed
  then show ?thesis using len by (auto simp: hand_ok_def)
qed

lemma seq_hand_inv:
  assumes inv: "seq_inv (s, m, us @ (a # k) # vs)" and do: "hand_do a s = (new, s')"
  shows "seq_inv (s', m, us @ (new @ k) # vs)"
proof -
  note h = hand_same[OF do]
  have "order_ok s' b = order_ok s b" "seq_good s' st = seq_good s st" for b st
    by (cases b; simp add: order_ok_def seq_good_def h Let_def) (simp add: seq_good_def h)
  moreover have "seq_samples_ok s' = seq_samples_ok s" by (simp add: seq_samples_ok_def h)
  moreover have "sq_LastReq s = Some q" if "\<not> sq_TimedOut s" "a = H_Signal q" for q
    using inv that by (auto simp: seq_inv_def hand_ok_def)
  ultimately show ?thesis using inv runner_hand[OF _ do] hand_ok_step[OF _ do] by (auto simp: seq_inv_def h)
qed

section \<open>Histories\<close>

lemma seq_event_inv:
  assumes inv: "seq_inv (s, m, hs)" and st: "lr_StopRequested s \<longrightarrow> lr_StopRequested s'"
    and same: "sq_ResponseWaiter s' = sq_ResponseWaiter s" "sq_LastReq s' = sq_LastReq s" "sq_TimedOut s' = sq_TimedOut s"
    "sq_Measured s' = sq_Measured s" "sq_WarmupResponses s' = sq_WarmupResponses s" "lr_Config s' = lr_Config s"
    "lr_Results s' = lr_Results s" "lr_LatencyCollector s' = lr_LatencyCollector s" "lr_Calls s' = lr_Calls s"
    and p: "length (pending s' (hs @ us)) \<le> length (pending s hs)" "set (pending s' (hs @ us)) \<subseteq> set (pending s hs)"
    and us: "\<And>t r. t \<in> set us \<Longrightarrow> H_StoreTimestamp r \<notin> set t \<and> H_Signal r \<notin> set t"
  shows "seq_inv (s', m, hs @ us)"
proof -
  have e: "pending s' (hs @ us) = []" if "pending s hs = []" using p(1) that by simp
  have run: "runner_ok s' (pending s' (hs @ us)) b" if "runner_ok s (pending s hs) b" for b
    using that p e st by (cases b) (auto simp: runner_ok_def alone_def Let_def same)
  have ord: "order_ok s' b" if "order_ok s b" for b
    using that st by (cases b) (auto simp: order_ok_def seq_good_def Let_def same)
  have "hand_ok s' (hs @ us)" if "hand_ok s hs" using that p(1) us by (auto simp: hand_ok_def same)
  moreover have "seq_good s' x" if "seq_good s x" for x using that st by (auto simp: seq_good_def same)
  moreover have "seq_samples_ok s' = seq_samples_ok s" by (simp add: seq_samples_ok_def same)
  ultimately show ?thesis using inv run ord by (auto simp: seq_inv_def same)
qed

lemma dangling_seq [simp]: "seq_inv (s\<lparr>sq_Dangling := x\<rparr>, m, hs) = seq_inv (s, m, hs)"
proof -
  have "order_ok (s\<lparr>sq_Dangling := x\<rparr>) b = order_ok s b" "runner_ok (s\<lparr>sq_Dangling := x\<rparr>) p b = runner_ok s p b" for b p
    by (cases b; simp add: order_ok_def seq_good_def runner_ok_def alone_def Let_def)+
  then show ?thesis by (simp add: seq_inv_def seq_good_def seq_samples_ok_def hand_ok_def pending_def)
qed

lemma seq_exec_inv:
  assumes inv: "seq_inv (s, m, hs)" and ex: "seq_exec d e (s, m, hs) = Some x"
  shows "seq_inv x"
proof (cases e)
  case (SE_Runner ch)
  then show ?thesis using ex inv seq_runner_inv by (auto split: list.splits option.splits)
next
  case (SE_Handler i)
  then obtain a k new s' where i: "i < length hs" "hs ! i = a # k" and do: "hand_do a s = (new, s')"
    and x: "x = (s'\<lparr>sq_Dangling := sq_Dangling s' \<or> sq_Returned s \<and> hand_touches a\<rparr>, m, hs[i := new @ k])"
    using ex by (auto split: if_splits list.splits prod.splits)
  note t = thread_split[OF i]
  have "seq_inv (s, m, take i hs @ (a # k) # drop (Suc i) hs)" using inv t(1) by simp
  then show ?thesis using seq_hand_inv[OF _ do] by (simp add: x t(2))
next
  case SE_Stop
  then show ?thesis using ex seq_event_inv[OF inv, of "s\<lparr>lr_StopRequested := True\<rparr>" "[]"] by (auto simp: pending_def)
next
  case SE_Connected
  then show ?thesis using ex seq_event_inv[OF inv, of "s\<lparr>sq_ConnectTold := True\<rparr>" "[[H_Connected]]"]
    by (auto simp: pending_def split: if_splits)
next
  case SE_Disconnected
  then show ?thesis
    using ex seq_event_inv[OF inv, of "s\<lparr>sq_DisconnectTold := True\<rparr>" "[[H_DiscCheck]]"]
      seq_event_inv[OF inv, of "s\<lparr>sq_DisconnectTold := True, sq_Drained := True\<rparr>" "[]"]
    by (auto simp: pending_def Let_def split: if_splits)
next
  case (SE_Packet packetId parsed)
  show ?thesis
  proof (cases "packetId \<noteq> PACKET_ID_BENCHMARK_RESPONSE \<or> \<not> parsed")
    case True
    then show ?thesis using ex inv SE_Packet by (auto split: if_splits)
  next
    case False
    then obtain r rs where r: "sq_Inflight s = r # rs"
      and x: "x = (if sq_PacketHandler s then (s\<lparr>sq_Inflight := rs, sq_InCallback := True\<rparr>, m, hs @ [[H_StoreSeq r, H_End]])
        else (s\<lparr>sq_Inflight := rs\<rparr>, m, hs))"
      using ex SE_Packet by (auto split: if_splits list.splits)
    show ?thesis
      using seq_event_inv[OF inv, of "s\<lparr>sq_Inflight := rs, sq_InCallback := True\<rparr>" "[[H_StoreSeq r, H_End]]"]
        seq_event_inv[OF inv, of "s\<lparr>sq_Inflight := rs\<rparr>" "[]"]
      by (auto simp: pending_def r x)
  qed
qed

lemma seq_run_inv: "seq_inv x \<Longrightarrow> seq_run_all d es x = Some y \<Longrightarrow> seq_inv y"
proof (induction es arbitrary: x)
  case (Cons e es)
  then obtain x1 where x1: "seq_exec d e x = Some x1" "seq_run_all d es x1 = Some y" by (auto split: option.splits)
  obtain s m hs where "x = (s, m, hs)" by (cases x) auto
  then have "seq_inv x1" using seq_exec_inv Cons.prems(1) x1(1) by blast
  then show ?case using Cons.IH x1(2) by blast
qed simp

lemma seq_inv_init:
  assumes "LatencyBenchmarkRunner_Start cfg cb r0 = Some (True, r)" "lr_Calls r0 = []"
  shows "seq_inv (seq_init r)"
proof -
  have "lr_Calls r = []" "lc_Samples (lr_LatencyCollector r) = []"
    using assms by (auto simp: LatencyBenchmarkRunner_Start_def LatencyCollector_Clear_def Let_def split: if_splits)
  then show ?thesis
    by (simp add: seq_inv_def seq_init_def LatencyBenchmarkRunner.defs one_core_def seq_samples_ok_def order_ok_def runner_ok_def
        hand_ok_def pending_def Let_def)
qed

section \<open>What the run measures\<close>

text \<open>C27: in every history of a run over one session the samples are of different requests, in the order
  of their numbers, each the time from the sending of its request to the end of the wait; as long as
  no wait has timed out, each wait ended with the response to this very request. The results
  reported at the end count the samples, and without a timeout or a stop there is one for
  every request.\<close>

theorem sequential_run_measures:
  assumes "LatencyBenchmarkRunner_Start cfg cb r0 = Some (True, r)" "lr_Calls r0 = []"
    "seq_run_all d es (seq_init r) = Some (s, m, hs)"
  shows "lc_Samples (lr_LatencyCollector s) = map (\<lambda>(q, t, _). t - sr_Time q) (sq_Measured s) \<and>
    sorted_wrt (<) (map (sr_Index \<circ> fst) (sq_Measured s)) \<and>
    (\<forall>x\<in>set (sq_Measured s). sr_Index (fst x) < cf_iterations (lr_Config s)) \<and>
    (\<not> sq_TimedOut s \<longrightarrow> (\<forall>x\<in>set (sq_Measured s). snd (snd x) = Some (fst x))) \<and>
    (\<forall>st. CB_Completed st \<in> set (lr_Calls s) \<longrightarrow> bs_measuredResponses st = length (sq_Measured s) \<and>
      (\<not> sq_TimedOut s \<and> \<not> lr_StopRequested s \<longrightarrow> bs_iterations st = cf_iterations (lr_Config s)))"
proof -
  have "seq_inv (s, m, hs)" using seq_run_inv[OF seq_inv_init[OF assms(1,2)] assms(3)] .
  then show ?thesis by (auto simp: seq_inv_def seq_samples_ok_def seq_good_def)
qed

section \<open>Schedules\<close>

abbreviation run_on :: "nat \<Rightarrow> seq_event list" where
  "run_on n \<equiv> replicate n (SE_Runner \<lparr>sc_Now = 7, sc_Ok = True, sc_Timeout = False\<rparr>)"

abbreviation time_out :: "seq_event list" where
  "time_out \<equiv> [SE_Runner \<lparr>sc_Now = 9, sc_Ok = True, sc_Timeout = True\<rparr>]"

definition single_config :: BenchmarkConfig where
  "single_config = BenchmarkConfig_default\<lparr>cf_iterations := 2, cf_warmupIterations := 0, cf_payloadPoolSize := 1\<rparr>"

definition single_callbacks :: BenchmarkCallbacks where
  "single_callbacks = \<lparr>has_onStateChanged = True, has_onProgress = False, has_onCompleted = True, has_onError = True\<rparr>"

definition single_runner :: LatencyBenchmarkRunner where
  "single_runner = LatencyBenchmarkRunner_ctor\<lparr>lr_Config := single_config, lr_Callbacks := single_callbacks, lr_RunnerThread := True\<rparr>"

text \<open>The session connects and the first request is sent.\<close>

definition first_request :: "seq_event list" where
  "first_request = run_on 5 @ [SE_Connected, SE_Handler 0] @ run_on 11"

abbreviation response :: "nat \<Rightarrow> seq_event list" where
  "response i \<equiv> SE_Packet PACKET_ID_BENCHMARK_RESPONSE True # replicate 4 (SE_Handler i)"

definition prompt_schedule :: "seq_event list" where
  "prompt_schedule = first_request @ response 1 @ run_on 7 @ response 2 @ run_on 8"

definition slow_schedule :: "seq_event list" where
  "slow_schedule = first_request @ time_out @ run_on 4 @ response 1 @ run_on 8"

lemma single_start: "LatencyBenchmarkRunner_Start single_config single_callbacks LatencyBenchmarkRunner_ctor = Some (True, single_runner)"
  by (simp add: LatencyBenchmarkRunner_Start_def LatencyBenchmarkRunner_ctor_def single_runner_def LatencyCollector_Clear_def
      LatencyCollector_ctor_def Let_def)

lemmas single_steps = first_request_def single_runner_def single_config_def single_callbacks_def LatencyBenchmarkRunner_ctor_def
  BenchmarkConfig_default_def seq_init_def LatencyBenchmarkRunner.defs call_back_def SetState_store_def report_error_def
  SetState_skips_def seq_post_def BenchmarkWaiter_Wait_def BenchmarkWaiter_Reset_def BenchmarkWaiter_Signal_def Let_def unroll_numeral

lemma prompt_run:
  "\<exists>s m hs st. seq_run_all (\<lambda>low high i. low) prompt_schedule (seq_init single_runner) = Some (s, m, hs) \<and>
     CB_Completed st \<in> set (lr_Calls s) \<and> \<not> sq_TimedOut s \<and> \<not> lr_StopRequested s \<and> lr_Config s = single_config"
  by (simp add: prompt_schedule_def single_steps)

theorem sequential_run_measures_witness:
  "\<exists>s m hs st. seq_run_all (\<lambda>low high i. low) prompt_schedule (seq_init single_runner) = Some (s, m, hs) \<and>
     CB_Completed st \<in> set (lr_Calls s) \<and> bs_iterations st = 2"
proof -
  obtain s m hs st where s: "seq_run_all (\<lambda>low high i. low) prompt_schedule (seq_init single_runner) = Some (s, m, hs)"
    "CB_Completed st \<in> set (lr_Calls s)" "\<not> sq_TimedOut s" "\<not> lr_StopRequested s" "lr_Config s = single_config"
    using prompt_run by blast
  have "lr_Calls LatencyBenchmarkRunner_ctor = []" by (simp add: LatencyBenchmarkRunner_ctor_def)
  then have "bs_iterations st = cf_iterations (lr_Config s)"
    using sequential_run_measures[OF single_start _ s(1)] s(2-4) by blast
  then have "bs_iterations st = 2" by (simp add: s(5) single_config_def)
  then show ?thesis using s(1,2) by blast
qed

text \<open>The handler stores the sequence number of a response but nobody compares it. There is a history
  in which the wait for request 0 times out, its response arrives during the wait for request 1 and
  ends it: the only sample reported is the time from sending request 1 to the response to request 0.\<close>

theorem late_response_counted_for_next:
  "\<exists>es s m hs st q p t. seq_run_all (\<lambda>low high i. low) es (seq_init single_runner) = Some (s, m, hs) \<and>
     sq_Measured s = [(q, t, Some p)] \<and> sr_Index q = 1 \<and> sr_Index p = 0 \<and> CB_Completed st \<in> set (lr_Calls s) \<and>
     sq_LastReceivedSeq s \<noteq> of_nat (sr_Index q)"
proof -
  have "\<exists>s m hs st q p t. seq_run_all (\<lambda>low high i. low) slow_schedule (seq_init single_runner) = Some (s, m, hs) \<and>
     sq_Measured s = [(q, t, Some p)] \<and> sr_Index q = 1 \<and> sr_Index p = 0 \<and> CB_Completed st \<in> set (lr_Calls s) \<and>
     sq_LastReceivedSeq s \<noteq> of_nat (sr_Index q)"
    by (simp add: slow_schedule_def single_steps)
  then show ?thesis by blast
qed

end
