(* ===== verification/Benchmark_Main.thy ===== *)
theory Benchmark_Main
  imports Benchmark_Multi_Runs Benchmark_Sequential_Runs
begin

text \<open>
  The benchmark program (\<open>FastPortBenchmark/FastPortBenchmark.cpp\<close>): command line, progress, results file
  and \<open>main\<close>. Arguments are read with \<open>std::stoi\<close>, \<open>std::stoul\<close> and \<open>std::stoull\<close>, whose \<open>long\<close> has 32
  bits on Windows and whose exceptions nobody catches. Text printed on the console is not modelled.
\<close>

section \<open>std::stoi, std::stoul, std::stoull\<close>

datatype parse_error = invalid_argument | out_of_range

definition is_space :: "char \<Rightarrow> bool" where
  "is_space c \<longleftrightarrow> c \<in> {CHR '' '', CHR 0x09, CHR 0x0A, CHR 0x0B, CHR 0x0C, CHR 0x0D}"

definition is_digit :: "char \<Rightarrow> bool" where
  "is_digit c \<longleftrightarrow> 48 \<le> (of_char c :: nat) \<and> (of_char c :: nat) \<le> 57"

fun digits_value :: "nat \<Rightarrow> string \<Rightarrow> nat" where
  "digits_value n [] = n"
| "digits_value n (c # cs) = digits_value (10 * n + ((of_char c :: nat) - 48)) cs"

text \<open>White space, an optional sign, digits; what follows is ignored.\<close>

definition scan_number :: "string \<Rightarrow> (bool \<times> nat) option" where
  "scan_number s =
    (let t = dropWhile is_space s;
         neg = (t \<noteq> [] \<and> hd t = CHR ''-'');
         u = (if t \<noteq> [] \<and> (hd t = CHR ''-'' \<or> hd t = CHR ''+'') then tl t else t);
         ds = takeWhile is_digit u
     in if ds = [] then None else Some (neg, digits_value 0 ds))"

definition stoi :: "string \<Rightarrow> parse_error + int" where
  "stoi s = (case scan_number s of
      None \<Rightarrow> Inl invalid_argument
    | Some (neg, n) \<Rightarrow>
        let v = (if neg then - int n else int n)
        in if - (2 ^ 31) \<le> v \<and> v < 2 ^ 31 then Inr v else Inl out_of_range)"

definition stoul :: "string \<Rightarrow> parse_error + u32" where
  "stoul s = (case scan_number s of
      None \<Rightarrow> Inl invalid_argument
    | Some (neg, n) \<Rightarrow> if 2 ^ 32 \<le> n then Inl out_of_range else Inr (if neg then - of_nat n else of_nat n))"

definition stoull :: "string \<Rightarrow> parse_error + u64" where
  "stoull s = (case scan_number s of
      None \<Rightarrow> Inl invalid_argument
    | Some (neg, n) \<Rightarrow> if 2 ^ 64 \<le> n then Inl out_of_range else Inr (if neg then - of_nat n else of_nat n))"

section \<open>CommandLineArgs\<close>

record CommandLineArgs =
  ca_host :: string
  ca_port :: u16
  ca_iterations :: u64
  ca_warmup :: u64
  ca_payloadSize :: u64
  ca_payloadMinSize :: u64
  ca_payloadMaxSize :: u64
  ca_payloadPoolSize :: u64
  ca_sessionCount :: u64
  ca_ioThreadCount :: u32
  ca_outputFile :: string
  ca_verbose :: bool
  ca_help :: bool
  ca_useRio :: bool
  ca_pauseOnExit :: bool

definition CommandLineArgs_default :: CommandLineArgs where
  "CommandLineArgs_default = \<lparr>ca_host = ''127.0.0.1'', ca_port = 9000, ca_iterations = 10000, ca_warmup = 100,
     ca_payloadSize = 64, ca_payloadMinSize = 0, ca_payloadMaxSize = 0, ca_payloadPoolSize = 1024, ca_sessionCount = 1,
     ca_ioThreadCount = 2, ca_outputFile = [], ca_verbose = False, ca_help = False, ca_useRio = False,
     ca_pauseOnExit = False\<rparr>"

definition with_number :: "(parse_error + 'n) \<Rightarrow> ('n \<Rightarrow> CommandLineArgs) \<Rightarrow> parse_error + CommandLineArgs" where
  "with_number p f = (case p of Inl e \<Rightarrow> Inl e | Inr n \<Rightarrow> Inr (f n))"

text \<open>An option with a value; \<open>None\<close> when the argument is none of them.\<close>

definition parse_value :: "string \<Rightarrow> string \<Rightarrow> CommandLineArgs \<Rightarrow> (parse_error + CommandLineArgs) option" where
  "parse_value arg v args =
    (if arg = ''--host'' then Some (Inr (args\<lparr>ca_host := v\<rparr>))
     else if arg = ''--port'' then Some (with_number (stoi v) (\<lambda>n. args\<lparr>ca_port := of_int n\<rparr>))
     else if arg = ''--iterations'' then Some (with_number (stoull v) (\<lambda>n. args\<lparr>ca_iterations := n\<rparr>))
     else if arg = ''--warmup'' then Some (with_number (stoull v) (\<lambda>n. args\<lparr>ca_warmup := n\<rparr>))
     else if arg = ''--payload'' then Some (with_number (stoull v) (\<lambda>n. args\<lparr>ca_payloadSize := n\<rparr>))
     else if arg = ''--payload-min'' then Some (with_number (stoull v) (\<lambda>n. args\<lparr>ca_payloadMinSize := n\<rparr>))
     else if arg = ''--payload-max'' then Some (with_number (stoull v) (\<lambda>n. args\<lparr>ca_payloadMaxSize := n\<rparr>))
     else if arg = ''--payload-pool'' then Some (with_number (stoull v) (\<lambda>n. args\<lparr>ca_payloadPoolSize := n\<rparr>))
     else if arg = ''--sessions'' then Some (with_number (stoull v) (\<lambda>n. args\<lparr>ca_sessionCount := n\<rparr>))
     else if arg = ''--io-threads'' then Some (with_number (stoul v) (\<lambda>n. args\<lparr>ca_ioThreadCount := n\<rparr>))
     else if arg = ''--output'' then Some (Inr (args\<lparr>ca_outputFile := v\<rparr>))
     else if arg = ''--mode'' then Some (Inr (if v = ''rio'' then args\<lparr>ca_useRio := True\<rparr> else args))
     else None)"

definition parse_flag :: "string \<Rightarrow> CommandLineArgs \<Rightarrow> CommandLineArgs" where
  "parse_flag arg args =
    (if arg = ''--verbose'' then args\<lparr>ca_verbose := True\<rparr>
     else if arg = ''--pause-on-exit'' then args\<lparr>ca_pauseOnExit := True\<rparr>
     else if arg = ''--help'' \<or> arg = ''-h'' then args\<lparr>ca_help := True\<rparr>
     else args)"

fun parse_loop :: "CommandLineArgs \<Rightarrow> string list \<Rightarrow> parse_error + CommandLineArgs" where
  "parse_loop args [] = Inr args"
| "parse_loop args [arg] = Inr (parse_flag arg args)"
| "parse_loop args (arg # v # rest) =
     (case parse_value arg v args of
        Some (Inl e) \<Rightarrow> Inl e
      | Some (Inr args1) \<Rightarrow> parse_loop args1 rest
      | None \<Rightarrow> parse_loop (parse_flag arg args) (v # rest))"

text \<open>\<open>argv\<close> without the name of the program.\<close>

definition CommandLineArgs_Parse :: "string list \<Rightarrow> parse_error + CommandLineArgs" where
  "CommandLineArgs_Parse argv = parse_loop CommandLineArgs_default argv"

section \<open>Files and progress\<close>

definition rfind_dot :: "string \<Rightarrow> nat option" where
  "rfind_dot f = (let n = length (takeWhile (\<lambda>c. c \<noteq> CHR ''.'') (rev f)) in if n = length f then None else Some (length f - n - 1))"

definition AddTimestampToFilename :: "string \<Rightarrow> string \<Rightarrow> string" where
  "AddTimestampToFilename timestamp filename =
    (case rfind_dot filename of
       Some dotPos \<Rightarrow> take dotPos filename @ ''_'' @ timestamp @ drop dotPos filename
     | None \<Rightarrow> filename @ ''_'' @ timestamp)"

text \<open>The static variable is the last percentage shown; a total of zero is a division by zero.\<close>

definition PrintProgress :: "nat \<Rightarrow> nat \<Rightarrow> nat \<Rightarrow> (nat option \<times> nat) option" where
  "PrintProgress lastPercent current ntotal =
    (if ntotal = 0 then None
     else let percent = (current * 100) div ntotal
          in if percent \<noteq> lastPercent then Some (Some percent, percent) else Some (None, lastPercent))"

text \<open>The file that is written, if it can be opened: its name and its lines.\<close>

definition SaveResultsToCsv ::
    "(real \<Rightarrow> string) \<Rightarrow> (nat \<Rightarrow> string) \<Rightarrow> bool \<Rightarrow> string \<Rightarrow> string \<Rightarrow> BenchmarkStats list \<Rightarrow> (string \<times> string list) option" where
  "SaveResultsToCsv dbl num opens timestamp baseFilename results =
    (let filename = AddTimestampToFilename timestamp baseFilename
     in if \<not> opens then None else Some (filename, CsvHeader # map (ToCsv dbl num) results))"

section \<open>main\<close>

definition main_config :: "CommandLineArgs \<Rightarrow> BenchmarkConfig" where
  "main_config args = BenchmarkConfig_default\<lparr>cf_testName := ''LatencyTest'', cf_serverHost := ca_host args,
     cf_serverPort := ca_port args, cf_iterations := unat (ca_iterations args), cf_warmupIterations := unat (ca_warmup args),
     cf_payloadSize := unat (ca_payloadSize args), cf_payloadMinSize := unat (ca_payloadMinSize args),
     cf_payloadMaxSize := unat (ca_payloadMaxSize args), cf_payloadPoolSize := unat (ca_payloadPoolSize args),
     cf_sessionCount := unat (ca_sessionCount args), cf_ioThreadCount := ca_ioThreadCount args,
     cf_verbose := ca_verbose args, cf_useRio := ca_useRio args\<rparr>"

definition main_callbacks :: BenchmarkCallbacks where
  "main_callbacks = \<lparr>has_onStateChanged = True, has_onProgress = True, has_onCompleted = True, has_onError = True\<rparr>"

record main_locals =
  mn_allResults :: "BenchmarkStats list"
  mn_completed :: bool
  mn_finished :: bool

definition main_init :: main_locals where
  "main_init = \<lparr>mn_allResults = [], mn_completed = False, mn_finished = False\<rparr>"

text \<open>The callbacks, as far as they change the variables of \<open>main\<close>.\<close>

fun main_callback :: "callback_call \<Rightarrow> main_locals \<Rightarrow> main_locals" where
  "main_callback (CB_State st) v =
     (if st = BS_Completed then v\<lparr>mn_completed := True, mn_finished := True\<rparr>
      else if st = BS_Failed then v\<lparr>mn_finished := True\<rparr> else v)"
| "main_callback (CB_Progress _ _) v = v"
| "main_callback (CB_Completed stats) v = v\<lparr>mn_allResults := mn_allResults v @ [stats]\<rparr>"
| "main_callback (CB_Error _) v = v\<lparr>mn_finished := True\<rparr>"

text \<open>The thread that \<open>Start\<close> creates runs \<open>RunBenchmark\<close>: one of the two runs, from its beginning.\<close>

definition RunBenchmark :: "LatencyBenchmarkRunner \<Rightarrow> seq_state + (multi_run \<times> bench_threads)" where
  "RunBenchmark r = (if fixedSingleSession (lr_Config r) then Inl (seq_init r) else Inr (multi_init r))"

datatype main_outcome =
    Main_Uncaught parse_error
  | Main_Exit int "(string \<times> string list) option"
  | Main_Waits

text \<open>\<open>calls\<close> are the callbacks the runner has called until its thread was joined.\<close>

definition benchmark_main ::
    "(real \<Rightarrow> string) \<Rightarrow> (nat \<Rightarrow> string) \<Rightarrow> bool \<Rightarrow> string \<Rightarrow> callback_call list \<Rightarrow> string list \<Rightarrow> main_outcome" where
  "benchmark_main dbl num opens timestamp calls argv =
    (case CommandLineArgs_Parse argv of
       Inl e \<Rightarrow> Main_Uncaught e
     | Inr args \<Rightarrow>
         if ca_help args then Main_Exit 0 None
         else case LatencyBenchmarkRunner_Start (main_config args) main_callbacks LatencyBenchmarkRunner_ctor of
           Some (True, r) \<Rightarrow>
             (let v = fold main_callback calls main_init
              in if \<not> mn_finished v then Main_Waits
                 else Main_Exit (if mn_completed v then 0 else 1)
                        (if ca_outputFile args \<noteq> [] \<and> mn_allResults v \<noteq> []
                         then SaveResultsToCsv dbl num opens timestamp (ca_outputFile args) (mn_allResults v) else None))
         | _ \<Rightarrow> Main_Exit 1 None)"

section \<open>The command line\<close>

fun show_nat :: "nat \<Rightarrow> string" where
  "show_nat n = (if n < 10 then [char_of (48 + n)] else show_nat (n div 10) @ [char_of (48 + n mod 10)])"

declare show_nat.simps [simp del]

lemma of_char_digit: "d < 10 \<Longrightarrow> (of_char (char_of (48 + d) :: char) :: nat) = 48 + d"
  by (simp add: of_char_of)

lemma show_nat_digits: "list_all is_digit (show_nat n)"
proof (induction n rule: show_nat.induct)
  case (1 n)
  then show ?case using of_char_digit[of n] of_char_digit[of "n mod 10"] by (subst show_nat.simps) (auto simp: is_digit_def list_all_iff)
qed

lemma digits_value_append: "digits_value k (xs @ ys) = digits_value (digits_value k xs) ys"
  by (induction xs arbitrary: k) auto

lemma show_nat_value: "digits_value 0 (show_nat n) = n"
proof (induction n rule: show_nat.induct)
  case (1 n)
  then show ?case using of_char_digit[of n] of_char_digit[of "n mod 10"] by (subst show_nat.simps) (auto simp: digits_value_append)
qed

lemma show_nat_not_Nil: "show_nat n \<noteq> []"
  by (subst show_nat.simps) simp

lemma digit_plain: "is_digit c \<Longrightarrow> \<not> is_space c \<and> c \<noteq> CHR ''-'' \<and> c \<noteq> CHR ''+''"
  by (auto simp: is_digit_def is_space_def)

lemma scan_show: "scan_number (show_nat n) = Some (False, n)"
proof -
  obtain c cs where c: "show_nat n = c # cs" using show_nat_not_Nil[of n] by (cases "show_nat n") auto
  then have d: "is_digit c" "list_all is_digit (c # cs)" using show_nat_digits[of n] by simp_all
  then have "takeWhile is_digit (c # cs) = c # cs" by (simp add: list_all_iff takeWhile_eq_all_conv)
  then show ?thesis using digit_plain[OF d(1)] show_nat_value[of n] by (simp add: scan_number_def c Let_def)
qed

lemma read_show:
  "stoull (show_nat (unat (w :: u64))) = Inr w" "stoul (show_nat (unat (x :: u32))) = Inr x"
  "with_number (stoi (show_nat (unat (y :: u16)))) f = Inr (f (int (unat y)))"
proof -
  have w: "\<not> 2 ^ 64 \<le> unat w" using unsigned_less[of w, where ?'a = nat] by simp
  have x: "\<not> 2 ^ 32 \<le> unat x" using unsigned_less[of x, where ?'a = nat] by simp
  have "unat y < 2 ^ 16" using unsigned_less[of y, where ?'a = nat] by simp
  then have y: "unat y < 2 ^ 31" by simp
  show "stoull (show_nat (unat w)) = Inr w" using w by (simp only: stoull_def scan_show) simp
  show "stoul (show_nat (unat x)) = Inr x" using x by (simp only: stoul_def scan_show) simp
  show "with_number (stoi (show_nat (unat y))) f = Inr (f (int (unat y)))"
    using y by (simp only: stoi_def scan_show) (simp add: with_number_def Let_def)
qed

text \<open>A command line for given arguments.\<close>

definition render_args :: "CommandLineArgs \<Rightarrow> string list" where
  "render_args a =
    [''--host'', ca_host a, ''--port'', show_nat (unat (ca_port a)), ''--iterations'', show_nat (unat (ca_iterations a)),
     ''--warmup'', show_nat (unat (ca_warmup a)), ''--payload'', show_nat (unat (ca_payloadSize a)),
     ''--payload-min'', show_nat (unat (ca_payloadMinSize a)), ''--payload-max'', show_nat (unat (ca_payloadMaxSize a)),
     ''--payload-pool'', show_nat (unat (ca_payloadPoolSize a)), ''--sessions'', show_nat (unat (ca_sessionCount a)),
     ''--io-threads'', show_nat (unat (ca_ioThreadCount a)), ''--output'', ca_outputFile a,
     ''--mode'', if ca_useRio a then ''rio'' else ''iocp''] @
    (if ca_verbose a then [''--verbose''] else []) @ (if ca_pauseOnExit a then [''--pause-on-exit''] else []) @
    (if ca_help a then [''--help''] else [])"

text \<open>C32: every setting can be given on the command line: \<open>Parse\<close> of the arguments written for a record of
  settings is this record.\<close>

theorem command_line_roundtrip: "CommandLineArgs_Parse (render_args a) = Inr a"
proof -
  have flags: "parse_loop b ((if ca_verbose a then [''--verbose''] else []) @ (if ca_pauseOnExit a then [''--pause-on-exit''] else []) @
      (if ca_help a then [''--help''] else [])) =
    Inr (b\<lparr>ca_verbose := ca_verbose b \<or> ca_verbose a, ca_pauseOnExit := ca_pauseOnExit b \<or> ca_pauseOnExit a, ca_help := ca_help b \<or> ca_help a\<rparr>)" for b
    by (simp add: parse_value_def parse_flag_def)
  have w: "with_number (Inr x) f = Inr (f x)" for x :: 'n and f by (simp add: with_number_def)
  show ?thesis
    unfolding CommandLineArgs_Parse_def render_args_def
    by (simp add: parse_value_def read_show w flags CommandLineArgs_default_def del: show_nat.simps)
qed

text \<open>A port that does not fit is cut to 16 bits, an option without its value is ignored, and a
  negative count is a huge one.\<close>

lemma odd_arguments:
  "CommandLineArgs_Parse [''--port'', ''70000''] = Inr (CommandLineArgs_default\<lparr>ca_port := 4464\<rparr>)"
  "CommandLineArgs_Parse [''--port''] = Inr CommandLineArgs_default"
  "CommandLineArgs_Parse [''--iterations'', ''-1''] = Inr (CommandLineArgs_default\<lparr>ca_iterations := 2 ^ 64 - 1\<rparr>)"
  "CommandLineArgs_Parse [''--iterations'', ''many''] = Inl invalid_argument"
  by (simp_all add: CommandLineArgs_Parse_def parse_value_def parse_flag_def with_number_def stoi_def stoull_def scan_number_def
      is_space_def is_digit_def Let_def)

section \<open>The end of a run\<close>

text \<open>The last action of the runner that can change the state sets a final one, and a final state was
  reported.\<close>

definition relevant :: "seq_act \<Rightarrow> bool" where
  "relevant a = (case a of Q_SetState _ \<Rightarrow> True | Q_StoreState _ \<Rightarrow> True | Q_Throw _ \<Rightarrow> True | Q_Completed \<Rightarrow> False | _ \<Rightarrow> \<not> idle a)"

definition good_last :: "seq_act \<Rightarrow> bool" where
  "good_last a = (case a of Q_SetState st \<Rightarrow> terminal st | Q_StoreState st \<Rightarrow> terminal st | _ \<Rightarrow> True)"

definition end_reported :: "callback_call list \<Rightarrow> bool" where
  "end_reported calls \<longleftrightarrow> CB_State BS_Completed \<in> set calls \<or> CB_State BS_Failed \<in> set calls"

fun hand_final :: "hand_act \<Rightarrow> bool" where
  "hand_final (H_SetState st) = terminal st"
| "hand_final (H_StoreState st) = terminal st"
| "hand_final _ = True"

definition end_inv :: "seq_state \<Rightarrow> bool" where
  "end_inv x \<longleftrightarrow> (case x of (s, m, hs) \<Rightarrow>
     has_onStateChanged (lr_Callbacks s) \<and> (terminal (lr_State s) \<longrightarrow> end_reported (lr_Calls s)) \<and>
     (if filter relevant m = [] then terminal (lr_State s) else good_last (last (filter relevant m))) \<and>
     (\<forall>t\<in>set hs. \<forall>a\<in>set t. hand_final a))"

lemma terminal_simps [simp]: "terminal BS_Completed" "terminal BS_Failed" "\<not> terminal BS_Idle" "\<not> terminal BS_Connecting"
  "\<not> terminal BS_Warmup" "\<not> terminal BS_Running"
  by (simp_all add: terminal_def)

lemma seq_post_state [simp]: "lr_State (seq_post ok r s) = lr_State s" "lr_Callbacks (seq_post ok r s) = lr_Callbacks s"
  by (simp_all add: seq_post_def)

lemmas step_splits = if_splits option.splits bool.splits

lemma end_relevant:
  assumes "seq_do d ch a s = Some (new, s')" "relevant a" "good_last a"
  shows "if filter relevant new = [] then terminal (lr_State s') else good_last (last (filter relevant new))"
  using assms
  by (cases a) (auto simp: relevant_def good_last_def idle_def SetState_skips_def terminal_def Let_def split: step_splits)

lemma end_irrelevant:
  assumes "seq_do d ch a s = Some (new, s')" "\<not> relevant a"
  shows "filter relevant new = []" "lr_State s' = lr_State s"
  using assms by (cases a; auto simp: relevant_def idle_def Let_def split: step_splits)+

lemma end_calls:
  assumes "seq_do d ch a s = Some (new, s')" "has_onStateChanged (lr_Callbacks s)" "terminal (lr_State s) \<longrightarrow> end_reported (lr_Calls s)"
  shows "lr_Callbacks s' = lr_Callbacks s" "terminal (lr_State s') \<longrightarrow> end_reported (lr_Calls s')"
proof -
  show "lr_Callbacks s' = lr_Callbacks s" using assms(1) by (cases a) (auto simp: Let_def split: step_splits)
  have mono: "end_reported cs \<Longrightarrow> end_reported (cs @ ds)" for cs ds by (auto simp: end_reported_def)
  have store: "terminal st \<Longrightarrow> end_reported (cs @ [CB_State st])" for st cs by (auto simp: end_reported_def terminal_def)
  show "terminal (lr_State s') \<longrightarrow> end_reported (lr_Calls s')"
    using assms by (cases a) (auto simp: Let_def mono store split: step_splits)
qed

lemma hand_end:
  assumes "hand_do a s = (new, s')" "hand_final a" "has_onStateChanged (lr_Callbacks s)"
    "terminal (lr_State s) \<longrightarrow> end_reported (lr_Calls s)"
  shows "lr_Callbacks s' = lr_Callbacks s" "terminal (lr_State s') \<longrightarrow> end_reported (lr_Calls s')"
    "terminal (lr_State s) \<longrightarrow> terminal (lr_State s')" "\<forall>b\<in>set new. hand_final b"
proof -
  have mono: "end_reported cs \<Longrightarrow> end_reported (cs @ ds)" for cs ds by (auto simp: end_reported_def)
  have store: "terminal st \<Longrightarrow> end_reported (cs @ [CB_State st])" for st cs by (auto simp: end_reported_def terminal_def)
  show "lr_Callbacks s' = lr_Callbacks s" "terminal (lr_State s') \<longrightarrow> end_reported (lr_Calls s')"
    "terminal (lr_State s) \<longrightarrow> terminal (lr_State s')" "\<forall>b\<in>set new. hand_final b"
    using assms by (cases a; auto simp: mono store split: if_splits)+
qed

lemma end_runner:
  assumes inv: "end_inv (s, a # k, hs)" and do: "seq_do d ch a s = Some (new, s')"
  shows "end_inv (s', new @ k, hs)"
proof -
  have i: "has_onStateChanged (lr_Callbacks s)" "terminal (lr_State s) \<longrightarrow> end_reported (lr_Calls s)" using inv by (simp_all add: end_inv_def)
  note c = end_calls[OF do i]
  have "if filter relevant (new @ k) = [] then terminal (lr_State s') else good_last (last (filter relevant (new @ k)))"
  proof (cases "filter relevant k = []")
    case True
    then show ?thesis
      using inv end_relevant[OF do] end_irrelevant[OF do] by (cases "relevant a") (auto simp: end_inv_def split: if_splits)
  next
    case False
    then show ?thesis using inv by (auto simp: end_inv_def split: if_splits)
  qed
  then show ?thesis using inv c i by (simp add: end_inv_def)
qed

lemma end_exec:
  assumes inv: "end_inv (s, m, hs)" and ex: "seq_exec d e (s, m, hs) = Some x"
  shows "end_inv x"
proof (cases e)
  case (SE_Runner ch)
  then show ?thesis using ex inv end_runner by (auto split: list.splits option.splits)
next
  case (SE_Handler i)
  then obtain a k new s' where h: "i < length hs" "hs ! i = a # k" and do: "hand_do a s = (new, s')"
    and x: "x = (s'\<lparr>sq_Dangling := sq_Dangling s' \<or> sq_Returned s \<and> hand_touches a\<rparr>, m, hs[i := new @ k])"
    using ex by (auto split: if_splits list.splits prod.splits)
  have "a # k \<in> set hs" using h by (metis nth_mem)
  then have fin: "hand_final a" "\<forall>b\<in>set k. hand_final b" using inv by (auto simp: end_inv_def)
  have i: "has_onStateChanged (lr_Callbacks s)" "terminal (lr_State s) \<longrightarrow> end_reported (lr_Calls s)" using inv by (simp_all add: end_inv_def)
  note e = hand_end[OF do fin(1) i]
  have "\<forall>t\<in>set (hs[i := new @ k]). \<forall>b\<in>set t. hand_final b"
  proof
    fix t assume "t \<in> set (hs[i := new @ k])"
    then have "t = new @ k \<or> t \<in> set hs" using set_update_subset_insert by fast
    then show "\<forall>b\<in>set t. hand_final b" using e(4) fin(2) inv by (auto simp: end_inv_def)
  qed
  then show ?thesis using inv e(1-3) i by (auto simp: x end_inv_def split: if_splits)
qed (use ex inv in \<open>auto simp: end_inv_def Let_def split: if_splits list.splits\<close>)

lemma end_run: "end_inv x \<Longrightarrow> seq_run_all d es x = Some y \<Longrightarrow> end_inv y"
proof (induction es arbitrary: x)
  case (Cons e es)
  then obtain x1 where x1: "seq_exec d e x = Some x1" "seq_run_all d es x1 = Some y" by (auto split: option.splits)
  obtain s m hs where "x = (s, m, hs)" by (cases x) auto
  then have "end_inv x1" using end_exec Cons.prems(1) x1(1) by blast
  then show ?case using Cons.IH x1(2) by blast
qed simp

lemma end_init:
  assumes "LatencyBenchmarkRunner_Start cfg main_callbacks LatencyBenchmarkRunner_ctor = Some (True, r)"
  shows "end_inv (seq_init r)"
  using assms by (auto simp: end_inv_def seq_init_def LatencyBenchmarkRunner.defs LatencyBenchmarkRunner_Start_def Let_def
      LatencyBenchmarkRunner_ctor_def main_callbacks_def relevant_def idle_def good_last_def)

lemma main_start: "\<exists>r. LatencyBenchmarkRunner_Start cfg cb LatencyBenchmarkRunner_ctor = Some (True, r)"
  by (simp add: LatencyBenchmarkRunner_Start_def LatencyBenchmarkRunner_ctor_def Let_def)

lemma fold_callbacks:
  "mn_completed (fold main_callback cs v) \<longleftrightarrow> mn_completed v \<or> CB_State BS_Completed \<in> set cs"
  "mn_finished v \<Longrightarrow> mn_finished (fold main_callback cs v)"
  "end_reported cs \<Longrightarrow> mn_finished (fold main_callback cs v)"
  "set (mn_allResults (fold main_callback cs v)) = set (mn_allResults v) \<union> {st. CB_Completed st \<in> set cs}"
proof -
  show "mn_completed (fold main_callback cs v) \<longleftrightarrow> mn_completed v \<or> CB_State BS_Completed \<in> set cs"
    "set (mn_allResults (fold main_callback cs v)) = set (mn_allResults v) \<union> {st. CB_Completed st \<in> set cs}"
  proof (induction cs arbitrary: v)
    case (Cons c cs)
    { case 1 then show ?case using Cons(1)[of "main_callback c v"] by (cases c) auto }
    { case 2 then show ?case using Cons(2)[of "main_callback c v"] by (cases c) auto }
  qed simp_all
  have fin: "mn_finished v \<longrightarrow> mn_finished (fold main_callback cs v)" for v cs
  proof (induction cs arbitrary: v)
    case (Cons c cs)
    then show ?case using Cons.IH[of "main_callback c v"] by (cases c) auto
  qed simp
  then show "mn_finished v \<Longrightarrow> mn_finished (fold main_callback cs v)" by blast
  show "end_reported cs \<Longrightarrow> mn_finished (fold main_callback cs v)"
  proof (induction cs arbitrary: v)
    case (Cons c cs)
    then show ?case using fin[of "main_callback c v" cs] by (auto simp: end_reported_def)
  qed (simp add: end_reported_def)
qed

text \<open>C28: when the thread of a run over one session has ended, \<open>main\<close> does not go on waiting: it has been told a
  final state, whatever the server, the timeouts and the connection did. It returns 0 exactly
  when the state \<open>Completed\<close> was reported, and the results it saves are those the runner reported.\<close>

theorem benchmark_main_ends:
  assumes "CommandLineArgs_Parse argv = Inr args" "\<not> ca_help args"
    "LatencyBenchmarkRunner_Start (main_config args) main_callbacks LatencyBenchmarkRunner_ctor = Some (True, r)"
    "seq_run_all d es (seq_init r) = Some (s, [], hs)"
  shows "\<exists>file. benchmark_main dbl num True now (lr_Calls s) argv =
      Main_Exit (if CB_State BS_Completed \<in> set (lr_Calls s) then 0 else 1) file \<and>
    (file \<noteq> None \<longleftrightarrow> ca_outputFile args \<noteq> [] \<and> (\<exists>st. CB_Completed st \<in> set (lr_Calls s))) \<and>
    (\<forall>name ls. file = Some (name, ls) \<longrightarrow> set ls = insert CsvHeader {ToCsv dbl num st |st. CB_Completed st \<in> set (lr_Calls s)})"
proof -
  let ?v = "fold main_callback (lr_Calls s) main_init"
  have "end_inv (s, [], hs)" using end_run[OF end_init[OF assms(3)] assms(4)] .
  then have "end_reported (lr_Calls s)" by (simp add: end_inv_def)
  then have fin: "mn_finished ?v" by (rule fold_callbacks(3))
  have com: "mn_completed ?v \<longleftrightarrow> CB_State BS_Completed \<in> set (lr_Calls s)" by (simp add: fold_callbacks(1) main_init_def)
  have res: "set (mn_allResults ?v) = {st. CB_Completed st \<in> set (lr_Calls s)}" by (simp add: fold_callbacks(4) main_init_def)
  have ne: "mn_allResults ?v \<noteq> [] \<longleftrightarrow> (\<exists>st. CB_Completed st \<in> set (lr_Calls s))" unfolding set_empty[symmetric] res by auto
  let ?file = "if ca_outputFile args \<noteq> [] \<and> mn_allResults ?v \<noteq> []
    then Some (AddTimestampToFilename now (ca_outputFile args), CsvHeader # map (ToCsv dbl num) (mn_allResults ?v)) else None"
  have main: "benchmark_main dbl num True now (lr_Calls s) argv =
      Main_Exit (if CB_State BS_Completed \<in> set (lr_Calls s) then 0 else 1) ?file"
    unfolding benchmark_main_def assms(1) sum.case assms(3) option.case Let_def com SaveResultsToCsv_def prod.case
    using assms(2) fin by simp
  have lines: "set (CsvHeader # map (ToCsv dbl num) (mn_allResults ?v)) =
      insert CsvHeader {ToCsv dbl num st |st. CB_Completed st \<in> set (lr_Calls s)}" using res by auto
  show ?thesis
  proof (intro exI[of _ ?file] conjI allI impI)
    show "?file \<noteq> None \<longleftrightarrow> ca_outputFile args \<noteq> [] \<and> (\<exists>st. CB_Completed st \<in> set (lr_Calls s))" using ne by simp
    show "set ls = insert CsvHeader {ToCsv dbl num st |st. CB_Completed st \<in> set (lr_Calls s)}" if "?file = Some (name, ls)" for name ls
      using that lines by (auto split: if_splits)
  qed (rule main)
qed

text \<open>The run of \<open>prompt_schedule\<close>, started from the command line and followed to its end.\<close>

definition short_run :: "string list" where
  "short_run = [''--iterations'', ''0'', ''--warmup'', ''0'', ''--output'', ''r.csv'']"

definition short_args :: CommandLineArgs where
  "short_args = CommandLineArgs_default\<lparr>ca_iterations := 0, ca_warmup := 0, ca_outputFile := ''r.csv''\<rparr>"

definition short_schedule :: "seq_event list" where
  "short_schedule = run_on 5 @ [SE_Connected, SE_Handler 0] @ run_on 14 @ [SE_Disconnected] @ run_on 2"

lemma short_parse: "CommandLineArgs_Parse short_run = Inr short_args" "\<not> ca_help short_args"
  by (simp_all add: short_run_def short_args_def CommandLineArgs_Parse_def CommandLineArgs_default_def parse_value_def with_number_def
      stoull_def scan_number_def is_space_def is_digit_def Let_def)

theorem benchmark_main_ends_witness:
  "\<exists>s hs r file. seq_run_all (\<lambda>low high i. low) short_schedule (seq_init r) = Some (s, [], hs) \<and>
     benchmark_main (\<lambda>x. []) (\<lambda>n. []) True ''now'' (lr_Calls s) short_run = Main_Exit 0 (Some file)"
proof -
  obtain r where r: "LatencyBenchmarkRunner_Start (main_config short_args) main_callbacks LatencyBenchmarkRunner_ctor = Some (True, r)"
    using main_start by blast
  then have rd: "r = LatencyBenchmarkRunner_ctor\<lparr>lr_Config := main_config short_args, lr_Callbacks := main_callbacks, lr_RunnerThread := True\<rparr>"
    by (simp add: LatencyBenchmarkRunner_Start_def LatencyBenchmarkRunner_ctor_def LatencyCollector_Clear_def LatencyCollector_ctor_def Let_def)
  have "\<exists>s hs st. seq_run_all (\<lambda>low high i. low) short_schedule (seq_init r) = Some (s, [], hs) \<and>
      CB_State BS_Completed \<in> set (lr_Calls s) \<and> CB_Completed st \<in> set (lr_Calls s)"
    by (simp add: short_schedule_def rd main_config_def short_args_def CommandLineArgs_default_def main_callbacks_def single_steps)
  then obtain s hs st where s: "seq_run_all (\<lambda>low high i. low) short_schedule (seq_init r) = Some (s, [], hs)"
    "CB_State BS_Completed \<in> set (lr_Calls s)" "CB_Completed st \<in> set (lr_Calls s)" by blast
  have "ca_outputFile short_args \<noteq> []" by (simp add: short_args_def)
  then have "\<exists>file. benchmark_main (\<lambda>x. []) (\<lambda>n. []) True ''now'' (lr_Calls s) short_run = Main_Exit 0 (Some file)"
    using benchmark_main_ends[OF short_parse r s(1), of "\<lambda>x. []" "\<lambda>n. []" "''now''"] s(2,3) by auto
  then show ?thesis using s(1) by blast
qed

text \<open>The time stamp is put before the last dot of the path, even when this dot belongs to a directory.\<close>

lemma timestamp_in_directory: "AddTimestampToFilename ''T'' ''out.d/results'' = ''out_T.d/results''"
  by (simp add: AddTimestampToFilename_def rfind_dot_def Let_def)

lemma progress_percent:
  assumes "current \<le> n" "PrintProgress old current n = Some (Some p, l)"
  shows "p \<le> 100 \<and> l = p \<and> p \<noteq> old"
proof -
  have "n \<noteq> 0" "p = current * 100 div n" "l = p" "p \<noteq> old" using assms(2) by (auto simp: PrintProgress_def Let_def split: if_splits)
  moreover have "current * 100 div n \<le> n * 100 div n" using assms(1) by (intro div_le_mono) simp
  ultimately show ?thesis by simp
qed

end
