(* ===== verification/Session_Outgoing.thy ===== *)
theory Session_Outgoing
  imports IOCP_Stream
begin

text \<open>
  The outgoing stream of an IOCP session (\<open>SendMessage\<close>, \<open>TryPostSendFromQueue\<close> and
  \<open>HandleSendCompletion\<close> of \<open>IOSession.cpp\<close>). What the session gave to the connection is read off its
  trace; what it was asked to send are \<open>cause\<close>s: messages passed to \<open>SendMessage\<close> from outside, and
  received packets, which a hook answers as the predicate \<open>answer\<close> says. \<open>talks\<close> relates two states
  of a session by the causes between them, it is transitive, and every method satisfies it.
\<close>

section \<open>The wire\<close>

text \<open>The bytes acknowledged so far, and the bytes of the send in flight. The kernel accepts a send
  with a non-negative answer, and a completed one is reported to \<open>OnSent\<close>.\<close>

fun wire_step :: "env \<Rightarrow> trace \<Rightarrow> event \<Rightarrow> byte list \<times> byte list \<Rightarrow> byte list \<times> byte list" where
  "wire_step env tr (Sys_WSASend h ss d) (ack, cur) = (ack, if env tr (Sys_WSASend h ss d) < 0 then cur else d)"
| "wire_step env tr (Cb_OnSent n) (ack, cur) = (ack @ take n cur, [])"
| "wire_step env tr _ w = w"

fun wire_from :: "env \<Rightarrow> trace \<Rightarrow> byte list \<times> byte list \<Rightarrow> trace \<Rightarrow> byte list \<times> byte list" where
  "wire_from env tr w [] = w"
| "wire_from env tr w (e # es) = wire_from env (tr @ [e]) (wire_step env tr e w) es"

definition wire :: "env \<Rightarrow> trace \<Rightarrow> byte list \<times> byte list" where
  "wire env tr = wire_from env [] ([], []) tr"

abbreviation acked where "acked env s \<equiv> fst (wire env (s_Trace s))"
abbreviation sending where "sending env s \<equiv> snd (wire env (s_Trace s))"

text \<open>The bytes the connection was given.\<close>

definition given :: "env \<Rightarrow> ('b, 'z) IOSession_scheme \<Rightarrow> byte list" where
  "given env s = acked env s @ sending env s"

fun wire_event :: "event \<Rightarrow> bool" where
  "wire_event (Sys_WSASend _ _ _) = True"
| "wire_event (Cb_OnSent _) = True"
| "wire_event _ = False"

lemma wire_from_append: "wire_from env tr w (a @ b) = wire_from env (tr @ a) (wire_from env tr w a) b"
  by (induction a arbitrary: tr w) auto

lemma wire_append [simp]: "wire env (tr @ new) = wire_from env tr (wire env tr) new"
  by (simp add: wire_def wire_from_append)

lemma wire_Nil [simp]: "wire env [] = ([], [])"
  by (simp add: wire_def)

lemma wire_step_quiet: "\<not> wire_event e \<Longrightarrow> wire_step env tr e w = w"
  by (cases w; cases e) auto

lemma wire_from_quiet: "\<not> list_ex wire_event new \<Longrightarrow> wire_from env tr w new = w"
  by (induction new arbitrary: tr) (auto simp: wire_step_quiet)

lemma wire_event_active: "wire_event e \<Longrightarrow> is_active e"
  by (cases e) auto

lemma inactive_quiet: "\<not> list_ex is_active new \<Longrightarrow> \<not> list_ex wire_event new"
  using wire_event_active by (auto simp: list_ex_iff)

section \<open>Causes and messages\<close>

datatype cause = Asked u16 "byte list" | Got Packet

fun caused :: "(Packet \<Rightarrow> (u16 \<times> byte list) list \<Rightarrow> bool) \<Rightarrow> cause \<Rightarrow> (u16 \<times> byte list) list \<Rightarrow> bool" where
  "caused answer (Asked i body) out \<longleftrightarrow> out = [(i, body)]"
| "caused answer (Got p) out \<longleftrightarrow> answer p out"

text \<open>The messages that a list of causes calls for, in order.\<close>

definition replies :: "(Packet \<Rightarrow> (u16 \<times> byte list) list \<Rightarrow> bool) \<Rightarrow> cause list \<Rightarrow> (u16 \<times> byte list) list \<Rightarrow> bool" where
  "replies answer cs ms \<longleftrightarrow> (\<exists>outs. list_all2 (caused answer) cs outs \<and> ms = concat outs)"

lemma replies_Nil [simp]: "replies answer [] ms \<longleftrightarrow> ms = []"
  by (simp add: replies_def)

lemma replies_one [simp]: "replies answer [c] ms \<longleftrightarrow> caused answer c ms"
  by (auto simp: replies_def list_all2_Cons1)

lemma replies_append:
  assumes "replies answer a ms" "replies answer b ns"
  shows "replies answer (a @ b) (ms @ ns)"
proof -
  obtain x y where "list_all2 (caused answer) a x" "ms = concat x" "list_all2 (caused answer) b y" "ns = concat y"
    using assms by (auto simp: replies_def)
  then show ?thesis
    unfolding replies_def by (intro exI[of _ "x @ y"]) (simp add: list_all2_appendI)
qed

lemma encode_all_append [simp]: "encode_all (a @ b) = encode_all a @ encode_all b"
  by (simp add: encode_all_def)

lemma encode_all_simps [simp]: "encode_all [] = []" "encode_all [(i, body)] = encode i body"
  by (simp_all add: encode_all_def)

definition unsent :: "('b \<Rightarrow> byte list) \<Rightarrow> ('b, 'z) IOSession_scheme \<Rightarrow> byte list" where
  "unsent contents s = (case s_pSendBuffer s of None \<Rightarrow> [] | Some sb \<Rightarrow> contents sb)"

text \<open>The session was asked to send \<open>ms\<close>: it never gave the connection anything else, and while it
  is connected the bytes of \<open>ms\<close> are those acknowledged followed by those in the ring, and
  the flag tells whether a send is in flight.\<close>

definition out_ok ::
  "env \<Rightarrow> ('b \<Rightarrow> byte list) \<Rightarrow> (u16 \<times> byte list) list \<Rightarrow> ('b, 'z) IOSession_scheme \<Rightarrow> bool" where
  "out_ok env contents ms s \<longleftrightarrow> prefix (given env s) (encode_all ms) \<and>
     (\<not> s_DisconnectRequested s \<longrightarrow> s_pSendBuffer s \<noteq> None \<and> encode_all ms = acked env s @ unsent contents s \<and>
        (s_SendInProgress s \<longleftrightarrow> sending env s \<noteq> []))"

definition talks ::
  "env \<Rightarrow> ('b \<Rightarrow> byte list) \<Rightarrow> (Packet \<Rightarrow> (u16 \<times> byte list) list \<Rightarrow> bool) \<Rightarrow> cause list \<Rightarrow>
   ('b, 'z) IOSession_scheme \<Rightarrow> ('b, 'z) IOSession_scheme \<Rightarrow> bool" where
  "talks env contents answer cs s s' \<longleftrightarrow> (s_DisconnectRequested s \<longrightarrow> s_DisconnectRequested s') \<and>
     (\<forall>ms. out_ok env contents ms s \<longrightarrow>
        (\<exists>served out. prefix served cs \<and> replies answer served out \<and> out_ok env contents (ms @ out) s' \<and>
           (s_DisconnectRequested s \<longrightarrow> served = []) \<and> (\<not> s_DisconnectRequested s' \<longrightarrow> served = cs)))"

lemma talks_refl [simp]: "talks env contents answer [] s s"
  by (simp add: talks_def)

lemma talks_trans:
  assumes "talks env contents answer a s t" "talks env contents answer b t u"
  shows "talks env contents answer (a @ b) s u"
proof -
  have "\<exists>served out. prefix served (a @ b) \<and> replies answer served out \<and> out_ok env contents (ms @ out) u \<and>
      (s_DisconnectRequested s \<longrightarrow> served = []) \<and> (\<not> s_DisconnectRequested u \<longrightarrow> served = a @ b)"
    if ok: "out_ok env contents ms s" for ms
  proof -
    obtain d1 o1 where 1: "prefix d1 a" "replies answer d1 o1" "out_ok env contents (ms @ o1) t"
      "s_DisconnectRequested s \<Longrightarrow> d1 = []" "\<not> s_DisconnectRequested t \<Longrightarrow> d1 = a"
      using assms(1) ok unfolding talks_def by blast
    then obtain d2 o2 where 2: "prefix d2 b" "replies answer d2 o2" "out_ok env contents (ms @ o1 @ o2) u"
      "s_DisconnectRequested t \<Longrightarrow> d2 = []" "\<not> s_DisconnectRequested u \<Longrightarrow> d2 = b"
      using assms(2) unfolding talks_def by (metis append.assoc)
    have mono: "s_DisconnectRequested s \<Longrightarrow> s_DisconnectRequested t" "s_DisconnectRequested t \<Longrightarrow> s_DisconnectRequested u"
      using assms by (auto simp: talks_def)
    have "prefix (d1 @ d2) (a @ b)"
      using 1(1,5) 2(1,4) by (cases "s_DisconnectRequested t") (auto intro: prefix_prefix)
    then show ?thesis
      using 1 2 mono by (intro exI[of _ "d1 @ d2"] exI[of _ "o1 @ o2"]) (auto intro: replies_append)
  qed
  then show ?thesis using assms by (auto simp: talks_def)
qed

lemma talks_then_quiet [trans]:
  "talks env contents answer a s t \<Longrightarrow> talks env contents answer [] t u \<Longrightarrow> talks env contents answer a s u"
  using talks_trans[of env contents answer a s t "[]" u] by simp

text \<open>A step that adds no event of the wire and, unless it ends disconnected, keeps the ring and
  the flag.\<close>

lemma talks_quiet:
  assumes "s_Trace s' = s_Trace s @ new" "\<not> list_ex wire_event new"
    "s_DisconnectRequested s \<longrightarrow> s_DisconnectRequested s'"
    "\<not> s_DisconnectRequested s' \<Longrightarrow> s_pSendBuffer s' = s_pSendBuffer s \<and> s_SendInProgress s' = s_SendInProgress s"
  shows "talks env contents answer [] s s'"
  using assms by (auto simp: talks_def out_ok_def given_def unsent_def wire_from_quiet)

text \<open>What a session does after its disconnect was requested is not on the wire.\<close>

lemma talks_after:
  assumes "evolves env I s s'" "sess_ok I s" "s_DisconnectRequested s"
  shows "talks env contents answer [] s s'"
proof -
  obtain new where "s_Trace s' = s_Trace s @ new" "\<not> list_ex is_active new"
    using assms by (auto simp: evolves_def grows_def)
  then show ?thesis
    using assms inactive_quiet by (intro talks_quiet[of s' s new]) (auto simp: evolves_def)
qed

text \<open>A packet is answered by sending its answer, or by nothing when nothing is due.\<close>

lemma talks_answered:
  assumes "talks env contents answer [Asked i body] s s'" "answer p [(i, body)]"
  shows "talks env contents answer [Got p] s s'"
proof -
  have "\<exists>served'. prefix served' [Got p] \<and> replies answer served' out \<and> (served = [] \<longrightarrow> served' = []) \<and>
      (served = [Asked i body] \<longrightarrow> served' = [Got p])"
    if "prefix served [Asked i body]" "replies answer served out" for served out
    using that assms(2) by (cases "served = []") (auto simp: prefix_Cons)
  then show ?thesis
    using assms(1) unfolding talks_def by (meson list.distinct(1))
qed

lemma talks_nothing_due: "answer p [] \<Longrightarrow> talks env contents answer [Got p] s s"
  unfolding talks_def
  by (intro conjI allI impI exI[of _ "if s_DisconnectRequested s then [] else [Got p]"] exI[of _ "[]"]) auto

section \<open>The methods\<close>

context session_core
begin

lemma disconnect_talks:
  assumes "sess_ok inv s" "s_Trace s = s_Trace s0" "s_DisconnectRequested s = s_DisconnectRequested s0"
  shows "talks env contents answer [] s0 (RequestDisconnect ops onDisc reason s)"
proof (cases "s_DisconnectRequested s")
  case True
  have "talks env contents answer [] s0 s"
    using True assms(2,3) by (intro talks_quiet[of s s0 "[]"]) auto
  then show ?thesis
    using talks_after[OF calm_evolves[OF RequestDisconnect_calm(1)[OF assms(1)]] assms(1) True] talks_then_quiet by blast
next
  case False
  let ?s1 = "(close_socket (s\<lparr>s_DisconnectRequested := True\<rparr>))\<lparr>s_RecvInProgress := False, s_SendInProgress := False\<rparr>"
  note fp = first_pass[OF False assms(1)]
  obtain new where new: "s_Trace ?s1 = s_Trace s @ new" "list_all (\<lambda>e. \<not> is_active e) new"
    using close_socket_trace[of "s\<lparr>s_DisconnectRequested := True\<rparr>"] by auto
  then have "\<not> list_ex wire_event new"
    using wire_event_active by (auto simp: list_ex_iff list_all_iff)
  then have 1: "talks env contents answer [] s0 ?s1"
    using new(1) assms(2) fp(1) by (intro talks_quiet[of ?s1 s0 new]) auto
  moreover have "talks env contents answer [] ?s1 (TryFireOnDisconnected ops onDisc ?s1)"
    by (rule talks_after[OF calm_evolves[OF TryFire_calm(1)[OF fp(1,3)]] fp(3,1)])
  ultimately show ?thesis
    using False talks_then_quiet by (auto simp: RequestDisconnect_def Let_def)
qed

lemma disconnect0_talks:
  assumes "sess_ok inv s" "s_Trace s = s_Trace s0" "s_DisconnectRequested s = s_DisconnectRequested s0"
  shows "talks env contents answer [] s0 (RequestDisconnect0 ops onDisc s)"
  using disconnect_talks[OF assms] by (simp add: RequestDisconnect0_def)

text \<open>Posting gives the connection the whole contents of the ring.\<close>

lemma TryPost_posts:
  assumes "s_pSendBuffer s = Some sb" "inv sb" "\<not> s_DisconnectRequested s" "\<not> s_SendInProgress s"
  defines "s' \<equiv> snd (TryPostSendFromQueue env ops s)"
  shows "\<exists>new. s_Trace s' = s_Trace s @ new \<and> s_pSendBuffer s' = s_pSendBuffer s \<and> \<not> s_DisconnectRequested s' \<and>
    (\<not> s_SendInProgress s' \<and> wire_from env (s_Trace s) w new = w \<or>
     s_SendInProgress s' \<and> contents sb \<noteq> [] \<and> wire_from env (s_Trace s) w new = (fst w, contents sb))"
proof -
  obtain ss where ss: "vGetReadBuffers ops sb = (length (contents sb), ss)" "buf_load ops ss sb = contents sb"
    using read_spans[OF assms(2)] by auto
  show ?thesis
    using assms(1,3,4) ss unfolding s'_def
    by (cases w; cases "s_pSocket s")
      (auto simp: TryPostSendFromQueue_def Let_def PrepareSendBuffers_def AddOutstandingIo_def
        UndoOutstandingOnFailure_def syscall_def)
qed

lemma TryPost_talks:
  assumes "sess_ok inv s"
  shows "talks env contents answer [] s (snd (TryPostSendFromQueue env ops s))"
proof (cases "s_DisconnectRequested s \<or> s_SendInProgress s \<or> s_pSendBuffer s = None")
  case True
  then show ?thesis
    by (intro talks_quiet[where new = "[]"]) (auto simp: TryPostSendFromQueue_def split: option.splits)
next
  case False
  then obtain sb where sb: "s_pSendBuffer s = Some sb" "inv sb"
    using assms by (auto simp: sess_ok_def)
  obtain new where n: "s_Trace (snd (TryPostSendFromQueue env ops s)) = s_Trace s @ new"
    "s_pSendBuffer (snd (TryPostSendFromQueue env ops s)) = s_pSendBuffer s"
    "\<not> s_DisconnectRequested (snd (TryPostSendFromQueue env ops s))"
    "\<not> s_SendInProgress (snd (TryPostSendFromQueue env ops s)) \<and> wire_from env (s_Trace s) (wire env (s_Trace s)) new = wire env (s_Trace s) \<or>
     s_SendInProgress (snd (TryPostSendFromQueue env ops s)) \<and> contents sb \<noteq> [] \<and>
       wire_from env (s_Trace s) (wire env (s_Trace s)) new = (acked env s, contents sb)"
    using TryPost_posts[OF sb, of "wire env (s_Trace s)"] False by blast
  then show ?thesis
    using False sb(1) by (auto simp: talks_def out_ok_def given_def unsent_def)
qed

lemma SendMessage_talks:
  assumes "sess_ok inv s"
  shows "talks env contents answer [Asked i body] s (SendMessage env ops onDisc i body s)"
proof (cases "s_DisconnectRequested s \<or> s_pSendBuffer s = None")
  case True
  have "talks env contents answer [Asked i body] s s"
    unfolding talks_def
    using True by (intro conjI allI impI exI[of _ "[]"]) (auto simp: out_ok_def)
  then show ?thesis using True by (auto simp: SendMessage_def Let_def)
next
  case False
  then obtain sb where sb: "s_pSendBuffer s = Some sb" "inv sb"
    using assms by (auto simp: sess_ok_def)
  obtain r sb' where a: "vAllocateWrite ops (length body + 4) sb = (r, sb')"
    by (cases "vAllocateWrite ops (length body + 4) sb")
  show ?thesis
  proof (cases r)
    case None
    let ?t = "s\<lparr>s_pSendBuffer := Some sb'\<rparr>"
    have "inv sb'"
      using a None sb(2) alloc_ok[OF sb(2), of "length body + 4"] alloc_full[OF sb(2), of "length body + 4"]
      by (cases "length (contents sb) + (length body + 4) \<le> cap sb") auto
    then have ok: "sess_ok inv ?t" using assms by (simp add: sess_ok_def)
    have q: "talks env contents answer [] s (RequestDisconnect0 ops onDisc ?t)"
      by (rule disconnect0_talks[OF ok]) simp_all
    have d: "s_DisconnectRequested (RequestDisconnect0 ops onDisc ?t)" by (rule RequestDisconnect0_calm(2)[OF ok])
    have "talks env contents answer [Asked i body] s (RequestDisconnect0 ops onDisc ?t)"
      using q d unfolding talks_def by (intro conjI allI impI exI[of _ "[]"]) auto
    then show ?thesis
      using False sb a None by (auto simp: SendMessage_def Let_def add.commute)
  next
    case (Some ss)
    let ?sb = "vSetMem ops (write_message ss i body (vMem ops sb')) sb'"
    let ?t = "s\<lparr>s_pSendBuffer := Some ?sb\<rparr>"
    have m: "inv ?sb" "contents ?sb = contents sb @ encode i body"
      using alloc_message[OF sb(2) a[unfolded Some]] by auto
    have "talks env contents answer [Asked i body] s ?t"
      unfolding talks_def
      using False sb m(2)
      by (intro conjI allI impI exI[of _ "[Asked i body]"] exI[of _ "[(i, body)]"])
        (auto simp: out_ok_def given_def unsent_def intro: prefix_prefix)
    moreover have "sess_ok inv ?t" using assms m(1) by (simp add: sess_ok_def)
    ultimately show ?thesis
      using False sb a Some talks_then_quiet[OF _ TryPost_talks]
      by (auto simp: SendMessage_def Let_def add.commute)
  qed
qed

text \<open>The receiving side posts and disconnects, which the wire does not see.\<close>

lemma Prepare_talks:
  assumes "sess_ok inv s"
  shows "talks env contents answer [] s (snd (PrepareRecvBuffers ops onDisc zero s))"
proof -
  have "talks env contents answer [] s (s\<lparr>s_RecvOverlapped := ov\<rparr>)" for ov
    by (rule talks_quiet[where new = "[]"]) auto
  moreover have "talks env contents answer [] s (RequestDisconnect0 ops onDisc (s\<lparr>s_RecvOverlapped := ov\<rparr>))" for ov
    by (rule disconnect0_talks) (use assms in \<open>simp_all add: sess_ok_def\<close>)
  ultimately show ?thesis
    by (auto simp: PrepareRecvBuffers_def Let_def split: option.splits prod.splits)
qed

lemma RequestRecv_talks:
  assumes "sess_ok inv s"
  shows "talks env contents answer [] s (snd (RequestRecv env ops onDisc zero s))"
proof -
  obtain ok s1 where p: "PrepareRecvBuffers ops onDisc zero s = (ok, s1)"
    by (cases "PrepareRecvBuffers ops onDisc zero s")
  have "talks env contents answer [] s1 (snd (RequestRecv env ops onDisc zero s))"
  proof (cases "ok \<and> s_pSocket s1 \<noteq> None")
    case True
    then obtain sk where sk: "s_pSocket s1 = Some sk" by auto
    show ?thesis
      using p True sk
      by (intro talks_quiet[where new = "[Sys_WSARecv (m_Socket sk) (o_WSABufs (s_RecvOverlapped s1))]"])
        (auto simp: RequestRecv_def syscall_def AddOutstandingIo_def UndoOutstandingOnFailure_def Let_def)
  next
    case False
    then show ?thesis using p by (auto simp: RequestRecv_def split: bool.splits option.splits)
  qed
  then show ?thesis
    using talks_then_quiet[OF Prepare_talks[OF assms, of answer zero]] p by simp
qed

lemma talks_flags:
  "talks env contents answer [] s (s\<lparr>s_RecvInProgress := a\<rparr>)"
  "talks env contents answer [] s (s\<lparr>s_ReceiveLoopStarted := a\<rparr>)"
  by (rule talks_quiet[where new = "[]"]; simp)+

lemma recv_or_disconnect_talks:
  assumes "sess_ok inv s"
  shows "talks env contents answer [] s
    (let (ok, s1) = RequestRecv env ops onDisc zero s in
     if \<not> ok then RequestDisconnect0 ops onDisc (s1\<lparr>s_RecvInProgress := False\<rparr>) else s1)"
proof -
  let ?s1 = "snd (RequestRecv env ops onDisc zero s)"
  have ok: "sess_ok inv ?s1" by (rule calm_ok[OF RequestRecv_calm[OF assms] assms])
  have "talks env contents answer [] ?s1 (RequestDisconnect0 ops onDisc (?s1\<lparr>s_RecvInProgress := False\<rparr>))"
    by (rule disconnect0_talks) (use ok in \<open>simp_all add: sess_ok_def\<close>)
  then show ?thesis
    using RequestRecv_talks[OF assms, of answer zero] talks_then_quiet by (auto simp: split_beta Let_def)
qed

lemma RequestReceived_talks:
  assumes "sess_ok inv s"
  shows "talks env contents answer [] s (RequestReceived env ops onDisc s)"
proof -
  have "sess_ok inv (s\<lparr>s_RecvInProgress := True\<rparr>)" using assms by (simp add: sess_ok_def)
  from talks_then_quiet[OF talks_flags(1) recv_or_disconnect_talks[OF this]]
  show ?thesis by (simp add: RequestReceived_def)
qed

lemma StartReceiveLoop_talks:
  assumes "sess_ok inv s"
  shows "talks env contents answer [] s (StartReceiveLoop env ops onDisc s)"
proof -
  have "sess_ok inv (s\<lparr>s_ReceiveLoopStarted := True\<rparr>)" using assms by (simp add: sess_ok_def)
  from talks_then_quiet[OF talks_flags(2) RequestReceived_talks[OF this]]
  show ?thesis by (simp add: StartReceiveLoop_def)
qed

text \<open>The end of a completion.\<close>

lemma guard_talks:
  assumes "sess_ok inv s"
  shows "talks env contents answer [] s (IoCompletionGuard_dtor ops onDisc s)"
proof -
  let ?s1 = "s\<lparr>s_OutstandingIoCount := s_OutstandingIoCount s - 1, s_Trace := s_Trace s @ [Gh_IoDone]\<rparr>"
  have ok: "sess_ok inv ?s1" using assms by (simp add: sess_ok_def)
  have 1: "talks env contents answer [] s ?s1" by (rule talks_quiet[where new = "[Gh_IoDone]"]) auto
  have "talks env contents answer [] s (TryFireOnDisconnected ops onDisc ?s1)" if "s_DisconnectRequested s"
    using talks_then_quiet[OF 1 talks_after[OF calm_evolves[OF TryFire_calm(1)[OF _ ok]] ok]] that by simp
  then show ?thesis using 1 by (auto simp: IoCompletionGuard_dtor_def Let_def)
qed

end

section \<open>Sessions whose hooks answer\<close>

text \<open>What a subclass must add to the contract: its \<open>OnPacketReceived\<close> answers a packet with the
  messages \<open>answer\<close> allows, and \<open>OnSent\<close> sends nothing.\<close>

locale session_talk = session_client ops contents cap inv env cb
  for ops :: "'b IBuffer" and contents and cap and inv and env
    and cb :: "('b, 'z) IOSession_scheme session_callbacks" +
  fixes answer :: "Packet \<Rightarrow> (u16 \<times> byte list) list \<Rightarrow> bool"
  assumes packet_talks: "sess_ok inv s \<Longrightarrow> talks env contents answer [Got p] s (cb_OnPacketReceived cb p s)"
    and sent_talks: "sess_ok inv s \<Longrightarrow> talks env contents answer [] s (cb_OnSent cb n s)"
begin

text \<open>A step that is caused by the packets it dispatched.\<close>

definition dispatches where
  "dispatches s s' \<longleftrightarrow> (\<exists>new. s_Trace s' = s_Trace s @ new \<and> talks env contents answer (map Got (packets_of new)) s s')"

lemma dispatches_trans:
  assumes "dispatches s t" "dispatches t u"
  shows "dispatches s u"
proof -
  obtain a b where "s_Trace t = s_Trace s @ a" "talks env contents answer (map Got (packets_of a)) s t"
    "s_Trace u = s_Trace t @ b" "talks env contents answer (map Got (packets_of b)) t u"
    using assms by (auto simp: dispatches_def)
  then show ?thesis
    unfolding dispatches_def using talks_trans by (intro exI[of _ "a @ b"]) auto
qed

lemma calm_dispatches:
  "calm env inv s s' \<Longrightarrow> talks env contents answer [] s s' \<Longrightarrow> dispatches s s'"
  by (auto simp: dispatches_def calm_def)

lemma ReadReceivedBuffers_talks:
  assumes "sess_ok inv s" "ReadReceivedBuffers fuel ops cb s = Some s'"
  shows "dispatches s s'"
  using assms
proof (induction fuel arbitrary: s)
  case (Suc fuel)
  have same: "dispatches s s" by (rule calm_dispatches) simp_all
  show ?case
  proof (cases "s_pReceiveBuffer s = None \<or> s_DisconnectRequested s")
    case True
    then show ?thesis using Suc.prems same by (auto split: option.splits)
  next
    case False
    then obtain rb where rb: "s_pReceiveBuffer s = Some rb" "inv rb" and alive: "\<not> s_DisconnectRequested s"
      using Suc.prems(1) by (auto simp: sess_ok_def)
    have upd: "s\<lparr>s_pReceiveBuffer := Some rb\<rparr> = s" using rb by (cases s) auto
    show ?thesis
    proof (cases "deframe (contents rb)")
      case Stuck
      then have "s' = s" using Suc.prems(2) alive rb framer_short[OF rb(2)] upd by (simp add: Let_def)
      then show ?thesis using same by simp
    next
      case Corrupt
      then have "s' = RequestDisconnect0 ops onDisc s"
        using Suc.prems(2) alive rb framer_corrupt[OF rb(2)] upd by (simp add: Let_def)
      then show ?thesis
        using calm_dispatches[OF RequestDisconnect0_calm(1)[OF Suc.prems(1)] disconnect0_talks[OF Suc.prems(1)]] by simp
    next
      case (Framed p r)
      obtain rb' where rb': "TryFrameFromBuffer ops rb = (\<lparr>frame_Result = FrameOk, frame_PacketOpt = Some p\<rparr>, rb')" "inv rb'"
        using framer_ok[OF rb(2) Framed] by auto
      let ?s1 = "s\<lparr>s_pReceiveBuffer := Some rb', s_Trace := s_Trace s @ [Cb_OnPacketReceived p]\<rparr>"
      let ?s2 = "cb_OnPacketReceived cb p ?s1"
      have ok1: "sess_ok inv ?s1" using Suc.prems(1) rb'(2) by (simp add: sess_ok_def)
      have c2: "calm env inv ?s1 ?s2" by (rule packet_calm[OF ok1])
      obtain new where new: "s_Trace ?s2 = s_Trace s @ Cb_OnPacketReceived p # new" "packets_of new = []"
        using c2 by (auto simp: calm_def)
      have "talks env contents answer [] s ?s1"
        by (rule talks_quiet[where new = "[Cb_OnPacketReceived p]"]) auto
      from talks_trans[OF this packet_talks[OF ok1]] have "talks env contents answer [Got p] s ?s2" by simp
      then have "dispatches s ?s2"
        unfolding dispatches_def using new by (intro exI[of _ "Cb_OnPacketReceived p # new"]) auto
      moreover have "dispatches ?s2 s'"
        using Suc.IH[OF calm_ok[OF c2 ok1]] Suc.prems(2) alive rb rb' by (simp add: Let_def)
      ultimately show ?thesis by (rule dispatches_trans)
    qed
  qed
qed simp

end

end
