(* ===== verification/Session_Exchange.thy ===== *)
theory Session_Exchange
  imports Session_Outgoing
begin

text \<open>
  Histories of an IOCP session with everything that went in and out: \<open>exchange\<close> records the
  received bytes and the causes of what was sent. It says what the kernel may do: fill the
  posted region, and complete a send that is in flight with at most its length.

  These are sequential histories: each call of the session ends before the next begins, as
  when one thread serves it. The code does not enforce this. The send path of \<open>IOSession\<close> holds no
  lock, so with several workers a \<open>SendMessage\<close> and the completion of a send can run at the same
  time, and \<open>IO_Session_Race\<close>, where the calls are cut into their atomic steps, shows in
  \<open>race_stream_can_break\<close> that bytes can then be given to the connection twice. What is said here of
  the bytes holds of the histories in which no two calls of a session overlap.
\<close>

text \<open>\<open>SendBuffer\<close> drops what does not fit, without a word to its caller.\<close>

definition buffer_takes :: "'b IBuffer \<Rightarrow> byte list \<Rightarrow> ('b, 'z) IOSession_scheme \<Rightarrow> bool" where
  "buffer_takes ops data s = (case s_pSendBuffer s of None \<Rightarrow> False | Some sb \<Rightarrow> fst (vWrite ops data sb))"

inductive exchange ::
  "env \<Rightarrow> (trace \<Rightarrow> int) \<Rightarrow> 'b IBuffer \<Rightarrow> ('b, 'z) IOSession_scheme session_callbacks \<Rightarrow>
   ('b, 'z) IOSession_scheme \<Rightarrow> byte list \<Rightarrow> cause list \<Rightarrow> ('b, 'z) IOSession_scheme \<Rightarrow> bool"
  for env clock ops cb s0 where
  ex_start: "exchange env clock ops cb s0 [] [] s0"
| ex_send: "exchange env clock ops cb s0 xs cs s \<Longrightarrow>
    exchange env clock ops cb s0 xs (cs @ [Asked i body]) (SendMessage env ops (cb_OnDisconnected cb) i body s)"
| ex_send_buffer: "exchange env clock ops cb s0 xs cs s \<Longrightarrow>
    exchange env clock ops cb s0 xs (cs @ (if buffer_takes ops (encode i body) s then [Asked i body] else []))
      (SendBuffer env ops (encode i body) s)"
| ex_loop: "exchange env clock ops cb s0 xs cs s \<Longrightarrow>
    exchange env clock ops cb s0 xs cs (StartReceiveLoop env ops (cb_OnDisconnected cb) s)"
| ex_disconnect: "exchange env clock ops cb s0 xs cs s \<Longrightarrow>
    exchange env clock ops cb s0 xs cs (RequestDisconnect ops (cb_OnDisconnected cb) reason s)"
| ex_completion: "exchange env clock ops cb s0 xs cs s \<Longrightarrow> 1 \<le> s_OutstandingIoCount s \<Longrightarrow> p \<noteq> OvNull \<Longrightarrow>
    (p = OvRecv \<Longrightarrow> \<not> bSuccess \<or> o_IsZeroByte (s_RecvOverlapped s) \<or> n = 0) \<Longrightarrow>
    (p = OvSend \<Longrightarrow> bSuccess \<Longrightarrow> sending env s \<noteq> [] \<and> n \<le> length (sending env s)) \<Longrightarrow>
    OnIOCompleted env clock ops cb bSuccess n p s = Some s' \<Longrightarrow> exchange env clock ops cb s0 xs cs s'"
| ex_received: "exchange env clock ops cb s0 xs cs s \<Longrightarrow> 1 \<le> s_OutstandingIoCount s \<Longrightarrow>
    s_pReceiveBuffer s = Some rb \<Longrightarrow> \<not> o_IsZeroByte (s_RecvOverlapped s) \<Longrightarrow>
    vGetWriteableBuffers ops rb = (free, o_WSABufs (s_RecvOverlapped s)) \<Longrightarrow> data \<noteq> [] \<Longrightarrow> length data \<le> free \<Longrightarrow>
    OnIOCompleted env clock ops cb True (length data) OvRecv (kernel_recv ops data s) = Some s' \<Longrightarrow>
    s_Trace s' = s_Trace s @ new \<Longrightarrow>
    exchange env clock ops cb s0 (xs @ data) (cs @ map Got (packets_of new)) s'"

lemma exchange_stream:
  "exchange env clock ops cb s0 xs cs s \<Longrightarrow> session_stream env clock ops cb s0 xs s"
  by (induction rule: exchange.induct) (auto intro: session_stream.intros)

text \<open>The packets among the causes.\<close>

definition got :: "cause list \<Rightarrow> Packet list" where
  "got cs = List.map_filter (\<lambda>c. case c of Got p \<Rightarrow> Some p | Asked i body \<Rightarrow> None) cs"

lemma got_simps [simp]:
  "got [] = []" "got (Got p # cs) = p # got cs" "got (Asked i body # cs) = got cs"
  "got (a @ b) = got a @ got b" "got (map Got ps) = ps"
  by (induction ps) (simp_all add: got_def List.map_filter_def)

context session_talk
begin

lemma same_dispatches:
  assumes "s_Trace s' = s_Trace s" "s_DisconnectRequested s' = s_DisconnectRequested s"
    "s_pSendBuffer s' = s_pSendBuffer s" "s_SendInProgress s' = s_SendInProgress s"
  shows "dispatches s s'"
  using assms talks_quiet[of s' s "[]"] by (auto simp: dispatches_def)

lemma disconnect_dispatches:
  assumes "sess_ok inv s" "s_Trace s = s_Trace s0" "s_DisconnectRequested s = s_DisconnectRequested s0"
  shows "dispatches s0 (RequestDisconnect0 ops onDisc s)"
  using RequestDisconnect0_calm(1)[OF assms(1)] disconnect0_talks[OF assms, of answer] assms(2)
  by (auto simp: dispatches_def calm_def)

lemma keeps_dispatches:
  "inbound_keeps s s' \<Longrightarrow> talks env contents answer [] s s' \<Longrightarrow> dispatches s s'"
  by (auto simp: dispatches_def inbound_keeps_def)

lemma same_send_buffer: "s_pSendBuffer s = sb \<Longrightarrow> s\<lparr>s_pSendBuffer := sb\<rparr> = s"
  by (cases s) simp

text \<open>A packet handed over in one piece goes out like a message, unless the ring has no room for it.\<close>

lemma SendBuffer_talks:
  assumes "sess_ok inv s"
  shows "talks env contents answer (if buffer_takes ops (encode i body) s then [Asked i body] else []) s
    (SendBuffer env ops (encode i body) s)"
proof -
  have ne: "encode i body \<noteq> []" using length_encode[of i body] by (metis add_is_0 list.size(3) zero_neq_numeral)
  have refl: "talks env contents answer [] s s" by (rule talks_quiet[where new = "[]"]) auto
  show ?thesis
  proof (cases "s_pSendBuffer s")
    case None
    then show ?thesis using refl by (simp add: SendBuffer_def buffer_takes_def)
  next
    case (Some sb)
    then have sb: "inv sb" using assms by (simp add: sess_ok_def)
    consider (disc) "s_DisconnectRequested s" | (full) "\<not> s_DisconnectRequested s" "cap sb < length (contents sb) + length (encode i body)"
      | (room) "\<not> s_DisconnectRequested s" "length (contents sb) + length (encode i body) \<le> cap sb" by linarith
    then show ?thesis
    proof cases
      case disc
      have "talks env contents answer [Asked i body] s s"
        unfolding talks_def using disc by (intro conjI allI impI exI[of _ "[]"]) (auto simp: out_ok_def)
      then show ?thesis using disc Some refl by (simp add: SendBuffer_def)
    next
      case full
      have w: "vWrite ops (encode i body) sb = (False, sb)" by (rule write_full[OF sb full(2)])
      have "talks env contents answer [] s (s\<lparr>s_pSendBuffer := Some sb\<rparr>)" using refl Some by (metis same_send_buffer)
      then show ?thesis using full(1) Some w ne by (simp add: SendBuffer_def buffer_takes_def)
    next
      case room
      obtain sb' where w: "vWrite ops (encode i body) sb = (True, sb')" "inv sb'" "contents sb' = contents sb @ encode i body"
        using write_ok[OF sb room(2)] by blast
      let ?t = "s\<lparr>s_pSendBuffer := Some sb'\<rparr>"
      have "talks env contents answer [Asked i body] s ?t"
        unfolding talks_def
        using room(1) Some w(3)
        by (intro conjI allI impI exI[of _ "[Asked i body]"] exI[of _ "[(i, body)]"])
          (auto simp: out_ok_def given_def unsent_def intro: prefix_prefix)
      moreover have "sess_ok inv ?t" using assms w(2) by (simp add: sess_ok_def)
      ultimately show ?thesis
        using room(1) Some w(1) ne talks_then_quiet[OF _ TryPost_talks]
        by (simp add: SendBuffer_def buffer_takes_def)
    qed
  qed
qed

section \<open>Completions\<close>

lemma HandleReal_dispatches:
  assumes "sess_ok inv s" "HandleRealRecvCompletion env clock ops cb n s = Some s'"
  shows "dispatches s s'"
proof (cases "n = 0 \<or> s_pReceiveBuffer s = None")
  case True
  have ok: "sess_ok inv (s\<lparr>s_RecvInProgress := False\<rparr>)" using assms(1) by (simp add: sess_ok_def)
  have "dispatches s (RequestDisconnect0 ops onDisc (s\<lparr>s_RecvInProgress := False\<rparr>))"
    by (rule disconnect_dispatches[OF ok]) simp_all
  then show ?thesis
    using True assms(2) same_dispatches[of s s]
    by (auto simp: HandleRealRecvCompletion_def split: if_splits option.splits)
next
  case False
  then obtain rb where rb: "s_pReceiveBuffer s = Some rb" "inv rb" and n: "n \<noteq> 0"
    using assms(1) by (auto simp: sess_ok_def)
  obtain ok rb' where c: "vCommitWrite ops n rb = (ok, rb')" by (cases "vCommitWrite ops n rb")
  have rb': "inv rb'" using commit_inv[OF rb(2), of n] c by simp
  let ?s1 = "s\<lparr>s_pReceiveBuffer := Some rb'\<rparr>"
  let ?s2 = "?s1\<lparr>s_LastRecvTimeMs := clock (s_Trace s), s_TotalRxBytes := s_TotalRxBytes s + of_nat n\<rparr>"
  have oks: "sess_ok inv (?s1\<lparr>s_RecvInProgress := False\<rparr>)" "sess_ok inv ?s2"
    using assms(1) rb' by (simp_all add: sess_ok_def)
  show ?thesis
  proof (cases "ok \<and> \<not> s_DisconnectRequested s")
    case True
    obtain s3 where s3: "ReadReceivedBuffers (read_fuel ops ?s2) ops cb ?s2 = Some s3"
      "s' = RequestReceived env ops onDisc (s3\<lparr>s_RecvInProgress := False\<rparr>)" "sess_ok inv s3"
    proof -
      obtain s3 where r: "ReadReceivedBuffers (read_fuel ops ?s2) ops cb ?s2 = Some s3" "drained (contents rb') ?s2 s3"
        using read_fuel_enough[OF oks(2), of rb'] by auto
      have "s' = RequestReceived env ops onDisc (s3\<lparr>s_RecvInProgress := False\<rparr>)"
        using assms(2) True c rb n r(1) by (simp add: HandleRealRecvCompletion_def Let_def)
      then show ?thesis by (rule that[OF r(1) _ evolves_ok[OF drained_evolves[OF r(2)] oks(2)]])
    qed
    have ok3: "sess_ok inv (s3\<lparr>s_RecvInProgress := False\<rparr>)" using s3(3) by (simp add: sess_ok_def)
    have 1: "dispatches s ?s2" by (rule same_dispatches) simp_all
    have 2: "dispatches ?s2 s3" by (rule ReadReceivedBuffers_talks[OF oks(2) s3(1)])
    have 3: "dispatches s3 (s3\<lparr>s_RecvInProgress := False\<rparr>)" by (rule same_dispatches) simp_all
    have 4: "dispatches (s3\<lparr>s_RecvInProgress := False\<rparr>) s'"
      unfolding s3(2) by (rule calm_dispatches[OF RequestReceived_calm[OF ok3] RequestReceived_talks[OF ok3]])
    show ?thesis by (rule dispatches_trans[OF dispatches_trans[OF 1 2] dispatches_trans[OF 3 4]])
  next
    case False
    have "dispatches s (RequestDisconnect0 ops onDisc (?s1\<lparr>s_RecvInProgress := False\<rparr>))"
      by (rule disconnect_dispatches[OF oks(1)]) simp_all
    moreover have "dispatches s (?s2\<lparr>s_RecvInProgress := False\<rparr>)" by (rule same_dispatches) simp_all
    ultimately show ?thesis
      using False assms(2) c rb n by (auto simp: HandleRealRecvCompletion_def Let_def split: if_splits)
  qed
qed

lemma HandleRecv_dispatches:
  assumes "sess_ok inv s" "HandleRecvCompletion env clock ops cb bSuccess n s = Some s'"
  shows "dispatches s s'"
proof -
  have ok: "sess_ok inv (s\<lparr>s_RecvInProgress := False\<rparr>)" using assms(1) by (simp add: sess_ok_def)
  have "dispatches s (RequestDisconnect0 ops onDisc (s\<lparr>s_RecvInProgress := False\<rparr>))"
    by (rule disconnect_dispatches[OF ok]) simp_all
  moreover have "dispatches s (HandleZeroByteRecvCompletion env ops onDisc n s)"
    using calm_dispatches[OF recv_or_disconnect_calm[OF assms(1)] recv_or_disconnect_talks[OF assms(1)], of False]
      same_dispatches[of "s\<lparr>s_RecvInProgress := False\<rparr>" s]
    by (simp add: HandleZeroByteRecvCompletion_def)
  ultimately show ?thesis
    using assms(2) HandleReal_dispatches[OF assms(1)] by (auto simp: HandleRecvCompletion_def split: if_splits)
qed

text \<open>A completed send: what was acknowledged leaves the ring, and the rest is posted again.\<close>

lemma acknowledged:
  assumes "out_ok env contents ms s" "sess_ok inv s" "sending env s \<noteq> []" "n \<le> length (sending env s)"
    "\<not> s_DisconnectRequested s"
  shows "out_ok env contents ms (s\<lparr>s_SendInProgress := False,
    s_pSendBuffer := map_option (snd \<circ> vConsume ops n) (s_pSendBuffer s),
    s_TotalTxBytes := t, s_Trace := s_Trace s @ [Cb_OnSent n]\<rparr>)"
proof -
  obtain sb where sb: "s_pSendBuffer s = Some sb" "inv sb" using assms(1,2,5) by (auto simp: out_ok_def sess_ok_def)
  have ms: "encode_all ms = acked env s @ contents sb" using assms(1,5) sb by (simp add: out_ok_def unsent_def)
  have "prefix (sending env s) (contents sb)" using assms(1) ms by (simp add: out_ok_def given_def)
  then obtain r where r: "contents sb = sending env s @ r" by (auto simp: prefix_def)
  have "contents (snd (vConsume ops n sb)) = drop n (contents sb)"
    using consume_ok[OF sb(2), of n] r assms(4) by auto
  then show ?thesis
    using ms sb r assms(4) by (cases "wire env (s_Trace s)") (auto simp: out_ok_def given_def unsent_def take_is_prefix intro: prefix_prefix)
qed

lemma HandleSend_talks:
  assumes "sess_ok inv s" "bSuccess \<Longrightarrow> sending env s \<noteq> [] \<and> n \<le> length (sending env s)"
  shows "talks env contents answer [] s (HandleSendCompletion env ops cb bSuccess n s)"
proof -
  let ?s1 = "s\<lparr>s_SendInProgress := False\<rparr>"
  let ?s3 = "?s1\<lparr>s_pSendBuffer := map_option (snd \<circ> vConsume ops n) (s_pSendBuffer s),
    s_TotalTxBytes := s_TotalTxBytes s + of_nat n\<rparr>"
  let ?s3' = "?s3\<lparr>s_Trace := s_Trace s @ [Cb_OnSent n]\<rparr>"
  let ?s4 = "cb_OnSent cb n ?s3'"
  have send: "pred_option inv (map_option (snd \<circ> vConsume ops n) (s_pSendBuffer s))"
    using assms(1) consume_contents(2) by (cases "s_pSendBuffer s") (auto simp: sess_ok_def)
  have ok: "sess_ok inv ?s3'" "sess_ok inv ?s1" using assms(1) send by (simp_all add: sess_ok_def)
  have 1: "talks env contents answer [] s (RequestDisconnect0 ops onDisc ?s1)"
    by (rule disconnect0_talks[OF ok(2)]) simp_all
  have 2: "talks env contents answer [] s ?s3" if "s_DisconnectRequested s"
    by (rule talks_quiet[where new = "[]"]) (use that in auto)
  have 3: "talks env contents answer [] s ?s3'" if "\<not> s_DisconnectRequested s" bSuccess
    using acknowledged[OF _ assms(1), of _ n] assms(2) that by (simp add: talks_def)
  have 4: "talks env contents answer [] s ?s4" if "\<not> s_DisconnectRequested s" bSuccess
    by (rule talks_then_quiet[OF 3[OF that] sent_talks[OF ok(1)]])
  have 5: "talks env contents answer [] s (snd (TryPostSendFromQueue env ops ?s4))" if "\<not> s_DisconnectRequested s" bSuccess
    by (rule talks_then_quiet[OF 4[OF that] TryPost_talks[OF calm_ok[OF sent_calm[OF ok(1)] ok(1)]]])
  show ?thesis unfolding HandleSendCompletion_def Let_def using 1 2 4 5 by simp
qed

lemma completion_dispatches:
  assumes "sess_ok inv s" "p = OvSend \<Longrightarrow> bSuccess \<Longrightarrow> sending env s \<noteq> [] \<and> n \<le> length (sending env s)"
    "OnIOCompleted env clock ops cb bSuccess n p s = Some s'"
  shows "dispatches s s'"
proof -
  have guarded: "dispatches s (IoCompletionGuard_dtor ops onDisc t)" if "dispatches s t" "sess_ok inv t" for t
    using dispatches_trans[OF that(1) keeps_dispatches[OF keeps_inbound[OF guard_keeps[OF that(2)]] guard_talks[OF that(2)]]] .
  show ?thesis
  proof (cases p)
    case OvRecv
    obtain t where t: "HandleRecvCompletion env clock ops cb bSuccess n s = Some t" "evolves env inv s t"
      using HandleRecv_evolves[OF assms(1)] by blast
    show ?thesis
      using guarded[OF HandleRecv_dispatches[OF assms(1) t(1)] evolves_ok[OF t(2) assms(1)]] assms(3) OvRecv t(1)
      by (simp add: OnIOCompleted_def)
  next
    case OvSend
    have "dispatches s (HandleSendCompletion env ops cb bSuccess n s)"
      using keeps_dispatches[OF HandleSend_keeps[OF assms(1)] HandleSend_talks[OF assms(1)]] assms(2) OvSend by blast
    from guarded[OF this evolves_ok[OF HandleSend_evolves[OF assms(1)] assms(1)]] show ?thesis
      using assms(3) OvSend by (simp add: OnIOCompleted_def)
  qed (use assms guarded[of s] same_dispatches[of s s] in \<open>auto simp: OnIOCompleted_def\<close>)
qed

section \<open>Histories\<close>

lemma exchange_inv:
  assumes "exchange env clock ops cb s0 xs cs s" "session_inv env inv s0"
  shows "session_inv env inv s"
  by (rule session_run_inv[OF session_stream_run[OF exchange_stream[OF assms(1)]] assms(2)])

lemma exchange_ok:
  assumes "exchange env clock ops cb s0 xs cs s" "session_inv env inv s0"
  shows "sess_ok inv s"
  using exchange_inv[OF assms] by (simp add: session_inv_def)

lemma exchange_talks:
  assumes "exchange env clock ops cb s0 xs cs s" "session_inv env inv s0"
  shows "talks env contents answer cs s0 s"
  using assms(1)
proof induction
  case (ex_send xs cs s i body)
  have "sess_ok inv s"
    by (rule exchange_ok[OF ex_send(1) assms(2)])
  then show ?case using talks_trans[OF ex_send.IH SendMessage_talks] by blast
next
  case (ex_send_buffer xs cs s i body)
  have "sess_ok inv s"
    by (rule exchange_ok[OF ex_send_buffer(1) assms(2)])
  then show ?case using talks_trans[OF ex_send_buffer.IH SendBuffer_talks] by blast
next
  case (ex_loop xs cs s)
  have "sess_ok inv s"
    by (rule exchange_ok[OF ex_loop(1) assms(2)])
  then show ?case using talks_then_quiet[OF ex_loop.IH StartReceiveLoop_talks] by blast
next
  case (ex_disconnect xs cs s reason)
  have "sess_ok inv s"
    by (rule exchange_ok[OF ex_disconnect(1) assms(2)])
  then show ?case using talks_then_quiet[OF ex_disconnect.IH disconnect_talks] by blast
next
  case (ex_completion xs cs s p bSuccess n s')
  have inv: "session_inv env inv s"
    by (rule exchange_inv[OF ex_completion(1) assms(2)])
  have "dispatches s s'"
    by (rule completion_dispatches[OF exchange_ok[OF ex_completion(1) assms(2)] _ ex_completion(6)]) (rule ex_completion(5))
  moreover have "inbound_keeps s s'" by (rule no_data_keeps[OF inv]) (use ex_completion in auto)
  ultimately have "talks env contents answer [] s s'" by (auto simp: dispatches_def inbound_keeps_def)
  then show ?case using talks_then_quiet ex_completion.IH by blast
next
  case (ex_received xs cs s rb free data s' new)
  have "sess_ok inv s"
    by (rule exchange_ok[OF ex_received(1) assms(2)])
  then have "sess_ok inv (kernel_recv ops data s)"
    using evolves_ok[OF kernel_recv_evolves] ex_received by blast
  from completion_dispatches[OF this _ ex_received(8)] have "dispatches (kernel_recv ops data s) s'" by simp
  moreover have "dispatches s (kernel_recv ops data s)" by (rule same_dispatches) (simp_all add: kernel_recv_def)
  ultimately have "dispatches s s'" using dispatches_trans by blast
  then have "talks env contents answer (map Got (packets_of new)) s s'"
    using ex_received(9) by (auto simp: dispatches_def)
  then show ?case using talks_trans ex_received.IH by blast
qed simp

lemma calm_packets: "calm env inv s s' \<Longrightarrow> packets_of (s_Trace s') = packets_of (s_Trace s)"
  by (auto simp: calm_def)

text \<open>The packets among the causes are the packets dispatched.\<close>

lemma exchange_got:
  assumes "exchange env clock ops cb s0 xs cs s" "session_inv env inv s0" "packets_of (s_Trace s0) = []"
  shows "got cs = packets_of (s_Trace s)"
  using assms(1)
proof induction
  case (ex_send xs cs s i body)
  then show ?case using calm_packets[OF SendMessage_calm[OF exchange_ok[OF ex_send(1) assms(2)]]] by simp
next
  case (ex_send_buffer xs cs s i body)
  then show ?case using calm_packets[OF SendBuffer_calm[OF exchange_ok[OF ex_send_buffer(1) assms(2)]]] by simp
next
  case (ex_loop xs cs s)
  then show ?case using calm_packets[OF StartReceiveLoop_calm[OF exchange_ok[OF ex_loop(1) assms(2)]]] by simp
next
  case (ex_disconnect xs cs s reason)
  then show ?case using calm_packets[OF RequestDisconnect_calm(1)[OF exchange_ok[OF ex_disconnect(1) assms(2)]]] by simp
next
  case (ex_completion xs cs s p bSuccess n s')
  have "inbound_keeps s s'" by (rule no_data_keeps[OF exchange_inv[OF ex_completion(1) assms(2)]]) (use ex_completion in auto)
  then show ?case using ex_completion.IH by (auto simp: inbound_keeps_def)
qed (use assms(3) in simp_all)

end

end
