(* ===== verification/Dialogue.thy ===== *)
theory Dialogue
  imports Session_Exchange Message_Delivery
begin

text \<open>
  Requests and answers over a connection between the demo client and the IOCP server. The
  predicates \<open>iocp_answer\<close> and \<open>client_answer\<close> say which message a received packet is answered with; the
  hooks of \<open>IOCPInboundSession.cpp\<close> and \<open>FastPortOutboundSession.cpp\<close> keep them, so what leaves a session
  are the answers to what it received, in order. Putting both ends together gives the
  end-to-end property of the connection. All of this is about sequential histories of a session
  (\<open>exchange\<close>), in which no two calls overlap; \<open>race_stream_can_break\<close> in \<open>IO_Session_Race\<close> shows that the
  order of the bytes is lost when they do.
\<close>

section \<open>What a packet is answered with\<close>

text \<open>\<open>adm\<close> tells whether the process has an admin handler.\<close>

definition admin_answer :: "codec \<Rightarrow> Packet \<Rightarrow> (u16 \<times> byte list) list \<Rightarrow> bool" where
  "admin_answer cd p out \<longleftrightarrow>
     (if GetPacketId p = kPacketId_SummaryRequest then
        (case parse_summary cd (m_Payload p) of
           None \<Rightarrow> out = []
         | Some h \<Rightarrow> \<exists>r. out = [(kPacketId_SummaryResponse, ser_summary cd r)] \<and> sr_header r = h \<and> sr_result r = RESULT_CODE_OK)
      else if GetPacketId p = kPacketId_SessionListReq then
        (case parse_list cd (m_Payload p) of
           None \<Rightarrow> out = []
         | Some q \<Rightarrow> \<exists>r. out = [(kPacketId_SessionListRes, ser_list cd r)] \<and> ls_header r = lr_header q \<and> ls_result r = RESULT_CODE_OK)
      else out = [])"

definition iocp_answer :: "codec \<Rightarrow> bool \<Rightarrow> Packet \<Rightarrow> (u16 \<times> byte list) list \<Rightarrow> bool" where
  "iocp_answer cd adm p out \<longleftrightarrow>
     (if IsAdminPacketId (GetPacketId p) then (if adm then admin_answer cd p out else out = [])
      else if GetPacketId p = PACKET_ID_BENCHMARK_REQUEST then
        (case parse_bench cd (m_Payload p) of
           None \<Rightarrow> out = []
         | Some q \<Rightarrow> \<exists>r. out = [(PACKET_ID_BENCHMARK_RESPONSE, ser_bench cd r)] \<and> bs_header r = bq_header q \<and>
             bs_sequence r = bq_sequence q \<and> bs_payload r = bq_payload q \<and>
             bs_client_timestamp_ns r = bq_client_timestamp_ns q)
      else if GetPacketId p = PACKET_ID_ECHO_REQUEST then
        (case parse_echo cd (m_Payload p) of
           None \<Rightarrow> out = []
         | Some q \<Rightarrow> \<exists>r. out = [(PACKET_ID_ECHO_REQUEST, ser_echo cd r)] \<and>
             hd_request_id (es_header r) = hd_request_id (eq_header q) + 1 \<and> es_data_str r = eq_data_str q)
      else out = [])"

definition client_answer :: "codec \<Rightarrow> Packet \<Rightarrow> (u16 \<times> byte list) list \<Rightarrow> bool" where
  "client_answer cd p out \<longleftrightarrow>
     (case parse_echo cd (m_Payload p) of
        None \<Rightarrow> out = []
      | Some q \<Rightarrow> \<exists>r. out = [(PACKET_ID_ECHO_REQUEST, ser_echo cd r)] \<and>
          hd_request_id (es_header r) = hd_request_id (eq_header q) + 1 \<and> es_data_str r = eq_data_str q)"

section \<open>The hooks answer\<close>

lemma ex_same: "P r \<Longrightarrow> \<exists>q. f r = f q \<and> P q"
  by blast

lemma HandlePacket_answers:
  assumes "\<And>i b. talks env contents answer [Asked i b] s (send i b s)" "\<And>out. admin_answer cd p out \<Longrightarrow> answer p out"
    "IsAdminPacketId (GetPacketId p)"
  shows "talks env contents answer [Got p] s (snd (AdminPacketHandler_HandlePacket cd send summaryOf sessionsOf p s))"
proof -
  have send: "talks env contents answer [Got p] s (send i b s)" if "admin_answer cd p [(i, b)]" for i b
    using talks_answered[of env contents answer i b s _ p, OF assms(1) assms(2)[OF that]] .
  have none: "talks env contents answer [Got p] s s" if "admin_answer cd p []"
    using talks_nothing_due[of answer p, OF assms(2)[OF that]] .
  have hd: "\<lparr>hd_request_id = hd_request_id h, hd_timestamp_ms = hd_timestamp_ms h\<rparr> = h" for h :: Header by simp
  show ?thesis
    unfolding AdminPacketHandler_HandlePacket_def HandleSummaryRequest_def HandleSessionListRequest_def Let_def
    using assms(3)
    by (auto simp: admin_answer_def kPacketId_SummaryRequest_def kPacketId_SessionListReq_def hd
        split: option.splits intro!: send none ex_same)
qed

lemma iocp_packet_talks:
  assumes "sess_ok cbq_inv s"
  shows "talks env cbq_contents (iocp_answer cd (admin \<noteq> None)) [Got p] s
    (IOCPInboundSession_OnPacketReceived env CircleBufferQueue_vtable cd nowNs time0 admin p s)"
proof -
  define adm where "adm = (admin \<noteq> None)"
  let ?ans = "iocp_answer cd adm"
  let ?send = "\<lambda>i b. SendMessage env CircleBufferQueue_vtable IOCPInboundSession_OnDisconnected i b"
  note talk = iocp0.SendMessage_talks[OF assms]
  have send: "talks env cbq_contents ?ans [Got p] s (?send i b s)" if "?ans p [(i, b)]" for i b
    using talks_answered[of env cbq_contents ?ans i b s _ p, OF talk that] .
  have none: "talks env cbq_contents ?ans [Got p] s s" if "?ans p []"
    using talks_nothing_due[of ?ans p, OF that] .
  have adm: "talks env cbq_contents ?ans [Got p] s (snd (AdminPacketHandler_HandlePacket cd ?send f g p s))"
    if "IsAdminPacketId (GetPacketId p)" "admin = Some (f, g)" for f g
    by (rule HandlePacket_answers[where send = ?send]) (use talk that in \<open>simp_all add: iocp_answer_def adm_def\<close>)
  have hd: "\<lparr>hd_request_id = hd_request_id h, hd_timestamp_ms = hd_timestamp_ms h\<rparr> = h" for h :: Header by simp
  consider (admin) "IsAdminPacketId (GetPacketId p)"
    | (bench) "\<not> IsAdminPacketId (GetPacketId p)" "GetPacketId p = PACKET_ID_BENCHMARK_REQUEST"
    | (echo) "\<not> IsAdminPacketId (GetPacketId p)" "GetPacketId p \<noteq> PACKET_ID_BENCHMARK_REQUEST" "GetPacketId p = PACKET_ID_ECHO_REQUEST"
    | (other) "\<not> IsAdminPacketId (GetPacketId p)" "GetPacketId p \<noteq> PACKET_ID_BENCHMARK_REQUEST" "GetPacketId p \<noteq> PACKET_ID_ECHO_REQUEST"
    by blast
  then have "talks env cbq_contents ?ans [Got p] s
    (IOCPInboundSession_OnPacketReceived env CircleBufferQueue_vtable cd nowNs time0 admin p s)"
  proof cases
    case admin
    then show ?thesis
      using adm none by (cases admin) (auto simp: IOCPInboundSession_OnPacketReceived_def iocp_answer_def adm_def Let_def)
  next
    case bench
    then show ?thesis
      by (cases "parse_bench cd (m_Payload p)")
        (auto simp: IOCPInboundSession_OnPacketReceived_def IOCPInboundSession_HandleBenchmarkRequest_def Let_def hd
          iocp_answer_def intro!: send none ex_same)
  next
    case echo
    then show ?thesis
      by (cases "parse_echo cd (m_Payload p)")
        (auto simp: IOCPInboundSession_OnPacketReceived_def IOCPInboundSession_HandleEchoRequest_def Let_def
          iocp_answer_def intro!: send none ex_same)
  next
    case other
    then show ?thesis by (auto simp: IOCPInboundSession_OnPacketReceived_def Let_def iocp_answer_def intro!: none)
  qed
  then show ?thesis unfolding adm_def .
qed

interpretation iocp_talk: session_talk CircleBufferQueue_vtable cbq_contents m_Capacity cbq_inv env
  "iocp_callbacks env CircleBufferQueue_vtable cd nowNs time0 admin" "iocp_answer cd (admin \<noteq> None)"
  for env cd nowNs time0 admin
proof (unfold_locales, goal_cases)
  case (1 s p) then show ?case using iocp_packet_talks by (simp add: iocp_callbacks_def)
next
  case (2 s n) then show ?case by (simp add: iocp_callbacks_def IOCPInboundSession_OnSent_def)
qed

lemma client_packet_talks:
  assumes "sess_ok cbq_inv s"
  shows "talks env cbq_contents (client_answer cd) [Got p] s
    (FastPortOutboundSession_OnPacketReceived env CircleBufferQueue_vtable cd time0 p s)"
proof (cases "parse_echo cd (m_Payload p)")
  case None
  then show ?thesis
    using talks_nothing_due[of "client_answer cd" p] by (simp add: FastPortOutboundSession_OnPacketReceived_def client_answer_def)
next
  case (Some q)
  show ?thesis
    unfolding FastPortOutboundSession_OnPacketReceived_def Some Let_def option.case
    by (rule talks_answered[OF client0.SendMessage_talks[OF assms]]) (auto simp: client_answer_def Some)
qed

interpretation client_talk: session_talk CircleBufferQueue_vtable cbq_contents m_Capacity cbq_inv env
  "client_callbacks env CircleBufferQueue_vtable cd time0" "client_answer cd"
  for env cd time0
proof (unfold_locales, goal_cases)
  case (1 s p) then show ?case using client_packet_talks by (simp add: client_callbacks_def)
next
  case (2 s n) then show ?case by (simp add: client_callbacks_def FastPortOutboundSession_OnSent_def)
qed

section \<open>Properties\<close>

lemma out_ok_fresh:
  "s_Trace s = [] \<Longrightarrow> s_pSendBuffer s = Some sb \<Longrightarrow> contents sb = [] \<Longrightarrow> \<not> s_SendInProgress s \<Longrightarrow> out_ok env contents [] s"
  by (simp add: out_ok_def given_def unsent_def)

lemma iocp_fresh_out: "out_ok env cbq_contents [] (fresh_session sessions i sk rc sc)"
  by (rule out_ok_fresh[where sb = "CircleBufferQueue_ctor sc"]) (simp_all add: fresh_defs cbq_contents_ctor)

lemma talks_outcome:
  assumes "talks env contents answer cs s0 s" "out_ok env contents ms0 s0"
  obtains served ms where "prefix served cs" "replies answer served ms" "prefix (given env s) (encode_all (ms0 @ ms))"
    "\<not> s_DisconnectRequested s \<Longrightarrow> served = cs \<and> encode_all (ms0 @ ms) = acked env s @ unsent contents s \<and>
       prefix (sending env s) (unsent contents s)"
proof -
  obtain served ms where m: "prefix served cs" "replies answer served ms" "out_ok env contents (ms0 @ ms) s"
    "\<not> s_DisconnectRequested s \<Longrightarrow> served = cs"
    using assms unfolding talks_def by blast
  have g: "prefix (given env s) (encode_all (ms0 @ ms))"
    and q: "\<not> s_DisconnectRequested s \<Longrightarrow> encode_all (ms0 @ ms) = acked env s @ unsent contents s"
    using m(3) unfolding out_ok_def by blast+
  have "prefix (sending env s) (unsent contents s)" if "\<not> s_DisconnectRequested s"
    using g q[OF that] by (simp add: given_def)
  then show ?thesis using that[OF m(1,2) g] m(4) q by blast
qed

text \<open>C12: the IOCP server answers, as long as the calls of a session come one after the other. Take any
  history of a session that started fresh in which each call (a completion with the hooks it
  runs, a send of the process, a disconnect) ends before the next begins. Then the bytes it gave to
  the connection are the first bytes of the messages that were asked of it: the answers
  to the packets it received (and messages its own process sent), each once and in the order of
  the packets. While the session is connected every packet of the received bytes has been
  answered, and what was not acknowledged yet is exactly what the ring holds. (This does not
  hold when two workers are in the session at once: \<open>race_stream_can_break\<close> is a run of two threads
  in which bytes go out twice.)\<close>

theorem iocp_server_answers_in_order:
  assumes "0 < rc" "0 < sc"
    "exchange env clock CircleBufferQueue_vtable (iocp_callbacks env CircleBufferQueue_vtable cd nowNs time0 admin)
       (fresh_session sessions i sk rc sc) xs cs s"
  shows "\<exists>served ms. prefix served cs \<and> replies (iocp_answer cd (admin \<noteq> None)) served ms \<and>
    prefix (given env s) (encode_all ms) \<and>
    (\<not> s_DisconnectRequested s \<longrightarrow> served = cs \<and> got cs = fst (deframe_all xs) \<and>
       encode_all ms = acked env s @ unsent cbq_contents s \<and> prefix (sending env s) (unsent cbq_contents s))"
proof -
  let ?f = "fresh_session sessions i sk rc sc"
  have inv: "session_inv env cbq_inv ?f" by (rule iocp_fresh_inv[OF assms(1,2)])
  have p0: "packets_of (s_Trace ?f) = []" "s_pReceiveBuffer ?f = Some (CircleBufferQueue_ctor rc)" by (simp_all add: fresh_defs)
  have g: "got cs = packets_of (s_Trace s)" by (rule iocp_talk.exchange_got[OF assms(3) inv p0(1)])
  have "\<not> s_DisconnectRequested s \<Longrightarrow> got cs = fst (deframe_all xs)"
    using iocp.stream_in_order[OF exchange_stream[OF assms(3)] inv p0 cbq_contents_ctor] g by (auto simp: iocp.stream_ok_def)
  moreover obtain served ms where "prefix served cs" "replies (iocp_answer cd (admin \<noteq> None)) served ms"
    "prefix (given env s) (encode_all ms)"
    "\<not> s_DisconnectRequested s \<Longrightarrow> served = cs \<and> encode_all ms = acked env s @ unsent cbq_contents s \<and>
       prefix (sending env s) (unsent cbq_contents s)"
    using talks_outcome[OF iocp_talk.exchange_talks[OF assms(3) inv] iocp_fresh_out] by auto
  ultimately show ?thesis by blast
qed

text \<open>C13: request and reply end to end, when at each end the calls of the session come one after the
  other (no two threads in a session at once; the code does not enforce this, see
  \<open>race_stream_can_break\<close>). Let the demo client and the IOCP server talk over a connection
  that delivers bytes in order: what each has received are the first bytes of what the other gave. Let
  the server's process send nothing of its own. Then there are messages \<open>ms\<close> of the client (those it had
  sent before, and its answers to what it received) and answers \<open>rs\<close> of the server to the first
  of them, such that the server dispatched the first of \<open>ms\<close> and the client the first of \<open>rs\<close>,
  each once and in order; and when both are connected, nothing is queued and everything has arrived, every
  message was answered and every answer was dispatched. (Only messages that fit the 16-bit size
  field are framed correctly.)\<close>

theorem requests_answered_end_to_end:
  assumes "0 < rc" "0 < sc"
    "exchange env clock CircleBufferQueue_vtable (iocp_callbacks env CircleBufferQueue_vtable cd nowNs time0 admin)
       (fresh_session sessions i sk rc sc) xs (map Got ps) s"
    "client_ready cenv c0" "out_ok cenv cbq_contents ms0 c0"
    "exchange cenv cclock CircleBufferQueue_vtable (client_callbacks cenv CircleBufferQueue_vtable ccd ctime) c0 ys ds c"
    "prefix xs (given cenv c)" "prefix ys (given env s)"
  shows "\<exists>asked ms served rs. prefix asked ds \<and> replies (client_answer ccd) asked ms \<and>
    prefix served ps \<and> replies (iocp_answer cd (admin \<noteq> None)) (map Got served) rs \<and>
    (list_all (fits_frame \<circ> snd) (ms0 @ ms @ rs) \<longrightarrow>
       prefix ps (map packet_of (ms0 @ ms)) \<and> prefix (packets_of (s_Trace c)) (map packet_of rs) \<and>
       (\<not> s_DisconnectRequested s \<and> \<not> s_DisconnectRequested c \<and> unsent cbq_contents c = [] \<and> unsent cbq_contents s = [] \<and>
        xs = given cenv c \<and> ys = given env s \<longrightarrow>
          asked = ds \<and> served = map packet_of (ms0 @ ms) \<and> packets_of (s_Trace c) = map packet_of rs))"
proof -
  let ?f = "fresh_session sessions i sk rc sc"
  have inv: "session_inv env cbq_inv ?f" by (rule iocp_fresh_inv[OF assms(1,2)])
  have p0: "packets_of (s_Trace ?f) = []" "s_pReceiveBuffer ?f = Some (CircleBufferQueue_ctor rc)" by (simp_all add: fresh_defs)
  obtain rb where cinv: "session_inv cenv cbq_inv c0" "packets_of (s_Trace c0) = []" "s_pReceiveBuffer c0 = Some rb" "cbq_contents rb = []"
    using assms(4) by (auto simp: client_ready_def)
  have ps: "packets_of (s_Trace s) = ps" using iocp_talk.exchange_got[OF assms(3) inv p0(1)] by simp
  obtain m1 where m1: "fst (deframe_all xs) = ps @ m1" "\<not> s_DisconnectRequested s \<Longrightarrow> m1 = []"
    using iocp.stream_in_order[OF exchange_stream[OF assms(3)] inv p0 cbq_contents_ctor] ps by (auto simp: iocp.stream_ok_def)
  obtain m2 where m2: "fst (deframe_all ys) = packets_of (s_Trace c) @ m2" "\<not> s_DisconnectRequested c \<Longrightarrow> m2 = []"
    using client.stream_in_order[OF exchange_stream[OF assms(6)] cinv] by (auto simp: client.stream_ok_def)
  obtain asked ms where ms: "prefix asked ds" "replies (client_answer ccd) asked ms" "prefix (given cenv c) (encode_all (ms0 @ ms))"
    "\<not> s_DisconnectRequested c \<Longrightarrow> asked = ds \<and> encode_all (ms0 @ ms) = acked cenv c @ unsent cbq_contents c \<and>
       prefix (sending cenv c) (unsent cbq_contents c)"
    using talks_outcome[OF client_talk.exchange_talks[OF assms(6) cinv(1)] assms(5)] by blast
  obtain served' rs where rs: "prefix served' (map Got ps)" "replies (iocp_answer cd (admin \<noteq> None)) served' rs"
    "prefix (given env s) (encode_all ([] @ rs))"
    "\<not> s_DisconnectRequested s \<Longrightarrow> served' = map Got ps \<and> encode_all ([] @ rs) = acked env s @ unsent cbq_contents s \<and>
       prefix (sending env s) (unsent cbq_contents s)"
    using talks_outcome[OF iocp_talk.exchange_talks[OF assms(3) inv] iocp_fresh_out] by blast
  obtain served where served: "served' = map Got served" "prefix served ps"
    using rs(1) by (auto simp: prefix_def map_eq_append_conv)
  have full: "served = ps" if "\<not> s_DisconnectRequested s"
    using rs(4)[OF that] served(1) by (simp add: inj_map_eq_map inj_def)
  have "prefix ps (map packet_of (ms0 @ ms)) \<and> prefix (packets_of (s_Trace c)) (map packet_of rs) \<and>
       (\<not> s_DisconnectRequested s \<and> \<not> s_DisconnectRequested c \<and> unsent cbq_contents c = [] \<and> unsent cbq_contents s = [] \<and>
        xs = given cenv c \<and> ys = given env s \<longrightarrow>
          asked = ds \<and> served = map packet_of (ms0 @ ms) \<and> packets_of (s_Trace c) = map packet_of rs)"
    if fits: "list_all (fits_frame \<circ> snd) (ms0 @ ms @ rs)"
  proof -
    have f: "list_all (fits_frame \<circ> snd) (ms0 @ ms)" "list_all (fits_frame \<circ> snd) ([] @ rs)" using fits by auto
    note up = packets_delivered[OF m1(1) prefix_order.trans[OF assms(7) ms(3)] f(1)]
    note down = packets_delivered[OF m2(1) prefix_order.trans[OF assms(8) rs(3)] f(2)]
    show ?thesis
      using up down m1(2) m2(2) ms(4) rs(4) full by (auto simp: given_def)
  qed
  then show ?thesis using ms(1,2) served rs(2) by blast
qed

section \<open>A request that arrives\<close>

text \<open>A server session that received one echo request, and a client that sent one.\<close>

abbreviation demo_fresh :: "CircleBufferQueue IOCPInboundSession" where
  "demo_fresh \<equiv> fresh_session [] 7 (Some (Socket_of_handle (Some 3))) 8 8"

lemma demo_posted_exchange:
  "exchange (\<lambda>_ _. 0) (\<lambda>_. 0) CircleBufferQueue_vtable demo_cb demo_fresh [] [] demo_posted"
proof -
  have "exchange (\<lambda>_ _. 0) (\<lambda>_. 0) CircleBufferQueue_vtable demo_cb demo_fresh [] [] demo_started"
    using ex_loop[OF ex_start, of "\<lambda>_ _. 0" "\<lambda>_. 0" CircleBufferQueue_vtable demo_cb demo_fresh]
    by (simp add: demo_started_def)
  then show ?thesis by (rule ex_completion[OF _ demo_posted_reached(2) _ _ _ demo_posted_reached(1)]) simp_all
qed

lemma demo_posted_fields:
  "\<not> s_DisconnectRequested demo_posted" "s_pReceiveBuffer demo_posted = Some (CircleBufferQueue_ctor 8)"
  "\<not> o_IsZeroByte (s_RecvOverlapped demo_posted)" "1 \<le> s_OutstandingIoCount demo_posted"
  "vGetWriteableBuffers CircleBufferQueue_vtable (CircleBufferQueue_ctor 8) = (8, o_WSABufs (s_RecvOverlapped demo_posted))"
  by (simp_all add: demo_posted_def demo_started_def StartReceiveLoop_def RequestReceived_def RequestRecv_def
      PrepareRecvBuffers_def fresh_defs Let_def syscall_def AddOutstandingIo_def CircleBufferQueue_vtable_def
      CircleBufferQueue_GetWriteableBuffers_def CircleBufferQueue_ctor_def Socket_of_handle_def)

lemma demo_received_exchange:
  "\<exists>ps s. exchange (\<lambda>_ _. 0) (\<lambda>_. 0) CircleBufferQueue_vtable demo_cb demo_fresh (encode 1 [65]) (map Got ps) s"
proof -
  have ok: "sess_ok cbq_inv demo_posted"
    using iocp_talk.exchange_ok[OF demo_posted_exchange iocp_fresh_inv] by simp
  have e: "encode 1 [65] \<noteq> []" "length (encode 1 [65]) \<le> 8" using length_encode[of 1 "[65]"] by fastforce+
  obtain s new where "OnIOCompleted (\<lambda>_ _. 0) (\<lambda>_. 0) CircleBufferQueue_vtable demo_cb True (length (encode 1 [65])) OvRecv
      (kernel_recv CircleBufferQueue_vtable (encode 1 [65]) demo_posted) = Some s" "s_Trace s = s_Trace demo_posted @ new"
    using iocp.receive_completion[OF ok demo_posted_fields(1-3) demo_posted_fields(5) e] by blast
  from ex_received[OF demo_posted_exchange demo_posted_fields(4,2,3,5) e this] show ?thesis by auto
qed

theorem iocp_server_answers_in_order_witness:
  "\<exists>s cs served ms. exchange (\<lambda>_ _. 0) (\<lambda>_. 0) CircleBufferQueue_vtable demo_cb demo_fresh (encode 1 [65]) cs s \<and>
     prefix served cs \<and> replies (iocp_answer demo_codec False) served ms \<and> prefix (given (\<lambda>_ _. 0) s) (encode_all ms) \<and>
     (\<not> s_DisconnectRequested s \<longrightarrow> served = cs \<and> got cs = [Packet_of_content 1 [65]])"
proof -
  obtain ps s where s: "exchange (\<lambda>_ _. 0) (\<lambda>_. 0) CircleBufferQueue_vtable demo_cb demo_fresh (encode 1 [65]) (map Got ps) s"
    using demo_received_exchange by blast
  have "fst (deframe_all (encode 1 [65])) = [Packet_of_content 1 [65]]"
    using deframe_all_encode_all[of "[(1, [65])]"] by (simp add: fits_frame_def)
  then show ?thesis
    using iocp_server_answers_in_order[OF _ _ s] s by fastforce
qed

definition demo_asking :: "CircleBufferQueue FastPortOutboundSession" where
  "demo_asking = SendMessage (\<lambda>_ _. 0) CircleBufferQueue_vtable FastPortOutboundSession_OnDisconnected 1 [65] demo_client"

lemma demo_given: "given (\<lambda>_ _. 0) demo_asking = encode 1 [65]"
proof -
  have "given (\<lambda>_ _. 0) demo_asking = u16_be 5 @ u16_be 1 @ [65]"
    by (simp add: demo_asking_def demo_client_def given_def SendMessage_def TryPostSendFromQueue_def client_defs Let_def
        CircleBufferQueue_vtable_def CircleBufferQueue_AllocateWrite_def CircleBufferQueue_ctor_def write_message_def
        GetHeaderSize_def GetPacketIdSize_def CircleBufferQueue_GetReadBuffers_def PrepareSendBuffers_def AddOutstandingIo_def syscall_def
        buf_load_def Socket_of_handle_def WriteToBuffers.simps memcpy_at_def span_read_def wire_def)
  then show ?thesis by (simp add: encode_eq)
qed

theorem requests_answered_end_to_end_witness:
  "\<exists>ps s asked ms served rs. exchange (\<lambda>_ _. 0) (\<lambda>_. 0) CircleBufferQueue_vtable demo_cb demo_fresh (encode 1 [65]) (map Got ps) s \<and>
     prefix asked [Asked 1 [65]] \<and> replies (client_answer demo_codec) asked ms \<and>
     prefix served ps \<and> replies (iocp_answer demo_codec False) (map Got served) rs \<and>
     (list_all (fits_frame \<circ> snd) (ms @ rs) \<longrightarrow> prefix ps (map packet_of ms) \<and> prefix (packets_of (s_Trace demo_asking)) (map packet_of rs))"
proof -
  obtain ps s where s: "exchange (\<lambda>_ _. 0) (\<lambda>_. 0) CircleBufferQueue_vtable demo_cb demo_fresh (encode 1 [65]) (map Got ps) s"
    using demo_received_exchange by blast
  have c: "exchange (\<lambda>_ _. 0) (\<lambda>_. 0) CircleBufferQueue_vtable demo_client_cb demo_client [] [Asked 1 [65]] demo_asking"
    using ex_send[OF ex_start, of "\<lambda>_ _. 0" "\<lambda>_. 0" CircleBufferQueue_vtable demo_client_cb demo_client 1 "[65]"]
    by (simp add: demo_asking_def client_callbacks_def)
  have r: "client_ready (\<lambda>_ _. 0) demo_client" unfolding demo_client_def by (rule client_ready_fresh) simp_all
  have o: "out_ok (\<lambda>_ _. 0) cbq_contents [] demo_client"
    by (rule out_ok_fresh[where sb = "CircleBufferQueue_ctor 8"]) (simp_all add: demo_client_def client_defs cbq_contents_ctor)
  from requests_answered_end_to_end[OF _ _ s r o c] s show ?thesis by (fastforce simp: demo_given)
qed

end
