(* ===== verification/RW_Lock.thy ===== *)
theory RW_Lock
  imports FP_Prelude
begin

text \<open>
  \<open>RWLock\<close> (\<open>LibCommons/RWLock.ixx\<close>, \<open>RWLock.cpp\<close>) and threads that use it. The slim lock of
  Windows is held by any number of readers or by one writer; a call that would have to wait is
  \<open>None\<close>, and the scheduler has to choose another thread.

  A thread is a list of guarded sections, each a list of small steps on its local state and
  the shared data, interleaved with the steps of the others in any order. The theorems give
  the other theories of the development their right to treat a method that holds the lock as
  one step: what the threads compute is what they compute when each section runs alone, in the
  order in which the lock was taken; and they never block each other for good.
\<close>

section \<open>The lock\<close>

record RWLock =
  lk_Readers :: nat
  lk_Writer :: bool

definition RWLock_ctor :: RWLock where
  "RWLock_ctor = \<lparr>lk_Readers = 0, lk_Writer = False\<rparr>"

definition RWLock_ReadLock :: "RWLock \<Rightarrow> RWLock option" where
  "RWLock_ReadLock l = (if lk_Writer l then None else Some (l\<lparr>lk_Readers := lk_Readers l + 1\<rparr>))"

definition RWLock_ReadUnLock :: "RWLock \<Rightarrow> RWLock" where
  "RWLock_ReadUnLock l = l\<lparr>lk_Readers := lk_Readers l - 1\<rparr>"

definition RWLock_WriteLock :: "RWLock \<Rightarrow> RWLock option" where
  "RWLock_WriteLock l = (if lk_Writer l \<or> lk_Readers l > 0 then None else Some (l\<lparr>lk_Writer := True\<rparr>))"

definition RWLock_WriteUnLock :: "RWLock \<Rightarrow> RWLock" where
  "RWLock_WriteUnLock l = l\<lparr>lk_Writer := False\<rparr>"

definition ReadLockBlock :: "RWLock \<Rightarrow> RWLock option" where
  "ReadLockBlock l = RWLock_ReadLock l"

definition ReadLockBlock_dtor :: "RWLock \<Rightarrow> RWLock" where
  "ReadLockBlock_dtor l = RWLock_ReadUnLock l"

definition WriteLockBlock :: "RWLock \<Rightarrow> RWLock option" where
  "WriteLockBlock l = RWLock_WriteLock l"

definition WriteLockBlock_dtor :: "RWLock \<Rightarrow> RWLock" where
  "WriteLockBlock_dtor l = RWLock_WriteUnLock l"

lemmas lock_defs = RWLock_ReadLock_def RWLock_ReadUnLock_def RWLock_WriteLock_def RWLock_WriteUnLock_def
  ReadLockBlock_def ReadLockBlock_dtor_def WriteLockBlock_def WriteLockBlock_dtor_def

section \<open>Threads\<close>

datatype ('l, 's) guarded =
    ReadSection "('s \<Rightarrow> 'l \<Rightarrow> 'l) list"
  | WriteSection "('l \<times> 's \<Rightarrow> 'l \<times> 's) list"

datatype ('l, 's) phase =
    Outside
  | Reading "('s \<Rightarrow> 'l \<Rightarrow> 'l) list"
  | Writing "('l \<times> 's \<Rightarrow> 'l \<times> 's) list"

record ('l, 's) lock_thread =
  lt_Todo :: "('l, 's) guarded list"
  lt_Phase :: "('l, 's) phase"
  lt_Local :: 'l

text \<open>\<open>ls_Order\<close> records who took the lock, for the statements only.\<close>

record ('l, 's) lock_state =
  ls_Lock :: RWLock
  ls_Data :: 's
  ls_Threads :: "('l, 's) lock_thread list"
  ls_Order :: "nat list"

definition lock_start :: "'s \<Rightarrow> (('l, 's) guarded list \<times> 'l) list \<Rightarrow> ('l, 's) lock_state" where
  "lock_start d ts =
     \<lparr>ls_Lock = RWLock_ctor, ls_Data = d,
      ls_Threads = map (\<lambda>t. \<lparr>lt_Todo = fst t, lt_Phase = Outside, lt_Local = snd t\<rparr>) ts, ls_Order = []\<rparr>"

definition lock_act :: "nat \<Rightarrow> ('l, 's) lock_state \<Rightarrow> ('l, 's) lock_state option" where
  "lock_act i s =
     (let t = ls_Threads s ! i;
          put = (\<lambda>t s. s\<lparr>ls_Threads := (ls_Threads s)[i := t]\<rparr>)
      in case lt_Phase t of
           Outside \<Rightarrow>
             (case lt_Todo t of
                [] \<Rightarrow> None
              | ReadSection ms # rest \<Rightarrow>
                  map_option (\<lambda>l. put (t\<lparr>lt_Todo := rest, lt_Phase := Reading ms\<rparr>) (s\<lparr>ls_Lock := l, ls_Order := ls_Order s @ [i]\<rparr>))
                    (ReadLockBlock (ls_Lock s))
              | WriteSection ms # rest \<Rightarrow>
                  map_option (\<lambda>l. put (t\<lparr>lt_Todo := rest, lt_Phase := Writing ms\<rparr>) (s\<lparr>ls_Lock := l, ls_Order := ls_Order s @ [i]\<rparr>))
                    (WriteLockBlock (ls_Lock s)))
         | Reading [] \<Rightarrow> Some (put (t\<lparr>lt_Phase := Outside\<rparr>) (s\<lparr>ls_Lock := ReadLockBlock_dtor (ls_Lock s)\<rparr>))
         | Reading (m # ms) \<Rightarrow> Some (put (t\<lparr>lt_Phase := Reading ms, lt_Local := m (ls_Data s) (lt_Local t)\<rparr>) s)
         | Writing [] \<Rightarrow> Some (put (t\<lparr>lt_Phase := Outside\<rparr>) (s\<lparr>ls_Lock := WriteLockBlock_dtor (ls_Lock s)\<rparr>))
         | Writing (m # ms) \<Rightarrow>
             let (l, d) = m (lt_Local t, ls_Data s)
             in Some (put (t\<lparr>lt_Phase := Writing ms, lt_Local := l\<rparr>) (s\<lparr>ls_Data := d\<rparr>)))"

fun lock_run :: "nat list \<Rightarrow> ('l, 's) lock_state \<Rightarrow> ('l, 's) lock_state option" where
  "lock_run [] s = Some s"
| "lock_run (i # sched) s =
     (if i < length (ls_Threads s) then
        case lock_act i s of None \<Rightarrow> None | Some s' \<Rightarrow> lock_run sched s'
      else None)"

definition lock_finished :: "('l, 's) lock_state \<Rightarrow> bool" where
  "lock_finished s \<longleftrightarrow> list_all (\<lambda>t. lt_Todo t = [] \<and> (case lt_Phase t of Outside \<Rightarrow> True | _ \<Rightarrow> False)) (ls_Threads s)"

section \<open>One section at a time\<close>

text \<open>The threads as what is left to do and the local state; thread \<open>i\<close> runs its next section
  from the beginning to the end.\<close>

definition one_section :: "nat \<Rightarrow> 's \<times> (('l, 's) guarded list \<times> 'l) list \<Rightarrow> 's \<times> (('l, 's) guarded list \<times> 'l) list" where
  "one_section i c =
     (let (d, ts) = c; (todo, l) = ts ! i
      in case todo of
           [] \<Rightarrow> (d, ts)
         | ReadSection ms # rest \<Rightarrow> (d, ts[i := (rest, fold (\<lambda>m. m d) ms l)])
         | WriteSection ms # rest \<Rightarrow>
             let (l', d') = fold (\<lambda>m. m) ms (l, d) in (d', ts[i := (rest, l')]))"

definition one_by_one :: "nat list \<Rightarrow> 's \<Rightarrow> (('l, 's) guarded list \<times> 'l) list \<Rightarrow> 's \<times> (('l, 's) guarded list \<times> 'l) list" where
  "one_by_one order d ts = fold one_section order (d, ts)"

section \<open>Who holds the lock\<close>

fun is_reading :: "('l, 's) phase \<Rightarrow> bool" where
  "is_reading (Reading ms) = True"
| "is_reading p = False"

fun is_writing :: "('l, 's) phase \<Rightarrow> bool" where
  "is_writing (Writing ms) = True"
| "is_writing p = False"

fun reader_count :: "('l, 's) lock_thread list \<Rightarrow> nat" where
  "reader_count [] = 0"
| "reader_count (t # ts) = (if is_reading (lt_Phase t) then 1 else 0) + reader_count ts"

lemma reader_count_update:
  "i < length ts \<Longrightarrow> reader_count (ts[i := t]) + (if is_reading (lt_Phase (ts ! i)) then 1 else 0) =
     reader_count ts + (if is_reading (lt_Phase t) then 1 else 0)"
proof (induction ts arbitrary: i)
  case (Cons a ts)
  show ?case using Cons.prems Cons.IH[of "i - 1"] by (cases i) auto
qed simp

lemma reader_counted: "i < length ts \<Longrightarrow> is_reading (lt_Phase (ts ! i)) \<Longrightarrow> reader_count ts > 0"
  by (induction ts arbitrary: i) (auto simp: nth_Cons split: nat.splits)

definition someone_writes :: "('l, 's) lock_thread list \<Rightarrow> bool" where
  "someone_writes ts \<longleftrightarrow> (\<exists>i < length ts. is_writing (lt_Phase (ts ! i)))"

definition exclusive :: "('l, 's) lock_thread list \<Rightarrow> bool" where
  "exclusive ts \<longleftrightarrow> (\<forall>i < length ts. \<forall>j < length ts. is_writing (lt_Phase (ts ! i)) \<longrightarrow> j \<noteq> i \<longrightarrow> lt_Phase (ts ! j) = Outside)"

definition lock_ok :: "('l, 's) lock_state \<Rightarrow> bool" where
  "lock_ok s \<longleftrightarrow>
     lk_Readers (ls_Lock s) = reader_count (ls_Threads s) \<and>
     (lk_Writer (ls_Lock s) \<longleftrightarrow> someone_writes (ls_Threads s)) \<and> exclusive (ls_Threads s)"

lemma exclusive_update:
  assumes "exclusive ts" "i < length ts" "is_writing (lt_Phase t) \<longrightarrow> (\<forall>j < length ts. j \<noteq> i \<longrightarrow> lt_Phase (ts ! j) = Outside)"
    "lt_Phase t \<noteq> Outside \<longrightarrow> (\<forall>j < length ts. j \<noteq> i \<longrightarrow> \<not> is_writing (lt_Phase (ts ! j)))"
  shows "exclusive (ts[i := t])"
  unfolding exclusive_def
proof (intro allI impI)
  fix a b
  assume h: "a < length (ts[i := t])" "b < length (ts[i := t])" "is_writing (lt_Phase (ts[i := t] ! a))" "b \<noteq> a"
  consider "a = i" | "a \<noteq> i" "b = i" | "a \<noteq> i" "b \<noteq> i" by blast
  then show "lt_Phase (ts[i := t] ! b) = Outside"
  proof cases
    case 1
    then show ?thesis using h assms(2,3) by simp
  next
    case 2
    then have "is_writing (lt_Phase (ts ! a))" "a < length ts" using h by simp_all
    then have "lt_Phase t = Outside" using assms(4)[rule_format, of a] 2(1) by (cases "lt_Phase t = Outside") simp_all
    then show ?thesis using 2(2) assms(2) by simp
  next
    case 3
    then have "is_writing (lt_Phase (ts ! a))" "a < length ts" "b < length ts" using h by simp_all
    then have "lt_Phase (ts ! b) = Outside" using assms(1) h(4) unfolding exclusive_def by blast
    then show ?thesis using 3 by simp
  qed
qed

lemma someone_update:
  assumes "i < length ts"
  shows "someone_writes (ts[i := t]) \<longleftrightarrow>
    is_writing (lt_Phase t) \<or> (\<exists>j < length ts. j \<noteq> i \<and> is_writing (lt_Phase (ts ! j)))"
  using assms by (auto simp: someone_writes_def nth_list_update)

text \<open>The interleaved state, completed: every section that is open runs to its end.\<close>

definition thread_completes :: "'s \<Rightarrow> 's \<Rightarrow> ('l, 's) lock_thread \<Rightarrow> ('l, 's) guarded list \<times> 'l \<Rightarrow> bool" where
  "thread_completes d e t c \<longleftrightarrow>
     fst c = lt_Todo t \<and>
     (case lt_Phase t of
        Outside \<Rightarrow> snd c = lt_Local t
      | Reading ms \<Rightarrow> snd c = fold (\<lambda>m. m d) ms (lt_Local t)
      | Writing ms \<Rightarrow> (snd c, e) = fold (\<lambda>m. m) ms (lt_Local t, d))"

definition completes :: "('l, 's) lock_state \<Rightarrow> 's \<times> (('l, 's) guarded list \<times> 'l) list \<Rightarrow> bool" where
  "completes s c \<longleftrightarrow>
     length (snd c) = length (ls_Threads s) \<and>
     (\<forall>i < length (ls_Threads s). thread_completes (ls_Data s) (fst c) (ls_Threads s ! i) (snd c ! i)) \<and>
     (\<not> someone_writes (ls_Threads s) \<longrightarrow> fst c = ls_Data s)"

section \<open>Each step keeps both\<close>

lemma lock_act_cases [consumes 1]:
  assumes "lock_act i s = Some s'"
  obtains
    (read) ms rest t where "t = ls_Threads s ! i" "lt_Phase t = Outside" "lt_Todo t = ReadSection ms # rest" "\<not> lk_Writer (ls_Lock s)"
      "s' = s\<lparr>ls_Lock := (ls_Lock s)\<lparr>lk_Readers := lk_Readers (ls_Lock s) + 1\<rparr>, ls_Order := ls_Order s @ [i],
             ls_Threads := (ls_Threads s)[i := t\<lparr>lt_Todo := rest, lt_Phase := Reading ms\<rparr>]\<rparr>"
  | (enter) ms rest t where "t = ls_Threads s ! i" "lt_Phase t = Outside" "lt_Todo t = WriteSection ms # rest" "\<not> lk_Writer (ls_Lock s)"
      "lk_Readers (ls_Lock s) = 0"
      "s' = s\<lparr>ls_Lock := (ls_Lock s)\<lparr>lk_Writer := True\<rparr>, ls_Order := ls_Order s @ [i],
             ls_Threads := (ls_Threads s)[i := t\<lparr>lt_Todo := rest, lt_Phase := Writing ms\<rparr>]\<rparr>"
  | (look) m ms t where "t = ls_Threads s ! i" "lt_Phase t = Reading (m # ms)"
      "s' = s\<lparr>ls_Threads := (ls_Threads s)[i := t\<lparr>lt_Phase := Reading ms, lt_Local := m (ls_Data s) (lt_Local t)\<rparr>]\<rparr>"
  | (change) m ms t where "t = ls_Threads s ! i" "lt_Phase t = Writing (m # ms)"
      "s' = s\<lparr>ls_Data := snd (m (lt_Local t, ls_Data s)),
             ls_Threads := (ls_Threads s)[i := t\<lparr>lt_Phase := Writing ms, lt_Local := fst (m (lt_Local t, ls_Data s))\<rparr>]\<rparr>"
  | (unread) t where "t = ls_Threads s ! i" "lt_Phase t = Reading []"
      "s' = s\<lparr>ls_Lock := (ls_Lock s)\<lparr>lk_Readers := lk_Readers (ls_Lock s) - 1\<rparr>,
             ls_Threads := (ls_Threads s)[i := t\<lparr>lt_Phase := Outside\<rparr>]\<rparr>"
  | (unwrite) t where "t = ls_Threads s ! i" "lt_Phase t = Writing []"
      "s' = s\<lparr>ls_Lock := (ls_Lock s)\<lparr>lk_Writer := False\<rparr>,
             ls_Threads := (ls_Threads s)[i := t\<lparr>lt_Phase := Outside\<rparr>]\<rparr>"
proof -
  let ?t = "ls_Threads s ! i"
  show thesis
  proof (cases "lt_Phase ?t")
    case Outside
    show thesis
    proof (cases "lt_Todo ?t")
      case Nil
      then show thesis using assms Outside by (simp add: lock_act_def)
    next
      case (Cons g rest)
      then show thesis
        using assms Outside read[of ?t] enter[of ?t]
        by (cases g) (auto simp: lock_act_def lock_defs simp del: lock_state.simps split: if_splits)
    qed
  next
    case (Reading ms)
    then show thesis
      using assms look[of ?t] unread[of ?t] by (cases ms) (auto simp: lock_act_def Let_def lock_defs)
  next
    case (Writing ms)
    then show thesis
      using assms change[of ?t] unwrite[of ?t] by (cases ms) (auto simp: lock_act_def Let_def lock_defs split_beta)
  qed
qed

lemma writer_flag: "lock_ok s \<Longrightarrow> i < length (ls_Threads s) \<Longrightarrow> is_writing (lt_Phase (ls_Threads s ! i)) \<Longrightarrow> lk_Writer (ls_Lock s)"
  by (auto simp: lock_ok_def someone_writes_def)

lemma writer_alone:
  "lock_ok s \<Longrightarrow> i < length (ls_Threads s) \<Longrightarrow> j < length (ls_Threads s) \<Longrightarrow> is_writing (lt_Phase (ls_Threads s ! i)) \<Longrightarrow>
     j \<noteq> i \<Longrightarrow> lt_Phase (ls_Threads s ! j) = Outside"
  unfolding lock_ok_def exclusive_def by blast

lemma free_for_writer:
  assumes "lock_ok s" "\<not> lk_Writer (ls_Lock s)" "lk_Readers (ls_Lock s) = 0" "j < length (ls_Threads s)"
  shows "lt_Phase (ls_Threads s ! j) = Outside"
proof (cases "lt_Phase (ls_Threads s ! j)")
  case (Reading ms)
  then show ?thesis using assms reader_counted[OF assms(4)] by (simp add: lock_ok_def)
next
  case (Writing ms)
  then show ?thesis using assms writer_flag[OF assms(1,4)] by simp
qed simp

text \<open>A thread that reads knows that nobody writes.\<close>

lemma reader_sees_none:
  assumes "lock_ok s" "i < length (ls_Threads s)" "lt_Phase (ls_Threads s ! i) \<noteq> Outside" "j < length (ls_Threads s)" "j \<noteq> i"
  shows "\<not> is_writing (lt_Phase (ls_Threads s ! j))"
  using writer_alone[OF assms(1,4,2)] assms(3,5) by blast

lemma lock_okI:
  assumes "lock_ok s" "i < length (ls_Threads s)" "ls_Threads s' = (ls_Threads s)[i := t]"
    "lk_Readers (ls_Lock s') + (if is_reading (lt_Phase (ls_Threads s ! i)) then 1 else 0) =
       lk_Readers (ls_Lock s) + (if is_reading (lt_Phase t) then 1 else 0)"
    "is_writing (lt_Phase t) \<Longrightarrow> \<forall>j < length (ls_Threads s). j \<noteq> i \<longrightarrow> lt_Phase (ls_Threads s ! j) = Outside"
    "lt_Phase t \<noteq> Outside \<Longrightarrow> \<forall>j < length (ls_Threads s). j \<noteq> i \<longrightarrow> \<not> is_writing (lt_Phase (ls_Threads s ! j))"
    "lk_Writer (ls_Lock s') \<longleftrightarrow> is_writing (lt_Phase t) \<or> (\<exists>j < length (ls_Threads s). j \<noteq> i \<and> is_writing (lt_Phase (ls_Threads s ! j)))"
  shows "lock_ok s'"
proof -
  have "lk_Readers (ls_Lock s') = reader_count (ls_Threads s')"
    using assms(1,4) reader_count_update[OF assms(2), of t] by (simp add: lock_ok_def assms(3))
  moreover have "exclusive (ls_Threads s')"
    using assms(1) exclusive_update[OF _ assms(2)] assms(5,6) by (simp add: lock_ok_def assms(3))
  ultimately show ?thesis
    using assms(7) someone_update[OF assms(2), of t] by (simp add: lock_ok_def assms(3))
qed

lemma act_ok:
  assumes "lock_ok s" "i < length (ls_Threads s)" "lock_act i s = Some s'"
  shows "lock_ok s'"
  using assms(3)
proof (cases rule: lock_act_cases)
  case (read ms rest t)
  have "\<not> is_writing (lt_Phase (ls_Threads s ! j))" if "j < length (ls_Threads s)" for j
    using writer_flag[OF assms(1) that] read(4) by blast
  then show ?thesis using read by (intro lock_okI[OF assms(1,2)]) auto
next
  case (enter ms rest t)
  note out = free_for_writer[OF assms(1) enter(4,5)]
  show ?thesis using enter out by (intro lock_okI[OF assms(1,2)]) auto
next
  case (look m ms t)
  have "\<not> is_writing (lt_Phase (ls_Threads s ! j))" if "j < length (ls_Threads s)" for j
    using reader_sees_none[OF assms(1,2) _ that] look by (cases "j = i") auto
  moreover have "\<not> lk_Writer (ls_Lock s)" using calculation assms(1) by (auto simp: lock_ok_def someone_writes_def)
  ultimately show ?thesis using look by (intro lock_okI[OF assms(1,2)]) auto
next
  case (change m ms t)
  then have w: "is_writing (lt_Phase (ls_Threads s ! i))" by simp
  have out: "lt_Phase (ls_Threads s ! j) = Outside" if "j < length (ls_Threads s)" "j \<noteq> i" for j
    using writer_alone[OF assms(1,2) that(1) w that(2)] .
  show ?thesis using change out writer_flag[OF assms(1,2) w] by (intro lock_okI[OF assms(1,2)]) auto
next
  case (unread t)
  have "\<not> is_writing (lt_Phase (ls_Threads s ! j))" if "j < length (ls_Threads s)" for j
    using reader_sees_none[OF assms(1,2) _ that] unread by (cases "j = i") auto
  moreover have "\<not> lk_Writer (ls_Lock s)" using calculation assms(1) by (auto simp: lock_ok_def someone_writes_def)
  moreover have "lk_Readers (ls_Lock s) > 0"
    using reader_counted[OF assms(2)] unread assms(1) by (simp add: lock_ok_def)
  ultimately show ?thesis using unread by (intro lock_okI[OF assms(1,2)]) auto
next
  case (unwrite t)
  then have w: "is_writing (lt_Phase (ls_Threads s ! i))" by simp
  have out: "lt_Phase (ls_Threads s ! j) = Outside" if "j < length (ls_Threads s)" "j \<noteq> i" for j
    using writer_alone[OF assms(1,2) that(1) w that(2)] .
  show ?thesis using unwrite out by (intro lock_okI[OF assms(1,2)]) auto
qed

lemma outside_completes:
  "lt_Phase t = Outside \<Longrightarrow> thread_completes d e t c \<longleftrightarrow> c = (lt_Todo t, lt_Local t)"
  by (cases c) (auto simp: thread_completes_def)

lemma completesI:
  assumes "completes s c" "i < length (ls_Threads s)" "ls_Threads s' = (ls_Threads s)[i := t]"
    "\<And>j. j < length (ls_Threads s) \<Longrightarrow> j \<noteq> i \<Longrightarrow>
       thread_completes (ls_Data s) (fst c) (ls_Threads s ! j) (snd c ! j) \<Longrightarrow> thread_completes (ls_Data s') e (ls_Threads s ! j) (snd c ! j)"
    "thread_completes (ls_Data s') e t ci"
    "\<not> someone_writes (ls_Threads s') \<Longrightarrow> e = ls_Data s'"
  shows "completes s' (e, (snd c)[i := ci])"
  using assms unfolding completes_def by (simp add: nth_list_update)

lemma nobody_writes: "lock_ok s \<Longrightarrow> \<not> lk_Writer (ls_Lock s) \<Longrightarrow> completes s c \<Longrightarrow> fst c = ls_Data s"
  by (simp add: lock_ok_def completes_def)

lemma thread_completed:
  "completes s c \<Longrightarrow> i < length (ls_Threads s) \<Longrightarrow> thread_completes (ls_Data s) (fst c) (ls_Threads s ! i) (snd c ! i)"
  by (simp add: completes_def)

lemma act_completes:
  assumes "lock_ok s" "i < length (ls_Threads s)" "lock_act i s = Some s'" "completes s c"
  shows "completes s' (if ls_Order s' = ls_Order s then c else one_section i c)"
  using assms(3)
proof (cases rule: lock_act_cases)
  case (read ms rest t)
  have d: "fst c = ls_Data s" using nobody_writes[OF assms(1) read(4) assms(4)] .
  have ci: "snd c ! i = (ReadSection ms # rest, lt_Local t)"
    using thread_completed[OF assms(4,2)] read(1-3) by (simp add: outside_completes)
  have "one_section i c = (ls_Data s, (snd c)[i := (rest, fold (\<lambda>m. m (ls_Data s)) ms (lt_Local t))])"
    using ci d by (simp add: one_section_def split_beta)
  moreover have "completes s' (ls_Data s, (snd c)[i := (rest, fold (\<lambda>m. m (ls_Data s)) ms (lt_Local t))])"
    using read(5) d by (intro completesI[OF assms(4,2)]) (auto simp: thread_completes_def)
  ultimately show ?thesis using read(5) by simp
next
  case (enter ms rest t)
  have d: "fst c = ls_Data s" using nobody_writes[OF assms(1) enter(4) assms(4)] .
  have ci: "snd c ! i = (WriteSection ms # rest, lt_Local t)"
    using thread_completed[OF assms(4,2)] enter(1-3) by (simp add: outside_completes)
  obtain l' d' where f: "fold (\<lambda>m. m) ms (lt_Local t, ls_Data s) = (l', d')" by fastforce
  have "one_section i c = (d', (snd c)[i := (rest, l')])"
    using ci d f by (simp add: one_section_def split_beta)
  moreover have "completes s' (d', (snd c)[i := (rest, l')])"
    using enter(6) f free_for_writer[OF assms(1) enter(4,5)]
    by (intro completesI[OF assms(4,2)]) (auto simp: thread_completes_def outside_completes someone_update[OF assms(2)])
  ultimately show ?thesis using enter(6) by simp
next
  case (look m ms t)
  have "thread_completes (ls_Data s') (fst c) (t\<lparr>lt_Phase := Reading ms, lt_Local := m (ls_Data s) (lt_Local t)\<rparr>) (snd c ! i)"
    using thread_completed[OF assms(4,2)] look by (simp add: thread_completes_def)
  moreover have "\<not> someone_writes (ls_Threads s') \<Longrightarrow> fst c = ls_Data s'"
    using assms(4) look someone_update[OF assms(2)] someone_update[OF assms(2), of "ls_Threads s ! i"]
    by (simp add: completes_def)
  ultimately have "completes s' (fst c, (snd c)[i := snd c ! i])"
    using look(3) by (intro completesI[OF assms(4,2)]) auto
  then show ?thesis using look(3) by simp
next
  case (change m ms t)
  have w: "is_writing (lt_Phase (ls_Threads s ! i))" using change by simp
  have out: "lt_Phase (ls_Threads s ! j) = Outside" if "j < length (ls_Threads s)" "j \<noteq> i" for j
    using writer_alone[OF assms(1,2) that(1) w that(2)] .
  have "thread_completes (ls_Data s') (fst c) (t\<lparr>lt_Phase := Writing ms, lt_Local := fst (m (lt_Local t, ls_Data s))\<rparr>) (snd c ! i)"
    using thread_completed[OF assms(4,2)] change by (simp add: thread_completes_def)
  then have "completes s' (fst c, (snd c)[i := snd c ! i])"
    using change(3) out someone_update[OF assms(2)]
    by (intro completesI[OF assms(4,2)]) (auto simp: outside_completes)
  then show ?thesis using change(3) by simp
next
  case (unread t)
  have "thread_completes (ls_Data s') (fst c) (t\<lparr>lt_Phase := Outside\<rparr>) (snd c ! i)"
    using thread_completed[OF assms(4,2)] unread by (simp add: thread_completes_def)
  moreover have "\<not> someone_writes (ls_Threads s') \<Longrightarrow> fst c = ls_Data s'"
    using assms(4) unread someone_update[OF assms(2)] someone_update[OF assms(2), of "ls_Threads s ! i"]
    by (simp add: completes_def)
  ultimately have "completes s' (fst c, (snd c)[i := snd c ! i])"
    using unread(3) by (intro completesI[OF assms(4,2)]) auto
  then show ?thesis using unread(3) by simp
next
  case (unwrite t)
  have "thread_completes (ls_Data s') (fst c) (t\<lparr>lt_Phase := Outside\<rparr>) (snd c ! i)" "fst c = ls_Data s"
    using thread_completed[OF assms(4,2)] unwrite by (simp_all add: thread_completes_def)
  then have "completes s' (fst c, (snd c)[i := snd c ! i])"
    using unwrite(3) by (intro completesI[OF assms(4,2)]) auto
  then show ?thesis using unwrite(3) by simp
qed

section \<open>Every run\<close>

lemma act_keeps_threads: "lock_act i s = Some s' \<Longrightarrow> length (ls_Threads s') = length (ls_Threads s)"
  by (erule lock_act_cases) auto

lemma act_order: "lock_act i s = Some s' \<Longrightarrow> ls_Order s' = ls_Order s \<or> ls_Order s' = ls_Order s @ [i]"
  by (erule lock_act_cases) auto

lemma lock_run_completes:
  assumes "lock_run sched s = Some s'" "lock_ok s" "completes s c"
  shows "lock_ok s' \<and> length (ls_Threads s') = length (ls_Threads s) \<and>
    (\<exists>new. ls_Order s' = ls_Order s @ new \<and> completes s' (fold one_section new c))"
  using assms
proof (induction sched arbitrary: s c)
  case Nil
  then show ?case by simp
next
  case (Cons i sched)
  then obtain s1 where s1: "i < length (ls_Threads s)" "lock_act i s = Some s1" "lock_run sched s1 = Some s'"
    by (auto split: if_splits option.splits)
  let ?c = "if ls_Order s1 = ls_Order s then c else one_section i c"
  have "lock_ok s1" using act_ok[OF Cons.prems(2) s1(1,2)] .
  moreover have "completes s1 ?c" using act_completes[OF Cons.prems(2) s1(1,2) Cons.prems(3)] .
  ultimately have ih: "lock_ok s' \<and> length (ls_Threads s') = length (ls_Threads s1) \<and>
      (\<exists>new. ls_Order s' = ls_Order s1 @ new \<and> completes s' (fold one_section new ?c))"
    using Cons.IH[OF s1(3)] by blast
  then obtain new where new: "ls_Order s' = ls_Order s1 @ new" "completes s' (fold one_section new ?c)" by blast
  have "\<exists>new. ls_Order s' = ls_Order s @ new \<and> completes s' (fold one_section new c)"
  proof (cases "ls_Order s1 = ls_Order s")
    case True
    then show ?thesis using new by (intro exI[of _ new]) simp
  next
    case False
    then show ?thesis using new act_order[OF s1(2)] by (intro exI[of _ "i # new"]) simp
  qed
  then show ?case using ih act_keeps_threads[OF s1(2)] by simp
qed

lemma run_order_in_range:
  assumes "lock_run sched s = Some s'" "set (ls_Order s) \<subseteq> {..<length (ls_Threads s)}"
  shows "set (ls_Order s') \<subseteq> {..<length (ls_Threads s)}"
  using assms
proof (induction sched arbitrary: s)
  case (Cons i sched)
  then obtain s1 where s1: "i < length (ls_Threads s)" "lock_act i s = Some s1" "lock_run sched s1 = Some s'"
    by (auto split: if_splits option.splits)
  have "set (ls_Order s1) \<subseteq> {..<length (ls_Threads s1)}"
    using act_order[OF s1(2)] act_keeps_threads[OF s1(2)] s1(1) Cons.prems(2) by auto
  then show ?case using Cons.IH[OF s1(3)] act_keeps_threads[OF s1(2)] by simp
qed simp

lemma start_ok: "lock_ok (lock_start d ts)"
proof -
  have "reader_count (map (\<lambda>t. \<lparr>lt_Todo = fst t, lt_Phase = Outside, lt_Local = snd t\<rparr>) ts) = 0" for ts :: "(('l, 's) guarded list \<times> 'l) list"
    by (induction ts) simp_all
  then show ?thesis
    by (simp add: lock_ok_def lock_start_def RWLock_ctor_def someone_writes_def exclusive_def)
qed

lemma start_completes: "completes (lock_start d ts) (d, ts)"
  by (simp add: completes_def lock_start_def outside_completes)

lemma finished_completes:
  assumes "lock_finished s" "completes s c"
  shows "c = (ls_Data s, map (\<lambda>t. ([], lt_Local t)) (ls_Threads s))"
proof -
  have all: "lt_Todo (ls_Threads s ! i) = [] \<and> (case lt_Phase (ls_Threads s ! i) of Outside \<Rightarrow> True | _ \<Rightarrow> False)"
    if "i < length (ls_Threads s)" for i
    using assms(1) that unfolding lock_finished_def list_all_length by blast
  have t: "lt_Phase (ls_Threads s ! i) = Outside" "lt_Todo (ls_Threads s ! i) = []" if "i < length (ls_Threads s)" for i
    using all[OF that] by (simp_all split: phase.splits)
  have "fst c = ls_Data s" using assms(2) t by (simp add: completes_def someone_writes_def)
  moreover have "snd c = map (\<lambda>t. ([], lt_Local t)) (ls_Threads s)"
    using assms(2) t by (intro nth_equalityI) (simp_all add: completes_def outside_completes)
  ultimately show ?thesis by (metis prod.collapse)
qed

lemma sections_serialise:
  assumes "lock_run sched (lock_start d ts) = Some s" "lock_finished s"
  shows "one_by_one (ls_Order s) d ts = (ls_Data s, map (\<lambda>t. ([], lt_Local t)) (ls_Threads s))"
  using lock_run_completes[OF assms(1) start_ok start_completes] finished_completes[OF assms(2)]
  by (auto simp: one_by_one_def lock_start_def)

text \<open>C4: threads that work on shared data only inside sections under the reader/writer lock compute,
  in every interleaving of their small steps that lets them all finish, exactly the shared data and
  the local results that they compute when the sections run one at a time, undivided, in the
  order in which the lock was taken. This is what the one-step models of the locked methods of this
  development rest on.\<close>

theorem lock_serialises:
  assumes "lock_run sched (lock_start d ts) = Some s" "lock_finished s"
  shows "one_by_one (ls_Order s) d ts = (ls_Data s, map (\<lambda>t. ([], lt_Local t)) (ls_Threads s))"
  by (rule sections_serialise[OF assms])

section \<open>Progress\<close>

fun section_work :: "('l, 's) guarded \<Rightarrow> nat" where
  "section_work (ReadSection ms) = length ms + 2"
| "section_work (WriteSection ms) = length ms + 2"

fun phase_work :: "('l, 's) phase \<Rightarrow> nat" where
  "phase_work Outside = 0"
| "phase_work (Reading ms) = length ms + 1"
| "phase_work (Writing ms) = length ms + 1"

fun threads_work :: "('l, 's) lock_thread list \<Rightarrow> nat" where
  "threads_work [] = 0"
| "threads_work (t # ts) = sum_list (map section_work (lt_Todo t)) + phase_work (lt_Phase t) + threads_work ts"

definition thread_work :: "('l, 's) lock_thread \<Rightarrow> nat" where
  "thread_work t = sum_list (map section_work (lt_Todo t)) + phase_work (lt_Phase t)"

lemma threads_work_update:
  "i < length ts \<Longrightarrow> threads_work (ts[i := t]) + thread_work (ts ! i) = threads_work ts + thread_work t"
proof (induction ts arbitrary: i)
  case (Cons a ts)
  show ?case using Cons.prems Cons.IH[of "i - 1"] by (cases i) (auto simp: thread_work_def)
qed simp

lemma act_works:
  assumes "lock_act i s = Some s'" "i < length (ls_Threads s)"
  shows "threads_work (ls_Threads s) = threads_work (ls_Threads s') + 1"
  using assms(1)
proof (cases rule: lock_act_cases)
  case (read ms rest t)
  then show ?thesis
    using threads_work_update[OF assms(2), of "t\<lparr>lt_Todo := rest, lt_Phase := Reading ms\<rparr>"] by (simp add: thread_work_def)
next
  case (enter ms rest t)
  then show ?thesis
    using threads_work_update[OF assms(2), of "t\<lparr>lt_Todo := rest, lt_Phase := Writing ms\<rparr>"] by (simp add: thread_work_def)
next
  case (look m ms t)
  then show ?thesis
    using threads_work_update[OF assms(2), of "t\<lparr>lt_Phase := Reading ms, lt_Local := m (ls_Data s) (lt_Local t)\<rparr>"]
    by (simp add: thread_work_def)
next
  case (change m ms t)
  then show ?thesis
    using threads_work_update[OF assms(2), of "t\<lparr>lt_Phase := Writing ms, lt_Local := fst (m (lt_Local t, ls_Data s))\<rparr>"]
    by (simp add: thread_work_def)
next
  case (unread t)
  then show ?thesis
    using threads_work_update[OF assms(2), of "t\<lparr>lt_Phase := Outside\<rparr>"] by (simp add: thread_work_def)
next
  case (unwrite t)
  then show ?thesis
    using threads_work_update[OF assms(2), of "t\<lparr>lt_Phase := Outside\<rparr>"] by (simp add: thread_work_def)
qed

lemma lock_run_works:
  "lock_run sched s = Some s' \<Longrightarrow> length sched + threads_work (ls_Threads s') = threads_work (ls_Threads s)"
proof (induction sched arbitrary: s)
  case (Cons i sched)
  then obtain s1 where "i < length (ls_Threads s)" "lock_act i s = Some s1" "lock_run sched s1 = Some s'"
    by (auto split: if_splits option.splits)
  then show ?case using Cons.IH[of s1] act_works[of i s s1] by simp
qed simp

text \<open>A thread inside a section can always go on; if nobody is inside, the lock is free.\<close>

lemma someone_can_act:
  assumes "lock_ok s" "\<not> lock_finished s"
  shows "\<exists>i < length (ls_Threads s). lock_act i s \<noteq> None"
proof (cases "\<exists>i < length (ls_Threads s). lt_Phase (ls_Threads s ! i) \<noteq> Outside")
  case True
  then obtain i where i: "i < length (ls_Threads s)" "lt_Phase (ls_Threads s ! i) \<noteq> Outside" by blast
  have "lock_act i s \<noteq> None"
    using i(2) by (auto simp: lock_act_def Let_def split: phase.splits list.splits prod.splits)
  then show ?thesis using i(1) by blast
next
  case False
  then have out: "\<forall>i < length (ls_Threads s). lt_Phase (ls_Threads s ! i) = Outside" by blast
  have "\<exists>i < length (ls_Threads s). lt_Todo (ls_Threads s ! i) \<noteq> []"
    using assms(2) out by (auto simp: lock_finished_def list_all_length)
  then obtain i g rest where i: "i < length (ls_Threads s)" "lt_Todo (ls_Threads s ! i) = g # rest"
    by (metis neq_Nil_conv)
  have none: "\<not> someone_writes (ls_Threads s)" using out by (simp add: someone_writes_def)
  have "reader_count ts = 0" if "\<forall>t \<in> set ts. lt_Phase t = Outside" for ts :: "('a, 'b) lock_thread list"
    using that by (induction ts) auto
  moreover have "\<forall>t \<in> set (ls_Threads s). lt_Phase t = Outside" using out by (metis in_set_conv_nth)
  ultimately have "lk_Readers (ls_Lock s) = 0" "\<not> lk_Writer (ls_Lock s)"
    using assms(1) none by (simp_all add: lock_ok_def)
  then have "lock_act i s \<noteq> None"
    using i out by (cases g) (simp_all add: lock_act_def lock_defs)
  then show ?thesis using i(1) by blast
qed

text \<open>C14: threads under the reader/writer lock never block each other for good: in every state that
  any interleaving reaches, either all have finished or one of them can take a step, and each
  step is one of a number fixed at the start, so that every interleaving comes to the end.\<close>

theorem lock_never_deadlocks:
  assumes "lock_run sched (lock_start d ts) = Some s"
  shows "(lock_finished s \<or> (\<exists>i < length (ls_Threads s). lock_act i s \<noteq> None)) \<and>
    length sched + threads_work (ls_Threads s) = threads_work (ls_Threads (lock_start d ts))"
  using lock_run_completes[OF assms start_ok start_completes] someone_can_act lock_run_works[OF assms] by blast

text \<open>Two threads that add one to the shared number, and one that looks at it, interleaved.\<close>

definition adder :: "(int, int) guarded" where
  "adder = WriteSection [\<lambda>(l, d). (d, d), \<lambda>(l, d). (l, l + 1)]"

definition looker :: "(int, int) guarded" where
  "looker = ReadSection [\<lambda>d l. d]"

definition demo_threads :: "((int, int) guarded list \<times> int) list" where
  "demo_threads = [([adder], 0), ([looker, adder], 0)]"

definition demo_schedule :: "nat list" where
  "demo_schedule = [1, 1, 1, 0, 0, 0, 0, 1, 1, 1, 1]"

lemma lock_serialises_witness:
  "\<exists>s. lock_run demo_schedule (lock_start 5 demo_threads) = Some s \<and> lock_finished s \<and> ls_Data s = 7 \<and>
     one_by_one (ls_Order s) 5 demo_threads = (ls_Data s, map (\<lambda>t. ([], lt_Local t)) (ls_Threads s))"
proof -
  obtain s where s: "lock_run demo_schedule (lock_start 5 demo_threads) = Some s" "lock_finished s" "ls_Data s = 7"
    by (simp add: demo_schedule_def demo_threads_def adder_def looker_def lock_start_def lock_act_def lock_defs RWLock_ctor_def
        lock_finished_def Let_def)
  then show ?thesis using lock_serialises[OF s(1,2)] by blast
qed

lemma lock_never_deadlocks_witness:
  "\<exists>s. lock_run [1, 0, 1] (lock_start 5 [([adder], 0), ([looker], 0)]) = None \<and>
     lock_run [1, 1, 1] (lock_start 5 [([adder], 0), ([looker], 0)]) = Some s \<and>
     (lock_finished s \<or> (\<exists>i < length (ls_Threads s). lock_act i s \<noteq> None))"
proof -
  obtain s where s: "lock_run [1, 1, 1] (lock_start 5 [([adder], 0), ([looker], 0)]) = Some s"
    by (simp add: adder_def looker_def lock_start_def lock_act_def lock_defs RWLock_ctor_def Let_def)
  moreover have "lock_run [1, 0, 1] (lock_start 5 [([adder], 0), ([looker], 0)]) = None"
    by (simp add: adder_def looker_def lock_start_def lock_act_def lock_defs RWLock_ctor_def Let_def)
  ultimately show ?thesis using lock_never_deadlocks[OF s] by blast
qed

end
