(* ===== verification/Locked_Buffer.thy ===== *)
theory Locked_Buffer
  imports RW_Lock Circle_Buffer
begin

text \<open>
  Threads that call one ring buffer (\<open>LibCommons/CircleBufferQueue.ixx\<close>). Each method takes the
  reader/writer lock for its whole body; however its body is cut into small steps, and however
  the steps of the threads interleave, the calls behave like calls on a FIFO list of bytes in
  some order (linearisability). The zero-copy calls, which hand out spans and are used outside
  the lock, are left to the theory of the races.
\<close>

text \<open>The methods whose whole effect is under the lock, and the lock they take.\<close>

fun locked_call :: "qop \<Rightarrow> bool" where
  "locked_call (QWrite d) = True"
| "locked_call (QPop n) = True"
| "locked_call (QPeek n) = True"
| "locked_call (QConsume n) = True"
| "locked_call QClear = True"
| "locked_call c = False"

fun reads_only :: "qop \<Rightarrow> bool" where
  "reads_only (QPeek n) = True"
| "reads_only c = False"

type_synonym call_section = "(qout list, CircleBufferQueue) guarded"

text \<open>A section is the body of a call, cut into steps in any way: together they append the call's
  answer to the thread's own list and change the buffer as the method does.\<close>

fun is_body_of :: "qop \<Rightarrow> call_section \<Rightarrow> bool" where
  "is_body_of c (ReadSection ms) \<longleftrightarrow> locked_call c \<and> reads_only c \<and>
     (\<forall>outs b. fold (\<lambda>m. m b) ms outs = outs @ [fst (q_step CircleBufferQueue_vtable c b)])"
| "is_body_of c (WriteSection ms) \<longleftrightarrow> locked_call c \<and> \<not> reads_only c \<and>
     (\<forall>outs b. fold (\<lambda>m. m) ms (outs, b) =
        (outs @ [fst (q_step CircleBufferQueue_vtable c b)], snd (q_step CircleBufferQueue_vtable c b)))"

definition call_threads :: "qop list list \<Rightarrow> (call_section list \<times> qout list) list \<Rightarrow> bool" where
  "call_threads calls ts \<longleftrightarrow> list_all2 (\<lambda>cs t. list_all2 is_body_of cs (fst t) \<and> snd t = []) calls ts"

text \<open>The calls of one thread in a tagged sequence, and its answers.\<close>

definition calls_of :: "nat \<Rightarrow> (nat \<times> qop) list \<Rightarrow> qop list" where
  "calls_of i h = map snd (filter (\<lambda>x. fst x = i) h)"

definition answers_of :: "nat \<Rightarrow> (nat \<times> qop) list \<Rightarrow> qout list \<Rightarrow> qout list" where
  "answers_of i h outs = map snd (filter (\<lambda>x. fst x = i) (zip (map fst h) outs))"

lemma calls_of_simps [simp]:
  "calls_of i [] = []" "calls_of i ((j, c) # h) = (if j = i then [c] else []) @ calls_of i h"
  by (simp_all add: calls_of_def)

lemma answers_of_simps [simp]:
  "answers_of i [] outs = []"
  "answers_of i ((j, c) # h) (out # outs) = (if j = i then [out] else []) @ answers_of i h outs"
  by (simp_all add: answers_of_def)

lemma reading_keeps: "locked_call c \<Longrightarrow> reads_only c \<Longrightarrow> snd (q_step ops c b) = b"
  by (cases c) simp_all

text \<open>One section is one call.\<close>

lemma one_section_call:
  assumes "ts ! i = (g # rest, outs)" "is_body_of c g"
  shows "one_section i (b, ts) =
    (snd (q_step CircleBufferQueue_vtable c b), ts[i := (rest, outs @ [fst (q_step CircleBufferQueue_vtable c b)])])"
  using assms by (cases g) (auto simp: one_section_def reading_keeps)

lemma one_by_one_calls:
  assumes "list_all2 (\<lambda>cs t. list_all2 is_body_of cs (fst t)) calls ts" "set order \<subseteq> {..<length ts}"
    "fold one_section order (b, ts) = (b', ts')"
  shows "\<exists>h left. length left = length ts \<and> length ts' = length ts \<and>
    b' = snd (q_run CircleBufferQueue_vtable (map snd h) b) \<and>
    (\<forall>i < length ts. calls ! i = calls_of i h @ left ! i \<and> list_all2 is_body_of (left ! i) (fst (ts' ! i)) \<and>
       snd (ts' ! i) = snd (ts ! i) @ answers_of i h (fst (q_run CircleBufferQueue_vtable (map snd h) b)))"
  using assms
proof (induction order arbitrary: calls ts b)
  case Nil
  then show ?case
    by (intro exI[of _ "[]"] exI[of _ calls]) (auto simp: list_all2_conv_all_nth)
next
  case (Cons i order)
  have i: "i < length ts" using Cons.prems(2) by simp
  have bodies: "list_all2 is_body_of (calls ! i) (fst (ts ! i))"
    using Cons.prems(1) i by (simp add: list_all2_conv_all_nth)
  show ?case
  proof (cases "fst (ts ! i)")
    case Nil
    then have "one_section i (b, ts) = (b, ts)" by (cases "ts ! i") (simp add: one_section_def)
    then show ?thesis using Cons.IH[OF Cons.prems(1), of b] Cons.prems(2,3) by simp
  next
    case (Cons g rest)
    note prems = Cons.prems
    obtain c cs where c: "calls ! i = c # cs" "is_body_of c g" "list_all2 is_body_of cs rest"
      using bodies Cons by (auto simp: list_all2_Cons2)
    define out where "out = fst (q_step CircleBufferQueue_vtable c b)"
    define b1 where "b1 = snd (q_step CircleBufferQueue_vtable c b)"
    define ts1 where "ts1 = ts[i := (rest, snd (ts ! i) @ [out])]"
    have one: "one_section i (b, ts) = (b1, ts1)"
      using one_section_call[OF _ c(2), of ts i rest "snd (ts ! i)" b] Cons
      by (simp add: b1_def ts1_def out_def prod_eq_iff)
    have "list_all2 (\<lambda>cs t. list_all2 is_body_of cs (fst t)) (calls[i := cs]) ts1"
      unfolding ts1_def using list_all2_update_cong[OF prems(1)] c(3) by fastforce
    then obtain h left where h: "length left = length ts" "length ts' = length ts"
      "b' = snd (q_run CircleBufferQueue_vtable (map snd h) b1)"
      "\<forall>k < length ts. calls[i := cs] ! k = calls_of k h @ left ! k \<and> list_all2 is_body_of (left ! k) (fst (ts' ! k)) \<and>
         snd (ts' ! k) = snd (ts1 ! k) @ answers_of k h (fst (q_run CircleBufferQueue_vtable (map snd h) b1))"
      using Cons.IH[of "calls[i := cs]" ts1 b1] prems(2,3) one by (auto simp: ts1_def)
    have len: "length calls = length ts" using prems(1) by (rule list_all2_lengthD)
    have run: "q_run CircleBufferQueue_vtable (map snd ((i, c) # h)) b =
      (out # fst (q_run CircleBufferQueue_vtable (map snd h) b1), snd (q_run CircleBufferQueue_vtable (map snd h) b1))"
      by (simp add: out_def b1_def split_beta)
    have "calls ! k = calls_of k ((i, c) # h) @ left ! k \<and> list_all2 is_body_of (left ! k) (fst (ts' ! k)) \<and>
        snd (ts' ! k) = snd (ts ! k) @ answers_of k ((i, c) # h) (fst (q_run CircleBufferQueue_vtable (map snd ((i, c) # h)) b))"
      if k: "k < length ts" for k
      using h(4) k c(1) len unfolding run ts1_def by (cases "k = i") auto
    then show ?thesis
      using h(1-3) run by (intro exI[of _ "(i, c) # h"] exI[of _ left]) auto
  qed
qed

text \<open>C11: any number of threads that write to, pop from, peek into, consume from and clear one ring
  buffer at the same time, in any interleaving of the steps of the methods' bodies, see a bounded
  FIFO list of bytes: there is one order of all their calls, keeping the order of each thread, in
  which that list gives every thread exactly the answers it got, and in the end it holds exactly the
  bytes of the buffer.\<close>

theorem locked_buffer_linearises:
  assumes "0 < c" "call_threads calls ts" "lock_run sched (lock_start (CircleBufferQueue_ctor c) ts) = Some s" "lock_finished s"
  shows "\<exists>h. (\<forall>i < length calls. calls_of i h = calls ! i \<and>
      lt_Local (ls_Threads s ! i) = answers_of i h (fst (spec_run c (map snd h) []))) \<and>
    cbq_contents (ls_Data s) = snd (spec_run c (map snd h) [])"
proof -
  let ?b = "CircleBufferQueue_ctor c"
  have ts: "list_all2 (\<lambda>cs t. list_all2 is_body_of cs (fst t)) calls ts" "length calls = length ts" "\<forall>i < length ts. snd (ts ! i) = []"
    using assms(2) by (auto simp: call_threads_def list_all2_conv_all_nth)
  have seq: "fold one_section (ls_Order s) (?b, ts) = (ls_Data s, map (\<lambda>t. ([], lt_Local t)) (ls_Threads s))"
    using sections_serialise[OF assms(3,4)] by (simp add: one_by_one_def)
  have order: "set (ls_Order s) \<subseteq> {..<length ts}"
    using run_order_in_range[OF assms(3)] by (simp add: lock_start_def)
  let ?ts' = "map (\<lambda>t. ([], lt_Local t)) (ls_Threads s) :: (call_section list \<times> qout list) list"
  obtain h left where raw: "length ?ts' = length ts" "ls_Data s = snd (q_run CircleBufferQueue_vtable (map snd h) ?b)"
    "\<forall>i < length ts. calls ! i = calls_of i h @ left ! i \<and> list_all2 is_body_of (left ! i) (fst (?ts' ! i)) \<and>
       snd (?ts' ! i) = snd (ts ! i) @ answers_of i h (fst (q_run CircleBufferQueue_vtable (map snd h) ?b))"
    using one_by_one_calls[OF ts(1) order seq] by blast
  have h: "length (ls_Threads s) = length ts" "ls_Data s = snd (q_run CircleBufferQueue_vtable (map snd h) ?b)"
    "\<forall>i < length ts. calls ! i = calls_of i h \<and>
       lt_Local (ls_Threads s ! i) = answers_of i h (fst (q_run CircleBufferQueue_vtable (map snd h) ?b))"
    using raw ts(3) by auto
  have spec: "fst (q_run CircleBufferQueue_vtable (map snd h) ?b) = fst (spec_run c (map snd h) [])"
    "cbq_contents (ls_Data s) = snd (spec_run c (map snd h) [])"
    using cbq.run_refines(1,2)[OF cbq_inv_ctor[OF assms(1)], of "map snd h"] h(2)
    by (simp_all add: CircleBufferQueue_ctor_def cbq_contents_def)
  have "calls_of i h = calls ! i \<and> lt_Local (ls_Threads s ! i) = answers_of i h (fst (spec_run c (map snd h) []))"
    if "i < length calls" for i
    using h(3) that ts(2) spec(1) by auto
  then show ?thesis using spec(2) by blast
qed

text \<open>A writer and a popper on a ring of four bytes, the popper's peek between two writes, each body cut
  in two steps: the call, then the note of its answer.\<close>

definition body :: "qop \<Rightarrow> call_section" where
  "body c = (if reads_only c
     then ReadSection [\<lambda>b outs. outs, \<lambda>b outs. outs @ [fst (q_step CircleBufferQueue_vtable c b)]]
     else WriteSection [\<lambda>(outs, b). (outs @ [fst (q_step CircleBufferQueue_vtable c b)], snd (q_step CircleBufferQueue_vtable c b)),
                        \<lambda>(outs, b). (outs, b)])"

lemma is_body_of_body: "locked_call c \<Longrightarrow> is_body_of c (body c)"
  by (simp add: body_def)

definition demo_calls :: "qop list list" where
  "demo_calls = [[QWrite [1, 2], QWrite [3]], [QPeek 2, QPop 3]]"

definition demo_bodies :: "(call_section list \<times> qout list) list" where
  "demo_bodies = map (\<lambda>cs. (map body cs, [])) demo_calls"

lemma locked_buffer_linearises_witness:
  "\<exists>s h. lock_run [0, 0, 0, 0, 1, 1, 1, 1, 0, 0, 0, 0, 1, 1, 1, 1] (lock_start (CircleBufferQueue_ctor 4) demo_bodies) = Some s \<and>
     lock_finished s \<and> calls_of 0 h = demo_calls ! 0 \<and> calls_of 1 h = demo_calls ! 1 \<and>
     lt_Local (ls_Threads s ! 1) = answers_of 1 h (fst (spec_run 4 (map snd h) []))"
proof -
  let ?run = "lock_run [0, 0, 0, 0, 1, 1, 1, 1, 0, 0, 0, 0, 1, 1, 1, 1] (lock_start (CircleBufferQueue_ctor 4) demo_bodies)"
  obtain s where s: "?run = Some s" "lock_finished s"
    by (simp add: demo_bodies_def demo_calls_def body_def lock_start_def lock_act_def lock_defs RWLock_ctor_def
        lock_finished_def Let_def)
  have "call_threads demo_calls demo_bodies"
    by (simp add: call_threads_def demo_bodies_def demo_calls_def is_body_of_body)
  from locked_buffer_linearises[OF _ this s(1) s(2)]
  obtain h where h: "\<forall>i < length demo_calls. calls_of i h = demo_calls ! i \<and>
      lt_Local (ls_Threads s ! i) = answers_of i h (fst (spec_run 4 (map snd h) []))" by auto
  then have "calls_of 0 h = demo_calls ! 0" "calls_of 1 h = demo_calls ! 1 \<and>
      lt_Local (ls_Threads s ! 1) = answers_of 1 h (fst (spec_run 4 (map snd h) []))"
    by (simp_all add: demo_calls_def)
  then show ?thesis using s by blast
qed

end
