(* ===== verification/Thread_Pool.thy ===== *)
theory Thread_Pool
  imports FP_Prelude "HOL-Library.Multiset"
begin

text \<open>
  \<open>ThreadPool\<close> and \<open>EventListener\<close> (\<open>LibCommons/ThreadPool.ixx\<close>, \<open>EventListener.ixx\<close>): worker threads that
  wait for tasks on a condition variable. One action is what a thread does while it holds the
  mutex, or one notification; the actions interleave in any order. A task is a number, or
  \<open>None\<close> for an empty \<open>std::function\<close>. A worker sleeps in \<open>wait\<close> until a notification, or a spurious
  wakeup, makes it test the condition again.

  The members of the pool are destroyed in the reverse order of their declaration; a worker that
  uses the mutex, the queue or the condition variable after that sets \<open>tp_Broken\<close>.
\<close>

type_synonym task = "nat option"

datatype pool_worker = Awake | Asleep | Busy task | Left

record ThreadPool =
  tp_Workers :: "pool_worker list"
  tp_TaskQueue :: "task list"
  tp_bStopped :: bool
  tp_StopRequested :: bool
  tp_NotifyOne :: nat
  tp_NotifyAll :: nat
  tp_Destroyed :: bool
  tp_Broken :: bool
  tp_Enqueued :: "task list"
  tp_Popped :: "task list"
  tp_Ran :: "task list"
  tp_AtStop :: nat

text \<open>The last fields are ghosts: all tasks enqueued, taken and run, and how many had been enqueued
  when the pool was stopped. \<open>tp_NotifyOne\<close> and \<open>tp_NotifyAll\<close> count the notifications still to be
  made by threads that have left the mutex.\<close>

definition ThreadPool_ctor :: "nat \<Rightarrow> ThreadPool" where
  "ThreadPool_ctor numThreads =
     \<lparr>tp_Workers = replicate numThreads Awake, tp_TaskQueue = [], tp_bStopped = False, tp_StopRequested = False,
      tp_NotifyOne = 0, tp_NotifyAll = 0, tp_Destroyed = False, tp_Broken = False,
      tp_Enqueued = [], tp_Popped = [], tp_Ran = [], tp_AtStop = 0\<rparr>"

text \<open>\<open>Enqueue\<close> and \<open>Stop\<close>: the part under the mutex; the notification is an action of its own.\<close>

definition ThreadPool_Enqueue :: "task \<Rightarrow> ThreadPool \<Rightarrow> ThreadPool" where
  "ThreadPool_Enqueue t p =
     p\<lparr>tp_TaskQueue := tp_TaskQueue p @ [t], tp_Enqueued := tp_Enqueued p @ [t], tp_NotifyOne := tp_NotifyOne p + 1\<rparr>"

definition ThreadPool_Stop :: "ThreadPool \<Rightarrow> ThreadPool" where
  "ThreadPool_Stop p =
     (if tp_bStopped p then p
      else p\<lparr>tp_bStopped := True, tp_NotifyAll := tp_NotifyAll p + 1, tp_AtStop := length (tp_Enqueued p)\<rparr>)"

definition ThreadPool_IsStopped :: "ThreadPool \<Rightarrow> bool" where
  "ThreadPool_IsStopped p = tp_bStopped p"

text \<open>After \<open>Stop\<close>, the destructor destroys the flag, the condition, the mutex and the queue, and only
  then the workers: each \<open>jthread\<close> requests the stop of its thread and waits for it.\<close>

definition wake_all :: "ThreadPool \<Rightarrow> ThreadPool" where
  "wake_all p = p\<lparr>tp_NotifyAll := tp_NotifyAll p - 1, tp_Workers := map (\<lambda>w. if w = Asleep then Awake else w) (tp_Workers p)\<rparr>"

definition ThreadPool_dtor :: "ThreadPool \<Rightarrow> ThreadPool" where
  "ThreadPool_dtor p =
     (let p1 = ThreadPool_Stop p; p2 = (if tp_bStopped p then p1 else wake_all p1)
      in p2\<lparr>tp_Destroyed := True, tp_StopRequested := True\<rparr>)"

text \<open>One round of a worker under the mutex: the test of \<open>wait\<close>, and what follows it.\<close>

definition WorkerThread_round :: "nat \<Rightarrow> ThreadPool \<Rightarrow> ThreadPool" where
  "WorkerThread_round i p =
     (let put = (\<lambda>w p. p\<lparr>tp_Workers := (tp_Workers p)[i := w]\<rparr>) in
      if \<not> (tp_bStopped p \<or> tp_TaskQueue p \<noteq> [] \<or> tp_StopRequested p) then put Asleep p
      else if (tp_bStopped p \<or> tp_StopRequested p) \<and> tp_TaskQueue p = [] then put Left p
      else
        case tp_TaskQueue p of
          [] \<Rightarrow> put Awake p
        | t # ts \<Rightarrow> put (Busy t) (p\<lparr>tp_TaskQueue := ts, tp_Popped := tp_Popped p @ [t]\<rparr>))"

datatype pool_action =
    Round nat
  | RunTask nat
  | Spurious nat
  | Enqueue task
  | Stop
  | NotifyOne nat
  | NotifyNobody
  | NotifyAll
  | Destroy

text \<open>The action, or \<open>None\<close> when nobody can take it. Nobody calls a pool that is being destroyed, and no
  call is still under way when its destruction begins.\<close>

definition pool_act :: "pool_action \<Rightarrow> ThreadPool \<Rightarrow> ThreadPool option" where
  "pool_act a p =
     (case a of
        Round i \<Rightarrow>
          (if i < length (tp_Workers p) \<and> tp_Workers p ! i = Awake
           then Some (if tp_Destroyed p then p\<lparr>tp_Broken := True\<rparr> else WorkerThread_round i p) else None)
      | RunTask i \<Rightarrow>
          (if i < length (tp_Workers p) then
             (case tp_Workers p ! i of
                Busy t \<Rightarrow> Some (p\<lparr>tp_Workers := (tp_Workers p)[i := Awake], tp_Ran := tp_Ran p @ [t]\<rparr>)
              | _ \<Rightarrow> None)
           else None)
      | Spurious i \<Rightarrow>
          (if i < length (tp_Workers p) \<and> tp_Workers p ! i = Asleep
           then Some (p\<lparr>tp_Workers := (tp_Workers p)[i := Awake]\<rparr>) else None)
      | Enqueue t \<Rightarrow> if tp_Destroyed p then None else Some (ThreadPool_Enqueue t p)
      | Stop \<Rightarrow> if tp_Destroyed p then None else Some (ThreadPool_Stop p)
      | NotifyOne i \<Rightarrow>
          (if tp_NotifyOne p > 0 \<and> i < length (tp_Workers p) \<and> tp_Workers p ! i = Asleep
           then Some (p\<lparr>tp_NotifyOne := tp_NotifyOne p - 1, tp_Workers := (tp_Workers p)[i := Awake]\<rparr>) else None)
      | NotifyNobody \<Rightarrow>
          (if tp_NotifyOne p > 0 \<and> Asleep \<notin> set (tp_Workers p)
           then Some (p\<lparr>tp_NotifyOne := tp_NotifyOne p - 1\<rparr>) else None)
      | NotifyAll \<Rightarrow>
          (if tp_NotifyAll p > 0 then Some (wake_all p) else None)
      | Destroy \<Rightarrow> if tp_Destroyed p \<or> tp_NotifyOne p > 0 \<or> tp_NotifyAll p > 0 then None else Some (ThreadPool_dtor p))"

fun pool_run :: "pool_action list \<Rightarrow> ThreadPool \<Rightarrow> ThreadPool option" where
  "pool_run [] p = Some p"
| "pool_run (a # as) p = (case pool_act a p of None \<Rightarrow> None | Some p' \<Rightarrow> pool_run as p')"

section \<open>EventListener\<close>

text \<open>The singleton's pool; a call without one is ignored.\<close>

type_synonym EventListener = "ThreadPool option"

definition EventListener_Init :: "nat \<Rightarrow> EventListener \<Rightarrow> EventListener" where
  "EventListener_Init threadCount l = (if l \<noteq> None then l else Some (ThreadPool_ctor threadCount))"

definition EventListener_Enqueue :: "task \<Rightarrow> EventListener \<Rightarrow> EventListener" where
  "EventListener_Enqueue t l = map_option (ThreadPool_Enqueue t) l"

text \<open>\<open>Stop\<close> stops the pool and destroys it; what is left of it is returned beside the null pointer.\<close>

definition EventListener_Stop :: "EventListener \<Rightarrow> EventListener \<times> ThreadPool option" where
  "EventListener_Stop l = (case l of None \<Rightarrow> (None, None) | Some p \<Rightarrow> (None, Some (ThreadPool_dtor (ThreadPool_Stop p))))"

definition EventListener_dtor :: "EventListener \<Rightarrow> EventListener \<times> ThreadPool option" where
  "EventListener_dtor l = EventListener_Stop l"

section \<open>Every task once\<close>

fun busy_with :: "pool_worker \<Rightarrow> task list" where
  "busy_with (Busy t) = [t]"
| "busy_with w = []"

definition in_hand :: "pool_worker list \<Rightarrow> task multiset" where
  "in_hand ws = mset (concat (map busy_with ws))"

lemma in_hand_update:
  "i < length ws \<Longrightarrow> in_hand (ws[i := w]) + mset (busy_with (ws ! i)) = in_hand ws + mset (busy_with w)"
proof (induction ws arbitrary: i)
  case (Cons a ws)
  show ?case using Cons.prems Cons.IH[of "i - 1"] by (cases i) (auto simp: in_hand_def ac_simps)
qed simp

lemma in_hand_wake: "in_hand (map (\<lambda>w. if w = Asleep then Awake else w) ws) = in_hand ws"
  by (induction ws) (auto simp: in_hand_def)

lemma in_hand_start: "in_hand (replicate n Awake) = {#}"
  by (induction n) (auto simp: in_hand_def)

definition tasks_ok :: "ThreadPool \<Rightarrow> bool" where
  "tasks_ok p \<longleftrightarrow>
     tp_Popped p @ tp_TaskQueue p = tp_Enqueued p \<and>
     mset (tp_Ran p) + in_hand (tp_Workers p) = mset (tp_Popped p) \<and>
     (tp_bStopped p \<longrightarrow> tp_AtStop p \<le> length (tp_Enqueued p)) \<and>
     (tp_StopRequested p \<longrightarrow> tp_bStopped p) \<and>
     (Left \<in> set (tp_Workers p) \<longrightarrow> tp_bStopped p \<and> tp_AtStop p \<le> length (tp_Popped p))"

lemma wake_all_fields [simp]:
  "tp_TaskQueue (wake_all p) = tp_TaskQueue p" "tp_bStopped (wake_all p) = tp_bStopped p" "tp_Enqueued (wake_all p) = tp_Enqueued p"
  "tp_Popped (wake_all p) = tp_Popped p" "tp_Ran (wake_all p) = tp_Ran p" "tp_AtStop (wake_all p) = tp_AtStop p"
  "tp_StopRequested (wake_all p) = tp_StopRequested p" "in_hand (tp_Workers (wake_all p)) = in_hand (tp_Workers p)"
  "Left \<in> set (tp_Workers (wake_all p)) \<longleftrightarrow> Left \<in> set (tp_Workers p)" "Asleep \<notin> set (tp_Workers (wake_all p))"
  "length (tp_Workers (wake_all p)) = length (tp_Workers p)" "tp_NotifyOne (wake_all p) = tp_NotifyOne p"
  "tp_Destroyed (wake_all p) = tp_Destroyed p"
  by (auto simp: wake_all_def in_hand_wake)

lemma Stop_fields [simp]:
  "tp_Workers (ThreadPool_Stop p) = tp_Workers p" "tp_TaskQueue (ThreadPool_Stop p) = tp_TaskQueue p"
  "tp_Enqueued (ThreadPool_Stop p) = tp_Enqueued p" "tp_Popped (ThreadPool_Stop p) = tp_Popped p" "tp_Ran (ThreadPool_Stop p) = tp_Ran p"
  "tp_bStopped (ThreadPool_Stop p)" "tp_StopRequested (ThreadPool_Stop p) = tp_StopRequested p"
  "tp_AtStop (ThreadPool_Stop p) = (if tp_bStopped p then tp_AtStop p else length (tp_Enqueued p))"
  "tp_NotifyOne (ThreadPool_Stop p) = tp_NotifyOne p" "tp_NotifyAll (ThreadPool_Stop p) = tp_NotifyAll p + (if tp_bStopped p then 0 else 1)"
  "tp_Destroyed (ThreadPool_Stop p) = tp_Destroyed p"
  by (auto simp: ThreadPool_Stop_def)

lemma left_update: "Left \<in> set (ws[i := w]) \<Longrightarrow> w \<noteq> Left \<Longrightarrow> Left \<in> set ws"
  using set_update_subset_insert[of ws i w] by auto

lemma Stop_tasks_ok: "tasks_ok p \<Longrightarrow> tasks_ok (ThreadPool_Stop p)"
  by (auto simp: tasks_ok_def)

lemma wake_tasks_ok: "tasks_ok p \<Longrightarrow> tasks_ok (wake_all p)"
  by (auto simp: tasks_ok_def)

lemma put_tasks_ok:
  assumes "tasks_ok p" "i < length (tp_Workers p)" "busy_with (tp_Workers p ! i) = []" "busy_with w = []"
    "w = Left \<Longrightarrow> tp_bStopped p \<and> tp_TaskQueue p = []"
  shows "tasks_ok (p\<lparr>tp_Workers := (tp_Workers p)[i := w]\<rparr>)"
proof -
  have "in_hand ((tp_Workers p)[i := w]) = in_hand (tp_Workers p)"
    using in_hand_update[OF assms(2), of w] assms(3,4) by simp
  moreover have "Left \<in> set ((tp_Workers p)[i := w]) \<Longrightarrow> tp_bStopped p \<and> tp_AtStop p \<le> length (tp_Popped p)"
    using assms(1,5) left_update[of "tp_Workers p" i w] by (cases "w = Left") (auto simp: tasks_ok_def)
  ultimately show ?thesis using assms(1) by (simp add: tasks_ok_def)
qed

lemma round_tasks_ok:
  assumes "tasks_ok p" "i < length (tp_Workers p)" "tp_Workers p ! i = Awake"
  shows "tasks_ok (WorkerThread_round i p)"
proof (cases "tp_TaskQueue p")
  case Nil
  have "tp_StopRequested p \<Longrightarrow> tp_bStopped p" using assms(1) by (simp add: tasks_ok_def)
  then show ?thesis
    using Nil put_tasks_ok[OF assms(1,2), of Asleep] put_tasks_ok[OF assms(1,2), of Left] assms(3)
    by (auto simp: WorkerThread_round_def Let_def)
next
  case (Cons t ts)
  have "in_hand ((tp_Workers p)[i := Busy t]) = in_hand (tp_Workers p) + {#t#}"
    using in_hand_update[OF assms(2), of "Busy t"] assms(3) by simp
  then show ?thesis
    using assms(1) Cons left_update[of "tp_Workers p" i "Busy t"]
    by (auto simp: WorkerThread_round_def tasks_ok_def Let_def)
qed

lemma run_tasks_ok:
  assumes "tasks_ok p" "i < length (tp_Workers p)" "tp_Workers p ! i = Busy t"
  shows "tasks_ok (p\<lparr>tp_Workers := (tp_Workers p)[i := Awake], tp_Ran := tp_Ran p @ [t]\<rparr>)"
proof -
  have "in_hand ((tp_Workers p)[i := Awake]) + {#t#} = in_hand (tp_Workers p)"
    using in_hand_update[OF assms(2), of Awake] assms(3) by simp
  then have "mset (tp_Ran p @ [t]) + in_hand ((tp_Workers p)[i := Awake]) = mset (tp_Popped p)"
    using assms(1) by (simp add: tasks_ok_def flip: \<open>_ = in_hand (tp_Workers p)\<close>)
  then show ?thesis using assms(1) left_update[of "tp_Workers p" i Awake] by (auto simp: tasks_ok_def)
qed

lemma act_tasks_ok:
  assumes "tasks_ok p" "pool_act a p = Some p'"
  shows "tasks_ok p'"
proof (cases a)
  case (Round i)
  then show ?thesis
    using assms round_tasks_ok[OF assms(1)] by (auto simp: pool_act_def tasks_ok_def split: if_splits)
next
  case (RunTask i)
  then show ?thesis
    using assms run_tasks_ok[OF assms(1)] by (auto simp: pool_act_def split: if_splits pool_worker.splits)
next
  case (Spurious i)
  then show ?thesis
    using assms put_tasks_ok[OF assms(1), of i Awake] by (auto simp: pool_act_def split: if_splits)
next
  case (Enqueue t)
  then show ?thesis using assms by (auto simp: pool_act_def ThreadPool_Enqueue_def tasks_ok_def split: if_splits)
next
  case Stop
  then show ?thesis using assms Stop_tasks_ok by (auto simp: pool_act_def split: if_splits)
next
  case (NotifyOne i)
  then have "tasks_ok (p\<lparr>tp_Workers := (tp_Workers p)[i := Awake]\<rparr>)"
    using assms put_tasks_ok[OF assms(1), of i Awake] by (auto simp: pool_act_def split: if_splits)
  then show ?thesis using NotifyOne assms(2) by (auto simp: pool_act_def tasks_ok_def split: if_splits)
next
  case NotifyNobody
  then show ?thesis using assms by (auto simp: pool_act_def tasks_ok_def split: if_splits)
next
  case NotifyAll
  then show ?thesis using assms wake_tasks_ok by (auto simp: pool_act_def split: if_splits)
next
  case Destroy
  have "tasks_ok (p1\<lparr>tp_Destroyed := True, tp_StopRequested := True\<rparr>)" if "tasks_ok p1" "tp_bStopped p1" for p1
    using that by (simp add: tasks_ok_def)
  from this[OF wake_tasks_ok[OF Stop_tasks_ok[OF assms(1)]]] this[OF Stop_tasks_ok[OF assms(1)]]
  show ?thesis using Destroy assms(2) by (auto simp: pool_act_def ThreadPool_dtor_def Let_def split: if_splits)
qed

lemma start_tasks_ok: "tasks_ok (ThreadPool_ctor n)"
  by (simp add: tasks_ok_def ThreadPool_ctor_def in_hand_start)

lemma run_invariant:
  assumes "pool_run as p = Some p'" "I p" "\<And>a p p'. I p \<Longrightarrow> pool_act a p = Some p' \<Longrightarrow> I p'"
  shows "I p'"
  using assms(1,2)
proof (induction as arbitrary: p)
  case (Cons a as)
  then show ?case using assms(3) by (auto split: option.splits)
qed simp

section \<open>No wakeup is lost\<close>

definition at_work :: "pool_worker list \<Rightarrow> bool" where
  "at_work ws \<longleftrightarrow> (\<exists>w \<in> set ws. w \<noteq> Asleep \<and> w \<noteq> Left)"

definition wakeups_ok :: "ThreadPool \<Rightarrow> bool" where
  "wakeups_ok p \<longleftrightarrow>
     (tp_StopRequested p \<longrightarrow> tp_bStopped p) \<and> (Left \<in> set (tp_Workers p) \<longrightarrow> tp_bStopped p) \<and>
     (tp_TaskQueue p \<noteq> [] \<and> Asleep \<in> set (tp_Workers p) \<longrightarrow> at_work (tp_Workers p) \<or> tp_NotifyOne p > 0 \<or> tp_NotifyAll p > 0) \<and>
     (tp_bStopped p \<and> Asleep \<in> set (tp_Workers p) \<longrightarrow> tp_NotifyAll p > 0)"

lemma at_work_update: "i < length ws \<Longrightarrow> w \<noteq> Asleep \<Longrightarrow> w \<noteq> Left \<Longrightarrow> at_work (ws[i := w])"
  unfolding at_work_def using set_update_memI[of i ws w] by blast

lemma asleep_update: "Asleep \<in> set (ws[i := w]) \<Longrightarrow> w \<noteq> Asleep \<Longrightarrow> Asleep \<in> set ws"
  using set_update_subset_insert[of ws i w] by auto

lemma put_wakeups_ok:
  assumes "wakeups_ok p" "i < length (tp_Workers p)" "w \<noteq> Asleep" "w \<noteq> Left"
    "tp_Workers p' = (tp_Workers p)[i := w]" "tp_bStopped p' = tp_bStopped p" "tp_StopRequested p' = tp_StopRequested p"
    "tp_NotifyAll p' = tp_NotifyAll p"
  shows "wakeups_ok p'"
  using assms at_work_update[OF assms(2-4)] asleep_update[of "tp_Workers p" i w] left_update[of "tp_Workers p" i w]
  unfolding wakeups_ok_def by auto

lemma round_wakeups_ok:
  assumes "wakeups_ok p" "i < length (tp_Workers p)" "tp_Workers p ! i = Awake"
  shows "wakeups_ok (WorkerThread_round i p)"
proof (cases "tp_TaskQueue p")
  case Nil
  show ?thesis
  proof (cases "tp_bStopped p \<or> tp_StopRequested p")
    case True
    have "wakeups_ok (p\<lparr>tp_Workers := (tp_Workers p)[i := Left]\<rparr>)"
      using assms Nil True asleep_update[of "tp_Workers p" i Left] by (auto simp: wakeups_ok_def)
    then show ?thesis using True Nil by (auto simp: WorkerThread_round_def Let_def)
  next
    case False
    have "wakeups_ok (p\<lparr>tp_Workers := (tp_Workers p)[i := Asleep]\<rparr>)"
      using assms Nil False left_update[of "tp_Workers p" i Asleep] by (auto simp: wakeups_ok_def)
    then show ?thesis using False Nil by (auto simp: WorkerThread_round_def Let_def)
  qed
next
  case (Cons t ts)
  then show ?thesis
    by (intro put_wakeups_ok[OF assms(1,2), of "Busy t"]) (auto simp: WorkerThread_round_def Let_def)
qed

lemma wake_wakeups_ok:
  assumes "wakeups_ok p"
  shows "wakeups_ok (wake_all p)"
  using assms unfolding wakeups_ok_def by simp

lemma Stop_wakeups_ok: "wakeups_ok p \<Longrightarrow> wakeups_ok (ThreadPool_Stop p)"
  by (auto simp: wakeups_ok_def)

lemma act_wakeups_ok:
  assumes "wakeups_ok p" "pool_act a p = Some p'"
  shows "wakeups_ok p'"
proof (cases a)
  case (Round i)
  have "wakeups_ok (p\<lparr>tp_Broken := True\<rparr>)" using assms(1) by (simp add: wakeups_ok_def)
  then show ?thesis
    using Round assms(2) round_wakeups_ok[OF assms(1)] by (auto simp: pool_act_def split: if_splits)
next
  case (RunTask i)
  then obtain t where t: "i < length (tp_Workers p)" "tp_Workers p ! i = Busy t"
    "p' = p\<lparr>tp_Workers := (tp_Workers p)[i := Awake], tp_Ran := tp_Ran p @ [t]\<rparr>"
    using assms(2) by (auto simp: pool_act_def split: if_splits pool_worker.splits)
  then show ?thesis by (intro put_wakeups_ok[OF assms(1) t(1), of Awake]) simp_all
next
  case (Spurious i)
  then have t: "i < length (tp_Workers p)" "p' = p\<lparr>tp_Workers := (tp_Workers p)[i := Awake]\<rparr>"
    using assms(2) by (auto simp: pool_act_def split: if_splits)
  then show ?thesis by (intro put_wakeups_ok[OF assms(1) t(1), of Awake]) simp_all
next
  case (Enqueue t)
  then show ?thesis using assms by (auto simp: pool_act_def ThreadPool_Enqueue_def wakeups_ok_def split: if_splits)
next
  case Stop
  then show ?thesis using assms Stop_wakeups_ok by (auto simp: pool_act_def split: if_splits)
next
  case (NotifyOne i)
  then have t: "i < length (tp_Workers p)"
    "p' = p\<lparr>tp_NotifyOne := tp_NotifyOne p - 1, tp_Workers := (tp_Workers p)[i := Awake]\<rparr>"
    using assms(2) by (auto simp: pool_act_def split: if_splits)
  then show ?thesis by (intro put_wakeups_ok[OF assms(1) t(1), of Awake]) simp_all
next
  case NotifyNobody
  then show ?thesis using assms by (auto simp: pool_act_def wakeups_ok_def split: if_splits)
next
  case NotifyAll
  then show ?thesis using assms wake_wakeups_ok by (auto simp: pool_act_def split: if_splits)
next
  case Destroy
  have "wakeups_ok (p1\<lparr>tp_Destroyed := True, tp_StopRequested := True\<rparr>)" if "wakeups_ok p1" "tp_bStopped p1" for p1
    using that by (simp add: wakeups_ok_def)
  from this[OF wake_wakeups_ok[OF Stop_wakeups_ok[OF assms(1)]]] this[OF Stop_wakeups_ok[OF assms(1)]]
  show ?thesis using Destroy assms(2) by (auto simp: pool_act_def ThreadPool_dtor_def Let_def split: if_splits)
qed

lemma act_workers: "pool_act a p = Some p' \<Longrightarrow> length (tp_Workers p') = length (tp_Workers p)"
  by (cases a) (auto simp: pool_act_def WorkerThread_round_def ThreadPool_Enqueue_def ThreadPool_dtor_def Let_def
      split: if_splits pool_worker.splits list.splits)

section \<open>Properties\<close>

text \<open>C15: the thread pool runs its tasks. In every interleaving of its workers with threads that enqueue, stop
  and notify, the tasks are taken in the order in which they were enqueued; none is run twice or made
  up, and what was taken and not yet run is in the hands of a worker. Once all workers have left, the
  pool was stopped and every task that had been enqueued before that has been run.\<close>

theorem thread_pool_runs_every_task:
  assumes "0 < n" "pool_run as (ThreadPool_ctor n) = Some p"
  shows "tp_Popped p @ tp_TaskQueue p = tp_Enqueued p \<and> mset (tp_Ran p) + in_hand (tp_Workers p) = mset (tp_Popped p) \<and>
    (set (tp_Workers p) \<subseteq> {Left} \<longrightarrow> tp_bStopped p \<and> mset (tp_Ran p) = mset (tp_Popped p) \<and>
       mset (take (tp_AtStop p) (tp_Enqueued p)) \<subseteq># mset (tp_Ran p))"
proof -
  have ok: "tasks_ok p"
    by (rule run_invariant[OF assms(2), where I = tasks_ok, OF start_tasks_ok act_tasks_ok])
  have len: "length (tp_Workers p) = n"
    by (rule run_invariant[OF assms(2), where I = "\<lambda>p. length (tp_Workers p) = n"]) (simp_all add: ThreadPool_ctor_def act_workers)
  have "tp_bStopped p \<and> mset (tp_Ran p) = mset (tp_Popped p) \<and> mset (take (tp_AtStop p) (tp_Enqueued p)) \<subseteq># mset (tp_Ran p)"
    if left: "set (tp_Workers p) \<subseteq> {Left}"
  proof -
    have "tp_Workers p = replicate n Left" using left len by (metis replicate_eqI singletonD subsetD)
    then have "in_hand (tp_Workers p) = {#}" "Left \<in> set (tp_Workers p)"
      using assms(1) by (auto simp: in_hand_def concat_eq_Nil_conv)
    then have ran: "mset (tp_Ran p) = mset (tp_Popped p)" "tp_bStopped p" "tp_AtStop p \<le> length (tp_Popped p)"
      using ok by (simp_all add: tasks_ok_def)
    have "take (tp_AtStop p) (tp_Enqueued p) = take (tp_AtStop p) (tp_Popped p)"
      using ok ran(3) unfolding tasks_ok_def by (metis append_Nil2 diff_is_0_eq take0 take_append)
    moreover have "mset (take (tp_AtStop p) (tp_Popped p)) \<subseteq># mset (tp_Popped p)"
      by (metis append_take_drop_id mset_append mset_subset_eq_add_left)
    ultimately show ?thesis using ran by simp
  qed
  then show ?thesis using ok unfolding tasks_ok_def by blast
qed

text \<open>C16: no wakeup of the thread pool is lost. Whatever the threads do, while tasks wait in the queue of a
  pool that is not stopped, some worker is awake or a notification is under way; and once the pool is
  stopped, no worker sleeps on unless the notification of all is still under way.\<close>

theorem thread_pool_wakes:
  assumes "0 < n" "pool_run as (ThreadPool_ctor n) = Some p"
  shows "(tp_TaskQueue p \<noteq> [] \<and> \<not> tp_bStopped p \<longrightarrow> at_work (tp_Workers p) \<or> tp_NotifyOne p > 0 \<or> tp_NotifyAll p > 0) \<and>
    (tp_bStopped p \<longrightarrow> Asleep \<notin> set (tp_Workers p) \<or> tp_NotifyAll p > 0)"
proof -
  have ok: "wakeups_ok p"
    by (rule run_invariant[OF assms(2), where I = wakeups_ok, OF _ act_wakeups_ok]) (auto simp: wakeups_ok_def ThreadPool_ctor_def)
  have "length (tp_Workers p) = n"
    by (rule run_invariant[OF assms(2), where I = "\<lambda>p. length (tp_Workers p) = n"]) (simp_all add: ThreadPool_ctor_def act_workers)
  then have "tp_Workers p ! 0 \<in> set (tp_Workers p)" using assms(1) by simp
  then have "at_work (tp_Workers p) \<or> Asleep \<in> set (tp_Workers p) \<or> Left \<in> set (tp_Workers p)"
    unfolding at_work_def by metis
  then show ?thesis using ok unfolding wakeups_ok_def by argo
qed

text \<open>The members are destroyed before the workers are joined: a worker that comes back from its task, or
  has just been woken, uses a mutex that is gone, and tasks still queued are never run.\<close>

theorem thread_pool_destruction_races:
  "(\<exists>as p. pool_run as (ThreadPool_ctor (Suc n)) = Some p \<and> tp_Broken p) \<and>
   (\<exists>as p. pool_run as (ThreadPool_ctor (Suc n)) = Some p \<and> tp_Destroyed p \<and> tp_Enqueued p = [Some 1] \<and> tp_Popped p = [])"
proof (intro conjI)
  show "\<exists>as p. pool_run as (ThreadPool_ctor (Suc n)) = Some p \<and> tp_Broken p"
    by (intro exI[of _ "[Destroy, Round 0]"])
      (simp add: pool_act_def ThreadPool_ctor_def ThreadPool_dtor_def ThreadPool_Stop_def wake_all_def)
  show "\<exists>as p. pool_run as (ThreadPool_ctor (Suc n)) = Some p \<and> tp_Destroyed p \<and> tp_Enqueued p = [Some 1] \<and> tp_Popped p = []"
    by (intro exI[of _ "[Enqueue (Some 1), NotifyNobody, Destroy]"])
      (simp add: pool_act_def ThreadPool_ctor_def ThreadPool_dtor_def ThreadPool_Stop_def ThreadPool_Enqueue_def wake_all_def)
qed

lemma thread_pool_runs_every_task_witness:
  "\<exists>p. pool_run [Round 0, Enqueue (Some 7), Enqueue None, NotifyOne 0, Round 0, Stop, RunTask 0, NotifyAll, Round 0, RunTask 0, Round 0]
      (ThreadPool_ctor 1) = Some p \<and> set (tp_Workers p) \<subseteq> {Left} \<and> tp_Ran p = [Some 7, None] \<and>
     mset (take (tp_AtStop p) (tp_Enqueued p)) \<subseteq># mset (tp_Ran p)"
proof -
  obtain p where p: "pool_run [Round 0, Enqueue (Some 7), Enqueue None, NotifyOne 0, Round 0, Stop, RunTask 0, NotifyAll, Round 0, RunTask 0, Round 0]
      (ThreadPool_ctor 1) = Some p" "set (tp_Workers p) \<subseteq> {Left}" "tp_Ran p = [Some 7, None]"
    by (simp add: pool_act_def ThreadPool_ctor_def WorkerThread_round_def ThreadPool_Enqueue_def ThreadPool_Stop_def wake_all_def Let_def)
  then show ?thesis using thread_pool_runs_every_task[OF _ p(1)] by auto
qed

lemma thread_pool_wakes_witness:
  "\<exists>p. pool_run [Round 0, Enqueue (Some 7)] (ThreadPool_ctor 1) = Some p \<and> tp_TaskQueue p = [Some 7] \<and>
     (at_work (tp_Workers p) \<or> tp_NotifyOne p > 0 \<or> tp_NotifyAll p > 0)"
proof -
  obtain p where p: "pool_run [Round 0, Enqueue (Some 7)] (ThreadPool_ctor 1) = Some p" "tp_TaskQueue p = [Some 7]" "\<not> tp_bStopped p"
    by (simp add: pool_act_def ThreadPool_ctor_def WorkerThread_round_def ThreadPool_Enqueue_def Let_def)
  then show ?thesis using thread_pool_wakes[OF _ p(1)] by auto
qed

end
