(* ===== verification/Metrics_Collector.thy ===== *)
theory Metrics_Collector
  imports Complex_Main FP_Prelude "HOL-Library.Multiset"
begin

text \<open>
  \<open>MetricsCollector\<close> of the test client (\<open>FastPortTestClient/MetricsCollector.ixx\<close>): the ring of latency
  samples, the counters, and the snapshot the window draws, which once a second turns the
  samples into percentiles and starts over. \<open>float\<close> and \<open>double\<close> are real numbers; the time is an
  argument; one call is one step, except for the count of connections, whose two atomic accesses
  are also modelled apart.
\<close>

definition MAX_SAMPLES :: nat where "MAX_SAMPLES = 10000"

record MetricsCollector =
  mc_LatencySamples :: "real list"
  mc_SampleHead :: nat
  mc_SampleCount :: nat
  mc_TotalMessages :: u64
  mc_IntervalMessages :: u64
  mc_ActiveConnections :: u32
  mc_CurrentMsgPerSec :: real
  mc_CurrentAvg :: real
  mc_CurrentP50 :: real
  mc_CurrentP95 :: real
  mc_CurrentP99 :: real
  mc_LastUpdate :: real
  mc_P50History :: "real list"
  mc_P95History :: "real list"
  mc_P99History :: "real list"
  mc_ThroughputHistory :: "real list"

record MetricsSnapshot =
  ms_TotalMessages :: u64
  ms_ActiveConnections :: u32
  ms_MsgPerSec :: real
  ms_AvgLatencyMs :: real
  ms_P50LatencyMs :: real
  ms_P95LatencyMs :: real
  ms_P99LatencyMs :: real

definition MetricsCollector_ctor :: "real \<Rightarrow> MetricsCollector" where
  "MetricsCollector_ctor now =
     \<lparr>mc_LatencySamples = replicate MAX_SAMPLES 0, mc_SampleHead = 0, mc_SampleCount = 0, mc_TotalMessages = 0,
      mc_IntervalMessages = 0, mc_ActiveConnections = 0, mc_CurrentMsgPerSec = 0, mc_CurrentAvg = 0, mc_CurrentP50 = 0,
      mc_CurrentP95 = 0, mc_CurrentP99 = 0, mc_LastUpdate = now, mc_P50History = [], mc_P95History = [],
      mc_P99History = [], mc_ThroughputHistory = []\<rparr>"

definition RecordLatency :: "real \<Rightarrow> MetricsCollector \<Rightarrow> MetricsCollector" where
  "RecordLatency rttMs c =
     (let idx = mc_SampleHead c mod MAX_SAMPLES
      in c\<lparr>mc_SampleHead := mc_SampleHead c + 1, mc_LatencySamples := (mc_LatencySamples c)[idx := rttMs],
           mc_SampleCount := mc_SampleCount c + 1\<rparr>)"

definition RecordMessage :: "MetricsCollector \<Rightarrow> MetricsCollector" where
  "RecordMessage c = c\<lparr>mc_TotalMessages := mc_TotalMessages c + 1, mc_IntervalMessages := mc_IntervalMessages c + 1\<rparr>"

definition RecordConnection :: "bool \<Rightarrow> MetricsCollector \<Rightarrow> MetricsCollector" where
  "RecordConnection isConnected c =
     (if isConnected then c\<lparr>mc_ActiveConnections := mc_ActiveConnections c + 1\<rparr>
      else if mc_ActiveConnections c > 0 then c\<lparr>mc_ActiveConnections := mc_ActiveConnections c - 1\<rparr>
      else c)"

definition GetTotalMessages :: "MetricsCollector \<Rightarrow> u64" where
  "GetTotalMessages c = mc_TotalMessages c"

definition UpdatePercentiles :: "MetricsCollector \<Rightarrow> MetricsCollector" where
  "UpdatePercentiles c =
     (let count1 = mc_SampleCount c in
      if count1 = 0 then c
      else
        let n = (if count1 < MAX_SAMPLES then count1 else MAX_SAMPLES);
            sorted1 = sort (take n (mc_LatencySamples c));
            sum1 = foldl (+) 0 sorted1
        in c\<lparr>mc_CurrentAvg := sum1 / real n, mc_CurrentP50 := sorted1 ! (n * 50 div 100),
             mc_CurrentP95 := sorted1 ! (n * 95 div 100), mc_CurrentP99 := sorted1 ! (n * 99 div 100),
             mc_SampleCount := 0, mc_SampleHead := 0\<rparr>)"

definition push_history :: "real \<Rightarrow> real list \<Rightarrow> real list" where
  "push_history x h = (if length (h @ [x]) > 60 then tl (h @ [x]) else h @ [x])"

definition GetSnapshot :: "real \<Rightarrow> MetricsCollector \<Rightarrow> MetricsSnapshot \<times> MetricsCollector" where
  "GetSnapshot now c =
     (let total = mc_TotalMessages c; active = mc_ActiveConnections c;
          elapsed = now - mc_LastUpdate c;
          c' = (if elapsed \<ge> 1 then
                  let intervalMsgs = mc_IntervalMessages c;
                      c1 = c\<lparr>mc_IntervalMessages := 0, mc_CurrentMsgPerSec := real (unat intervalMsgs) / elapsed\<rparr>;
                      c2 = UpdatePercentiles c1
                  in c2\<lparr>mc_P50History := push_history (mc_CurrentP50 c2) (mc_P50History c2),
                        mc_P95History := push_history (mc_CurrentP95 c2) (mc_P95History c2),
                        mc_P99History := push_history (mc_CurrentP99 c2) (mc_P99History c2),
                        mc_ThroughputHistory := push_history (mc_CurrentMsgPerSec c2) (mc_ThroughputHistory c2),
                        mc_LastUpdate := now\<rparr>
                else c)
      in (\<lparr>ms_TotalMessages = total, ms_ActiveConnections = active, ms_MsgPerSec = mc_CurrentMsgPerSec c',
           ms_AvgLatencyMs = mc_CurrentAvg c', ms_P50LatencyMs = mc_CurrentP50 c', ms_P95LatencyMs = mc_CurrentP95 c',
           ms_P99LatencyMs = mc_CurrentP99 c'\<rparr>, c'))"

definition GetLatencyHistory :: "MetricsCollector \<Rightarrow> real list \<times> real list \<times> real list" where
  "GetLatencyHistory c = (mc_P50History c, mc_P95History c, mc_P99History c)"

definition GetLatencyHistory_p50 :: "MetricsCollector \<Rightarrow> real list" where
  "GetLatencyHistory_p50 c = mc_P50History c"

definition GetThroughputHistory :: "MetricsCollector \<Rightarrow> real list" where
  "GetThroughputHistory c = mc_ThroughputHistory c"

text \<open>\<open>Reset\<close> leaves the samples and the time of the last update as they are.\<close>

definition MetricsCollector_Reset :: "MetricsCollector \<Rightarrow> MetricsCollector" where
  "MetricsCollector_Reset c =
     c\<lparr>mc_TotalMessages := 0, mc_IntervalMessages := 0, mc_ActiveConnections := 0, mc_SampleHead := 0, mc_SampleCount := 0,
       mc_CurrentMsgPerSec := 0, mc_CurrentAvg := 0, mc_CurrentP50 := 0, mc_CurrentP95 := 0, mc_CurrentP99 := 0,
       mc_P50History := [], mc_P95History := [], mc_P99History := [], mc_ThroughputHistory := []\<rparr>"

section \<open>The samples in the ring\<close>

text \<open>What the ring holds after the latencies \<open>xs\<close> since the last update: all of them, or the last ones.\<close>

definition last_samples :: "real list \<Rightarrow> real list" where
  "last_samples xs = drop (length xs - MAX_SAMPLES) xs"

definition holds_samples :: "real list \<Rightarrow> MetricsCollector \<Rightarrow> bool" where
  "holds_samples xs c \<longleftrightarrow>
     length (mc_LatencySamples c) = MAX_SAMPLES \<and> mc_SampleHead c = length xs \<and> mc_SampleCount c = length xs \<and>
     (\<forall>i. length xs - MAX_SAMPLES \<le> i \<and> i < length xs \<longrightarrow> mc_LatencySamples c ! (i mod MAX_SAMPLES) = xs ! i)"

lemma max_pos: "0 < MAX_SAMPLES"
  by (simp add: MAX_SAMPLES_def)

text \<open>Two positions less than a ring apart do not share a slot.\<close>

lemma slots_apart: "i < j \<Longrightarrow> j < i + MAX_SAMPLES \<Longrightarrow> i mod MAX_SAMPLES \<noteq> j mod MAX_SAMPLES"
proof
  assume h: "i < j" "j < i + MAX_SAMPLES" "i mod MAX_SAMPLES = j mod MAX_SAMPLES"
  then have "MAX_SAMPLES dvd j - i" using mod_eq_dvd_iff_nat[of i j MAX_SAMPLES] by simp
  then show False using h(1,2) nat_dvd_not_less[of "j - i" MAX_SAMPLES] by simp
qed

lemma RecordLatency_holds:
  assumes "holds_samples xs c"
  shows "holds_samples (xs @ [x]) (RecordLatency x c)"
proof -
  let ?l = "mc_LatencySamples c" and ?k = "length xs mod MAX_SAMPLES"
  have "?l[?k := x] ! (i mod MAX_SAMPLES) = (xs @ [x]) ! i"
    if i: "Suc (length xs) - MAX_SAMPLES \<le> i" "i < Suc (length xs)" for i
  proof (cases "i = length xs")
    case True
    then show ?thesis using assms max_pos by (simp add: holds_samples_def)
  next
    case False
    then have "i < length xs" "length xs < i + MAX_SAMPLES" using i by auto
    then show ?thesis
      using assms slots_apart[of i "length xs"] by (simp add: holds_samples_def nth_append)
  qed
  then show ?thesis using assms by (simp add: holds_samples_def RecordLatency_def Let_def)
qed

lemma RecordLatency_all: "holds_samples xs c \<Longrightarrow> holds_samples (xs @ ys) (fold RecordLatency ys c)"
proof (induction ys arbitrary: xs c)
  case (Cons y ys)
  show ?case using Cons.IH[OF RecordLatency_holds[OF Cons.prems]] by simp
qed simp

lemma window_in_ring:
  assumes "holds_samples xs c"
  shows "mset (take (min (length xs) MAX_SAMPLES) (mc_LatencySamples c)) = mset (last_samples xs)"
proof (cases "length xs \<le> MAX_SAMPLES")
  case True
  have "take (length xs) (mc_LatencySamples c) = xs"
  proof (rule nth_equalityI)
    fix i assume "i < length (take (length xs) (mc_LatencySamples c))"
    then have i: "i < length xs" by simp
    have "mc_LatencySamples c ! (i mod MAX_SAMPLES) = xs ! i"
      using assms i True unfolding holds_samples_def by (metis diff_is_0_eq zero_le)
    then show "take (length xs) (mc_LatencySamples c) ! i = xs ! i" using i True by simp
  qed (use assms True in \<open>simp add: holds_samples_def\<close>)
  then show ?thesis using True by (simp add: last_samples_def min_def)
next
  case False
  let ?l = "mc_LatencySamples c" and ?k = "length xs - MAX_SAMPLES"
  have len: "length ?l = MAX_SAMPLES" using assms by (simp add: holds_samples_def)
  have "rotate ?k ?l = last_samples xs"
  proof (rule nth_equalityI)
    show "length (rotate ?k ?l) = length (last_samples xs)" using len False by (simp add: last_samples_def)
    fix i assume "i < length (rotate ?k ?l)"
    then have i: "i < MAX_SAMPLES" using len by simp
    have "?k \<le> ?k + i" "?k + i < length xs" using i False by linarith+
    then have "?l ! ((?k + i) mod MAX_SAMPLES) = xs ! (?k + i)"
      using assms unfolding holds_samples_def by blast
    then show "rotate ?k ?l ! i = last_samples xs ! i" using i len False by (simp add: nth_rotate last_samples_def add.commute)
  qed
  moreover have "mset (rotate k l) = mset l" for k and l :: "real list"
    unfolding rotate_drop_take by (metis append_take_drop_id mset_append union_commute)
  ultimately have "mset ?l = mset (last_samples xs)" by metis
  then show ?thesis using False len by (simp add: min_def)
qed

section \<open>The snapshot\<close>

definition quantile :: "nat \<Rightarrow> real list \<Rightarrow> real" where
  "quantile q xs = sort xs ! (length xs * q div 100)"

lemma quantile_index: "xs \<noteq> [] \<Longrightarrow> q < 100 \<Longrightarrow> length xs * q div 100 < length xs"
  by (simp add: div_less_iff_less_mult)

lemma quantile_in: "xs \<noteq> [] \<Longrightarrow> q < 100 \<Longrightarrow> quantile q xs \<in> set xs"
  using quantile_index[of xs q] nth_mem[of _ "sort xs"] by (auto simp: quantile_def)

lemma quantile_mono:
  assumes "xs \<noteq> []" "p \<le> q" "q < 100"
  shows "quantile p xs \<le> quantile q xs"
  unfolding quantile_def
proof (rule sorted_nth_mono)
  show "length xs * p div 100 \<le> length xs * q div 100" using assms(2) by (simp add: div_le_mono)
qed (use quantile_index[OF assms(1,3)] in simp_all)

lemma foldl_sum: "foldl (+) (a :: real) xs = a + sum_list xs"
  by (induction xs arbitrary: a) simp_all

lemma snapshot_late:
  "now - mc_LastUpdate c \<ge> 1 \<Longrightarrow>
     ms_MsgPerSec (fst (GetSnapshot now c)) = real (unat (mc_IntervalMessages c)) / (now - mc_LastUpdate c)"
  by (simp add: GetSnapshot_def UpdatePercentiles_def Let_def)

lemma percentiles_of_window:
  assumes "holds_samples xs c" "xs \<noteq> []"
  shows "UpdatePercentiles c =
    c\<lparr>mc_CurrentAvg := sum_list (last_samples xs) / real (length (last_samples xs)), mc_CurrentP50 := quantile 50 (last_samples xs),
      mc_CurrentP95 := quantile 95 (last_samples xs), mc_CurrentP99 := quantile 99 (last_samples xs),
      mc_SampleCount := 0, mc_SampleHead := 0\<rparr>"
proof -
  have cnt: "mc_SampleCount c = length xs" using assms(1) by (simp add: holds_samples_def)
  have len: "min (length xs) MAX_SAMPLES = length (last_samples xs)" by (simp add: last_samples_def min_def)
  have n: "(if length xs < MAX_SAMPLES then length xs else MAX_SAMPLES) = length (last_samples xs)"
    by (auto simp: last_samples_def)
  have ring: "sort (take (length (last_samples xs)) (mc_LatencySamples c)) = sort (last_samples xs)"
    using window_in_ring[OF assms(1)] unfolding len by (metis sorted_list_of_multiset_mset)
  have sum: "sum_list (sort (last_samples xs)) = sum_list (last_samples xs)" by (metis mset_sort sum_mset_sum_list)
  show ?thesis
    using assms(2) by (simp only: UpdatePercentiles_def Let_def cnt n ring sum foldl_sum quantile_def) simp
qed

lemma snapshot_of_samples:
  assumes "holds_samples xs c" "xs \<noteq> []" "now - mc_LastUpdate c \<ge> 1"
  shows "ms_P50LatencyMs (fst (GetSnapshot now c)) = quantile 50 (last_samples xs)"
    "ms_P95LatencyMs (fst (GetSnapshot now c)) = quantile 95 (last_samples xs)"
    "ms_P99LatencyMs (fst (GetSnapshot now c)) = quantile 99 (last_samples xs)"
    "ms_AvgLatencyMs (fst (GetSnapshot now c)) = sum_list (last_samples xs) / real (length (last_samples xs))"
    "holds_samples [] (snd (GetSnapshot now c))"
proof -
  define c1 where "c1 = c\<lparr>mc_IntervalMessages := 0, mc_CurrentMsgPerSec := real (unat (mc_IntervalMessages c)) / (now - mc_LastUpdate c)\<rparr>"
  have "holds_samples xs c1" using assms(1) by (simp add: holds_samples_def c1_def)
  note u = percentiles_of_window[OF this assms(2)]
  have l: "length (mc_LatencySamples c) = MAX_SAMPLES" using assms(1) by (simp add: holds_samples_def)
  show "ms_P50LatencyMs (fst (GetSnapshot now c)) = quantile 50 (last_samples xs)"
    "ms_P95LatencyMs (fst (GetSnapshot now c)) = quantile 95 (last_samples xs)"
    "ms_P99LatencyMs (fst (GetSnapshot now c)) = quantile 99 (last_samples xs)"
    "ms_AvgLatencyMs (fst (GetSnapshot now c)) = sum_list (last_samples xs) / real (length (last_samples xs))"
    "holds_samples [] (snd (GetSnapshot now c))"
    using assms(3) l by (simp_all add: GetSnapshot_def Let_def u[unfolded c1_def, simplified] c1_def holds_samples_def)
qed

lemma average_between:
  assumes "xs \<noteq> []" "\<forall>x \<in> set xs. a \<le> x \<and> x \<le> (b :: real)"
  shows "a \<le> sum_list xs / real (length xs) \<and> sum_list xs / real (length xs) \<le> b"
proof -
  have "real (length xs) * a \<le> sum_list xs \<and> sum_list xs \<le> real (length xs) * b"
    using assms(2) by (induction xs) (auto simp: algebra_simps)
  then show ?thesis using assms(1) by (simp add: field_simps)
qed

text \<open>Once a second has passed, the snapshot shows the figures of the last samples, at most as many as
  the ring has slots, recorded since the update before: the percentiles are samples, in order, the
  average lies between the extremes; and the ring starts over.\<close>

theorem snapshot_shows_window:
  assumes "holds_samples [] c" "xs \<noteq> []" "now - mc_LastUpdate c \<ge> 1"
  defines "m \<equiv> fst (GetSnapshot now (fold RecordLatency xs c))"
  shows "ms_P50LatencyMs m = quantile 50 (last_samples xs) \<and> ms_P95LatencyMs m = quantile 95 (last_samples xs) \<and>
    ms_P99LatencyMs m = quantile 99 (last_samples xs) \<and> ms_P50LatencyMs m \<le> ms_P95LatencyMs m \<and> ms_P95LatencyMs m \<le> ms_P99LatencyMs m \<and>
    {ms_P50LatencyMs m, ms_P95LatencyMs m, ms_P99LatencyMs m} \<subseteq> set (last_samples xs) \<and>
    Min (set (last_samples xs)) \<le> ms_AvgLatencyMs m \<and> ms_AvgLatencyMs m \<le> Max (set (last_samples xs)) \<and>
    holds_samples [] (snd (GetSnapshot now (fold RecordLatency xs c)))"
proof -
  have "length xs - MAX_SAMPLES < length xs" using assms(2) max_pos by (cases xs) auto
  then have w: "last_samples xs \<noteq> []" by (simp add: last_samples_def)
  have keep: "mc_LastUpdate (fold RecordLatency ys c) = mc_LastUpdate c" for ys c
    by (induction ys arbitrary: c) (simp_all add: RecordLatency_def Let_def)
  have h: "holds_samples xs (fold RecordLatency xs c)" using RecordLatency_all[OF assms(1), of xs] by simp
  note f = snapshot_of_samples[OF h assms(2), of now, unfolded keep, OF assms(3)]
  have "\<forall>x \<in> set (last_samples xs). Min (set (last_samples xs)) \<le> x \<and> x \<le> Max (set (last_samples xs))" by simp
  from average_between[OF w this] show ?thesis
    using f quantile_in[OF w] quantile_mono[OF w] by (simp add: m_def)
qed

section \<open>The histories\<close>

datatype metrics_call = CLatency real | CMessage | CConnection bool | CSnapshot real | CReset

fun metrics_do :: "metrics_call \<Rightarrow> MetricsCollector \<Rightarrow> MetricsCollector" where
  "metrics_do (CLatency x) c = RecordLatency x c"
| "metrics_do CMessage c = RecordMessage c"
| "metrics_do (CConnection b) c = RecordConnection b c"
| "metrics_do (CSnapshot now) c = snd (GetSnapshot now c)"
| "metrics_do CReset c = MetricsCollector_Reset c"

lemma length_push: "length h \<le> 60 \<Longrightarrow> length (push_history x h) \<le> 60 \<and> length (push_history x h) = min 60 (length h + 1)"
  by (simp add: push_history_def)

lemma update_histories [simp]:
  "mc_P50History (UpdatePercentiles c) = mc_P50History c" "mc_P95History (UpdatePercentiles c) = mc_P95History c"
  "mc_P99History (UpdatePercentiles c) = mc_P99History c" "mc_ThroughputHistory (UpdatePercentiles c) = mc_ThroughputHistory c"
  "mc_IntervalMessages (UpdatePercentiles c) = mc_IntervalMessages c" "mc_TotalMessages (UpdatePercentiles c) = mc_TotalMessages c"
  by (simp_all add: UpdatePercentiles_def Let_def)

text \<open>The four curves of the window have the same number of points at all times, at most 60.\<close>

theorem histories_bounded:
  "length (mc_P50History (fold metrics_do calls (MetricsCollector_ctor now))) \<le> 60 \<and>
   length (mc_P95History (fold metrics_do calls (MetricsCollector_ctor now))) = length (mc_P50History (fold metrics_do calls (MetricsCollector_ctor now))) \<and>
   length (mc_P99History (fold metrics_do calls (MetricsCollector_ctor now))) = length (mc_P50History (fold metrics_do calls (MetricsCollector_ctor now))) \<and>
   length (mc_ThroughputHistory (fold metrics_do calls (MetricsCollector_ctor now))) = length (mc_P50History (fold metrics_do calls (MetricsCollector_ctor now)))"
proof -
  let ?I = "\<lambda>c. length (mc_P50History c) \<le> 60 \<and> length (mc_P95History c) = length (mc_P50History c) \<and>
    length (mc_P99History c) = length (mc_P50History c) \<and> length (mc_ThroughputHistory c) = length (mc_P50History c)"
  have step: "?I (metrics_do k c)" if "?I c" for k c
    using that
    by (cases k) (auto simp: RecordLatency_def RecordMessage_def RecordConnection_def GetSnapshot_def MetricsCollector_Reset_def
        Let_def push_history_def)
  have "?I c \<Longrightarrow> ?I (fold metrics_do calls c)" for c
  proof (induction calls arbitrary: c)
    case (Cons k calls)
    show ?case using Cons.IH[OF step[OF Cons.prems, of k]] by simp
  qed simp
  then show ?thesis by (simp add: MetricsCollector_ctor_def)
qed

section \<open>The count of connections between threads\<close>

text \<open>\<open>RecordConnection(false)\<close> as its two atomic accesses: the test, and the decrement if it held.\<close>

datatype connection_access = LoadActive nat | SubActive nat

text \<open>The count, and for each thread whether its test held.\<close>

fun connection_act :: "connection_access \<Rightarrow> u32 \<times> (nat \<Rightarrow> bool) \<Rightarrow> u32 \<times> (nat \<Rightarrow> bool)" where
  "connection_act (LoadActive i) (n, saw) = (n, saw(i := (n > 0)))"
| "connection_act (SubActive i) (n, saw) = (if saw i then n - 1 else n, saw(i := False))"

lemma connection_sequential:
  "fst (connection_act (SubActive i) (connection_act (LoadActive i) (mc_ActiveConnections c, saw))) = mc_ActiveConnections (RecordConnection False c)"
  by (simp add: RecordConnection_def)

text \<open>Two sessions that disconnect at the same time can both find the last connection and count it off
  twice: the window then shows four billion connections.\<close>

theorem active_count_can_wrap:
  "fst (fold connection_act [LoadActive 0, LoadActive 1, SubActive 0, SubActive 1] (1, \<lambda>_. False)) = 2 ^ 32 - 1"
  by simp

end
