(* ===== verification/Conformance_Buffers.thy ===== *)
theory Conformance_Buffers
  imports Packet_Framer External_Buffer
begin

text \<open>
  The unit tests of the ring buffers and of the framer (\<open>LibCommonsTests/CircleBufferQueueTests.cpp\<close>,
  \<open>LibNetworksTests/PacketFramerTests.cpp\<close>, \<open>LibNetworksRIOTests/RioBufferAdapterTests.cpp\<close>), written
  over the model and shown to pass. A straight-line test is a script of calls with what the
  test asserts of each result; it passes on a buffer exactly if it passes on the
  specification, a list of bytes. The tests with loops are programs, and they are shown to pass for
  every text and every capacity.
\<close>

section \<open>Scripts\<close>

text \<open>A call and the assertion on its result, a framing attempt and the assertion on its result, and
  the assertion on all bytes popped so far.\<close>

datatype test_step = Call qop "qout \<Rightarrow> bool" | Frame "PacketFrame \<Rightarrow> bool" | Popped "byte list \<Rightarrow> bool"

fun popped_by :: "qop \<Rightarrow> qout \<Rightarrow> byte list" where
  "popped_by (QPop n) (OBytes (Some d)) = d"
| "popped_by c out = []"

fun run_test :: "'b IBuffer \<Rightarrow> test_step list \<Rightarrow> byte list \<Rightarrow> 'b \<Rightarrow> bool" where
  "run_test ops [] acc b = True"
| "run_test ops (Call c assertion # ts) acc b =
     (case q_step ops c b of (out, b') \<Rightarrow> assertion out \<and> run_test ops ts (acc @ popped_by c out) b')"
| "run_test ops (Frame assertion # ts) acc b =
     (case TryFrameFromBuffer ops b of (frame, b') \<Rightarrow> assertion frame \<and> run_test ops ts acc b')"
| "run_test ops (Popped assertion # ts) acc b = (assertion acc \<and> run_test ops ts acc b)"

text \<open>The same on a list of bytes.\<close>

definition spec_frame :: "byte list \<Rightarrow> PacketFrame \<times> byte list" where
  "spec_frame xs =
     (case deframe xs of
        Stuck \<Rightarrow> (\<lparr>frame_Result = NeedMore, frame_PacketOpt = None\<rparr>, xs)
      | Corrupt \<Rightarrow> (\<lparr>frame_Result = Invalid, frame_PacketOpt = None\<rparr>, xs)
      | Framed p rest \<Rightarrow> (\<lparr>frame_Result = FrameOk, frame_PacketOpt = Some p\<rparr>, rest))"

fun spec_test :: "nat \<Rightarrow> test_step list \<Rightarrow> byte list \<Rightarrow> byte list \<Rightarrow> bool" where
  "spec_test c [] acc xs = True"
| "spec_test c (Call k assertion # ts) acc xs =
     (case spec_step c k xs of (out, xs') \<Rightarrow> assertion out \<and> spec_test c ts (acc @ popped_by k out) xs')"
| "spec_test c (Frame assertion # ts) acc xs =
     (case spec_frame xs of (frame, xs') \<Rightarrow> assertion frame \<and> spec_test c ts acc xs')"
| "spec_test c (Popped assertion # ts) acc xs = (assertion acc \<and> spec_test c ts acc xs)"

context byte_queue
begin

lemma frame_refines:
  assumes "inv b"
  obtains b' where "TryFrameFromBuffer ops b = (fst (spec_frame (contents b)), b')" "inv b'"
    "contents b' = snd (spec_frame (contents b))" "cap b' = cap b"
proof (cases "deframe (contents b)")
  case Stuck
  then show ?thesis using that[of b] framer_short[OF assms Stuck] assms by (simp add: spec_frame_def)
next
  case Corrupt
  then show ?thesis using that[of b] framer_corrupt[OF assms Corrupt] assms by (simp add: spec_frame_def)
next
  case (Framed p r)
  then show ?thesis using that framer_ok[OF assms Framed] by (auto simp: spec_frame_def)
qed

lemma test_refines: "inv b \<Longrightarrow> run_test ops ts acc b = spec_test (cap b) ts acc (contents b)"
proof (induction ts arbitrary: acc b)
  case (Cons t ts)
  show ?case
  proof (cases t)
    case (Call c assertion)
    then show ?thesis
      using Cons.IH[of "snd (q_step ops c b)"] step_refines[OF Cons.prems, of c] by (simp add: split_beta)
  next
    case (Frame assertion)
    obtain b' where "TryFrameFromBuffer ops b = (fst (spec_frame (contents b)), b')" "inv b'"
      "contents b' = snd (spec_frame (contents b))" "cap b' = cap b"
      by (rule frame_refines[OF Cons.prems])
    then show ?thesis using Cons.IH[of b' acc] Frame by (simp add: split_beta)
  qed (use Cons in simp)
qed simp

end

text \<open>Assertions.\<close>

definition bytes_of :: "string \<Rightarrow> byte list" where "bytes_of s = map of_char s"

definition is_true :: "qout \<Rightarrow> bool" where "is_true out \<longleftrightarrow> out = OBool True"

definition is_false :: "qout \<Rightarrow> bool" where "is_false out \<longleftrightarrow> out = OBool False \<or> out = OBytes None"

definition reads :: "string \<Rightarrow> qout \<Rightarrow> bool" where "reads s out \<longleftrightarrow> out = OBytes (Some (bytes_of s))"

fun can_read :: "nat \<Rightarrow> qout \<Rightarrow> bool" where
  "can_read n (OSizes r w) \<longleftrightarrow> r = n" | "can_read n out \<longleftrightarrow> False"

fun can_write :: "nat \<Rightarrow> qout \<Rightarrow> bool" where
  "can_write n (OSizes r w) \<longleftrightarrow> w = n" | "can_write n out \<longleftrightarrow> False"

definition no_check :: "qout \<Rightarrow> bool" where "no_check out \<longleftrightarrow> True"

section \<open>The tests of the ring buffer\<close>

definition BasicOperations :: "test_step list" where
  "BasicOperations =
    [Call QSizes (can_write 10), Call QSizes (can_read 0),
     Call (QWrite (bytes_of ''12345'')) is_true, Call QSizes (can_write 5), Call QSizes (can_read 5),
     Call (QPeek 5) (reads ''12345''), Call QSizes (can_read 5),
     Call (QPop 3) (reads ''123''), Call QSizes (can_read 2),
     Call (QWrite (bytes_of ''6789012'')) is_true, Call QSizes (can_read 9),
     Call (QPop 9) (reads ''456789012''), Call QSizes (can_read 0), Call QSizes (can_write 10),
     Call (QWrite (bytes_of ''12345678901'')) is_false,
     Call (QWrite (bytes_of ''12345'')) is_true, Call (QConsume 2) is_true, Call QSizes (can_read 3),
     Call (QPop 3) (reads ''345''),
     Call (QWrite (bytes_of ''12345'')) is_true, Call QClear no_check,
     Call QSizes (can_read 0), Call QSizes (can_write 10)]"

definition OverflowTests :: "test_step list" where
  "OverflowTests =
    [Call (QWrite (bytes_of ''12345'')) is_true, Call QSizes (can_read 5), Call QSizes (can_write 0),
     Call (QWrite (bytes_of ''6'')) is_false, Call (QPeek 5) (reads ''12345''),
     Call (QConsume 1) is_true, Call QSizes (can_write 1),
     Call (QWrite (bytes_of ''6'')) is_true, Call (QWrite (bytes_of ''6'')) is_false,
     Call (QPeek 5) (reads ''23456'')]"

definition WrapAroundTests :: "test_step list" where
  "WrapAroundTests =
    [Call (QWrite (bytes_of ''12345'')) is_true, Call (QConsume 5) is_true,
     Call (QWrite (bytes_of ''ABCDEFGH'')) is_true, Call QSizes (can_read 8),
     Call (QPeek 8) (reads ''ABCDEFGH''), Call (QPop 6) (reads ''ABCDEF''),
     Call QSizes (can_read 2), Call (QPop 2) (reads ''GH'')]"

definition EdgeCases :: "test_step list" where
  "EdgeCases =
    [Call (QWrite []) is_true, Call QSizes (can_read 0), Call (QPop 0) (reads []),
     Call (QPop 1) is_false, Call (QPeek 1) is_false, Call (QConsume 1) is_false]"

definition MultipleBufferCyclesTest :: "test_step list" where
  "MultipleBufferCyclesTest =
    (let testData = ''0123456789ABCDEFGHIJKLMNOPQRSTUVWXYZabcd'' in
     concat (map (\<lambda>cycle.
       [Call (QWrite (bytes_of (take 8 (drop (cycle * 8) testData)))) is_true,
        Call QSizes (can_write 0), Call QSizes (can_read 8), Call (QPop 8) (Not \<circ> is_false),
        Call QSizes (can_write 8), Call QSizes (can_read 0)]) [0, 1, 2, 3, 4]) @
     [Popped (\<lambda>readResult. readResult = bytes_of testData)])"

definition BoundaryConditionTests :: "test_step list" where
  "BoundaryConditionTests =
    [Call (QWrite (bytes_of ''1234567890'')) is_true, Call QSizes (can_write 0), Call QSizes (can_read 10),
     Call (QWrite (bytes_of ''X'')) is_false, Call (QPop 10) (reads ''1234567890''),
     Call (QWrite (bytes_of ''123456789'')) is_true, Call QSizes (can_write 1),
     Call (QWrite (bytes_of ''X'')) is_true, Call QSizes (can_write 0),
     Call (QWrite (bytes_of ''YZ'')) is_false, Call (QPop 10) (reads ''123456789X'')]"

definition LargerThanBuffer_start :: "test_step list" where
  "LargerThanBuffer_start =
    [Call (QWrite (bytes_of ''123456789012345'')) is_false, Call QSizes (can_read 0), Call QSizes (can_write 10)]"

lemmas script_defs = BasicOperations_def OverflowTests_def WrapAroundTests_def EdgeCases_def
  MultipleBufferCyclesTest_def BoundaryConditionTests_def LargerThanBuffer_start_def

lemma scripts_pass:
  "spec_test 10 BasicOperations [] []" "spec_test 5 OverflowTests [] []" "spec_test 10 WrapAroundTests [] []"
  "spec_test 10 EdgeCases [] []" "spec_test 8 MultipleBufferCyclesTest [] []" "spec_test 10 BoundaryConditionTests [] []"
  "spec_test 10 LargerThanBuffer_start [] []"
  by code_simp+

section \<open>The tests with loops\<close>

text \<open>\<open>LargerThanBufferTests\<close>: write as much as fits, read all of it, until everything is written; then
  read the rest. \<open>None\<close> is a failed assertion or a loop that ran out of fuel.\<close>

fun larger_write :: "'b IBuffer \<Rightarrow> byte list \<Rightarrow> nat \<Rightarrow> 'b \<Rightarrow> (nat \<times> 'b) option" where
  "larger_write ops bigData totalWritten queue =
     (let toWrite = min (vCanWriteSize ops queue) (length bigData - totalWritten) in
      if toWrite > 0 then
        case vWrite ops (take toWrite (drop totalWritten bigData)) queue of
          (False, queue') \<Rightarrow> None
        | (True, queue') \<Rightarrow> Some (totalWritten + toWrite, queue')
      else Some (totalWritten, queue))"

fun larger_read :: "'b IBuffer \<Rightarrow> byte list \<Rightarrow> 'b \<Rightarrow> (byte list \<times> 'b) option" where
  "larger_read ops readResult queue =
     (let toRead = vCanReadSize ops queue in
      if toRead > 0 then
        case vPop ops toRead queue of
          (None, queue') \<Rightarrow> None
        | (Some buffer, queue') \<Rightarrow> Some (readResult @ buffer, queue')
      else Some (readResult, queue))"

fun larger_loop :: "nat \<Rightarrow> 'b IBuffer \<Rightarrow> byte list \<Rightarrow> nat \<Rightarrow> byte list \<Rightarrow> 'b \<Rightarrow> (nat \<times> byte list \<times> 'b) option" where
  "larger_loop 0 ops bigData totalWritten readResult queue = None"
| "larger_loop (Suc fuel) ops bigData totalWritten readResult queue =
     (if totalWritten < length bigData then
        Option.bind (larger_write ops bigData totalWritten queue) (\<lambda>(totalWritten', queue1).
          Option.bind (larger_read ops readResult queue1) (\<lambda>(readResult', queue2).
            larger_loop fuel ops bigData totalWritten' readResult' queue2))
      else Some (totalWritten, readResult, queue))"

fun larger_rest :: "nat \<Rightarrow> 'b IBuffer \<Rightarrow> byte list \<Rightarrow> 'b \<Rightarrow> byte list option" where
  "larger_rest 0 ops readResult queue = None"
| "larger_rest (Suc fuel) ops readResult queue =
     (if vCanReadSize ops queue > 0 then
        Option.bind (larger_read ops readResult queue) (\<lambda>(readResult', queue'). larger_rest fuel ops readResult' queue')
      else Some readResult)"

definition LargerThanBufferTests :: "nat \<Rightarrow> 'b IBuffer \<Rightarrow> byte list \<Rightarrow> 'b \<Rightarrow> bool" where
  "LargerThanBufferTests fuel ops bigData queue =
     (case larger_loop fuel ops bigData 0 [] queue of
        None \<Rightarrow> False
      | Some (totalWritten, readResult, queue') \<Rightarrow>
          (case larger_rest fuel ops readResult queue' of
             None \<Rightarrow> False
           | Some readResult' \<Rightarrow> totalWritten = length bigData \<and> length readResult' = length bigData \<and> readResult' = bigData))"

text \<open>\<open>LargeDataWithPeekConsumeTest\<close>: the same with a \<open>Peek\<close> of everything and a \<open>Pop\<close> of half of it.\<close>

fun peek_loop :: "nat \<Rightarrow> 'b IBuffer \<Rightarrow> byte list \<Rightarrow> nat \<Rightarrow> byte list \<Rightarrow> 'b \<Rightarrow> byte list option" where
  "peek_loop 0 ops streamData writePos accumulated queue = None"
| "peek_loop (Suc fuel) ops streamData writePos accumulated queue =
     (if writePos < length streamData \<or> vCanReadSize ops queue > 0 then
        Option.bind
          (if writePos < length streamData \<and> vCanWriteSize ops queue > 0
           then larger_write ops streamData writePos queue else Some (writePos, queue))
          (\<lambda>(writePos', queue1).
            let readable = vCanReadSize ops queue1 in
            if readable > 0 then
              (case vPeek ops readable queue1 of
                 None \<Rightarrow> None
               | Some peeked \<Rightarrow>
                   let toConsume = (readable + 1) div 2 in
                   (case vPop ops toConsume queue1 of
                      (None, queue2) \<Rightarrow> None
                    | (Some buffer, queue2) \<Rightarrow> peek_loop fuel ops streamData writePos' (accumulated @ buffer) queue2))
            else peek_loop fuel ops streamData writePos' accumulated queue1)
      else Some accumulated)"

definition LargeDataWithPeekConsumeTest :: "nat \<Rightarrow> 'b IBuffer \<Rightarrow> byte list \<Rightarrow> 'b \<Rightarrow> bool" where
  "LargeDataWithPeekConsumeTest fuel ops streamData queue = (peek_loop fuel ops streamData 0 [] queue = Some streamData)"

context byte_queue
begin

text \<open>What was read and what is in the queue are the text written so far.\<close>

definition pumped where
  "pumped str w acc b \<longleftrightarrow> inv b \<and> w \<le> length str \<and> acc @ contents b = take w str"

lemma larger_write_step:
  assumes "pumped str w acc b"
  obtains w' b' where "larger_write ops str w b = Some (w', b')" "pumped str w' acc b'" "cap b' = cap b" "w \<le> w'"
    "w < length str \<Longrightarrow> length (contents b) < cap b \<Longrightarrow> w < w'"
    "length (contents b') = length (contents b) + (w' - w)"
proof -
  let ?n = "min (vCanWriteSize ops b) (length str - w)"
  let ?d = "take ?n (drop w str)"
  have i: "inv b" "w \<le> length str" "acc @ contents b = take w str" using assms by (auto simp: pumped_def)
  have n: "?n = min (cap b - length (contents b)) (length str - w)" using can_write[OF i(1)] by simp
  have len: "length ?d = ?n" by simp
  then have "length (contents b) + length ?d \<le> cap b" using n bounded[OF i(1)] by linarith
  then obtain b' where b': "vWrite ops ?d b = (True, b')" "inv b'" "contents b' = contents b @ ?d" "cap b' = cap b"
    using write_ok[OF i(1)] by blast
  have t: "take (w + ?n) str = take w str @ ?d" by (simp add: take_add)
  show ?thesis
  proof (cases "?n > 0")
    case True
    have "pumped str (w + ?n) acc b'" using i b' t by (auto simp: pumped_def)
    moreover have "larger_write ops str w b = Some (w + ?n, b')" using True b'(1) by (simp add: Let_def)
    moreover have "length (contents b') = length (contents b) + (w + ?n - w)" using b'(3) len by simp
    ultimately show ?thesis using that b'(4) True by simp
  next
    case False
    then show ?thesis using that[of w b] assms n by (auto simp: Let_def)
  qed
qed

lemma larger_read_step:
  assumes "pumped str w acc b"
  obtains acc' b' where "larger_read ops acc b = Some (acc', b')" "pumped str w acc' b'" "cap b' = cap b" "contents b' = []"
proof (cases "contents b = []")
  case True
  then show ?thesis using that[of acc b] assms can_read by (auto simp: Let_def pumped_def)
next
  case False
  have i: "inv b" using assms by (simp add: pumped_def)
  obtain b' where "vPop ops (length (contents b)) b = (Some (contents b), b')" "inv b'" "contents b' = []" "cap b' = cap b"
    using pop_ok[OF i, of "length (contents b)"] by auto
  then show ?thesis
    using that[of "acc @ contents b" b'] assms False can_read[OF i] by (auto simp: Let_def pumped_def)
qed

lemma larger_loop_ends:
  assumes "pumped str w acc b" "contents b = []" "0 < cap b" "length str - w < fuel"
  shows "\<exists>b'. larger_loop fuel ops str w acc b = Some (length str, str, b') \<and> inv b' \<and> contents b' = []"
  using assms
proof (induction fuel arbitrary: w acc b)
  case (Suc fuel)
  show ?case
  proof (cases "w < length str")
    case True
    obtain w' b1 where 1: "larger_write ops str w b = Some (w', b1)" "pumped str w' acc b1" "cap b1 = cap b" "w < w'"
      using larger_write_step[OF Suc.prems(1)] True Suc.prems(2,3) by (metis list.size(3))
    obtain acc' b2 where 2: "larger_read ops acc b1 = Some (acc', b2)" "pumped str w' acc' b2" "cap b2 = cap b1" "contents b2 = []"
      by (rule larger_read_step[OF 1(2)])
    have "length str - w' < fuel" using 1(4) True Suc.prems(4) by simp
    from Suc.IH[OF 2(2,4) _ this] show ?thesis
      using True 1(1,3) 2(1,3) Suc.prems(3) by (simp del: larger_write.simps larger_read.simps)
  next
    case False
    then show ?thesis using Suc.prems(1,2) by (auto simp: pumped_def)
  qed
qed simp

lemma larger_than_buffer_passes:
  assumes "inv b" "contents b = []" "0 < cap b" "length str < fuel"
  shows "LargerThanBufferTests fuel ops str b"
proof -
  have "pumped str 0 [] b" using assms by (simp add: pumped_def)
  then obtain b' where "larger_loop fuel ops str 0 [] b = Some (length str, str, b')" "inv b'" "contents b' = []"
    using larger_loop_ends[of str 0 "[]" b fuel] assms by auto
  moreover have "larger_rest fuel ops str b' = Some str"
    using calculation(2,3) assms(4) can_read by (cases fuel) auto
  ultimately show ?thesis by (simp add: LargerThanBufferTests_def)
qed

lemma peek_loop_ends:
  assumes "pumped str w acc b" "0 < cap b" "length str - length acc < fuel"
  shows "peek_loop fuel ops str w acc b = Some str"
  using assms
proof (induction fuel arbitrary: w acc b)
  case (Suc fuel)
  have i: "inv b" "w \<le> length str" "acc @ contents b = take w str" using Suc.prems(1) by (auto simp: pumped_def)
  show ?case
  proof (cases "w < length str \<or> contents b \<noteq> []")
    case True
    obtain w' b1 where 1: "(if w < length str \<and> vCanWriteSize ops b > 0 then larger_write ops str w b else Some (w, b)) = Some (w', b1)"
      "pumped str w' acc b1" "cap b1 = cap b" "contents b1 \<noteq> []"
    proof (cases "w < length str \<and> vCanWriteSize ops b > 0")
      case room: True
      obtain w' b1 where st: "larger_write ops str w b = Some (w', b1)" "pumped str w' acc b1" "cap b1 = cap b" "w < w'"
          "length (contents b1) = length (contents b) + (w' - w)"
        using larger_write_step[OF Suc.prems(1)] room can_write[OF i(1)] by (metis zero_less_diff)
      have "contents b1 \<noteq> []" using st(4,5) by auto
      then show ?thesis using that st room by simp
    next
      case False
      then have "contents b \<noteq> []" using True can_write[OF i(1)] Suc.prems(2) by auto
      then show ?thesis using that[of w b] False Suc.prems(1) by simp
    qed
    have i1: "inv b1" "w' \<le> length str" "acc @ contents b1 = take w' str" using 1(2) by (auto simp: pumped_def)
    let ?n = "(length (contents b1) + 1) div 2"
    have n: "?n \<le> length (contents b1)" "0 < ?n" using 1(4) by (cases "contents b1"; simp)+
    obtain b2 where b2: "vPop ops ?n b1 = (Some (take ?n (contents b1)), b2)" "inv b2" "contents b2 = drop ?n (contents b1)" "cap b2 = cap b1"
      using pop_ok[OF i1(1) n(1)] by auto
    have p2: "pumped str w' (acc @ take ?n (contents b1)) b2"
      using i1 b2 by (simp add: pumped_def)
    have "length acc + length (contents b1) \<le> length str"
      using arg_cong[OF i1(3), of length] i1(2) by simp
    then have "length str - length (acc @ take ?n (contents b1)) < fuel"
      using n Suc.prems(3) by simp
    from Suc.IH[OF p2 _ this] have "peek_loop fuel ops str w' (acc @ take ?n (contents b1)) b2 = Some str"
      using b2(4) 1(3) Suc.prems(2) by simp
    then show ?thesis
      using True 1(1,4) b2(1) can_read[OF i(1)] can_read[OF i1(1)] peek[OF i1(1)]
      by (simp del: larger_write.simps add: Let_def)
  next
    case False
    then show ?thesis using i can_read[OF i(1)] by simp
  qed
qed simp

end

section \<open>The tests of the framer\<close>

definition framed :: "PacketFrameResult \<Rightarrow> PacketFrame \<Rightarrow> bool" where
  "framed r f \<longleftrightarrow> frame_Result f = r"

definition frames_id :: "u16 \<Rightarrow> PacketFrame \<Rightarrow> bool" where
  "frames_id i f \<longleftrightarrow> frame_Result f = FrameOk \<and> map_option GetPacketId (frame_PacketOpt f) = Some i"

definition EmptyBuffer_ReturnsNeedMore :: "test_step list" where
  "EmptyBuffer_ReturnsNeedMore = [Frame (\<lambda>f. framed NeedMore f \<and> frame_PacketOpt f = None)]"

definition PartialHeader_ReturnsNeedMore :: "test_step list" where
  "PartialHeader_ReturnsNeedMore = [Call (QWrite [1]) no_check, Frame (framed NeedMore)]"

definition ValidHeader_InsufficientBody_ReturnsNeedMore :: "test_step list" where
  "ValidHeader_InsufficientBody_ReturnsNeedMore =
    [Call (QWrite (u16_be 10)) no_check, Frame (framed NeedMore),
     Call (QWrite (u16_be 1001)) no_check, Call (QWrite (bytes_of ''123'')) no_check, Frame (framed NeedMore)]"

definition CompletePacket_ReturnsOk :: "test_step list" where
  "CompletePacket_ReturnsOk =
    [Call (QWrite (u16_be 9)) no_check, Call (QWrite (u16_be 1001)) no_check, Call (QWrite (bytes_of ''Hello'')) no_check,
     Frame (\<lambda>f. frames_id 1001 f \<and> map_option GetPayloadSize (frame_PacketOpt f) = Some 5),
     Call QSizes (can_read 0)]"

definition PacketTooSmall_ReturnsInvalid :: "test_step list" where
  "PacketTooSmall_ReturnsInvalid =
    [Call (QWrite (u16_be 3)) no_check, Call (QWrite (bytes_of ''1'')) no_check, Frame (framed Invalid)]"

definition PacketSizeZero_ReturnsInvalid :: "test_step list" where
  "PacketSizeZero_ReturnsInvalid = [Call (QWrite (u16_be 0)) no_check, Frame (framed Invalid)]"

definition MultiplePackets_ProcessedSequentially :: "test_step list" where
  "MultiplePackets_ProcessedSequentially =
    (let p1 = u16_be 5 @ u16_be 10 @ bytes_of ''A''; p2 = u16_be 6 @ u16_be 20 @ bytes_of ''BB'' in
     [Call (QWrite p1) no_check, Call (QWrite p2) no_check, Frame (frames_id 10), Frame (frames_id 20), Frame (framed NeedMore)])"

lemma framer_scripts_pass:
  "spec_test 1024 EmptyBuffer_ReturnsNeedMore [] []" "spec_test 1024 PartialHeader_ReturnsNeedMore [] []"
  "spec_test 1024 ValidHeader_InsufficientBody_ReturnsNeedMore [] []" "spec_test 1024 CompletePacket_ReturnsOk [] []"
  "spec_test 1024 PacketTooSmall_ReturnsInvalid [] []" "spec_test 1024 PacketSizeZero_ReturnsInvalid [] []"
  "spec_test 1024 MultiplePackets_ProcessedSequentially [] []"
  by code_simp+

section \<open>The tests of the adapter over a shared block\<close>

text \<open>\<open>storage\<close> is a block of 100 bytes, all of it the window of the queue.\<close>

definition storage :: "byte list" where "storage = replicate 100 0"

definition bytes_from :: "nat \<Rightarrow> nat \<Rightarrow> byte list" where
  "bytes_from start n = map (\<lambda>i. of_nat (start + i)) [0..<n]"

definition TestWrapAroundWriteRead :: bool where
  "TestWrapAroundWriteRead =
    (let queue = ExternalCircleBufferQueue_ctor (0, 100); data1 = bytes_from 0 80; data2 = bytes_from 100 40 in
     case ExternalCircleBufferQueue_AllocateWrite 80 queue of
       (None, _) \<Rightarrow> False
     | (Some out1, queue1) \<Rightarrow>
         length out1 = 1 \<and>
         (let mem1 = memcpy_at (fst (out1 ! 0)) data1 storage;
              (readable1, _) = ExternalCircleBufferQueue_GetReadBuffers queue1;
              (consumed, queue2) = ExternalCircleBufferQueue_Consume 50 queue1
          in readable1 = 80 \<and> consumed \<and>
             (case ExternalCircleBufferQueue_AllocateWrite 40 queue2 of
                (None, _) \<Rightarrow> False
              | (Some out2, queue3) \<Rightarrow>
                  map snd out2 = [20, 20] \<and>
                  (let mem2 = memcpy_at (fst (out2 ! 0)) (take 20 data2) mem1;
                       mem3 = memcpy_at (fst (out2 ! 1)) (take 20 (drop 20 data2)) mem2;
                       (readable3, bufs) = ExternalCircleBufferQueue_GetReadBuffers queue3;
                       span1 = span_read mem3 (bufs ! 0);
                       span2 = span_read mem3 (bufs ! 1)
                   in readable3 = 70 \<and> map snd bufs = [50, 20] \<and>
                      take 30 span1 = take 30 (drop 50 data1) \<and> take 20 (drop 30 span1) = take 20 data2 \<and>
                      take 20 span2 = take 20 (drop 20 data2)))))"

definition TestPacketFramerWithWrapAround :: bool where
  "TestPacketFramerWithWrapAround =
    (let queue = ExternalCircleBufferQueue_ctor (0, 100);
         queue1 = snd (ExternalCircleBufferQueue_Consume 80 (snd (ExternalCircleBufferQueue_AllocateWrite 80 queue)));
         rawPacket = GetRawSpan (Packet_of_content 100 (bytes_of ''ABCDEF''));
         queue2 = snd (ExternalCircleBufferQueue_Consume 15 (snd (ExternalCircleBufferQueue_AllocateWrite 15 queue1)))
     in case ExternalCircleBufferQueue_AllocateWrite (length rawPacket) queue2 of
          (None, _) \<Rightarrow> False
        | (Some writeBufs, queue3) \<Rightarrow>
            frames_id 100 (fst (TryFrameFromBuffer ExternalCircleBufferQueue_vtable
              (scatter writeBufs rawPacket storage, queue3))))"

fun sizes_are :: "nat \<Rightarrow> nat \<Rightarrow> ExternalCircleBufferQueue \<Rightarrow> bool" where
  "sizes_are r w q \<longleftrightarrow> ExternalCircleBufferQueue_CanReadSize q = r \<and> ExternalCircleBufferQueue_CanWriteSize q = w"

definition TestOverflowPrevention :: bool where
  "TestOverflowPrevention =
    (let queue = ExternalCircleBufferQueue_ctor (0, 100);
         (a1, queue1) = ExternalCircleBufferQueue_AllocateWrite 80 queue;
         (a2, queue2) = ExternalCircleBufferQueue_AllocateWrite 30 queue1;
         (a3, queue3) = ExternalCircleBufferQueue_AllocateWrite 20 queue2;
         (a4, queue4) = ExternalCircleBufferQueue_AllocateWrite 1 queue3;
         (c5, queue5) = ExternalCircleBufferQueue_Consume 50 queue4;
         (a6, queue6) = ExternalCircleBufferQueue_AllocateWrite 40 queue5
     in a1 \<noteq> None \<and> sizes_are 80 20 queue1 \<and> a2 = None \<and> sizes_are 80 20 queue2 \<and> a3 \<noteq> None \<and> sizes_are 100 0 queue3 \<and>
        a4 = None \<and> c5 \<and> sizes_are 50 50 queue5 \<and> a6 \<noteq> None \<and> sizes_are 90 10 queue6)"

lemma adapter_overflow: TestOverflowPrevention
  by code_simp

lemma adapter_framer: TestPacketFramerWithWrapAround
proof -
  let ?raw = "GetRawSpan (Packet_of_content 100 (bytes_of ''ABCDEF''))"
  let ?q = "\<lparr>x_Buffer = (0, 100), x_Head = 95, x_Tail = 95, x_Size = 0, x_Capacity = 100\<rparr>"
  let ?st = "(storage, ?q)"
  have q: "snd (ExternalCircleBufferQueue_Consume 15 (snd (ExternalCircleBufferQueue_AllocateWrite 15
      (snd (ExternalCircleBufferQueue_Consume 80 (snd (ExternalCircleBufferQueue_AllocateWrite 80
        (ExternalCircleBufferQueue_ctor (0, 100))))))))) = ?q"
    by (simp add: ExternalCircleBufferQueue_ctor_def ExternalCircleBufferQueue_AllocateWrite_def ExternalCircleBufferQueue_Consume_def Let_def)
  have len: "length ?raw = 10" by (simp add: bytes_of_def)
  have i: "x_inv ?st" "x_contents ?st = []"
    by (simp_all add: x_inv_def as_cbq_def cbq_inv_def length_span_read storage_def cbq_contents_def)
  obtain bufs q3 where a: "ExternalCircleBufferQueue_AllocateWrite (length ?raw) ?q = (Some bufs, q3)"
    using len by (auto simp: ExternalCircleBufferQueue_AllocateWrite_def)
  let ?st' = "(scatter bufs ?raw storage, q3)"
  have st: "?st' = snd (q_step ExternalCircleBufferQueue_vtable (QAllocFill ?raw) ?st)"
    using a by (simp add: ExternalCircleBufferQueue_vtable_def buf_store_def)
  have c: "x_inv ?st'" "x_contents ?st' = ?raw"
    using xbq.step_refines(2,3)[OF i(1), of "QAllocFill ?raw"] i(2) len unfolding st by simp_all
  have "frames_id 100 (fst (spec_frame ?raw))" by code_simp
  then have "frames_id 100 (fst (TryFrameFromBuffer ExternalCircleBufferQueue_vtable ?st'))"
    using xbq.frame_refines[OF c(1)] c(2) by (metis fst_conv)
  then show ?thesis unfolding TestPacketFramerWithWrapAround_def Let_def q a by simp
qed

lemma length_bytes_from [simp]: "length (bytes_from start n) = n"
  by (simp add: bytes_from_def)

lemma adapter_wrap: TestWrapAroundWriteRead
  by (simp add: TestWrapAroundWriteRead_def ExternalCircleBufferQueue_ctor_def ExternalCircleBufferQueue_AllocateWrite_def
      ExternalCircleBufferQueue_GetReadBuffers_def ExternalCircleBufferQueue_Consume_def Let_def subspan_def memcpy_at_def
      span_read_def storage_def)

section \<open>The suites\<close>

text \<open>All tests of \<open>CircleBufferQueueTests\<close>, on a queue of the given capacity made by the constructor under
  test; \<open>ops\<close> is the class.\<close>

definition CircleBufferQueueTests :: "'b IBuffer \<Rightarrow> (nat \<Rightarrow> 'b) \<Rightarrow> bool" where
  "CircleBufferQueueTests ops mk \<longleftrightarrow>
     run_test ops BasicOperations [] (mk 10) \<and> run_test ops OverflowTests [] (mk 5) \<and>
     run_test ops WrapAroundTests [] (mk 10) \<and> run_test ops EdgeCases [] (mk 10) \<and>
     run_test ops LargerThanBuffer_start [] (mk 10) \<and>
     LargerThanBufferTests 100 ops (bytes_of ''ABCDEFGHIJKLMNOPQRSTUVWXYZ'') (mk 10) \<and>
     run_test ops MultipleBufferCyclesTest [] (mk 8) \<and>
     LargeDataWithPeekConsumeTest 100 ops (bytes_of ''HEADER:PAYLOAD_DATA_THAT_IS_VERY_LONG_END'') (mk 16) \<and>
     run_test ops BoundaryConditionTests [] (mk 10)"

definition PacketFramerTests :: "'b IBuffer \<Rightarrow> (nat \<Rightarrow> 'b) \<Rightarrow> bool" where
  "PacketFramerTests ops mk \<longleftrightarrow>
     (\<forall>ts \<in> {EmptyBuffer_ReturnsNeedMore, PartialHeader_ReturnsNeedMore, ValidHeader_InsufficientBody_ReturnsNeedMore,
        CompletePacket_ReturnsOk, PacketTooSmall_ReturnsInvalid, PacketSizeZero_ReturnsInvalid,
        MultiplePackets_ProcessedSequentially}. run_test ops ts [] (mk 1024))"

definition RioBufferAdapterTests :: bool where
  "RioBufferAdapterTests \<longleftrightarrow> TestWrapAroundWriteRead \<and> TestPacketFramerWithWrapAround \<and> TestOverflowPrevention"

context byte_queue
begin

lemma suites_pass:
  assumes "\<And>n. 0 < n \<Longrightarrow> inv (mk n) \<and> contents (mk n) = [] \<and> cap (mk n) = n"
  shows "CircleBufferQueueTests ops mk" "PacketFramerTests ops mk"
proof -
  have run: "run_test ops ts [] (mk n)" if "spec_test n ts [] []" "0 < n" for ts n
    using test_refines[of "mk n" ts "[]"] assms[OF that(2)] that(1) by simp
  have loops: "LargerThanBufferTests 100 ops (bytes_of ''ABCDEFGHIJKLMNOPQRSTUVWXYZ'') (mk 10)"
    "LargeDataWithPeekConsumeTest 100 ops (bytes_of ''HEADER:PAYLOAD_DATA_THAT_IS_VERY_LONG_END'') (mk 16)"
    using larger_than_buffer_passes[of "mk 10"] peek_loop_ends[of _ 0 "[]" "mk 16" 100] assms[of 10] assms[of 16]
    by (simp_all add: LargeDataWithPeekConsumeTest_def pumped_def bytes_of_def)
  show "CircleBufferQueueTests ops mk"
    unfolding CircleBufferQueueTests_def using loops by (intro conjI) (auto intro!: run scripts_pass)
  show "PacketFramerTests ops mk"
    unfolding PacketFramerTests_def using framer_scripts_pass by (auto intro!: run)
qed

end

text \<open>The unit tests of the ring buffer and of the framer pass on the model of \<open>CircleBufferQueue\<close>, also
  on \<open>ExternalCircleBufferQueue\<close> over any window of a block (with which the framer is meant to work as
  well), and the tests of the adapter over a shared block pass. The model
  agrees with the code's own expectations: results, sizes, contents, wrap-around and refusals.\<close>

theorem buffer_suites_pass:
  "CircleBufferQueueTests CircleBufferQueue_vtable CircleBufferQueue_ctor \<and>
   PacketFramerTests CircleBufferQueue_vtable CircleBufferQueue_ctor \<and>
   CircleBufferQueueTests ExternalCircleBufferQueue_vtable
     (\<lambda>n. (replicate (off + n) 0, ExternalCircleBufferQueue_ctor (off, n))) \<and>
   PacketFramerTests ExternalCircleBufferQueue_vtable
     (\<lambda>n. (replicate (off + n) 0, ExternalCircleBufferQueue_ctor (off, n))) \<and>
   RioBufferAdapterTests"
proof -
  have "0 < n \<Longrightarrow> cbq_inv (CircleBufferQueue_ctor n) \<and> cbq_contents (CircleBufferQueue_ctor n) = [] \<and>
    m_Capacity (CircleBufferQueue_ctor n) = n" for n
    using cbq_inv_ctor[of n] cbq_contents_ctor[of n] by (simp add: CircleBufferQueue_ctor_def)
  note c = cbq.suites_pass[OF this]
  let ?mk = "\<lambda>n. (replicate (off + n) 0, ExternalCircleBufferQueue_ctor (off, n))"
  have "0 < n \<Longrightarrow> x_inv (?mk n) \<and> x_contents (?mk n) = [] \<and> x_cap (?mk n) = n" for n
    using x_inv_ctor[of "(off, n)" "replicate (off + n) 0"]
    by (simp add: ExternalCircleBufferQueue_ctor_def as_cbq_def cbq_contents_def)
  note x = xbq.suites_pass[of ?mk, OF this]
  show ?thesis
    using c x adapter_overflow adapter_framer adapter_wrap by (simp add: RioBufferAdapterTests_def)
qed

end
