(* ===== verification/Conformance_Sessions.thy ===== *)
theory Conformance_Sessions
  imports Outbound_Session Conformance_Buffers
begin

text \<open>
  The unit tests of the session (\<open>LibNetworksTests/IOSessionBytesTests.cpp\<close>): its two test subclasses
  with their counters, the helpers that simulate completions, and each test as a function of the
  environment that says whether all its assertions hold. They are shown to hold for every
  behaviour of Winsock and of the clock. The buffer of a test session is all zeros, so a simulated
  receive of at least two bytes is a corrupt stream. \<open>None\<close> stands for a call that does not
  return. \<open>Destructor_DoesNotCrash_WhenStaleCounter\<close> is left out: it asserts nothing but that the
  destructor returns.
\<close>

record TestableIOSession = "CircleBufferQueue IOSession" +
  m_DisconnectedCount :: int
  m_PacketReceivedCount :: int
  m_OnSentCount :: int

definition Testable_OnDisconnected :: "TestableIOSession \<Rightarrow> TestableIOSession" where
  "Testable_OnDisconnected s = s\<lparr>m_DisconnectedCount := m_DisconnectedCount s + 1\<rparr>"

definition Testable_OnPacketReceived :: "Packet \<Rightarrow> TestableIOSession \<Rightarrow> TestableIOSession" where
  "Testable_OnPacketReceived p s = s\<lparr>m_PacketReceivedCount := m_PacketReceivedCount s + 1\<rparr>"

definition Testable_OnSent :: "nat \<Rightarrow> TestableIOSession \<Rightarrow> TestableIOSession" where
  "Testable_OnSent n s = s\<lparr>m_OnSentCount := m_OnSentCount s + 1\<rparr>"

definition testable_cb :: "TestableIOSession session_callbacks" where
  "testable_cb = \<lparr>cb_OnPacketReceived = Testable_OnPacketReceived, cb_OnSent = Testable_OnSent,
     cb_OnDisconnected = Testable_OnDisconnected\<rparr>"

abbreviation test_completed ::
  "env \<Rightarrow> (trace \<Rightarrow> int) \<Rightarrow> nat \<Rightarrow> overlapped_ptr \<Rightarrow> TestableIOSession \<Rightarrow> TestableIOSession option" where
  "test_completed env clock bytes p s \<equiv> OnIOCompleted env clock CircleBufferQueue_vtable testable_cb True bytes p s"

definition SetOutstandingIoCountForTest :: "int \<Rightarrow> TestableIOSession \<Rightarrow> TestableIOSession" where
  "SetOutstandingIoCountForTest n s = s\<lparr>s_OutstandingIoCount := n\<rparr>"

abbreviation one_more :: "TestableIOSession \<Rightarrow> TestableIOSession" where
  "one_more s \<equiv> SetOutstandingIoCountForTest (s_OutstandingIoCount s + 1) s"

definition set_zero_byte :: "bool \<Rightarrow> TestableIOSession \<Rightarrow> TestableIOSession" where
  "set_zero_byte z s = s\<lparr>s_RecvOverlapped := (s_RecvOverlapped s)\<lparr>o_IsZeroByte := z\<rparr>\<rparr>"

definition SimulateRealRecvSuccess where
  "SimulateRealRecvSuccess env clock bytes s = test_completed env clock bytes OvRecv (set_zero_byte False (one_more s))"

definition SimulateZeroByteRecvComplete where
  "SimulateZeroByteRecvComplete env clock s = test_completed env clock 0 OvRecv (set_zero_byte True (one_more s))"

definition SimulateSendSuccess where
  "SimulateSendSuccess env clock bytes s = test_completed env clock bytes OvSend (one_more s)"

definition CompleteSendFromExistingOutstanding where
  "CompleteSendFromExistingOutstanding env clock bytes s = test_completed env clock bytes OvSend s"

definition CompleteRealRecvFromExistingOutstanding where
  "CompleteRealRecvFromExistingOutstanding env clock bytes s = test_completed env clock bytes OvRecv (set_zero_byte False s)"

definition TestRequestDisconnect :: "DisconnectReason \<Rightarrow> TestableIOSession \<Rightarrow> TestableIOSession" where
  "TestRequestDisconnect reason s = RequestDisconnect CircleBufferQueue_vtable Testable_OnDisconnected reason s"

definition MakeSession :: "nat \<Rightarrow> TestableIOSession" where
  "MakeSession bufCap =
     IOSession.extend
       (fst (IOSession_ctor 1 (Some (Socket_of_handle INVALID_SOCKET))
          (Some (CircleBufferQueue_ctor bufCap)) (Some (CircleBufferQueue_ctor bufCap))))
       \<lparr>m_DisconnectedCount = 0, m_PacketReceivedCount = 0, m_OnSentCount = 0\<rparr>"

record TestableOutboundSession = "CircleBufferQueue OutboundSession" +
  ob_DisconnectedCount :: int
  ob_ConnectedCount :: int

definition TestableOut_OnDisconnected :: "TestableOutboundSession \<Rightarrow> TestableOutboundSession" where
  "TestableOut_OnDisconnected s = s\<lparr>ob_DisconnectedCount := ob_DisconnectedCount s + 1\<rparr>"

definition TestableOut_OnConnected :: "TestableOutboundSession \<Rightarrow> TestableOutboundSession" where
  "TestableOut_OnConnected s = s\<lparr>ob_ConnectedCount := ob_ConnectedCount s + 1\<rparr>"

definition testable_out_cb :: "TestableOutboundSession session_callbacks" where
  "testable_out_cb = \<lparr>cb_OnPacketReceived = \<lambda>p s. s, cb_OnSent = \<lambda>n s. s, cb_OnDisconnected = TestableOut_OnDisconnected\<rparr>"

definition CompleteConnectFromExistingOutstanding where
  "CompleteConnectFromExistingOutstanding env clock success s =
     OutboundSession_OnIOCompleted env clock CircleBufferQueue_vtable testable_out_cb TestableOut_OnConnected success 0 ConnectOverlapped s"

definition MakeOutboundSession :: "nat \<Rightarrow> TestableOutboundSession" where
  "MakeOutboundSession bufCap =
     OutboundSession.extend
       (fst (OutboundSession_ctor 1 (Some (Socket_of_handle INVALID_SOCKET))
          (Some (CircleBufferQueue_ctor bufCap)) (Some (CircleBufferQueue_ctor bufCap))))
       \<lparr>ob_DisconnectedCount = 0, ob_ConnectedCount = 0\<rparr>"

section \<open>The byte counters\<close>

definition holds :: "('a \<Rightarrow> bool) \<Rightarrow> 'a option \<Rightarrow> bool" where
  "holds P r \<longleftrightarrow> (case r of None \<Rightarrow> False | Some s \<Rightarrow> P s)"

definition IOSession_GetTotalRx_InitialZero :: bool where
  "IOSession_GetTotalRx_InitialZero \<longleftrightarrow>
     s_TotalRxBytes (MakeSession 8192) = 0 \<and> s_TotalTxBytes (MakeSession 8192) = 0"

definition IOSession_RxBytes_UpdatedOnReceive :: "env \<Rightarrow> (trace \<Rightarrow> int) \<Rightarrow> bool" where
  "IOSession_RxBytes_UpdatedOnReceive env clock \<longleftrightarrow>
     holds (\<lambda>s. s_TotalRxBytes s = 1024 \<and> s_TotalTxBytes s = 0) (SimulateRealRecvSuccess env clock 1024 (MakeSession 8192))"

definition IOSession_TxBytes_UpdatedOnSend :: "env \<Rightarrow> (trace \<Rightarrow> int) \<Rightarrow> bool" where
  "IOSession_TxBytes_UpdatedOnSend env clock \<longleftrightarrow>
     holds (\<lambda>s. s_TotalTxBytes s = 512 \<and> s_TotalRxBytes s = 0) (SimulateSendSuccess env clock 512 (MakeSession 8192))"

definition IOSession_ZeroByte_NoUpdate :: "env \<Rightarrow> (trace \<Rightarrow> int) \<Rightarrow> bool" where
  "IOSession_ZeroByte_NoUpdate env clock \<longleftrightarrow>
     holds (\<lambda>s. s_TotalRxBytes s = 0) (SimulateZeroByteRecvComplete env clock (MakeSession 8192))"

definition IOSession_Cumulative_AcrossMultipleOps :: "env \<Rightarrow> (trace \<Rightarrow> int) \<Rightarrow> bool" where
  "IOSession_Cumulative_AcrossMultipleOps env clock \<longleftrightarrow>
     holds (\<lambda>s. s_TotalRxBytes s = 600)
       (Option.bind (SimulateRealRecvSuccess env clock 100 (MakeSession 8192)) (\<lambda>s.
        Option.bind (SimulateRealRecvSuccess env clock 200 s) (SimulateRealRecvSuccess env clock 300)))"

section \<open>Life cycle\<close>

definition RequestDisconnect_Idempotent_ZeroPending_FiresOnce :: bool where
  "RequestDisconnect_Idempotent_ZeroPending_FiresOnce \<longleftrightarrow>
     (let s = TestRequestDisconnect IdleTimeout (TestRequestDisconnect Normal (TestRequestDisconnect Server (MakeSession 8192)))
      in m_DisconnectedCount s = 1 \<and> s_OutstandingIoCount s = 0)"

definition RequestDisconnect_ZeroPending_FastPath_FiresImmediately :: bool where
  "RequestDisconnect_ZeroPending_FastPath_FiresImmediately \<longleftrightarrow>
     m_DisconnectedCount (MakeSession 8192) = 0 \<and>
     (let s = TestRequestDisconnect Server (MakeSession 8192) in m_DisconnectedCount s = 1 \<and> s_OutstandingIoCount s = 0)"

definition RequestDisconnect_LastCompletion_FiresAfterDrain :: "env \<Rightarrow> (trace \<Rightarrow> int) \<Rightarrow> bool" where
  "RequestDisconnect_LastCompletion_FiresAfterDrain env clock \<longleftrightarrow>
     (let s = TestRequestDisconnect Server (SetOutstandingIoCountForTest 2 (MakeSession 8192)) in
      m_DisconnectedCount s = 0 \<and> s_OutstandingIoCount s = 2 \<and>
      holds (\<lambda>s1. m_DisconnectedCount s1 = 0 \<and> s_OutstandingIoCount s1 = 1 \<and>
        holds (\<lambda>s2. m_DisconnectedCount s2 = 1 \<and> s_OutstandingIoCount s2 = 0)
          (CompleteSendFromExistingOutstanding env clock 16 s1))
        (CompleteSendFromExistingOutstanding env clock 16 s))"

definition RecvDrop_AfterDisconnect_SuppressesOnPacketReceived :: "env \<Rightarrow> (trace \<Rightarrow> int) \<Rightarrow> bool" where
  "RecvDrop_AfterDisconnect_SuppressesOnPacketReceived env clock \<longleftrightarrow>
     (let s = TestRequestDisconnect Server (SetOutstandingIoCountForTest 1 (MakeSession 8192)) in
      m_DisconnectedCount s = 0 \<and> m_PacketReceivedCount s = 0 \<and>
      holds (\<lambda>s1. m_PacketReceivedCount s1 = 0 \<and> s_TotalRxBytes s1 = 64 \<and> m_DisconnectedCount s1 = 1 \<and> s_OutstandingIoCount s1 = 0)
        (CompleteRealRecvFromExistingOutstanding env clock 64 s))"

definition OnSent_Skipped_AfterDisconnect :: "env \<Rightarrow> (trace \<Rightarrow> int) \<Rightarrow> bool" where
  "OnSent_Skipped_AfterDisconnect env clock \<longleftrightarrow>
     (let s = TestRequestDisconnect Server (SetOutstandingIoCountForTest 1 (MakeSession 8192)) in
      m_DisconnectedCount s = 0 \<and> m_OnSentCount s = 0 \<and>
      holds (\<lambda>s1. m_OnSentCount s1 = 0 \<and> s_TotalTxBytes s1 = 32 \<and> m_DisconnectedCount s1 = 1 \<and> s_OutstandingIoCount s1 = 0)
        (CompleteSendFromExistingOutstanding env clock 32 s))"

definition ConnectOutstanding_UndoOnPostFailure_RestoresZero :: bool where
  "ConnectOutstanding_UndoOnPostFailure_RestoresZero \<longleftrightarrow>
     (let s = MarkConnectIoPosted (MakeOutboundSession 8192) in
      s_OutstandingIoCount s = 1 \<and> s_OutstandingIoCount (UndoConnectIoOnPostFailure s) = 0)"

definition ConnectCompletion_LastDrain_FiresOnDisconnected :: "env \<Rightarrow> (trace \<Rightarrow> int) \<Rightarrow> bool" where
  "ConnectCompletion_LastDrain_FiresOnDisconnected env clock \<longleftrightarrow>
     (let s = RequestDisconnect CircleBufferQueue_vtable TestableOut_OnDisconnected Server
                (MarkConnectIoPosted (MakeOutboundSession 8192)) in
      ob_DisconnectedCount s = 0 \<and> s_OutstandingIoCount s = 1 \<and>
      holds (\<lambda>s1. ob_DisconnectedCount s1 = 1 \<and> s_OutstandingIoCount s1 = 0)
        (CompleteConnectFromExistingOutstanding env clock False s))"

definition ConnectCompletion_AfterDisconnect_DoesNotCallOnConnected :: "env \<Rightarrow> (trace \<Rightarrow> int) \<Rightarrow> bool" where
  "ConnectCompletion_AfterDisconnect_DoesNotCallOnConnected env clock \<longleftrightarrow>
     (let s = RequestDisconnect CircleBufferQueue_vtable TestableOut_OnDisconnected Server
                (MarkConnectIoPosted (MakeOutboundSession 8192)) in
      holds (\<lambda>s1. ob_ConnectedCount s1 = 0 \<and> ob_DisconnectedCount s1 = 1 \<and> s_OutstandingIoCount s1 = 0)
        (CompleteConnectFromExistingOutstanding env clock True s))"

lemmas session_test_defs = SetOutstandingIoCountForTest_def set_zero_byte_def SimulateZeroByteRecvComplete_def
  SimulateSendSuccess_def SimulateRealRecvSuccess_def CompleteSendFromExistingOutstanding_def
  CompleteRealRecvFromExistingOutstanding_def TestRequestDisconnect_def MakeSession_def holds_def
  testable_cb_def Testable_OnDisconnected_def Testable_OnPacketReceived_def Testable_OnSent_def
  IOSession_ctor_def IOSession.defs Socket_of_handle_def

lemmas session_code_defs = OnIOCompleted_def HandleSendCompletion_def HandleRecvCompletion_def HandleRealRecvCompletion_def
  HandleZeroByteRecvCompletion_def RequestDisconnect_def RequestDisconnect0_def TryFireOnDisconnected_def close_socket_def
  Socket_Shutdown_def Socket_Close_def IoCompletionGuard_dtor_def Let_def RequestRecv_def PrepareRecvBuffers_def
  AddOutstandingIo_def UndoOutstandingOnFailure_def syscall_def TryPostSendFromQueue_def

lemmas ring_code_defs = CircleBufferQueue_vtable_def CircleBufferQueue_ctor_def CircleBufferQueue_CommitWrite_def
  CircleBufferQueue_Consume_def CircleBufferQueue_Clear_def CircleBufferQueue_CanReadSize_def
  CircleBufferQueue_GetWriteableBuffers_def CircleBufferQueue_GetReadBuffers_def

lemma lifecycle_tests:
  "RequestDisconnect_Idempotent_ZeroPending_FiresOnce" "RequestDisconnect_ZeroPending_FastPath_FiresImmediately"
  "RequestDisconnect_LastCompletion_FiresAfterDrain env clock" "RecvDrop_AfterDisconnect_SuppressesOnPacketReceived env clock"
  "OnSent_Skipped_AfterDisconnect env clock"
  unfolding RequestDisconnect_Idempotent_ZeroPending_FiresOnce_def RequestDisconnect_ZeroPending_FastPath_FiresImmediately_def
    RequestDisconnect_LastCompletion_FiresAfterDrain_def RecvDrop_AfterDisconnect_SuppressesOnPacketReceived_def
    OnSent_Skipped_AfterDisconnect_def
  by (simp_all add: session_test_defs session_code_defs ring_code_defs)

lemma send_and_probe_tests:
  "IOSession_GetTotalRx_InitialZero" "IOSession_TxBytes_UpdatedOnSend env clock" "IOSession_ZeroByte_NoUpdate env clock"
  unfolding IOSession_GetTotalRx_InitialZero_def IOSession_TxBytes_UpdatedOnSend_def IOSession_ZeroByte_NoUpdate_def
  by (simp_all add: session_test_defs session_code_defs ring_code_defs)

lemma connect_tests:
  "ConnectOutstanding_UndoOnPostFailure_RestoresZero" "ConnectCompletion_LastDrain_FiresOnDisconnected env clock"
  "ConnectCompletion_AfterDisconnect_DoesNotCallOnConnected env clock"
  unfolding ConnectOutstanding_UndoOnPostFailure_RestoresZero_def ConnectCompletion_LastDrain_FiresOnDisconnected_def
    ConnectCompletion_AfterDisconnect_DoesNotCallOnConnected_def
  by (simp_all add: MakeOutboundSession_def OutboundSession_ctor_def OutboundSession.defs IOSession_ctor_def IOSession.defs holds_def
      CompleteConnectFromExistingOutstanding_def OutboundSession_OnIOCompleted_def connect_completed_def testable_out_cb_def
      TestableOut_OnDisconnected_def TestableOut_OnConnected_def MarkConnectIoPosted_def UndoConnectIoOnPostFailure_def
      Socket_of_handle_def session_code_defs ring_code_defs)

text \<open>A receive into a ring of zeros: the framer finds a packet size of zero and gives up.\<close>

lemma deframe_zeros: "2 \<le> n \<Longrightarrow> deframe (replicate n 0) = Corrupt"
proof -
  assume "2 \<le> n"
  then have "GetHeaderFromBuffer (replicate n (0 :: byte)) = GetHeaderFromBuffer [0, 0]"
    using header_take2[of "replicate n 0"] by (simp add: numeral_2_eq_2 min_def split: if_splits)
  moreover have "GetHeaderFromBuffer [0, 0] = 0" by code_simp
  ultimately show "deframe (replicate n 0) = Corrupt"
    using \<open>2 \<le> n\<close> by (simp add: deframe_def)
qed

lemma corrupt_zeros:
  assumes "2 \<le> n" "n \<le> c"
  defines "q \<equiv> \<lparr>m_Buffer = replicate c 0, m_Head = n mod c, m_Tail = 0, m_Size = n, m_Capacity = c\<rparr>"
  shows "TryFrameFromBuffer CircleBufferQueue_vtable q = (\<lparr>frame_Result = Invalid, frame_PacketOpt = None\<rparr>, q)"
proof -
  have i: "cbq_inv q" "cbq_contents q = replicate n 0"
    using assms by (auto simp: q_def cbq_inv_def cbq_contents_def ring_read_def intro: nth_equalityI)
  show ?thesis by (rule cbq.framer_corrupt[OF i(1)]) (simp add: i(2) deframe_zeros[OF assms(1)])
qed

lemma corrupt_read:
  assumes "s_pReceiveBuffer s = Some rb" "\<not> s_DisconnectRequested s"
    "TryFrameFromBuffer ops rb = (\<lparr>frame_Result = Invalid, frame_PacketOpt = None\<rparr>, rb)"
  shows "ReadReceivedBuffers (read_fuel ops s) ops cb s = Some (RequestDisconnect0 ops (cb_OnDisconnected cb) s)"
proof -
  have same: "s\<lparr>s_pReceiveBuffer := Some rb\<rparr> = s" using assms(1) by (cases s) auto
  show ?thesis using assms by (simp add: read_fuel_def) (simp only: same)
qed

lemma vtable_simps:
  "vCommitWrite CircleBufferQueue_vtable = CircleBufferQueue_CommitWrite"
  "vClear CircleBufferQueue_vtable = CircleBufferQueue_Clear"
  by (simp_all add: CircleBufferQueue_vtable_def)

lemma corrupt_receive:
  assumes "2 \<le> n" "n \<le> 8192"
  shows "\<exists>s. SimulateRealRecvSuccess env clock n (MakeSession 8192) = Some s \<and> s_TotalRxBytes s = of_nat n \<and>
    s_TotalTxBytes s = 0 \<and> s_DisconnectRequested s \<and> s_OnDisconnectedFired s \<and> s_OutstandingIoCount s = 0 \<and>
    s_pReceiveBuffer s = Some \<lparr>m_Buffer = replicate 8192 0, m_Head = 0, m_Tail = 0, m_Size = 0, m_Capacity = 8192\<rparr>"
proof -
  note c = corrupt_read[OF _ _ corrupt_zeros[OF assms], where cb = testable_cb]
  show ?thesis
    using assms
    by (simp add: session_test_defs session_code_defs c[unfolded testable_cb_def, simplified] vtable_simps CircleBufferQueue_ctor_def
        CircleBufferQueue_CommitWrite_def CircleBufferQueue_Clear_def Testable_OnDisconnected_def RequestReceived_def)
qed

lemma dropped_receive:
  assumes "s_DisconnectRequested s" "s_OnDisconnectedFired s" "s_OutstandingIoCount s = 0" "s_pReceiveBuffer s = Some q"
    "m_Size q + n \<le> m_Capacity q" "0 < n"
  shows "\<exists>s'. SimulateRealRecvSuccess env clock n s = Some s' \<and> s_TotalRxBytes s' = s_TotalRxBytes s + of_nat n \<and>
    s_DisconnectRequested s' \<and> s_OnDisconnectedFired s' \<and> s_OutstandingIoCount s' = 0 \<and>
    (\<exists>q'. s_pReceiveBuffer s' = Some q' \<and> m_Size q' = m_Size q + n \<and> m_Capacity q' = m_Capacity q)"
proof -
  have "\<not> m_Capacity q - m_Size q < n" using assms(5) by linarith
  then show ?thesis
    using assms by (simp add: session_test_defs session_code_defs vtable_simps CircleBufferQueue_CommitWrite_def)
qed

lemma receive_tests:
  "IOSession_RxBytes_UpdatedOnReceive env clock" "IOSession_Cumulative_AcrossMultipleOps env clock"
proof -
  show "IOSession_RxBytes_UpdatedOnReceive env clock"
    using corrupt_receive[of 1024 env clock] by (auto simp: IOSession_RxBytes_UpdatedOnReceive_def holds_def)
  obtain s1 where s1: "SimulateRealRecvSuccess env clock 100 (MakeSession 8192) = Some s1" "s_TotalRxBytes s1 = 100"
    "s_DisconnectRequested s1" "s_OnDisconnectedFired s1" "s_OutstandingIoCount s1 = 0"
    "s_pReceiveBuffer s1 = Some \<lparr>m_Buffer = replicate 8192 0, m_Head = 0, m_Tail = 0, m_Size = 0, m_Capacity = 8192\<rparr>"
    using corrupt_receive[of 100 env clock] by auto
  obtain s2 q2 where s2: "SimulateRealRecvSuccess env clock 200 s1 = Some s2" "s_TotalRxBytes s2 = 300"
    "s_DisconnectRequested s2" "s_OnDisconnectedFired s2" "s_OutstandingIoCount s2 = 0"
    "s_pReceiveBuffer s2 = Some q2" "m_Size q2 = 200" "m_Capacity q2 = 8192"
    using dropped_receive[OF s1(3-6), of 200 env clock] s1(2) by auto
  show "IOSession_Cumulative_AcrossMultipleOps env clock"
    using dropped_receive[OF s2(3-6), of 300 env clock] s2(2,7,8) s1(1) s2(1)
    by (auto simp: IOSession_Cumulative_AcrossMultipleOps_def holds_def)
qed

section \<open>The suites\<close>

definition IOSessionBytesTests :: "env \<Rightarrow> (trace \<Rightarrow> int) \<Rightarrow> bool" where
  "IOSessionBytesTests env clock \<longleftrightarrow> IOSession_GetTotalRx_InitialZero \<and> IOSession_RxBytes_UpdatedOnReceive env clock \<and>
     IOSession_TxBytes_UpdatedOnSend env clock \<and> IOSession_ZeroByte_NoUpdate env clock \<and>
     IOSession_Cumulative_AcrossMultipleOps env clock"

definition IOSessionLifetimeTests :: "env \<Rightarrow> (trace \<Rightarrow> int) \<Rightarrow> bool" where
  "IOSessionLifetimeTests env clock \<longleftrightarrow> RequestDisconnect_Idempotent_ZeroPending_FiresOnce \<and>
     RequestDisconnect_ZeroPending_FastPath_FiresImmediately \<and> RequestDisconnect_LastCompletion_FiresAfterDrain env clock \<and>
     RecvDrop_AfterDisconnect_SuppressesOnPacketReceived env clock \<and> OnSent_Skipped_AfterDisconnect env clock \<and>
     ConnectOutstanding_UndoOnPostFailure_RestoresZero \<and>
     ConnectCompletion_LastDrain_FiresOnDisconnected env clock \<and> ConnectCompletion_AfterDisconnect_DoesNotCallOnConnected env clock"

text \<open>The unit tests of the session pass on the model, whatever Winsock and the clock answer: the byte
  counters grow by what completions report, also after a disconnect, and only then; repeated disconnect
  requests notify once, at once when nothing is in flight and with the last completion
  otherwise; after a disconnect nothing is delivered to the hooks, and a late connect completion
  does not report a connection.\<close>

theorem session_suites_pass: "IOSessionBytesTests env clock \<and> IOSessionLifetimeTests env clock"
  unfolding IOSessionBytesTests_def IOSessionLifetimeTests_def
  by (intro conjI send_and_probe_tests receive_tests lifecycle_tests connect_tests)

end
