(* ===== verification/Conformance_Services.thy ===== *)
theory Conformance_Services
  imports Admin_Handler Rio_Buffer_Manager Session_Container Rio_Service
begin

text \<open>
  The unit tests of the statistics, the admin handler, the slice pool and the session container
  (\<open>ServerStatsCollectorTests.cpp\<close>, \<open>AdminPacketHandlerTests.cpp\<close>, \<open>RioBufferManagerTests.cpp\<close>,
  \<open>RioFoundationTests.cpp\<close>, \<open>RioServiceTests.cpp\<close>, \<open>ContainerTests.cpp\<close>): each test as a definition that says whether its assertions hold on the
  model. What a test fixes by serialising a request is here the answer of the parser, and
  what it reads back from a response is stated of the response that was serialised.
\<close>

section \<open>The statistics collector\<close>

definition MakeMocks :: "nat \<Rightarrow> u64 \<Rightarrow> u64 \<Rightarrow> session_view option list" where
  "MakeMocks n rxBase txBase =
     map (\<lambda>i. Some \<lparr>sv_rx = rxBase * (of_nat i + 1), sv_tx = txBase * (of_nat i + 1), sv_idle = None, sv_net = None\<rparr>) [0..<n]"

definition Summary_EmptyProvider :: "int \<Rightarrow> int \<Rightarrow> bool" where
  "Summary_EmptyProvider steady wall \<longleftrightarrow>
     (let collector = ServerStatsCollector_ctor SM_IOCP steady;
          summary = SnapshotSummary steady wall (Provides []) (Some 0) None collector
      in sd_activeSessionCount summary = 0 \<and> sd_totalRxBytes summary = 0 \<and> sd_totalTxBytes summary = 0 \<and>
         sd_serverMode summary = SM_IOCP)"

definition Summary_ThreeSessions_Aggregated :: "int \<Rightarrow> int \<Rightarrow> bool" where
  "Summary_ThreeSessions_Aggregated steady wall \<longleftrightarrow>
     (let collector = ServerStatsCollector_ctor SM_RIO steady;
          summary = SnapshotSummary steady wall (Provides (MakeMocks 3 100 50)) (Some 0) None collector
      in sd_activeSessionCount summary = 3 \<and> sd_totalRxBytes summary = 100 + 200 + 300 \<and>
         sd_totalTxBytes summary = 50 + 100 + 150 \<and> sd_serverMode summary = SM_RIO)"

text \<open>The sleep of 120 ms takes that long or longer.\<close>

definition Summary_UptimeIncreasesOverTime :: "int \<Rightarrow> int \<Rightarrow> nat \<Rightarrow> bool" where
  "Summary_UptimeIncreasesOverTime steady wall longer \<longleftrightarrow>
     (let collector = ServerStatsCollector_ctor SM_IOCP steady;
          summary = SnapshotSummary (steady + 120 + int longer) wall (Provides []) (Some 0) None collector
      in sd_uptimeMs summary \<ge> 100)"

definition Summary_IdleCountFromProvider :: "int \<Rightarrow> int \<Rightarrow> bool" where
  "Summary_IdleCountFromProvider steady wall \<longleftrightarrow>
     sd_idleDisconnectCount (SnapshotSummary steady wall (Provides []) (Some 42) None (ServerStatsCollector_ctor SM_IOCP steady)) = 42"

definition Summary_NoSampler_CpuMemoryZero :: "int \<Rightarrow> int \<Rightarrow> bool" where
  "Summary_NoSampler_CpuMemoryZero steady wall \<longleftrightarrow>
     (let summary = SnapshotSummary steady wall (Provides []) (Some 0) None (ServerStatsCollector_ctor SM_IOCP steady)
      in sd_processCpuPercent summary = 0 \<and> sd_processMemoryBytes summary = 0)"

definition SessionList_OffsetLimit_Paging :: bool where
  "SessionList_OffsetLimit_Paging \<longleftrightarrow>
     (let lst = SnapshotSessions (Provides (MakeMocks 5 100 50)) 1 2
      in sl_total lst = 5 \<and> SessionListData.sl_offset lst = 1 \<and> length (sl_sessions lst) = 2 \<and>
         map si_rxBytes (sl_sessions lst) = [200, 300])"

definition SessionList_LimitClamp :: bool where
  "SessionList_LimitClamp \<longleftrightarrow>
     (let lst = SnapshotSessions (Provides (MakeMocks 1200 100 50)) 0 5000
      in sl_total lst = 1200 \<and> length (sl_sessions lst) = unat kMaxLimit)"

definition SessionList_OffsetOverflow_EmptyResult :: bool where
  "SessionList_OffsetOverflow_EmptyResult \<longleftrightarrow>
     (let lst = SnapshotSessions (Provides (MakeMocks 5 100 50)) 100 10
      in sl_total lst = 5 \<and> SessionListData.sl_offset lst = 100 \<and> sl_sessions lst = [])"

lemma length_MakeMocks [simp]: "length (MakeMocks n rx tx) = n"
  by (simp add: MakeMocks_def)

lemma mocks_page: "i + n \<le> cnt \<Longrightarrow> length (list_page (MakeMocks cnt rx tx) i n) = n"
proof (induction n arbitrary: i)
  case (Suc n)
  then show ?case by (simp add: MakeMocks_def)
qed simp

lemma collector_tests:
  "Summary_EmptyProvider steady wall" "Summary_ThreeSessions_Aggregated steady wall"
  "Summary_UptimeIncreasesOverTime steady wall longer" "Summary_IdleCountFromProvider steady wall"
  "Summary_NoSampler_CpuMemoryZero steady wall" "SessionList_OffsetOverflow_EmptyResult"
  by (simp_all add: Summary_EmptyProvider_def Summary_ThreeSessions_Aggregated_def Summary_UptimeIncreasesOverTime_def
      Summary_IdleCountFromProvider_def Summary_NoSampler_CpuMemoryZero_def SessionList_OffsetOverflow_EmptyResult_def
      SnapshotSummary_def SnapshotSessions_def ServerStatsCollector_ctor_def Let_def MakeMocks_def numeral_3_eq_3 upt_rec)

lemma paging_test: SessionList_OffsetLimit_Paging
  by code_simp

lemma clamp_test: SessionList_LimitClamp
  by (simp add: SessionList_LimitClamp_def SnapshotSessions_def Let_def kMaxLimit_def min_def mocks_page)

section \<open>The admin handler\<close>

text \<open>\<open>FakeSession\<close> keeps what was sent. The parser's answer to the request's bytes is fixed by
  the test: it serialised the request itself, or chose bytes protobuf refuses.\<close>

record FakeSession =
  fk_sentMessages :: "(u16 \<times> byte list) list"
  fk_sessionId :: u64

definition FakeSession_default :: FakeSession where
  "FakeSession_default = \<lparr>fk_sentMessages = [], fk_sessionId = 7777\<rparr>"

definition FakeSession_SendMessage :: "u16 \<Rightarrow> byte list \<Rightarrow> FakeSession \<Rightarrow> FakeSession" where
  "FakeSession_SendMessage packetId wire s = s\<lparr>fk_sentMessages := fk_sentMessages s @ [(packetId, wire)]\<rparr>"

text \<open>The handler over a collector: mode, sessions and idle count of the test.\<close>

definition ah_handle ::
  "codec \<Rightarrow> ServerMode \<Rightarrow> session_view option list \<Rightarrow> u64 \<Rightarrow> int \<Rightarrow> int \<Rightarrow> Packet \<Rightarrow> FakeSession \<Rightarrow> bool \<times> FakeSession" where
  "ah_handle cd mode mocks idle steady wall packet =
     AdminPacketHandler_HandlePacket cd FakeSession_SendMessage
       (\<lambda>_. SnapshotSummary steady wall (Provides mocks) (Some idle) None (ServerStatsCollector_ctor mode steady))
       (\<lambda>_ off lim. SnapshotSessions (Provides mocks) off lim) packet"

definition Handle_NonAdminPacket_ReturnsFalse :: "codec \<Rightarrow> int \<Rightarrow> int \<Rightarrow> bool" where
  "Handle_NonAdminPacket_ReturnsFalse cd steady wall \<longleftrightarrow>
     (let (handled, session) = ah_handle cd SM_IOCP [] 0 steady wall (Packet_of_content 0x1001 []) FakeSession_default
      in \<not> handled \<and> fk_sentMessages session = [])"

definition Handle_SummaryRequest_SendsResponse :: "codec \<Rightarrow> byte list \<Rightarrow> int \<Rightarrow> int \<Rightarrow> bool" where
  "Handle_SummaryRequest_SendsResponse cd body steady wall \<longleftrightarrow>
     (let cd1 = cd\<lparr>parse_summary := (parse_summary cd)(body := Some \<lparr>hd_request_id = 1, hd_timestamp_ms = 1000\<rparr>)\<rparr>;
          packet = Packet_of_content kPacketId_SummaryRequest body;
          (handled, session) = ah_handle cd1 SM_IOCP (MakeMocks 3 1000 500) 0 steady wall packet FakeSession_default
      in handled \<and> length (fk_sentMessages session) = 1 \<and>
         fst (hd (fk_sentMessages session)) = kPacketId_SummaryResponse)"

definition Handle_SummaryResponse_FieldsPopulated :: "codec \<Rightarrow> byte list \<Rightarrow> int \<Rightarrow> int \<Rightarrow> bool" where
  "Handle_SummaryResponse_FieldsPopulated cd body steady wall \<longleftrightarrow>
     (let cd1 = cd\<lparr>parse_summary := (parse_summary cd)(body := Some \<lparr>hd_request_id = 99, hd_timestamp_ms = 55555\<rparr>)\<rparr>;
          packet = Packet_of_content kPacketId_SummaryRequest body;
          (handled, session) = ah_handle cd1 SM_RIO (MakeMocks 3 1000 500) 11 steady wall packet FakeSession_default
      in handled \<and>
         (\<exists>response. fk_sentMessages session = [(kPacketId_SummaryResponse, ser_summary cd response)] \<and>
            hd_request_id (sr_header response) = 99 \<and> hd_timestamp_ms (sr_header response) = 55555 \<and>
            sr_active_session_count response = 3 \<and> sr_total_rx_bytes response = 6000 \<and>
            sr_total_tx_bytes response = 3000 \<and> sr_idle_disconnect_count response = 11 \<and>
            sr_server_mode response = SERVER_MODE_RIO \<and> sr_result response = RESULT_CODE_OK))"

definition Handle_SessionListRequest_Pagination :: "codec \<Rightarrow> byte list \<Rightarrow> int \<Rightarrow> int \<Rightarrow> bool" where
  "Handle_SessionListRequest_Pagination cd body steady wall \<longleftrightarrow>
     (let request = \<lparr>lr_header = \<lparr>hd_request_id = 3, hd_timestamp_ms = 0\<rparr>, lr_offset = 2, lr_limit = 3\<rparr>;
          cd1 = cd\<lparr>parse_list := (parse_list cd)(body := Some request)\<rparr>;
          packet = Packet_of_content kPacketId_SessionListReq body;
          (handled, session) = ah_handle cd1 SM_IOCP (MakeMocks 5 1000 500) 0 steady wall packet FakeSession_default
      in handled \<and>
         (\<exists>response. fk_sentMessages session = [(kPacketId_SessionListRes, ser_list cd response)] \<and>
            ls_total response = 5 \<and> ls_offset response = 2 \<and> length (ls_sessions response) = 3))"

definition Handle_MalformedPacket_LogsError :: "codec \<Rightarrow> int \<Rightarrow> int \<Rightarrow> bool" where
  "Handle_MalformedPacket_LogsError cd steady wall \<longleftrightarrow>
     (let badBody = [0x0F, 0xFF, 0xFF, 0xFF, 0xFF];
          cd1 = cd\<lparr>parse_summary := (parse_summary cd)(badBody := None)\<rparr>;
          packet = Packet_of_content kPacketId_SummaryRequest badBody;
          (handled, session) = ah_handle cd1 SM_IOCP [] 0 steady wall packet FakeSession_default
      in handled \<and> fk_sentMessages session = [])"

lemma payload_of_content [simp]: "m_Payload (Packet_of_content i b) = b" "GetPacketId (Packet_of_content i b) = i"
  by (simp_all add: Packet_of_content_def MakeRawBinaries_def GetPacketId_def Let_def)

lemmas ah_defs = ah_handle_def AdminPacketHandler_HandlePacket_def HandleSummaryRequest_def HandleSessionListRequest_def
  Let_def FakeSession_default_def FakeSession_SendMessage_def admin_ids

lemma summary_of_mocks:
  "SnapshotSummary steady wall (Provides (MakeMocks 3 1000 500)) (Some idle) None (ServerStatsCollector_ctor mode steady) =
     \<lparr>sd_uptimeMs = 0, sd_activeSessionCount = 3, sd_totalRxBytes = 6000, sd_totalTxBytes = 3000,
      sd_idleDisconnectCount = idle, sd_serverMode = mode, sd_processMemoryBytes = 0, sd_processCpuPercent = 0,
      sd_serverTimestampMs = wall\<rparr>"
  by (simp add: SnapshotSummary_def ServerStatsCollector_ctor_def Let_def MakeMocks_def numeral_3_eq_3 upt_rec)

lemma handler_tests:
  "Handle_NonAdminPacket_ReturnsFalse cd steady wall" "Handle_SummaryRequest_SendsResponse cd body steady wall"
  "Handle_SummaryResponse_FieldsPopulated cd body steady wall" "Handle_MalformedPacket_LogsError cd steady wall"
  subgoal by (simp add: Handle_NonAdminPacket_ReturnsFalse_def ah_defs IsAdminPacketId_def)
  subgoal by (simp add: Handle_SummaryRequest_SendsResponse_def ah_defs)
  subgoal by (auto simp: Handle_SummaryResponse_FieldsPopulated_def ah_defs summary_of_mocks)
  subgoal by (simp add: Handle_MalformedPacket_LogsError_def ah_defs)
  done

lemma pagination_test: "Handle_SessionListRequest_Pagination cd body steady wall"
proof -
  have page: "SnapshotSessions (Provides (MakeMocks 5 1000 500)) 2 3 =
    \<lparr>sl_total = 5, SessionListData.sl_offset = 2, sl_sessions = list_page (MakeMocks 5 1000 500) 2 3\<rparr>"
    by (simp add: SnapshotSessions_def Let_def kMaxLimit_def min_def)
  have ids: "kPacketId_SessionListReq \<noteq> kPacketId_SummaryRequest"
    by (simp add: kPacketId_SessionListReq_def kPacketId_SummaryRequest_def)
  show ?thesis
    by (auto simp: Handle_SessionListRequest_Pagination_def ah_defs ids page mocks_page)
qed

section \<open>The slice pool\<close>

text \<open>\<open>VirtualAlloc\<close> grants the block and \<open>RIORegisterBuffer\<close> answers with the id \<open>i\<close>, as the
  tests ask of the machine they run on.\<close>

definition pool_init :: "nat \<Rightarrow> u32 \<Rightarrow> bool \<times> RioBufferManager" where
  "pool_init i poolSize = RioBufferManager_Initialize True (Some i) poolSize RioBufferManager_default"

definition TestPoolInitialization :: "nat \<Rightarrow> bool" where
  "TestPoolInitialization i \<longleftrightarrow> fst (pool_init i (64 * 1024 * 1024))"

definition TestSliceAllocation :: "nat \<Rightarrow> bool" where
  "TestSliceAllocation i \<longleftrightarrow>
     (let (ok0, manager) = pool_init i (1024 * 1024);
          (result1, slice1, manager1) = RioBufferManager_AllocateSlice 1024 RioBufferSlice_default manager;
          (result2, slice2, manager2) = RioBufferManager_AllocateSlice 2048 RioBufferSlice_default manager1
      in ok0 \<and> result1 \<and> sl_BufferId slice1 \<noteq> None \<and> RioBufferSlice.sl_Offset slice1 = 0 \<and>
         sl_Length slice1 = 1024 \<and> result2 \<and> sl_BufferId slice1 = sl_BufferId slice2 \<and>
         RioBufferSlice.sl_Offset slice2 = 1024 \<and> bm_pBuffer manager2 \<noteq> None)"

definition TestPoolExhaustion :: "nat \<Rightarrow> bool" where
  "TestPoolExhaustion i \<longleftrightarrow>
     (let (ok0, manager) = pool_init i 4096;
          (result1, slice1, manager1) = RioBufferManager_AllocateSlice 4096 RioBufferSlice_default manager;
          (result2, slice2, manager2) = RioBufferManager_AllocateSlice 1 slice1 manager1
      in ok0 \<and> result1 \<and> \<not> result2)"

definition TestDeallocateAndReuse :: "nat \<Rightarrow> bool" where
  "TestDeallocateAndReuse i \<longleftrightarrow>
     (let (ok0, m0) = pool_init i 4096;
          (ok1, slice, m1) = RioBufferManager_AllocateSlice 4096 RioBufferSlice_default m0;
          (ok2, slice2, m2) = RioBufferManager_AllocateSlice 4096 RioBufferSlice_default m1;
          m3 = RioBufferManager_DeallocateSlice slice m2;
          (ok4, reusedSlice, m4) = RioBufferManager_AllocateSlice 4096 RioBufferSlice_default m3
      in ok0 \<and> ok1 \<and> RioBufferManager_GetAllocatedCount m1 = 1 \<and> RioBufferManager_GetFreeCount m1 = 0 \<and> \<not> ok2 \<and>
         RioBufferManager_GetAllocatedCount m3 = 0 \<and> RioBufferManager_GetFreeCount m3 = 1 \<and>
         ok4 \<and> RioBufferManager_GetAllocatedCount m4 = 1 \<and> RioBufferManager_GetFreeCount m4 = 0 \<and>
         RioBufferSlice.sl_Offset slice = RioBufferSlice.sl_Offset reusedSlice \<and> sl_Length slice = sl_Length reusedSlice \<and>
         sl_pData slice = sl_pData reusedSlice)"

definition TestMultipleDeallocateReuse :: "nat \<Rightarrow> bool" where
  "TestMultipleDeallocateReuse i \<longleftrightarrow>
     (let (ok0, m0) = pool_init i 8192;
          (ok1, s1, m1) = RioBufferManager_AllocateSlice 4096 RioBufferSlice_default m0;
          (ok2, s2, m2) = RioBufferManager_AllocateSlice 4096 RioBufferSlice_default m1;
          m4 = RioBufferManager_DeallocateSlice s2 (RioBufferManager_DeallocateSlice s1 m2);
          (ok5, r1, m5) = RioBufferManager_AllocateSlice 4096 RioBufferSlice_default m4
      in ok0 \<and> ok1 \<and> ok2 \<and> RioBufferManager_GetAllocatedCount m2 = 2 \<and>
         RioBufferManager_GetAllocatedCount m4 = 0 \<and> RioBufferManager_GetFreeCount m4 = 2 \<and>
         ok5 \<and> RioBufferManager_GetAllocatedCount m5 = 1 \<and> RioBufferManager_GetFreeCount m5 = 1)"

definition TestAlignmentCheck :: "nat \<Rightarrow> bool" where
  "TestAlignmentCheck i \<longleftrightarrow>
     (let (ok0, m0) = pool_init i 8192;
          (_, slice1, m1) = RioBufferManager_AllocateSlice 123 RioBufferSlice_default m0;
          (_, slice2, m2) = RioBufferManager_AllocateSlice 100 RioBufferSlice_default m1
      in ok0 \<and> RioBufferSlice.sl_Offset slice1 + sl_Length slice1 = RioBufferSlice.sl_Offset slice2)"

definition RioBufferManagerTests :: "nat \<Rightarrow> bool" where
  "RioBufferManagerTests i \<longleftrightarrow>
     TestPoolInitialization i \<and> TestSliceAllocation i \<and> TestPoolExhaustion i \<and> TestDeallocateAndReuse i \<and>
     TestMultipleDeallocateReuse i \<and> TestAlignmentCheck i"

lemmas pool_test_defs = pool_init_def RioBufferManager_Initialize_def RioBufferManager_default_def bm_log_def
  RioBufferManager_AllocateSlice_def RioBufferManager_DeallocateSlice_def RioBufferManager_GetAllocatedCount_def
  RioBufferManager_GetFreeCount_def Let_def

lemma pool_tests: "RioBufferManagerTests i"
  unfolding RioBufferManagerTests_def
  by (simp add: pool_test_defs TestPoolInitialization_def TestSliceAllocation_def
      TestPoolExhaustion_def TestDeallocateAndReuse_def TestMultipleDeallocateReuse_def TestAlignmentCheck_def)

section \<open>The session container\<close>

definition ForEach_EmptyContainer :: bool where
  "ForEach_EmptyContainer \<longleftrightarrow>
     Container_ForEach (\<lambda>k v n. n + 1) (Container_ctor :: (int, string) Container) (0 :: nat) = 0"

definition ForEach_Iterates_AllEntries :: bool where
  "ForEach_Iterates_AllEntries \<longleftrightarrow>
     (let c1 = snd (Container_Add (1 :: int) ''one'' Container_ctor);
          c2 = snd (Container_Add 2 ''two'' c1);
          c3 = snd (Container_Add 3 ''three'' c2);
          (callCount, observed) = Container_ForEach (\<lambda>k v (n, m). (n + 1, m(k \<mapsto> v))) c3 (0 :: nat, Map.empty)
      in callCount = 3 \<and> observed 1 = Some ''one'' \<and> observed 2 = Some ''two'' \<and> observed 3 = Some ''three'')"

definition Snapshot_ReturnsIndependentCopy :: bool where
  "Snapshot_ReturnsIndependentCopy \<longleftrightarrow>
     (let c1 = snd (Container_Add (1 :: int) ''a'' Container_ctor);
          c2 = snd (Container_Add 2 ''b'' c1);
          snapshot = Container_Snapshot c2;
          (removed, c3) = Container_Remove 1 c2
      in length snapshot = 2 \<and> removed \<and> Container_Size c3 = 1 \<and> length snapshot = 2 \<and>
         map_of snapshot 1 = Some ''a'' \<and> map_of snapshot 2 = Some ''b'')"

text \<open>The pointers of C-05 are heap addresses, their targets in \<open>heap\<close>; the reference counts
  are not modelled.\<close>

definition Snapshot_WithSharedPtrValues :: bool where
  "Snapshot_WithSharedPtrValues \<longleftrightarrow>
     (let heap = [100, 200] :: int list;
          c1 = snd (Container_Add (1 :: u64) (0 :: nat) Container_ctor);
          c2 = snd (Container_Add 2 1 c1);
          snapshot = Container_Snapshot c2;
          c3 = snd (Container_Remove 1 c2)
      in length snapshot = 2 \<and> list_all (\<lambda>(k, p). k = 1 \<longrightarrow> heap ! p = 100) snapshot \<and> map_of c3 1 = None)"

definition ContainerTests :: bool where
  "ContainerTests \<longleftrightarrow>
     ForEach_EmptyContainer \<and> ForEach_Iterates_AllEntries \<and> Snapshot_ReturnsIndependentCopy \<and>
     Snapshot_WithSharedPtrValues"

lemma container_tests: ContainerTests
  by (simp add: ContainerTests_def ForEach_EmptyContainer_def ForEach_Iterates_AllEntries_def
      Snapshot_ReturnsIndependentCopy_def Snapshot_WithSharedPtrValues_def Container_ctor_def Container_Add_def
      Container_Snapshot_def Container_Remove_def Container_Size_def Let_def)

section \<open>The function table and the service of Registered I/O\<close>

text \<open>The tests create a socket \<open>h\<close>, for which \<open>WSAIoctl\<close> answers with the table \<open>t\<close>. The state of
  the extension is static: it is fresh, or what an earlier test left.\<close>

definition RioExtension_default :: RioExtension where
  "RioExtension_default = \<lparr>re_Initialized = False, re_Table = None\<rparr>"

definition TestRioExtensionLoading :: "nat \<Rightarrow> nat \<Rightarrow> bool" where
  "TestRioExtensionLoading h t \<longleftrightarrow>
     (let (result, e) = RioExtension_Initialize (Some t) (Some h) RioExtension_default
      in result \<and> re_Initialized e \<and> re_Table e \<noteq> None)"

definition TestRioExtensionDoubleInitialization :: "nat \<Rightarrow> nat \<Rightarrow> RioExtension \<Rightarrow> bool" where
  "TestRioExtensionDoubleInitialization h t e0 \<longleftrightarrow>
     (let (_, e1) = RioExtension_Initialize (Some t) (Some h) e0;
          (result, e2) = RioExtension_Initialize (Some t) (Some h) e1
      in result \<and> re_Initialized e2)"

definition TestRioExtensionInvalidSocket :: "nat \<Rightarrow> RioExtension \<Rightarrow> bool" where
  "TestRioExtensionInvalidSocket t e0 \<longleftrightarrow>
     (let (result, e1) = RioExtension_Initialize (Some t) None e0
      in if \<not> re_Initialized e1 then \<not> result else True)"

definition RioFoundationTests :: "nat \<Rightarrow> nat \<Rightarrow> RioExtension \<Rightarrow> bool" where
  "RioFoundationTests h t e \<longleftrightarrow>
     TestRioExtensionLoading h t \<and> TestRioExtensionDoubleInitialization h t e \<and> TestRioExtensionInvalidSocket t e"

text \<open>The tests of the service assert that \<open>Stop\<close> returns: every worker that was started has been
  joined, and the queue \<open>cq\<close> is closed after that.\<close>

definition TestCQCreation :: "nat \<Rightarrow> bool" where
  "TestCQCreation cq \<longleftrightarrow>
     (let (result, s, tr) = RIOService_Initialize (Some cq) 1024 (RIOService_default, [])
      in result \<and> rs_CQ s \<noteq> None)"

definition started_and_stopped :: "nat \<Rightarrow> nat \<Rightarrow> bool \<times> RIOService \<times> rio_service_event list" where
  "started_and_stopped cq threads =
     (let (result, st) = RIOService_Initialize (Some cq) 1024 (RIOService_default, []);
          (_, st1) = RIOService_Start threads st
      in (result, RIOService_Stop st1))"

definition TestServiceStartStop :: "nat \<Rightarrow> bool" where
  "TestServiceStartStop cq \<longleftrightarrow>
     (let (result, s, tr) = started_and_stopped cq 2
      in result \<and> rs_WorkerThreads s = 0 \<and>
         tr = [Rs_CreateCompletionQueue 1024, Rs_SpawnWorker, Rs_SpawnWorker, Rs_JoinWorker, Rs_JoinWorker,
               Rs_CloseCompletionQueue cq])"

definition TestGracefulShutdown :: "nat \<Rightarrow> bool" where
  "TestGracefulShutdown cq \<longleftrightarrow>
     (let (result, s, tr) = started_and_stopped cq 1
      in \<not> rs_bIsRunning s \<and> tr = [Rs_CreateCompletionQueue 1024, Rs_SpawnWorker, Rs_JoinWorker, Rs_CloseCompletionQueue cq])"

definition RioServiceTests :: "nat \<Rightarrow> bool" where
  "RioServiceTests cq \<longleftrightarrow> TestCQCreation cq \<and> TestServiceStartStop cq \<and> TestGracefulShutdown cq"

lemma rio_tests: "RioFoundationTests h t e" "RioServiceTests cq"
  by (auto simp: RioFoundationTests_def TestRioExtensionLoading_def TestRioExtensionDoubleInitialization_def
      TestRioExtensionInvalidSocket_def RioExtension_Initialize_def RioExtension_default_def RioServiceTests_def
      TestCQCreation_def TestServiceStartStop_def TestGracefulShutdown_def started_and_stopped_def RIOService_default_def
      RIOService_Initialize_def RIOService_Start_def RIOService_Stop_def Let_def numeral_2_eq_2 split: option.splits)

section \<open>All of them\<close>

definition ServerStatsCollectorTests :: "int \<Rightarrow> int \<Rightarrow> nat \<Rightarrow> bool" where
  "ServerStatsCollectorTests steady wall longer \<longleftrightarrow>
     Summary_EmptyProvider steady wall \<and> Summary_ThreeSessions_Aggregated steady wall \<and>
     Summary_UptimeIncreasesOverTime steady wall longer \<and> Summary_IdleCountFromProvider steady wall \<and>
     Summary_NoSampler_CpuMemoryZero steady wall \<and> SessionList_OffsetLimit_Paging \<and> SessionList_LimitClamp \<and>
     SessionList_OffsetOverflow_EmptyResult"

definition AdminPacketHandlerTests :: "codec \<Rightarrow> byte list \<Rightarrow> int \<Rightarrow> int \<Rightarrow> bool" where
  "AdminPacketHandlerTests cd body steady wall \<longleftrightarrow>
     Handle_NonAdminPacket_ReturnsFalse cd steady wall \<and> Handle_SummaryRequest_SendsResponse cd body steady wall \<and>
     Handle_SummaryResponse_FieldsPopulated cd body steady wall \<and>
     Handle_SessionListRequest_Pagination cd body steady wall \<and> Handle_MalformedPacket_LogsError cd steady wall"

text \<open>On the model, every test of \<open>ServerStatsCollectorTests.cpp\<close>, \<open>AdminPacketHandlerTests.cpp\<close>,
  \<open>RioBufferManagerTests.cpp\<close>, \<open>RioFoundationTests.cpp\<close> and \<open>RioServiceTests.cpp\<close>, and every
  single-threaded test of \<open>ContainerTests.cpp\<close>, passes: whatever the clocks show, however long a sleep
  overruns, whatever the protobuf codec does with other bytes than the test's, and whatever ids,
  handles and tables Windows hands out.\<close>

theorem service_suites_pass:
  "ServerStatsCollectorTests steady wall longer \<and> AdminPacketHandlerTests cd body steady wall \<and>
   RioBufferManagerTests i \<and> RioFoundationTests h t e \<and> RioServiceTests cq \<and> ContainerTests"
  by (simp add: ServerStatsCollectorTests_def AdminPacketHandlerTests_def collector_tests paging_test clamp_test
      handler_tests pagination_test pool_tests container_tests rio_tests)

end
