(* ===== verification/Conformance_Timers.thy ===== *)
theory Conformance_Timers
  imports Periodic_Jobs
begin

text \<open>
  The unit tests of the timer queue and of the two jobs on it (\<open>TimerQueueTests.cpp\<close>,
  \<open>SessionIdleCheckerTests.cpp\<close>, \<open>StatsSamplerTests.cpp\<close>). The tests sleep while the thread pool
  of Windows makes its callbacks; here a sleep is the list of the callbacks it makes meanwhile:
  one for a single-shot timer that comes due, and for a periodic timer as many as the argument
  \<open>n\<close> says: how often Windows fires within a sleep is not the program's. What a test asserts of
  its counter then says that the queue runs the job once for each callback while the timer is
  registered and not at all afterwards, when any number of stale ones (\<open>late\<close>) may still
  arrive. Each test has a queue of its own, where
  the code's tests share the process's one and keep apart by their ids.
\<close>

section \<open>The thread pool's callbacks\<close>

definition grants :: "tp_event list \<Rightarrow> bool" where
  "grants tr = True"

definition pool_fires :: "(nat \<Rightarrow> TimerQueue \<Rightarrow> TimerQueue) \<Rightarrow> nat list \<Rightarrow> TimerQueue \<Rightarrow> TimerQueue" where
  "pool_fires invoke ps q = fold (\<lambda>p. TpTimerCallback invoke (Some p)) ps q"

text \<open>The jobs of the tests add one to a counter: their number of runs is read off the trace.\<close>

definition runs :: "nat \<Rightarrow> TimerQueue \<Rightarrow> nat" where
  "runs p q = length (filter ((=) (TpInvoke p)) (tq_Trace q))"

definition CountingCommand_Execute :: "nat \<Rightarrow> TimerQueue \<Rightarrow> TimerQueue" where
  "CountingCommand_Execute p q = q"

lemma pool_fires_simps [simp]:
  "pool_fires invoke [] q = q"
  "pool_fires invoke (p # ps) q = pool_fires invoke ps (RunEntry invoke p q)"
  by (simp_all add: pool_fires_def TpTimerCallback_def)

text \<open>A callback of a cancelled entry does nothing at all.\<close>

lemma RunEntry_cancelled: "e_state (tq_Heap q ! p) = Cancelled \<Longrightarrow> RunEntry invoke p q = q"
  by (simp add: RunEntry_def Let_def)

lemma late_callbacks: "e_state (tq_Heap q ! p) = Cancelled \<Longrightarrow> pool_fires invoke (replicate n p) q = q"
  by (induction n) (simp_all add: RunEntry_cancelled)

section \<open>The timer queue\<close>

definition ScheduleOnce_ReturnsValidId :: bool where
  "ScheduleOnce_ReturnsValidId \<longleftrightarrow>
     (let (tid, q) = ScheduleOnce grants 50 0 ''U01-ReturnsValidId'' TimerQueue_ctor;
          q1 = pool_fires CountingCommand_Execute [0] q
      in tid \<noteq> kInvalidTimerId \<and> runs 0 q1 = 1)"

definition ScheduleOnce_RunsExactlyOnce :: bool where
  "ScheduleOnce_RunsExactlyOnce \<longleftrightarrow>
     (let (tid, q) = ScheduleOnce grants 30 0 ''U02-RunsOnce'' TimerQueue_ctor
      in runs 0 (pool_fires CountingCommand_Execute [0] q) = 1)"

definition SchedulePeriodic_FiresMultipleTimes :: "nat \<Rightarrow> bool" where
  "SchedulePeriodic_FiresMultipleTimes n \<longleftrightarrow>
     (let (tid, q) = SchedulePeriodic grants 50 0 ''U03-Periodic'' TimerQueue_ctor;
          q1 = pool_fires CountingCommand_Execute (replicate n 0) q;
          fires = runs 0 q1;
          q2 = snd (TimerQueue_Cancel tid q1)
      in fires \<ge> 3 \<and> fires < 15)"

definition MultipleTimers_Independent :: bool where
  "MultipleTimers_Independent \<longleftrightarrow>
     (let (tidA, q) = ScheduleOnce grants 30 0 ''U04-A'' TimerQueue_ctor;
          (tidB, q1) = ScheduleOnce grants 30 1 ''U04-B'' q
      in list_all (\<lambda>order. let q2 = pool_fires CountingCommand_Execute order q1
                           in runs 0 q2 = 1 \<and> runs 1 q2 = 1) [[0, 1], [1, 0]])"

definition Command_Execute :: bool where
  "Command_Execute \<longleftrightarrow>
     (let (tid, q) = ScheduleOnce_cmd grants 30 (Some (0, ''U05-CommandCounter'')) TimerQueue_ctor;
          q1 = pool_fires CountingCommand_Execute [0] q
      in tid \<noteq> kInvalidTimerId \<and> runs 0 q1 = 1)"

definition Command_NullPtr_ReturnsInvalid :: bool where
  "Command_NullPtr_ReturnsInvalid \<longleftrightarrow> fst (ScheduleOnce_cmd grants 10 None TimerQueue_ctor) = kInvalidTimerId"

definition Command_SchedulePeriodic :: "nat \<Rightarrow> bool" where
  "Command_SchedulePeriodic n \<longleftrightarrow>
     (let (tid, q) = SchedulePeriodic_cmd grants 50 (Some (0, ''U07-PeriodicCommand'')) TimerQueue_ctor;
          q1 = pool_fires CountingCommand_Execute (replicate n 0) q;
          fires = runs 0 q1;
          q2 = snd (TimerQueue_Cancel tid q1)
      in tid \<noteq> kInvalidTimerId \<and> fires \<ge> 3)"

definition Cancel_PendingTimer_ReturnsTrue :: "nat \<Rightarrow> bool" where
  "Cancel_PendingTimer_ReturnsTrue late \<longleftrightarrow>
     (let (tid, q) = ScheduleOnce grants 500 0 ''U08-CancelPending'' TimerQueue_ctor;
          (cancelled, q1) = TimerQueue_Cancel tid q;
          q2 = pool_fires CountingCommand_Execute (replicate late 0) q1
      in tid \<noteq> kInvalidTimerId \<and> cancelled \<and> runs 0 q2 = 0)"

definition Cancel_InvalidId_ReturnsFalse :: bool where
  "Cancel_InvalidId_ReturnsFalse \<longleftrightarrow>
     (let (cancelled, q) = TimerQueue_Cancel kInvalidTimerId TimerQueue_ctor;
          (cancelledPhantom, q1) = TimerQueue_Cancel 9999999999 q
      in \<not> cancelled \<and> \<not> cancelledPhantom)"

definition Cancel_DoubleCancel_SecondReturnsFalse :: bool where
  "Cancel_DoubleCancel_SecondReturnsFalse \<longleftrightarrow>
     (let (tid, q) = ScheduleOnce grants 1000 0 ''U10-DoubleCancel'' TimerQueue_ctor;
          (first, q1) = TimerQueue_Cancel tid q;
          (second, q2) = TimerQueue_Cancel tid q1
      in first \<and> \<not> second)"

definition Cancel_Periodic_StopsFiring :: "nat \<Rightarrow> nat \<Rightarrow> bool" where
  "Cancel_Periodic_StopsFiring n late \<longleftrightarrow>
     (let (tid, q) = SchedulePeriodic grants 40 0 ''U11-CancelPeriodic'' TimerQueue_ctor;
          q1 = pool_fires CountingCommand_Execute (replicate n 0) q;
          q2 = snd (TimerQueue_Cancel tid q1);
          q3 = pool_fires CountingCommand_Execute (replicate late 0) q2
      in runs 0 q1 \<ge> 3 \<and> runs 0 q3 - runs 0 q1 \<le> 1)"

text \<open>What a callback does to a scheduled entry, and a fresh queue with its first timer.\<close>

definition ran :: "nat \<Rightarrow> TimerQueue \<Rightarrow> TimerQueue" where
  "ran p q = tp_log (TpReturn p) (tp_log (TpInvoke p) q)"

lemma ran_fields [simp]:
  "tq_Heap (ran p q) = tq_Heap q" "tq_Entries (ran p q) = tq_Entries q" "tq_QueueState (ran p q) = tq_QueueState q"
  "tq_Current (ran p q) = tq_Current q" "tq_Trace (ran p q) = tq_Trace q @ [TpInvoke p, TpReturn p]"
  by (simp_all add: ran_def)

lemma once_fires:
  assumes "p < length (tq_Heap q)" "e_state (tq_Heap q ! p) = Scheduled" "\<not> e_isPeriodic (tq_Heap q ! p)"
    "\<not> e_closeAfterCallback (tq_Heap q ! p)"
  shows "RunEntry CountingCommand_Execute p q = set_entry p ((tq_Heap q ! p)\<lparr>e_state := Completed\<rparr>) (ran p q)"
  using assms by (simp add: ran_def RunEntry_def Let_def CountingCommand_Execute_def set_entry_def tp_log_def)

lemma periodic_fires:
  assumes "p < length (tq_Heap q)" "e_state (tq_Heap q ! p) = Scheduled" "e_isPeriodic (tq_Heap q ! p)"
    "\<not> e_closeAfterCallback (tq_Heap q ! p)"
  shows "RunEntry CountingCommand_Execute p q = ran p q"
proof -
  have same: "(tq_Heap q)[p := (tq_Heap q ! p)\<lparr>e_state := Scheduled\<rparr>] = tq_Heap q"
    unfolding assms(2)[symmetric] by simp
  show ?thesis
    using assms by (simp add: ran_def RunEntry_def Let_def CountingCommand_Execute_def set_entry_def tp_log_def same)
qed

lemma periodic_fires_many:
  assumes "p < length (tq_Heap q)" "e_state (tq_Heap q ! p) = Scheduled" "e_isPeriodic (tq_Heap q ! p)"
    "\<not> e_closeAfterCallback (tq_Heap q ! p)"
  shows "pool_fires CountingCommand_Execute (replicate n p) q = q\<lparr>tq_Trace := tq_Trace q @ concat (replicate n [TpInvoke p, TpReturn p])\<rparr>"
  using assms
proof (induction n arbitrary: q)
  case (Suc n)
  then show ?case by (simp add: periodic_fires ran_def tp_log_def)
qed simp

definition one_timer :: "int \<Rightarrow> TimerJob \<Rightarrow> bool \<Rightarrow> int \<Rightarrow> TimerQueue" where
  "one_timer delay job isPeriodic interval =
     \<lparr>tq_Heap = [\<lparr>e_id = 1, e_handle = Some 0, e_job = job, e_state = Scheduled, e_isPeriodic = isPeriodic,
                  e_interval = interval, e_closeAfterCallback = False\<rparr>],
      tq_Entries = [(1, 0)], tq_NextId = 2, tq_QueueState = QRunning, tq_Current = None,
      tq_Trace = [TpCreate 0, TpSet 0 (MakeRelativeDueTime delay) (if isPeriodic then word_of_int (max 0 interval) else 0)]\<rparr>"

lemma schedule_first:
  "ScheduleImpl grants delay job isPeriodic interval TimerQueue_ctor = (1, one_timer delay job isPeriodic interval)"
  by (simp add: ScheduleImpl_def TimerQueue_ctor_def grants_def AllocateId_def tp_log_def set_entry_def Let_def one_timer_def)

lemma one_timer_simps [simp]:
  "tq_Heap (one_timer d j per iv) = [\<lparr>e_id = 1, e_handle = Some 0, e_job = j, e_state = Scheduled, e_isPeriodic = per,
     e_interval = iv, e_closeAfterCallback = False\<rparr>]"
  "runs p (one_timer d j per iv) = 0"
  by (simp_all add: one_timer_def runs_def)

lemma runs_simps [simp]:
  "runs p (set_entry r e1 q) = runs p q"
  "runs p (tp_log e q) = runs p q + (if e = TpInvoke p then 1 else 0)"
  "runs p (q\<lparr>tq_Trace := tq_Trace q @ tr\<rparr>) = runs p q + length (filter ((=) (TpInvoke p)) tr)"
  "runs p (ran r q) = runs p q + (if r = p then 1 else 0)"
  by (auto simp: runs_def set_entry_def tp_log_def)

lemma runs_counted [simp]: "length (filter ((=) (TpInvoke p)) (concat (replicate n [TpInvoke p, TpReturn p]))) = n"
  by (induction n) simp_all

lemmas schedule_defs = ScheduleOnce_cmd_def SchedulePeriodic_cmd_def ScheduleOnce_def SchedulePeriodic_def Let_def
  schedule_first

lemmas cancel_defs = TimerQueue_Cancel_def CancelImpl_def IsCurrentCallbackEntry_def one_timer_def set_entry_def tp_log_def

lemma schedule_tests:
  ScheduleOnce_ReturnsValidId ScheduleOnce_RunsExactlyOnce Command_Execute Command_NullPtr_ReturnsInvalid
  by (simp_all add: ScheduleOnce_ReturnsValidId_def ScheduleOnce_RunsExactlyOnce_def
      Command_Execute_def Command_NullPtr_ReturnsInvalid_def schedule_defs once_fires)

lemma two_timers_test: MultipleTimers_Independent
proof -
  obtain q where q: "ScheduleImpl grants 30 \<lparr>job_invoke = 1, job_name = ''U04-B''\<rparr> False 0 (one_timer 30 \<lparr>job_invoke = 0, job_name = ''U04-A''\<rparr> False 0) = (2, q)"
    "length (tq_Heap q) = 2" "runs 0 q = 0" "runs 1 q = 0"
    "\<forall>p < 2. e_state (tq_Heap q ! p) = Scheduled \<and> \<not> e_isPeriodic (tq_Heap q ! p) \<and> \<not> e_closeAfterCallback (tq_Heap q ! p)"
    by (simp add: ScheduleImpl_def grants_def AllocateId_def one_timer_def Let_def less_2_cases_iff runs_def tp_log_def set_entry_def)
  then show ?thesis
    by (simp add: MultipleTimers_Independent_def schedule_defs once_fires)
qed

lemma periodic_tests:
  "3 \<le> n \<Longrightarrow> n < 15 \<Longrightarrow> SchedulePeriodic_FiresMultipleTimes n" "3 \<le> n \<Longrightarrow> Command_SchedulePeriodic n"
  by (simp_all add: SchedulePeriodic_FiresMultipleTimes_def Command_SchedulePeriodic_def schedule_defs periodic_fires_many)

lemma cancel_tests:
  Cancel_InvalidId_ReturnsFalse Cancel_DoubleCancel_SecondReturnsFalse "Cancel_PendingTimer_ReturnsTrue late"
  "3 \<le> n \<Longrightarrow> Cancel_Periodic_StopsFiring n late"
  subgoal by (simp add: Cancel_InvalidId_ReturnsFalse_def cancel_defs TimerQueue_ctor_def)
  subgoal by (simp add: Cancel_DoubleCancel_SecondReturnsFalse_def schedule_defs cancel_defs)
  subgoal by (simp add: Cancel_PendingTimer_ReturnsTrue_def schedule_defs cancel_defs late_callbacks runs_def)
  subgoal by (simp add: Cancel_Periodic_StopsFiring_def schedule_defs periodic_fires_many cancel_defs late_callbacks runs_def)
  done

section \<open>Owners, shutdown and callbacks that cancel\<close>

definition ScopedTimer_DestructorCancelsTimer :: "nat \<Rightarrow> bool" where
  "ScopedTimer_DestructorCancelsTimer late \<longleftrightarrow>
     (let (tid, q) = ScheduleOnce grants 500 0 ''U12-Scoped'' TimerQueue_ctor;
          scoped = ScopedTimer_ctor tid;
          q1 = ScopedTimer_dtor scoped q;
          q2 = pool_fires CountingCommand_Execute (replicate late 0) q1
      in tid \<noteq> kInvalidTimerId \<and> ScopedTimer_IsValid scoped \<and> ScopedTimer_Get scoped = tid \<and> runs 0 q2 = 0)"

definition ScopedTimer_ReleasePreservesTimer :: bool where
  "ScopedTimer_ReleasePreservesTimer \<longleftrightarrow>
     (let (tid, q) = ScheduleOnce grants 150 0 ''U13-Release'' TimerQueue_ctor;
          (released, scoped) = ScopedTimer_Release (ScopedTimer_ctor tid);
          q1 = ScopedTimer_dtor scoped q;
          q2 = pool_fires CountingCommand_Execute [0] q1
      in released = tid \<and> \<not> ScopedTimer_IsValid scoped \<and> runs 0 q2 = 1)"

definition ScopedTimer_MoveTransfersOwnership :: bool where
  "ScopedTimer_MoveTransfersOwnership \<longleftrightarrow>
     (let (tid, q) = ScheduleOnce grants 500 0 ''U14-Move'' TimerQueue_ctor;
          (moved, original) = ScopedTimer_move (ScopedTimer_ctor tid)
      in \<not> ScopedTimer_IsValid original \<and> ScopedTimer_IsValid moved \<and> ScopedTimer_Get moved = tid)"

definition Shutdown_CancelsAllActiveTimers :: "nat \<Rightarrow> nat list \<Rightarrow> bool" where
  "Shutdown_CancelsAllActiveTimers n late \<longleftrightarrow>
     (let (id1, q) = ScheduleOnce grants 500 0 ''U15-A'' TimerQueue_ctor;
          (id2, q1) = SchedulePeriodic grants 100 1 ''U15-B'' q;
          q2 = pool_fires CountingCommand_Execute (replicate n 1) q1;
          beforeShutdown = runs 0 q2 + runs 1 q2;
          q3 = pool_fires CountingCommand_Execute (map (\<lambda>n. n mod 2) late) (TimerQueue_Shutdown True q2);
          afterShutdown = runs 0 q3 + runs 1 q3
      in id1 \<noteq> kInvalidTimerId \<and> id2 \<noteq> kInvalidTimerId \<and> afterShutdown - beforeShutdown \<le> 1)"

definition Shutdown_BlocksNewSchedule :: bool where
  "Shutdown_BlocksNewSchedule \<longleftrightarrow>
     (let (tid, q) = ScheduleOnce grants 30 0 ''U16-AfterShutdown'' (TimerQueue_Shutdown True TimerQueue_ctor)
      in tid = kInvalidTimerId \<and> runs 0 q = 0)"

text \<open>The test asserts only that nothing crashes; here the further calls change nothing.\<close>

definition Shutdown_Idempotent :: bool where
  "Shutdown_Idempotent \<longleftrightarrow>
     (let q = TimerQueue_Shutdown True TimerQueue_ctor
      in TimerQueue_Shutdown False (TimerQueue_Shutdown True q) = q)"

definition Destructor_CleansUpActiveTimers :: "nat \<Rightarrow> nat \<Rightarrow> bool" where
  "Destructor_CleansUpActiveTimers n late \<longleftrightarrow>
     (let (tid, q) = SchedulePeriodic grants 50 0 ''U18-Dtor'' TimerQueue_ctor;
          q1 = TimerQueue_dtor (pool_fires CountingCommand_Execute (replicate n 0) q);
          q2 = pool_fires CountingCommand_Execute (replicate late 0) q1
      in runs 0 q1 = runs 0 q2)"

text \<open>The callback cancels its own timer in its second run.\<close>

definition self_cancel :: "TimerId \<Rightarrow> nat \<Rightarrow> TimerQueue \<Rightarrow> TimerQueue" where
  "self_cancel idHolder p q = (if runs p q = 2 then snd (TimerQueue_Cancel idHolder q) else q)"

definition Cancel_SelfCancelInCallback_NoDeadlock :: "nat \<Rightarrow> bool" where
  "Cancel_SelfCancelInCallback_NoDeadlock late \<longleftrightarrow>
     (let (tid, q) = SchedulePeriodic grants 30 0 ''U19-SelfCancel'' TimerQueue_ctor;
          q1 = pool_fires (self_cancel tid) (0 # 0 # replicate late 0) q;
          fires = runs 0 q1
      in fires \<ge> 2 \<and> fires \<le> 4)"

text \<open>The callback destroys the queue it runs on.\<close>

definition Destructor_SelfDestructInCallback_NoDeadlock :: bool where
  "Destructor_SelfDestructInCallback_NoDeadlock \<longleftrightarrow>
     (let (tid, q) = ScheduleOnce grants 30 0 ''U20-SelfDestruct'' TimerQueue_ctor;
          q1 = pool_fires (\<lambda>p. TimerQueue_dtor) [0] q
      in tid \<noteq> kInvalidTimerId \<and> runs 0 q1 = 1 \<and> tq_QueueState q1 = QDead)"

lemmas owner_defs = ScopedTimer_IsValid_def ScopedTimer_Get_def ScopedTimer_ctor_def ScopedTimer_dtor_def
  ScopedTimer_Release_def ScopedTimer_move_def

lemma scoped_tests:
  "ScopedTimer_DestructorCancelsTimer late" ScopedTimer_ReleasePreservesTimer ScopedTimer_MoveTransfersOwnership
  subgoal by (simp add: ScopedTimer_DestructorCancelsTimer_def owner_defs schedule_defs cancel_defs late_callbacks runs_def)
  subgoal by (simp add: ScopedTimer_ReleasePreservesTimer_def owner_defs schedule_defs once_fires)
  subgoal by (simp add: ScopedTimer_MoveTransfersOwnership_def owner_defs schedule_defs)
  done

lemma late_all_cancelled:
  "\<forall>p \<in> set ps. e_state (tq_Heap q ! p) = Cancelled \<Longrightarrow> pool_fires invoke ps q = q"
  by (induction ps) (simp_all add: RunEntry_cancelled)

lemmas shutdown_defs = TimerQueue_Shutdown_def TimerQueue_dtor_def ShutdownImpl_def

lemma shutdown_tests:
  Shutdown_BlocksNewSchedule Shutdown_Idempotent "Destructor_CleansUpActiveTimers n late"
  subgoal by (simp add: Shutdown_BlocksNewSchedule_def shutdown_defs ScheduleOnce_def ScheduleImpl_def TimerQueue_ctor_def runs_def)
  subgoal by (simp add: Shutdown_Idempotent_def shutdown_defs TimerQueue_ctor_def Let_def)
  subgoal by (simp add: Destructor_CleansUpActiveTimers_def shutdown_defs schedule_defs periodic_fires_many cancel_defs late_callbacks)
  done

lemma self_destruct_test: Destructor_SelfDestructInCallback_NoDeadlock
  by (simp add: Destructor_SelfDestructInCallback_NoDeadlock_def shutdown_defs schedule_defs cancel_defs RunEntry_def runs_def)

lemma self_cancel_second_run:
  assumes "runs 0 q = 1" "tq_Heap q = [e]" "e_id e = 1" "e_handle e = Some 0" "e_state e = Scheduled" "e_isPeriodic e"
    "tq_Entries q = [(1, 0)]"
  shows "runs 0 (RunEntry (self_cancel 1) 0 q) = 2 \<and> e_state (tq_Heap (RunEntry (self_cancel 1) 0 q) ! 0) = Cancelled"
  using assms
  by (simp add: RunEntry_def self_cancel_def TimerQueue_Cancel_def CancelImpl_def IsCurrentCallbackEntry_def Let_def
      runs_def set_entry_def tp_log_def)

lemma self_cancel_first_run:
  "RunEntry (self_cancel 1) 0 (one_timer d j True iv) = ran 0 (one_timer d j True iv)"
  by (simp add: ran_def RunEntry_def self_cancel_def one_timer_def set_entry_def tp_log_def runs_def Let_def)

lemma self_cancel_test: "Cancel_SelfCancelInCallback_NoDeadlock late"
proof -
  let ?q = "ran 0 (one_timer 30 \<lparr>job_invoke = 0, job_name = ''U19-SelfCancel''\<rparr> True 30)"
  have "runs 0 (RunEntry (self_cancel 1) 0 ?q) = 2 \<and> e_state (tq_Heap (RunEntry (self_cancel 1) 0 ?q) ! 0) = Cancelled"
    by (rule self_cancel_second_run[where e = "hd (tq_Heap ?q)"]) (simp_all add: one_timer_def runs_def)
  then show ?thesis
    by (simp add: Cancel_SelfCancelInCallback_NoDeadlock_def schedule_defs self_cancel_first_run late_callbacks)
qed

text \<open>Shutting down a queue with two armed timers, while no callback runs, cancels both.\<close>

lemma shutdown_two:
  assumes "tq_Heap q = [a, b]" "tq_Entries q = [(1, 0), (2, 1)]" "tq_QueueState q = QRunning" "tq_Current q = None"
    "e_handle a = Some 0" "e_handle b = Some 1"
  shows "map e_state (tq_Heap (TimerQueue_Shutdown True q)) = [Cancelled, Cancelled] \<and>
    runs p (TimerQueue_Shutdown True q) = runs p q"
  using assms
  by (simp add: shutdown_defs CancelImpl_def IsCurrentCallbackEntry_def Let_def set_entry_def tp_log_def runs_def)

lemma schedule_second:
  "ScheduleImpl grants d' j' per' iv' (one_timer d j per iv) =
     (2, \<lparr>tq_Heap = tq_Heap (one_timer d j per iv) @
            [\<lparr>e_id = 2, e_handle = Some 1, e_job = j', e_state = Scheduled, e_isPeriodic = per', e_interval = iv',
              e_closeAfterCallback = False\<rparr>],
          tq_Entries = [(1, 0), (2, 1)], tq_NextId = 3, tq_QueueState = QRunning, tq_Current = None,
          tq_Trace = tq_Trace (one_timer d j per iv) @
            [TpCreate 1, TpSet 1 (MakeRelativeDueTime d') (if per' then word_of_int (max 0 iv') else 0)]\<rparr>)"
  by (simp add: ScheduleImpl_def one_timer_def grants_def AllocateId_def tp_log_def set_entry_def Let_def)

lemma shutdown_all_test: "Shutdown_CancelsAllActiveTimers n late"
proof -
  obtain q1 where q1: "ScheduleImpl grants 100 \<lparr>job_invoke = 1, job_name = ''U15-B''\<rparr> True 100
      (one_timer 500 \<lparr>job_invoke = 0, job_name = ''U15-A''\<rparr> False 0) = (2, q1)"
    "pool_fires CountingCommand_Execute (replicate n 1) q1 =
       q1\<lparr>tq_Trace := tq_Trace q1 @ concat (replicate n [TpInvoke 1, TpReturn 1])\<rparr>"
    "\<exists>a b. tq_Heap q1 = [a, b] \<and> e_handle a = Some 0 \<and> e_handle b = Some 1"
    "tq_Entries q1 = [(1, 0), (2, 1)]" "tq_QueueState q1 = QRunning" "tq_Current q1 = None"
    by (simp add: schedule_second periodic_fires_many)
  define q2 where "q2 = q1\<lparr>tq_Trace := tq_Trace q1 @ concat (replicate n [TpInvoke 1, TpReturn 1])\<rparr>"
  have two: "map e_state (tq_Heap (TimerQueue_Shutdown True q2)) = [Cancelled, Cancelled] \<and>
      runs p (TimerQueue_Shutdown True q2) = runs p q2" for p
    using q1(3-6) shutdown_two[of q2] by (auto simp: q2_def)
  have st: "e_state (tq_Heap (TimerQueue_Shutdown True q2) ! p) = Cancelled" if "p < 2" for p
    using conjunct1[OF two] that by (auto simp: less_2_cases_iff map_eq_Cons_conv)
  have "pool_fires CountingCommand_Execute (map (\<lambda>n. n mod 2) late) (TimerQueue_Shutdown True q2) = TimerQueue_Shutdown True q2"
    by (rule late_all_cancelled) (auto intro: st)
  then show ?thesis
    using two by (simp add: Shutdown_CancelsAllActiveTimers_def schedule_defs q1(1,2) del: One_nat_def runs_simps flip: q2_def)
qed

text \<open>\<open>n\<close>: how often the pool fires a periodic timer during a sleep; three times at least and fewer
  than fifteen is what the tests themselves expect of Windows.\<close>

definition TimerQueueTests :: "nat \<Rightarrow> nat \<Rightarrow> nat list \<Rightarrow> bool" where
  "TimerQueueTests n late stale \<longleftrightarrow>
     ScheduleOnce_ReturnsValidId \<and> ScheduleOnce_RunsExactlyOnce \<and> SchedulePeriodic_FiresMultipleTimes n \<and>
     MultipleTimers_Independent \<and> Command_Execute \<and> Command_NullPtr_ReturnsInvalid \<and> Command_SchedulePeriodic n \<and>
     Cancel_PendingTimer_ReturnsTrue late \<and> Cancel_InvalidId_ReturnsFalse \<and> Cancel_DoubleCancel_SecondReturnsFalse \<and>
     Cancel_Periodic_StopsFiring n late \<and> ScopedTimer_DestructorCancelsTimer late \<and> ScopedTimer_ReleasePreservesTimer \<and>
     ScopedTimer_MoveTransfersOwnership \<and> Shutdown_CancelsAllActiveTimers n stale \<and> Shutdown_BlocksNewSchedule \<and>
     Shutdown_Idempotent \<and> Destructor_CleansUpActiveTimers n late \<and> Cancel_SelfCancelInCallback_NoDeadlock late \<and>
     Destructor_SelfDestructInCallback_NoDeadlock"

lemma timer_tests: "3 \<le> n \<Longrightarrow> n < 15 \<Longrightarrow> TimerQueueTests n late stale"
  by (simp add: TimerQueueTests_def schedule_tests two_timers_test periodic_tests cancel_tests scoped_tests shutdown_tests
      self_cancel_test shutdown_all_test self_destruct_test)

end
