(* ===== verification/Conformance_Jobs.thy ===== *)
theory Conformance_Jobs
  imports Conformance_Timers
begin

text \<open>
  The unit tests of the two periodic jobs (\<open>SessionIdleCheckerTests.cpp\<close>, \<open>StatsSamplerTests.cpp\<close>):
  the idle checker on a timer queue of its own with mock sessions, and the sampler. A sleep is
  the list \<open>ticks\<close> of the times at which the pool fires within it, any list the tests can pass
  with, each tick after what the test's traffic thread has written by then (its last write is
  \<open>lag\<close> milliseconds old); the machine has been up for more than ten seconds, since the tests
  subtract that much from the clock.
\<close>

section \<open>The mock sessions\<close>

record MockIdleAware =
  mk_lastRecvMs :: int
  mk_disconnectCount :: nat
  mk_lastReason :: DisconnectReason
  mk_throwOnDisconnect :: bool

definition MockIdleAware_default :: MockIdleAware where
  "MockIdleAware_default =
     \<lparr>mk_lastRecvMs = 0, mk_disconnectCount = 0, mk_lastReason = Normal, mk_throwOnDisconnect = False\<rparr>"

definition Mock_GetLastRecvTimeMs :: "MockIdleAware \<Rightarrow> int" where
  "Mock_GetLastRecvTimeMs m = mk_lastRecvMs m"

definition Mock_RequestDisconnect :: "DisconnectReason \<Rightarrow> MockIdleAware \<Rightarrow> bool \<times> MockIdleAware" where
  "Mock_RequestDisconnect reason m =
     (mk_throwOnDisconnect m, m\<lparr>mk_disconnectCount := mk_disconnectCount m + 1, mk_lastReason := reason\<rparr>)"

definition mock_at :: "int \<Rightarrow> MockIdleAware" where
  "mock_at t = MockIdleAware_default\<lparr>mk_lastRecvMs := t\<rparr>"

definition mock_aware :: "(nat, MockIdleAware list) idle_aware" where
  "mock_aware =
     \<lparr>ia_GetLastRecvTimeMs = (\<lambda>r w. Mock_GetLastRecvTimeMs (w ! r)),
      ia_RequestDisconnect = (\<lambda>reason r w.
        let (threw, m) = Mock_RequestDisconnect reason (w ! r) in (threw, w[r := m]))\<rparr>"

text \<open>A tick at time \<open>now\<close>: the traffic thread's writes, then the pool's callback of every
  entry; the callback that passes the queue's own check runs \<open>OnTick\<close>.\<close>

type_synonym rig = "SessionIdleChecker \<times> TimerQueue \<times> MockIdleAware list"

definition rig_callback :: "int \<Rightarrow> nat option list option \<Rightarrow> nat \<Rightarrow> rig \<Rightarrow> rig" where
  "rig_callback now provider p r =
     (let (c, q, w) = r;
          q1 = pool_fires CountingCommand_Execute [p] q
      in if runs p q1 = runs p q then (c, q1, w)
         else let (c1, w1) = SessionIdleChecker_OnTick mock_aware now provider c w in (c1, q1, w1))"

definition rig_sleep ::
  "nat option list option \<Rightarrow> (int \<Rightarrow> MockIdleAware list \<Rightarrow> MockIdleAware list) \<Rightarrow> int list \<Rightarrow> rig \<Rightarrow> rig" where
  "rig_sleep provider traffic ticks r =
     fold (\<lambda>now r. let (c, q, w) = r
                   in fold (rig_callback now provider) [0..<length (tq_Heap q)] (c, q, traffic now w)) ticks r"

definition rig_start :: "IdleCheckerConfig \<Rightarrow> MockIdleAware list \<Rightarrow> rig" where
  "rig_start cfg mocks =
     (let (c, q) = SessionIdleChecker_Start grants 0 (SessionIdleChecker_ctor cfg) TimerQueue_ctor in (c, q, mocks))"

definition rig_stop :: "rig \<Rightarrow> rig" where
  "rig_stop r = (let (c, q, w) = r; (c1, q1) = SessionIdleChecker_Stop c q in (c1, q1, w))"

definition no_traffic :: "int \<Rightarrow> MockIdleAware list \<Rightarrow> MockIdleAware list" where
  "no_traffic now w = w"

text \<open>The traffic thread writes the time of its write every 30 ms; \<open>lag now\<close> is the age of its last
  write at a tick, which the scheduler decides.\<close>

definition trafficThread :: "nat set \<Rightarrow> (int \<Rightarrow> int) \<Rightarrow> int \<Rightarrow> MockIdleAware list \<Rightarrow> MockIdleAware list" where
  "trafficThread rs lag now w =
     map (\<lambda>i. if i \<in> rs then (w ! i)\<lparr>mk_lastRecvMs := now - lag now\<rparr> else w ! i) [0..<length w]"

section \<open>The tests\<close>

definition Start_WithEnabledFalse_NeverTicks :: "int \<Rightarrow> int list \<Rightarrow> bool" where
  "Start_WithEnabledFalse_NeverTicks now ticks \<longleftrightarrow>
     (let cfg = \<lparr>cfg_thresholdMs = 100, cfg_tickIntervalMs = 50, cfg_enabled = False\<rparr>;
          mocks = [mock_at (now - 10000), mock_at (now - 10000)];
          (c, q, w) = rig_sleep (Some [Some 0, Some 1]) no_traffic ticks (rig_start cfg mocks)
      in mk_disconnectCount (w ! 0) = 0 \<and> mk_disconnectCount (w ! 1) = 0)"

definition Start_WithFreshSession_NoDisconnect :: "int \<Rightarrow> int list \<Rightarrow> (int \<Rightarrow> int) \<Rightarrow> bool" where
  "Start_WithFreshSession_NoDisconnect now ticks lag \<longleftrightarrow>
     (let cfg = \<lparr>cfg_thresholdMs = 200, cfg_tickIntervalMs = 50, cfg_enabled = True\<rparr>;
          (c, q, w) = rig_stop (rig_sleep (Some [Some 0]) (trafficThread {0} lag) ticks
                        (rig_start cfg [mock_at now]))
      in mk_disconnectCount (w ! 0) = 0)"

definition Start_WithStaleSession_DisconnectsWithinBudget :: "int \<Rightarrow> int list \<Rightarrow> bool" where
  "Start_WithStaleSession_DisconnectsWithinBudget now ticks \<longleftrightarrow>
     (let cfg = \<lparr>cfg_thresholdMs = 200, cfg_tickIntervalMs = 50, cfg_enabled = True\<rparr>;
          (c, q, w) = rig_stop (rig_sleep (Some [Some 0]) no_traffic ticks
                        (rig_start cfg [mock_at (now - 1000)]))
      in mk_disconnectCount (w ! 0) \<ge> 1 \<and> mk_lastReason (w ! 0) = IdleTimeout)"

definition MultipleSessions_OnlyStaleDisconnected :: "int \<Rightarrow> int list \<Rightarrow> (int \<Rightarrow> int) \<Rightarrow> bool" where
  "MultipleSessions_OnlyStaleDisconnected now ticks lag \<longleftrightarrow>
     (let cfg = \<lparr>cfg_thresholdMs = 200, cfg_tickIntervalMs = 50, cfg_enabled = True\<rparr>;
          (c, q, w) = rig_stop (rig_sleep (Some [Some 0, Some 1, Some 2]) (trafficThread {1, 2} lag) ticks
                        (rig_start cfg [mock_at (now - 1000), mock_at now, mock_at now]))
      in mk_disconnectCount (w ! 0) \<ge> 1 \<and> mk_disconnectCount (w ! 1) = 0 \<and> mk_disconnectCount (w ! 2) = 0)"

definition LastRecvZero_Skipped :: "int \<Rightarrow> int list \<Rightarrow> bool" where
  "LastRecvZero_Skipped now ticks \<longleftrightarrow>
     (let cfg = \<lparr>cfg_thresholdMs = 10, cfg_tickIntervalMs = 20, cfg_enabled = True\<rparr>;
          (c, q, w) = rig_stop (rig_sleep (Some [Some 0]) no_traffic ticks
                        (rig_start cfg [mock_at 0]))
      in mk_disconnectCount (w ! 0) = 0)"

text \<open>After \<open>Stop\<close>, callbacks may still arrive, at the times \<open>late\<close>.\<close>

definition Stop_PreventsFurtherTicks :: "int \<Rightarrow> int list \<Rightarrow> int list \<Rightarrow> bool" where
  "Stop_PreventsFurtherTicks now ticks late \<longleftrightarrow>
     (let cfg = \<lparr>cfg_thresholdMs = 100, cfg_tickIntervalMs = 50, cfg_enabled = True\<rparr>;
          before = rig_sleep (Some [Some 0]) no_traffic ticks (rig_start cfg [mock_at (now - 10000)]);
          stopped = rig_stop before;
          finally0 = rig_sleep (Some [Some 0]) no_traffic late stopped;
          count = (\<lambda>r :: rig. mk_disconnectCount (snd (snd r) ! 0))
      in count stopped \<ge> count before \<and> count stopped = count finally0)"

text \<open>Every tick of the running checker calls the provider once.\<close>

definition ProviderException_LoggedNotFatal :: "int \<Rightarrow> int list \<Rightarrow> bool" where
  "ProviderException_LoggedNotFatal now ticks \<longleftrightarrow>
     (let cfg = \<lparr>cfg_thresholdMs = 100, cfg_tickIntervalMs = 50, cfg_enabled = True\<rparr>;
          (c, q, w) = rig_sleep None no_traffic ticks (rig_start cfg [])
      in ic_Running c \<and> runs 0 q \<ge> 2)"

definition RequestDisconnectException_LoggedContinues :: "int \<Rightarrow> int list \<Rightarrow> bool" where
  "RequestDisconnectException_LoggedContinues now ticks \<longleftrightarrow>
     (let cfg = \<lparr>cfg_thresholdMs = 100, cfg_tickIntervalMs = 50, cfg_enabled = True\<rparr>;
          throwingMock = (mock_at (now - 1000))\<lparr>mk_throwOnDisconnect := True\<rparr>;
          (c, q, w) = rig_stop (rig_sleep (Some [Some 0, Some 1]) no_traffic ticks
                        (rig_start cfg [throwingMock, mock_at (now - 1000)]))
      in mk_disconnectCount (w ! 0) \<ge> 1 \<and> mk_disconnectCount (w ! 1) \<ge> 1)"

definition Sampler_InitialSample_ZeroCpu :: bool where
  "Sampler_InitialSample_ZeroCpu \<longleftrightarrow>
     (let sampler = StatsSampler_ctor \<lparr>sc_tickIntervalMs = 1000, sc_enabled = True\<rparr>
      in SnapshotCpuPercent sampler = 0 \<and> SnapshotMemoryBytes sampler = 0)"

text \<open>The system answers both questions of a sample, and reports a working set that is not
  empty.\<close>

definition sample_of :: "(u32 \<times> u32) \<times> (u32 \<times> u32) \<Rightarrow> u32 \<times> u32 \<Rightarrow> u64 \<Rightarrow> StatsSampler \<Rightarrow> StatsSampler" where
  "sample_of procTimes sysNow ws = DoSample (Some procTimes) sysNow (Some (max 1 ws))"

definition Sampler_AfterStart_MemoryPositive :: "(StatsSampler \<Rightarrow> StatsSampler) \<Rightarrow> bool" where
  "Sampler_AfterStart_MemoryPositive sample \<longleftrightarrow>
     (let sampler = StatsSampler_ctor \<lparr>sc_tickIntervalMs = 1000, sc_enabled = True\<rparr>;
          (sampler1, q) = StatsSampler_Start grants 0 sample sampler TimerQueue_ctor
      in SnapshotMemoryBytes sampler1 > 0)"

definition Sampler_Stop_ForceSampleStillWorks :: "(StatsSampler \<Rightarrow> StatsSampler) \<Rightarrow> (StatsSampler \<Rightarrow> StatsSampler) \<Rightarrow> bool" where
  "Sampler_Stop_ForceSampleStillWorks sample sample1 \<longleftrightarrow>
     (let sampler = StatsSampler_ctor \<lparr>sc_tickIntervalMs = 1000, sc_enabled = True\<rparr>;
          (sampler1, q) = StatsSampler_Start grants 0 sample sampler TimerQueue_ctor;
          (sampler2, q1) = StatsSampler_Stop sampler1 q;
          sampler3 = ForceSampleNow sample1 sampler2
      in SnapshotMemoryBytes sampler1 > 0 \<and> SnapshotMemoryBytes sampler3 > 0)"

definition Sampler_Disabled_NeverTicks :: "(StatsSampler \<Rightarrow> StatsSampler) \<Rightarrow> bool" where
  "Sampler_Disabled_NeverTicks sample \<longleftrightarrow>
     (let sampler = StatsSampler_ctor \<lparr>sc_tickIntervalMs = 50, sc_enabled = False\<rparr>;
          (sampler1, q) = StatsSampler_Start grants 0 sample sampler TimerQueue_ctor;
          sampler2 = (if tq_Heap q = [] then sampler1 else StatsSampler_OnTick sample sampler1)
      in SnapshotCpuPercent sampler2 = 0 \<and> SnapshotMemoryBytes sampler2 = 0)"

lemma sampler_tests:
  Sampler_InitialSample_ZeroCpu "Sampler_AfterStart_MemoryPositive (sample_of pt n ws)"
  "Sampler_Stop_ForceSampleStillWorks (sample_of pt n ws) (sample_of pt' n' ws')" "Sampler_Disabled_NeverTicks sample"
proof -
  have mem: "sp_MemoryBytesCache (sample_of pt n ws s) > 0" for pt n ws s
    by (cases pt) (auto simp: sample_of_def DoSample_def Let_def max_def word_gt_0 simp flip: word_neq_0_conv)
  show Sampler_InitialSample_ZeroCpu "Sampler_AfterStart_MemoryPositive (sample_of pt n ws)"
    "Sampler_Disabled_NeverTicks sample"
    by (simp_all add: Sampler_InitialSample_ZeroCpu_def Sampler_AfterStart_MemoryPositive_def Sampler_Disabled_NeverTicks_def
        StatsSampler_ctor_def StatsSampler_Start_def SnapshotCpuPercent_def SnapshotMemoryBytes_def Let_def split_beta
        TimerQueue_ctor_def mem)
  show "Sampler_Stop_ForceSampleStillWorks (sample_of pt n ws) (sample_of pt' n' ws')"
    by (simp add: Sampler_Stop_ForceSampleStillWorks_def StatsSampler_ctor_def StatsSampler_Start_def
        ForceSampleNow_def SnapshotMemoryBytes_def Let_def split_beta mem)
qed

section \<open>Sleeping with a running checker\<close>

definition checker_ticks ::
  "nat option list option \<Rightarrow> (int \<Rightarrow> MockIdleAware list \<Rightarrow> MockIdleAware list) \<Rightarrow> int list \<Rightarrow>
   SessionIdleChecker \<times> MockIdleAware list \<Rightarrow> SessionIdleChecker \<times> MockIdleAware list" where
  "checker_ticks provider traffic ticks cw =
     fold (\<lambda>now cw. SessionIdleChecker_OnTick mock_aware now provider (fst cw) (traffic now (snd cw))) ticks cw"

definition armed :: "TimerQueue \<Rightarrow> bool" where
  "armed q \<longleftrightarrow> length (tq_Heap q) = 1 \<and> e_state (tq_Heap q ! 0) = Scheduled \<and> e_isPeriodic (tq_Heap q ! 0) \<and>
     \<not> e_closeAfterCallback (tq_Heap q ! 0)"

lemma rig_sleep_armed:
  assumes "armed q"
  shows "rig_sleep provider traffic ticks (c, q, w) =
    (fst (checker_ticks provider traffic ticks (c, w)), q\<lparr>tq_Trace := tq_Trace q @ concat (replicate (length ticks) [TpInvoke 0, TpReturn 0])\<rparr>,
     snd (checker_ticks provider traffic ticks (c, w)))"
  using assms
proof (induction ticks arbitrary: c q w)
  case Nil
  then show ?case by (simp add: rig_sleep_def checker_ticks_def)
next
  case (Cons now ticks)
  let ?cw = "SessionIdleChecker_OnTick mock_aware now provider c (traffic now w)"
  have "rig_sleep provider traffic (now # ticks) (c, q, w) = rig_sleep provider traffic ticks (fst ?cw, ran 0 q, snd ?cw)"
    using Cons.prems by (simp add: rig_sleep_def rig_callback_def armed_def periodic_fires split_beta)
  moreover have "armed (ran 0 q)" using Cons.prems by (simp add: armed_def)
  ultimately show ?case
    using Cons.IH[of "ran 0 q" "fst ?cw" "snd ?cw"] by (simp add: checker_ticks_def ran_def tp_log_def)
qed

text \<open>After \<open>Stop\<close> the entry is cancelled and the sleeps are silent.\<close>

lemma rig_sleep_cancelled:
  assumes "length (tq_Heap q) = 1" "e_state (tq_Heap q ! 0) = Cancelled"
  shows "rig_sleep provider no_traffic ticks (c, q, w) = (c, q, w)"
proof (induction ticks)
  case (Cons now ticks)
  then show ?case
    using assms by (simp add: rig_sleep_def rig_callback_def RunEntry_cancelled no_traffic_def)
qed (simp add: rig_sleep_def)

definition running :: "IdleCheckerConfig \<Rightarrow> SessionIdleChecker" where
  "running cfg = (SessionIdleChecker_ctor cfg)\<lparr>ic_Running := True, ic_TimerId := 1\<rparr>"

lemma rig_started:
  assumes "cfg_enabled cfg"
  obtains q where "rig_start cfg mocks = (running cfg, q, mocks)" "armed q" "runs 0 q = 0"
    "tq_Entries q = [(1, 0)]" "\<exists>e. tq_Heap q = [e] \<and> e_handle e = Some 0" "tq_Current q = None"
  using assms that[of "one_timer (cfg_tickIntervalMs cfg) \<lparr>job_invoke = 0, job_name = ''SessionIdleChecker''\<rparr> True (cfg_tickIntervalMs cfg)"]
  by (simp add: rig_start_def SessionIdleChecker_Start_def SessionIdleChecker_ctor_def SchedulePeriodic_def schedule_first
      running_def armed_def one_timer_def runs_def)

lemma rig_stop_mocks [simp]: "snd (snd (rig_stop r)) = snd (snd r)"
  by (simp add: rig_stop_def split_beta)

text \<open>The mocks after a test that sleeps and stops are those its ticks leave.\<close>

lemma rig_mocks:
  assumes "cfg_enabled cfg"
  shows "snd (snd (rig_sleep provider traffic ticks (rig_start cfg mocks))) = snd (checker_ticks provider traffic ticks (running cfg, mocks))"
  using rig_started[OF assms, of mocks] by (metis rig_sleep_armed snd_conv)

lemma checker_ticks_simps [simp]:
  "checker_ticks provider traffic [] cw = cw"
  "checker_ticks provider traffic (now # ticks) cw =
     checker_ticks provider traffic ticks (SessionIdleChecker_OnTick mock_aware now provider (fst cw) (traffic now (snd cw)))"
  by (simp_all add: checker_ticks_def)

text \<open>What a tick of the running checker does to each mock the provider lists once.\<close>

definition mock_tick :: "int \<Rightarrow> int \<Rightarrow> MockIdleAware \<Rightarrow> MockIdleAware" where
  "mock_tick now thr m =
     (if mk_lastRecvMs m = 0 \<or> now - mk_lastRecvMs m < thr then m else snd (Mock_RequestDisconnect IdleTimeout m))"

lemma OnTick_mocks:
  assumes "ic_Running c"
  shows "snd (SessionIdleChecker_OnTick mock_aware now (Some (map Some [0..<length w])) c w) =
      map (mock_tick now (cfg_thresholdMs (ic_Config c))) w \<and>
    ic_Running (fst (SessionIdleChecker_OnTick mock_aware now (Some (map Some [0..<length w])) c w)) \<and>
    ic_Config (fst (SessionIdleChecker_OnTick mock_aware now (Some (map Some [0..<length w])) c w)) = ic_Config c"
proof -
  have tick: "tick_sessions mock_aware now thr (map Some [length u..<length u + length v]) (u @ v) n =
      (u @ map (mock_tick now thr) v, snd (tick_sessions mock_aware now thr (map Some [length u..<length u + length v]) (u @ v) n))"
    for thr u v n
  proof (induction v arbitrary: u n)
    case (Cons m v)
    have up: "[length u..<length u + length (m # v)] = length u # [length (u @ [x])..<length (u @ [x]) + length v]" for x :: MockIdleAware
      by (simp add: upt_rec)
    have mid: "u @ x # v = (u @ [x]) @ v" for x by simp
    show ?case
      unfolding up[of "mock_tick now thr m"]
      using Cons.IH[of "u @ [mock_tick now thr m]"]
      by (auto simp: mock_aware_def mock_tick_def Mock_GetLastRecvTimeMs_def Mock_RequestDisconnect_def Let_def list_update_append)
  qed simp
  show ?thesis
    using assms tick[of "cfg_thresholdMs (ic_Config c)" "[]" w "ic_DisconnectCount c"]
    by (auto simp: SessionIdleChecker_OnTick_def split_beta) (metis fst_conv)
qed

lemma checker_ticks_mocks:
  assumes "ic_Running c" "\<And>now w. length (traffic now w) = length w"
  shows "snd (checker_ticks (Some (map Some [0..<length w])) traffic ticks (c, w)) =
    fold (\<lambda>now w. map (mock_tick now (cfg_thresholdMs (ic_Config c))) (traffic now w)) ticks w"
  using assms(1)
proof (induction ticks arbitrary: c w)
  case (Cons now ticks)
  let ?cw = "SessionIdleChecker_OnTick mock_aware now (Some (map Some [0..<length (traffic now w)])) c (traffic now w)"
  have one: "snd ?cw = map (mock_tick now (cfg_thresholdMs (ic_Config c))) (traffic now w)" "ic_Running (fst ?cw)"
    "ic_Config (fst ?cw) = ic_Config c"
    using OnTick_mocks[OF Cons.prems] by blast+
  have "length (snd ?cw) = length w" using one(1) assms(2) by simp
  then show ?case
    using Cons.IH[OF one(2), of "snd ?cw"] one assms(2) by simp
qed simp

lemma traffic_lengths [simp]: "length (no_traffic now w) = length w" "length (trafficThread rs lag now w) = length w"
  by (simp_all add: no_traffic_def trafficThread_def)

text \<open>The mocks of a test: its ticks, one after the other.\<close>

lemma rig_run:
  assumes "cfg_enabled cfg" "\<And>now w. length (traffic now w) = length w"
  shows "snd (snd (rig_sleep (Some (map Some [0..<length mocks])) traffic ticks (rig_start cfg mocks))) =
    fold (\<lambda>now w. map (mock_tick now (cfg_thresholdMs cfg)) (traffic now w)) ticks mocks"
  using checker_ticks_mocks[of "running cfg" traffic mocks ticks] assms
  by (simp add: rig_mocks running_def SessionIdleChecker_ctor_def)

lemma disabled_test: "Start_WithEnabledFalse_NeverTicks now ticks"
proof -
  have "rig_sleep provider no_traffic ticks (c, TimerQueue_ctor, w) = (c, TimerQueue_ctor, w)" for provider ticks c w
    by (induction ticks) (simp_all add: rig_sleep_def no_traffic_def TimerQueue_ctor_def)
  then show ?thesis
    by (simp add: Start_WithEnabledFalse_NeverTicks_def rig_start_def SessionIdleChecker_Start_def
        SessionIdleChecker_ctor_def mock_at_def MockIdleAware_default_def)
qed

lemma stays_below:
  assumes "P w" "\<And>now w. now \<in> set ticks \<Longrightarrow> P w \<Longrightarrow> P (step now w)"
  shows "P (fold step ticks w)"
  using assms fold_invariant[of ticks "\<lambda>now. now \<in> set ticks" P w step] by blast

lemmas mock_defs = mock_tick_def Mock_RequestDisconnect_def mock_at_def MockIdleAware_default_def no_traffic_def
  trafficThread_def

lemma fresh_test:
  assumes "\<And>t. lag t < 200"
  shows "Start_WithFreshSession_NoDisconnect now ticks lag"
proof -
  have "\<exists>m. fold (\<lambda>t w. map (mock_tick t 200) (trafficThread {0} lag t w)) ticks [mock_at now] = [m] \<and> mk_disconnectCount m = 0" for ticks
    by (rule stays_below) (use assms in \<open>auto simp: mock_defs not_less[symmetric]\<close>)
  then show ?thesis
    using rig_run[of "\<lparr>cfg_thresholdMs = 200, cfg_tickIntervalMs = 50, cfg_enabled = True\<rparr>" "trafficThread {0} lag" "[mock_at now]"]
    by (simp add: Start_WithFreshSession_NoDisconnect_def split_beta) (metis nth_Cons_0)
qed

lemma stale_test:
  assumes "now > 10000" "ticks \<noteq> []" "\<forall>t\<in>set ticks. now \<le> t"
  shows "Start_WithStaleSession_DisconnectsWithinBudget now ticks"
proof -
  obtain t0 ts where ts: "ticks = t0 # ts" "now \<le> t0" using assms(2,3) by (cases ticks) auto
  let ?step = "\<lambda>t w. map (mock_tick t 200) (no_traffic t w)"
  have "\<exists>m. fold ?step ts (?step t0 [mock_at (now - 1000)]) = [m] \<and>
      mk_disconnectCount m \<ge> 1 \<and> mk_lastReason m = IdleTimeout"
    by (rule stays_below[where P = "\<lambda>w. \<exists>m. w = [m] \<and> mk_disconnectCount m \<ge> 1 \<and> mk_lastReason m = IdleTimeout"])
      (use assms(1) ts(2) in \<open>auto simp: mock_defs\<close>)
  then show ?thesis
    using rig_run[of "\<lparr>cfg_thresholdMs = 200, cfg_tickIntervalMs = 50, cfg_enabled = True\<rparr>" no_traffic "[mock_at (now - 1000)]"]
    by (auto simp: Start_WithStaleSession_DisconnectsWithinBudget_def split_beta ts(1))
qed

lemma zero_test: "LastRecvZero_Skipped now ticks"
proof -
  have "fold (\<lambda>t w. map (mock_tick t 10) (no_traffic t w)) ticks [mock_at 0] = [mock_at 0]" for ticks
    by (rule stays_below) (auto simp: mock_defs)
  then show ?thesis
    using rig_run[of "\<lparr>cfg_thresholdMs = 10, cfg_tickIntervalMs = 20, cfg_enabled = True\<rparr>" no_traffic "[mock_at 0]"]
    by (simp add: LastRecvZero_Skipped_def split_beta) (simp add: mock_defs)
qed

lemma only_stale_test:
  assumes "now > 10000" "ticks \<noteq> []" "\<forall>t\<in>set ticks. now \<le> t" and lag: "\<And>t. lag t < 200"
  shows "MultipleSessions_OnlyStaleDisconnected now ticks lag"
proof -
  obtain t0 ts where ts: "ticks = t0 # ts" "now \<le> t0" using assms(2,3) by (cases ticks) auto
  let ?step = "\<lambda>t w. map (mock_tick t 200) (trafficThread {1, 2} lag t w)"
  have "\<exists>a b c. fold ?step ts (?step t0 [mock_at (now - 1000), mock_at now, mock_at now]) = [a, b, c] \<and>
      mk_disconnectCount a \<ge> 1 \<and> mk_disconnectCount b = 0 \<and> mk_disconnectCount c = 0"
    by (rule stays_below[where P = "\<lambda>w. \<exists>a b c. w = [a, b, c] \<and> mk_disconnectCount a \<ge> 1 \<and> mk_disconnectCount b = 0 \<and>
          mk_disconnectCount c = 0"]) (use assms(1) ts(2) lag in \<open>auto simp: mock_defs upt_rec\<close>)
  then show ?thesis
    using rig_run[of "\<lparr>cfg_thresholdMs = 200, cfg_tickIntervalMs = 50, cfg_enabled = True\<rparr>" "trafficThread {1, 2} lag"
        "[mock_at (now - 1000), mock_at now, mock_at now]"]
    by (auto simp: MultipleSessions_OnlyStaleDisconnected_def split_beta ts(1) upt_rec Let_def numeral_2_eq_2)
qed

lemma throwing_test:
  assumes "now > 10000" "ticks \<noteq> []" "\<forall>t\<in>set ticks. now \<le> t"
  shows "RequestDisconnectException_LoggedContinues now ticks"
proof -
  obtain t0 ts where ts: "ticks = t0 # ts" "now \<le> t0" using assms(2,3) by (cases ticks) auto
  let ?step = "\<lambda>t w. map (mock_tick t 100) (no_traffic t w)"
  let ?mocks = "[(mock_at (now - 1000))\<lparr>mk_throwOnDisconnect := True\<rparr>, mock_at (now - 1000)]"
  have "\<exists>a b. fold ?step ts (?step t0 ?mocks) = [a, b] \<and> mk_disconnectCount a \<ge> 1 \<and> mk_disconnectCount b \<ge> 1"
    by (rule stays_below[where P = "\<lambda>w. \<exists>a b. w = [a, b] \<and> mk_disconnectCount a \<ge> 1 \<and> mk_disconnectCount b \<ge> 1"])
      (use assms(1) ts(2) in \<open>auto simp: mock_defs\<close>)
  then show ?thesis
    using rig_run[of "\<lparr>cfg_thresholdMs = 100, cfg_tickIntervalMs = 50, cfg_enabled = True\<rparr>" no_traffic ?mocks]
    by (auto simp: RequestDisconnectException_LoggedContinues_def split_beta ts(1) upt_rec)
qed

lemma provider_throws_test:
  assumes "2 \<le> length ticks"
  shows "ProviderException_LoggedNotFatal now ticks"
proof -
  let ?cfg = "\<lparr>cfg_thresholdMs = 100, cfg_tickIntervalMs = 50, cfg_enabled = True\<rparr>"
  have ticks: "checker_ticks None no_traffic ts (running ?cfg, []) = (running ?cfg, [])" for ts
    by (induction ts) (simp_all add: SessionIdleChecker_OnTick_def no_traffic_def)
  obtain q where q: "rig_start ?cfg [] = (running ?cfg, q, [])" "armed q" "runs 0 q = 0"
    using rig_started[of ?cfg "[]"] by auto
  show ?thesis
    by (simp add: ProviderException_LoggedNotFatal_def q rig_sleep_armed ticks) (use assms in \<open>simp add: running_def\<close>)
qed

lemma stop_test: "Stop_PreventsFurtherTicks now ticks late"
proof -
  let ?cfg = "\<lparr>cfg_thresholdMs = 100, cfg_tickIntervalMs = 50, cfg_enabled = True\<rparr>"
  let ?mocks = "[mock_at (now - 10000)]"
  let ?before = "rig_sleep (Some [Some 0]) no_traffic ticks (rig_start ?cfg ?mocks)"
  obtain q where q: "rig_start ?cfg ?mocks = (running ?cfg, q, ?mocks)" "armed q" "runs 0 q = 0"
    "tq_Entries q = [(1, 0)]" "\<exists>e. tq_Heap q = [e] \<and> e_handle e = Some 0" "tq_Current q = None"
    using rig_started[of ?cfg ?mocks] by auto
  have keep: "ic_Running (fst (SessionIdleChecker_OnTick ia now pr c w)) = ic_Running c \<and>
      ic_TimerId (fst (SessionIdleChecker_OnTick ia now pr c w)) = ic_TimerId c" for ia now pr c and w :: "MockIdleAware list"
    by (simp add: SessionIdleChecker_OnTick_def split_beta split: option.splits)
  have "ic_Running (fst cw) \<and> ic_TimerId (fst cw) = 1 \<Longrightarrow>
      ic_Running (fst (checker_ticks pr tr ts cw)) \<and> ic_TimerId (fst (checker_ticks pr tr ts cw)) = 1" for pr tr ts cw
    by (induction ts arbitrary: cw) (simp_all add: keep)
  then obtain c w q1 where b: "?before = (c, q1, w)" "ic_Running c" "ic_TimerId c = 1" "tq_Entries q1 = [(1, 0)]"
    "\<exists>e. tq_Heap q1 = [e] \<and> e_handle e = Some 0" "tq_Current q1 = None"
    using q by (simp add: rig_sleep_armed running_def)
  define r where "r = rig_stop ?before"
  have "length (tq_Heap (fst (snd r))) = 1" "e_state (tq_Heap (fst (snd r)) ! 0) = Cancelled"
    using b by (auto simp: r_def rig_stop_def SessionIdleChecker_Stop_def Let_def split_beta cancel_defs)
  then have "rig_sleep (Some [Some 0]) no_traffic late r = r"
    using rig_sleep_cancelled[of "fst (snd r)" _ _ "fst r" "snd (snd r)"] by simp
  then show ?thesis
    by (simp add: Stop_PreventsFurtherTicks_def Let_def flip: r_def) (simp add: r_def)
qed

definition SessionIdleCheckerTests :: "int \<Rightarrow> int list \<Rightarrow> (int \<Rightarrow> int) \<Rightarrow> int list \<Rightarrow> bool" where
  "SessionIdleCheckerTests now ticks lag late \<longleftrightarrow>
     Start_WithEnabledFalse_NeverTicks now ticks \<and> Start_WithFreshSession_NoDisconnect now ticks lag \<and>
     Start_WithStaleSession_DisconnectsWithinBudget now ticks \<and> MultipleSessions_OnlyStaleDisconnected now ticks lag \<and>
     LastRecvZero_Skipped now ticks \<and> Stop_PreventsFurtherTicks now ticks late \<and> ProviderException_LoggedNotFatal now ticks \<and>
     RequestDisconnectException_LoggedContinues now ticks"

definition StatsSamplerTests :: "(StatsSampler \<Rightarrow> StatsSampler) \<Rightarrow> (StatsSampler \<Rightarrow> StatsSampler) \<Rightarrow> bool" where
  "StatsSamplerTests sample sample1 \<longleftrightarrow>
     Sampler_InitialSample_ZeroCpu \<and> Sampler_AfterStart_MemoryPositive sample \<and>
     Sampler_Stop_ForceSampleStillWorks sample sample1 \<and> Sampler_Disabled_NeverTicks sample"

text \<open>On the model, every test of \<open>TimerQueueTests.cpp\<close>, \<open>SessionIdleCheckerTests.cpp\<close> and
  \<open>StatsSamplerTests.cpp\<close> passes for every number of callbacks and all times of ticks the thread
  pool can give it within what the test expects of Windows, however many stale callbacks still
  arrive after a timer was cancelled, stopped or shut down, and whatever the process times and
  the clock show, as long as the machine has been up for more than ten seconds (the tests
  subtract that much from the clock, and a last receive of 0 means none).\<close>

lemma timer_suites_pass:
  assumes "3 \<le> n" "n < 15" "now > 10000" "2 \<le> length ticks" "\<forall>t\<in>set ticks. now \<le> t" "\<And>t. lag t < 200"
  shows "TimerQueueTests n late stale \<and> SessionIdleCheckerTests now ticks lag lateTicks \<and>
    StatsSamplerTests (sample_of procTimes sysNow ws) (sample_of procTimes' sysNow' ws')"
proof -
  have "ticks \<noteq> []" using assms(4) by auto
  then show ?thesis
    using assms
    by (simp add: timer_tests SessionIdleCheckerTests_def StatsSamplerTests_def disabled_test fresh_test stale_test
        only_stale_test zero_test stop_test provider_throws_test throwing_test sampler_tests)
qed

end
