(* ===== verification/Conformance_Locks.thy ===== *)
theory Conformance_Locks
  imports RW_Lock Session_Container
begin

text \<open>
  The tests that run threads under a lock: \<open>LockBenchmarkTests.cpp\<close> and the test of concurrent
  readers in \<open>ContainerTests.cpp\<close>. The schedule is an argument; \<open>std::mutex\<close> is a lock that is
  only taken for writing. The benchmarks assert nothing and print times; here each says what the
  shared counter is once its threads have been joined.
\<close>

text \<open>\<open>sharedData = sharedData + 1\<close> of a volatile variable: a load and a store, between which the
  others may act.\<close>

definition increment :: "(int, int) guarded" where
  "increment = WriteSection [\<lambda>(reg, shared). (shared, shared), \<lambda>(reg, shared). (reg, reg + 1)]"

definition observe :: "(int, int) guarded" where
  "observe = ReadSection [\<lambda>shared reg. shared]"

text \<open>The same load under a mutex.\<close>

definition observe_exclusive :: "(int, int) guarded" where
  "observe_exclusive = WriteSection [\<lambda>(reg, shared). (shared, shared)]"

text \<open>Whatever the schedule reaches (\<open>None\<close>: it picked a thread that waits or has finished), \<open>P\<close> holds
  once all threads have finished, and until then one of them can go on.\<close>

definition joined :: "nat list \<Rightarrow> 's \<Rightarrow> (('l, 's) guarded list \<times> 'l) list \<Rightarrow> (('l, 's) lock_state \<Rightarrow> bool) \<Rightarrow> bool" where
  "joined sched d ts P \<longleftrightarrow>
     (case lock_run sched (lock_start d ts) of
        None \<Rightarrow> True
      | Some s \<Rightarrow> if lock_finished s then P s else list_ex (\<lambda>i. lock_act i s \<noteq> None) [0..<length (ls_Threads s)])"

definition bench_TC :: nat where "bench_TC = 8"

definition bench_OC :: nat where "bench_OC = 1000000"

definition Benchmark_StdMutex :: "nat list \<Rightarrow> bool" where
  "Benchmark_StdMutex sched \<longleftrightarrow>
     joined sched 0 (replicate bench_TC (replicate (bench_OC div bench_TC) increment, 0)) (\<lambda>s. ls_Data s = 1000000)"

definition Benchmark_RWLock_WriteOnly :: "nat list \<Rightarrow> bool" where
  "Benchmark_RWLock_WriteOnly sched \<longleftrightarrow>
     joined sched 0 (replicate bench_TC (replicate (bench_OC div bench_TC) increment, 0)) (\<lambda>s. ls_Data s = 1000000)"

definition Benchmark_RWLock_ReadHeavy :: "nat list \<Rightarrow> bool" where
  "Benchmark_RWLock_ReadHeavy sched \<longleftrightarrow>
     joined sched 0
       (replicate bench_TC (map (\<lambda>j. if j mod 10 = 0 then increment else observe) [0..<bench_OC div bench_TC], 0))
       (\<lambda>s. ls_Data s = 100000)"

definition Benchmark_StdMutex_ReadHeavy_Simulation :: "nat list \<Rightarrow> bool" where
  "Benchmark_StdMutex_ReadHeavy_Simulation sched \<longleftrightarrow>
     joined sched 0
       (replicate bench_TC (map (\<lambda>j. if j mod 10 = 0 then increment else observe_exclusive) [0..<bench_OC div bench_TC], 0))
       (\<lambda>s. ls_Data s = 100000)"

definition LockBenchmarkTests :: "nat list \<Rightarrow> bool" where
  "LockBenchmarkTests sched \<longleftrightarrow>
     Benchmark_StdMutex sched \<and> Benchmark_RWLock_WriteOnly sched \<and> Benchmark_RWLock_ReadHeavy sched \<and>
     Benchmark_StdMutex_ReadHeavy_Simulation sched"

text \<open>One call of \<open>ForEach\<close> with the counting callback, one entry at a time.\<close>

definition count_entries :: "nat \<Rightarrow> (int, (int, int) Container) guarded" where
  "count_entries n = ReadSection (map (\<lambda>k m calls. if k < length m then calls + 1 else calls) [0..<n])"

definition hundred_entries :: "(int, int) Container" where
  "hundred_entries = fold (\<lambda>i m. snd (Container_Add (int i) (int i * 10) m)) [0..<100] Container_ctor"

definition ForEach_ConcurrentReaders_NoDeadlock :: "nat list \<Rightarrow> bool" where
  "ForEach_ConcurrentReaders_NoDeadlock sched \<longleftrightarrow>
     joined sched hundred_entries (replicate 2 (replicate 50 (count_entries 100), 0))
       (\<lambda>s. map lt_Local (ls_Threads s) = [5000, 5000])"

section \<open>Lemmas\<close>

fun is_increment :: "(int, int) guarded \<Rightarrow> nat" where
  "is_increment (WriteSection [a, b]) = 1"
| "is_increment g = 0"

definition increments_left :: "((int, int) guarded list \<times> int) list \<Rightarrow> nat" where
  "increments_left ts = sum_list (map (\<lambda>t. sum_list (map is_increment (fst t))) ts)"

lemma kinds [simp]: "is_increment increment = 1" "is_increment observe = 0" "is_increment observe_exclusive = 0"
  by (simp_all add: increment_def observe_def observe_exclusive_def)

lemma increments_left_update:
  "i < length ts \<Longrightarrow> increments_left (ts[i := t]) + sum_list (map is_increment (fst (ts ! i))) = increments_left ts + sum_list (map is_increment (fst t))"
proof (induction ts arbitrary: i)
  case (Cons a ts)
  show ?case using Cons.prems Cons.IH[of "i - 1"] by (cases i) (auto simp: increments_left_def)
qed simp

lemma increments_add_up:
  assumes "\<forall>t \<in> set ts. set (fst t) \<subseteq> {increment, observe, observe_exclusive}" "set order \<subseteq> {..<length ts}"
    "fold one_section order (d, ts) = (d', ts')"
  shows "d' + int (increments_left ts') = d + int (increments_left ts)"
  using assms
proof (induction order arbitrary: d ts)
  case (Cons i order)
  have i: "i < length ts" using Cons.prems(2) by simp
  show ?case
  proof (cases "fst (ts ! i)")
    case Nil
    then have "one_section i (d, ts) = (d, ts)" by (cases "ts ! i") (simp add: one_section_def)
    then show ?thesis using Cons.IH[OF Cons.prems(1)] Cons.prems(2,3) by simp
  next
    case (Cons g rest)
    note prems = Cons.prems
    have all: "set (fst (ts ! i)) \<subseteq> {increment, observe, observe_exclusive}" using prems(1) i nth_mem by blast
    then have g: "g \<in> {increment, observe, observe_exclusive}" using Cons by simp
    then obtain reg where one: "one_section i (d, ts) = (d + int (is_increment g), ts[i := (rest, reg)])"
      using Cons by (cases "ts ! i") (auto simp: one_section_def increment_def observe_def observe_exclusive_def)
    have "\<forall>t \<in> set (ts[i := (rest, reg)]). set (fst t) \<subseteq> {increment, observe, observe_exclusive}"
      using prems(1) all Cons set_update_subset_insert[of ts i "(rest, reg)"] by fastforce
    then have "d' + int (increments_left ts') = d + int (is_increment g) + int (increments_left (ts[i := (rest, reg)]))"
      using Cons.IH[of "ts[i := (rest, reg)]" "d + int (is_increment g)"] prems(2,3) one by simp
    then show ?thesis using increments_left_update[OF i, of "(rest, reg)"] Cons by simp
  qed
qed simp

lemma joined_order:
  assumes "lock_run sched (lock_start d ts) = Some s" "lock_finished s"
  shows "fold one_section (ls_Order s) (d, ts) = (ls_Data s, map (\<lambda>t. ([], lt_Local t)) (ls_Threads s))"
    "set (ls_Order s) \<subseteq> {..<length ts}"
  using sections_serialise[OF assms] run_order_in_range[OF assms(1)] by (simp_all add: one_by_one_def lock_start_def)

lemma joinedI:
  assumes "\<And>s. lock_run sched (lock_start d ts) = Some s \<Longrightarrow> lock_finished s \<Longrightarrow> P s"
  shows "joined sched d ts P"
  using assms someone_can_act lock_run_completes[OF _ start_ok start_completes]
  unfolding joined_def by (fastforce simp: list_ex_iff split: option.split)

lemma joined_counter:
  assumes "\<forall>t \<in> set ts. set (fst t) \<subseteq> {increment, observe, observe_exclusive}"
  shows "joined sched 0 ts (\<lambda>s. ls_Data s = int (increments_left ts))"
proof (rule joinedI)
  fix s
  assume s: "lock_run sched (lock_start 0 ts) = Some s" "lock_finished s"
  have "increments_left (map (\<lambda>t. ([], lt_Local t)) (ls_Threads s)) = 0" by (simp add: increments_left_def comp_def sum_list_0)
  then show "ls_Data s = int (increments_left ts)"
    using increments_add_up[OF assms joined_order(2,1)[OF s]] by simp
qed

lemma increments_left_replicate: "increments_left (replicate n (gs, l)) = n * sum_list (map is_increment gs)"
  by (simp add: increments_left_def sum_list_replicate)

lemma every_tenth:
  "sum_list (map (\<lambda>j. if j mod 10 = 0 then 1 else 0 :: nat) [0..<10 * n]) = n"
proof (induction n)
  case (Suc n)
  have "[0..<10 * Suc n] = [0..<10 * n] @ map (\<lambda>k. 10 * n + k) [0..<10]"
    by (intro nth_equalityI) (auto simp: nth_append)
  moreover have "sum_list (map (\<lambda>j. if j mod 10 = 0 then 1 else 0 :: nat) (map (\<lambda>k. 10 * n + k) [0..<10])) = 1"
    by (simp only: map_map comp_def mod_mult_self4) (simp add: upt_rec)
  ultimately show ?case using Suc by simp
qed simp

lemma bench_sections: "bench_OC div bench_TC = 10 * 12500"
  by (simp add: bench_OC_def bench_TC_def)

lemma lock_benchmarks: "LockBenchmarkTests sched"
proof -
  let ?all = "replicate bench_TC (replicate (bench_OC div bench_TC) increment, 0)"
  let ?tenth = "\<lambda>g. replicate bench_TC (map (\<lambda>j. if j mod 10 = 0 then increment else g) [0..<bench_OC div bench_TC], 0)"
  have all: "increments_left ?all = 1000000"
    by (simp add: increments_left_replicate sum_list_replicate bench_TC_def bench_OC_def)
  have tenth: "increments_left (?tenth g) = 100000" if "is_increment g = 0" for g
  proof -
    have "sum_list (map is_increment (map (\<lambda>j. if j mod 10 = 0 then increment else g) [0..<bench_OC div bench_TC])) = 12500"
      unfolding bench_sections using every_tenth[of 12500] that by (simp add: comp_def if_distrib cong: if_cong)
    then show ?thesis by (simp only: increments_left_replicate bench_TC_def)
  qed
  have "joined sched 0 ?all (\<lambda>s. ls_Data s = 1000000)"
    using joined_counter[of ?all sched] by (simp only: all) (auto simp: subset_iff)
  moreover have "joined sched 0 (?tenth observe) (\<lambda>s. ls_Data s = 100000)"
    using joined_counter[of "?tenth observe" sched] by (simp only: tenth kinds) (auto simp: subset_iff)
  moreover have "joined sched 0 (?tenth observe_exclusive) (\<lambda>s. ls_Data s = 100000)"
    using joined_counter[of "?tenth observe_exclusive" sched] by (simp only: tenth kinds) (auto simp: subset_iff)
  ultimately show ?thesis
    by (simp add: LockBenchmarkTests_def Benchmark_StdMutex_def Benchmark_RWLock_WriteOnly_def Benchmark_RWLock_ReadHeavy_def
        Benchmark_StdMutex_ReadHeavy_Simulation_def)
qed

text \<open>Two readers that count: neither changes the map, and each counts all of it every time.\<close>

lemma count_entries_adds: "length m = n \<Longrightarrow> fold (\<lambda>f. f m) (map (\<lambda>k m calls. if k < length m then calls + 1 else calls) [0..<j]) calls = calls + int (min j n)"
  by (induction j) auto

lemma counting_readers:
  assumes "fold one_section order (m, ts) = (m', ts')" "set order \<subseteq> {..<length ts}" "length m = n"
    "\<forall>t \<in> set ts. set (fst t) \<subseteq> {count_entries n}"
  shows "length ts' = length ts \<and>
    (\<forall>i < length ts. snd (ts' ! i) + int (n * length (fst (ts' ! i))) = snd (ts ! i) + int (n * length (fst (ts ! i))))"
  using assms
proof (induction order arbitrary: ts)
  case (Cons i order)
  have i: "i < length ts" using Cons.prems(2) by simp
  show ?case
  proof (cases "fst (ts ! i)")
    case Nil
    then have "one_section i (m, ts) = (m, ts)" by (cases "ts ! i") (simp add: one_section_def)
    then show ?thesis using Cons.IH[of ts] Cons.prems by simp
  next
    case (Cons g rest)
    note prems = Cons.prems
    have sub: "set (fst (ts ! i)) \<subseteq> {count_entries n}" using prems(4) i nth_mem by blast
    then have g: "g = count_entries n" using Cons by simp
    have account: "snd (rest, snd (ts ! i) + int n) + int (n * length (fst (rest, snd (ts ! i) + int n))) =
        snd (ts ! i) + int (n * length (fst (ts ! i)))"
      using Cons by (simp add: algebra_simps)
    have one: "one_section i (m, ts) = (m, ts[i := (rest, snd (ts ! i) + int n)])"
      using Cons g count_entries_adds[OF prems(3), of n "snd (ts ! i)"]
      by (cases "ts ! i") (simp add: one_section_def count_entries_def)
    have "\<forall>t \<in> set (ts[i := (rest, snd (ts ! i) + int n)]). set (fst t) \<subseteq> {count_entries n}"
      using prems(4) sub Cons set_update_subset_insert[of ts i] by fastforce
    then have "length ts' = length ts \<and> (\<forall>k < length ts. snd (ts' ! k) + int (n * length (fst (ts' ! k))) =
        snd (ts[i := (rest, snd (ts ! i) + int n)] ! k) + int (n * length (fst (ts[i := (rest, snd (ts ! i) + int n)] ! k))))"
      using Cons.IH[of "ts[i := (rest, snd (ts ! i) + int n)]"] prems(1-3) one by simp
    then show ?thesis
      using Cons i by (metis (no_types, lifting) account length_list_update nth_list_update)
  qed
qed simp

lemma length_hundred: "length hundred_entries = 100"
proof -
  have "map fst (fold (\<lambda>i m. snd (Container_Add (int i) (int i * 10) m)) [0..<n] Container_ctor) = map int [0..<n]" for n
  proof (induction n)
    case (Suc n)
    have "map_of (fold (\<lambda>i m. snd (Container_Add (int i) (int i * 10) m)) [0..<n] Container_ctor) (int n) = None"
      unfolding map_of_eq_None_iff set_map[symmetric] Suc by auto
    then show ?case using Suc by (simp add: Container_Add_def)
  qed (simp add: Container_ctor_def)
  from arg_cong[OF this[of 100], of length] show ?thesis
    unfolding hundred_entries_def by (simp only: length_map length_upt)
qed

lemma concurrent_readers: "ForEach_ConcurrentReaders_NoDeadlock sched"
  unfolding ForEach_ConcurrentReaders_NoDeadlock_def
proof (rule joinedI)
  let ?ts = "replicate 2 (replicate 50 (count_entries 100), 0 :: int)"
  fix s
  assume s: "lock_run sched (lock_start hundred_entries ?ts) = Some s" "lock_finished s"
  have "\<forall>t \<in> set ?ts. set (fst t) \<subseteq> {count_entries 100}" by auto
  from counting_readers[OF joined_order[OF s] length_hundred this]
  have "length (ls_Threads s) = 2" "\<forall>i < 2. lt_Local (ls_Threads s ! i) = 5000" by auto
  then show "map lt_Local (ls_Threads s) = [5000, 5000]"
    by (intro nth_equalityI) (auto simp: less_2_cases_iff)
qed

text \<open>On the model, for every schedule of the threads, the tests that run threads under a lock come
  out as meant: no increment of the lock benchmarks is lost, although each is a load and a store
  that others may separate in time, and two threads that iterate over a container at the same time
  each see all of its entries each time; and at no point do the threads wait for each other.\<close>

theorem lock_suites_pass:
  "LockBenchmarkTests sched \<and> ForEach_ConcurrentReaders_NoDeadlock sched"
  using lock_benchmarks concurrent_readers by blast

end
