(* ===== verification/Spec2Isabelle.thy ===== *)
theory Spec2Isabelle
  imports Message_Delivery Idle_Checker Server_Stats Socket_Acceptor Socket_Connector Rio_Service Server_Process
    IO_Session_Race Benchmark_Main Dialogue Locked_Buffer Thread_Pool Metrics_Collector
    Conformance_Buffers Conformance_Sessions Conformance_Services Conformance_Timers Conformance_Jobs Conformance_Locks
begin

text \<open>
  FastPort: a network server framework for Windows in C++, with two transports (I/O completion
  ports and Registered I/O), two servers built on them, a client, and the frame that runs a
  server as a Windows service, and a latency benchmark. This library models the framework, the
  servers, the demo client and the benchmark in HOL, and proves what they promise.

  \<^bold>\<open>How the parts work together.\<close> A service (\<open>ServiceMode\<close>) starts a server (\<open>IOCPServiceMode\<close>,
  \<open>RIOServiceMode\<close>), which opens a listener (\<open>IOSocketAcceptor\<close>) with its worker threads (\<open>IOService\<close>)
  and, for RIO, a buffer pool (\<open>RioBufferManager\<close>) and a polling thread (\<open>RIOService\<close>). Every
  accepted connection becomes a session (\<open>IOSession\<close> or \<open>RIOSession\<close> with the hooks of the server's
  subclass); a client gets its session from \<open>IOSocketConnector\<close>. Sessions own two ring buffers
  (\<open>IBuffer\<close>), cut the received bytes into packets (\<open>PacketFramer\<close>), and answer echo, benchmark and admin
  requests. A timer queue drives the idle checker and the statistics sampler. The benchmark connects
  client sessions, measures the round trips of requests and reports figures of them.

  \<^bold>\<open>The theories and the sources they model.\<close>
  \<^item> \<open>FP_Prelude\<close>: machine types, memory copies, rings, generic lemmas. \<open>OS_Trace\<close>: system calls as events
    of a trace, answered by an arbitrary environment.
  \<^item> \<open>Buffer_Interface\<close> (\<open>IBuffer.ixx\<close>; locale \<open>byte_queue\<close>), \<open>Circle_Buffer\<close> (\<open>CircleBufferQueue.ixx\<close>),
    \<open>External_Buffer\<close> (\<open>ExternalCircleBufferQueue.ixx\<close>), \<open>Span_Writer\<close> (\<open>IOSession.cpp\<close>, \<open>WriteToBuffers\<close>): both
    ring buffers are interpretations of the contract of a bounded queue of bytes.
  \<^item> \<open>Packet_Model\<close> (\<open>Packet.ixx\<close>), \<open>Packet_Framer\<close> (\<open>PacketFramer.ixx\<close>): the wire format, and the framer
    against the stream grammar \<open>deframe_all\<close>.
  \<^item> \<open>Socket_Model\<close> (\<open>Socket.cpp\<close>).
  \<^item> \<open>IO_Session\<close>, \<open>IO_Session_Laws\<close>, \<open>IO_Session_Methods\<close>, \<open>IO_Session_Runs\<close> (\<open>IOSession.cpp\<close>): the IOCP
    session; the locales \<open>session_core\<close> and \<open>session_client\<close> state what the hooks of a subclass must keep.
    \<open>Inbound_Session\<close> (\<open>InboundSession.cpp\<close>, \<open>IOCPInboundSession.cpp\<close>), \<open>Outbound_Session\<close> (\<open>OutboundSession.cpp\<close>,
    \<open>FastPortOutboundSession.cpp\<close>; locale \<open>outbound_client\<close>) discharge them. \<open>IOCP_Properties\<close> and
    \<open>IOCP_Stream\<close> hold the properties of the incoming side; \<open>Session_Outgoing\<close> and \<open>Session_Exchange\<close> (locale
    \<open>session_talk\<close>) relate what a session was asked to what it gives to the connection.
  \<^item> \<open>Interleaving\<close>, \<open>IO_Session_Race\<close>: the methods of \<open>IOSession.cpp\<close> as atomic actions of threads that interleave.
    \<open>RW_Lock\<close> (\<open>RWLock.cpp\<close>): threads whose sections hold the lock; \<open>Locked_Buffer\<close>: threads on one ring buffer.
    \<open>Thread_Pool\<close> (\<open>ThreadPool.ixx\<close>, \<open>EventListener.ixx\<close>): tasks, sleeping workers and notifications.
  \<^item> \<open>Rio_Buffer_Manager\<close> (\<open>RioExtension.cpp\<close>, \<open>RioBufferManager.cpp\<close>; locale \<open>slice_pool\<close>), \<open>Rio_Session\<close>,
    \<open>Rio_Session_Laws\<close>, \<open>Rio_Session_Methods\<close>, \<open>Rio_Session_Runs\<close> (\<open>RIOSession.cpp\<close>; locales \<open>rio_core\<close>,
    \<open>rio_client\<close>), \<open>Rio_Inbound\<close> (\<open>RIOInboundSession.cpp\<close>), \<open>Rio_Service\<close> (\<open>RIOService.cpp\<close>, a step relation
    of concurrent workers), \<open>Rio_Properties\<close>.
  \<^item> \<open>IO_Service\<close> (\<open>iOService.cpp\<close>), \<open>Socket_Acceptor\<close> (\<open>IOSocketAcceptor.cpp\<close>), \<open>Socket_Connector\<close>
    (\<open>IOSocketConnector.cpp\<close>).
  \<^item> \<open>Timer_Queue\<close> (\<open>TimerQueue.cpp\<close>; locale \<open>timer_jobs\<close>), \<open>Session_Container\<close> (\<open>Container.ixx\<close>; locale
    \<open>container_map\<close>), \<open>Idle_Checker\<close> (\<open>SessionIdleChecker.cpp\<close>), \<open>Server_Stats\<close> (\<open>StatsSampler.cpp\<close>,
    \<open>ServerStatsCollector.cpp\<close>), \<open>Admin_Handler\<close> (\<open>AdminPacketHandler.cpp\<close>), \<open>Periodic_Jobs\<close> (locale
    \<open>periodic_job\<close>, what checker and sampler share).
  \<^item> \<open>Service_Installer\<close>, \<open>Service_Mode\<close> (\<open>ServiceMode.cpp\<close>), \<open>Server_Modes\<close> (\<open>IOCPServiceMode.cpp\<close>,
    \<open>RIOServiceMode.cpp\<close>).
  \<^item> \<open>Benchmark_Stats\<close> (\<open>BenchmarkStats.ixx\<close>), \<open>Benchmark_Runner\<close>, \<open>Benchmark_Sequential\<close>, \<open>Benchmark_Sequential_Runs\<close>,
    \<open>Benchmark_Multi\<close>, \<open>Benchmark_Multi_Laws\<close>, \<open>Benchmark_Multi_Runs\<close> (\<open>LatencyBenchmarkRunner.cpp\<close>: the run over
    one session and the run over many, as atomic actions interleaved with the handlers),
    \<open>Benchmark_Main\<close> (\<open>FastPortBenchmark.cpp\<close>); \<open>Metrics_Collector\<close> (\<open>MetricsCollector.ixx\<close> of the test client).
  \<^item> \<open>Message_Delivery\<close>, \<open>Dialogue\<close> and \<open>Server_Process\<close> put the parts together: a message from the RIO server to
    the client, requests and replies between client and IOCP server, and the IOCP server under the
    service control manager.
  \<^item> \<open>Conformance_Buffers\<close>, \<open>Conformance_Sessions\<close>, \<open>Conformance_Services\<close>, \<open>Conformance_Timers\<close>,
    \<open>Conformance_Jobs\<close>, \<open>Conformance_Locks\<close>: the unit tests of the repository as definitions named like the test
    methods, which say whether the assertions hold on the model; lemmas (not properties) show that they do.

  \<^bold>\<open>How code becomes definitions.\<close> A class is a record of its members (a subclass extends the record of
  its base), a method a function on it that returns the changed object, in the order of the
  code, with every early return a branch. System calls and calls of virtual functions are
  appended to the trace of the object; the answers of the system come from an arbitrary function
  of the history, so every property holds for every behaviour of Windows. Protobuf, \<open>cxxopts\<close>,
  the clock and the admin handler are parameters. A region under a lock is one step, which
  \<open>sections_serialise\<close> justifies; where threads meet outside locks (the I/O counters of a session, the
  benchmark, the worker pools) they interleave step by step. Histories are
  inductive relations (\<open>session_run\<close>, \<open>session_stream\<close>, \<open>exchange\<close>, \<open>rio_run\<close>, \<open>outbound_run\<close>, \<open>svc_step\<close> and
  the like), and invariants hold along them.

  \<^bold>\<open>One thread at a time, and several.\<close> The histories of a session (\<open>session_run\<close>, \<open>session_stream\<close>,
  \<open>exchange\<close>) and of a timer queue are sequences of whole calls: each ends before the next begins. What is
  said of the bytes of a session holds of them. The code does not enforce this for \<open>IOSession\<close>, whose
  send path holds no lock: \<open>IO_Session_Race\<close> cuts its methods into atomic steps of any number of threads,
  proves what still holds then (the counts, and at most one notice of the disconnect) and
  shows what does not (\<open>race_stream_can_break\<close>: bytes go out twice or unwritten). A worker of
  \<open>RIOService\<close> reads the flag of \<open>Stop\<close> in a step of its own, before it takes the lock of the queue.

  \<^bold>\<open>What is shown.\<close> Ring buffers refine bounded queues, and the shared one changes no byte outside
  its window. Framing depends on the bytes only, not on the receives that brought them. A
  session notifies its disconnect exactly once, is silent afterwards, counts its I/O exactly,
  handles every completion to its end, and dispatches the packets of the received bytes in order. The
  in-place serialisation equals a plain write. A RIO session loses, repeats and reorders nothing
  on the way out, stays inside its slices and pushes back above its limit. Messages of the RIO
  server reach the client; the IOCP server, one call at a time, answers every request once and in order,
  and the answers reach the client. Connecting and listening are all or nothing. Worker pools deliver what
  was queued and end, and lose no wakeup. Timer handles are closed once and never under their callback. The service always
  settles in a reported state, its installer ends, and stopping a server takes its parts down (all but
  the acceptor, which only a shutdown joins and closes).
  Between threads: sections under the lock run as if one at a time and never deadlock, the ring
  buffer is linearisable, and the outstanding count of a session and the notice of its disconnect are
  exact, but for the one schedule that \<open>race_notice_can_be_lost\<close> shows. The benchmark measures each
  request once, its figures are ordered, and its settings survive the command line. The unit tests of
  the repository pass on the model.

  \<^bold>\<open>Bounds and fuel.\<close> \<open>size_t\<close> is a natural number (all sizes are bounded by allocated capacities); 16, 32
  and 64 bit members are words where the width matters (size field, pool offsets, counters, tick
  counts). The framing loops take fuel: one round more than there are bytes in the ring, which
  \<open>read_fuel_enough\<close> (and its RIO counterpart) shows to be enough. The loops of the installer wait for
  the service control manager and may run for ever; with fuel 32 they end under the clock
  and wait-hint assumptions of \<open>installer_stop_terminates\<close>.

  \<^bold>\<open>Not modelled.\<close> Logging, console output and text conversion (no decision depends on them); the \<open>main\<close>
  functions of the servers and the client (start-up calls into the parts above); the graphical test client
  but for its metrics; protobuf itself (the \<open>codec\<close> is a parameter, and nothing of its round trips is assumed
  but where a theorem says so); of the unit tests, those that transfer over loopback sockets or test the
  generated protobuf code. \<open>double\<close> and \<open>float\<close> are real numbers, so that rounding is not modelled. Memory
  order is sequentially consistent: the code's relaxed counters carry no other data.
\<close>

end
